(* ===== verification/Prelude.thy ===== *)
theory Prelude
  imports Main "HOL-Library.AList" "HOL-Library.Multiset" "HOL-Library.Word"
begin

text \<open>
  Shared foundation of the development: the Go values the components are written over.

  \<^item> A Go \<open>string\<close> is its byte sequence, a HOL \<open>string\<close> (a \<open>char\<close> is one byte).
    \<open>TrimSpace\<close>, \<open>RuneCountInString\<close>, \<open>ToLower\<close> and \<open>EqualFold\<close> are the functions of
    the packages \<open>strings\<close> and \<open>unicode/utf8\<close> at byte level.
  \<^item> A Go map is an association list with distinct keys (\<open>gomap\<close>), updated by
    \<open>AList.update\<close>; the list order stands for one iteration order of the map.
    The locale \<open>go_multimap\<close> states what the components rely on when they build an
    index \<open>m[k] = append(m[k], v)\<close>.
  \<^item> A loop that pops a stack of unvisited vertices is described by the locale
    \<open>stack_search\<close>, which proves once that such a loop visits exactly the reachable
    vertices.
\<close>

named_theorems go_string \<open>rules that evaluate the byte-level string functions\<close>
named_theorems go_map \<open>rules about Go maps as association lists\<close>


section \<open>Strings as byte sequences\<close>

text \<open>The UTF-8 encodings of the code points for which \<open>unicode.IsSpace\<close> holds.\<close>

definition space_encodings :: "string list" where
  "space_encodings =
     [[CHR 0x09], [CHR 0x0A], [CHR 0x0B], [CHR 0x0C], [CHR 0x0D], [CHR 0x20],
      [CHR 0xC2, CHR 0x85], [CHR 0xC2, CHR 0xA0], [CHR 0xE1, CHR 0x9A, CHR 0x80],
      [CHR 0xE2, CHR 0x80, CHR 0x80], [CHR 0xE2, CHR 0x80, CHR 0x81],
      [CHR 0xE2, CHR 0x80, CHR 0x82], [CHR 0xE2, CHR 0x80, CHR 0x83],
      [CHR 0xE2, CHR 0x80, CHR 0x84], [CHR 0xE2, CHR 0x80, CHR 0x85],
      [CHR 0xE2, CHR 0x80, CHR 0x86], [CHR 0xE2, CHR 0x80, CHR 0x87],
      [CHR 0xE2, CHR 0x80, CHR 0x88], [CHR 0xE2, CHR 0x80, CHR 0x89],
      [CHR 0xE2, CHR 0x80, CHR 0x8A], [CHR 0xE2, CHR 0x80, CHR 0xA8],
      [CHR 0xE2, CHR 0x80, CHR 0xA9], [CHR 0xE2, CHR 0x80, CHR 0xAF],
      [CHR 0xE2, CHR 0x81, CHR 0x9F], [CHR 0xE3, CHR 0x80, CHR 0x80]]"

fun drop_prefix :: "'a list \<Rightarrow> 'a list \<Rightarrow> 'a list option" where
  "drop_prefix [] ys = Some ys"
| "drop_prefix (x # xs) [] = None"
| "drop_prefix (x # xs) (y # ys) = (if x = y then drop_prefix xs ys else None)"

fun strip_one :: "'a list list \<Rightarrow> 'a list \<Rightarrow> 'a list option" where
  "strip_one [] ys = None"
| "strip_one (e # es) ys =
     (if e = [] then strip_one es ys
      else case drop_prefix e ys of Some r \<Rightarrow> Some r | None \<Rightarrow> strip_one es ys)"

lemma drop_prefix_Some: "drop_prefix e ys = Some r \<longleftrightarrow> ys = e @ r"
  by (induction e ys rule: drop_prefix.induct) auto

lemma strip_one_Some: "strip_one es ys = Some r \<Longrightarrow> \<exists>e \<in> set es. e \<noteq> [] \<and> ys = e @ r"
  by (induction es) (auto simp: drop_prefix_Some split: if_splits option.splits)

lemma strip_one_None: "strip_one es ys = None \<longleftrightarrow> (\<forall>e \<in> set es. e \<noteq> [] \<longrightarrow> (\<forall>r. ys \<noteq> e @ r))"
  by (induction es) (auto simp: drop_prefix_Some split: option.splits,
      metis drop_prefix_Some not_None_eq)

lemma strip_one_length: "strip_one es ys = Some r \<Longrightarrow> length r < length ys"
  using strip_one_Some by fastforce

function trim_left :: "'a list list \<Rightarrow> 'a list \<Rightarrow> 'a list" where
  "trim_left es s = (case strip_one es s of None \<Rightarrow> s | Some r \<Rightarrow> trim_left es r)"
  by pat_completeness auto
termination
  by (relation "measure (\<lambda>(es, s). length s)") (auto simp: strip_one_length)

declare trim_left.simps [simp del]

definition trim_right :: "'a list list \<Rightarrow> 'a list \<Rightarrow> 'a list" where
  "trim_right es s = rev (trim_left (map rev es) (rev s))"

text \<open>\<open>strings.TrimSpace\<close>.\<close>

definition TrimSpace :: "string \<Rightarrow> string" where
  "TrimSpace s = trim_right space_encodings (trim_left space_encodings s)"

abbreviation blank :: "string \<Rightarrow> bool" where
  "blank s \<equiv> TrimSpace s = []"

lemma trim_left_None: "strip_one es (trim_left es s) = None"
proof (induction es s rule: trim_left.induct)
  case (1 es s)
  then show ?case
    by (cases "strip_one es s") (simp_all add: trim_left.simps [of es s])
qed

lemma trim_left_fixpoint: "strip_one es s = None \<Longrightarrow> trim_left es s = s"
  by (simp add: trim_left.simps)

lemma trim_left_suffix: "\<exists>p. s = p @ trim_left es s"
proof (induction es s rule: trim_left.induct)
  case (1 es s)
  show ?case
  proof (cases "strip_one es s")
    case None
    then show ?thesis by (simp add: trim_left.simps)
  next
    case (Some r)
    with 1 obtain p where "r = p @ trim_left es r" by auto
    moreover obtain e where "s = e @ r" using strip_one_Some [OF Some] by blast
    ultimately have "s = (e @ p) @ trim_left es r" by simp
    with Some show ?thesis by (metis option.simps(5) trim_left.simps)
  qed
qed

lemma trim_right_prefix: "\<exists>q. s = trim_right es s @ q"
proof -
  obtain p where "rev s = p @ trim_left (map rev es) (rev s)"
    using trim_left_suffix by blast
  then have "s = trim_right es s @ rev p"
    by (metis rev_append rev_rev_ident trim_right_def)
  then show ?thesis by blast
qed

lemma strip_one_None_prefix: "strip_one es (s @ q) = None \<Longrightarrow> strip_one es s = None"
  by (auto simp: strip_one_None)

lemma TrimSpace_idem [simp]: "TrimSpace (TrimSpace s) = TrimSpace s"
proof -
  let ?E = space_encodings and ?t = "trim_left space_encodings s"
  obtain q where q: "?t = trim_right ?E ?t @ q" using trim_right_prefix by blast
  have "strip_one ?E (trim_right ?E ?t @ q) = None"
    using q trim_left_None [of ?E s] by simp
  then have l: "trim_left ?E (trim_right ?E ?t) = trim_right ?E ?t"
    by (rule trim_left_fixpoint [OF strip_one_None_prefix])
  have "trim_right ?E (trim_right ?E ?t) = trim_right ?E ?t"
    by (simp add: trim_right_def trim_left_None trim_left_fixpoint)
  with l show ?thesis by (simp add: TrimSpace_def)
qed

lemma TrimSpace_length: "length (TrimSpace s) \<le> length s"
proof -
  obtain p where "s = p @ trim_left space_encodings s" using trim_left_suffix by blast
  then have "length (trim_left space_encodings s) \<le> length s"
    by (metis length_append le_add2)
  moreover obtain q where "trim_left space_encodings s = TrimSpace s @ q"
    using trim_right_prefix unfolding TrimSpace_def by blast
  ultimately show ?thesis by (metis length_append le_add1 order_trans)
qed

lemma TrimSpace_Nil [simp]: "TrimSpace [] = []"
  using TrimSpace_length [of "[]"] by simp

text \<open>Text that starts and ends with a visible ASCII byte is already trimmed. This rule
  evaluates \<open>TrimSpace\<close> on literals and on the constants of the code.\<close>

definition visible :: "char \<Rightarrow> bool" where
  "visible c \<longleftrightarrow> (0x21::nat) \<le> of_char c \<and> of_char c \<le> (0x7E::nat)"

lemma no_visible_encoding_ends: "list_all (\<lambda>e. e \<noteq> [] \<and> \<not> visible (hd e) \<and> \<not> visible (last e)) space_encodings"
  by (simp add: space_encodings_def visible_def)

lemma strip_one_visible:
  assumes "visible c" and "list_all (\<lambda>e. e \<noteq> [] \<and> \<not> visible (hd e)) es"
  shows "strip_one es (c # s) = None"
  using assms by (auto simp: strip_one_None list_all_iff Cons_eq_append_conv)

lemma TrimSpace_visible [simp, go_string]:
  assumes "s \<noteq> []" and "visible (hd s)" and "visible (last s)"
  shows "TrimSpace s = s"
proof -
  have *: "list_all (\<lambda>e. e \<noteq> [] \<and> \<not> visible (hd e)) space_encodings"
    and **: "list_all (\<lambda>e. e \<noteq> [] \<and> \<not> visible (hd e)) (map rev space_encodings)"
    using no_visible_encoding_ends by (auto simp: list_all_iff hd_rev)
  have l: "trim_left space_encodings s = s"
    using assms strip_one_visible [OF _ *] by (intro trim_left_fixpoint) (metis list.exhaust_sel)
  have "strip_one (map rev space_encodings) (rev s) = None"
    using assms strip_one_visible [OF _ **] by (metis hd_rev list.exhaust_sel rev_is_Nil_conv)
  then show ?thesis by (simp add: TrimSpace_def l trim_right_def trim_left_fixpoint)
qed

lemma visible_Char [simp, go_string]:
  "visible (Char b0 b1 b2 b3 b4 b5 b6 b7) \<longleftrightarrow>
     (0x21::nat) \<le> of_char (Char b0 b1 b2 b3 b4 b5 b6 b7) \<and>
     of_char (Char b0 b1 b2 b3 b4 b5 b6 b7) \<le> (0x7E::nat)"
  by (simp add: visible_def)

text \<open>The evaluation of \<open>TrimSpace\<close> takes a short cut on text between letters.\<close>

fun plain :: "char \<Rightarrow> bool" where
  "plain (Char b0 b1 b2 b3 b4 b5 b6 b7) \<longleftrightarrow> b6 \<and> \<not> b7 \<and> \<not> (b0 \<and> b1 \<and> b2 \<and> b3 \<and> b4 \<and> b5)"

lemma plain_visible: "plain c \<Longrightarrow> visible c"
  by (cases c) (auto simp: visible_def of_char_def)

lemma TrimSpace_code [code]:
  "TrimSpace s =
     (case s of [] \<Rightarrow> []
      | c # _ \<Rightarrow> if plain c \<and> plain (last s) then s else trim_right space_encodings (trim_left space_encodings s))"
proof (cases s)
  case Nil
  then show ?thesis
    using TrimSpace_Nil by simp
next
  case (Cons c cs)
  have trimmed: "TrimSpace (c # cs) = c # cs" if "plain c" and "plain (last (c # cs))"
    by (rule TrimSpace_visible) (use that plain_visible in auto)
  show ?thesis
    unfolding Cons using trimmed by (simp add: TrimSpace_def)
qed

lemmas go_string_eval = TrimSpace_def trim_right_def trim_left.simps space_encodings_def

text \<open>The width of the first rune, as \<open>utf8.DecodeRuneInString\<close> decodes it: an invalid
  sequence is one byte wide.\<close>

definition cont_byte :: "char \<Rightarrow> bool" where
  "cont_byte c \<longleftrightarrow> 0x80 \<le> (of_char c :: nat) \<and> (of_char c :: nat) \<le> 0xBF"

definition second_byte_ok :: "nat \<Rightarrow> nat \<Rightarrow> bool" where
  "second_byte_ok b0 b1 \<longleftrightarrow>
     (if b0 = 0xE0 then 0xA0 \<le> b1 \<and> b1 \<le> 0xBF
      else if b0 = 0xED then 0x80 \<le> b1 \<and> b1 \<le> 0x9F
      else if b0 = 0xF0 then 0x90 \<le> b1 \<and> b1 \<le> 0xBF
      else if b0 = 0xF4 then 0x80 \<le> b1 \<and> b1 \<le> 0x8F
      else 0x80 \<le> b1 \<and> b1 \<le> 0xBF)"

fun rune_width :: "string \<Rightarrow> nat" where
  "rune_width [] = 0"
| "rune_width (c # cs) =
     (let b0 = of_char c :: nat in
      if 0xC2 \<le> b0 \<and> b0 \<le> 0xDF then
        (case cs of c1 # _ \<Rightarrow> if cont_byte c1 then 2 else 1 | _ \<Rightarrow> 1)
      else if 0xE0 \<le> b0 \<and> b0 \<le> 0xEF then
        (case cs of c1 # c2 # _ \<Rightarrow>
           if second_byte_ok b0 (of_char c1) \<and> cont_byte c2 then 3 else 1 | _ \<Rightarrow> 1)
      else if 0xF0 \<le> b0 \<and> b0 \<le> 0xF4 then
        (case cs of c1 # c2 # c3 # _ \<Rightarrow>
           if second_byte_ok b0 (of_char c1) \<and> cont_byte c2 \<and> cont_byte c3 then 4 else 1 | _ \<Rightarrow> 1)
      else 1)"

lemma rune_width_bounds: "s \<noteq> [] \<Longrightarrow> 1 \<le> rune_width s \<and> rune_width s \<le> length s"
  by (cases s) (auto simp: Let_def split: list.splits)

text \<open>\<open>utf8.RuneCountInString\<close>.\<close>

function RuneCountInString :: "string \<Rightarrow> nat" where
  "RuneCountInString s = (if s = [] then 0 else Suc (RuneCountInString (drop (rune_width s) s)))"
  by pat_completeness auto
termination
proof (relation "measure length")
  fix s :: string assume "s \<noteq> []"
  then show "(drop (rune_width s) s, s) \<in> measure length"
    using rune_width_bounds [of s] by auto
qed auto

declare RuneCountInString.simps [simp del]

lemma RuneCountInString_le: "RuneCountInString s \<le> length s"
proof (induction s rule: RuneCountInString.induct)
  case (1 s)
  show ?case
  proof (cases "s = []")
    case False
    with 1 rune_width_bounds [OF False] show ?thesis
      by (auto simp: RuneCountInString.simps [of s])
  qed (simp add: RuneCountInString.simps)
qed

text \<open>\<open>strings.ToLower\<close>. The two non-ASCII code points whose lower case is ASCII
  (U+0130 and the Kelvin sign U+212A) are mapped; every other non-ASCII code point keeps
  a non-ASCII lower case, so its bytes are left as they are: callers only compare the
  result with ASCII text.\<close>

definition ascii_lower :: "char \<Rightarrow> char" where
  "ascii_lower c =
     (if (0x41::nat) \<le> of_char c \<and> of_char c \<le> (0x5A::nat) then char_of ((of_char c :: nat) + 32) else c)"

fun ToLower :: "string \<Rightarrow> string" where
  "ToLower [] = []"
| "ToLower (c # cs) =
     (case drop_prefix [CHR 0xC4, CHR 0xB0] (c # cs) of
        Some r \<Rightarrow> CHR ''i'' # ToLower (drop 1 cs)
      | None \<Rightarrow>
         (case drop_prefix [CHR 0xE2, CHR 0x84, CHR 0xAA] (c # cs) of
            Some r \<Rightarrow> CHR ''k'' # ToLower (drop 2 cs)
          | None \<Rightarrow> ascii_lower c # ToLower cs))"

text \<open>\<open>strings.EqualFold\<close> against ASCII text without the letters \<open>k\<close> and \<open>s\<close> (the two
  that have a non-ASCII case variant): plain ASCII case folding.\<close>

definition EqualFoldAscii :: "string \<Rightarrow> string \<Rightarrow> bool" where
  "EqualFoldAscii s t \<longleftrightarrow> map ascii_lower s = map ascii_lower t"


section \<open>Go maps as association lists\<close>

type_synonym ('k, 'v) gomap = "('k \<times> 'v) list"

text \<open>\<open>m[k]\<close> for a map of slices: the zero value of a missing key is the nil slice.\<close>

definition mget_list :: "('k, 'v list) gomap \<Rightarrow> 'k \<Rightarrow> 'v list" where
  "mget_list m k = (case map_of m k of None \<Rightarrow> [] | Some vs \<Rightarrow> vs)"

text \<open>\<open>m[k] = append(m[k], v)\<close>.\<close>

definition mappend :: "'k \<Rightarrow> 'v \<Rightarrow> ('k, 'v list) gomap \<Rightarrow> ('k, 'v list) gomap" where
  "mappend k v m = AList.update k (mget_list m k @ [v]) m"

abbreviation mhas :: "('k, 'v) gomap \<Rightarrow> 'k \<Rightarrow> bool" where
  "mhas m k \<equiv> map_of m k \<noteq> None"

abbreviation mkeys :: "('k, 'v) gomap \<Rightarrow> 'k list" where
  "mkeys m \<equiv> map fst m"

lemma map_of_update [simp, go_map]: "map_of (AList.update k v m) = (map_of m)(k \<mapsto> v)"
  by (rule update_conv')

lemma mget_list_Nil [simp]: "mget_list [] k = []"
  by (simp add: mget_list_def)

lemma mget_list_mappend [simp, go_map]:
  "mget_list (mappend k v m) k' = (if k' = k then mget_list m k @ [v] else mget_list m k')"
  by (auto simp: mappend_def mget_list_def)

lemma mget_list_nonempty: "mget_list m k \<noteq> [] \<Longrightarrow> k \<in> set (mkeys m)"
  by (auto simp: mget_list_def split: option.splits dest: map_of_SomeD) (force dest: map_of_SomeD)

lemma finite_mget_list [simp]: "finite {k. mget_list m k \<noteq> []}"
  by (rule finite_subset [where B = "set (mkeys m)"]) (auto dest: mget_list_nonempty)

lemma mhas_iff: "mhas m k \<longleftrightarrow> k \<in> set (mkeys m)"
  by (simp add: map_of_eq_None_iff)

text \<open>The contract of a map of slices that a component fills by appending: what a lookup
  returns after an append. The index-building loops of the components are folds over it.\<close>

locale go_multimap =
  fixes mempty :: 'm
    and lookup :: "'m \<Rightarrow> 'k \<Rightarrow> 'v list"
    and add :: "'k \<Rightarrow> 'v \<Rightarrow> 'm \<Rightarrow> 'm"
  assumes lookup_empty: "lookup mempty k = []"
    and lookup_add: "lookup (add k v m) k' = (if k' = k then lookup m k @ [v] else lookup m k')"
begin

lemma lookup_fold_add:
  "lookup (fold (\<lambda>x. add (f x) (g x)) xs m) k = lookup m k @ map g (filter (\<lambda>x. f x = k) xs)"
  by (induction xs arbitrary: m) (auto simp: lookup_add)

lemma lookup_index: "lookup (fold (\<lambda>x. add (f x) (g x)) xs mempty) k = map g (filter (\<lambda>x. f x = k) xs)"
  by (simp add: lookup_fold_add lookup_empty)

lemma lookup_fold_add_opt:
  "lookup (fold (\<lambda>x m. case f x of None \<Rightarrow> m | Some k \<Rightarrow> add k (g x) m) xs m) k =
   lookup m k @ map g (filter (\<lambda>x. f x = Some k) xs)"
  by (induction xs arbitrary: m) (auto simp: lookup_add split: option.splits)

lemma lookup_index_opt:
  "lookup (fold (\<lambda>x m. case f x of None \<Rightarrow> m | Some k \<Rightarrow> add k (g x) m) xs mempty) k =
   map g (filter (\<lambda>x. f x = Some k) xs)"
  by (simp add: lookup_fold_add_opt lookup_empty)

end

interpretation gomm: go_multimap "[]" mget_list mappend
  by unfold_locales simp_all


section \<open>Stack searches\<close>

text \<open>
  Several loops of the server pop a vertex off a stack, skip it when it was visited (or is
  excluded), and otherwise mark it and push its unvisited successors. A stack is a list
  whose head is the top, so pushing the successors in order leaves the last one on top.
\<close>

definition search_order :: "('k \<Rightarrow> 'v list) \<Rightarrow> (('n list \<times> 'k list) \<times> ('n list \<times> 'k list)) set" where
  "search_order succs =
     inv_image (less_than <*lex*> less_than)
       (\<lambda>(stack, visited). (card ({n. succs n \<noteq> []} - set visited), length stack))"

lemma wf_search_order [simp]: "wf (search_order succs)"
  unfolding search_order_def by (intro wf_inv_image wf_lex_prod wf_less_than)

lemma search_order_visit:
  assumes "finite {n. succs n \<noteq> []}" and "n \<notin> set visited" and "length new \<le> length (succs n)"
  shows "((new @ stack, n # visited), (n # stack, visited)) \<in> search_order succs"
proof (cases "succs n = []")
  case True
  then have "{m. succs m \<noteq> []} - set (n # visited) = {m. succs m \<noteq> []} - set visited" by auto
  with True assms(3) show ?thesis by (simp add: search_order_def)
next
  case False
  have "card ({m. succs m \<noteq> []} - set (n # visited)) < card ({m. succs m \<noteq> []} - set visited)"
    by (rule psubset_card_mono) (use False assms in auto)
  then show ?thesis by (simp add: search_order_def)
qed

lemma search_order_skip [simp]: "((stack, visited), (n # stack, visited)) \<in> search_order succs"
  by (simp add: search_order_def)

text \<open>The termination order of a loop with fixed parameters \<open>p\<close>.\<close>

definition loop_order :: "('p \<Rightarrow> 'k \<Rightarrow> 'v list) \<Rightarrow> (('p \<times> 'n list \<times> 'k list) \<times> ('p \<times> 'n list \<times> 'k list)) set" where
  "loop_order succs = same_fst (\<lambda>_. True) (\<lambda>p. search_order (succs p))"

lemma wf_loop_order [simp]: "wf (loop_order succs)"
  unfolding loop_order_def by (rule wf_same_fst) simp

lemma loop_order_iff [simp]: "((p, s), (p', s')) \<in> loop_order succs \<longleftrightarrow> p = p' \<and> (s, s') \<in> search_order (succs p')"
  by (auto simp: loop_order_def same_fst_def)

locale finite_succs =
  fixes succs :: "'n \<Rightarrow> 'n list"
    and excluded :: "'n \<Rightarrow> bool"
  assumes finite_succs: "finite {n. succs n \<noteq> []}"
begin

definition edge_rel :: "('n \<times> 'n) set" where
  "edge_rel = {(n, m). m \<in> set (succs n) \<and> \<not> excluded m}"

definition pushed :: "'n \<Rightarrow> 'n list \<Rightarrow> 'n list \<Rightarrow> 'n list" where
  "pushed n vis st = rev (filter (\<lambda>m. m \<notin> set (n # vis)) (succs n)) @ st"

text \<open>Every run of such a loop is finite: a visit with successors uses up one of the
  finitely many vertices that have any, and every other turn shortens the stack.\<close>

lemma search_induct [case_names finish skip visit]:
  assumes finish: "\<And>vis. P [] vis"
    and skip: "\<And>n st vis. n \<in> set vis \<or> excluded n \<Longrightarrow> P st vis \<Longrightarrow> P (n # st) vis"
    and visit: "\<And>n st vis. n \<notin> set vis \<Longrightarrow> \<not> excluded n \<Longrightarrow>
      P (pushed n vis st) (n # vis) \<Longrightarrow> P (n # st) vis"
  shows "P st vis"
proof -
  let ?K = "{n. succs n \<noteq> []}"
  let ?f = "\<lambda>(st, vis). (card (?K - set vis), length st)"
  have "wf (inv_image (less_than <*lex*> less_than) ?f)" by auto
  then have "case (st, vis) of (st, vis) \<Rightarrow> P st vis"
  proof (induction "(st, vis)" arbitrary: st vis rule: wf_induct_rule)
    case less
    note IH = less
    show ?case
    proof (cases st)
      case Nil
      then show ?thesis using finish by simp
    next
      case (Cons n st')
      show ?thesis
      proof (cases "n \<in> set vis \<or> excluded n")
        case True
        have "P st' vis" using IH [of st' vis] Cons by simp
        with True Cons show ?thesis using skip by simp
      next
        case False
        have "((pushed n vis st', n # vis), (st, vis)) \<in> inv_image (less_than <*lex*> less_than) ?f"
        proof (cases "succs n = []")
          case True
          then have "?K - set (n # vis) = ?K - set vis" by auto
          with True Cons show ?thesis by (simp add: pushed_def)
        next
          case ne: False
          have "card (?K - set (n # vis)) < card (?K - set vis)"
            by (rule psubset_card_mono) (use ne False finite_succs in auto)
          then show ?thesis by simp
        qed
        from IH [OF this] have "P (pushed n vis st') (n # vis)" by simp
        with False Cons show ?thesis using visit by simp
      qed
    qed
  qed
  then show ?thesis by simp
qed

lemma closed_under_rel:
  assumes cl: "\<And>n m. n \<in> V \<Longrightarrow> (n, m) \<in> edge_rel \<Longrightarrow> m \<in> V"
    and "(n, m) \<in> edge_rel\<^sup>*" and "n \<in> V"
  shows "m \<in> V"
  using assms(2,3) by (induction rule: rtrancl_induct) (auto dest: cl)

lemma pushed_elem: "m \<in> set (pushed n vis st) \<longleftrightarrow> m \<in> set st \<or> (m \<in> set (succs n) \<and> m \<notin> set (n # vis))"
  by (auto simp: pushed_def)

end

text \<open>A search that runs to the end and returns what it visited.\<close>

locale stack_search = finite_succs succs excluded
  for succs :: "'n \<Rightarrow> 'n list" and excluded :: "'n \<Rightarrow> bool" +
  fixes loop :: "'n list \<Rightarrow> 'n list \<Rightarrow> 'n list"
  assumes loop_done: "loop [] vis = vis"
    and loop_skip: "n \<in> set vis \<or> excluded n \<Longrightarrow> loop (n # st) vis = loop st vis"
    and loop_visit: "n \<notin> set vis \<Longrightarrow> \<not> excluded n \<Longrightarrow>
      loop (n # st) vis = loop (rev (filter (\<lambda>m. m \<notin> set (n # vis)) (succs n)) @ st) (n # vis)"
begin

lemma loop_visit': "n \<notin> set vis \<Longrightarrow> \<not> excluded n \<Longrightarrow> loop (n # st) vis = loop (pushed n vis st) (n # vis)"
  unfolding pushed_def by (rule loop_visit)

lemma loop_sound:
  "m \<in> set (loop st vis) \<Longrightarrow> m \<in> set vis \<or> (\<exists>n \<in> set st. \<not> excluded n \<and> (n, m) \<in> edge_rel\<^sup>*)"
proof (induction st vis rule: search_induct)
  case (finish vis)
  then show ?case by (simp add: loop_done)
next
  case (skip n st vis)
  then show ?case by (auto simp: loop_skip)
next
  case (visit n st vis)
  then have "m \<in> set (loop (pushed n vis st) (n # vis))" by (simp add: loop_visit')
  with visit.IH consider "m = n" | "m \<in> set vis"
    | k where "k \<in> set (pushed n vis st)" "\<not> excluded k" "(k, m) \<in> edge_rel\<^sup>*" by auto
  then show ?case
  proof cases
    case 3
    then show ?thesis using visit.hyps
      by (auto simp: pushed_elem edge_rel_def intro: converse_rtrancl_into_rtrancl)
  qed (use visit.hyps in auto)
qed

lemma loop_contains: "set vis \<subseteq> set (loop st vis) \<and> (\<forall>n \<in> set st. \<not> excluded n \<longrightarrow> n \<in> set (loop st vis))"
proof (induction st vis rule: search_induct)
  case (visit n st vis)
  then show ?case by (auto simp: loop_visit' pushed_elem)
qed (auto simp: loop_done loop_skip)

lemma loop_closed:
  assumes "\<And>n m. n \<in> set vis \<Longrightarrow> (n, m) \<in> edge_rel \<Longrightarrow> m \<in> set vis \<union> set st"
    and "n \<in> set (loop st vis)" and "(n, m) \<in> edge_rel"
  shows "m \<in> set (loop st vis)"
  using assms
proof (induction st vis rule: search_induct)
  case (finish vis)
  then show ?case by (auto simp: loop_done)
next
  case (skip n' st vis)
  then show ?case by (auto simp: loop_skip edge_rel_def)
next
  case (visit n' st vis)
  have "m \<in> set (loop (pushed n' vis st) (n' # vis))"
    by (rule visit.IH) (use visit.prems visit.hyps in \<open>auto simp: loop_visit' pushed_elem edge_rel_def\<close>)
  then show ?case using visit.hyps by (simp add: loop_visit')
qed

theorem loop_reaches: "\<not> excluded s \<Longrightarrow> set (loop [s] []) = {m. (s, m) \<in> edge_rel\<^sup>*}"
  using loop_sound [of _ "[s]" "[]"] loop_contains [of "[]" "[s]"] loop_closed [of "[]" "[s]"]
  by (auto intro: closed_under_rel)

end

text \<open>A search that stops at the first vertex it looks for.\<close>

locale stack_find = finite_succs succs "\<lambda>_. False"
  for succs :: "'n \<Rightarrow> 'n list" +
  fixes hit :: "'n \<Rightarrow> bool"
    and find :: "'n list \<Rightarrow> 'n list \<Rightarrow> bool"
  assumes find_done: "\<not> find [] vis"
    and find_skip: "n \<in> set vis \<Longrightarrow> find (n # st) vis = find st vis"
    and find_hit: "n \<notin> set vis \<Longrightarrow> hit n \<Longrightarrow> find (n # st) vis"
    and find_visit: "n \<notin> set vis \<Longrightarrow> \<not> hit n \<Longrightarrow>
      find (n # st) vis = find (rev (filter (\<lambda>m. m \<notin> set (n # vis)) (succs n)) @ st) (n # vis)"
begin

lemma find_visit': "n \<notin> set vis \<Longrightarrow> \<not> hit n \<Longrightarrow> find (n # st) vis = find (pushed n vis st) (n # vis)"
  unfolding pushed_def by (rule find_visit)

definition hit_free :: "'n set \<Rightarrow> bool" where
  "hit_free V \<longleftrightarrow> (\<forall>n \<in> V. \<not> hit n \<and> (\<forall>m. (n, m) \<in> edge_rel \<longrightarrow> m \<in> V))"

lemma find_sound: "find st vis \<Longrightarrow> \<exists>n \<in> set st. \<exists>m. (n, m) \<in> edge_rel\<^sup>* \<and> hit m"
proof (induction st vis rule: search_induct)
  case (visit n st vis)
  show ?case
  proof (cases "hit n")
    case False
    with visit obtain k m where "k \<in> set (pushed n vis st)" "(k, m) \<in> edge_rel\<^sup>*" "hit m"
      by (auto simp: find_visit')
    then show ?thesis
      by (auto simp: pushed_elem edge_rel_def intro: converse_rtrancl_into_rtrancl)
  qed auto
qed (auto simp: find_done find_skip)

lemma find_complete:
  assumes "\<not> find st vis"
    and "\<And>n m. n \<in> set vis \<Longrightarrow> (n, m) \<in> edge_rel \<Longrightarrow> m \<in> set vis \<union> set st"
    and "\<And>n. n \<in> set vis \<Longrightarrow> \<not> hit n"
  shows "\<exists>V. set vis \<union> set st \<subseteq> V \<and> hit_free V"
  using assms
proof (induction st vis rule: search_induct)
  case (finish vis)
  then show ?case by (intro exI [of _ "set vis"]) (auto simp: hit_free_def)
next
  case (skip n st vis)
  then have n: "n \<in> set vis" by simp
  have "\<exists>V. set vis \<union> set st \<subseteq> V \<and> hit_free V"
  proof (rule skip.IH)
    show "\<not> find st vis" using skip.prems(1) find_skip [OF n] by simp
    show "\<And>k m. k \<in> set vis \<Longrightarrow> (k, m) \<in> edge_rel \<Longrightarrow> m \<in> set vis \<union> set st"
    proof -
      fix k m assume "k \<in> set vis" "(k, m) \<in> edge_rel"
      then have "m \<in> set vis \<union> set (n # st)" by (rule skip.prems(2))
      with n show "m \<in> set vis \<union> set st" by auto
    qed
    show "\<And>k. k \<in> set vis \<Longrightarrow> \<not> hit k" by (rule skip.prems(3))
  qed
  with n show ?case by auto
next
  case (visit n st vis)
  then have nh: "\<not> hit n" using find_hit by blast
  have "\<exists>V. set (n # vis) \<union> set (pushed n vis st) \<subseteq> V \<and> hit_free V"
  proof (rule visit.IH)
    show "\<not> find (pushed n vis st) (n # vis)"
      using visit.prems(1) find_visit' [OF visit.hyps(1) nh] by simp
    show "\<And>k m. k \<in> set (n # vis) \<Longrightarrow> (k, m) \<in> edge_rel \<Longrightarrow> m \<in> set (n # vis) \<union> set (pushed n vis st)"
    proof -
      fix k m assume km: "k \<in> set (n # vis)" "(k, m) \<in> edge_rel"
      show "m \<in> set (n # vis) \<union> set (pushed n vis st)"
      proof (cases "k = n")
        case True
        with km show ?thesis by (auto simp: pushed_elem edge_rel_def)
      next
        case False
        with km have "m \<in> set vis \<union> set (n # st)" using visit.prems(2) by simp
        then show ?thesis by (auto simp: pushed_elem)
      qed
    qed
    show "\<And>k. k \<in> set (n # vis) \<Longrightarrow> \<not> hit k" using visit.prems(3) nh by auto
  qed
  then show ?case by (auto simp: pushed_def)
qed

theorem find_reaches: "find [s] [] \<longleftrightarrow> (\<exists>m. (s, m) \<in> edge_rel\<^sup>* \<and> hit m)"
proof
  assume "find [s] []"
  then show "\<exists>m. (s, m) \<in> edge_rel\<^sup>* \<and> hit m" using find_sound by fastforce
next
  assume "\<exists>m. (s, m) \<in> edge_rel\<^sup>* \<and> hit m"
  then obtain m where m: "(s, m) \<in> edge_rel\<^sup>*" "hit m" by blast
  show "find [s] []"
  proof (rule ccontr)
    assume "\<not> find [s] []"
    from find_complete [OF this] obtain V where "s \<in> V"
      and V: "hit_free V" by auto
    with m have "m \<in> V" by (auto simp: hit_free_def intro: closed_under_rel [of V s m])
    with V m show False by (auto simp: hit_free_def)
  qed
qed

end

end
