(* ===== verification/Wf_Types.thy ===== *)
theory Wf_Types
  imports Prelude
begin

text \<open>
  The workflow data model: \<open>server/workflow/types.go\<close>, the execution-target policy of
  \<open>server/workflow/execution_target.go\<close> and the key syntax of
  \<open>shared/workflowkey/key.go\<close>.

  Structs are records, the sealed interface \<open>Node\<close> is a datatype with one constructor per
  implementation, Go pointers that encode absence are options. String enums that the code
  only compares (\<open>NodeKind\<close>, \<open>ContextMode\<close>, \<open>ExecutionTargetMode\<close>) are datatypes with
  one constructor per constant and one for every other string; enums the code trims before
  it compares stay strings. A nil \<open>Node\<close> is not a value of \<open>Node\<close>: \<open>NewNode\<close> returns
  one only beside an error.
\<close>

type_synonym uuid = "128 word"
type_synonym NodeID = string
type_synonym TransitionGroupID = string
type_synonym EdgeID = string
type_synonym TaskID = string
type_synonym TransitionID = string
type_synonym ModelKey = string
type_synonym TransitionBranchKey = string

definition IsZero :: "uuid \<Rightarrow> bool" where
  "IsZero u \<longleftrightarrow> u = 0"

datatype NodeKind =
    NodeKindStart | NodeKindAgent | NodeKindScript | NodeKindJoin | NodeKindTerminal
  | NodeKindOther string

datatype ContextMode =
    ContextModeNewSession | ContextModeContinueSession | ContextModeCompactAndContinueSession
  | ContextModeOther string


section \<open>Selections and context sources\<close>

type_synonym AssigneeSelection = string
type_synonym ThinkingSelection = string
type_synonym ContextSourceKind = string
type_synonym BindingSource = string
type_synonym ParameterPurpose = string

abbreviation AssigneeSelectionConfigured :: AssigneeSelection where
  "AssigneeSelectionConfigured \<equiv> ''configured''"
abbreviation AssigneeSelectionPreviousNode :: AssigneeSelection where
  "AssigneeSelectionPreviousNode \<equiv> ''previous_node''"
abbreviation ThinkingSelectionConfigured :: ThinkingSelection where
  "ThinkingSelectionConfigured \<equiv> ''configured''"
abbreviation ThinkingSelectionPreviousNode :: ThinkingSelection where
  "ThinkingSelectionPreviousNode \<equiv> ''previous_node''"

definition CanonicalAssigneeSelection :: "AssigneeSelection \<Rightarrow> AssigneeSelection" where
  "CanonicalAssigneeSelection selection = TrimSpace selection"

definition DefaultAssigneeSelection :: "AssigneeSelection \<Rightarrow> AssigneeSelection" where
  "DefaultAssigneeSelection selection =
     (let canonical = CanonicalAssigneeSelection selection
      in if canonical = '''' then AssigneeSelectionConfigured else canonical)"

definition CanonicalThinkingSelection :: "ThinkingSelection \<Rightarrow> ThinkingSelection" where
  "CanonicalThinkingSelection selection = TrimSpace selection"

definition DefaultThinkingSelection :: "ThinkingSelection \<Rightarrow> ThinkingSelection" where
  "DefaultThinkingSelection selection =
     (let canonical = CanonicalThinkingSelection selection
      in if canonical = '''' then ThinkingSelectionConfigured else canonical)"

abbreviation ContextSourceImmediateSource :: ContextSourceKind where
  "ContextSourceImmediateSource \<equiv> ''immediate_source''"
abbreviation ContextSourceSelectedNode :: ContextSourceKind where
  "ContextSourceSelectedNode \<equiv> ''selected_node''"
abbreviation ContextSourcePreviousTarget :: ContextSourceKind where
  "ContextSourcePreviousTarget \<equiv> ''previous_target''"
abbreviation ContextSourcePreviousTargetOrNew :: ContextSourceKind where
  "ContextSourcePreviousTargetOrNew \<equiv> ''previous_target_or_new''"

record ContextSource =
  cs_Kind :: ContextSourceKind
  cs_NodeKey :: ModelKey

definition CanonicalContextSource :: "ContextSource \<Rightarrow> ContextSource" where
  "CanonicalContextSource source =
     (let kind = TrimSpace (cs_Kind source); nodeKey = TrimSpace (cs_NodeKey source) in
      if kind = '''' \<or> kind = ContextSourceImmediateSource
      then \<lparr>cs_Kind = ContextSourceImmediateSource, cs_NodeKey = ''''\<rparr>
      else if kind = ContextSourcePreviousTarget \<or> kind = ContextSourcePreviousTargetOrNew
      then \<lparr>cs_Kind = kind, cs_NodeKey = ''''\<rparr>
      else \<lparr>cs_Kind = kind, cs_NodeKey = nodeKey\<rparr>)"

abbreviation BindingSourceTransitionOutput :: BindingSource where
  "BindingSourceTransitionOutput \<equiv> ''transition_output''"


section \<open>Execution target policy\<close>

datatype ExecutionTargetMode =
    ExecutionTargetModeUnset | ExecutionTargetModeNone | ExecutionTargetModeHead
  | ExecutionTargetModeDefaultBranch | ExecutionTargetModeCustomRef
  | ExecutionTargetModeAskOnFirstExecution | ExecutionTargetModeOther string

record ExecutionTargetPolicy =
  etp_Mode :: ExecutionTargetMode
  etp_CustomRef :: "string option"

datatype ExecutionTargetUnavailableCause =
    CauseInvalidRevision | CauseNonCommit | CauseDefaultBranchMissing
  | CauseDefaultBranchAmbiguous | CauseGitFailure | CauseOther string

definition DefaultExecutionTargetPolicy :: ExecutionTargetPolicy where
  "DefaultExecutionTargetPolicy =
     \<lparr>etp_Mode = ExecutionTargetModeAskOnFirstExecution, etp_CustomRef = None\<rparr>"

definition ExecutionTargetPolicy_Canonical :: "ExecutionTargetPolicy \<Rightarrow> ExecutionTargetPolicy" where
  "ExecutionTargetPolicy_Canonical p =
     (if etp_Mode p = ExecutionTargetModeUnset then DefaultExecutionTargetPolicy else p)"

definition validExecutionTargetPolicyMode :: "ExecutionTargetMode \<Rightarrow> bool" where
  "validExecutionTargetPolicyMode mode =
     (case mode of
        ExecutionTargetModeNone \<Rightarrow> True | ExecutionTargetModeHead \<Rightarrow> True
      | ExecutionTargetModeDefaultBranch \<Rightarrow> True | ExecutionTargetModeCustomRef \<Rightarrow> True
      | ExecutionTargetModeAskOnFirstExecution \<Rightarrow> True | _ \<Rightarrow> False)"

definition validConcreteExecutionTargetMode :: "ExecutionTargetMode \<Rightarrow> bool" where
  "validConcreteExecutionTargetMode mode =
     (case mode of
        ExecutionTargetModeNone \<Rightarrow> True | ExecutionTargetModeHead \<Rightarrow> True
      | ExecutionTargetModeDefaultBranch \<Rightarrow> True | ExecutionTargetModeCustomRef \<Rightarrow> True
      | _ \<Rightarrow> False)"

datatype TargetSelectionError =
    ModeNotConcrete | CustomRefOnlyForCustomRef | CustomRefRequired | CauseInvalid

text \<open>\<open>ExecutionTargetSelection.Validate\<close> on the flds \<open>Mode\<close> and \<open>CustomRef\<close>; \<open>None\<close>
  is a nil error.\<close>

definition ExecutionTargetSelection_Validate ::
  "ExecutionTargetMode \<Rightarrow> string option \<Rightarrow> TargetSelectionError option" where
  "ExecutionTargetSelection_Validate mode customRef =
     (if \<not> validConcreteExecutionTargetMode mode then Some ModeNotConcrete
      else if mode \<noteq> ExecutionTargetModeCustomRef then
        (if customRef \<noteq> None then Some CustomRefOnlyForCustomRef else None)
      else case customRef of
             None \<Rightarrow> Some CustomRefRequired
           | Some ref \<Rightarrow> if blank ref then Some CustomRefRequired else None)"

definition ExecutionTargetSelection_Equal ::
  "ExecutionTargetMode \<times> string option \<Rightarrow> ExecutionTargetMode \<times> string option \<Rightarrow> bool" where
  "ExecutionTargetSelection_Equal s other =
     (if fst s \<noteq> fst other then False
      else case (snd s, snd other) of
             (Some a, Some b) \<Rightarrow> a = b
           | (a, b) \<Rightarrow> a = None \<and> b = None)"

record ConfiguredExecutionTargetUnavailable =
  ceu_Mode :: ExecutionTargetMode
  ceu_RequestedRef :: "string option"
  ceu_Cause :: ExecutionTargetUnavailableCause

definition ConfiguredExecutionTargetUnavailable_Validate ::
  "ConfiguredExecutionTargetUnavailable \<Rightarrow> TargetSelectionError option" where
  "ConfiguredExecutionTargetUnavailable_Validate u =
     (case ExecutionTargetSelection_Validate (ceu_Mode u) (ceu_RequestedRef u) of
        Some err \<Rightarrow> Some err
      | None \<Rightarrow> (case ceu_Cause u of CauseOther _ \<Rightarrow> Some CauseInvalid | _ \<Rightarrow> None))"


section \<open>Nodes\<close>

record NodeIdentity =
  ni_WorkflowID :: uuid
  ni_ID :: NodeID
  ni_Key :: ModelKey
  ni_DisplayName :: string
  ni_GroupID :: "string option"

record JoinInputProvider =
  jip_InputName :: string
  jip_ProviderEdgeID :: EdgeID

text \<open>\<open>OptionalScriptPath\<close>: the pair of a value and its \<open>set\<close> flag is an option.\<close>

type_synonym OptionalScriptPath = "string option"

definition AbsentScriptPath :: OptionalScriptPath where
  "AbsentScriptPath = None"

definition PresentScriptPath :: "string \<Rightarrow> OptionalScriptPath \<times> bool" where
  "PresentScriptPath path =
     (let trimmed = TrimSpace path
      in if trimmed = '''' then (None, False) else (Some trimmed, True))"

definition ScriptPath_String :: "OptionalScriptPath \<Rightarrow> string" where
  "ScriptPath_String p = (case p of None \<Rightarrow> '''' | Some v \<Rightarrow> v)"

datatype Node =
    StartNode NodeIdentity
  | AgentNode NodeIdentity (agent_SubagentRole: string) (agent_CompletionMode: string)
  | ScriptNode NodeIdentity (script_ScriptPath: OptionalScriptPath)
  | JoinNode NodeIdentity (join_JoinInputProviders: "JoinInputProvider list")
  | TerminalNode NodeIdentity

fun Identity :: "Node \<Rightarrow> NodeIdentity" where
  "Identity (StartNode i) = i"
| "Identity (AgentNode i _ _) = i"
| "Identity (ScriptNode i _) = i"
| "Identity (JoinNode i _) = i"
| "Identity (TerminalNode i) = i"

fun Kind :: "Node \<Rightarrow> NodeKind" where
  "Kind (StartNode _) = NodeKindStart"
| "Kind (AgentNode _ _ _) = NodeKindAgent"
| "Kind (ScriptNode _ _) = NodeKindScript"
| "Kind (JoinNode _ _) = NodeKindJoin"
| "Kind (TerminalNode _) = NodeKindTerminal"

definition NodeWorkflowID :: "Node \<Rightarrow> uuid" where
  "NodeWorkflowID node = ni_WorkflowID (Identity node)"

definition NodeIDOf :: "Node \<Rightarrow> NodeID" where
  "NodeIDOf node = ni_ID (Identity node)"

definition NodeKey :: "Node \<Rightarrow> ModelKey" where
  "NodeKey node = ni_Key (Identity node)"

definition NodeDisplayName :: "Node \<Rightarrow> string" where
  "NodeDisplayName node = ni_DisplayName (Identity node)"

definition DisplayLabel :: "string \<Rightarrow> string \<Rightarrow> string" where
  "DisplayLabel displayName identifier =
     (let label = TrimSpace displayName in if label \<noteq> '''' then label else identifier)"

definition NodeDisplayLabel :: "Node \<Rightarrow> string" where
  "NodeDisplayLabel node = DisplayLabel (NodeDisplayName node) (NodeKey node)"

definition NodeGroupID :: "Node \<Rightarrow> string option" where
  "NodeGroupID node = ni_GroupID (Identity node)"

definition IsExecutableNode :: "Node \<Rightarrow> bool" where
  "IsExecutableNode node = (case Kind node of NodeKindAgent \<Rightarrow> True | NodeKindScript \<Rightarrow> True | _ \<Rightarrow> False)"

fun NodeSubagentRole :: "Node \<Rightarrow> string" where
  "NodeSubagentRole (AgentNode _ role _) = role"
| "NodeSubagentRole _ = ''''"

fun NodeCompletionMode :: "Node \<Rightarrow> string" where
  "NodeCompletionMode (AgentNode _ _ mode) = mode"
| "NodeCompletionMode _ = ''''"

fun NodeJoinInputProviders :: "Node \<Rightarrow> JoinInputProvider list" where
  "NodeJoinInputProviders (JoinNode _ providers) = providers"
| "NodeJoinInputProviders _ = []"

fun NodeScriptPath :: "Node \<Rightarrow> OptionalScriptPath" where
  "NodeScriptPath (ScriptNode _ path) = path"
| "NodeScriptPath _ = AbsentScriptPath"

record NodeFields =
  nf_SubagentRole :: string
  nf_CompletionMode :: string
  nf_JoinInputProviders :: "JoinInputProvider list"
  nf_ScriptPath :: OptionalScriptPath

fun NewNode :: "NodeIdentity \<Rightarrow> NodeKind \<Rightarrow> NodeFields \<Rightarrow> string + Node" where
  "NewNode identity NodeKindStart flds = Inr (StartNode identity)"
| "NewNode identity NodeKindAgent flds =
     Inr (AgentNode identity (nf_SubagentRole flds) (nf_CompletionMode flds))"
| "NewNode identity NodeKindScript flds = Inr (ScriptNode identity (nf_ScriptPath flds))"
| "NewNode identity NodeKindJoin flds = Inr (JoinNode identity (nf_JoinInputProviders flds))"
| "NewNode identity NodeKindTerminal flds = Inr (TerminalNode identity)"
| "NewNode identity (NodeKindOther kind) flds = Inl kind"


section \<open>Groups, edges and the definition\<close>

record NodeGroup =
  ng_WorkflowID :: uuid
  ng_ID :: string
  ng_Key :: ModelKey
  ng_DisplayName :: "string option"
  ng_SortOrder :: int
  ng_MemberNodeIDs :: "NodeID list"

record TransitionGroup =
  tg_WorkflowID :: uuid
  tg_ID :: TransitionGroupID
  tg_SourceNodeID :: NodeID
  tg_TransitionID :: TransitionID
  tg_DisplayName :: string
  tg_Description :: string

abbreviation ParameterPurposeOrdinary :: ParameterPurpose where
  "ParameterPurposeOrdinary \<equiv> ''ordinary''"
abbreviation ParameterPurposeTargetAssignee :: ParameterPurpose where
  "ParameterPurposeTargetAssignee \<equiv> ''target_assignee''"
abbreviation ParameterPurposeTargetThinking :: ParameterPurpose where
  "ParameterPurposeTargetThinking \<equiv> ''target_thinking''"

record Parameter =
  p_Key :: string
  p_Description :: string
  p_Purpose :: ParameterPurpose

record InputBinding =
  ib_Name :: string
  ib_Source :: BindingSource
  ib_Field :: string

record OutputField =
  of_Name :: string
  of_Description :: string

record Edge =
  e_WorkflowID :: uuid
  e_ID :: EdgeID
  e_Key :: ModelKey
  e_TransitionGroupID :: TransitionGroupID
  e_TargetNodeID :: NodeID
  e_AssigneeSelection :: AssigneeSelection
  e_ThinkingSelection :: ThinkingSelection
  e_ContextMode :: ContextMode
  e_ContextSource :: ContextSource
  e_RequiresApproval :: bool
  e_PromptTemplate :: string
  e_Parameters :: "Parameter list"
  e_InputBindings :: "InputBinding list"
  e_OutputRequirements :: "string list"

record Definition =
  d_ID :: uuid
  d_DisplayName :: string
  d_ExecutionTargetPolicy :: ExecutionTargetPolicy
  d_NodeGroups :: "NodeGroup list"
  d_Nodes :: "Node list"
  d_TransitionGroups :: "TransitionGroup list"
  d_Edges :: "Edge list"

definition CanonicalParameterPurpose :: "ParameterPurpose \<Rightarrow> ParameterPurpose" where
  "CanonicalParameterPurpose purpose = TrimSpace purpose"

definition Parameter_Canonical :: "Parameter \<Rightarrow> Parameter" where
  "Parameter_Canonical parameter =
     parameter\<lparr>p_Purpose := CanonicalParameterPurpose (p_Purpose parameter)\<rparr>"

definition Edge_Canonical :: "Edge \<Rightarrow> Edge" where
  "Edge_Canonical edge =
     edge\<lparr>e_AssigneeSelection := CanonicalAssigneeSelection (e_AssigneeSelection edge),
          e_ThinkingSelection := CanonicalThinkingSelection (e_ThinkingSelection edge),
          e_ContextSource := CanonicalContextSource (e_ContextSource edge),
          e_Parameters := map Parameter_Canonical (e_Parameters edge)\<rparr>"


section \<open>Keys\<close>

abbreviation MaxChars :: nat where
  "MaxChars \<equiv> 64"
abbreviation MaxDisplayNameChars :: nat where
  "MaxDisplayNameChars \<equiv> 120"
abbreviation MaxParameterKeyChars :: nat where
  "MaxParameterKeyChars \<equiv> 64"
abbreviation MaxParameterDescriptionChars :: nat where
  "MaxParameterDescriptionChars \<equiv> 1000"

abbreviation RuntimePromptParameterCommentary :: string where
  "RuntimePromptParameterCommentary \<equiv> ''commentary''"
abbreviation RuntimePromptParameterSessionID :: string where
  "RuntimePromptParameterSessionID \<equiv> ''session_id''"

definition ReservedParameter :: "string \<Rightarrow> bool" where
  "ReservedParameter value \<longleftrightarrow> TrimSpace value \<in> set [''commentary'', ''session_id'', ''transition'']"

definition lower_letter :: "char \<Rightarrow> bool" where
  "lower_letter c \<longleftrightarrow> (0x61::nat) \<le> of_char c \<and> of_char c \<le> (0x7A::nat)"

definition ascii_digit :: "char \<Rightarrow> bool" where
  "ascii_digit c \<longleftrightarrow> (0x30::nat) \<le> of_char c \<and> of_char c \<le> (0x39::nat)"

text \<open>\<open>workflowkey.Valid\<close>. The loop ranges over runes; a rune that is not ASCII starts with a
  byte outside the accepted ranges, so the same test on bytes gives the same answer.\<close>

definition workflowkey_Valid :: "string \<Rightarrow> bool" where
  "workflowkey_Valid value =
     (let trimmed = TrimSpace value in
      if length trimmed = 0 \<or> length trimmed > MaxChars then False
      else lower_letter (hd trimmed) \<and>
           list_all (\<lambda>c. lower_letter c \<or> ascii_digit c \<or> c = CHR ''_'') (tl trimmed))"

lemma Kind_cases: "Kind node \<in> {NodeKindStart, NodeKindAgent, NodeKindScript, NodeKindJoin, NodeKindTerminal}"
  by (cases node) auto

lemma CanonicalContextSource_idem [simp]:
  "CanonicalContextSource (CanonicalContextSource source) = CanonicalContextSource source"
  by (auto simp: CanonicalContextSource_def Let_def)

lemma Edge_Canonical_idem: "Edge_Canonical (Edge_Canonical edge) = Edge_Canonical edge"
  by (simp add: Edge_Canonical_def CanonicalAssigneeSelection_def CanonicalThinkingSelection_def
      Parameter_Canonical_def CanonicalParameterPurpose_def comp_def)

lemma workflowkey_Valid_nonblank: "workflowkey_Valid key \<Longrightarrow> \<not> blank key"
  by (auto simp: workflowkey_Valid_def Let_def)

end
