(* ===== verification/Wf_Errors.thy ===== *)
theory Wf_Errors
  imports Wf_Types
begin

text \<open>
  Validation diagnostics: \<open>server/workflow/validation_types.go\<close>. A code is its string, as in
  the source; a \<open>ValidationError\<close> carries every field of the struct but the human-readable
  message. A nil pointer field is \<open>None\<close>.
\<close>

type_synonym ValidationErrorCode = string

definition CodeMissingWorkflowID :: ValidationErrorCode where
  "CodeMissingWorkflowID = ''workflow.validation.missing_workflow_id''"

definition CodeMissingNodeID :: ValidationErrorCode where
  "CodeMissingNodeID = ''workflow.validation.missing_node_id''"

definition CodeDuplicateNodeID :: ValidationErrorCode where
  "CodeDuplicateNodeID = ''workflow.validation.duplicate_node_id''"

definition CodeMissingNodeKey :: ValidationErrorCode where
  "CodeMissingNodeKey = ''workflow.validation.missing_node_key''"

definition CodeInvalidNodeKey :: ValidationErrorCode where
  "CodeInvalidNodeKey = ''workflow.validation.invalid_node_key''"

definition CodeDuplicateNodeKey :: ValidationErrorCode where
  "CodeDuplicateNodeKey = ''workflow.validation.duplicate_node_key''"

definition CodeMissingStartNode :: ValidationErrorCode where
  "CodeMissingStartNode = ''workflow.validation.missing_start_node''"

definition CodeMultipleStartNodes :: ValidationErrorCode where
  "CodeMultipleStartNodes = ''workflow.validation.multiple_start_nodes''"

definition CodeInvalidStartNode :: ValidationErrorCode where
  "CodeInvalidStartNode = ''workflow.validation.invalid_start_node''"

definition CodeInvalidStartOutgoingShape :: ValidationErrorCode where
  "CodeInvalidStartOutgoingShape = ''workflow.validation.invalid_start_outgoing_shape''"

definition CodeTerminalHasOutgoingEdge :: ValidationErrorCode where
  "CodeTerminalHasOutgoingEdge = ''workflow.validation.terminal_has_outgoing_edge''"

definition CodeTerminalIsExecutable :: ValidationErrorCode where
  "CodeTerminalIsExecutable = ''workflow.validation.terminal_is_executable''"

definition CodeJoinIsExecutable :: ValidationErrorCode where
  "CodeJoinIsExecutable = ''workflow.validation.join_is_executable''"

definition CodeInvalidJoinNode :: ValidationErrorCode where
  "CodeInvalidJoinNode = ''workflow.validation.invalid_join_node''"

definition CodeInvalidJoinOutgoingShape :: ValidationErrorCode where
  "CodeInvalidJoinOutgoingShape = ''workflow.validation.invalid_join_outgoing_shape''"

definition CodeNodeUnreachableFromStart :: ValidationErrorCode where
  "CodeNodeUnreachableFromStart = ''workflow.validation.node_unreachable_from_start''"

definition CodeNonTerminalCannotReachTerminal :: ValidationErrorCode where
  "CodeNonTerminalCannotReachTerminal = ''workflow.validation.non_terminal_cannot_reach_terminal''"

definition CodeMissingTransitionGroupID :: ValidationErrorCode where
  "CodeMissingTransitionGroupID = ''workflow.validation.missing_transition_group_id''"

definition CodeDuplicateTransitionGroupID :: ValidationErrorCode where
  "CodeDuplicateTransitionGroupID = ''workflow.validation.duplicate_transition_group_id''"

definition CodeEmptyTransitionGroup :: ValidationErrorCode where
  "CodeEmptyTransitionGroup = ''workflow.validation.empty_transition_group''"

definition CodeMissingTransitionID :: ValidationErrorCode where
  "CodeMissingTransitionID = ''workflow.validation.missing_transition_id''"

definition CodeInvalidTransitionID :: ValidationErrorCode where
  "CodeInvalidTransitionID = ''workflow.validation.invalid_transition_id''"

definition CodeDuplicateTransitionID :: ValidationErrorCode where
  "CodeDuplicateTransitionID = ''workflow.validation.duplicate_transition_id''"

definition CodeEdgeTransitionGroupMissing :: ValidationErrorCode where
  "CodeEdgeTransitionGroupMissing = ''workflow.validation.edge_transition_group_missing''"

definition CodeMissingEdgeID :: ValidationErrorCode where
  "CodeMissingEdgeID = ''workflow.validation.missing_edge_id''"

definition CodeDuplicateEdgeID :: ValidationErrorCode where
  "CodeDuplicateEdgeID = ''workflow.validation.duplicate_edge_id''"

definition CodeMissingEdgeKey :: ValidationErrorCode where
  "CodeMissingEdgeKey = ''workflow.validation.missing_edge_key''"

definition CodeInvalidEdgeKey :: ValidationErrorCode where
  "CodeInvalidEdgeKey = ''workflow.validation.invalid_edge_key''"

definition CodeDuplicateEdgeKey :: ValidationErrorCode where
  "CodeDuplicateEdgeKey = ''workflow.validation.duplicate_edge_key''"

definition CodeEdgeTargetMissing :: ValidationErrorCode where
  "CodeEdgeTargetMissing = ''workflow.validation.edge_target_missing''"

definition CodeCrossWorkflowReference :: ValidationErrorCode where
  "CodeCrossWorkflowReference = ''workflow.validation.cross_workflow_reference''"

definition CodeInvalidOutputField :: ValidationErrorCode where
  "CodeInvalidOutputField = ''workflow.validation.invalid_output_field''"

definition CodeDuplicateOutputField :: ValidationErrorCode where
  "CodeDuplicateOutputField = ''workflow.validation.duplicate_output_field''"

definition CodeOutputFieldDescriptionRequired :: ValidationErrorCode where
  "CodeOutputFieldDescriptionRequired = ''workflow.validation.output_field_description_required''"

definition CodeOutputSchemaTooLarge :: ValidationErrorCode where
  "CodeOutputSchemaTooLarge = ''workflow.validation.output_schema_too_large''"

definition CodeInvalidInputField :: ValidationErrorCode where
  "CodeInvalidInputField = ''workflow.validation.invalid_input_field''"

definition CodeDuplicateInputField :: ValidationErrorCode where
  "CodeDuplicateInputField = ''workflow.validation.duplicate_input_field''"

definition CodeInputFieldDescriptionRequired :: ValidationErrorCode where
  "CodeInputFieldDescriptionRequired = ''workflow.validation.input_field_description_required''"

definition CodeInputSchemaTooLarge :: ValidationErrorCode where
  "CodeInputSchemaTooLarge = ''workflow.validation.input_schema_too_large''"

definition CodeInvalidParameter :: ValidationErrorCode where
  "CodeInvalidParameter = ''workflow.validation.invalid_parameter''"

definition CodeDuplicateParameter :: ValidationErrorCode where
  "CodeDuplicateParameter = ''workflow.validation.duplicate_parameter''"

definition CodeParameterDescriptionRequired :: ValidationErrorCode where
  "CodeParameterDescriptionRequired = ''workflow.validation.parameter_description_required''"

definition CodeParameterSchemaTooLarge :: ValidationErrorCode where
  "CodeParameterSchemaTooLarge = ''workflow.validation.parameter_schema_too_large''"

definition CodeTransitionPromptRequired :: ValidationErrorCode where
  "CodeTransitionPromptRequired = ''workflow.validation.transition_prompt_required''"

definition CodeTransitionPromptForbidden :: ValidationErrorCode where
  "CodeTransitionPromptForbidden = ''workflow.validation.transition_prompt_forbidden''"

definition CodeUnknownOutputRequirement :: ValidationErrorCode where
  "CodeUnknownOutputRequirement = ''workflow.validation.unknown_output_requirement''"

definition CodeInvalidInputBinding :: ValidationErrorCode where
  "CodeInvalidInputBinding = ''workflow.validation.invalid_input_binding''"

definition CodeInvalidTemplatePlaceholder :: ValidationErrorCode where
  "CodeInvalidTemplatePlaceholder = ''workflow.validation.invalid_template_placeholder''"

definition CodeSessionSourceCannotOwnSession :: ValidationErrorCode where
  "CodeSessionSourceCannotOwnSession = ''workflow.validation.session_source_cannot_own_session''"

definition CodeSessionTransitionMissing :: ValidationErrorCode where
  "CodeSessionTransitionMissing = ''workflow.validation.session_transition_missing''"

definition CodeSessionTransitionNotGuaranteed :: ValidationErrorCode where
  "CodeSessionTransitionNotGuaranteed = ''workflow.validation.session_transition_not_guaranteed''"

definition CodeSessionTransitionAmbiguous :: ValidationErrorCode where
  "CodeSessionTransitionAmbiguous = ''workflow.validation.session_transition_ambiguous''"

definition CodeProvisionFieldOverlap :: ValidationErrorCode where
  "CodeProvisionFieldOverlap = ''workflow.validation.provision_field_overlap''"

definition CodeMissingJoinInputProvider :: ValidationErrorCode where
  "CodeMissingJoinInputProvider = ''workflow.validation.missing_join_input_provider''"

definition CodeDuplicateJoinInputProvider :: ValidationErrorCode where
  "CodeDuplicateJoinInputProvider = ''workflow.validation.duplicate_join_input_provider''"

definition CodeInvalidJoinInputProvider :: ValidationErrorCode where
  "CodeInvalidJoinInputProvider = ''workflow.validation.invalid_join_input_provider''"

definition CodeInvalidFirstNodeInput :: ValidationErrorCode where
  "CodeInvalidFirstNodeInput = ''workflow.validation.invalid_first_node_input''"

definition CodeInvalidContextMode :: ValidationErrorCode where
  "CodeInvalidContextMode = ''workflow.validation.invalid_context_mode''"

definition CodeInvalidAssigneeSelection :: ValidationErrorCode where
  "CodeInvalidAssigneeSelection = ''workflow.validation.invalid_assignee_selection''"

definition CodeInvalidThinkingSelection :: ValidationErrorCode where
  "CodeInvalidThinkingSelection = ''workflow.validation.invalid_thinking_selection''"

definition CodeInvalidParameterPurpose :: ValidationErrorCode where
  "CodeInvalidParameterPurpose = ''workflow.validation.invalid_parameter_purpose''"

definition CodeMissingProtectedParameter :: ValidationErrorCode where
  "CodeMissingProtectedParameter = ''workflow.validation.missing_protected_parameter''"

definition CodeDuplicateProtectedParameter :: ValidationErrorCode where
  "CodeDuplicateProtectedParameter = ''workflow.validation.duplicate_protected_parameter''"

definition CodeInvalidContextSource :: ValidationErrorCode where
  "CodeInvalidContextSource = ''workflow.validation.invalid_context_source''"

definition CodeAssigneeSelectionInapplicable :: ValidationErrorCode where
  "CodeAssigneeSelectionInapplicable = ''workflow.validation.assignee_selection_inapplicable''"

definition CodeAssigneeSelectionUnavailable :: ValidationErrorCode where
  "CodeAssigneeSelectionUnavailable = ''workflow.validation.assignee_selection_unavailable''"

definition CodeThinkingSelectionInapplicable :: ValidationErrorCode where
  "CodeThinkingSelectionInapplicable = ''workflow.validation.thinking_selection_inapplicable''"

definition CodeThinkingSelectionUnavailable :: ValidationErrorCode where
  "CodeThinkingSelectionUnavailable = ''workflow.validation.thinking_selection_unavailable''"

definition CodeInvalidFanoutJoinTopology :: ValidationErrorCode where
  "CodeInvalidFanoutJoinTopology = ''workflow.validation.invalid_fanout_join_topology''"

definition CodeInvalidNodeGroup :: ValidationErrorCode where
  "CodeInvalidNodeGroup = ''workflow.validation.invalid_node_group''"

definition CodeUnsupportedContextMode :: ValidationErrorCode where
  "CodeUnsupportedContextMode = ''workflow.validation.unsupported_context_mode''"

definition CodeUnsupportedApprovalExecution :: ValidationErrorCode where
  "CodeUnsupportedApprovalExecution = ''workflow.validation.unsupported_approval_execution''"

definition CodeUnsupportedJoinExecution :: ValidationErrorCode where
  "CodeUnsupportedJoinExecution = ''workflow.validation.unsupported_join_execution''"

definition CodeUnsupportedJoinBinding :: ValidationErrorCode where
  "CodeUnsupportedJoinBinding = ''workflow.validation.unsupported_join_binding''"

definition CodeAgentRoleRequired :: ValidationErrorCode where
  "CodeAgentRoleRequired = ''workflow.validation.agent_role_required''"

definition CodeAgentRoleMissing :: ValidationErrorCode where
  "CodeAgentRoleMissing = ''workflow.validation.agent_role_missing''"

definition CodeAgentRoleRequiredToolDisabled :: ValidationErrorCode where
  "CodeAgentRoleRequiredToolDisabled = ''workflow.validation.agent_role_required_tool_disabled''"

definition CodeInvalidNodeKind :: ValidationErrorCode where
  "CodeInvalidNodeKind = ''workflow.validation.invalid_node_kind''"

definition CodeInvalidDisplayName :: ValidationErrorCode where
  "CodeInvalidDisplayName = ''workflow.validation.invalid_display_name''"

definition CodeInvalidExecutionTargetPolicy :: ValidationErrorCode where
  "CodeInvalidExecutionTargetPolicy = ''workflow.validation.invalid_execution_target_policy''"

definition CodeExecutionTargetCustomRefRequired :: ValidationErrorCode where
  "CodeExecutionTargetCustomRefRequired = ''workflow.validation.execution_target_custom_ref_required''"


section \<open>Errors and results\<close>

datatype ValidationContext =
    ValidationContextDraft | ValidationContextTaskCreation | ValidationContextExecution
  | ValidationContextOther string

datatype WorkflowGraphEntityType =
    WorkflowGraphEntityTypeNodeGroup | WorkflowGraphEntityTypeNode
  | WorkflowGraphEntityTypeTransitionGroup | WorkflowGraphEntityTypeEdge

record ValidationError =
  ve_Code :: ValidationErrorCode
  ve_WorkflowID :: "uuid option"
  ve_NodeID :: "NodeID option"
  ve_TransitionGroupID :: "TransitionGroupID option"
  ve_EdgeID :: "EdgeID option"
  ve_FieldName :: string
  ve_InputName :: string
  ve_Placeholder :: string
  ve_RelatedEntities :: "(WorkflowGraphEntityType \<times> string) list"
  ve_AgentRole :: "string option"
  ve_RequiredTool :: "string option"
  ve_BlocksContext :: bool

definition zero_error :: ValidationError where
  "zero_error =
     \<lparr>ve_Code = '''', ve_WorkflowID = None, ve_NodeID = None, ve_TransitionGroupID = None, ve_EdgeID = None,
      ve_FieldName = '''', ve_InputName = '''', ve_Placeholder = '''', ve_RelatedEntities = [],
      ve_AgentRole = None, ve_RequiredTool = None, ve_BlocksContext = False\<rparr>"

definition withRelatedEntity :: "WorkflowGraphEntityType \<Rightarrow> string \<Rightarrow> ValidationError \<Rightarrow> ValidationError" where
  "withRelatedEntity entityType entityID e =
     e\<lparr>ve_RelatedEntities := ve_RelatedEntities e @ [(entityType, entityID)]\<rparr>"

text \<open>\<open>if strings.TrimSpace(id) != "" { ref.X = &id }\<close>\<close>

definition id_ref :: "string \<Rightarrow> string option" where
  "id_ref i = (if blank i then None else Some i)"

record ValidationResult =
  vr_Context :: ValidationContext
  vr_Errors :: "ValidationError list"

definition HasErrors :: "ValidationResult \<Rightarrow> bool" where
  "HasErrors r \<longleftrightarrow> length (vr_Errors r) > 0"

definition HasBlockingErrors :: "ValidationResult \<Rightarrow> bool" where
  "HasBlockingErrors r = list_ex ve_BlocksContext (vr_Errors r)"

definition BlockingErrors :: "ValidationResult \<Rightarrow> ValidationError list" where
  "BlockingErrors r = filter ve_BlocksContext (vr_Errors r)"

definition Codes :: "ValidationResult \<Rightarrow> ValidationErrorCode list" where
  "Codes r = map ve_Code (vr_Errors r)"

text \<open>\<open>UnsupportedRuntimeFeatures\<close>, on the two fields of \<open>RuntimeSupportEdge\<close> it reads: the
  codes of the issues.\<close>

definition UnsupportedRuntimeFeatures :: "NodeKind \<Rightarrow> bool \<Rightarrow> ValidationErrorCode list" where
  "UnsupportedRuntimeFeatures sourceKind requiresApproval =
     (if sourceKind = NodeKindJoin \<and> requiresApproval then [CodeUnsupportedApprovalExecution] else [])"

lemma HasBlockingErrors_iff: "HasBlockingErrors r \<longleftrightarrow> BlockingErrors r \<noteq> []"
  by (simp add: HasBlockingErrors_def BlockingErrors_def list_ex_iff filter_empty_conv)

end
