(* ===== verification/Wf_Graph.thy ===== *)
theory Wf_Graph
  imports Wf_Types
begin

text \<open>
  The workflow graph and the searches over it: the indices of \<open>newFanoutTopology\<close>
  (\<open>fanout_join.go\<close>), and \<open>reachableNodeIDs\<close>, \<open>transitionGroupDominates\<close>,
  \<open>nodeDominatesFromStart\<close>, \<open>singleStartNodeID\<close> and the prior-transition resolution of
  \<open>derived_wiring.go\<close>; \<open>reachableFrom\<close> and \<open>canReachTerminal\<close> of \<open>validation.go\<close>.

  The specification is a \<open>walk\<close>: a sequence of edges, each leaving the vertex the one
  before it entered. Each loop of the code is interpreted as a stack search of the prelude,
  and the theorems characterise its answer by the walks of the graph.
\<close>

section \<open>Topology indices\<close>

type_synonym edge_index = "(NodeID, Edge list) gomap"

record fanoutTopology =
  nodesByID :: "(NodeID, Node) gomap"
  groupsBySource :: "(NodeID, TransitionGroup list) gomap"
  edgesByGroup :: "(TransitionGroupID, Edge list) gomap"
  outgoingByNode :: edge_index

definition index_nodes :: "Node list \<Rightarrow> (NodeID, Node) gomap" where
  "index_nodes nodes = fold (\<lambda>node. AList.update (NodeIDOf node) node) nodes []"

definition index_groups :: "TransitionGroup list \<Rightarrow> (TransitionGroupID, TransitionGroup) gomap" where
  "index_groups groups = fold (\<lambda>group. AList.update (tg_ID group) group) groups []"

definition edge_source :: "(TransitionGroupID, TransitionGroup) gomap \<Rightarrow> Edge \<Rightarrow> NodeID option" where
  "edge_source groupsByID edge = map_option tg_SourceNodeID (map_of groupsByID (e_TransitionGroupID edge))"

definition index_outgoing :: "(TransitionGroupID, TransitionGroup) gomap \<Rightarrow> Edge list \<Rightarrow> edge_index" where
  "index_outgoing groupsByID edges =
     fold (\<lambda>edge m. case edge_source groupsByID edge of
                      None \<Rightarrow> m | Some source \<Rightarrow> mappend source edge m) edges []"

definition newFanoutTopology :: "Definition \<Rightarrow> fanoutTopology" where
  "newFanoutTopology def =
     \<lparr>nodesByID = index_nodes (d_Nodes def),
      groupsBySource = fold (\<lambda>group. mappend (tg_SourceNodeID group) group) (d_TransitionGroups def) [],
      edgesByGroup = fold (\<lambda>edge. mappend (e_TransitionGroupID edge) edge) (d_Edges def) [],
      outgoingByNode = index_outgoing (index_groups (d_TransitionGroups def)) (d_Edges def)\<rparr>"


section \<open>Reachability and dominance\<close>

function reachable_loop :: "edge_index \<Rightarrow> NodeID list \<Rightarrow> NodeID list \<Rightarrow> NodeID list" where
  "reachable_loop out [] visited = visited"
| "reachable_loop out (nodeID # stack) visited =
     (if nodeID \<in> set visited then reachable_loop out stack visited
      else let visited' = nodeID # visited;
               next = filter (\<lambda>m. m \<notin> set visited') (map e_TargetNodeID (mget_list out nodeID))
           in reachable_loop out (rev next @ stack) visited')"
  by pat_completeness auto

termination
  by (relation "loop_order mget_list") (auto intro!: search_order_visit)

definition reachableNodeIDs :: "NodeID \<Rightarrow> edge_index \<Rightarrow> NodeID list" where
  "reachableNodeIDs start out = reachable_loop out [start] []"

text \<open>\<open>validationState.reachableFrom\<close> is the same loop over the state's own index.\<close>

definition reachableFrom :: "edge_index \<Rightarrow> NodeID \<Rightarrow> NodeID list" where
  "reachableFrom out start = reachable_loop out [start] []"

function group_dominates_loop ::
  "edge_index \<Rightarrow> TransitionGroupID \<Rightarrow> NodeID \<Rightarrow> NodeID list \<Rightarrow> NodeID list \<Rightarrow> bool" where
  "group_dominates_loop out groupID target [] visited = True"
| "group_dominates_loop out groupID target (nodeID # stack) visited =
     (if nodeID \<in> set visited then group_dominates_loop out groupID target stack visited
      else if nodeID = target then False
      else let visited' = nodeID # visited;
               next = filter (\<lambda>edge. e_TransitionGroupID edge \<noteq> groupID \<and>
                                     e_TargetNodeID edge \<notin> set visited') (mget_list out nodeID)
           in group_dominates_loop out groupID target (rev (map e_TargetNodeID next) @ stack) visited')"
  by pat_completeness auto
termination
  by (relation "inv_image (loop_order (\<lambda>(out, g, t). mget_list out))
        (\<lambda>(out, g, t, stack, visited). ((out, g, t), stack, visited))")
    (auto intro!: search_order_visit)

definition transitionGroupDominates ::
  "NodeID \<Rightarrow> TransitionGroupID \<Rightarrow> NodeID \<Rightarrow> edge_index \<Rightarrow> bool" where
  "transitionGroupDominates startNodeID groupID targetNodeID out =
     (if startNodeID = '''' then False
      else if targetNodeID \<notin> set (reachableNodeIDs startNodeID out) then False
      else group_dominates_loop out groupID targetNodeID [startNodeID] [])"

function node_avoiding_loop ::
  "edge_index \<Rightarrow> NodeID \<Rightarrow> NodeID list \<Rightarrow> NodeID list \<Rightarrow> NodeID list" where
  "node_avoiding_loop out candidate [] visited = visited"
| "node_avoiding_loop out candidate (nodeID # stack) visited =
     (if nodeID \<in> set visited \<or> nodeID = candidate then node_avoiding_loop out candidate stack visited
      else let visited' = nodeID # visited;
               next = filter (\<lambda>m. m \<notin> set visited' \<and> m \<noteq> candidate)
                        (map e_TargetNodeID (mget_list out nodeID))
           in node_avoiding_loop out candidate (rev next @ stack) visited')"
  by pat_completeness auto
termination
  by (relation "inv_image (loop_order (\<lambda>(out, c). mget_list out))
        (\<lambda>(out, c, stack, visited). ((out, c), stack, visited))")
    (auto intro!: search_order_visit)

definition nodeDominatesFromStart :: "NodeID \<Rightarrow> NodeID \<Rightarrow> NodeID \<Rightarrow> edge_index \<Rightarrow> bool" where
  "nodeDominatesFromStart startNodeID candidateNodeID targetNodeID out =
     (if candidateNodeID = targetNodeID then True
      else if startNodeID = '''' then False
      else if targetNodeID \<notin> set (reachableNodeIDs startNodeID out) then False
      else if startNodeID = candidateNodeID then True
      else targetNodeID \<notin> set (node_avoiding_loop out candidateNodeID [startNodeID] []))"

function reach_terminal_loop ::
  "(NodeID, Node) gomap \<Rightarrow> edge_index \<Rightarrow> NodeID list \<Rightarrow> NodeID list \<Rightarrow> bool" where
  "reach_terminal_loop nodes out [] visited = False"
| "reach_terminal_loop nodes out (nodeID # stack) visited =
     (if nodeID \<in> set visited then reach_terminal_loop nodes out stack visited
      else let visited' = nodeID # visited in
        case map_of nodes nodeID of
          None \<Rightarrow> reach_terminal_loop nodes out stack visited'
        | Some node \<Rightarrow>
           if Kind node = NodeKindTerminal then True
           else let next = filter (\<lambda>m. m \<notin> set visited') (map e_TargetNodeID (mget_list out nodeID))
                in reach_terminal_loop nodes out (rev next @ stack) visited')"
  by pat_completeness auto
termination
  by (relation "inv_image (loop_order (\<lambda>(nodes, out). mget_list out))
        (\<lambda>(nodes, out, stack, visited). ((nodes, out), stack, visited))")
    (auto intro!: search_order_visit search_order_visit [where new = "[]", simplified])

definition canReachTerminal :: "(NodeID, Node) gomap \<Rightarrow> edge_index \<Rightarrow> NodeID \<Rightarrow> bool" where
  "canReachTerminal nodes out start = reach_terminal_loop nodes out [start] []"


section \<open>Prior-transition references\<close>

fun singleStartNodeID_loop :: "NodeID \<Rightarrow> Node list \<Rightarrow> NodeID \<times> bool" where
  "singleStartNodeID_loop start [] = (start, start \<noteq> '''')"
| "singleStartNodeID_loop start (node # nodes) =
     (if Kind node \<noteq> NodeKindStart then singleStartNodeID_loop start nodes
      else if start \<noteq> '''' then ('''', False)
      else singleStartNodeID_loop (NodeIDOf node) nodes)"

definition singleStartNodeID :: "Node list \<Rightarrow> NodeID \<times> bool" where
  "singleStartNodeID nodes = singleStartNodeID_loop '''' nodes"

record PriorTransitionReferenceResolution =
  ptr_Matched :: nat
  ptr_Guaranteed :: "TransitionGroup list"

definition empty_resolution :: PriorTransitionReferenceResolution where
  "empty_resolution = \<lparr>ptr_Matched = 0, ptr_Guaranteed = []\<rparr>"

definition resolvePriorParameterTransitionGroups ::
  "TransitionGroup list \<Rightarrow> ModelKey \<Rightarrow> NodeID \<Rightarrow> NodeID \<Rightarrow> edge_index
   \<Rightarrow> PriorTransitionReferenceResolution" where
  "resolvePriorParameterTransitionGroups groups transitionKey consumerSourceNodeID startNodeID out =
     fold (\<lambda>group resolution.
        if TrimSpace (tg_TransitionID group) \<noteq> TrimSpace transitionKey then resolution
        else let resolution' = resolution\<lparr>ptr_Matched := Suc (ptr_Matched resolution)\<rparr> in
          if transitionGroupDominates startNodeID (tg_ID group) consumerSourceNodeID out
          then resolution'\<lparr>ptr_Guaranteed := ptr_Guaranteed resolution' @ [group]\<rparr>
          else resolution') groups empty_resolution"

definition ResolvePriorTransitionGroups ::
  "Definition \<Rightarrow> ModelKey \<Rightarrow> NodeID \<Rightarrow> PriorTransitionReferenceResolution" where
  "ResolvePriorTransitionGroups def transitionKey consumerSourceNodeID =
     (let topology = newFanoutTopology def;
          (startNodeID, hasSingleStart) = singleStartNodeID (d_Nodes def)
      in if \<not> hasSingleStart then empty_resolution
         else resolvePriorParameterTransitionGroups (d_TransitionGroups def) transitionKey
                consumerSourceNodeID startNodeID (outgoingByNode topology))"


section \<open>Walks\<close>

fun walk :: "(NodeID \<Rightarrow> Edge list) \<Rightarrow> NodeID \<Rightarrow> Edge list \<Rightarrow> NodeID \<Rightarrow> bool" where
  "walk out n [] m \<longleftrightarrow> n = m"
| "walk out n (e # es) m \<longleftrightarrow> e \<in> set (out n) \<and> walk out (e_TargetNodeID e) es m"

definition walk_nodes :: "NodeID \<Rightarrow> Edge list \<Rightarrow> NodeID list" where
  "walk_nodes n es = n # map e_TargetNodeID es"

lemma walk_append: "walk out n (es @ fs) m \<longleftrightarrow> (\<exists>k. walk out n es k \<and> walk out k fs m)"
  by (induction es arbitrary: n) auto

lemma walk_target: "walk out n es m \<Longrightarrow> es \<noteq> [] \<Longrightarrow> m = e_TargetNodeID (last es)"
  by (induction es arbitrary: n) auto

lemma walk_nodes_Cons [simp]: "walk_nodes n (e # es) = n # walk_nodes (e_TargetNodeID e) es"
  by (simp add: walk_nodes_def)

lemma walk_nodes_Nil [simp]: "walk_nodes n [] = [n]"
  by (simp add: walk_nodes_def)

lemma rtrancl_walk:
  "(n, m) \<in> {(n, m). m \<in> e_TargetNodeID ` set (out n)}\<^sup>* \<longleftrightarrow> (\<exists>es. walk out n es m)"
proof
  assume "(n, m) \<in> {(n, m). m \<in> e_TargetNodeID ` set (out n)}\<^sup>*"
  then show "\<exists>es. walk out n es m"
  proof (induction rule: converse_rtrancl_induct)
    case base
    have "walk out m [] m" by simp
    then show ?case ..
  next
    case (step a b)
    then obtain e es where "e \<in> set (out a)" "b = e_TargetNodeID e" "walk out b es m" by auto
    then have "walk out a (e # es) m" by simp
    then show ?case ..
  qed
next
  assume "\<exists>es. walk out n es m"
  then obtain es where "walk out n es m" ..
  then show "(n, m) \<in> {(n, m). m \<in> e_TargetNodeID ` set (out n)}\<^sup>*"
  proof (induction es arbitrary: n)
    case (Cons e es)
    then show ?case
      by (auto intro: converse_rtrancl_into_rtrancl [of n "e_TargetNodeID e"])
  qed simp
qed

lemma walk_filter:
  "walk (\<lambda>n. filter P (out n)) n es m \<longleftrightarrow> walk out n es m \<and> list_all P es"
  by (induction es arbitrary: n) auto

lemma walk_source:
  "walk (\<lambda>n. if Q n then out n else []) n es m \<longleftrightarrow> walk out n es m \<and> list_all Q (butlast (walk_nodes n es))"
  by (induction es arbitrary: n) (auto simp: walk_nodes_def)


section \<open>The loops are stack searches\<close>

interpretation reach: stack_search "\<lambda>n. map e_TargetNodeID (mget_list out n)" "\<lambda>_. False" "reachable_loop out"
  for out
  by unfold_locales simp_all

interpretation group_avoid: stack_find
  "\<lambda>n. map e_TargetNodeID (filter (\<lambda>e. e_TransitionGroupID e \<noteq> g) (mget_list out n))"
  "\<lambda>n. n = t" "\<lambda>stack visited. \<not> group_dominates_loop out g t stack visited"
  for out g t
proof unfold_locales
  show "finite {n. map e_TargetNodeID (filter (\<lambda>e. e_TransitionGroupID e \<noteq> g) (mget_list out n)) \<noteq> []}"
    by (rule finite_subset [OF _ finite_mget_list [of out]]) auto
qed (auto simp: filter_map comp_def conj_commute)

interpretation node_avoid: stack_search
  "\<lambda>n. map e_TargetNodeID (filter (\<lambda>e. e_TargetNodeID e \<noteq> c) (mget_list out n))"
  "\<lambda>n. n = c" "node_avoiding_loop out c"
  for out c
proof unfold_locales
  show "finite {n. map e_TargetNodeID (filter (\<lambda>e. e_TargetNodeID e \<noteq> c) (mget_list out n)) \<noteq> []}"
    by (rule finite_subset [OF _ finite_mget_list [of out]]) auto
qed (auto simp: filter_map comp_def conj_commute)

interpretation terminal: stack_find
  "\<lambda>n. map e_TargetNodeID (if mhas nodes n then mget_list out n else [])"
  "\<lambda>n. \<exists>node. map_of nodes n = Some node \<and> Kind node = NodeKindTerminal"
  "reach_terminal_loop nodes out"
  for nodes out
proof unfold_locales
  show "finite {n. map e_TargetNodeID (if mhas nodes n then mget_list out n else []) \<noteq> []}"
    by (rule finite_subset [OF _ finite_mget_list [of out]]) auto
qed (auto split: option.splits)

declare reachable_loop.simps [simp del] group_dominates_loop.simps [simp del]
  node_avoiding_loop.simps [simp del] reach_terminal_loop.simps [simp del]


section \<open>Correctness of the searches\<close>

lemma reach_rel: "reach.edge_rel out = {(n, m). m \<in> e_TargetNodeID ` set (mget_list out n)}"
  by (auto simp: reach.edge_rel_def)

lemma reachable_loop_walks: "set (reachable_loop out [start] []) = {n. \<exists>es. walk (mget_list out) start es n}"
  using reach.loop_reaches [where s = start and out = out] by (simp add: reach_rel rtrancl_walk)

lemma group_avoid_rel:
  "group_avoid.edge_rel g out =
   {(n, m). m \<in> e_TargetNodeID ` set (filter (\<lambda>e. e_TransitionGroupID e \<noteq> g) (mget_list out n))}"
  by (auto simp: group_avoid.edge_rel_def)

lemma node_avoid_rel:
  "node_avoid.edge_rel c out =
   {(n, m). m \<in> e_TargetNodeID ` set (filter (\<lambda>e. e_TargetNodeID e \<noteq> c) (mget_list out n))}"
  by (auto simp: node_avoid.edge_rel_def)

lemma terminal_rel:
  "terminal.edge_rel nodes out =
   {(n, m). m \<in> e_TargetNodeID ` set (if mhas nodes n then mget_list out n else [])}"
  unfolding terminal.edge_rel_def by auto

lemma group_dominates_loop_walks:
  "group_dominates_loop out g t [s] [] \<longleftrightarrow>
   (\<forall>es. walk (mget_list out) s es t \<longrightarrow> (\<exists>e \<in> set es. e_TransitionGroupID e = g))"
proof -
  have "\<not> group_dominates_loop out g t [s] [] \<longleftrightarrow> (s, t) \<in> (group_avoid.edge_rel g out)\<^sup>*"
    using group_avoid.find_reaches [where s = s and g = g and t = t and out = out] by simp
  also have "\<dots> \<longleftrightarrow> (\<exists>es. walk (mget_list out) s es t \<and> list_all (\<lambda>e. e_TransitionGroupID e \<noteq> g) es)"
    unfolding group_avoid_rel rtrancl_walk walk_filter ..
  finally show ?thesis by (auto simp: list_all_iff)
qed

lemma node_avoiding_loop_walks:
  assumes "s \<noteq> c"
  shows "t \<in> set (node_avoiding_loop out c [s] []) \<longleftrightarrow>
         (\<exists>es. walk (mget_list out) s es t \<and> c \<notin> set (walk_nodes s es))"
proof -
  have "t \<in> set (node_avoiding_loop out c [s] []) \<longleftrightarrow> (s, t) \<in> (node_avoid.edge_rel c out)\<^sup>*"
    using node_avoid.loop_reaches [where s = s and c = c and out = out] assms by simp
  also have "\<dots> \<longleftrightarrow> (\<exists>es. walk (mget_list out) s es t \<and> list_all (\<lambda>e. e_TargetNodeID e \<noteq> c) es)"
    unfolding node_avoid_rel rtrancl_walk walk_filter ..
  finally show ?thesis using assms by (auto simp: list_all_iff walk_nodes_def)
qed

lemma reachable_mem: "t \<in> set (reachableNodeIDs s out) \<longleftrightarrow> (\<exists>es. walk (mget_list out) s es t)"
  by (simp add: reachableNodeIDs_def reachable_loop_walks)

text \<open>
  \<open>reachableNodeIDs\<close> (and with it \<open>validationState.reachableFrom\<close>) returns exactly the
  nodes that some sequence of edges leads to from the start node: the loop neither misses a
  reachable node nor reports another, whatever cycles the graph has.
\<close>

theorem reachableNodeIDs_correct:
  "set (reachableNodeIDs start out) = {n. \<exists>es. walk (mget_list out) start es n} \<and>
   set (reachableFrom out start) = {n. \<exists>es. walk (mget_list out) start es n}"
  by (simp add: reachableNodeIDs_def reachableFrom_def reachable_loop_walks)

lemma dominates_walks:
  "transitionGroupDominates s g t out \<longleftrightarrow>
   s \<noteq> '''' \<and> (\<exists>es. walk (mget_list out) s es t) \<and>
   (\<forall>es. walk (mget_list out) s es t \<longrightarrow> (\<exists>e \<in> set es. e_TransitionGroupID e = g))"
  by (simp add: transitionGroupDominates_def reachable_mem group_dominates_loop_walks)

text \<open>
  C37: \<open>transitionGroupDominates\<close> decides whether a transition group is guaranteed to run:
  it holds exactly when the start node is given, the target is reachable, and every walk
  from the start to the target takes an edge of the group.
\<close>

theorem transitionGroupDominates_iff:
  "transitionGroupDominates s g t out \<longleftrightarrow>
   s \<noteq> '''' \<and> (\<exists>es. walk (mget_list out) s es t) \<and>
   (\<forall>es. walk (mget_list out) s es t \<longrightarrow> (\<exists>e \<in> set es. e_TransitionGroupID e = g))"
  by (rule dominates_walks)

lemma resolve_prior_closed:
  "resolvePriorParameterTransitionGroups groups key consumer start out =
   \<lparr>ptr_Matched = length (filter (\<lambda>g. TrimSpace (tg_TransitionID g) = TrimSpace key) groups),
    ptr_Guaranteed = filter (\<lambda>g. TrimSpace (tg_TransitionID g) = TrimSpace key \<and>
      transitionGroupDominates start (tg_ID g) consumer out) groups\<rparr>"
proof -
  have step: "fold (\<lambda>g resolution.
        if TrimSpace (tg_TransitionID g) \<noteq> TrimSpace key then resolution
        else let resolution' = resolution\<lparr>ptr_Matched := Suc (ptr_Matched resolution)\<rparr> in
          if transitionGroupDominates start (tg_ID g) consumer out
          then resolution'\<lparr>ptr_Guaranteed := ptr_Guaranteed resolution' @ [g]\<rparr>
          else resolution') groups r =
     r\<lparr>ptr_Matched := ptr_Matched r + length (filter (\<lambda>g. TrimSpace (tg_TransitionID g) = TrimSpace key) groups),
       ptr_Guaranteed := ptr_Guaranteed r @ filter (\<lambda>g. TrimSpace (tg_TransitionID g) = TrimSpace key \<and>
         transitionGroupDominates start (tg_ID g) consumer out) groups\<rparr>" for r
    by (induction groups arbitrary: r) (simp_all add: Let_def)
  show ?thesis unfolding resolvePriorParameterTransitionGroups_def empty_resolution_def step by simp
qed

lemma resolve_prior_Guaranteed:
  "set (ptr_Guaranteed (resolvePriorParameterTransitionGroups groups key consumer start out)) =
   {g \<in> set groups. TrimSpace (tg_TransitionID g) = TrimSpace key \<and>
     transitionGroupDominates start (tg_ID g) consumer out}"
  by (auto simp: resolve_prior_closed)

lemma node_dominates_walks:
  "nodeDominatesFromStart s c t out \<longleftrightarrow>
   c = t \<or>
   (s \<noteq> '''' \<and> (\<exists>es. walk (mget_list out) s es t) \<and>
    (\<forall>es. walk (mget_list out) s es t \<longrightarrow> c \<in> set (walk_nodes s es)))"
proof (cases "s = c")
  case True
  then show ?thesis by (auto simp: nodeDominatesFromStart_def reachable_mem walk_nodes_def)
next
  case False
  then show ?thesis
    by (auto simp: nodeDominatesFromStart_def reachable_mem node_avoiding_loop_walks)
qed

text \<open>
  \<open>nodeDominatesFromStart\<close> is dominance: it holds exactly when the candidate is the
  target itself, or the start is given, the target is reachable and every walk from the
  start to the target visits the candidate.
\<close>

theorem nodeDominatesFromStart_iff:
  "nodeDominatesFromStart s c t out \<longleftrightarrow>
   c = t \<or>
   (s \<noteq> '''' \<and> (\<exists>es. walk (mget_list out) s es t) \<and>
    (\<forall>es. walk (mget_list out) s es t \<longrightarrow> c \<in> set (walk_nodes s es)))"
  by (rule node_dominates_walks)

lemma terminal_walks:
  "canReachTerminal nodes out s \<longleftrightarrow>
   (\<exists>es m node. walk (mget_list out) s es m \<and> list_all (mhas nodes) (butlast (walk_nodes s es)) \<and>
      map_of nodes m = Some node \<and> Kind node = NodeKindTerminal)"
proof -
  have "canReachTerminal nodes out s \<longleftrightarrow>
    (\<exists>m. (s, m) \<in> (terminal.edge_rel nodes out)\<^sup>* \<and>
      (\<exists>node. map_of nodes m = Some node \<and> Kind node = NodeKindTerminal))"
    unfolding canReachTerminal_def by (rule terminal.find_reaches)
  also have "\<dots> \<longleftrightarrow> (\<exists>m. (\<exists>es. walk (mget_list out) s es m \<and> list_all (mhas nodes) (butlast (walk_nodes s es))) \<and>
      (\<exists>node. map_of nodes m = Some node \<and> Kind node = NodeKindTerminal))"
    unfolding terminal_rel rtrancl_walk walk_source ..
  finally show ?thesis by blast
qed

text \<open>
  \<open>canReachTerminal\<close> holds exactly when some walk, all of whose inner nodes are defined,
  ends in a terminal node.
\<close>

theorem canReachTerminal_iff:
  "canReachTerminal nodes out s \<longleftrightarrow>
   (\<exists>es m node. walk (mget_list out) s es m \<and> list_all (mhas nodes) (butlast (walk_nodes s es)) \<and>
      map_of nodes m = Some node \<and> Kind node = NodeKindTerminal)"
  by (rule terminal_walks)

end
