(* ===== verification/Wf_Fanout.thy ===== *)
theory Wf_Fanout
  imports Wf_Graph
begin

text \<open>
  Fan-out and join topology: \<open>server/workflow/fanout_join.go\<close>.

  \<open>fanoutBranchTraversal\<close> and \<open>fanoutBranchJoinEdge\<close> enumerate the simple paths of one
  fan-out branch with a stack of frames, each frame carrying the set of nodes on its path;
  they stop at the first frame that breaks the topology. Both loops terminate because a
  frame that is expanded is replaced by frames whose path holds one node more of the
  finite graph: the termination order is the multiset order on the number of nodes left.
  The Go functions take four index maps; here they are the fields of \<open>fanoutTopology\<close>. A
  result paired with an \<open>ok\<close> flag is an option.
\<close>

section \<open>Branch traversal\<close>

record frame =
  fr_nodeID :: NodeID
  fr_distance :: nat
  fr_path :: "NodeID list"

record fanoutBranchTraversalResult =
  pathNodes :: "(NodeID, nat) gomap"
  joinDistances :: "(NodeID, nat) gomap"

text \<open>\<open>previous, exists := m[k]; if !exists || d < previous { m[k] = d }\<close>\<close>

definition keep_least :: "NodeID \<Rightarrow> nat \<Rightarrow> (NodeID, nat) gomap \<Rightarrow> (NodeID, nat) gomap" where
  "keep_least k d m =
     (case map_of m k of
        None \<Rightarrow> AList.update k d m
      | Some previous \<Rightarrow> if d < previous then AList.update k d m else m)"

definition has_fanout_group :: "fanoutTopology \<Rightarrow> NodeID \<Rightarrow> bool" where
  "has_fanout_group topology nodeID =
     list_ex (\<lambda>group. length (mget_list (edgesByGroup topology) (tg_ID group)) > 1)
       (mget_list (groupsBySource topology) nodeID)"

definition nodes_left :: "(NodeID, Node) gomap \<Rightarrow> NodeID list \<Rightarrow> nat" where
  "nodes_left nodes path = card (set (mkeys nodes) - set path)"

function traversal_loop ::
  "fanoutTopology \<Rightarrow> frame list \<Rightarrow> fanoutBranchTraversalResult \<Rightarrow> fanoutBranchTraversalResult option" where
  "traversal_loop topology [] result = Some result"
| "traversal_loop topology (current # stack) result =
     (if fr_nodeID current \<in> set (fr_path current) then None
      else case map_of (nodesByID topology) (fr_nodeID current) of
        None \<Rightarrow> None
      | Some node \<Rightarrow>
         if Kind node = NodeKindJoin then
           traversal_loop topology stack
             (result\<lparr>joinDistances := keep_least (fr_nodeID current) (fr_distance current) (joinDistances result)\<rparr>)
         else if Kind node = NodeKindTerminal then None
         else let result' = result\<lparr>pathNodes :=
                     keep_least (fr_nodeID current) (fr_distance current) (pathNodes result)\<rparr> in
           if has_fanout_group topology (fr_nodeID current) then None
           else let nextPath = fr_nodeID current # fr_path current;
                    next = map (\<lambda>edge. \<lparr>fr_nodeID = e_TargetNodeID edge,
                                       fr_distance = Suc (fr_distance current), fr_path = nextPath\<rparr>)
                             (mget_list (outgoingByNode topology) (fr_nodeID current))
                in traversal_loop topology (rev next @ stack) result')"
  by pat_completeness auto

lemma nodes_left_less:
  assumes "n \<notin> set path" and "map_of nodes n = Some node"
  shows "nodes_left nodes (n # path) < nodes_left nodes path"
proof -
  have "n \<in> set (mkeys nodes)" using assms(2) by (force dest: map_of_SomeD)
  then show ?thesis unfolding nodes_left_def
    by (intro psubset_card_mono) (use assms(1) in auto)
qed

definition frames_order :: "(nat list \<times> nat list) set" where
  "frames_order = inv_image (mult less_than) mset"

lemma wf_frames_order [simp]: "wf frames_order"
  unfolding frames_order_def by (intro wf_inv_image wf_mult wf_less_than)

lemma frames_order_drop [simp]: "(ws, w # ws) \<in> frames_order"
  using one_step_implies_mult [of "{#w#}" "{#}" less_than "mset ws"]
  by (simp add: frames_order_def)

lemma frames_order_expand:
  assumes "\<forall>v \<in> set vs. v < w"
  shows "(vs @ ws, w # ws) \<in> frames_order"
  using one_step_implies_mult [of "{#w#}" "mset vs" less_than "mset ws"] assms
  by (simp add: frames_order_def add.commute)

termination traversal_loop
  by (relation "inv_image frames_order
        (\<lambda>(topology, stack, result). map (\<lambda>f. nodes_left (nodesByID topology) (fr_path f)) stack)")
    (auto intro!: frames_order_expand nodes_left_less simp: rev_map [symmetric] comp_def)

declare traversal_loop.simps [simp del]

definition fanoutBranchTraversal :: "fanoutTopology \<Rightarrow> NodeID \<Rightarrow> fanoutBranchTraversalResult option" where
  "fanoutBranchTraversal topology start =
     traversal_loop topology [\<lparr>fr_nodeID = start, fr_distance = 0, fr_path = []\<rparr>]
       \<lparr>pathNodes = [], joinDistances = []\<rparr>"

definition fanoutBranchJoinDistances :: "fanoutTopology \<Rightarrow> NodeID \<Rightarrow> (NodeID, nat) gomap option" where
  "fanoutBranchJoinDistances topology start =
     map_option joinDistances (fanoutBranchTraversal topology start)"


section \<open>The nearest common join\<close>

definition common_step :: "(NodeID, nat) gomap \<Rightarrow> (NodeID, nat) gomap \<Rightarrow> (NodeID, nat) gomap" where
  "common_step distances common =
     List.map_filter (\<lambda>(joinID, d). case map_of distances joinID of
                                      None \<Rightarrow> None
                                    | Some distance \<Rightarrow> Some (joinID, d + distance)) common"

fun nearest_step :: "NodeID \<times> nat \<Rightarrow> NodeID \<times> nat \<times> nat \<Rightarrow> NodeID \<times> nat \<times> nat" where
  "nearest_step (joinID, distance) (nearestJoinID, nearestDistance, nearestCount) =
     (if nearestCount = 0 \<or> distance < nearestDistance then (joinID, distance, 1)
      else if distance = nearestDistance then (nearestJoinID, nearestDistance, Suc nearestCount)
      else (nearestJoinID, nearestDistance, nearestCount))"

definition fanoutNearestCommonJoin :: "(NodeID, nat) gomap list \<Rightarrow> NodeID option" where
  "fanoutNearestCommonJoin branchJoinDistances =
     (case branchJoinDistances of
        [] \<Rightarrow> None
      | first # rest \<Rightarrow>
         let common = fold common_step rest first in
         if common = [] then None
         else case fold nearest_step common ('''', 0, 0) of
                (nearestJoinID, nearestDistance, nearestCount) \<Rightarrow>
                  if nearestCount = 1 then Some nearestJoinID else None)"


section \<open>The join edge of a branch\<close>

fun join_edge_scan ::
  "(NodeID, Node) gomap \<Rightarrow> NodeID \<Rightarrow> NodeID list \<Rightarrow> Edge list
   \<Rightarrow> (NodeID \<times> NodeID list) list \<Rightarrow> Edge list \<Rightarrow> ((NodeID \<times> NodeID list) list \<times> Edge list) option" where
  "join_edge_scan nodes joinID nextPath [] pushed candidates = Some (pushed, candidates)"
| "join_edge_scan nodes joinID nextPath (edge # edges) pushed candidates =
     (case map_of nodes (e_TargetNodeID edge) of
        None \<Rightarrow> None
      | Some target \<Rightarrow>
         if Kind target = NodeKindJoin then
           (if e_TargetNodeID edge \<noteq> joinID then None
            else join_edge_scan nodes joinID nextPath edges pushed (candidates @ [edge]))
         else join_edge_scan nodes joinID nextPath edges
                ((e_TargetNodeID edge, nextPath) # pushed) candidates)"

lemma join_edge_scan_pushed:
  "join_edge_scan nodes joinID nextPath edges pushed candidates = Some (pushed', candidates') \<Longrightarrow>
   \<exists>new. pushed' = new @ pushed \<and> (\<forall>f \<in> set new. snd f = nextPath)"
  by (induction edges arbitrary: pushed candidates)
    (fastforce split: option.splits if_splits)+

function join_edge_loop ::
  "fanoutTopology \<Rightarrow> NodeID \<Rightarrow> (NodeID \<times> NodeID list) list \<Rightarrow> Edge list \<Rightarrow> Edge list option" where
  "join_edge_loop topology joinID [] candidates = Some candidates"
| "join_edge_loop topology joinID ((nodeID, path) # stack) candidates =
     (if nodeID \<in> set path then None
      else case map_of (nodesByID topology) nodeID of
        None \<Rightarrow> None
      | Some node \<Rightarrow>
         if Kind node = NodeKindTerminal \<or> Kind node = NodeKindJoin then None
         else if has_fanout_group topology nodeID then None
         else case join_edge_scan (nodesByID topology) joinID (nodeID # path)
                     (mget_list (outgoingByNode topology) nodeID) stack candidates of
                None \<Rightarrow> None
              | Some (stack', candidates') \<Rightarrow> join_edge_loop topology joinID stack' candidates')"
  by pat_completeness auto
termination
proof (relation "inv_image frames_order
        (\<lambda>(topology, joinID, stack, candidates). map (\<lambda>f. nodes_left (nodesByID topology) (snd f)) stack)")
  fix topology joinID nodeID path stack candidates node x stack' candidates'
  assume "nodeID \<notin> set path" "map_of (nodesByID topology) nodeID = Some node"
    and scan: "join_edge_scan (nodesByID topology) joinID (nodeID # path)
      (mget_list (outgoingByNode topology) nodeID) stack candidates = Some x" "(stack', candidates') = x"
  then have less: "nodes_left (nodesByID topology) (nodeID # path) < nodes_left (nodesByID topology) path"
    by (simp add: nodes_left_less)
  from scan obtain new where "stack' = new @ stack" "\<forall>f \<in> set new. snd f = nodeID # path"
    using join_edge_scan_pushed by blast
  with less show "((topology, joinID, stack', candidates'), topology, joinID, (nodeID, path) # stack, candidates)
    \<in> inv_image frames_order
        (\<lambda>(topology, joinID, stack, candidates). map (\<lambda>f. nodes_left (nodesByID topology) (snd f)) stack)"
    by (auto intro!: frames_order_expand)
qed simp

declare join_edge_loop.simps [simp del]

definition fanoutBranchJoinEdge :: "fanoutTopology \<Rightarrow> NodeID \<Rightarrow> NodeID \<Rightarrow> Edge option" where
  "fanoutBranchJoinEdge topology start joinID =
     (case join_edge_loop topology joinID [(start, [])] [] of
        Some [edge] \<Rightarrow> Some edge
      | _ \<Rightarrow> None)"

section \<open>Resolution of a frozen fan-out\<close>

record FanoutJoinResolution =
  fjr_Join :: Node
  fjr_BranchJoinEdges :: "(TransitionBranchKey, Edge) gomap"

text \<open>The loop that collects \<open>expected\<close>: it returns false on a blank or repeated key.\<close>

fun expected_keys :: "TransitionBranchKey list \<Rightarrow> ModelKey list \<Rightarrow> ModelKey list option" where
  "expected_keys [] expected = Some expected"
| "expected_keys (branchKey # branchKeys) expected =
     (let key = TrimSpace branchKey in
      if key = '''' then None
      else if key \<in> set expected then None
      else expected_keys branchKeys (expected @ [key]))"

definition fanout_candidate :: "ModelKey list \<Rightarrow> Edge list \<Rightarrow> (TransitionBranchKey, Edge) gomap" where
  "fanout_candidate expected edges =
     fold (\<lambda>edge candidate.
        let key = TrimSpace (e_Key edge) in
        if key \<notin> set expected then candidate
        else if mhas candidate key then candidate
        else AList.update key edge candidate) edges []"

text \<open>The loop over the transition groups: the result is \<open>None\<close> on a second match, and
  otherwise the candidate found, if any.\<close>

fun find_fanout ::
  "(TransitionGroupID, Edge list) gomap \<Rightarrow> ModelKey list \<Rightarrow> TransitionGroup list
   \<Rightarrow> (TransitionBranchKey, Edge) gomap option \<Rightarrow> (TransitionBranchKey, Edge) gomap option" where
  "find_fanout edgesOf expected [] found = found"
| "find_fanout edgesOf expected (tgroup # groups) found =
     (let edges = mget_list edgesOf (tg_ID tgroup) in
      if length edges \<noteq> length expected then find_fanout edgesOf expected groups found
      else let candidate = fanout_candidate expected edges in
        if length candidate \<noteq> length expected then find_fanout edgesOf expected groups found
        else if found \<noteq> None then None
        else find_fanout edgesOf expected groups (Some candidate))"

text \<open>\<open>initialEdges[branchKey].TargetNodeID\<close>: the zero edge has no target.\<close>

definition branch_start :: "(TransitionBranchKey, Edge) gomap \<Rightarrow> TransitionBranchKey \<Rightarrow> NodeID" where
  "branch_start initialEdges branchKey =
     (case map_of initialEdges branchKey of None \<Rightarrow> '''' | Some edge \<Rightarrow> e_TargetNodeID edge)"

fun collect_distances :: "fanoutTopology \<Rightarrow> NodeID list \<Rightarrow> (NodeID, nat) gomap list option" where
  "collect_distances topology [] = Some []"
| "collect_distances topology (start # starts) =
     (case fanoutBranchJoinDistances topology start of
        None \<Rightarrow> None
      | Some distances \<Rightarrow>
         if distances = [] then None
         else map_option ((#) distances) (collect_distances topology starts))"

fun collect_join_edges ::
  "fanoutTopology \<Rightarrow> (TransitionBranchKey, Edge) gomap \<Rightarrow> NodeID \<Rightarrow> TransitionBranchKey list
   \<Rightarrow> (TransitionBranchKey, Edge) gomap \<Rightarrow> (TransitionBranchKey, Edge) gomap option" where
  "collect_join_edges topology initialEdges joinID [] acc = Some acc"
| "collect_join_edges topology initialEdges joinID (branchKey # branchKeys) acc =
     (case fanoutBranchJoinEdge topology (branch_start initialEdges branchKey) joinID of
        None \<Rightarrow> None
      | Some edge \<Rightarrow>
         collect_join_edges topology initialEdges joinID branchKeys (AList.update branchKey edge acc))"

definition ResolveFanoutJoin ::
  "Definition \<Rightarrow> TransitionBranchKey list \<Rightarrow> FanoutJoinResolution option" where
  "ResolveFanoutJoin def branchKeys =
     (case expected_keys branchKeys [] of
        None \<Rightarrow> None
      | Some expected \<Rightarrow>
         if length expected < 2 then None
         else let topology = newFanoutTopology def in
           case find_fanout (edgesByGroup topology) expected (d_TransitionGroups def) None of
             None \<Rightarrow> None
           | Some initialEdges \<Rightarrow>
              case collect_distances topology (map (branch_start initialEdges) branchKeys) of
                None \<Rightarrow> None
              | Some distancesByBranch \<Rightarrow>
                 case fanoutNearestCommonJoin distancesByBranch of
                   None \<Rightarrow> None
                 | Some joinID \<Rightarrow>
                    case map_of (nodesByID topology) joinID of
                      None \<Rightarrow> None
                    | Some join \<Rightarrow>
                       if Kind join \<noteq> NodeKindJoin then None
                       else case collect_join_edges topology initialEdges joinID branchKeys [] of
                              None \<Rightarrow> None
                            | Some branchJoinEdges \<Rightarrow>
                               Some \<lparr>fjr_Join = join, fjr_BranchJoinEdges = branchJoinEdges\<rparr>)"

definition serial_target :: "Definition \<Rightarrow> fanoutTopology \<Rightarrow> TransitionGroupID \<Rightarrow> NodeID option" where
  "serial_target def topology transitionGroupID =
     (case List.find (\<lambda>group. tg_ID group = transitionGroupID) (d_TransitionGroups def) of
        None \<Rightarrow> None
      | Some tgroup \<Rightarrow>
         (case mget_list (edgesByGroup topology) (tg_ID tgroup) of
            [edge] \<Rightarrow> Some (e_TargetNodeID edge)
          | _ \<Rightarrow> None))"

definition valid_fanout_edges :: "fanoutTopology \<Rightarrow> Edge list \<Rightarrow> bool" where
  "valid_fanout_edges topology fanoutEdges =
     (case collect_distances topology (map e_TargetNodeID fanoutEdges) of
        None \<Rightarrow> False
      | Some branchJoinDistances \<Rightarrow>
         (case fanoutNearestCommonJoin branchJoinDistances of
            None \<Rightarrow> False
          | Some joinID \<Rightarrow>
             (case map_of (nodesByID topology) joinID of
                None \<Rightarrow> False
              | Some join \<Rightarrow> Kind join = NodeKindJoin \<and>
                  list_all (\<lambda>edge. fanoutBranchJoinEdge topology (e_TargetNodeID edge) joinID \<noteq> None)
                    fanoutEdges)))"

definition SerialTransitionRequiresFanoutSiblings :: "Definition \<Rightarrow> TransitionGroupID \<Rightarrow> bool" where
  "SerialTransitionRequiresFanoutSiblings def transitionGroupID =
     (let topology = newFanoutTopology def in
      case serial_target def topology transitionGroupID of
        None \<Rightarrow> False
      | Some targetNodeID \<Rightarrow>
         list_ex (\<lambda>fanoutGroup.
           let fanoutEdges = mget_list (edgesByGroup topology) (tg_ID fanoutGroup) in
           length fanoutEdges \<ge> 2 \<and> valid_fanout_edges topology fanoutEdges \<and>
           list_ex (\<lambda>edge. case fanoutBranchTraversal topology (e_TargetNodeID edge) of
                              None \<Rightarrow> False
                            | Some traversal \<Rightarrow> mhas (pathNodes traversal) targetNodeID) fanoutEdges)
           (d_TransitionGroups def))"


section \<open>Branch walks\<close>

text \<open>A branch continues only through inner nodes: defined, neither a join nor a terminal,
  and without a nested fan-out. A branch walk may end in a node of any kind.\<close>

definition is_join :: "fanoutTopology \<Rightarrow> NodeID \<Rightarrow> bool" where
  "is_join topology n \<longleftrightarrow> map_option Kind (map_of (nodesByID topology) n) = Some NodeKindJoin"

definition branch_inner :: "fanoutTopology \<Rightarrow> NodeID \<Rightarrow> bool" where
  "branch_inner topology n \<longleftrightarrow>
     (case map_of (nodesByID topology) n of
        None \<Rightarrow> False
      | Some node \<Rightarrow> Kind node \<noteq> NodeKindJoin \<and> Kind node \<noteq> NodeKindTerminal \<and>
                     \<not> has_fanout_group topology n)"

definition branch_out :: "fanoutTopology \<Rightarrow> NodeID \<Rightarrow> Edge list" where
  "branch_out topology n = (if branch_inner topology n then mget_list (outgoingByNode topology) n else [])"

text \<open>What the branch traversal requires of every branch walk, from a node with a path
  behind it: it ends in a join or an inner node and visits no node twice.\<close>

definition branch_safe :: "fanoutTopology \<Rightarrow> NodeID list \<Rightarrow> NodeID \<Rightarrow> bool" where
  "branch_safe topology path n \<longleftrightarrow>
     (\<forall>es m. walk (branch_out topology) n es m \<longrightarrow>
        (is_join topology m \<or> branch_inner topology m) \<and>
        distinct (walk_nodes n es) \<and> set (walk_nodes n es) \<inter> set path = {})"

lemma walk_unfold:
  "walk out n es m \<longleftrightarrow> (es = [] \<and> m = n) \<or> (\<exists>e es'. es = e # es' \<and> e \<in> set (out n) \<and> walk out (e_TargetNodeID e) es' m)"
  by (cases es) auto

lemma join_not_inner: "is_join topology n \<Longrightarrow> \<not> branch_inner topology n"
  by (auto simp: is_join_def branch_inner_def split: option.splits)

lemma branch_safe_inner:
  assumes "branch_inner topology n"
  shows "branch_safe topology path n \<longleftrightarrow>
    n \<notin> set path \<and>
    (\<forall>e \<in> set (mget_list (outgoingByNode topology) n). branch_safe topology (n # path) (e_TargetNodeID e))"
    (is "?L \<longleftrightarrow> ?R")
proof
  assume L: ?L
  have "n \<notin> set path" using L assms unfolding branch_safe_def by (auto dest: spec [where x = "[]"])
  moreover have "branch_safe topology (n # path) (e_TargetNodeID e)"
    if "e \<in> set (mget_list (outgoingByNode topology) n)" for e
    unfolding branch_safe_def
  proof (intro allI impI)
    fix es m assume "walk (branch_out topology) (e_TargetNodeID e) es m"
    with that assms have "walk (branch_out topology) n (e # es) m" by (simp add: branch_out_def)
    with L show "(is_join topology m \<or> branch_inner topology m) \<and> distinct (walk_nodes (e_TargetNodeID e) es) \<and>
       set (walk_nodes (e_TargetNodeID e) es) \<inter> set (n # path) = {}"
      unfolding branch_safe_def by fastforce
  qed
  ultimately show ?R by blast
next
  assume R: ?R
  show ?L unfolding branch_safe_def
  proof (intro allI impI)
    fix es m assume "walk (branch_out topology) n es m"
    then show "(is_join topology m \<or> branch_inner topology m) \<and> distinct (walk_nodes n es) \<and>
       set (walk_nodes n es) \<inter> set path = {}"
      using R assms unfolding branch_safe_def
      by (cases es) (fastforce simp: branch_out_def)+
  qed
qed

lemma branch_safe_stop:
  assumes "\<not> branch_inner topology n"
  shows "branch_safe topology path n \<longleftrightarrow> is_join topology n \<and> n \<notin> set path"
proof -
  have "walk (branch_out topology) n es m \<longleftrightarrow> es = [] \<and> m = n" for es m
    using assms by (cases es) (auto simp: branch_out_def)
  then show ?thesis using assms by (auto simp: branch_safe_def)
qed

section \<open>Correctness of the branch traversal\<close>

definition least_nat :: "nat set \<Rightarrow> nat option" where
  "least_nat S = (if S = {} then None else Some (Inf S))"

lemma least_nat_empty [simp]: "least_nat {} = None"
  by (simp add: least_nat_def)

lemma least_nat_Some: "least_nat S = Some d \<longleftrightarrow> d \<in> S \<and> (\<forall>x \<in> S. d \<le> x)"
proof -
  have "Inf S \<in> S" "\<forall>x \<in> S. Inf S \<le> x" if "S \<noteq> {}"
    using that by (auto intro: Inf_nat_def1 cInf_lower)
  then show ?thesis unfolding least_nat_def by (auto intro: order_antisym)
qed

lemma least_nat_eq: "S = T \<Longrightarrow> least_nat S = least_nat T"
  by simp

lemma least_nat_set_option [simp]: "least_nat (set_option x) = x"
  by (cases x) (simp_all add: least_nat_Some)

lemma least_nat_insert_Un:
  "least_nat (insert d (set_option (least_nat S))) = least_nat (insert d S)"
proof (cases "S = {}")
  case False
  then obtain m where "least_nat S = Some m" by (simp add: least_nat_def)
  then have "m \<in> S" "\<forall>x \<in> S. m \<le> x" by (simp_all add: least_nat_Some)
  then have "least_nat (insert d S) = Some (min d m)" by (auto simp: least_nat_Some min_def)
  moreover have "least_nat {d, m} = Some (min d m)" by (auto simp: least_nat_Some min_def)
  ultimately show ?thesis using \<open>least_nat S = Some m\<close> by simp
qed simp

lemma least_nat_Un: "least_nat (set_option (least_nat S) \<union> T) = least_nat (S \<union> T)"
proof (cases "S = {}")
  case False
  then obtain m where m: "least_nat S = Some m" by (simp add: least_nat_def)
  then have S: "m \<in> S" "\<forall>x \<in> S. m \<le> x" by (simp_all add: least_nat_Some)
  show ?thesis
  proof -
    obtain k where k: "least_nat (insert m T) = Some k" by (simp add: least_nat_def)
    then have "k = m \<or> k \<in> T" "k \<le> m" "\<forall>x \<in> T. k \<le> x" by (auto simp: least_nat_Some)
    with S have "least_nat (S \<union> T) = Some k" by (force simp: least_nat_Some)
    with k m show ?thesis by simp
  qed
qed simp

lemma map_of_keep_least:
  "map_of (keep_least k d m) j = least_nat (set_option (map_of m j) \<union> (if j = k then {d} else {}))"
  unfolding keep_least_def
  by (auto split: option.splits simp: least_nat_Some eq_commute [of _ "least_nat _"])

lemma distinct_keep_least: "distinct (mkeys m) \<Longrightarrow> distinct (mkeys (keep_least k d m))"
  by (auto simp: keep_least_def distinct_update split: option.splits)

text \<open>Lengths of the branch walks from the frames of a stack to a node.\<close>

definition walk_lengths :: "fanoutTopology \<Rightarrow> frame list \<Rightarrow> NodeID \<Rightarrow> nat set" where
  "walk_lengths topology stack j =
     {fr_distance f + length es |f es. f \<in> set stack \<and> walk (branch_out topology) (fr_nodeID f) es j}"

definition next_frames :: "fanoutTopology \<Rightarrow> frame \<Rightarrow> frame list" where
  "next_frames topology f =
     map (\<lambda>edge. \<lparr>fr_nodeID = e_TargetNodeID edge, fr_distance = Suc (fr_distance f),
                  fr_path = fr_nodeID f # fr_path f\<rparr>)
       (mget_list (outgoingByNode topology) (fr_nodeID f))"

lemma walk_lengths_Nil [simp]: "walk_lengths topology [] j = {}"
  by (simp add: walk_lengths_def)

lemma walk_lengths_append: "walk_lengths topology (xs @ ys) j = walk_lengths topology xs j \<union> walk_lengths topology ys j"
  by (auto simp: walk_lengths_def)

lemma walk_lengths_rev [simp]: "walk_lengths topology (rev xs) j = walk_lengths topology xs j"
  by (simp add: walk_lengths_def)

lemma walk_lengths_Cons:
  "walk_lengths topology (f # fs) j = walk_lengths topology [f] j \<union> walk_lengths topology fs j"
  using walk_lengths_append [of topology "[f]" fs j] by simp

lemma walk_lengths_single:
  "walk_lengths topology [f] j =
     (if j = fr_nodeID f then {fr_distance f} else {}) \<union>
     (if branch_inner topology (fr_nodeID f) then walk_lengths topology (next_frames topology f) j else {})"
proof (intro set_eqI iffI)
  fix x assume "x \<in> walk_lengths topology [f] j"
  then obtain es where es: "x = fr_distance f + length es" "walk (branch_out topology) (fr_nodeID f) es j"
    by (auto simp: walk_lengths_def)
  show "x \<in> (if j = fr_nodeID f then {fr_distance f} else {}) \<union>
     (if branch_inner topology (fr_nodeID f) then walk_lengths topology (next_frames topology f) j else {})"
  proof (cases es)
    case (Cons e es')
    with es have inner: "branch_inner topology (fr_nodeID f)"
      and e: "e \<in> set (mget_list (outgoingByNode topology) (fr_nodeID f))"
      and w: "walk (branch_out topology) (e_TargetNodeID e) es' j" "x = Suc (fr_distance f) + length es'"
      by (auto simp: branch_out_def split: if_splits)
    from e have "\<lparr>fr_nodeID = e_TargetNodeID e, fr_distance = Suc (fr_distance f),
        fr_path = fr_nodeID f # fr_path f\<rparr> \<in> set (next_frames topology f)"
      by (simp add: next_frames_def)
    with w have "x \<in> walk_lengths topology (next_frames topology f) j"
      unfolding walk_lengths_def by force
    with inner show ?thesis by simp
  qed (use es in simp)
next
  fix x
  assume "x \<in> (if j = fr_nodeID f then {fr_distance f} else {}) \<union>
     (if branch_inner topology (fr_nodeID f) then walk_lengths topology (next_frames topology f) j else {})"
  then consider "j = fr_nodeID f" "x = fr_distance f"
    | "branch_inner topology (fr_nodeID f)" "x \<in> walk_lengths topology (next_frames topology f) j"
    by (auto split: if_splits)
  then show "x \<in> walk_lengths topology [f] j"
  proof cases
    case 1
    then have "walk (branch_out topology) (fr_nodeID f) [] j" by simp
    with 1 show ?thesis unfolding walk_lengths_def by force
  next
    case 2
    then obtain e es where "e \<in> set (branch_out topology (fr_nodeID f))"
      "walk (branch_out topology) (e_TargetNodeID e) es j" "x = Suc (fr_distance f) + length es"
      by (auto simp: walk_lengths_def next_frames_def branch_out_def)
    then have "walk (branch_out topology) (fr_nodeID f) (e # es) j" "x = fr_distance f + length (e # es)"
      by simp_all
    then show ?thesis unfolding walk_lengths_def by (metis (mono_tags, lifting) list.set_intros(1) mem_Collect_eq)
  qed
qed

definition note_join :: "frame \<Rightarrow> fanoutBranchTraversalResult \<Rightarrow> fanoutBranchTraversalResult" where
  "note_join f result =
     result\<lparr>joinDistances := keep_least (fr_nodeID f) (fr_distance f) (joinDistances result)\<rparr>"

definition note_path :: "frame \<Rightarrow> fanoutBranchTraversalResult \<Rightarrow> fanoutBranchTraversalResult" where
  "note_path f result =
     result\<lparr>pathNodes := keep_least (fr_nodeID f) (fr_distance f) (pathNodes result)\<rparr>"

lemma traversal_loop_Cons:
  "traversal_loop topology (f # stack) result =
     (if fr_nodeID f \<in> set (fr_path f) then None
      else if is_join topology (fr_nodeID f) then traversal_loop topology stack (note_join f result)
      else if branch_inner topology (fr_nodeID f)
      then traversal_loop topology (rev (next_frames topology f) @ stack) (note_path f result)
      else None)"
  by (simp add: traversal_loop.simps(2) is_join_def branch_inner_def note_join_def note_path_def
      next_frames_def Let_def split: option.splits)

lemma traversal_loop_induct [case_names empty stop join inner]:
  assumes "\<And>result. P [] result"
    and "\<And>f stack result. traversal_loop topology (f # stack) result = None \<Longrightarrow>
          fr_nodeID f \<in> set (fr_path f) \<or> \<not> is_join topology (fr_nodeID f) \<and> \<not> branch_inner topology (fr_nodeID f) \<Longrightarrow>
          P (f # stack) result"
    and "\<And>f stack result. fr_nodeID f \<notin> set (fr_path f) \<Longrightarrow> is_join topology (fr_nodeID f) \<Longrightarrow>
          P stack (note_join f result) \<Longrightarrow> P (f # stack) result"
    and "\<And>f stack result. fr_nodeID f \<notin> set (fr_path f) \<Longrightarrow> \<not> is_join topology (fr_nodeID f) \<Longrightarrow>
          branch_inner topology (fr_nodeID f) \<Longrightarrow>
          P (rev (next_frames topology f) @ stack) (note_path f result) \<Longrightarrow> P (f # stack) result"
  shows "P stack result"
proof -
  have "t = topology \<Longrightarrow> P stack result" for t
  proof (induction t stack result rule: traversal_loop.induct)
    case (1 t result)
    show ?case by (rule assms(1))
  next
    case (2 t f stack result)
    show ?case
    proof (cases "fr_nodeID f \<in> set (fr_path f) \<or>
        \<not> is_join topology (fr_nodeID f) \<and> \<not> branch_inner topology (fr_nodeID f)")
      case True
      then show ?thesis by (intro assms(2)) (auto simp: traversal_loop_Cons)
    next
      case False
      note IH = "2.IH" [unfolded \<open>t = topology\<close>, folded note_join_def note_path_def]
      from False obtain node where node: "map_of (nodesByID topology) (fr_nodeID f) = Some node"
        by (auto simp: is_join_def branch_inner_def split: option.splits)
      show ?thesis
      proof (cases "is_join topology (fr_nodeID f)")
        case True
        with False node IH(1) [of node] show ?thesis by (intro assms(3)) (auto simp: is_join_def)
      next
        case join: False
        with False node have "P (rev (next_frames topology f) @ stack) (note_path f result)"
          unfolding next_frames_def
          by (intro IH(2) [of node]) (auto simp: is_join_def branch_inner_def)
        with False join show ?thesis by (intro assms(4)) auto
      qed
    qed
  qed
  then show ?thesis by blast
qed

lemma traversal_loop_safe:
  "traversal_loop topology stack result \<noteq> None \<longleftrightarrow>
   (\<forall>f \<in> set stack. branch_safe topology (fr_path f) (fr_nodeID f))"
proof (induction stack result rule: traversal_loop_induct [of _ topology])
  case (empty result)
  then show ?case by (simp add: traversal_loop.simps)
next
  case (stop f stack result)
  then have "\<not> branch_safe topology (fr_path f) (fr_nodeID f)"
    using branch_safe_inner branch_safe_stop by blast
  with stop show ?case by simp
next
  case (join f stack result)
  then have "branch_safe topology (fr_path f) (fr_nodeID f)"
    by (simp add: branch_safe_stop join_not_inner)
  with join show ?case by (simp add: traversal_loop_Cons)
next
  case (inner f stack result)
  then have "branch_safe topology (fr_path f) (fr_nodeID f) \<longleftrightarrow>
      (\<forall>f' \<in> set (next_frames topology f). branch_safe topology (fr_path f') (fr_nodeID f'))"
    by (simp add: branch_safe_inner next_frames_def)
  with inner show ?case by (auto simp: traversal_loop_Cons)
qed

lemma traversal_loop_least:
  assumes "traversal_loop topology stack result = Some result'"
  shows "map_of (joinDistances result') j =
           least_nat (set_option (map_of (joinDistances result) j) \<union>
             (if is_join topology j then walk_lengths topology stack j else {})) \<and>
         map_of (pathNodes result') j =
           least_nat (set_option (map_of (pathNodes result) j) \<union>
             (if branch_inner topology j then walk_lengths topology stack j else {}))"
  using assms
proof (induction stack result rule: traversal_loop_induct [of _ topology])
  case (empty result)
  then show ?case by (simp add: traversal_loop.simps)
next
  case (stop f stack result)
  then show ?case by simp
next
  case (join f stack result)
  then have ni: "\<not> branch_inner topology (fr_nodeID f)" by (simp add: join_not_inner)
  from join show ?case
    by (auto simp: traversal_loop_Cons note_join_def map_of_keep_least least_nat_Un ni
        walk_lengths_Cons [of _ f stack] walk_lengths_single [of _ f] Un_assoc)
next
  case (inner f stack result)
  then show ?case
    by (auto simp: traversal_loop_Cons note_path_def map_of_keep_least least_nat_Un
        walk_lengths_Cons [of _ f stack] walk_lengths_single [of _ f] walk_lengths_append Un_assoc)
qed

lemma traversal_loop_distinct:
  assumes "traversal_loop topology stack result = Some result'"
    and "distinct (mkeys (joinDistances result))" and "distinct (mkeys (pathNodes result))"
  shows "distinct (mkeys (joinDistances result')) \<and> distinct (mkeys (pathNodes result'))"
  using assms
  by (induction stack result rule: traversal_loop_induct [of _ topology])
    (simp_all add: traversal_loop.simps(1) traversal_loop_Cons note_join_def note_path_def distinct_keep_least)

text \<open>
  A fan-out branch is accepted exactly when every branch walk from its first node stays
  inside the branch: it ends in a join or in an inner node (a defined node that is no
  terminal and opens no nested fan-out) and never visits a node twice.
\<close>

theorem fanoutBranchTraversal_accepts:
  "fanoutBranchTraversal topology start \<noteq> None \<longleftrightarrow>
   (\<forall>es m. walk (branch_out topology) start es m \<longrightarrow>
      (is_join topology m \<or> branch_inner topology m) \<and> distinct (walk_nodes start es))"
  unfolding fanoutBranchTraversal_def traversal_loop_safe by (simp add: branch_safe_def)

text \<open>
  When a fan-out branch is accepted, the traversal reports for every join the length of
  the shortest branch walk that arrives there, and for every inner node the length of the
  shortest branch walk to it; it reports no other node.
\<close>

theorem fanoutBranchTraversal_distances:
  assumes "fanoutBranchTraversal topology start = Some result"
  shows "(map_of (joinDistances result) j = Some d \<longleftrightarrow>
           is_join topology j \<and> (\<exists>es. walk (branch_out topology) start es j \<and> length es = d) \<and>
           (\<forall>es. walk (branch_out topology) start es j \<longrightarrow> d \<le> length es)) \<and>
         (map_of (pathNodes result) j = Some d \<longleftrightarrow>
           branch_inner topology j \<and> (\<exists>es. walk (branch_out topology) start es j \<and> length es = d) \<and>
           (\<forall>es. walk (branch_out topology) start es j \<longrightarrow> d \<le> length es))"
proof -
  have "walk_lengths topology [\<lparr>fr_nodeID = start, fr_distance = 0, fr_path = []\<rparr>] j =
      {length es |es. walk (branch_out topology) start es j}"
    by (auto simp: walk_lengths_def)
  with traversal_loop_least [OF assms [unfolded fanoutBranchTraversal_def], of j]
  show ?thesis by (auto simp: least_nat_Some)
qed

lemma fanoutBranchJoinDistances_distinct:
  "fanoutBranchJoinDistances topology start = Some distances \<Longrightarrow> distinct (mkeys distances)"
  using traversal_loop_distinct
  by (fastforce simp: fanoutBranchJoinDistances_def fanoutBranchTraversal_def)


section \<open>Correctness of the nearest common join\<close>

definition common_join :: "(NodeID, nat) gomap list \<Rightarrow> NodeID \<Rightarrow> bool" where
  "common_join ds j \<longleftrightarrow> list_all (\<lambda>m. mhas m j) ds"

definition total_distance :: "(NodeID, nat) gomap list \<Rightarrow> NodeID \<Rightarrow> nat" where
  "total_distance ds j = sum_list (map (\<lambda>m. the (map_of m j)) ds)"

lemma common_step_map:
  assumes "distinct (mkeys common)"
  shows "distinct (mkeys (common_step distances common)) \<and>
    map_of (common_step distances common) j =
      (case (map_of common j, map_of distances j) of (Some d, Some d') \<Rightarrow> Some (d + d') | _ \<Rightarrow> None)"
  using assms
proof (induction common)
  case (Cons p common)
  obtain k d where p: "p = (k, d)" by fastforce
  have k: "k \<notin> set (mkeys (common_step distances common))"
    using Cons.prems by (force simp: p common_step_def map_filter_def split: option.splits)
  have step: "common_step distances (p # common) =
      (case map_of distances k of None \<Rightarrow> common_step distances common
       | Some d' \<Rightarrow> (k, d + d') # common_step distances common)"
    by (simp add: p common_step_def map_filter_simps split: option.splits)
  have "map_of common k = None" using Cons.prems by (simp add: p map_of_eq_None_iff)
  with Cons k step show ?case by (auto simp: p split: option.splits)
qed (simp add: common_step_def map_filter_simps)

lemma fold_common_step:
  assumes "distinct (mkeys common)"
  shows "distinct (mkeys (fold common_step ds common)) \<and>
    map_of (fold common_step ds common) j =
      (if mhas common j \<and> common_join ds j then Some (the (map_of common j) + total_distance ds j) else None)"
  using assms
proof (induction ds arbitrary: common)
  case Nil
  then show ?case by (cases "map_of common j") (simp_all add: common_join_def total_distance_def)
next
  case (Cons m ds)
  from common_step_map [OF Cons.prems, of m] Cons.IH [of "common_step m common"]
  show ?case by (auto simp: common_join_def total_distance_def split: option.splits)
qed

definition nearest_state :: "(NodeID, nat) gomap \<Rightarrow> NodeID \<times> nat \<times> nat \<Rightarrow> bool" where
  "nearest_state common st \<longleftrightarrow>
     (case st of (j, d, c) \<Rightarrow>
        c = length (filter (\<lambda>p. snd p = d) common) \<and> (common \<noteq> [] \<longrightarrow> (j, d) \<in> set common) \<and>
        (common = [] \<longrightarrow> c = 0) \<and> (\<forall>p \<in> set common. d \<le> snd p))"

lemma nearest_state_step: "nearest_state common st \<Longrightarrow> nearest_state (common @ [p]) (nearest_step p st)"
  by (cases st; cases p)
    (auto simp: nearest_state_def filter_empty_conv)

lemma nearest_state_fold: "nearest_state common st \<Longrightarrow> nearest_state (common @ ps) (fold nearest_step ps st)"
proof (induction ps arbitrary: common st)
  case (Cons p ps)
  from Cons.IH [OF nearest_state_step [OF Cons.prems, of p]] show ?case by simp
qed simp

lemma one_of_filter:
  fixes common :: "(NodeID, nat) gomap"
  assumes "distinct (mkeys common)" and "(j, d) \<in> set common" and "\<forall>p \<in> set common. d \<le> snd p"
  shows "length (filter (\<lambda>p. snd p = d) common) = 1 \<longleftrightarrow>
    (\<forall>k d'. (k, d') \<in> set common \<and> k \<noteq> j \<longrightarrow> d < d')"
proof -
  let ?F = "filter (\<lambda>p. snd p = d) common"
  have dist: "distinct ?F" using assms(1) by (simp add: distinct_map)
  have "length ?F = card {p \<in> set common. snd p = d}"
    using distinct_card [OF dist] by simp
  moreover have "card {p \<in> set common. snd p = d} = 1 \<longleftrightarrow> {p \<in> set common. snd p = d} = {(j, d)}"
  proof
    assume "card {p \<in> set common. snd p = d} = 1"
    then obtain x where x: "{p \<in> set common. snd p = d} = {x}" by (auto simp: card_1_singleton_iff)
    have "(j, d) \<in> {p \<in> set common. snd p = d}" using assms(2) by simp
    with x show "{p \<in> set common. snd p = d} = {(j, d)}" by simp
  qed simp
  moreover have "{p \<in> set common. snd p = d} = {(j, d)} \<longleftrightarrow>
      (\<forall>k d'. (k, d') \<in> set common \<and> k \<noteq> j \<longrightarrow> d < d')"
  proof (rule iffI; (intro allI impI)?)
    fix k d' assume only: "{p \<in> set common. snd p = d} = {(j, d)}" and "(k, d') \<in> set common \<and> k \<noteq> j"
    then have k: "(k, d') \<in> set common" "k \<noteq> j" by simp_all
    have "d' \<noteq> d"
    proof
      assume "d' = d"
      with k have "(k, d) \<in> {p \<in> set common. snd p = d}" by simp
      with only k show False by simp
    qed
    moreover have "d \<le> d'" using assms(3) k by fastforce
    ultimately show "d < d'" by simp
  next
    assume less: "\<forall>k d'. (k, d') \<in> set common \<and> k \<noteq> j \<longrightarrow> d < d'"
    have "p \<in> {p \<in> set common. snd p = d} \<longleftrightarrow> p \<in> {(j, d)}" for p
      using less assms(2) by (cases p) auto
    then show "{p \<in> set common. snd p = d} = {(j, d)}" by blast
  qed
  ultimately show ?thesis by simp
qed

text \<open>
  \<open>fanoutNearestCommonJoin\<close> returns a join exactly when every branch reaches it and its
  summed distance over the branches is strictly below that of every other common join; a tie
  gives no answer. The outcome does not depend on the iteration order of the maps.
\<close>

theorem fanoutNearestCommonJoin_iff:
  assumes "\<forall>m \<in> set ds. distinct (mkeys m)"
  shows "fanoutNearestCommonJoin ds = Some j \<longleftrightarrow>
    ds \<noteq> [] \<and> common_join ds j \<and>
    (\<forall>k. common_join ds k \<and> k \<noteq> j \<longrightarrow> total_distance ds j < total_distance ds k)"
proof (cases ds)
  case Nil
  then show ?thesis by (simp add: fanoutNearestCommonJoin_def)
next
  case (Cons m ms)
  let ?c = "fold common_step ms m"
  have dist: "distinct (mkeys ?c)"
    and c: "map_of ?c k = (if common_join ds k then Some (total_distance ds k) else None)" for k
    using fold_common_step [of m ms k] assms Cons
    by (auto simp: common_join_def total_distance_def)
  have mem: "(k, d) \<in> set ?c \<longleftrightarrow> common_join ds k \<and> d = total_distance ds k" for k d
    using c [of k] map_of_eq_Some_iff [OF dist, of k d] by (simp split: if_splits) blast+
  obtain j' d' n where st: "fold nearest_step ?c ('''', 0, 0) = (j', d', n)" by (metis prod_cases3)
  have ns: "nearest_state ?c (j', d', n)"
    using nearest_state_fold [of "[]" "('''', 0, 0)" ?c] st by (simp add: nearest_state_def)
  show ?thesis
  proof (cases "?c = []")
    case True
    with mem have "\<not> common_join ds j" by force
    with Cons True show ?thesis by (simp add: fanoutNearestCommonJoin_def)
  next
    case False
    with ns have j': "(j', d') \<in> set ?c" "\<forall>p \<in> set ?c. d' \<le> snd p"
      and n: "n = length (filter (\<lambda>p. snd p = d') ?c)" by (auto simp: nearest_state_def)
    from False Cons st have "fanoutNearestCommonJoin ds = Some j \<longleftrightarrow> n = 1 \<and> j = j'"
      by (auto simp: fanoutNearestCommonJoin_def)
    also have "\<dots> \<longleftrightarrow> j = j' \<and> (\<forall>k. common_join ds k \<and> k \<noteq> j' \<longrightarrow> total_distance ds j' < total_distance ds k)"
      using one_of_filter [OF dist j'] j'(1) n mem by metis
    also have "\<dots> \<longleftrightarrow> common_join ds j \<and>
        (\<forall>k. common_join ds k \<and> k \<noteq> j \<longrightarrow> total_distance ds j < total_distance ds k)"
    proof -
      have "common_join ds j'" using j'(1) mem by simp
      moreover have "total_distance ds j' \<le> total_distance ds k" if "common_join ds k" for k
        using j'(2) mem [of j' d'] mem [of k "total_distance ds k"] j'(1) that by fastforce
      ultimately show ?thesis by (metis leD)
    qed
    finally show ?thesis using Cons by simp
  qed
qed

section \<open>Correctness of the branch join edge\<close>

text \<open>The condition under which one expansion of the loop goes on, and its effect.\<close>

definition join_edges_ok :: "fanoutTopology \<Rightarrow> NodeID \<Rightarrow> Edge list \<Rightarrow> bool" where
  "join_edges_ok topology joinID edges \<longleftrightarrow>
     (\<forall>e \<in> set edges. mhas (nodesByID topology) (e_TargetNodeID e) \<and>
        (is_join topology (e_TargetNodeID e) \<longrightarrow> e_TargetNodeID e = joinID))"

definition joining :: "fanoutTopology \<Rightarrow> Edge list \<Rightarrow> Edge list" where
  "joining topology edges = filter (\<lambda>e. is_join topology (e_TargetNodeID e)) edges"

definition staying :: "fanoutTopology \<Rightarrow> Edge list \<Rightarrow> Edge list" where
  "staying topology edges = filter (\<lambda>e. \<not> is_join topology (e_TargetNodeID e)) edges"

lemma join_edge_scan_eq:
  "join_edge_scan (nodesByID topology) joinID nextPath edges pushed candidates =
     (if join_edges_ok topology joinID edges
      then Some (rev (map (\<lambda>e. (e_TargetNodeID e, nextPath)) (staying topology edges)) @ pushed,
                 candidates @ joining topology edges)
      else None)"
proof (induction edges arbitrary: pushed candidates)
  case Nil
  show ?case by (simp add: join_edges_ok_def joining_def staying_def)
next
  case (Cons e edges)
  have ok: "join_edges_ok topology joinID (e # edges) \<longleftrightarrow>
      mhas (nodesByID topology) (e_TargetNodeID e) \<and>
      (is_join topology (e_TargetNodeID e) \<longrightarrow> e_TargetNodeID e = joinID) \<and> join_edges_ok topology joinID edges"
    by (simp add: join_edges_ok_def)
  show ?case
  proof (cases "map_of (nodesByID topology) (e_TargetNodeID e)")
    case (Some target)
    then have "is_join topology (e_TargetNodeID e) \<longleftrightarrow> Kind target = NodeKindJoin" by (simp add: is_join_def)
    with Some ok show ?thesis by (simp add: Cons.IH joining_def staying_def)
  qed (simp add: ok)
qed

lemma join_edge_loop_Cons:
  "join_edge_loop topology joinID ((nodeID, path) # stack) candidates =
     (if nodeID \<notin> set path \<and> branch_inner topology nodeID \<and>
         join_edges_ok topology joinID (branch_out topology nodeID)
      then join_edge_loop topology joinID
             (rev (map (\<lambda>e. (e_TargetNodeID e, nodeID # path)) (staying topology (branch_out topology nodeID))) @ stack)
             (candidates @ joining topology (branch_out topology nodeID))
      else None)"
  by (simp add: join_edge_loop.simps branch_inner_def branch_out_def join_edge_scan_eq split: option.splits)

text \<open>The branch walks from a node that end in a join.\<close>

definition join_walks :: "fanoutTopology \<Rightarrow> NodeID \<Rightarrow> Edge list set" where
  "join_walks topology n = {es. \<exists>k. walk (branch_out topology) n es k \<and> is_join topology k}"

lemma join_walks_join: "is_join topology n \<Longrightarrow> join_walks topology n = {[]}"
  by (auto simp: join_walks_def branch_out_def join_not_inner walk_unfold [of _ n])

lemma join_walks_other:
  "\<not> is_join topology n \<Longrightarrow>
   join_walks topology n = (\<Union>e \<in> set (branch_out topology n). (#) e ` join_walks topology (e_TargetNodeID e))"
  by (auto simp: join_walks_def walk_unfold [of _ n] image_iff)

lemma card_UN_list:
  assumes "\<forall>x \<in> set xs. finite (f x)"
  shows "card (\<Union>x \<in> set xs. f x) \<le> sum_list (map (\<lambda>x. card (f x)) xs)"
  using assms
proof (induction xs)
  case (Cons x xs)
  then have "card (f x \<union> (\<Union>x \<in> set xs. f x)) \<le> card (f x) + card (\<Union>x \<in> set xs. f x)"
    by (intro card_Un_le)
  with Cons show ?case by simp
qed simp

definition join_walk_count :: "fanoutTopology \<Rightarrow> (NodeID \<times> NodeID list) list \<Rightarrow> nat" where
  "join_walk_count topology stack = sum_list (map (\<lambda>f. card (join_walks topology (fst f))) stack)"

definition joins_through :: "fanoutTopology \<Rightarrow> NodeID \<Rightarrow> Edge list \<Rightarrow> NodeID \<Rightarrow> bool" where
  "joins_through topology joinID new n \<longleftrightarrow>
     finite (join_walks topology n) \<and>
     (\<forall>es \<in> join_walks topology n. es \<noteq> [] \<and> e_TargetNodeID (last es) = joinID \<and> last es \<in> set new)"

lemma joins_through_mono: "joins_through topology joinID new n \<Longrightarrow> set new \<subseteq> set new' \<Longrightarrow> joins_through topology joinID new' n"
  by (auto simp: joins_through_def)

lemma join_walks_split:
  "sum_list (map (\<lambda>e. card (join_walks topology (e_TargetNodeID e))) edges) =
   length (joining topology edges) +
   sum_list (map (\<lambda>e. card (join_walks topology (e_TargetNodeID e))) (staying topology edges))"
  by (induction edges) (auto simp: joining_def staying_def join_walks_join)

lemma join_walks_stay_or_join:
  assumes "join_edges_ok topology joinID (branch_out topology n)" and "\<not> is_join topology n"
    and stay: "\<forall>e \<in> set (staying topology (branch_out topology n)). joins_through topology joinID new (e_TargetNodeID e)"
  shows "joins_through topology joinID (joining topology (branch_out topology n) @ new) n"
    and "card (join_walks topology n) \<le> length (joining topology (branch_out topology n)) +
      sum_list (map (\<lambda>e. card (join_walks topology (e_TargetNodeID e))) (staying topology (branch_out topology n)))"
proof -
  let ?out = "branch_out topology n"
  have fin: "finite (join_walks topology (e_TargetNodeID e))" if "e \<in> set ?out" for e
    using that stay by (cases "is_join topology (e_TargetNodeID e)")
      (auto simp: join_walks_join joins_through_def staying_def)
  have "es \<noteq> [] \<and> e_TargetNodeID (last es) = joinID \<and> last es \<in> set (joining topology ?out @ new)"
    if es: "es \<in> join_walks topology n" for es
  proof -
    from es obtain e es' where e: "e \<in> set ?out" "es = e # es'" "es' \<in> join_walks topology (e_TargetNodeID e)"
      unfolding join_walks_other [OF assms(2)] by auto
    show ?thesis
    proof (cases "is_join topology (e_TargetNodeID e)")
      case True
      with e assms(1) show ?thesis by (auto simp: join_walks_join join_edges_ok_def joining_def)
    next
      case False
      with e stay show ?thesis by (auto simp: staying_def joins_through_def)
    qed
  qed
  with fin show "joins_through topology joinID (joining topology ?out @ new) n"
    unfolding joins_through_def join_walks_other [OF assms(2)] by auto
  have "card (join_walks topology n) \<le> sum_list (map (\<lambda>e. card ((#) e ` join_walks topology (e_TargetNodeID e))) ?out)"
    unfolding join_walks_other [OF assms(2)] by (rule card_UN_list) (simp add: fin)
  also have "\<dots> = sum_list (map (\<lambda>e. card (join_walks topology (e_TargetNodeID e))) ?out)"
    by (simp add: card_image)
  also have "\<dots> = length (joining topology ?out) +
      sum_list (map (\<lambda>e. card (join_walks topology (e_TargetNodeID e))) (staying topology ?out))"
    by (rule join_walks_split)
  finally show "card (join_walks topology n) \<le> length (joining topology ?out) +
      sum_list (map (\<lambda>e. card (join_walks topology (e_TargetNodeID e))) (staying topology ?out))" .
qed

lemma join_walks_joining:
  assumes "e \<in> set (joining topology (branch_out topology n))"
  shows "\<exists>es \<in> join_walks topology n. last es = e"
proof -
  from assms have "walk (branch_out topology) n [e] (e_TargetNodeID e)" "is_join topology (e_TargetNodeID e)"
    by (auto simp: joining_def)
  then have "[e] \<in> join_walks topology n" unfolding join_walks_def by blast
  then show ?thesis by (metis last.simps)
qed

lemma join_walks_staying:
  assumes "e \<in> set (staying topology (branch_out topology n))" and "es \<in> join_walks topology (e_TargetNodeID e)"
  shows "\<exists>es' \<in> join_walks topology n. last es' = last es"
proof -
  from assms have e: "e \<in> set (branch_out topology n)" "\<not> is_join topology (e_TargetNodeID e)"
    by (auto simp: staying_def)
  with assms(2) have "es \<noteq> []" by (auto simp: join_walks_def)
  moreover from e assms(2) have "e # es \<in> join_walks topology n" by (auto simp: join_walks_def)
  ultimately show ?thesis by (metis last_ConsR)
qed

lemma join_edge_loop_spec:
  assumes "join_edge_loop topology joinID stack candidates = Some candidates'"
  shows "\<exists>new. candidates' = candidates @ new \<and>
    (\<forall>f \<in> set stack. joins_through topology joinID new (fst f)) \<and>
    join_walk_count topology stack \<le> length new \<and>
    (\<forall>e \<in> set new. \<exists>f \<in> set stack. \<exists>es \<in> join_walks topology (fst f). last es = e)"
  using assms
proof (induction topology joinID stack candidates rule: join_edge_loop.induct)
  case (1 topology joinID candidates)
  then show ?case by (simp add: join_edge_loop.simps join_walk_count_def)
next
  case (2 topology joinID n path stack candidates)
  let ?out = "branch_out topology n"
  let ?push = "map (\<lambda>e. (e_TargetNodeID e, n # path)) (staying topology ?out)"
  from "2.prems" have n: "n \<notin> set path" "branch_inner topology n" "join_edges_ok topology joinID ?out"
    and loop: "join_edge_loop topology joinID (rev ?push @ stack) (candidates @ joining topology ?out) = Some candidates'"
    by (auto simp: join_edge_loop_Cons split: if_splits)
  from n obtain node where node: "map_of (nodesByID topology) n = Some node"
    "\<not> (Kind node = NodeKindTerminal \<or> Kind node = NodeKindJoin)" "\<not> has_fanout_group topology n"
    by (auto simp: branch_inner_def split: option.splits)
  have out: "?out = mget_list (outgoingByNode topology) n" using n by (simp add: branch_out_def)
  have nj: "\<not> is_join topology n" using n join_not_inner by blast
  have "\<exists>new. candidates' = (candidates @ joining topology ?out) @ new \<and>
    (\<forall>f \<in> set (rev ?push @ stack). joins_through topology joinID new (fst f)) \<and>
    join_walk_count topology (rev ?push @ stack) \<le> length new \<and>
    (\<forall>e \<in> set new. \<exists>f \<in> set (rev ?push @ stack). \<exists>es \<in> join_walks topology (fst f). last es = e)"
    by (rule "2.IH" [OF n(1) node(1,2,3) _ refl loop])
      (simp add: join_edge_scan_eq n(3) flip: out)
  then obtain new where new: "candidates' = candidates @ joining topology ?out @ new"
    "\<forall>f \<in> set (rev ?push @ stack). joins_through topology joinID new (fst f)"
    "join_walk_count topology (rev ?push @ stack) \<le> length new"
    "\<forall>e \<in> set new. \<exists>f \<in> set (rev ?push @ stack). \<exists>es \<in> join_walks topology (fst f). last es = e"
    by auto
  have stay: "\<forall>e \<in> set (staying topology ?out). joins_through topology joinID new (e_TargetNodeID e)"
    using new(2) by (auto simp: ball_Un)
  note sj = join_walks_stay_or_join [OF n(3) nj stay]
  have "\<forall>f \<in> set ((n, path) # stack). joins_through topology joinID (joining topology ?out @ new) (fst f)"
    using sj(1) new(2) by (auto intro: joins_through_mono)
  moreover have "join_walk_count topology ((n, path) # stack) \<le> length (joining topology ?out @ new)"
    using sj(2) new(3) by (simp add: join_walk_count_def comp_def rev_map [symmetric] sum_list_rev)
  moreover have "\<exists>f \<in> set ((n, path) # stack). \<exists>es \<in> join_walks topology (fst f). last es = e"
    if e: "e \<in> set (joining topology ?out @ new)" for e
    using e new(4) join_walks_joining [of e topology n] join_walks_staying [of _ topology n] by fastforce
  ultimately show ?case using new(1) by auto
qed

text \<open>The branch from \<open>start\<close> has exactly one branch walk into a join; it ends in \<open>joinID\<close>
  through \<open>edge\<close>.\<close>

definition joins_only_at :: "fanoutTopology \<Rightarrow> NodeID \<Rightarrow> NodeID \<Rightarrow> Edge \<Rightarrow> bool" where
  "joins_only_at topology start joinID edge \<longleftrightarrow>
     (\<exists>es. {es'. \<exists>k. walk (branch_out topology) start es' k \<and> is_join topology k} = {es} \<and>
       es \<noteq> [] \<and> last es = edge \<and> walk (branch_out topology) start es joinID)"

lemma fanoutBranchJoinEdge_one:
  assumes "fanoutBranchJoinEdge topology start joinID = Some edge"
  shows "joins_only_at topology start joinID edge"
proof -
  from assms have loop: "join_edge_loop topology joinID [(start, [])] [] = Some [edge]"
    by (auto simp: fanoutBranchJoinEdge_def split: option.splits list.splits)
  from join_edge_loop_spec [OF loop]
  have through: "joins_through topology joinID [edge] start"
    and one: "card (join_walks topology start) \<le> 1"
    and some: "\<exists>es \<in> join_walks topology start. last es = edge"
    by (auto simp: join_walk_count_def)
  from some obtain es where es: "es \<in> join_walks topology start" "last es = edge" by blast
  have "finite (join_walks topology start)" using through by (simp add: joins_through_def)
  with one have "x = y" if "x \<in> join_walks topology start" "y \<in> join_walks topology start" for x y
    using that card_le_Suc0_iff_eq by fastforce
  with es have only: "join_walks topology start = {es}" by blast
  from es obtain k where k: "walk (branch_out topology) start es k" by (auto simp: join_walks_def)
  have ne: "es \<noteq> []" and tgt: "e_TargetNodeID (last es) = joinID"
    using through es by (auto simp: joins_through_def)
  have "k = e_TargetNodeID (last es)" using k ne by (auto simp: walk_target)
  with k only ne tgt es show ?thesis by (auto simp: join_walks_def joins_only_at_def)
qed

lemma find_fanout_mem:
  assumes "find_fanout edgesOf expected groups found = Some initial"
  shows "found = Some initial \<or>
    (\<exists>g \<in> set groups. length (mget_list edgesOf (tg_ID g)) = length expected \<and>
       initial = fanout_candidate expected (mget_list edgesOf (tg_ID g)) \<and>
       length initial = length expected)"
  using assms
  by (induction edgesOf expected groups found rule: find_fanout.induct)
    (auto simp: Let_def split: if_splits)

lemma collect_join_edges_map:
  assumes "collect_join_edges topology initial joinID keys acc = Some edges"
  shows "map_of edges k =
    (if k \<in> set keys then fanoutBranchJoinEdge topology (branch_start initial k) joinID else map_of acc k)"
    and "k \<in> set keys \<Longrightarrow> fanoutBranchJoinEdge topology (branch_start initial k) joinID \<noteq> None"
  using assms
  by (induction topology initial joinID keys acc rule: collect_join_edges.induct)
    (auto split: option.splits if_splits)

lemma collect_distances_all:
  "collect_distances topology starts = Some ds \<Longrightarrow>
   ds = map (\<lambda>s. the (fanoutBranchJoinDistances topology s)) starts \<and>
   (\<forall>s \<in> set starts. fanoutBranchJoinDistances topology s \<noteq> None)"
  by (induction topology starts arbitrary: ds rule: collect_distances.induct)
    (auto split: option.splits if_splits)

lemma expected_keys_Some:
  "expected_keys keys expected = Some result \<Longrightarrow> distinct expected \<Longrightarrow>
   result = expected @ map TrimSpace keys \<and> distinct result \<and> list_all (\<lambda>k. \<not> blank k) keys"
  by (induction keys expected rule: expected_keys.induct)
    (simp, fastforce simp: Let_def split: if_splits)

definition fanout_candidate_ok :: "ModelKey list \<Rightarrow> Edge list \<Rightarrow> (TransitionBranchKey, Edge) gomap \<Rightarrow> bool" where
  "fanout_candidate_ok expected edges m \<longleftrightarrow>
     distinct (mkeys m) \<and> set (mkeys m) \<subseteq> set expected \<and>
     (\<forall>k e. map_of m k = Some e \<longrightarrow> e \<in> set edges \<and> TrimSpace (e_Key e) = k)"

lemma fanout_candidate_invariant: "fanout_candidate_ok expected edges (fanout_candidate expected edges)"
proof -
  have step: "fanout_candidate_ok expected (done' @ edges) (fold (\<lambda>edge candidate.
        let key = TrimSpace (e_Key edge) in
        if key \<notin> set expected then candidate
        else if mhas candidate key then candidate
        else AList.update key edge candidate) edges m)" if "fanout_candidate_ok expected done' m" for done' m
    using that
  proof (induction edges arbitrary: done' m)
    case (Cons e edges)
    let ?m = "let key = TrimSpace (e_Key e) in
        if key \<notin> set expected then m
        else if mhas m key then m
        else AList.update key e m"
    have "fanout_candidate_ok expected (done' @ [e]) ?m"
      using Cons.prems
      by (auto simp: fanout_candidate_ok_def Let_def distinct_update dom_update
          simp del: map_of_eq_Some_iff split: if_splits)
    from Cons.IH [OF this] show ?case by simp
  qed simp
  have "fanout_candidate_ok expected [] []" by (simp add: fanout_candidate_ok_def)
  from step [OF this] show ?thesis by (simp only: fanout_candidate_def append_Nil)
qed

lemma fanout_candidate_complete:
  assumes "length (fanout_candidate expected edges) = length expected" and "distinct expected" and "k \<in> set expected"
  shows "\<exists>e \<in> set edges. map_of (fanout_candidate expected edges) k = Some e \<and> TrimSpace (e_Key e) = k"
proof -
  let ?m = "fanout_candidate expected edges"
  have ok: "fanout_candidate_ok expected edges ?m" by (rule fanout_candidate_invariant)
  then have "card (set (mkeys ?m)) = card (set expected)"
    using assms distinct_card [of "mkeys ?m"] distinct_card [of expected] by (simp add: fanout_candidate_ok_def)
  with ok have "set (mkeys ?m) = set expected" by (simp add: fanout_candidate_ok_def card_subset_eq)
  with assms(3) obtain e where e: "map_of ?m k = Some e" by (metis mhas_iff not_None_eq)
  with ok have "e \<in> set edges" "TrimSpace (e_Key e) = k" unfolding fanout_candidate_ok_def by blast+
  with e show ?thesis by blast
qed

lemma edgesByGroup_newFanoutTopology:
  "mget_list (edgesByGroup (newFanoutTopology def)) g = filter (\<lambda>e. e_TransitionGroupID e = g) (d_Edges def)"
  using gomm.lookup_index [of e_TransitionGroupID "\<lambda>e. e" "d_Edges def" g]
  by (simp add: newFanoutTopology_def)

text \<open>
  C36: When \<open>ResolveFanoutJoin\<close> resolves trimmed branch keys, they are at least two distinct
  keys, they name the edges of one transition group that has no other edge, and every branch
  has exactly one branch walk into a join: it ends in the one returned join node, through the
  edge recorded for the branch.
\<close>

theorem ResolveFanoutJoin_sound:
  assumes resolved: "ResolveFanoutJoin def keys = Some res"
    and trimmed: "\<forall>k \<in> set keys. TrimSpace k = k"
  shows "2 \<le> length keys \<and> distinct keys \<and>
    (\<exists>joinID. \<exists>g \<in> set (d_TransitionGroups def).
       map_of (nodesByID (newFanoutTopology def)) joinID = Some (fjr_Join res) \<and>
       Kind (fjr_Join res) = NodeKindJoin \<and>
       length (filter (\<lambda>e. e_TransitionGroupID e = tg_ID g) (d_Edges def)) = length keys \<and>
       (\<forall>k \<in> set keys. \<exists>first edge. first \<in> set (d_Edges def) \<and> e_TransitionGroupID first = tg_ID g \<and>
          TrimSpace (e_Key first) = k \<and> map_of (fjr_BranchJoinEdges res) k = Some edge \<and>
          joins_only_at (newFanoutTopology def) (e_TargetNodeID first) joinID edge))"
proof -
  let ?t = "newFanoutTopology def"
  from resolved obtain expected initial ds joinID where
    ex: "expected_keys keys [] = Some expected" and len: "2 \<le> length expected"
    and find: "find_fanout (edgesByGroup ?t) expected (d_TransitionGroups def) None = Some initial"
    and join: "map_of (nodesByID ?t) joinID = Some (fjr_Join res)" "Kind (fjr_Join res) = NodeKindJoin"
    and edges: "collect_join_edges ?t initial joinID keys [] = Some (fjr_BranchJoinEdges res)"
    by (auto simp: ResolveFanoutJoin_def Let_def split: option.splits if_splits)
  have keys: "expected = keys" "distinct keys"
    using expected_keys_Some [OF ex] trimmed by (simp add: map_idI, metis map_idI append_Nil distinct.simps(1))
  from find_fanout_mem [OF find] obtain g where
    g: "g \<in> set (d_TransitionGroups def)" "length (mget_list (edgesByGroup ?t) (tg_ID g)) = length expected"
      "initial = fanout_candidate expected (mget_list (edgesByGroup ?t) (tg_ID g))" "length initial = length expected"
    by auto
  have "\<exists>first edge. first \<in> set (d_Edges def) \<and> e_TransitionGroupID first = tg_ID g \<and>
          TrimSpace (e_Key first) = k \<and> map_of (fjr_BranchJoinEdges res) k = Some edge \<and>
          joins_only_at ?t (e_TargetNodeID first) joinID edge" if k: "k \<in> set keys" for k
  proof -
    from fanout_candidate_complete [of expected _ k] g keys k obtain first where
      first: "first \<in> set (mget_list (edgesByGroup ?t) (tg_ID g))" "map_of initial k = Some first"
        "TrimSpace (e_Key first) = k" by metis
    from collect_join_edges_map [OF edges, of k] k first(2) obtain edge where
      edge: "fanoutBranchJoinEdge ?t (e_TargetNodeID first) joinID = Some edge"
        "map_of (fjr_BranchJoinEdges res) k = Some edge" by (auto simp: branch_start_def)
    from fanoutBranchJoinEdge_one [OF edge(1)] first edge(2) show ?thesis
      by (auto simp: edgesByGroup_newFanoutTopology)
  qed
  moreover have "length (filter (\<lambda>e. e_TransitionGroupID e = tg_ID g) (d_Edges def)) = length keys"
    using g(2) keys(1) by (simp add: edgesByGroup_newFanoutTopology)
  moreover have "2 \<le> length keys" using len keys by simp
  ultimately show ?thesis using join g(1) keys(2) by blast
qed

end
