(* ===== verification/Wf_Agents.thy ===== *)
theory Wf_Agents
  imports Wf_Types "HOL-Library.Char_ord" "HOL-Library.List_Lexorder"
begin

text \<open>
  Target-agent selection at a transition boundary: \<open>target_agent_selection.go\<close>,
  \<open>target_agent_thinking.go\<close>, \<open>target_agent_execution.go\<close>, \<open>selector_applicability.go\<close>,
  \<open>protected_parameter_policy.go\<close>, \<open>session_policy.go\<close>, \<open>transition_parameter_contract.go\<close>
  and \<open>current_execution_selection.go\<close> of \<open>server/workflow\<close>, with the role names of
  \<open>shared/config/subagents.go\<close>.

  The role catalog is the Go interface \<open>RoleResolver\<close>, implemented outside the package: it
  is a record of its two methods, and a nil catalog is \<open>None\<close>. Errors are values of
  \<open>AgentError\<close>; a function that returns a value beside an error returns a sum, except
  \<open>PlanTransitionSelection\<close>, whose callers read the plan also when there is an error.
  Byte-wise string order is the lexicographic order of the library.
\<close>

section \<open>Role names\<close>

abbreviation DefaultAgentRole :: string where
  "DefaultAgentRole \<equiv> ''default''"

definition IsReservedSubagentRoleName :: "string \<Rightarrow> bool" where
  "IsReservedSubagentRoleName raw \<longleftrightarrow> ToLower (TrimSpace raw) \<in> set [''none'', ''self'']"

definition role_char :: "char \<Rightarrow> bool" where
  "role_char c \<longleftrightarrow> lower_letter c \<or> ascii_digit c \<or> c = CHR ''-'' \<or> c = CHR ''_''"

definition IsSubagentRoleNameShape :: "string \<Rightarrow> bool" where
  "IsSubagentRoleNameShape raw =
     (let normalized = ToLower (TrimSpace raw) in normalized \<noteq> '''' \<and> list_all role_char normalized)"

definition NormalizeSubagentRole :: "string \<Rightarrow> string" where
  "NormalizeSubagentRole raw =
     (let normalized = ToLower (TrimSpace raw) in
      if normalized = '''' then ''''
      else if normalized \<in> set [''none'', ''self''] then ''''
      else if list_all role_char normalized then normalized else '''')"

definition NormalizeSubagentSelector :: "string \<Rightarrow> string" where
  "NormalizeSubagentSelector raw =
     (let normalized = ToLower (TrimSpace raw) in
      if normalized \<in> set [''none'', ''self''] then '''' else NormalizeSubagentRole raw)"

definition IsDefaultAgentRole :: "string \<Rightarrow> bool" where
  "IsDefaultAgentRole role = EqualFoldAscii (TrimSpace role) DefaultAgentRole"

definition canonicalAgentRoleIdentity :: "string \<Rightarrow> string option" where
  "canonicalAgentRoleIdentity raw =
     (if EqualFoldAscii (TrimSpace raw) DefaultAgentRole then Some DefaultAgentRole
      else let normalized = NormalizeSubagentSelector raw in
        if normalized = '''' then None else Some normalized)"


section \<open>Roles and the catalog\<close>

record ThinkingCapability =
  tc_ReasoningCapable :: bool
  tc_Finite :: bool
  tc_Levels :: "string list"

record TargetAgentRole =
  tr_Identity :: string
  tr_QuestionsEnabled :: bool
  tr_ExplicitAgentCallable :: bool
  tr_Model :: string
  tr_ConfiguredThinking :: string
  tr_Thinking :: ThinkingCapability

record RoleResolver =
  ResolveConfiguredRole :: "string \<Rightarrow> TargetAgentRole option"
  ExplicitCallableRoles :: "TargetAgentRole list"

type_synonym TargetAgentCatalog = "RoleResolver option"

datatype TargetAgentSelectionErrorCode =
    TargetAgentSelectionErrorUnavailableRole
  | TargetAgentSelectionErrorNoSelectableRoles
  | TargetAgentSelectionErrorQuestionsDisabled
  | TargetAgentSelectionErrorThinkingRequired
  | TargetAgentSelectionErrorThinkingDescriptionRequired
  | TargetAgentSelectionErrorUnsupportedThinking

datatype AgentError =
    TargetAgentSelectionError TargetAgentSelectionErrorCode string
  | ThinkingValueRequired
  | AssigneeRequired
  | AssigneeOriginInvalid
  | InvalidParameterPurpose string string
  | UnsupportedContextSource string
  | UnsupportedContextMode ContextMode
  | TransitionGroupAbsent TransitionGroupID
  | TransitionSourceAbsent NodeID
  | TransitionTargetAbsent NodeID

definition canonicalTargetAgentRole :: "TargetAgentRole \<Rightarrow> TargetAgentRole" where
  "canonicalTargetAgentRole role =
     (case canonicalAgentRoleIdentity (tr_Identity role) of
        Some identity \<Rightarrow> role\<lparr>tr_Identity := identity\<rparr>
      | None \<Rightarrow> role\<lparr>tr_Identity := ''''\<rparr>)"

definition callable_index :: "TargetAgentRole list \<Rightarrow> (string, TargetAgentRole) gomap" where
  "callable_index roles =
     fold (\<lambda>role byIdentity.
        if \<not> tr_ExplicitAgentCallable role then byIdentity
        else let canonical = canonicalTargetAgentRole role in
          if tr_Identity canonical = '''' then byIdentity
          else AList.update (tr_Identity canonical) canonical byIdentity) roles []"

definition canonicalExplicitCallableRoles :: "TargetAgentRole list \<Rightarrow> TargetAgentRole list" where
  "canonicalExplicitCallableRoles roles = sort_key tr_Identity (map snd (callable_index roles))"


section \<open>Choosing the role\<close>

record TargetAgentSelectionRequest =
  tsr_FallbackRole :: string
  tsr_OverrideEnabled :: bool
  tsr_SubmittedRole :: string

record TargetAgentSelection =
  tas_Role :: TargetAgentRole
  tas_QuestionsRequired :: bool
  tas_SubmittedRoleIgnored :: bool

definition PlanTargetAgentSelection ::
  "TargetAgentCatalog \<Rightarrow> TargetAgentSelectionRequest \<Rightarrow> AgentError + TargetAgentSelection" where
  "PlanTargetAgentSelection catalog request =
     (case catalog of
        None \<Rightarrow> Inl (TargetAgentSelectionError TargetAgentSelectionErrorUnavailableRole
                       (TrimSpace (tsr_SubmittedRole request)))
      | Some resolver \<Rightarrow>
         if \<not> tsr_OverrideEnabled request then
           let roleName = TrimSpace (tsr_FallbackRole request) in
           case ResolveConfiguredRole resolver roleName of
             None \<Rightarrow> Inl (TargetAgentSelectionError TargetAgentSelectionErrorUnavailableRole roleName)
           | Some resolved \<Rightarrow>
              let role = canonicalTargetAgentRole resolved in
              if \<not> tr_QuestionsEnabled role
              then Inl (TargetAgentSelectionError TargetAgentSelectionErrorQuestionsDisabled (tr_Identity role))
              else Inr \<lparr>tas_Role = role, tas_QuestionsRequired = False, tas_SubmittedRoleIgnored = False\<rparr>
         else case canonicalExplicitCallableRoles (ExplicitCallableRoles resolver) of
             [] \<Rightarrow> Inl (TargetAgentSelectionError TargetAgentSelectionErrorNoSelectableRoles '''')
           | [role] \<Rightarrow> Inr \<lparr>tas_Role = role, tas_QuestionsRequired = True, tas_SubmittedRoleIgnored = True\<rparr>
           | roles \<Rightarrow>
              let submitted = TrimSpace (tsr_SubmittedRole request) in
              case canonicalAgentRoleIdentity submitted of
                None \<Rightarrow> Inl (TargetAgentSelectionError TargetAgentSelectionErrorUnavailableRole submitted)
              | Some identity \<Rightarrow>
                 (case List.find (\<lambda>role. tr_Identity role = identity) roles of
                    None \<Rightarrow> Inl (TargetAgentSelectionError TargetAgentSelectionErrorUnavailableRole submitted)
                  | Some role \<Rightarrow>
                     Inr \<lparr>tas_Role = role, tas_QuestionsRequired = True, tas_SubmittedRoleIgnored = False\<rparr>))"

definition join_strings :: "string \<Rightarrow> string list \<Rightarrow> string" where
  "join_strings sep parts = (case parts of [] \<Rightarrow> '''' | p # ps \<Rightarrow> p @ concat (map ((@) sep) ps))"

definition DefaultTargetAgentRoleDescription :: "TargetAgentRole list \<Rightarrow> string" where
  "DefaultTargetAgentRoleDescription roles =
     ''Override the subagent role for the next node, available roles: '' @
     join_strings '', '' (map tr_Identity (canonicalExplicitCallableRoles roles))"


section \<open>Choosing the thinking level\<close>

definition dedupe_levels :: "string list \<Rightarrow> string list" where
  "dedupe_levels levels =
     fold (\<lambda>raw out. let level = TrimSpace raw in
                      if level = '''' \<or> level \<in> set out then out else out @ [level]) levels []"

definition canonicalThinkingLevels :: "string list \<Rightarrow> string list" where
  "canonicalThinkingLevels levels = sort (dedupe_levels levels)"

definition ThinkingCapability_Canonical :: "ThinkingCapability \<Rightarrow> ThinkingCapability" where
  "ThinkingCapability_Canonical c = c\<lparr>tc_Levels := canonicalThinkingLevels (tc_Levels c)\<rparr>"

definition containsThinkingLevel :: "string list \<Rightarrow> string \<Rightarrow> bool" where
  "containsThinkingLevel levels value = list_ex (\<lambda>level. level = value) levels"

definition union_step :: "TargetAgentRole \<Rightarrow> ThinkingCapability \<Rightarrow> ThinkingCapability" where
  "union_step role acc =
     (let capability = ThinkingCapability_Canonical (tr_Thinking role);
          acc' = acc\<lparr>tc_ReasoningCapable := tc_ReasoningCapable acc \<or> tc_ReasoningCapable capability\<rparr>
      in if \<not> tc_Finite capability then acc'\<lparr>tc_Finite := False\<rparr>
         else let acc'' = (if \<not> tc_Finite acc' \<and> tc_Levels acc' = [] then acc'\<lparr>tc_Finite := True\<rparr> else acc')
           in acc''\<lparr>tc_Levels := tc_Levels acc'' @ tc_Levels capability\<rparr>)"

definition UnionTargetAgentThinkingCapabilities :: "TargetAgentRole list \<Rightarrow> ThinkingCapability" where
  "UnionTargetAgentThinkingCapabilities roles =
     (let acc = fold union_step roles \<lparr>tc_ReasoningCapable = False, tc_Finite = False, tc_Levels = []\<rparr>;
          acc' = (if roles = [] then acc
                    else if list_ex (\<lambda>role. \<not> tc_Finite (tr_Thinking role)) roles
                    then acc\<lparr>tc_Finite := False, tc_Levels := []\<rparr>
                    else acc\<lparr>tc_Finite := True\<rparr>)
      in acc'\<lparr>tc_Levels := canonicalThinkingLevels (tc_Levels acc')\<rparr>)"

definition DefaultTargetAgentThinkingDescription :: "ThinkingCapability \<Rightarrow> string" where
  "DefaultTargetAgentThinkingDescription capability =
     (let c = ThinkingCapability_Canonical capability in
      if \<not> tc_Finite c \<or> tc_Levels c = [] then ''''
      else ''Override the thinking level for the next node, available levels: '' @
           join_strings '', '' (tc_Levels c))"

record TargetAgentThinkingSelectionRequest =
  ttr_OverrideEnabled :: bool
  ttr_TargetRole :: TargetAgentRole
  ttr_EligibleRoles :: "TargetAgentRole list"
  ttr_SubmittedValue :: string
  ttr_AuthoredDescription :: string

record TargetAgentThinkingSelection =
  tts_Value :: string
  tts_Exposed :: bool
  tts_SubmittedValueIgnored :: bool

definition PlanTargetAgentThinkingSelection ::
  "TargetAgentThinkingSelectionRequest \<Rightarrow> AgentError + TargetAgentThinkingSelection" where
  "PlanTargetAgentThinkingSelection request =
     (let configured = TrimSpace (tr_ConfiguredThinking (ttr_TargetRole request));
          value = TrimSpace (ttr_SubmittedValue request) in
      if \<not> ttr_OverrideEnabled request
      then Inr \<lparr>tts_Value = configured, tts_Exposed = False, tts_SubmittedValueIgnored = False\<rparr>
      else
        let roles = (if ttr_EligibleRoles request = [] then [ttr_TargetRole request] else ttr_EligibleRoles request);
            capability = UnionTargetAgentThinkingCapabilities roles in
        if \<not> tc_ReasoningCapable capability
        then Inr \<lparr>tts_Value = configured, tts_Exposed = False, tts_SubmittedValueIgnored = False\<rparr>
        else let targetCapability = ThinkingCapability_Canonical (tr_Thinking (ttr_TargetRole request)) in
          if \<not> tc_Finite capability then
            (if value = '''' then Inl (TargetAgentSelectionError TargetAgentSelectionErrorThinkingRequired '''')
             else if blank (ttr_AuthoredDescription request)
             then Inl (TargetAgentSelectionError TargetAgentSelectionErrorThinkingDescriptionRequired '''')
             else if tc_Finite targetCapability \<and> \<not> containsThinkingLevel (tc_Levels targetCapability) value
             then Inl (TargetAgentSelectionError TargetAgentSelectionErrorUnsupportedThinking value)
             else Inr \<lparr>tts_Value = value, tts_Exposed = True, tts_SubmittedValueIgnored = False\<rparr>)
          else case tc_Levels capability of
              [] \<Rightarrow> Inr \<lparr>tts_Value = configured, tts_Exposed = False, tts_SubmittedValueIgnored = (value \<noteq> '''')\<rparr>
            | [level] \<Rightarrow>
               if tc_Finite targetCapability \<and> \<not> containsThinkingLevel (tc_Levels targetCapability) level
               then Inr \<lparr>tts_Value = configured, tts_Exposed = False, tts_SubmittedValueIgnored = (value \<noteq> '''')\<rparr>
               else Inr \<lparr>tts_Value = level, tts_Exposed = False, tts_SubmittedValueIgnored = (value \<noteq> '''')\<rparr>
            | _ \<Rightarrow>
               if value = '''' then Inl (TargetAgentSelectionError TargetAgentSelectionErrorThinkingRequired '''')
               else if \<not> containsThinkingLevel (tc_Levels capability) value
               then Inl (TargetAgentSelectionError TargetAgentSelectionErrorUnsupportedThinking value)
               else if tc_Finite targetCapability \<and> \<not> containsThinkingLevel (tc_Levels targetCapability) value
               then Inl (TargetAgentSelectionError TargetAgentSelectionErrorUnsupportedThinking value)
               else Inr \<lparr>tts_Value = value, tts_Exposed = True, tts_SubmittedValueIgnored = False\<rparr>)"

section \<open>The execution selection of an agent\<close>

type_synonym ThinkingValue = string
type_synonym AssigneeOrigin = string

abbreviation AssigneeOriginConfiguredFallback :: AssigneeOrigin where
  "AssigneeOriginConfiguredFallback \<equiv> ''configured_fallback''"
abbreviation AssigneeOriginTransitionSelected :: AssigneeOrigin where
  "AssigneeOriginTransitionSelected \<equiv> ''transition_selected''"
abbreviation AssigneeOriginRetainedSession :: AssigneeOrigin where
  "AssigneeOriginRetainedSession \<equiv> ''retained_session''"

record AgentExecutionSelection =
  aes_Assignee :: string
  aes_Thinking :: "ThinkingValue option"
  aes_Origin :: AssigneeOrigin

definition NewThinkingValue :: "string \<Rightarrow> AgentError + ThinkingValue" where
  "NewThinkingValue raw =
     (let value = TrimSpace raw in if value = '''' then Inl ThinkingValueRequired else Inr value)"

definition NewAgentExecutionSelection ::
  "string \<Rightarrow> ThinkingValue option \<Rightarrow> AssigneeOrigin \<Rightarrow> AgentError + AgentExecutionSelection" where
  "NewAgentExecutionSelection assignee thinking origin =
     (let selection = \<lparr>aes_Assignee = TrimSpace assignee, aes_Thinking = None, aes_Origin = TrimSpace origin\<rparr> in
      if aes_Assignee selection = '''' then Inl AssigneeRequired
      else if aes_Origin selection \<notin> set [AssigneeOriginConfiguredFallback,
                AssigneeOriginTransitionSelected, AssigneeOriginRetainedSession]
      then Inl AssigneeOriginInvalid
      else case thinking of
             None \<Rightarrow> Inr selection
           | Some raw \<Rightarrow>
              (case NewThinkingValue raw of
                 Inl err \<Rightarrow> Inl err
               | Inr value \<Rightarrow> Inr (selection\<lparr>aes_Thinking := Some value\<rparr>)))"

text \<open>\<open>Validate\<close>: \<open>None\<close> is a nil error. \<open>Clone\<close> copies the value behind the pointer and is
  the identity on values.\<close>

definition AgentExecutionSelection_Validate :: "AgentExecutionSelection \<Rightarrow> AgentError option" where
  "AgentExecutionSelection_Validate selection =
     (case NewAgentExecutionSelection (aes_Assignee selection) (aes_Thinking selection) (aes_Origin selection) of
        Inl err \<Rightarrow> Some err
      | Inr _ \<Rightarrow> None)"

definition materializeThinkingValue :: "string \<Rightarrow> AgentError + ThinkingValue option" where
  "materializeThinkingValue raw =
     (if blank raw then Inr None
      else case NewThinkingValue raw of Inl err \<Rightarrow> Inl err | Inr value \<Rightarrow> Inr (Some value))"

record TargetAgentExecutionSelectionRequest =
  ter_Edge :: Edge
  ter_FallbackRole :: string
  ter_Catalog :: TargetAgentCatalog
  ter_SubmittedRole :: string
  ter_SubmittedThinking :: string
  ter_ThinkingDescription :: string
  ter_RetainedSession :: "AgentExecutionSelection option"

definition bare_role :: "string \<Rightarrow> TargetAgentRole" where
  "bare_role identity =
     \<lparr>tr_Identity = identity, tr_QuestionsEnabled = False, tr_ExplicitAgentCallable = False, tr_Model = '''',
      tr_ConfiguredThinking = '''',
      tr_Thinking = \<lparr>tc_ReasoningCapable = False, tc_Finite = False, tc_Levels = []\<rparr>\<rparr>"

definition resolve_in :: "TargetAgentCatalog \<Rightarrow> string \<Rightarrow> TargetAgentRole option" where
  "resolve_in catalog role = (case catalog of None \<Rightarrow> None | Some resolver \<Rightarrow> ResolveConfiguredRole resolver role)"

definition explicitCallableRoles :: "TargetAgentCatalog \<Rightarrow> TargetAgentRole list" where
  "explicitCallableRoles catalog = (case catalog of None \<Rightarrow> [] | Some resolver \<Rightarrow> ExplicitCallableRoles resolver)"

definition plan_thinking_value ::
  "TargetAgentThinkingSelectionRequest \<Rightarrow> AgentError + ThinkingValue option" where
  "plan_thinking_value request =
     (case PlanTargetAgentThinkingSelection request of
        Inl err \<Rightarrow> Inl err
      | Inr thinking \<Rightarrow> materializeThinkingValue (tts_Value thinking))"

definition plan_retained_selection ::
  "TargetAgentExecutionSelectionRequest \<Rightarrow> AgentExecutionSelection \<Rightarrow> AgentError + AgentExecutionSelection" where
  "plan_retained_selection request retained =
     (let selection = retained\<lparr>aes_Origin := AssigneeOriginRetainedSession\<rparr>;
          resolvedRole = resolve_in (ter_Catalog request) (aes_Assignee selection);
          role = (case resolvedRole of None \<Rightarrow> bare_role (aes_Assignee selection) | Some resolved \<Rightarrow> resolved);
          override = (CanonicalThinkingSelection (e_ThinkingSelection (ter_Edge request)) = ThinkingSelectionPreviousNode);
          planned = (if override \<or> resolvedRole \<noteq> None then
             (case plan_thinking_value
                \<lparr>ttr_OverrideEnabled = override, ttr_TargetRole = role, ttr_EligibleRoles = [role],
                 ttr_SubmittedValue = ter_SubmittedThinking request,
                 ttr_AuthoredDescription = ter_ThinkingDescription request\<rparr> of
                Inl err \<Rightarrow> Inl err
              | Inr thinking \<Rightarrow> Inr (selection\<lparr>aes_Thinking := thinking\<rparr>))
             else Inr selection)
      in case planned of
           Inl err \<Rightarrow> Inl err
         | Inr result \<Rightarrow>
            (case AgentExecutionSelection_Validate result of
               Some err \<Rightarrow> Inl err
             | None \<Rightarrow> Inr result))"

definition planTargetAgentExecutionSelection ::
  "TargetAgentExecutionSelectionRequest \<Rightarrow> AgentError + AgentExecutionSelection" where
  "planTargetAgentExecutionSelection request =
     (case ter_RetainedSession request of
        Some retained \<Rightarrow> plan_retained_selection request retained
      | None \<Rightarrow>
         let assigneeSelection = CanonicalAssigneeSelection (e_AssigneeSelection (ter_Edge request)) in
         case PlanTargetAgentSelection (ter_Catalog request)
                \<lparr>tsr_FallbackRole = ter_FallbackRole request,
                 tsr_OverrideEnabled = (assigneeSelection = AssigneeSelectionPreviousNode),
                 tsr_SubmittedRole = ter_SubmittedRole request\<rparr> of
           Inl err \<Rightarrow> Inl err
         | Inr roleSelection \<Rightarrow>
            let eligibleRoles = (if assigneeSelection = AssigneeSelectionPreviousNode
                                 then explicitCallableRoles (ter_Catalog request) else [tas_Role roleSelection]) in
            case plan_thinking_value
                   \<lparr>ttr_OverrideEnabled =
                      (CanonicalThinkingSelection (e_ThinkingSelection (ter_Edge request)) = ThinkingSelectionPreviousNode),
                    ttr_TargetRole = tas_Role roleSelection, ttr_EligibleRoles = eligibleRoles,
                    ttr_SubmittedValue = ter_SubmittedThinking request,
                    ttr_AuthoredDescription = ter_ThinkingDescription request\<rparr> of
              Inl err \<Rightarrow> Inl err
            | Inr thinking \<Rightarrow>
               NewAgentExecutionSelection (tr_Identity (tas_Role roleSelection)) thinking
                 (if assigneeSelection = AssigneeSelectionPreviousNode then AssigneeOriginTransitionSelected
                  else AssigneeOriginConfiguredFallback))"

definition PlanTargetAgentExecutionSelection ::
  "TargetAgentExecutionSelectionRequest \<Rightarrow> AgentError + AgentExecutionSelection" where
  "PlanTargetAgentExecutionSelection request = planTargetAgentExecutionSelection request"


section \<open>Session policy\<close>

datatype AssigneeSessionPolicy =
    AssigneeSessionPolicyUnset | AssigneeSessionPolicyEstablishTarget | AssigneeSessionPolicyPreserve

record AssigneeSessionPolicyRequest =
  aspr_ContextMode :: ContextMode
  aspr_ContextSource :: ContextSource
  aspr_TargetSessionResolved :: bool
  aspr_FanoutBranch :: bool

definition CopiesSourceSession :: "AssigneeSessionPolicyRequest \<Rightarrow> bool" where
  "CopiesSourceSession request =
     (let source = CanonicalContextSource (aspr_ContextSource request) in
      aspr_FanoutBranch request \<and> aspr_TargetSessionResolved request \<and>
      aspr_ContextMode request \<noteq> ContextModeNewSession \<and>
      (cs_Kind source = ContextSourceImmediateSource \<or> cs_Kind source = ContextSourceSelectedNode))"

definition ResolveAssigneeSessionPolicy ::
  "AssigneeSessionPolicyRequest \<Rightarrow> AgentError + AssigneeSessionPolicy" where
  "ResolveAssigneeSessionPolicy request =
     (let source = CanonicalContextSource (aspr_ContextSource request) in
      if cs_Kind source \<notin> set [ContextSourceImmediateSource, ContextSourceSelectedNode,
           ContextSourcePreviousTarget, ContextSourcePreviousTargetOrNew]
      then Inl (UnsupportedContextSource (cs_Kind source))
      else case aspr_ContextMode request of
          ContextModeNewSession \<Rightarrow> Inr AssigneeSessionPolicyEstablishTarget
        | ContextModeCompactAndContinueSession \<Rightarrow> Inr AssigneeSessionPolicyEstablishTarget
        | ContextModeContinueSession \<Rightarrow>
           if CopiesSourceSession request then Inr AssigneeSessionPolicyEstablishTarget
           else if cs_Kind source = ContextSourcePreviousTargetOrNew then
             (if aspr_TargetSessionResolved request then Inr AssigneeSessionPolicyPreserve
              else Inr AssigneeSessionPolicyEstablishTarget)
           else Inr AssigneeSessionPolicyPreserve
        | ContextModeOther mode \<Rightarrow> Inl (UnsupportedContextMode (ContextModeOther mode)))"

section \<open>Selector applicability\<close>

datatype SelectorApplicabilityReason =
    SelectorApplicabilityNone
  | SelectorApplicabilityEligible
  | SelectorApplicabilityTopology
  | SelectorApplicabilityContextSource
  | SelectorApplicabilityNoCallableRoles
  | SelectorApplicabilityNoThinkingSupport
  | SelectorApplicabilityUnavailableConfiguration
  | SelectorApplicabilitySoleCallableRole
  | SelectorApplicabilityNoThinkingLevels
  | SelectorApplicabilitySoleThinkingLevel

record SelectorApplicability =
  sa_Available :: bool
  sa_ParameterVisible :: bool
  sa_Reason :: SelectorApplicabilityReason

record EdgeSelectorApplicability =
  esa_Assignee :: SelectorApplicability
  esa_Thinking :: SelectorApplicability

definition only_reason :: "SelectorApplicabilityReason \<Rightarrow> SelectorApplicability" where
  "only_reason reason = \<lparr>sa_Available = False, sa_ParameterVisible = False, sa_Reason = reason\<rparr>"

definition thinkingApplicability :: "Edge \<Rightarrow> TargetAgentCatalog \<Rightarrow> string \<Rightarrow> SelectorApplicability" where
  "thinkingApplicability edge catalog targetRole =
     (let roles =
        (if catalog = None then []
         else if CanonicalAssigneeSelection (e_AssigneeSelection edge) = AssigneeSelectionPreviousNode
         then explicitCallableRoles catalog
         else case resolve_in catalog (TrimSpace targetRole) of None \<Rightarrow> [] | Some role \<Rightarrow> [role]) in
      if roles = [] then only_reason SelectorApplicabilityUnavailableConfiguration
      else let merged = UnionTargetAgentThinkingCapabilities roles in
        if \<not> tc_ReasoningCapable merged then only_reason SelectorApplicabilityNoThinkingSupport
        else if tc_Finite merged \<and> length (tc_Levels merged) = 0
        then (only_reason SelectorApplicabilityNoThinkingLevels)\<lparr>sa_Available := True\<rparr>
        else if tc_Finite merged \<and> length (tc_Levels merged) = 1
        then (only_reason SelectorApplicabilitySoleThinkingLevel)\<lparr>sa_Available := True\<rparr>
        else \<lparr>sa_Available = True, sa_ParameterVisible = True, sa_Reason = SelectorApplicabilityEligible\<rparr>)"

definition serial_agent_topology :: "NodeKind \<Rightarrow> NodeKind \<Rightarrow> bool \<Rightarrow> bool" where
  "serial_agent_topology source target fanOut \<longleftrightarrow>
     \<not> fanOut \<and> (source = NodeKindAgent \<or> source = NodeKindScript) \<and> target = NodeKindAgent"

definition continues_other_session :: "Edge \<Rightarrow> bool" where
  "continues_other_session edge \<longleftrightarrow>
     e_ContextMode edge = ContextModeContinueSession \<and>
     cs_Kind (CanonicalContextSource (e_ContextSource edge)) \<noteq> ContextSourcePreviousTargetOrNew"

definition resolveEdgeSelectorApplicability ::
  "Edge \<Rightarrow> NodeKind \<Rightarrow> NodeKind \<Rightarrow> bool \<Rightarrow> TargetAgentCatalog \<Rightarrow> string \<Rightarrow> EdgeSelectorApplicability" where
  "resolveEdgeSelectorApplicability edge source target fanOut catalog targetRole =
     (if \<not> serial_agent_topology source target fanOut
      then \<lparr>esa_Assignee = only_reason SelectorApplicabilityTopology,
            esa_Thinking = only_reason SelectorApplicabilityTopology\<rparr>
      else if continues_other_session edge
      then \<lparr>esa_Assignee = only_reason SelectorApplicabilityContextSource,
            esa_Thinking = thinkingApplicability edge catalog targetRole\<rparr>
      else
        let roles = explicitCallableRoles catalog;
            assignee =
              (if length roles = 1
               then \<lparr>sa_Available = True, sa_ParameterVisible = False, sa_Reason = SelectorApplicabilitySoleCallableRole\<rparr>
               else if length roles > 1
               then \<lparr>sa_Available = True, sa_ParameterVisible = True, sa_Reason = SelectorApplicabilityEligible\<rparr>
               else only_reason SelectorApplicabilityNoCallableRoles)
        in \<lparr>esa_Assignee = assignee, esa_Thinking = thinkingApplicability edge catalog targetRole\<rparr>)"


section \<open>Protected parameters\<close>

datatype ProtectedParameterConsumptionPolicy =
    ProtectedParameterConsumptionUnset
  | ProtectedParameterConsumptionRequiredValidate
  | ProtectedParameterConsumptionIgnoreAuthorized
  | ProtectedParameterConsumptionRejectUnknown

record ProtectedParameterConsumption =
  ppc_Assignee :: ProtectedParameterConsumptionPolicy
  ppc_Thinking :: ProtectedParameterConsumptionPolicy

record ProtectedParameterConsumptionRequest =
  pcr_Edge :: Edge
  pcr_SourceKind :: NodeKind
  pcr_TargetKind :: NodeKind
  pcr_FanOut :: bool
  pcr_TargetSessionResolved :: bool
  pcr_TargetSessionPolicy :: AssigneeSessionPolicy
  pcr_ExplicitCallableRoles :: nat
  pcr_Thinking :: ThinkingCapability

definition ResolveProtectedParameterConsumption ::
  "ProtectedParameterConsumptionRequest \<Rightarrow> ProtectedParameterConsumption" where
  "ResolveProtectedParameterConsumption request =
     (let edge = pcr_Edge request;
          eligible = serial_agent_topology (pcr_SourceKind request) (pcr_TargetKind request) (pcr_FanOut request);
          assignee =
            (if CanonicalAssigneeSelection (e_AssigneeSelection edge) = AssigneeSelectionPreviousNode \<and>
                eligible \<and> \<not> continues_other_session edge
             then (if pcr_TargetSessionPolicy request = AssigneeSessionPolicyPreserve
                   then ProtectedParameterConsumptionIgnoreAuthorized
                   else if pcr_ExplicitCallableRoles request = 1
                   then ProtectedParameterConsumptionIgnoreAuthorized
                   else if pcr_ExplicitCallableRoles request > 1
                   then ProtectedParameterConsumptionRequiredValidate
                   else ProtectedParameterConsumptionRejectUnknown)
             else ProtectedParameterConsumptionRejectUnknown);
          thinking =
            (if CanonicalThinkingSelection (e_ThinkingSelection edge) = ThinkingSelectionPreviousNode \<and>
                eligible \<and> tc_ReasoningCapable (pcr_Thinking request)
             then (if \<not> tc_Finite (pcr_Thinking request) \<or> length (tc_Levels (pcr_Thinking request)) > 1
                   then ProtectedParameterConsumptionRequiredValidate
                   else ProtectedParameterConsumptionIgnoreAuthorized)
             else ProtectedParameterConsumptionRejectUnknown)
      in \<lparr>ppc_Assignee = assignee, ppc_Thinking = thinking\<rparr>)"


section \<open>The parameter contract of a transition\<close>

record TransitionSelectionMaterializationRequest =
  tmr_FallbackRole :: string
  tmr_SubmittedRole :: string
  tmr_SubmittedThinking :: string
  tmr_ThinkingDescription :: string
  tmr_RetainedSession :: "AgentExecutionSelection option"

record TransitionParameterContractRequest =
  tpr_Edge :: Edge
  tpr_SourceKind :: NodeKind
  tpr_TargetKind :: NodeKind
  tpr_TargetRole :: string
  tpr_RetainedTargetRole :: "TargetAgentRole option"
  tpr_FanOut :: bool
  tpr_TargetSessionResolved :: bool
  tpr_TargetSessionPolicy :: AssigneeSessionPolicy
  tpr_Catalog :: TargetAgentCatalog
  tpr_RequireExecutionDescriptions :: bool
  tpr_Materialization :: "TransitionSelectionMaterializationRequest option"

record TransitionParameterContract =
  tpc_Parameters :: "Parameter list"
  tpc_KnownParameters :: "Parameter list"
  tpc_Consumption :: ProtectedParameterConsumption
  tpc_Thinking :: ThinkingCapability

definition transitionThinkingRoles :: "TransitionParameterContractRequest \<Rightarrow> TargetAgentRole list" where
  "transitionThinkingRoles request =
     (case tpr_RetainedTargetRole request of
        Some role \<Rightarrow> [canonicalTargetAgentRole role]
      | None \<Rightarrow>
         if tpr_Catalog request = None then []
         else if CanonicalAssigneeSelection (e_AssigneeSelection (tpr_Edge request)) = AssigneeSelectionPreviousNode
         then explicitCallableRoles (tpr_Catalog request)
         else case resolve_in (tpr_Catalog request) (tpr_TargetRole request) of None \<Rightarrow> [] | Some role \<Rightarrow> [role])"

definition explicitCallableRoleCount :: "TargetAgentCatalog \<Rightarrow> nat" where
  "explicitCallableRoleCount catalog = length (explicitCallableRoles catalog)"

definition transitionParameterDescription :: "string \<Rightarrow> string \<Rightarrow> string" where
  "transitionParameterDescription authored derived =
     (if \<not> blank authored then TrimSpace authored else TrimSpace derived)"

definition validParameterPurpose :: "ParameterPurpose \<Rightarrow> bool" where
  "validParameterPurpose purpose \<longleftrightarrow>
     purpose \<in> set [ParameterPurposeOrdinary, ParameterPurposeTargetAssignee, ParameterPurposeTargetThinking]"

definition PlanTransitionProtectedParameterConsumption ::
  "TransitionParameterContractRequest \<Rightarrow> ProtectedParameterConsumption" where
  "PlanTransitionProtectedParameterConsumption request =
     ResolveProtectedParameterConsumption
       \<lparr>pcr_Edge = tpr_Edge request, pcr_SourceKind = tpr_SourceKind request,
        pcr_TargetKind = tpr_TargetKind request, pcr_FanOut = tpr_FanOut request,
        pcr_TargetSessionResolved = tpr_TargetSessionResolved request,
        pcr_TargetSessionPolicy = tpr_TargetSessionPolicy request,
        pcr_ExplicitCallableRoles = explicitCallableRoleCount (tpr_Catalog request),
        pcr_Thinking = UnionTargetAgentThinkingCapabilities (transitionThinkingRoles request)\<rparr>"

text \<open>One iteration of the loop over the parameters of the edge.\<close>

definition contract_step ::
  "TransitionParameterContractRequest \<Rightarrow> Parameter \<Rightarrow> TransitionParameterContract
   \<Rightarrow> AgentError + TransitionParameterContract" where
  "contract_step request parameter planned =
     (let purpose = CanonicalParameterPurpose (p_Purpose parameter);
          known = planned\<lparr>tpc_KnownParameters := tpc_KnownParameters planned @ [parameter]\<rparr>;
          exposed = (\<lambda>p. known\<lparr>tpc_Parameters := tpc_Parameters planned @ [p]\<rparr>) in
      if \<not> validParameterPurpose purpose then Inl (InvalidParameterPurpose (p_Key parameter) purpose)
      else if purpose = ParameterPurposeOrdinary then Inr (exposed parameter)
      else if purpose = ParameterPurposeTargetAssignee then
        (let policy = ppc_Assignee (tpc_Consumption planned) in
         if policy = ProtectedParameterConsumptionRejectUnknown then Inr planned
         else if policy \<noteq> ProtectedParameterConsumptionRequiredValidate then Inr known
         else Inr (exposed (parameter\<lparr>p_Description := transitionParameterDescription (p_Description parameter)
                (DefaultTargetAgentRoleDescription (explicitCallableRoles (tpr_Catalog request)))\<rparr>)))
      else
        (let policy = ppc_Thinking (tpc_Consumption planned); thinking = tpc_Thinking planned in
         if policy = ProtectedParameterConsumptionRejectUnknown then Inr planned
         else if policy \<noteq> ProtectedParameterConsumptionRequiredValidate then Inr known
         else let described = parameter\<lparr>p_Description := transitionParameterDescription (p_Description parameter)
                (DefaultTargetAgentThinkingDescription thinking)\<rparr> in
           if tpr_RequireExecutionDescriptions request \<and> \<not> tc_Finite thinking \<and> blank (p_Description described)
           then Inl (TargetAgentSelectionError TargetAgentSelectionErrorThinkingDescriptionRequired '''')
           else Inr (exposed described)))"

fun contract_loop ::
  "TransitionParameterContractRequest \<Rightarrow> Parameter list \<Rightarrow> TransitionParameterContract
   \<Rightarrow> AgentError + TransitionParameterContract" where
  "contract_loop request [] planned = Inr planned"
| "contract_loop request (parameter # parameters) planned =
     (case contract_step request parameter planned of
        Inl err \<Rightarrow> Inl err
      | Inr planned' \<Rightarrow> contract_loop request parameters planned')"

definition planTransitionParameterContract ::
  "TransitionParameterContractRequest \<Rightarrow> AgentError + TransitionParameterContract" where
  "planTransitionParameterContract request =
     contract_loop request (e_Parameters (tpr_Edge request))
       \<lparr>tpc_Parameters = [], tpc_KnownParameters = [],
        tpc_Consumption = PlanTransitionProtectedParameterConsumption request,
        tpc_Thinking = UnionTargetAgentThinkingCapabilities (transitionThinkingRoles request)\<rparr>"

record TransitionSelectionPlan =
  tsp_Applicability :: EdgeSelectorApplicability
  tsp_Contract :: TransitionParameterContract
  tsp_ExecutionSelection :: "AgentExecutionSelection option"

definition zero_contract :: TransitionParameterContract where
  "zero_contract =
     \<lparr>tpc_Parameters = [], tpc_KnownParameters = [],
      tpc_Consumption = \<lparr>ppc_Assignee = ProtectedParameterConsumptionUnset,
                         ppc_Thinking = ProtectedParameterConsumptionUnset\<rparr>,
      tpc_Thinking = \<lparr>tc_ReasoningCapable = False, tc_Finite = False, tc_Levels = []\<rparr>\<rparr>"

text \<open>The plan is returned beside the error: callers read its applicability in both cases.\<close>

definition PlanTransitionSelection ::
  "TransitionParameterContractRequest \<Rightarrow> TransitionSelectionPlan \<times> AgentError option" where
  "PlanTransitionSelection request =
     (let plan = \<lparr>tsp_Applicability = resolveEdgeSelectorApplicability (tpr_Edge request) (tpr_SourceKind request)
                     (tpr_TargetKind request) (tpr_FanOut request) (tpr_Catalog request) (tpr_TargetRole request),
                  tsp_Contract = zero_contract, tsp_ExecutionSelection = None\<rparr> in
      case planTransitionParameterContract request of
        Inl err \<Rightarrow> (plan, Some err)
      | Inr contract \<Rightarrow>
         let plan' = plan\<lparr>tsp_Contract := contract\<rparr> in
         case tpr_Materialization request of
           None \<Rightarrow> (plan', None)
         | Some m \<Rightarrow>
            (case planTargetAgentExecutionSelection
                    \<lparr>ter_Edge = tpr_Edge request, ter_FallbackRole = tmr_FallbackRole m,
                     ter_Catalog = tpr_Catalog request, ter_SubmittedRole = tmr_SubmittedRole m,
                     ter_SubmittedThinking = tmr_SubmittedThinking m,
                     ter_ThinkingDescription = tmr_ThinkingDescription m,
                     ter_RetainedSession = tmr_RetainedSession m\<rparr> of
               Inl err \<Rightarrow> (plan', Some err)
             | Inr selection \<Rightarrow> (plan'\<lparr>tsp_ExecutionSelection := Some selection\<rparr>, None)))"

definition PlanTransitionParameterContract ::
  "TransitionParameterContractRequest \<Rightarrow> AgentError + TransitionParameterContract" where
  "PlanTransitionParameterContract request =
     (case PlanTransitionSelection request of
        (plan, Some err) \<Rightarrow> Inl err
      | (plan, None) \<Rightarrow> Inr (tsp_Contract plan))"

definition contract_request ::
  "Edge \<Rightarrow> NodeKind \<Rightarrow> NodeKind \<Rightarrow> string \<Rightarrow> bool \<Rightarrow> TargetAgentCatalog \<Rightarrow> TransitionParameterContractRequest" where
  "contract_request edge source target targetRole fanOut catalog =
     \<lparr>tpr_Edge = edge, tpr_SourceKind = source, tpr_TargetKind = target, tpr_TargetRole = targetRole,
      tpr_RetainedTargetRole = None, tpr_FanOut = fanOut, tpr_TargetSessionResolved = False,
      tpr_TargetSessionPolicy = AssigneeSessionPolicyUnset, tpr_Catalog = catalog,
      tpr_RequireExecutionDescriptions = False, tpr_Materialization = None\<rparr>"

definition ResolveEdgeSelectorApplicability ::
  "Edge \<Rightarrow> NodeKind \<Rightarrow> NodeKind \<Rightarrow> bool \<Rightarrow> TargetAgentCatalog \<Rightarrow> string \<Rightarrow> EdgeSelectorApplicability" where
  "ResolveEdgeSelectorApplicability edge source target fanOut catalog targetRole =
     (case PlanTransitionSelection (contract_request edge source target targetRole fanOut catalog) of
        (plan, Some err) \<Rightarrow> \<lparr>esa_Assignee = only_reason SelectorApplicabilityUnavailableConfiguration,
                             esa_Thinking = only_reason SelectorApplicabilityUnavailableConfiguration\<rparr>
      | (plan, None) \<Rightarrow> tsp_Applicability plan)"

text \<open>The last node of the list with an ID: the loop over the nodes overwrites its variables.\<close>

definition last_node_with_id :: "Node list \<Rightarrow> NodeID \<Rightarrow> Node option" where
  "last_node_with_id nodes nodeID = List.find (\<lambda>node. NodeIDOf node = nodeID) (rev nodes)"

definition PlanDefinitionTransitionSelection ::
  "Definition \<Rightarrow> Edge \<Rightarrow> TargetAgentCatalog \<Rightarrow> bool
   \<Rightarrow> TransitionSelectionPlan option \<times> AgentError option" where
  "PlanDefinitionTransitionSelection def edge catalog requireExecutionDescriptions =
     (case List.find (\<lambda>candidate. tg_ID candidate = e_TransitionGroupID edge) (d_TransitionGroups def) of
        None \<Rightarrow> (None, Some (TransitionGroupAbsent (e_TransitionGroupID edge)))
      | Some tgroup \<Rightarrow>
         (case last_node_with_id (d_Nodes def) (tg_SourceNodeID tgroup) of
            None \<Rightarrow> (None, Some (TransitionSourceAbsent (tg_SourceNodeID tgroup)))
          | Some source \<Rightarrow>
             (case last_node_with_id (d_Nodes def) (e_TargetNodeID edge) of
                None \<Rightarrow> (None, Some (TransitionTargetAbsent (e_TargetNodeID edge)))
              | Some target \<Rightarrow>
                 let fanOut = length (filter (\<lambda>c. e_TransitionGroupID c = e_TransitionGroupID edge) (d_Edges def));
                     (plan, err) = PlanTransitionSelection
                       ((contract_request edge (Kind source) (Kind target) (NodeSubagentRole target) (fanOut > 1) catalog)
                          \<lparr>tpr_RequireExecutionDescriptions := requireExecutionDescriptions\<rparr>)
                 in (Some plan, err))))"

end
