(* ===== verification/Wf_Agents_Props.thy ===== *)
theory Wf_Agents_Props
  imports Wf_Agents
begin

text \<open>
  Correctness of target-agent selection: what the planners of \<open>Wf_Agents\<close> return on every
  branch, that a planned execution selection always passes its own validation, and that the
  selector applicability shown to an editor agrees with the parameter contract enforced at
  run time.
\<close>

section \<open>Thinking capabilities\<close>

lemma set_dedupe_levels:
  "set (fold (\<lambda>raw out. let level = TrimSpace raw in
      if level = '''' \<or> level \<in> set out then out else out @ [level]) levels out) =
   set out \<union> (TrimSpace ` set levels - {''''})"
  by (induction levels arbitrary: out) (auto simp: Let_def)

lemma distinct_dedupe_levels:
  "distinct out \<Longrightarrow> distinct (fold (\<lambda>raw out. let level = TrimSpace raw in
      if level = '''' \<or> level \<in> set out then out else out @ [level]) levels out)"
  by (induction levels arbitrary: out) (auto simp: Let_def)

lemma canonicalThinkingLevels_set [simp]:
  "set (canonicalThinkingLevels levels) = TrimSpace ` set levels - {''''}"
  by (simp add: canonicalThinkingLevels_def dedupe_levels_def set_dedupe_levels)

lemma canonicalThinkingLevels_sorted_distinct [simp]:
  "sorted (canonicalThinkingLevels levels)" "distinct (canonicalThinkingLevels levels)"
  by (simp_all add: canonicalThinkingLevels_def dedupe_levels_def distinct_dedupe_levels)

lemma canonicalThinkingLevels_determined:
  "TrimSpace ` set xs - {''''} = TrimSpace ` set ys - {''''} \<Longrightarrow>
   canonicalThinkingLevels xs = canonicalThinkingLevels ys"
  by (intro sorted_distinct_set_unique) simp_all

lemma trimmed_image: "(\<And>x. x \<in> A \<Longrightarrow> TrimSpace x = x) \<Longrightarrow> TrimSpace ` (A - {''''}) - {''''} = A - {''''}"
  by (auto simp: image_iff)

lemma canonicalThinkingLevels_idem [simp]:
  "canonicalThinkingLevels (canonicalThinkingLevels levels) = canonicalThinkingLevels levels"
  by (rule canonicalThinkingLevels_determined) (simp, subst trimmed_image, auto)

lemma containsThinkingLevel_iff [simp]: "containsThinkingLevel levels value \<longleftrightarrow> value \<in> set levels"
  by (auto simp: containsThinkingLevel_def list_ex_iff)

lemma fold_union_step:
  "tc_ReasoningCapable (fold union_step roles u) \<longleftrightarrow>
     tc_ReasoningCapable u \<or> (\<exists>r \<in> set roles. tc_ReasoningCapable (tr_Thinking r))"
  "set (tc_Levels (fold union_step roles u)) =
     set (tc_Levels u) \<union> (\<Union>r \<in> {r \<in> set roles. tc_Finite (tr_Thinking r)}.
        TrimSpace ` set (tc_Levels (tr_Thinking r)) - {''''})"
  by (induction roles arbitrary: u)
    (auto simp: union_step_def Let_def ThinkingCapability_Canonical_def)

text \<open>
  The combined thinking capability of a set of roles: it is reasoning capable when some
  role is; it is finite exactly when there is a role and every role is finite; its levels are
  then exactly the trimmed non-blank levels of the roles, and otherwise none; they come
  sorted and without repetition.
\<close>

theorem UnionTargetAgentThinkingCapabilities_spec:
  "tc_ReasoningCapable (UnionTargetAgentThinkingCapabilities roles) =
     (\<exists>r \<in> set roles. tc_ReasoningCapable (tr_Thinking r)) \<and>
   tc_Finite (UnionTargetAgentThinkingCapabilities roles) =
     (roles \<noteq> [] \<and> list_all (\<lambda>r. tc_Finite (tr_Thinking r)) roles) \<and>
   set (tc_Levels (UnionTargetAgentThinkingCapabilities roles)) =
     (if list_all (\<lambda>r. tc_Finite (tr_Thinking r)) roles
      then (\<Union>r \<in> set roles. TrimSpace ` set (tc_Levels (tr_Thinking r))) - {''''} else {}) \<and>
   sorted (tc_Levels (UnionTargetAgentThinkingCapabilities roles)) \<and>
   distinct (tc_Levels (UnionTargetAgentThinkingCapabilities roles))"
proof -
  let ?u = "fold union_step roles \<lparr>tc_ReasoningCapable = False, tc_Finite = False, tc_Levels = []\<rparr>"
  have levels: "TrimSpace ` set (tc_Levels ?u) - {''''} =
      (\<Union>r \<in> set roles. TrimSpace ` set (tc_Levels (tr_Thinking r))) - {''''}"
    if "list_all (\<lambda>r. tc_Finite (tr_Thinking r)) roles"
  proof -
    have "{r \<in> set roles. tc_Finite (tr_Thinking r)} = set roles" using that by (auto simp: list_all_iff)
    then have "set (tc_Levels ?u) = (\<Union>r \<in> set roles. TrimSpace ` set (tc_Levels (tr_Thinking r))) - {''''}"
      by (auto simp: fold_union_step(2))
    then show ?thesis by (simp only:) (rule trimmed_image, auto)
  qed
  show ?thesis
  proof (cases "list_all (\<lambda>r. tc_Finite (tr_Thinking r)) roles")
    case True
    with levels [OF True] show ?thesis
      by (auto simp: UnionTargetAgentThinkingCapabilities_def Let_def fold_union_step(1) list_ex_iff list_all_iff)
  next
    case False
    then show ?thesis
      by (auto simp: UnionTargetAgentThinkingCapabilities_def Let_def fold_union_step(1) list_ex_iff list_all_iff)
  qed
qed

text \<open>
  A planned thinking value is safe for the target role. When it is exposed to the
  submitter it is the trimmed, non-blank submitted value; in every case it is the configured
  value of the role, or a level the role supports whenever the role has a finite list.
\<close>

theorem PlanTargetAgentThinkingSelection_supported:
  assumes "PlanTargetAgentThinkingSelection request = Inr selection"
  shows "(tts_Exposed selection \<longrightarrow>
            tts_Value selection = TrimSpace (ttr_SubmittedValue request) \<and> tts_Value selection \<noteq> '''') \<and>
         (tts_Value selection = TrimSpace (tr_ConfiguredThinking (ttr_TargetRole request)) \<or>
          \<not> tc_Finite (tr_Thinking (ttr_TargetRole request)) \<or>
          tts_Value selection \<in> set (canonicalThinkingLevels (tc_Levels (tr_Thinking (ttr_TargetRole request)))))"
  using assms
  by (simp add: PlanTargetAgentThinkingSelection_def Let_def ThinkingCapability_Canonical_def
      split: if_splits list.splits) auto

section \<open>Role selection\<close>

definition callable_ok :: "TargetAgentRole set \<Rightarrow> (string, TargetAgentRole) gomap \<Rightarrow> bool" where
  "callable_ok R m \<longleftrightarrow> distinct (mkeys m) \<and>
     (\<forall>k role. map_of m k = Some role \<longrightarrow> k \<noteq> '''' \<and> tr_Identity role = k \<and>
        (\<exists>r \<in> R. tr_ExplicitAgentCallable r \<and> role = canonicalTargetAgentRole r))"

lemma callable_ok_step:
  assumes "callable_ok R m" and "tr_ExplicitAgentCallable r" and "tr_Identity (canonicalTargetAgentRole r) \<noteq> ''''"
  shows "callable_ok (insert r R) (AList.update (tr_Identity (canonicalTargetAgentRole r)) (canonicalTargetAgentRole r) m)"
  using assms by (auto simp: callable_ok_def distinct_update simp del: map_of_eq_Some_iff)

lemma callable_ok_mono: "callable_ok R m \<Longrightarrow> R \<subseteq> S \<Longrightarrow> callable_ok S m"
  unfolding callable_ok_def by blast

lemma callable_ok_fold:
  "callable_ok R m \<Longrightarrow> callable_ok (R \<union> set rs) (fold (\<lambda>role byIdentity.
        if \<not> tr_ExplicitAgentCallable role then byIdentity
        else let canonical = canonicalTargetAgentRole role in
          if tr_Identity canonical = '''' then byIdentity
          else AList.update (tr_Identity canonical) canonical byIdentity) rs m)"
proof (induction rs arbitrary: R m)
  case (Cons r rs)
  let ?m = "if \<not> tr_ExplicitAgentCallable r then m
        else let canonical = canonicalTargetAgentRole r in
          if tr_Identity canonical = '''' then m
          else AList.update (tr_Identity canonical) canonical m"
  have "callable_ok (insert r R) ?m"
    using Cons.prems callable_ok_step callable_ok_mono [OF Cons.prems, of "insert r R"] by (auto simp: Let_def)
  from Cons.IH [OF this] show ?case by simp
qed simp

lemma callable_index_invariant:
  assumes "(k, role) \<in> set (callable_index roles)"
  shows "k \<noteq> '''' \<and> tr_Identity role = k \<and>
     (\<exists>r \<in> set roles. tr_ExplicitAgentCallable r \<and> role = canonicalTargetAgentRole r)"
proof -
  have "callable_ok {} []" by (simp add: callable_ok_def)
  from callable_ok_fold [OF this, of roles] have ok: "callable_ok (set roles) (callable_index roles)"
    by (simp add: callable_index_def)
  with assms have "map_of (callable_index roles) k = Some role" by (simp add: callable_ok_def)
  with ok show ?thesis unfolding callable_ok_def by blast
qed

lemma canonicalExplicitCallableRoles_mem:
  assumes "role \<in> set (canonicalExplicitCallableRoles roles)"
  shows "tr_Identity role \<noteq> '''' \<and> (\<exists>r \<in> set roles. tr_ExplicitAgentCallable r \<and> role = canonicalTargetAgentRole r)"
proof -
  from assms obtain k where k: "(k, role) \<in> set (callable_index roles)"
    by (auto simp: canonicalExplicitCallableRoles_def)
  from callable_index_invariant [OF k] show ?thesis by blast
qed

lemma canonicalTargetAgentRole_flags [simp]:
  "tr_QuestionsEnabled (canonicalTargetAgentRole role) = tr_QuestionsEnabled role"
  "tr_ExplicitAgentCallable (canonicalTargetAgentRole role) = tr_ExplicitAgentCallable role"
  "tr_Thinking (canonicalTargetAgentRole role) = tr_Thinking role"
  "tr_ConfiguredThinking (canonicalTargetAgentRole role) = tr_ConfiguredThinking role"
  by (simp_all add: canonicalTargetAgentRole_def split: option.splits)

text \<open>
  C39: A planned target role is one the request may use. Without an override it is the
  configured role the catalog resolves for the trimmed fallback name, and it has questions
  enabled. With an override it is an explicitly callable role of the catalog with a non-empty
  canonical identity, and unless it is the only one it is the role the submitter named.
\<close>

theorem PlanTargetAgentSelection_eligible:
  assumes "PlanTargetAgentSelection (Some resolver) request = Inr selection"
  shows "if tsr_OverrideEnabled request
    then tas_QuestionsRequired selection \<and> tr_Identity (tas_Role selection) \<noteq> '''' \<and>
      (\<exists>r \<in> set (ExplicitCallableRoles resolver).
         tr_ExplicitAgentCallable r \<and> tas_Role selection = canonicalTargetAgentRole r) \<and>
      (if tas_SubmittedRoleIgnored selection
       then canonicalExplicitCallableRoles (ExplicitCallableRoles resolver) = [tas_Role selection]
       else canonicalAgentRoleIdentity (TrimSpace (tsr_SubmittedRole request)) = Some (tr_Identity (tas_Role selection)))
    else tr_QuestionsEnabled (tas_Role selection) \<and>
      (\<exists>r. ResolveConfiguredRole resolver (TrimSpace (tsr_FallbackRole request)) = Some r \<and>
         tas_Role selection = canonicalTargetAgentRole r)"
proof (cases "tsr_OverrideEnabled request")
  case False
  with assms show ?thesis
    by (auto simp: PlanTargetAgentSelection_def Let_def split: option.splits if_splits)
next
  case True
  let ?roles = "canonicalExplicitCallableRoles (ExplicitCallableRoles resolver)"
  from True assms have "tas_Role selection \<in> set ?roles \<and> tas_QuestionsRequired selection \<and>
      (if tas_SubmittedRoleIgnored selection then ?roles = [tas_Role selection]
       else canonicalAgentRoleIdentity (TrimSpace (tsr_SubmittedRole request)) = Some (tr_Identity (tas_Role selection)))"
    by (auto simp: PlanTargetAgentSelection_def Let_def find_Some_iff nth_Cons' split: option.splits list.splits if_splits)
  with True canonicalExplicitCallableRoles_mem [of "tas_Role selection"] show ?thesis by auto
qed

section \<open>Execution selections\<close>

lemma materializeThinkingValue_Some:
  "materializeThinkingValue raw = Inr (Some v) \<Longrightarrow> v = TrimSpace raw \<and> v \<noteq> ''''"
  by (auto simp: materializeThinkingValue_def NewThinkingValue_def Let_def split: if_splits sum.splits)

lemma materializeThinkingValue_total: "\<exists>v. materializeThinkingValue raw = Inr v"
  by (auto simp: materializeThinkingValue_def NewThinkingValue_def Let_def)

lemma NewAgentExecutionSelection_valid:
  assumes "NewAgentExecutionSelection assignee thinking origin = Inr selection"
  shows "AgentExecutionSelection_Validate selection = None"
  using assms
  by (auto simp: NewAgentExecutionSelection_def AgentExecutionSelection_Validate_def NewThinkingValue_def Let_def
      split: if_splits option.splits sum.splits)

text \<open>
  Whatever the transition submits, a planned agent assignment passes the validation of
  \<open>AgentExecutionSelection\<close>; when a session is retained, the assignment keeps the retained
  assignee and is marked as retained.
\<close>

theorem planTargetAgentExecutionSelection_valid:
  assumes "PlanTargetAgentExecutionSelection request = Inr selection"
  shows "AgentExecutionSelection_Validate selection = None \<and>
    (\<forall>retained. ter_RetainedSession request = Some retained \<longrightarrow>
       aes_Assignee selection = aes_Assignee retained \<and> aes_Origin selection = AssigneeOriginRetainedSession)"
proof (cases "ter_RetainedSession request")
  case None
  with assms show ?thesis
    by (auto simp: PlanTargetAgentExecutionSelection_def planTargetAgentExecutionSelection_def Let_def
        split: sum.splits if_splits dest: NewAgentExecutionSelection_valid)
next
  case (Some retained)
  with assms show ?thesis
    by (auto simp: PlanTargetAgentExecutionSelection_def planTargetAgentExecutionSelection_def
        plan_retained_selection_def Let_def split: sum.splits if_splits option.splits)
qed


section \<open>The parameter contract\<close>

definition purpose_policy :: "ProtectedParameterConsumption \<Rightarrow> Parameter \<Rightarrow> ProtectedParameterConsumptionPolicy" where
  "purpose_policy consumption p =
     (if CanonicalParameterPurpose (p_Purpose p) = ParameterPurposeOrdinary then ProtectedParameterConsumptionRequiredValidate
      else if CanonicalParameterPurpose (p_Purpose p) = ParameterPurposeTargetAssignee then ppc_Assignee consumption
      else ppc_Thinking consumption)"

definition described_parameter :: "TransitionParameterContractRequest \<Rightarrow> ThinkingCapability \<Rightarrow> Parameter \<Rightarrow> Parameter" where
  "described_parameter request thinking p =
     (if CanonicalParameterPurpose (p_Purpose p) = ParameterPurposeOrdinary then p
      else if CanonicalParameterPurpose (p_Purpose p) = ParameterPurposeTargetAssignee
      then p\<lparr>p_Description := transitionParameterDescription (p_Description p)
               (DefaultTargetAgentRoleDescription (explicitCallableRoles (tpr_Catalog request)))\<rparr>
      else p\<lparr>p_Description := transitionParameterDescription (p_Description p)
               (DefaultTargetAgentThinkingDescription thinking)\<rparr>)"

lemma contract_step_Inr:
  assumes "contract_step request p planned = Inr planned'"
  shows "validParameterPurpose (CanonicalParameterPurpose (p_Purpose p)) \<and>
    planned' = planned
      \<lparr>tpc_KnownParameters := tpc_KnownParameters planned @
         (if purpose_policy (tpc_Consumption planned) p = ProtectedParameterConsumptionRejectUnknown then [] else [p]),
       tpc_Parameters := tpc_Parameters planned @
         (if purpose_policy (tpc_Consumption planned) p = ProtectedParameterConsumptionRequiredValidate
          then [described_parameter request (tpc_Thinking planned) p] else [])\<rparr>"
  using assms
  by (auto simp: contract_step_def purpose_policy_def described_parameter_def Let_def split: if_splits)

lemma contract_loop_Inr:
  assumes "contract_loop request ps planned = Inr planned'"
  shows "list_all (\<lambda>p. validParameterPurpose (CanonicalParameterPurpose (p_Purpose p))) ps \<and>
    tpc_KnownParameters planned' = tpc_KnownParameters planned @
      filter (\<lambda>p. purpose_policy (tpc_Consumption planned) p \<noteq> ProtectedParameterConsumptionRejectUnknown) ps \<and>
    tpc_Parameters planned' = tpc_Parameters planned @
      map (described_parameter request (tpc_Thinking planned))
        (filter (\<lambda>p. purpose_policy (tpc_Consumption planned) p = ProtectedParameterConsumptionRequiredValidate) ps) \<and>
    tpc_Consumption planned' = tpc_Consumption planned"
  using assms
proof (induction request ps planned rule: contract_loop.induct)
  case (2 request p ps planned)
  from "2.prems" obtain planned1 where step: "contract_step request p planned = Inr planned1"
    and rest: "contract_loop request ps planned1 = Inr planned'"
    by (cases "contract_step request p planned") simp_all
  note s = contract_step_Inr [OF step]
  have "tpc_Consumption planned1 = tpc_Consumption planned" "tpc_Thinking planned1 = tpc_Thinking planned"
    "tpc_KnownParameters planned1 = tpc_KnownParameters planned @
       (if purpose_policy (tpc_Consumption planned) p = ProtectedParameterConsumptionRejectUnknown then [] else [p])"
    "tpc_Parameters planned1 = tpc_Parameters planned @
       (if purpose_policy (tpc_Consumption planned) p = ProtectedParameterConsumptionRequiredValidate
        then [described_parameter request (tpc_Thinking planned) p] else [])"
    using s by simp_all
  with "2.IH" [OF step rest] s show ?case by simp
qed simp

text \<open>
  The parameter contract of an edge: the parameters the completion must supply are the
  ordinary ones and the protected ones whose policy requires a value, in the order of the
  edge and with only descriptions filled in; the known parameters are those whose policy does
  not reject them. An edge with an invalid parameter purpose has no contract.
\<close>

theorem planTransitionParameterContract_parameters:
  assumes "planTransitionParameterContract request = Inr contract"
  shows "list_all (\<lambda>p. validParameterPurpose (CanonicalParameterPurpose (p_Purpose p))) (e_Parameters (tpr_Edge request)) \<and>
    tpc_KnownParameters contract =
      filter (\<lambda>p. purpose_policy (PlanTransitionProtectedParameterConsumption request) p \<noteq>
                  ProtectedParameterConsumptionRejectUnknown) (e_Parameters (tpr_Edge request)) \<and>
    map (\<lambda>p. (p_Key p, p_Purpose p)) (tpc_Parameters contract) =
      map (\<lambda>p. (p_Key p, p_Purpose p))
        (filter (\<lambda>p. purpose_policy (PlanTransitionProtectedParameterConsumption request) p =
                     ProtectedParameterConsumptionRequiredValidate) (e_Parameters (tpr_Edge request)))"
  using contract_loop_Inr [OF assms [unfolded planTransitionParameterContract_def]]
  by (simp add: described_parameter_def)

lemma thinkingApplicability_visible:
  assumes "tpr_RetainedTargetRole request = None" and "TrimSpace (tpr_TargetRole request) = tpr_TargetRole request"
  shows "sa_ParameterVisible (thinkingApplicability (tpr_Edge request) (tpr_Catalog request) (tpr_TargetRole request)) \<longleftrightarrow>
    (let u = UnionTargetAgentThinkingCapabilities (transitionThinkingRoles request) in
     tc_ReasoningCapable u \<and> (\<not> tc_Finite u \<or> length (tc_Levels u) > 1))"
proof -
  have empty: "\<not> tc_ReasoningCapable (UnionTargetAgentThinkingCapabilities [])"
    by (simp add: UnionTargetAgentThinkingCapabilities_def)
  have roles: "(if tpr_Catalog request = None then []
         else if CanonicalAssigneeSelection (e_AssigneeSelection (tpr_Edge request)) = AssigneeSelectionPreviousNode
         then explicitCallableRoles (tpr_Catalog request)
         else case resolve_in (tpr_Catalog request) (TrimSpace (tpr_TargetRole request)) of
                None \<Rightarrow> [] | Some role \<Rightarrow> [role]) = transitionThinkingRoles request"
    using assms by (simp add: transitionThinkingRoles_def)
  show ?thesis unfolding thinkingApplicability_def roles
    using empty by (auto simp: Let_def only_reason_def intro!: Suc_lessI)
qed

text \<open>
  The selector applicability shown for an edge agrees with the contract enforced for it:
  for a target that keeps no earlier session, a selector parameter is visible exactly when
  the contract requires and validates a value for it.
\<close>

theorem applicability_matches_contract:
  assumes "tpr_RetainedTargetRole request = None" and "tpr_TargetSessionPolicy request \<noteq> AssigneeSessionPolicyPreserve"
    and "TrimSpace (tpr_TargetRole request) = tpr_TargetRole request"
    and "CanonicalAssigneeSelection (e_AssigneeSelection (tpr_Edge request)) = AssigneeSelectionPreviousNode"
    and "CanonicalThinkingSelection (e_ThinkingSelection (tpr_Edge request)) = ThinkingSelectionPreviousNode"
  shows "(sa_ParameterVisible (esa_Assignee (tsp_Applicability (fst (PlanTransitionSelection request)))) \<longleftrightarrow>
            ppc_Assignee (PlanTransitionProtectedParameterConsumption request) = ProtectedParameterConsumptionRequiredValidate) \<and>
         (sa_ParameterVisible (esa_Thinking (tsp_Applicability (fst (PlanTransitionSelection request)))) \<longleftrightarrow>
            ppc_Thinking (PlanTransitionProtectedParameterConsumption request) = ProtectedParameterConsumptionRequiredValidate)"
proof -
  have app: "tsp_Applicability (fst (PlanTransitionSelection request)) =
    resolveEdgeSelectorApplicability (tpr_Edge request) (tpr_SourceKind request) (tpr_TargetKind request)
      (tpr_FanOut request) (tpr_Catalog request) (tpr_TargetRole request)"
    by (simp add: PlanTransitionSelection_def Let_def split: sum.splits option.splits)
  show ?thesis
    unfolding app using assms thinkingApplicability_visible [OF assms(1,3)]
    by (auto simp: resolveEdgeSelectorApplicability_def PlanTransitionProtectedParameterConsumption_def
        ResolveProtectedParameterConsumption_def explicitCallableRoleCount_def only_reason_def Let_def)
qed

text \<open>
  The session policy: an existing target session is preserved exactly for a continuation
  whose context source is known, that does not copy the session of the source into a fan-out
  branch, and that either must have a session or found one.
\<close>

theorem ResolveAssigneeSessionPolicy_preserve:
  "ResolveAssigneeSessionPolicy request = Inr AssigneeSessionPolicyPreserve \<longleftrightarrow>
   aspr_ContextMode request = ContextModeContinueSession \<and> \<not> CopiesSourceSession request \<and>
   (let kind = cs_Kind (CanonicalContextSource (aspr_ContextSource request)) in
    kind = ContextSourceImmediateSource \<or> kind = ContextSourceSelectedNode \<or> kind = ContextSourcePreviousTarget \<or>
    (kind = ContextSourcePreviousTargetOrNew \<and> aspr_TargetSessionResolved request))"
  by (auto simp: ResolveAssigneeSessionPolicy_def Let_def split: ContextMode.splits)

end
