(* ===== verification/Wf_Prompts.thy ===== *)
theory Wf_Prompts
  imports Wf_Fanout
begin

text \<open>
  Prompt templates: \<open>server/workflow/prompt_refs.go\<close>.

  The syntax tree of \<open>text/template/parse\<close> is the datatype \<open>TemplateNode\<close>; the parser of
  that package is a parameter \<open>parse\<close>, which gives the roots of the parsed templates or an
  error. The pipe of a template call is a pointer that is nil for a call without argument;
  following it is a nil dereference in Go, so the walk returns an option and \<open>None\<close> is the
  panic. A \<open>nil\<close> else list is the empty list, which the code treats alike.
\<close>

section \<open>Templates and their references\<close>

datatype TemplateNode =
    ListNode "TemplateNode list"
  | ActionNode TemplateNode
  | IfNode TemplateNode "TemplateNode list" "TemplateNode list"
  | RangeNode TemplateNode "TemplateNode list" "TemplateNode list"
  | WithNode TemplateNode "TemplateNode list" "TemplateNode list"
  | TemplateCallNode "TemplateNode option"
  | PipeNode "TemplateNode list"
  | CommandNode "TemplateNode list"
  | ChainNode TemplateNode "string list"
  | FieldNode "string list"
  | VariableNode "string list"
  | IdentifierNode string
  | StringNode string
  | DotNode
  | OtherNode

record PromptParameterReference =
  ppr_Name :: string
  ppr_Placeholder :: string

record PromptPriorParameterReference =
  ppp_TransitionKey :: ModelKey
  ppp_ParameterKey :: string
  ppp_Placeholder :: string

record PromptReferenceIssue =
  pri_Placeholder :: string
  pri_Message :: string

record PromptTemplateReferences =
  ptr_Params :: "PromptParameterReference list"
  ptr_PriorParams :: "PromptPriorParameterReference list"
  ptr_SessionID :: bool
  ptr_Invalid :: "PromptReferenceIssue list"

definition no_references :: PromptTemplateReferences where
  "no_references = \<lparr>ptr_Params = [], ptr_PriorParams = [], ptr_SessionID = False, ptr_Invalid = []\<rparr>"

definition promptNamespace :: "string \<Rightarrow> bool" where
  "promptNamespace value \<longleftrightarrow> value = ''Inputs'' \<or> value = ''Params''"

definition promptBuiltin :: "string \<Rightarrow> bool" where
  "promptBuiltin value \<longleftrightarrow>
     value \<in> set [''TaskId'', ''TaskShortId'', ''TaskTitle'', ''TaskBody'', ''NodeId'', ''NodeKey'',
                 ''NodeDisplayName'', ''SessionId'']"

definition join_dots :: "string list \<Rightarrow> string" where
  "join_dots parts = (case parts of [] \<Rightarrow> '''' | p # ps \<Rightarrow> p @ concat (map ((@) ''.'') ps))"

definition variableTouchesPromptNamespace :: "string list \<Rightarrow> bool" where
  "variableTouchesPromptNamespace ident =
     list_ex (\<lambda>part. part = ''$Inputs'' \<or> part = ''$Params'' \<or> promptNamespace part) ident"

fun indexArgTouches :: "TemplateNode \<Rightarrow> bool" where
  "indexArgTouches (FieldNode ident) = (ident \<noteq> [] \<and> promptNamespace (hd ident))"
| "indexArgTouches (ChainNode node field) =
     (if field \<noteq> [] \<and> promptNamespace (hd field) then True
      else node = DotNode \<or> indexArgTouches node)"
| "indexArgTouches (VariableNode ident) = variableTouchesPromptNamespace ident"
| "indexArgTouches (StringNode text') = promptNamespace text'"
| "indexArgTouches _ = False"

definition indexCommandTouchesPromptNamespace :: "TemplateNode list \<Rightarrow> bool" where
  "indexCommandTouchesPromptNamespace args =
     (case args of
        [] \<Rightarrow> False
      | first # _ \<Rightarrow> if first = DotNode then True else list_ex indexArgTouches args)"

definition add_issue :: "string \<Rightarrow> string \<Rightarrow> PromptTemplateReferences \<Rightarrow> PromptTemplateReferences" where
  "add_issue placeholder message refs =
     refs\<lparr>ptr_Invalid := ptr_Invalid refs @ [\<lparr>pri_Placeholder = placeholder, pri_Message = message\<rparr>]\<rparr>"

definition recordPromptFieldReference ::
  "string list \<Rightarrow> PromptTemplateReferences \<Rightarrow> PromptTemplateReferences" where
  "recordPromptFieldReference ident refs =
     (if ident = [] then refs
      else let placeholder = ''.'' @ join_dots ident in
        if hd ident = ''Inputs''
        then add_issue placeholder ''.Inputs prompt references are unsupported; use .Params.<parameter_key>'' refs
        else if hd ident = ''Params'' then
          (case ident of
             [_, name] \<Rightarrow> refs\<lparr>ptr_Params := ptr_Params refs @ [\<lparr>ppr_Name = name, ppr_Placeholder = placeholder\<rparr>]\<rparr>
           | [_, transition, name] \<Rightarrow>
              refs\<lparr>ptr_PriorParams := ptr_PriorParams refs @
                 [\<lparr>ppp_TransitionKey = transition, ppp_ParameterKey = name, ppp_Placeholder = placeholder\<rparr>]\<rparr>
           | _ \<Rightarrow> add_issue placeholder
                ''.Params references must use .Params.<parameter_key> or .Params.<transition_key>.<parameter_key>'' refs)
        else if promptBuiltin (hd ident) then
          (let refs' = (if length ident \<noteq> 1
                        then add_issue placeholder ''prompt built-in references must not be chained'' refs else refs)
           in if hd ident = ''SessionId'' \<and> length ident = 1 then refs'\<lparr>ptr_SessionID := True\<rparr> else refs')
        else add_issue placeholder ''prompt field reference is unsupported'' refs)"

text \<open>The body of the \<open>CommandNode\<close> case before its arguments are walked.\<close>

definition index_command :: "TemplateNode list \<Rightarrow> bool" where
  "index_command args =
     (case args of
        IdentifierNode ident # rest \<Rightarrow> ident = ''index'' \<and> indexCommandTouchesPromptNamespace rest
      | _ \<Rightarrow> False)"

fun walkTemplateNode :: "TemplateNode \<Rightarrow> PromptTemplateReferences \<Rightarrow> PromptTemplateReferences option"
and walkTemplateNodeList :: "TemplateNode list \<Rightarrow> PromptTemplateReferences \<Rightarrow> PromptTemplateReferences option" where
  "walkTemplateNode (ListNode nodes) refs = walkTemplateNodeList nodes refs"
| "walkTemplateNode (ActionNode pipe) refs = walkTemplateNode pipe refs"
| "walkTemplateNode (IfNode pipe body els) refs =
     Option.bind (Option.bind (walkTemplateNode pipe refs) (walkTemplateNodeList body)) (walkTemplateNodeList els)"
| "walkTemplateNode (RangeNode pipe body els) refs =
     Option.bind (Option.bind (walkTemplateNode pipe refs) (walkTemplateNodeList body)) (walkTemplateNodeList els)"
| "walkTemplateNode (WithNode pipe body els) refs =
     Option.bind (Option.bind (walkTemplateNode pipe refs) (walkTemplateNodeList body)) (walkTemplateNodeList els)"
| "walkTemplateNode (TemplateCallNode None) refs = None"
| "walkTemplateNode (TemplateCallNode (Some pipe)) refs = walkTemplateNode pipe refs"
| "walkTemplateNode (PipeNode cmds) refs = walkTemplateNodeList cmds refs"
| "walkTemplateNode (CommandNode args) refs =
     walkTemplateNodeList args
       (if index_command args then add_issue ''index'' ''dynamic prompt reference lookup is not supported'' refs else refs)"
| "walkTemplateNode (ChainNode node field) refs =
     map_option (\<lambda>refs'. if field \<noteq> [] \<and> promptNamespace (hd field)
                         then add_issue (''.'' @ join_dots field) ''prompt reference shape is unsupported'' refs'
                         else refs') (walkTemplateNode node refs)"
| "walkTemplateNode (FieldNode ident) refs = Some (recordPromptFieldReference ident refs)"
| "walkTemplateNode (VariableNode ident) refs =
     Some (if variableTouchesPromptNamespace ident
           then add_issue (join_dots ident) ''variable prompt reference lookup is not supported'' refs else refs)"
| "walkTemplateNode (IdentifierNode _) refs = Some refs"
| "walkTemplateNode (StringNode _) refs = Some refs"
| "walkTemplateNode DotNode refs = Some refs"
| "walkTemplateNode OtherNode refs = Some refs"
| "walkTemplateNodeList [] refs = Some refs"
| "walkTemplateNodeList (node # nodes) refs = Option.bind (walkTemplateNode node refs) (walkTemplateNodeList nodes)"

text \<open>The parser: an error, or the roots of the templates the text defines.\<close>

type_synonym template_parser = "string \<Rightarrow> string + TemplateNode list"

text \<open>The result is \<open>None\<close> on a panic, and otherwise the error or the references.\<close>

definition ExtractPromptTemplateReferences ::
  "template_parser \<Rightarrow> string \<Rightarrow> (string + PromptTemplateReferences) option" where
  "ExtractPromptTemplateReferences parse promptTemplate =
     (let prompt = TrimSpace promptTemplate in
      if prompt = '''' then Some (Inr no_references)
      else case parse prompt of
             Inl err \<Rightarrow> Some (Inl err)
           | Inr roots \<Rightarrow> map_option Inr (walkTemplateNodeList roots no_references))"

section \<open>Session references\<close>

record PromptSessionNodeScope =
  pss_BranchKey :: "TransitionBranchKey option"
  pss_Ambiguous :: bool

record PromptSessionReferenceResolution =
  psr_Matched :: nat
  psr_Guaranteed :: "TransitionGroup list"
  psr_SourceNodeID :: NodeID
  psr_BranchKey :: "TransitionBranchKey option"
  psr_BranchScopeAmbiguous :: bool

record promptSessionReferenceCandidate =
  cand_group :: TransitionGroup
  cand_fanoutGroupID :: TransitionGroupID
  cand_branchKey :: TransitionBranchKey

definition zero_transition_group :: TransitionGroup where
  "zero_transition_group =
     \<lparr>tg_WorkflowID = 0, tg_ID = '''', tg_SourceNodeID = '''', tg_TransitionID = '''',
      tg_DisplayName = '''', tg_Description = ''''\<rparr>"

definition filterPromptSessionReferenceCandidates ::
  "promptSessionReferenceCandidate list \<Rightarrow> TransitionGroupID list \<Rightarrow> TransitionBranchKey
   \<Rightarrow> promptSessionReferenceCandidate list" where
  "filterPromptSessionReferenceCandidates candidates currentFanoutGroups currentBranch =
     (if \<not> list_ex (\<lambda>c. cand_fanoutGroupID c \<in> set currentFanoutGroups) candidates then candidates
      else filter (\<lambda>c. cand_fanoutGroupID c \<in> set currentFanoutGroups \<and> cand_branchKey c = currentBranch) candidates)"

definition branch_contains :: "fanoutTopology \<Rightarrow> Edge \<Rightarrow> NodeID \<Rightarrow> bool" where
  "branch_contains topology edge nodeID =
     (case fanoutBranchTraversal topology (e_TargetNodeID edge) of
        None \<Rightarrow> False
      | Some traversal \<Rightarrow> mhas (pathNodes traversal) nodeID)"

text \<open>The set of group IDs, in the iteration order of the map.\<close>

definition promptSessionFanoutGroupsForCurrentNode ::
  "fanoutTopology \<Rightarrow> NodeID \<Rightarrow> TransitionBranchKey \<Rightarrow> TransitionGroupID list" where
  "promptSessionFanoutGroupsForCurrentNode topology currentNodeID currentBranch =
     map fst (filter (\<lambda>(groupID, edges). length edges \<ge> 2 \<and>
        list_ex (\<lambda>edge. TrimSpace (e_Key edge) = currentBranch \<and> branch_contains topology edge currentNodeID) edges)
       (edgesByGroup topology))"

definition scope_candidates ::
  "fanoutTopology \<Rightarrow> TransitionGroup \<Rightarrow> NodeID \<Rightarrow> TransitionGroup \<Rightarrow> promptSessionReferenceCandidate list" where
  "scope_candidates topology tgroup nodeID fanoutGroup =
     (let edges = mget_list (edgesByGroup topology) (tg_ID fanoutGroup) in
      if length edges < 2 then []
      else map (\<lambda>edge. \<lparr>cand_group = tgroup, cand_fanoutGroupID = tg_ID fanoutGroup,
                       cand_branchKey = TrimSpace (e_Key edge)\<rparr>)
             (filter (\<lambda>edge. branch_contains topology edge nodeID \<and> \<not> blank (e_Key edge)) edges))"

definition ResolvePromptSessionNodeScope ::
  "Definition \<Rightarrow> NodeID \<Rightarrow> NodeID \<Rightarrow> TransitionBranchKey option \<Rightarrow> PromptSessionNodeScope" where
  "ResolvePromptSessionNodeScope def nodeID currentNodeID currentBranch =
     (let topology = newFanoutTopology def;
          candidates = concat (map (scope_candidates topology zero_transition_group nodeID) (d_TransitionGroups def));
          scoped = (case currentBranch of
                      None \<Rightarrow> candidates
                    | Some branch \<Rightarrow> filterPromptSessionReferenceCandidates candidates
                        (promptSessionFanoutGroupsForCurrentNode topology currentNodeID branch) branch)
      in case scoped of
           [] \<Rightarrow> \<lparr>pss_BranchKey = None, pss_Ambiguous = False\<rparr>
         | [c] \<Rightarrow> \<lparr>pss_BranchKey = Some (cand_branchKey c), pss_Ambiguous = False\<rparr>
         | _ \<Rightarrow> \<lparr>pss_BranchKey = None, pss_Ambiguous = True\<rparr>)"

text \<open>The candidates of one group with the transition key: the branches, of fan-outs whose
  join is guaranteed before the consumer, that contain the source of the group.\<close>

definition reference_candidates ::
  "Definition \<Rightarrow> fanoutTopology \<Rightarrow> NodeID \<Rightarrow> NodeID \<Rightarrow> TransitionGroup \<Rightarrow> promptSessionReferenceCandidate list" where
  "reference_candidates def topology startNodeID consumerSourceNodeID tgroup =
     concat (map (\<lambda>fanoutGroup.
        let fanoutEdges = mget_list (edgesByGroup topology) (tg_ID fanoutGroup) in
        if length fanoutEdges < 2 then []
        else case ResolveFanoutJoin def (map (\<lambda>edge. TrimSpace (e_Key edge)) fanoutEdges) of
               None \<Rightarrow> []
             | Some join \<Rightarrow>
                let joinID = NodeIDOf (fjr_Join join) in
                if consumerSourceNodeID \<noteq> joinID \<and>
                   \<not> nodeDominatesFromStart startNodeID joinID consumerSourceNodeID (outgoingByNode topology)
                then []
                else scope_candidates topology tgroup (tg_SourceNodeID tgroup) fanoutGroup) (d_TransitionGroups def))"

definition ResolvePromptSessionReference ::
  "Definition \<Rightarrow> ModelKey \<Rightarrow> NodeID \<Rightarrow> NodeID \<Rightarrow> TransitionBranchKey option
   \<Rightarrow> PromptSessionReferenceResolution" where
  "ResolvePromptSessionReference def transitionKey consumerSourceNodeID currentNodeID currentBranch =
     (let prior = ResolvePriorTransitionGroups def transitionKey consumerSourceNodeID;
          resolution = \<lparr>psr_Matched = ptr_Matched prior, psr_Guaranteed = ptr_Guaranteed prior,
                        psr_SourceNodeID = '''', psr_BranchKey = None, psr_BranchScopeAmbiguous = False\<rparr> in
      case ptr_Guaranteed prior of
        [g] \<Rightarrow>
          (let scope = ResolvePromptSessionNodeScope def (tg_SourceNodeID g) currentNodeID currentBranch in
           resolution\<lparr>psr_SourceNodeID := tg_SourceNodeID g, psr_BranchKey := pss_BranchKey scope,
                      psr_BranchScopeAmbiguous := pss_Ambiguous scope\<rparr>)
      | _ # _ \<Rightarrow> resolution
      | [] \<Rightarrow>
         if ptr_Matched prior = 0 then resolution
         else case singleStartNodeID (d_Nodes def) of (startNodeID, hasSingleStart) \<Rightarrow>
           if \<not> hasSingleStart then resolution
           else
             let topology = newFanoutTopology def;
                 candidates = concat (map (reference_candidates def topology startNodeID consumerSourceNodeID)
                   (filter (\<lambda>g. TrimSpace (tg_TransitionID g) = TrimSpace transitionKey) (d_TransitionGroups def)));
                 scoped = (case currentBranch of
                      None \<Rightarrow> candidates
                    | Some branch \<Rightarrow> filterPromptSessionReferenceCandidates candidates
                        (promptSessionFanoutGroupsForCurrentNode topology currentNodeID branch) branch)
             in case scoped of
                  [] \<Rightarrow> resolution
                | first # rest \<Rightarrow>
                   if rest \<noteq> [] \<and> list_ex (\<lambda>c. tg_ID (cand_group c) \<noteq> tg_ID (cand_group first)) rest
                   then resolution\<lparr>psr_Guaranteed := map cand_group scoped\<rparr>
                   else let resolved = resolution\<lparr>psr_Guaranteed := [cand_group first],
                                                psr_SourceNodeID := tg_SourceNodeID (cand_group first)\<rparr> in
                     if rest \<noteq> [] then resolved\<lparr>psr_BranchScopeAmbiguous := True\<rparr>
                     else resolved\<lparr>psr_BranchKey := Some (cand_branchKey first)\<rparr>)"


section \<open>What the walk collects\<close>

text \<open>The field identifiers of a template in the order of the walk, and whether the walk
  meets a template call without argument.\<close>

fun field_idents :: "TemplateNode \<Rightarrow> string list list" and field_idents_list :: "TemplateNode list \<Rightarrow> string list list" where
  "field_idents (ListNode nodes) = field_idents_list nodes"
| "field_idents (ActionNode pipe) = field_idents pipe"
| "field_idents (IfNode pipe body els) = field_idents pipe @ field_idents_list body @ field_idents_list els"
| "field_idents (RangeNode pipe body els) = field_idents pipe @ field_idents_list body @ field_idents_list els"
| "field_idents (WithNode pipe body els) = field_idents pipe @ field_idents_list body @ field_idents_list els"
| "field_idents (TemplateCallNode None) = []"
| "field_idents (TemplateCallNode (Some pipe)) = field_idents pipe"
| "field_idents (PipeNode cmds) = field_idents_list cmds"
| "field_idents (CommandNode args) = field_idents_list args"
| "field_idents (ChainNode node field) = field_idents node"
| "field_idents (FieldNode ident) = [ident]"
| "field_idents _ = []"
| "field_idents_list [] = []"
| "field_idents_list (node # nodes) = field_idents node @ field_idents_list nodes"

fun bare_call :: "TemplateNode \<Rightarrow> bool" and bare_call_list :: "TemplateNode list \<Rightarrow> bool" where
  "bare_call (ListNode nodes) = bare_call_list nodes"
| "bare_call (ActionNode pipe) = bare_call pipe"
| "bare_call (IfNode pipe body els) = (bare_call pipe \<or> bare_call_list body \<or> bare_call_list els)"
| "bare_call (RangeNode pipe body els) = (bare_call pipe \<or> bare_call_list body \<or> bare_call_list els)"
| "bare_call (WithNode pipe body els) = (bare_call pipe \<or> bare_call_list body \<or> bare_call_list els)"
| "bare_call (TemplateCallNode None) = True"
| "bare_call (TemplateCallNode (Some pipe)) = bare_call pipe"
| "bare_call (PipeNode cmds) = bare_call_list cmds"
| "bare_call (CommandNode args) = bare_call_list args"
| "bare_call (ChainNode node field) = bare_call node"
| "bare_call _ = False"
| "bare_call_list [] = False"
| "bare_call_list (node # nodes) = (bare_call node \<or> bare_call_list nodes)"

definition param_reference :: "string list \<Rightarrow> PromptParameterReference option" where
  "param_reference ident =
     (case ident of
        [ns, name] \<Rightarrow> if ns = ''Params'' then Some \<lparr>ppr_Name = name, ppr_Placeholder = ''.Params.'' @ name\<rparr> else None
      | _ \<Rightarrow> None)"

definition prior_reference :: "string list \<Rightarrow> PromptPriorParameterReference option" where
  "prior_reference ident =
     (case ident of
        [ns, transition, name] \<Rightarrow>
          if ns = ''Params''
          then Some \<lparr>ppp_TransitionKey = transition, ppp_ParameterKey = name,
                     ppp_Placeholder = ''.Params.'' @ transition @ ''.'' @ name\<rparr> else None
      | _ \<Rightarrow> None)"

lemma record_params:
  "ptr_Params (recordPromptFieldReference ident refs) = ptr_Params refs @ List.map_filter param_reference [ident]"
  "ptr_PriorParams (recordPromptFieldReference ident refs) = ptr_PriorParams refs @ List.map_filter prior_reference [ident]"
  "ptr_SessionID (recordPromptFieldReference ident refs) = (ptr_SessionID refs \<or> ident = [''SessionId''])"
  by (auto simp: recordPromptFieldReference_def add_issue_def param_reference_def prior_reference_def
      map_filter_simps join_dots_def promptBuiltin_def Let_def split: list.splits)

lemma add_issue_keeps [simp]:
  "ptr_Params (add_issue p m refs) = ptr_Params refs"
  "ptr_PriorParams (add_issue p m refs) = ptr_PriorParams refs"
  "ptr_SessionID (add_issue p m refs) = ptr_SessionID refs"
  by (simp_all add: add_issue_def)

lemma map_filter_append: "List.map_filter f (xs @ ys) = List.map_filter f xs @ List.map_filter f ys"
  by (simp add: map_filter_def)

definition collects :: "PromptTemplateReferences \<Rightarrow> PromptTemplateReferences \<Rightarrow> string list list \<Rightarrow> bool" where
  "collects refs refs' idents \<longleftrightarrow>
     ptr_Params refs' = ptr_Params refs @ List.map_filter param_reference idents \<and>
     ptr_PriorParams refs' = ptr_PriorParams refs @ List.map_filter prior_reference idents \<and>
     ptr_SessionID refs' = (ptr_SessionID refs \<or> [''SessionId''] \<in> set idents)"

lemma collects_trans: "collects a b xs \<Longrightarrow> collects b c ys \<Longrightarrow> collects a c (xs @ ys)"
  by (auto simp: collects_def map_filter_append)

lemma collects_simps [simp]:
  "collects a a []"
  "collects (add_issue p m a) b xs \<longleftrightarrow> collects a b xs"
  "collects a (add_issue p m b) xs \<longleftrightarrow> collects a b xs"
  "collects a (recordPromptFieldReference ident a) [ident]"
  by (auto simp: collects_def map_filter_simps record_params)

lemma walk_collects:
  "walkTemplateNode node refs = Some refs' \<Longrightarrow> collects refs refs' (field_idents node)"
  "walkTemplateNodeList nodes refs = Some refs' \<Longrightarrow> collects refs refs' (field_idents_list nodes)"
  by (induction node refs and nodes refs arbitrary: refs' and refs' rule: walkTemplateNode_walkTemplateNodeList.induct)
    (auto simp: bind_eq_Some_conv split: if_splits intro: collects_trans, (meson collects_trans)+)

lemma walk_panics:
  "walkTemplateNode node refs = None \<longleftrightarrow> bare_call node"
  "walkTemplateNodeList nodes refs = None \<longleftrightarrow> bare_call_list nodes"
  by (induction node refs and nodes refs rule: walkTemplateNode_walkTemplateNodeList.induct)
    (auto split: bind_splits)

text \<open>
  C40: A successful extraction reports exactly the references of the template: a current
  parameter for every field \<open>.Params.x\<close>, a prior parameter for every field \<open>.Params.t.x\<close>, in
  the order the template mentions them wherever they are nested, and the session flag exactly
  when the field \<open>.SessionId\<close> occurs.
\<close>

theorem ExtractPromptTemplateReferences_complete:
  assumes "parse (TrimSpace prompt) = Inr roots" and "\<not> blank prompt"
    and "ExtractPromptTemplateReferences parse prompt = Some (Inr refs)"
  shows "ptr_Params refs = List.map_filter param_reference (field_idents_list roots) \<and>
    ptr_PriorParams refs = List.map_filter prior_reference (field_idents_list roots) \<and>
    (ptr_SessionID refs \<longleftrightarrow> [''SessionId''] \<in> set (field_idents_list roots))"
proof -
  from assms have "walkTemplateNodeList roots no_references = Some refs"
    by (auto simp: ExtractPromptTemplateReferences_def Let_def)
  from walk_collects(2) [OF this] show ?thesis
    by (simp add: collects_def no_references_def)
qed

text \<open>
  The extraction of a template that parses panics exactly when the template contains a
  call \<open>{{template "name"}}\<close> without an argument: the nil pipe of the call is dereferenced.
\<close>

theorem ExtractPromptTemplateReferences_panics:
  assumes "parse (TrimSpace prompt) = Inr roots" and "\<not> blank prompt"
  shows "ExtractPromptTemplateReferences parse prompt = None \<longleftrightarrow> bare_call_list roots"
  using assms by (simp add: ExtractPromptTemplateReferences_def Let_def walk_panics)

lemma pathNodes_walk:
  assumes "branch_contains topology edge n"
  shows "\<exists>es. walk (branch_out topology) (e_TargetNodeID edge) es n"
proof -
  from assms obtain result d where "fanoutBranchTraversal topology (e_TargetNodeID edge) = Some result"
    "map_of (pathNodes result) n = Some d"
    by (auto simp: branch_contains_def split: option.splits)
  then show ?thesis
    using traversal_loop_least [of topology _ _ result n]
    by (fastforce simp: fanoutBranchTraversal_def least_nat_Some walk_lengths_def split: if_splits)
qed

lemma filter_candidates_subset:
  "set (filterPromptSessionReferenceCandidates cs gs b) \<subseteq> set cs"
  by (auto simp: filterPromptSessionReferenceCandidates_def)

lemma scope_candidates_mem:
  assumes "c \<in> set (scope_candidates topology tgroup n g)"
  shows "\<exists>edge \<in> set (mget_list (edgesByGroup topology) (tg_ID g)).
    cand_branchKey c = TrimSpace (e_Key edge) \<and> \<not> blank (e_Key edge) \<and> cand_group c = tgroup \<and>
    length (mget_list (edgesByGroup topology) (tg_ID g)) \<ge> 2 \<and>
    (\<exists>es. walk (branch_out topology) (e_TargetNodeID edge) es n)"
  using assms by (auto simp: scope_candidates_def Let_def split: if_splits dest: pathNodes_walk)

text \<open>
  When a session reference is resolved to a branch, that branch exists: some fan-out of
  the workflow has an edge whose trimmed key is the branch key, and a branch walk leads from
  that edge to the node whose session is asked for.
\<close>

theorem ResolvePromptSessionNodeScope_branch:
  assumes "pss_BranchKey (ResolvePromptSessionNodeScope def nodeID currentNodeID currentBranch) = Some k"
  shows "k \<noteq> '''' \<and>
    (\<exists>g \<in> set (d_TransitionGroups def). \<exists>edge \<in> set (d_Edges def).
       e_TransitionGroupID edge = tg_ID g \<and> TrimSpace (e_Key edge) = k \<and>
       length (filter (\<lambda>e. e_TransitionGroupID e = tg_ID g) (d_Edges def)) \<ge> 2 \<and>
       (\<exists>es. walk (branch_out (newFanoutTopology def)) (e_TargetNodeID edge) es nodeID))"
proof -
  let ?t = "newFanoutTopology def"
  let ?cs = "concat (map (scope_candidates ?t zero_transition_group nodeID) (d_TransitionGroups def))"
  define scoped where "scoped = (case currentBranch of
                      None \<Rightarrow> ?cs
                    | Some branch \<Rightarrow> filterPromptSessionReferenceCandidates ?cs
                        (promptSessionFanoutGroupsForCurrentNode ?t currentNodeID branch) branch)"
  from assms have "pss_BranchKey (case scoped of
           [] \<Rightarrow> \<lparr>pss_BranchKey = None, pss_Ambiguous = False\<rparr>
         | [c] \<Rightarrow> \<lparr>pss_BranchKey = Some (cand_branchKey c), pss_Ambiguous = False\<rparr>
         | _ \<Rightarrow> \<lparr>pss_BranchKey = None, pss_Ambiguous = True\<rparr>) = Some k"
    unfolding ResolvePromptSessionNodeScope_def Let_def scoped_def .
  then obtain c where c: "cand_branchKey c = k" "scoped = [c]" by (auto split: list.splits)
  have "set scoped \<subseteq> set ?cs"
    unfolding scoped_def
    by (cases currentBranch) (simp_all only: option.case order_refl filter_candidates_subset)
  with c have "c \<in> set ?cs" by simp
  then obtain g where g: "g \<in> set (d_TransitionGroups def)"
    and "c \<in> set (scope_candidates ?t zero_transition_group nodeID g)" by auto
  from scope_candidates_mem [OF this(2)] obtain edge where
    "edge \<in> set (d_Edges def)" "e_TransitionGroupID edge = tg_ID g" "TrimSpace (e_Key edge) = k" "\<not> blank (e_Key edge)"
    "length (filter (\<lambda>e. e_TransitionGroupID e = tg_ID g) (d_Edges def)) \<ge> 2"
    "\<exists>es. walk (branch_out ?t) (e_TargetNodeID edge) es nodeID"
    using c(1) by (simp add: edgesByGroup_newFanoutTopology) blast
  with g show ?thesis by blast
qed

end
