(* ===== verification/Wf_Wiring.thy ===== *)
theory Wf_Wiring
  imports Wf_Prompts Wf_Agents Wf_Errors
begin

text \<open>
  Derived wiring: \<open>server/workflow/derived_wiring.go\<close>. From a definition it derives which
  values flow over which edge: the input bindings of edges, the fields a transition must
  provide, the aggregate outputs of joins, and which prior parameters a node depends on.

  The struct \<open>DerivedWiring\<close> is a record of maps; the methods that fill it are functions on
  the record. Diagnostics are collected beside the maps.
\<close>

section \<open>Merging fields\<close>

definition field_named :: "string \<Rightarrow> OutputField \<Rightarrow> bool" where
  "field_named name f \<longleftrightarrow> TrimSpace (of_Name f) = name"

text \<open>\<open>seen[strings.TrimSpace(field.Name)] = index\<close> for all fields: the last index wins.\<close>

definition last_named :: "string \<Rightarrow> OutputField list \<Rightarrow> OutputField option" where
  "last_named name fs = List.find (field_named name) (rev fs)"

definition appendUniqueOutputFields :: "OutputField list \<Rightarrow> OutputField list \<Rightarrow> OutputField list" where
  "appendUniqueOutputFields existing additions =
     fold (\<lambda>f out.
        let name = TrimSpace (of_Name f) in
        if name = '''' then out
        else if list_ex (field_named name) out then out
        else out @ [\<lparr>of_Name = name, of_Description = TrimSpace (of_Description f)\<rparr>]) additions existing"

definition overlap_error :: "ValidationError \<Rightarrow> string \<Rightarrow> ValidationError" where
  "overlap_error ref name =
     ref\<lparr>ve_Code := CodeProvisionFieldOverlap, ve_BlocksContext := True, ve_FieldName := name\<rparr>"

definition compatible_step ::
  "ValidationError \<Rightarrow> OutputField \<Rightarrow> OutputField list \<times> ValidationError list
   \<Rightarrow> OutputField list \<times> ValidationError list" where
  "compatible_step ref f acc =
     (case acc of (out, diagnostics) \<Rightarrow>
        let name = TrimSpace (of_Name f); description = TrimSpace (of_Description f) in
        if name = '''' then (out, diagnostics)
        else case last_named name out of
          Some previous \<Rightarrow>
            if TrimSpace (of_Description previous) \<noteq> description
            then (out, diagnostics @ [overlap_error ref name]) else (out, diagnostics)
        | None \<Rightarrow> (out @ [\<lparr>of_Name = name, of_Description = description\<rparr>], diagnostics))"

definition appendCompatibleOutputFields ::
  "OutputField list \<Rightarrow> OutputField list \<Rightarrow> ValidationError \<Rightarrow> OutputField list \<times> ValidationError list" where
  "appendCompatibleOutputFields existing additions ref = fold (compatible_step ref) additions (existing, [])"

definition appendUniqueInputBindings :: "InputBinding list \<Rightarrow> InputBinding list \<Rightarrow> InputBinding list" where
  "appendUniqueInputBindings existing additions =
     fold (\<lambda>b out. if list_ex (\<lambda>b'. ib_Name b' = ib_Name b) out then out else out @ [b]) additions existing"

text \<open>\<open>AppendUniqueEdgeIDs\<close>, \<open>appendUniquePriorParameterRequirements\<close> and
  \<open>appendUniqueDerivedPriorParameterRequirements\<close>: append what is not contained yet.\<close>

definition append_unique :: "'a list \<Rightarrow> 'a list \<Rightarrow> 'a list" where
  "append_unique existing additions = fold (\<lambda>x out. if x \<in> set out then out else out @ [x]) additions existing"

definition AppendUniqueEdgeIDs :: "EdgeID list \<Rightarrow> EdgeID list list \<Rightarrow> EdgeID list" where
  "AppendUniqueEdgeIDs existing additions = fold (\<lambda>g out. append_unique out g) additions existing"

definition outputFieldByName :: "OutputField list \<Rightarrow> string \<Rightarrow> OutputField option" where
  "outputFieldByName fs name =
     map_option (\<lambda>f. \<lparr>of_Name = name, of_Description = TrimSpace (of_Description f)\<rparr>)
       (List.find (\<lambda>f. TrimSpace (of_Name f) = name) fs)"

definition edgeParameterFields :: "Edge \<Rightarrow> OutputField list" where
  "edgeParameterFields edge =
     List.map_filter (\<lambda>p. let key = TrimSpace (p_Key p) in
        if key = '''' then None
        else Some \<lparr>of_Name = key, of_Description = TrimSpace (p_Description p)\<rparr>) (e_Parameters edge)"

definition inputBindingsForFields :: "OutputField list \<Rightarrow> InputBinding list" where
  "inputBindingsForFields fs =
     List.map_filter (\<lambda>f. let name = TrimSpace (of_Name f) in
        if name = '''' then None
        else Some \<lparr>ib_Name = name, ib_Source = BindingSourceTransitionOutput, ib_Field = name\<rparr>) fs"

definition edgesForTransitionGroup :: "Edge list \<Rightarrow> TransitionGroupID \<Rightarrow> Edge list" where
  "edgesForTransitionGroup edges groupID = filter (\<lambda>e. e_TransitionGroupID e = groupID) edges"

definition edgeParameterByKey :: "Edge \<Rightarrow> string \<Rightarrow> Parameter option" where
  "edgeParameterByKey edge key = List.find (\<lambda>p. TrimSpace (p_Key p) = TrimSpace key) (e_Parameters edge)"

definition protectedParameterConsumptionForEdge ::
  "Edge \<Rightarrow> NodeKind \<Rightarrow> NodeKind \<Rightarrow> string \<Rightarrow> bool \<Rightarrow> TargetAgentCatalog \<Rightarrow> ProtectedParameterConsumption" where
  "protectedParameterConsumptionForEdge edge sourceKind targetKind targetRole fanOut catalog =
     PlanTransitionProtectedParameterConsumption
       ((contract_request edge sourceKind targetKind targetRole fanOut catalog)
          \<lparr>tpr_TargetSessionPolicy := AssigneeSessionPolicyEstablishTarget\<rparr>)"

definition keeps_field :: "Edge \<Rightarrow> ProtectedParameterConsumption \<Rightarrow> OutputField \<Rightarrow> bool" where
  "keeps_field edge consumption f =
     (case edgeParameterByKey edge (of_Name f) of
        None \<Rightarrow> True
      | Some parameter \<Rightarrow>
         let purpose = CanonicalParameterPurpose (p_Purpose parameter) in
         if purpose = ParameterPurposeTargetAssignee
         then ppc_Assignee consumption = ProtectedParameterConsumptionRequiredValidate
         else if purpose = ParameterPurposeTargetThinking
         then ppc_Thinking consumption = ProtectedParameterConsumptionRequiredValidate
         else True)"

definition filterProtectedParameterFields ::
  "Edge \<Rightarrow> OutputField list \<Rightarrow> ProtectedParameterConsumption \<Rightarrow> OutputField list" where
  "filterProtectedParameterFields edge fs consumption = filter (keeps_field edge consumption) fs"


section \<open>The derived wiring\<close>

record PriorTransitionParameterRequirement =
  ptp_ProviderNode :: ModelKey
  ptp_TransitionKey :: ModelKey
  ptp_ParameterName :: string

record derivedPriorParameterRequirement =
  dpr_value :: PriorTransitionParameterRequirement
  dpr_providerTransitionGroupID :: TransitionGroupID

record DerivedWiring =
  Diagnostics :: "ValidationError list"
  inputBindingsByEdge :: "(EdgeID, InputBinding list) gomap"
  requiredProvisionFieldsByEdge :: "(EdgeID, OutputField list) gomap"
  requiredProvisionFieldsByGroup :: "(TransitionGroupID, OutputField list) gomap"
  possibleProvisionFieldsByNode :: "(NodeID, OutputField list) gomap"
  requiredProviderFieldsByJoinEdge :: "(EdgeID, OutputField list) gomap"
  joinOutputFieldsByNode :: "(NodeID, OutputField list) gomap"
  parameterDependencyEdgesByEdge :: "(EdgeID, EdgeID list) gomap"
  currentNodeInputBindingsByEdge :: "(EdgeID, InputBinding list) gomap"
  currentNodeOutputFieldsByGroup :: "(TransitionGroupID, OutputField list) gomap"
  priorParameterRequirementsByNode :: "(NodeID, PriorTransitionParameterRequirement list) gomap"
  selectorApplicabilityByEdge :: "(EdgeID, EdgeSelectorApplicability) gomap"

definition empty_wiring :: DerivedWiring where
  "empty_wiring =
     \<lparr>Diagnostics = [], inputBindingsByEdge = [], requiredProvisionFieldsByEdge = [],
      requiredProvisionFieldsByGroup = [], possibleProvisionFieldsByNode = [],
      requiredProviderFieldsByJoinEdge = [], joinOutputFieldsByNode = [], parameterDependencyEdgesByEdge = [],
      currentNodeInputBindingsByEdge = [], currentNodeOutputFieldsByGroup = [],
      priorParameterRequirementsByNode = [], selectorApplicabilityByEdge = []\<rparr>"

text \<open>The getters copy a slice of the map.\<close>

definition InputBindingsForEdge :: "DerivedWiring \<Rightarrow> EdgeID \<Rightarrow> InputBinding list" where
  "InputBindingsForEdge w edgeID = mget_list (inputBindingsByEdge w) edgeID"

definition RequiredProvisionFieldsForEdge :: "DerivedWiring \<Rightarrow> EdgeID \<Rightarrow> OutputField list" where
  "RequiredProvisionFieldsForEdge w edgeID = mget_list (requiredProvisionFieldsByEdge w) edgeID"

definition RequiredProvisionFieldsForTransitionGroup :: "DerivedWiring \<Rightarrow> TransitionGroupID \<Rightarrow> OutputField list" where
  "RequiredProvisionFieldsForTransitionGroup w groupID = mget_list (requiredProvisionFieldsByGroup w) groupID"

definition JoinOutputFieldsForNode :: "DerivedWiring \<Rightarrow> NodeID \<Rightarrow> OutputField list" where
  "JoinOutputFieldsForNode w nodeID = mget_list (joinOutputFieldsByNode w) nodeID"

definition ParameterDependencyEdgesForEdge :: "DerivedWiring \<Rightarrow> EdgeID \<Rightarrow> EdgeID list" where
  "ParameterDependencyEdgesForEdge w edgeID = mget_list (parameterDependencyEdgesByEdge w) edgeID"

definition PossibleProvisionFieldsForNode :: "DerivedWiring \<Rightarrow> NodeID \<Rightarrow> OutputField list" where
  "PossibleProvisionFieldsForNode w nodeID = mget_list (possibleProvisionFieldsByNode w) nodeID"

definition RequiredProviderFieldsForJoinEdge :: "DerivedWiring \<Rightarrow> EdgeID \<Rightarrow> OutputField list" where
  "RequiredProviderFieldsForJoinEdge w edgeID = mget_list (requiredProviderFieldsByJoinEdge w) edgeID"

definition CurrentNodeInputBindingsForEdge :: "DerivedWiring \<Rightarrow> EdgeID \<Rightarrow> InputBinding list" where
  "CurrentNodeInputBindingsForEdge w edgeID = mget_list (currentNodeInputBindingsByEdge w) edgeID"

definition CurrentNodeOutputFieldsForTransitionGroup :: "DerivedWiring \<Rightarrow> TransitionGroupID \<Rightarrow> OutputField list" where
  "CurrentNodeOutputFieldsForTransitionGroup w groupID = mget_list (currentNodeOutputFieldsByGroup w) groupID"

definition PriorParameterRequirementsForNode ::
  "DerivedWiring \<Rightarrow> NodeID \<Rightarrow> PriorTransitionParameterRequirement list" where
  "PriorParameterRequirementsForNode w nodeID = mget_list (priorParameterRequirementsByNode w) nodeID"

definition SelectorApplicabilityForEdge :: "DerivedWiring \<Rightarrow> EdgeID \<Rightarrow> EdgeSelectorApplicability" where
  "SelectorApplicabilityForEdge w edgeID =
     (case map_of (selectorApplicabilityByEdge w) edgeID of
        Some selector \<Rightarrow> selector
      | None \<Rightarrow> \<lparr>esa_Assignee = only_reason SelectorApplicabilityNone,
                 esa_Thinking = only_reason SelectorApplicabilityNone\<rparr>)"

definition TransitionOutputFieldsForEdge :: "DerivedWiring \<Rightarrow> Edge \<Rightarrow> Node \<Rightarrow> OutputField list" where
  "TransitionOutputFieldsForEdge w edge source =
     (if Kind source = NodeKindJoin then JoinOutputFieldsForNode w (NodeIDOf source)
      else RequiredProvisionFieldsForEdge w (e_ID edge))"

definition TransitionOutputFieldsForTargetNode :: "Definition \<Rightarrow> DerivedWiring \<Rightarrow> NodeID \<Rightarrow> OutputField list" where
  "TransitionOutputFieldsForTargetNode def derived targetNodeID =
     (let nodes = index_nodes (d_Nodes def); groups = index_groups (d_TransitionGroups def) in
      fold (\<lambda>edge fs.
        if e_TargetNodeID edge \<noteq> targetNodeID then fs
        else case edge_source groups edge of
               None \<Rightarrow> fs
             | Some sourceID \<Rightarrow>
                (case map_of nodes sourceID of
                   None \<Rightarrow> fs
                 | Some source \<Rightarrow> appendUniqueOutputFields fs (TransitionOutputFieldsForEdge derived edge source)))
        (d_Edges def) [])"

definition addRequiredProvisionFields ::
  "EdgeID \<Rightarrow> TransitionGroupID \<Rightarrow> OutputField list \<Rightarrow> DerivedWiring \<Rightarrow> DerivedWiring" where
  "addRequiredProvisionFields edgeID groupID fs w =
     (let edgeRef = zero_error\<lparr>ve_EdgeID := id_ref edgeID, ve_TransitionGroupID := id_ref groupID\<rparr>;
          (edgeMerged, edgeDiagnostics) =
            appendCompatibleOutputFields (mget_list (requiredProvisionFieldsByEdge w) edgeID) fs edgeRef;
          groupRef = zero_error\<lparr>ve_TransitionGroupID := id_ref groupID\<rparr>;
          (merged, diagnostics) =
            appendCompatibleOutputFields (mget_list (requiredProvisionFieldsByGroup w) groupID) fs groupRef
      in w\<lparr>requiredProvisionFieldsByEdge := AList.update edgeID edgeMerged (requiredProvisionFieldsByEdge w),
           requiredProvisionFieldsByGroup := AList.update groupID merged (requiredProvisionFieldsByGroup w),
           Diagnostics := Diagnostics w @ edgeDiagnostics @ diagnostics\<rparr>)"

definition addPossibleProvisionFields ::
  "NodeID \<Rightarrow> OutputField list \<Rightarrow> ValidationError \<Rightarrow> DerivedWiring \<Rightarrow> DerivedWiring" where
  "addPossibleProvisionFields nodeID fs ref w =
     (let (merged, diagnostics) =
            appendCompatibleOutputFields (mget_list (possibleProvisionFieldsByNode w) nodeID) fs ref
      in w\<lparr>possibleProvisionFieldsByNode := AList.update nodeID merged (possibleProvisionFieldsByNode w),
           Diagnostics := Diagnostics w @ diagnostics\<rparr>)"

definition addRequiredProviderFields ::
  "EdgeID \<Rightarrow> OutputField list \<Rightarrow> ValidationError \<Rightarrow> DerivedWiring \<Rightarrow> DerivedWiring" where
  "addRequiredProviderFields edgeID fs ref w =
     (let (merged, diagnostics) =
            appendCompatibleOutputFields (mget_list (requiredProviderFieldsByJoinEdge w) edgeID) fs ref
      in w\<lparr>requiredProviderFieldsByJoinEdge := AList.update edgeID merged (requiredProviderFieldsByJoinEdge w),
           Diagnostics := Diagnostics w @ diagnostics\<rparr>)"

definition addDiagnostic :: "ValidationErrorCode \<Rightarrow> ValidationError \<Rightarrow> DerivedWiring \<Rightarrow> DerivedWiring" where
  "addDiagnostic code ref w =
     w\<lparr>Diagnostics := Diagnostics w @ [ref\<lparr>ve_Code := code, ve_BlocksContext := True\<rparr>]\<rparr>"

definition addCurrentNodeOutputField :: "TransitionGroupID \<Rightarrow> OutputField \<Rightarrow> DerivedWiring \<Rightarrow> DerivedWiring" where
  "addCurrentNodeOutputField groupID f w =
     w\<lparr>currentNodeOutputFieldsByGroup :=
         AList.update groupID (appendUniqueOutputFields (mget_list (currentNodeOutputFieldsByGroup w) groupID) [f])
           (currentNodeOutputFieldsByGroup w)\<rparr>"

section \<open>Join aggregates\<close>

record join_state =
  js_wiring :: DerivedWiring
  js_groupFields :: "(TransitionGroupID, OutputField list) gomap"
  js_groupOrder :: "TransitionGroupID list"

definition join_incoming_fields ::
  "Node \<Rightarrow> (NodeID, Node) gomap \<Rightarrow> (TransitionGroupID, TransitionGroup) gomap \<Rightarrow> TargetAgentCatalog
   \<Rightarrow> Edge \<Rightarrow> OutputField list" where
  "join_incoming_fields join nodes groups catalog edge =
     (let fs = edgeParameterFields edge in
      case edge_source groups edge of
        None \<Rightarrow> fs
      | Some sourceID \<Rightarrow>
         (case map_of nodes sourceID of
            None \<Rightarrow> fs
          | Some source \<Rightarrow>
             filterProtectedParameterFields edge fs
               (protectedParameterConsumptionForEdge edge (Kind source) (Kind join) (NodeSubagentRole join) False catalog)))"

definition join_incoming_step ::
  "Node \<Rightarrow> (NodeID, Node) gomap \<Rightarrow> (TransitionGroupID, TransitionGroup) gomap \<Rightarrow> TargetAgentCatalog
   \<Rightarrow> Edge \<Rightarrow> join_state \<Rightarrow> join_state" where
  "join_incoming_step join nodes groups catalog edge st =
     (let fs = join_incoming_fields join nodes groups catalog edge in
      if fs = [] then st
      else
        let ref = zero_error\<lparr>ve_NodeID := Some (NodeIDOf join), ve_EdgeID := Some (e_ID edge),
                             ve_TransitionGroupID := Some (e_TransitionGroupID edge)\<rparr>;
            w = addRequiredProviderFields (e_ID edge) fs ref (js_wiring st);
            order = (if e_TransitionGroupID edge \<in> set (js_groupOrder st) then js_groupOrder st
                     else js_groupOrder st @ [e_TransitionGroupID edge]);
            (merged, diagnostics) =
              appendCompatibleOutputFields (mget_list (js_groupFields st) (e_TransitionGroupID edge)) fs ref
        in \<lparr>js_wiring = w\<lparr>Diagnostics := Diagnostics w @ diagnostics\<rparr>,
            js_groupFields = AList.update (e_TransitionGroupID edge) merged (js_groupFields st),
            js_groupOrder = order\<rparr>)"

record aggregate_state =
  as_wiring :: DerivedWiring
  as_ownerByField :: "(string, TransitionGroupID) gomap"
  as_aggregate :: "OutputField list"

definition aggregate_step ::
  "Node \<Rightarrow> TransitionGroupID \<times> OutputField \<Rightarrow> aggregate_state \<Rightarrow> aggregate_state" where
  "aggregate_step join gf st =
     (case gf of (groupID, f) \<Rightarrow>
        let name = TrimSpace (of_Name f) in
        if name = '''' then st
        else if (case map_of (as_ownerByField st) name of None \<Rightarrow> False | Some owner \<Rightarrow> owner \<noteq> groupID)
        then st\<lparr>as_wiring := addDiagnostic CodeProvisionFieldOverlap
                 (zero_error\<lparr>ve_NodeID := Some (NodeIDOf join), ve_FieldName := name,
                            ve_TransitionGroupID := Some groupID\<rparr>) (as_wiring st)\<rparr>
        else st\<lparr>as_ownerByField := AList.update name groupID (as_ownerByField st),
                as_aggregate := appendUniqueOutputFields (as_aggregate st) [f]\<rparr>)"

definition deriveJoinAggregateParameters ::
  "(NodeID, Edge list) gomap \<Rightarrow> (NodeID, Node) gomap \<Rightarrow> (TransitionGroupID, TransitionGroup) gomap
   \<Rightarrow> TargetAgentCatalog \<Rightarrow> Node \<Rightarrow> DerivedWiring \<Rightarrow> DerivedWiring" where
  "deriveJoinAggregateParameters incoming nodes groups catalog join w =
     (let st = fold (join_incoming_step join nodes groups catalog) (mget_list incoming (NodeIDOf join))
                 \<lparr>js_wiring = w, js_groupFields = [], js_groupOrder = []\<rparr>;
          ags = fold (aggregate_step join)
                  (concat (map (\<lambda>g. map (Pair g) (mget_list (js_groupFields st) g)) (js_groupOrder st)))
                  \<lparr>as_wiring = js_wiring st, as_ownerByField = [], as_aggregate = []\<rparr>;
          w' = as_wiring ags
      in w'\<lparr>joinOutputFieldsByNode := AList.update (NodeIDOf join) (as_aggregate ags) (joinOutputFieldsByNode w')\<rparr>)"


section \<open>Dependencies and the value environment\<close>

definition dependency_step :: "NodeID \<Rightarrow> edge_index \<Rightarrow> Edge \<Rightarrow> DerivedWiring \<Rightarrow> DerivedWiring" where
  "dependency_step joinID outgoing provider w =
     (if mget_list (requiredProviderFieldsByJoinEdge w) (e_ID provider) = [] then w
      else fold (\<lambda>out w'.
        w'\<lparr>parameterDependencyEdgesByEdge :=
            AList.update (e_ID provider)
              (AppendUniqueEdgeIDs (mget_list (parameterDependencyEdgesByEdge w') (e_ID provider)) [[e_ID out]])
              (parameterDependencyEdgesByEdge w')\<rparr>) (mget_list outgoing joinID) w)"

definition deriveParameterDependencies :: "edge_index \<Rightarrow> edge_index \<Rightarrow> DerivedWiring \<Rightarrow> DerivedWiring" where
  "deriveParameterDependencies incoming outgoing w =
     fold (\<lambda>joinID. fold (dependency_step joinID outgoing) (mget_list incoming joinID))
       (mkeys (joinOutputFieldsByNode w)) w"

type_synonym prior_requirements = "(NodeID, derivedPriorParameterRequirement list) gomap"

definition current_values ::
  "(NodeID, Node) gomap \<Rightarrow> Edge \<Rightarrow> TransitionGroup \<Rightarrow> DerivedWiring \<Rightarrow> DerivedWiring" where
  "current_values nodes edge consumerGroup w =
     (case map_of nodes (tg_SourceNodeID consumerGroup) of
        None \<Rightarrow> w
      | Some source \<Rightarrow>
         let currentFields = TransitionOutputFieldsForEdge w edge source;
             w' = w\<lparr>currentNodeInputBindingsByEdge := AList.update (e_ID edge)
                      (appendUniqueInputBindings (mget_list (currentNodeInputBindingsByEdge w) (e_ID edge))
                        (inputBindingsForFields currentFields)) (currentNodeInputBindingsByEdge w)\<rparr>
         in fold (addCurrentNodeOutputField (tg_ID consumerGroup)) currentFields w')"

definition prior_requirement ::
  "Definition \<Rightarrow> (NodeID, Node) gomap \<Rightarrow> NodeID \<Rightarrow> edge_index \<Rightarrow> TransitionGroup
   \<Rightarrow> PromptPriorParameterReference \<Rightarrow> derivedPriorParameterRequirement option" where
  "prior_requirement def nodes startNodeID outgoing consumerGroup priorParam =
     (let transitionKey = TrimSpace (ppp_TransitionKey priorParam);
          outputName = TrimSpace (ppp_ParameterKey priorParam) in
      if transitionKey = '''' \<or> outputName = '''' then None
      else if outputName = RuntimePromptParameterSessionID then None
      else case ptr_Guaranteed (resolvePriorParameterTransitionGroups (d_TransitionGroups def) transitionKey
                  (tg_SourceNodeID consumerGroup) startNodeID outgoing) of
        [g] \<Rightarrow>
          (case map_of nodes (tg_SourceNodeID g) of
             None \<Rightarrow> None
           | Some provider \<Rightarrow>
              if NodeKey provider = '''' then None
              else Some \<lparr>dpr_value = \<lparr>ptp_ProviderNode = NodeKey provider, ptp_TransitionKey = transitionKey,
                                     ptp_ParameterName = outputName\<rparr>,
                         dpr_providerTransitionGroupID = tg_ID g\<rparr>)
      | _ \<Rightarrow> None)"

definition environment_step ::
  "Definition \<Rightarrow> (NodeID, Node) gomap \<Rightarrow> (TransitionGroupID, TransitionGroup) gomap \<Rightarrow> edge_index
   \<Rightarrow> (EdgeID, PromptPriorParameterReference list) gomap \<Rightarrow> NodeID \<times> bool
   \<Rightarrow> Edge \<Rightarrow> DerivedWiring \<times> prior_requirements \<Rightarrow> DerivedWiring \<times> prior_requirements" where
  "environment_step def nodes groups outgoing priorReferencesByEdge start edge acc =
     (case acc of (w, prior) \<Rightarrow>
        if \<not> mhas nodes (e_TargetNodeID edge) then (w, prior)
        else case map_of groups (e_TransitionGroupID edge) of
          None \<Rightarrow> (w, prior)
        | Some consumerGroup \<Rightarrow>
           let w' = current_values nodes edge consumerGroup w in
           if \<not> snd start then (w', prior)
           else (w', fold (\<lambda>priorParam prior'.
              case prior_requirement def nodes (fst start) outgoing consumerGroup priorParam of
                None \<Rightarrow> prior'
              | Some requirement \<Rightarrow>
                 AList.update (e_TargetNodeID edge)
                   (append_unique (mget_list prior' (e_TargetNodeID edge)) [requirement]) prior')
              (mget_list priorReferencesByEdge (e_ID edge)) prior))"

definition node_requirements ::
  "NodeID \<Rightarrow> edge_index \<Rightarrow> prior_requirements \<Rightarrow> NodeID \<Rightarrow> PriorTransitionParameterRequirement list" where
  "node_requirements startNodeID outgoing prior nodeID =
     fold (\<lambda>r out. append_unique out [dpr_value r])
       (filter (\<lambda>r. transitionGroupDominates startNodeID (dpr_providerTransitionGroupID r) nodeID outgoing)
         (concat (map (mget_list prior) (reachableNodeIDs nodeID outgoing)))) []"

definition deriveCurrentNodeValueEnvironment ::
  "Definition \<Rightarrow> (NodeID, Node) gomap \<Rightarrow> (TransitionGroupID, TransitionGroup) gomap \<Rightarrow> edge_index
   \<Rightarrow> (EdgeID, PromptPriorParameterReference list) gomap \<Rightarrow> DerivedWiring \<Rightarrow> DerivedWiring" where
  "deriveCurrentNodeValueEnvironment def nodes groups outgoing priorReferencesByEdge w =
     (let start = singleStartNodeID (d_Nodes def);
          (w', prior) = fold (environment_step def nodes groups outgoing priorReferencesByEdge start)
                          (d_Edges def) (w, [])
      in fold (\<lambda>nodeID v. v\<lparr>priorParameterRequirementsByNode :=
            AList.update nodeID (node_requirements (fst start) outgoing prior nodeID)
              (priorParameterRequirementsByNode v)\<rparr>) (mkeys nodes) w')"


section \<open>Deriving the wiring\<close>

text \<open>The indices of \<open>deriveWiring\<close> skip blank IDs, unlike those of \<open>newFanoutTopology\<close>.\<close>

definition wiring_nodes :: "Definition \<Rightarrow> (NodeID, Node) gomap" where
  "wiring_nodes def = index_nodes (filter (\<lambda>node. \<not> blank (NodeIDOf node)) (d_Nodes def))"

definition wiring_groups :: "Definition \<Rightarrow> (TransitionGroupID, TransitionGroup) gomap" where
  "wiring_groups def = index_groups (filter (\<lambda>g. \<not> blank (tg_ID g)) (d_TransitionGroups def))"

definition wiring_incoming :: "Definition \<Rightarrow> edge_index" where
  "wiring_incoming def = fold (\<lambda>edge. mappend (e_TargetNodeID edge) edge) (d_Edges def) []"

definition selector_step ::
  "Definition \<Rightarrow> TargetAgentCatalog \<Rightarrow> Edge \<Rightarrow> DerivedWiring \<Rightarrow> DerivedWiring" where
  "selector_step def catalog edge w =
     (case edge_source (wiring_groups def) edge of
        None \<Rightarrow> w
      | Some sourceID \<Rightarrow>
         let selector =
           (case (map_of (wiring_nodes def) sourceID, map_of (wiring_nodes def) (e_TargetNodeID edge)) of
              (Some source, Some target) \<Rightarrow>
                ResolveEdgeSelectorApplicability edge (Kind source) (Kind target)
                  (length (edgesForTransitionGroup (d_Edges def) (e_TransitionGroupID edge)) > 1)
                  catalog (NodeSubagentRole target)
            | _ \<Rightarrow> \<lparr>esa_Assignee = only_reason SelectorApplicabilityTopology,
                    esa_Thinking = only_reason SelectorApplicabilityTopology\<rparr>)
         in w\<lparr>selectorApplicabilityByEdge := AList.update (e_ID edge) selector (selectorApplicabilityByEdge w)\<rparr>)"

definition required_fields :: "Definition \<Rightarrow> TargetAgentCatalog \<Rightarrow> Node \<Rightarrow> Edge \<Rightarrow> OutputField list" where
  "required_fields def catalog source edge =
     (let (targetKind, targetRole) =
        (case map_of (wiring_nodes def) (e_TargetNodeID edge) of
           None \<Rightarrow> (NodeKindOther '''', '''')
         | Some target \<Rightarrow> (Kind target, NodeSubagentRole target))
      in filterProtectedParameterFields edge (edgeParameterFields edge)
           (protectedParameterConsumptionForEdge edge (Kind source) targetKind targetRole
              (length (edgesForTransitionGroup (d_Edges def) (e_TransitionGroupID edge)) > 1) catalog))"

definition provision_step :: "Definition \<Rightarrow> TargetAgentCatalog \<Rightarrow> Edge \<Rightarrow> DerivedWiring \<Rightarrow> DerivedWiring" where
  "provision_step def catalog edge w =
     (case edge_source (wiring_groups def) edge of
        None \<Rightarrow> w
      | Some sourceID \<Rightarrow>
         (case map_of (wiring_nodes def) sourceID of
            None \<Rightarrow> w
          | Some source \<Rightarrow>
             if Kind source = NodeKindStart \<or> Kind source = NodeKindJoin then w
             else let requiredFields = required_fields def catalog source edge in
               if requiredFields = [] then w
               else
                 let w1 = w\<lparr>inputBindingsByEdge :=
                            AList.update (e_ID edge) (inputBindingsForFields requiredFields) (inputBindingsByEdge w)\<rparr>;
                     w2 = addRequiredProvisionFields (e_ID edge) (e_TransitionGroupID edge) requiredFields w1
                 in addPossibleProvisionFields sourceID requiredFields
                      (zero_error\<lparr>ve_NodeID := id_ref sourceID, ve_EdgeID := id_ref (e_ID edge),
                                  ve_TransitionGroupID := id_ref (e_TransitionGroupID edge)\<rparr>) w2))"

definition deriveWiring ::
  "Definition \<Rightarrow> TargetAgentCatalog \<Rightarrow> (EdgeID, PromptPriorParameterReference list) gomap \<Rightarrow> DerivedWiring" where
  "deriveWiring def catalog priorReferencesByEdge =
     (let nodes = wiring_nodes def; groups = wiring_groups def; incoming = wiring_incoming def;
          outgoing = index_outgoing groups (d_Edges def);
          w0 = empty_wiring\<lparr>parameterDependencyEdgesByEdge :=
                 fold (\<lambda>edge. AList.update (e_ID edge) [e_ID edge]) (d_Edges def) []\<rparr>;
          w1 = fold (selector_step def catalog) (d_Edges def) w0;
          w2 = fold (provision_step def catalog) (d_Edges def) w1;
          w3 = fold (deriveJoinAggregateParameters incoming nodes groups catalog)
                 (filter (\<lambda>node. Kind node = NodeKindJoin) (d_Nodes def)) w2;
          w4 = deriveParameterDependencies incoming outgoing w3
      in deriveCurrentNodeValueEnvironment def nodes groups outgoing priorReferencesByEdge w4)"

text \<open>The loop that extracts the prior references of every edge: an edge whose template does
  not parse is skipped; a panic of the extraction ends the loop.\<close>

fun prior_references ::
  "template_parser \<Rightarrow> Edge list \<Rightarrow> (EdgeID, PromptPriorParameterReference list) gomap
   \<Rightarrow> (EdgeID, PromptPriorParameterReference list) gomap option" where
  "prior_references parse [] acc = Some acc"
| "prior_references parse (edge # edges) acc =
     (case ExtractPromptTemplateReferences parse (e_PromptTemplate edge) of
        None \<Rightarrow> None
      | Some (Inl err) \<Rightarrow> prior_references parse edges acc
      | Some (Inr refs) \<Rightarrow> prior_references parse edges (AList.update (e_ID edge) (ptr_PriorParams refs) acc))"

definition DeriveWiringWithPriorParameterReferences ::
  "Definition \<Rightarrow> (EdgeID, PromptPriorParameterReference list) gomap \<Rightarrow> DerivedWiring" where
  "DeriveWiringWithPriorParameterReferences def priorReferencesByEdge = deriveWiring def None priorReferencesByEdge"

definition DeriveWiring :: "template_parser \<Rightarrow> Definition \<Rightarrow> DerivedWiring option" where
  "DeriveWiring parse def =
     map_option (DeriveWiringWithPriorParameterReferences def) (prior_references parse (d_Edges def) [])"

definition DeriveWiringWithCatalog :: "template_parser \<Rightarrow> Definition \<Rightarrow> TargetAgentCatalog \<Rightarrow> DerivedWiring option" where
  "DeriveWiringWithCatalog parse def catalog =
     map_option (deriveWiring def catalog) (prior_references parse (d_Edges def) [])"

end
