(* ===== verification/Wf_Wiring_Props.thy ===== *)
theory Wf_Wiring_Props
  imports Wf_Wiring
begin

text \<open>
  Correctness of the derived wiring: merging of field lists reports exactly the conflicts, the
  aggregate of a join has no ambiguous field, and every prior parameter a node is said to
  depend on is guaranteed to have been produced when the node runs.
\<close>

section \<open>Folds that keep a component\<close>

lemma fold_keeps: "(\<And>x s. sel (f x s) = sel s) \<Longrightarrow> sel (fold f xs s) = sel s"
  by (induction xs arbitrary: s) auto

lemma fold_invariant: "(\<And>x s. x \<in> set xs \<Longrightarrow> P s \<Longrightarrow> P (f x s)) \<Longrightarrow> P s \<Longrightarrow> P (fold f xs s)"
  by (induction xs arbitrary: s) auto

lemma set_append_unique [simp]: "set (append_unique xs ys) = set xs \<union> set ys"
  unfolding append_unique_def by (induction ys arbitrary: xs) auto

lemma distinct_append_unique: "distinct xs \<Longrightarrow> distinct (append_unique xs ys)"
  unfolding append_unique_def by (induction ys arbitrary: xs) auto


section \<open>Merging fields\<close>

definition field_names :: "OutputField list \<Rightarrow> string list" where
  "field_names fs = map (\<lambda>f. TrimSpace (of_Name f)) fs"

text \<open>A merged list: trimmed, non-blank, pairwise different names and trimmed descriptions.\<close>

definition merged_fields :: "OutputField list \<Rightarrow> bool" where
  "merged_fields fs \<longleftrightarrow> distinct (map of_Name fs) \<and>
     list_all (\<lambda>f. of_Name f \<noteq> '''' \<and> TrimSpace (of_Name f) = of_Name f \<and>
                   TrimSpace (of_Description f) = of_Description f) fs"

lemma merged_fields_Nil [simp]: "merged_fields []"
  by (simp add: merged_fields_def)

lemma find_SomeD: "List.find P xs = Some x \<Longrightarrow> x \<in> set xs \<and> P x"
  by (induction xs) (auto split: if_splits)

lemma last_named_Some:
  "last_named name fs = Some f \<Longrightarrow> f \<in> set fs \<and> TrimSpace (of_Name f) = name"
  using find_SomeD [of "field_named name" "rev fs" f] by (simp add: last_named_def field_named_def)

lemma last_named_None: "last_named name fs = None \<longleftrightarrow> name \<notin> set (field_names fs)"
  by (auto simp: last_named_def field_named_def find_None_iff field_names_def)

lemma merged_fields_snoc:
  "merged_fields fs \<Longrightarrow> name \<noteq> '''' \<Longrightarrow> TrimSpace name = name \<Longrightarrow> TrimSpace d = d \<Longrightarrow> name \<notin> set (field_names fs) \<Longrightarrow>
   merged_fields (fs @ [\<lparr>of_Name = name, of_Description = d\<rparr>])"
  by (auto simp: merged_fields_def field_names_def list_all_iff)

lemma merged_fields_unique:
  "merged_fields fs \<Longrightarrow> f \<in> set fs \<Longrightarrow> g \<in> set fs \<Longrightarrow> of_Name f = of_Name g \<Longrightarrow> f = g"
  unfolding merged_fields_def distinct_map by (blast dest: inj_onD)

lemma appendUniqueOutputFields_merged:
  assumes "merged_fields existing"
  shows "merged_fields (appendUniqueOutputFields existing additions) \<and>
    set (field_names (appendUniqueOutputFields existing additions)) =
      set (field_names existing) \<union> (set (field_names additions) - {''''})"
  using assms unfolding appendUniqueOutputFields_def
proof (induction additions arbitrary: existing)
  case (Cons f additions)
  let ?name = "TrimSpace (of_Name f)"
  let ?new = "if ?name = '''' then existing
        else if list_ex (field_named ?name) existing then existing
        else existing @ [\<lparr>of_Name = ?name, of_Description = TrimSpace (of_Description f)\<rparr>]"
  have ex: "list_ex (field_named ?name) existing \<longleftrightarrow> ?name \<in> set (field_names existing)"
    by (auto simp: list_ex_iff field_named_def field_names_def image_iff eq_commute)
  have "merged_fields ?new" using Cons.prems merged_fields_snoc ex by auto
  moreover have "set (field_names ?new) = set (field_names existing) \<union> ({?name} - {''''})"
    using ex by (auto simp: field_names_def)
  ultimately show ?case using Cons.IH [of ?new] by (auto simp: Let_def field_names_def)
qed (simp add: field_names_def)

definition trim_field :: "OutputField \<Rightarrow> OutputField" where
  "trim_field f = \<lparr>of_Name = TrimSpace (of_Name f), of_Description = TrimSpace (of_Description f)\<rparr>"

lemma merged_fields_trim: "merged_fields fs \<Longrightarrow> f \<in> set fs \<Longrightarrow> trim_field f = f"
  by (auto simp: merged_fields_def list_all_iff trim_field_def)

lemma compatible_step_cases:
  assumes "merged_fields out" and step: "compatible_step ref f (out, ds) = (out1, ds1)"
  obtains (blank) "blank (of_Name f)" "out1 = out" "ds1 = ds"
    | (new) "\<not> blank (of_Name f)" "out1 = out @ [trim_field f]" "ds1 = ds"
        "merged_fields (out @ [trim_field f])"
    | (same) "\<not> blank (of_Name f)" "out1 = out" "ds1 = ds" "trim_field f \<in> set out"
    | (clash) g where "\<not> blank (of_Name f)" "out1 = out" "ds1 = ds @ [overlap_error ref (TrimSpace (of_Name f))]"
        "g \<in> set out" "of_Name g = TrimSpace (of_Name f)" "g \<noteq> trim_field f"
proof (cases "blank (of_Name f)")
  case True
  with step blank show ?thesis by (simp add: compatible_step_def)
next
  case False
  show ?thesis
  proof (cases "last_named (TrimSpace (of_Name f)) out")
    case None
    with assms(1) False have "merged_fields (out @ [trim_field f])"
      unfolding trim_field_def by (intro merged_fields_snoc) (simp_all add: last_named_None)
    with None False step new show ?thesis by (simp add: compatible_step_def trim_field_def Let_def)
  next
    case (Some g)
    from last_named_Some [OF Some] have g: "g \<in> set out" "TrimSpace (of_Name g) = TrimSpace (of_Name f)" by auto
    have gt: "trim_field g = g" using merged_fields_trim [OF assms(1) g(1)] .
    then have name: "of_Name g = TrimSpace (of_Name f)" using g(2) by (metis OutputField.select_convs(1) trim_field_def)
    show ?thesis
    proof (cases "TrimSpace (of_Description g) = TrimSpace (of_Description f)")
      case True
      then have "trim_field f = g" using g(2) gt by (simp add: trim_field_def)
      with Some True False step g same show ?thesis by (simp add: compatible_step_def Let_def)
    next
      case diff: False
      then have "g \<noteq> trim_field f" using gt by (metis OutputField.select_convs(2) trim_field_def)
      with Some diff False step g name clash show ?thesis by (simp add: compatible_step_def Let_def)
    qed
  qed
qed

lemma compatible_fold:
  assumes "merged_fields out" and "fold (compatible_step ref) additions (out, ds) = (out', ds')"
  shows "merged_fields out' \<and> (\<exists>suffix. out' = out @ suffix) \<and> (\<exists>new. ds' = ds @ new) \<and>
    (ds' = ds \<longleftrightarrow> (\<forall>f \<in> set additions. blank (of_Name f) \<or> trim_field f \<in> set out')) \<and>
    set (map of_Name out') = set (map of_Name out) \<union> (set (field_names additions) - {''''})"
  using assms
proof (induction additions arbitrary: out ds)
  case Nil
  then show ?case by (simp add: field_names_def)
next
  case (Cons f additions)
  obtain out1 ds1 where step: "compatible_step ref f (out, ds) = (out1, ds1)" by fastforce
  with Cons.prems have rest: "fold (compatible_step ref) additions (out1, ds1) = (out', ds')" by simp
  from Cons.prems(1) step show ?case
  proof (cases rule: compatible_step_cases)
    case blank
    with Cons.IH [of out1 ds1] Cons.prems(1) rest show ?thesis by (auto simp: field_names_def)
  next
    case new
    then have m1: "merged_fields out1" by simp
    from Cons.IH [OF m1 rest] new show ?thesis
      by (auto simp: field_names_def trim_field_def)
  next
    case same
    with Cons.prems(1) have m1: "merged_fields out1" by simp
    have "TrimSpace (of_Name f) \<in> of_Name ` set out"
      using same(4) by (force simp: trim_field_def)
    with Cons.IH [OF m1 rest] same show ?thesis by (auto simp: field_names_def)
  next
    case (clash g)
    with Cons.prems(1) have m1: "merged_fields out1" by simp
    note IH = Cons.IH [OF m1 rest]
    then have "g \<in> set out'" "merged_fields out'" using clash by auto
    then have "trim_field f \<notin> set out'"
      using merged_fields_unique [of out' g "trim_field f"] clash by (auto simp: trim_field_def)
    moreover have "TrimSpace (of_Name f) \<in> of_Name ` set out" using clash by force
    ultimately show ?thesis using IH clash by (auto simp: field_names_def)
  qed
qed

text \<open>
  Merging required fields keeps the fields already present, adds every new non-blank name
  once, and reports a conflict exactly when some added field disagrees with the merged list
  about the description: without diagnostics every added field is in the result as it was
  given, up to surrounding white space.
\<close>

theorem appendCompatibleOutputFields_spec:
  assumes "merged_fields existing" and "appendCompatibleOutputFields existing additions ref = (out, diagnostics)"
  shows "merged_fields out \<and> (\<exists>suffix. out = existing @ suffix) \<and>
    set (map of_Name out) = set (map of_Name existing) \<union> (set (field_names additions) - {''''}) \<and>
    (diagnostics = [] \<longleftrightarrow> (\<forall>f \<in> set additions. blank (of_Name f) \<or> trim_field f \<in> set out))"
  using compatible_fold [OF assms(1) assms(2) [unfolded appendCompatibleOutputFields_def]] by auto

section \<open>The invariant of the derived wiring\<close>

lemma mget_list_update [simp]: "mget_list (AList.update k v m) k' = (if k' = k then v else mget_list m k')"
  by (simp add: mget_list_def)

definition wiring_wf :: "DerivedWiring \<Rightarrow> bool" where
  "wiring_wf w \<longleftrightarrow>
     (\<forall>k. merged_fields (mget_list (requiredProvisionFieldsByEdge w) k)) \<and>
     (\<forall>k. merged_fields (mget_list (requiredProvisionFieldsByGroup w) k)) \<and>
     (\<forall>k. merged_fields (mget_list (possibleProvisionFieldsByNode w) k)) \<and>
     (\<forall>k. merged_fields (mget_list (requiredProviderFieldsByJoinEdge w) k)) \<and>
     (\<forall>k. merged_fields (mget_list (joinOutputFieldsByNode w) k)) \<and>
     (\<forall>k. merged_fields (mget_list (currentNodeOutputFieldsByGroup w) k))"

lemma appendCompatible_merged:
  "merged_fields existing \<Longrightarrow> appendCompatibleOutputFields existing additions ref = (out, ds) \<Longrightarrow> merged_fields out"
  using compatible_fold unfolding appendCompatibleOutputFields_def by blast

lemma appendUnique_merged: "merged_fields existing \<Longrightarrow> merged_fields (appendUniqueOutputFields existing additions)"
  using appendUniqueOutputFields_merged by blast

lemma wiring_wf_empty: "wiring_wf empty_wiring"
  by (simp add: wiring_wf_def empty_wiring_def)

lemma wiring_wf_other_fields [simp]:
  "wiring_wf (w\<lparr>Diagnostics := ds\<rparr>) = wiring_wf w"
  "wiring_wf (w\<lparr>inputBindingsByEdge := ib\<rparr>) = wiring_wf w"
  "wiring_wf (w\<lparr>parameterDependencyEdgesByEdge := pd\<rparr>) = wiring_wf w"
  "wiring_wf (w\<lparr>currentNodeInputBindingsByEdge := cb\<rparr>) = wiring_wf w"
  "wiring_wf (w\<lparr>priorParameterRequirementsByNode := pr\<rparr>) = wiring_wf w"
  "wiring_wf (w\<lparr>selectorApplicabilityByEdge := sa\<rparr>) = wiring_wf w"
  by (simp_all add: wiring_wf_def)

lemma addRequiredProvisionFields_wf: "wiring_wf w \<Longrightarrow> wiring_wf (addRequiredProvisionFields edgeID groupID fs w)"
  by (auto simp: addRequiredProvisionFields_def Let_def wiring_wf_def split: prod.splits dest: appendCompatible_merged [rotated])

lemma addPossibleProvisionFields_wf: "wiring_wf w \<Longrightarrow> wiring_wf (addPossibleProvisionFields nodeID fs ref w)"
  by (auto simp: addPossibleProvisionFields_def wiring_wf_def split: prod.splits dest: appendCompatible_merged [rotated])

lemma addRequiredProviderFields_wf: "wiring_wf w \<Longrightarrow> wiring_wf (addRequiredProviderFields edgeID fs ref w)"
  by (auto simp: addRequiredProviderFields_def wiring_wf_def split: prod.splits dest: appendCompatible_merged [rotated])

lemma addCurrentNodeOutputField_wf: "wiring_wf w \<Longrightarrow> wiring_wf (addCurrentNodeOutputField groupID f w)"
  by (auto simp: addCurrentNodeOutputField_def wiring_wf_def appendUnique_merged)

lemma addDiagnostic_wf [simp]: "wiring_wf (addDiagnostic code ref w) = wiring_wf w"
  by (simp add: addDiagnostic_def)

lemma selector_step_wf: "wiring_wf w \<Longrightarrow> wiring_wf (selector_step def catalog edge w)"
  by (simp add: selector_step_def Let_def split: option.splits)

lemma provision_step_wf: "wiring_wf w \<Longrightarrow> wiring_wf (provision_step def catalog edge w)"
  by (auto simp: provision_step_def Let_def split: option.splits
      intro!: addPossibleProvisionFields_wf addRequiredProvisionFields_wf)

lemma join_incoming_step_wf:
  "wiring_wf (js_wiring st) \<Longrightarrow> wiring_wf (js_wiring (join_incoming_step join nodes groups catalog edge st))"
  by (auto simp: join_incoming_step_def Let_def split: prod.splits intro: addRequiredProviderFields_wf)

lemma aggregate_step_wf:
  "wiring_wf (as_wiring st) \<and> merged_fields (as_aggregate st) \<Longrightarrow>
   wiring_wf (as_wiring (aggregate_step join gf st)) \<and> merged_fields (as_aggregate (aggregate_step join gf st))"
  by (auto simp: aggregate_step_def Let_def appendUnique_merged split: prod.splits option.splits)

lemma deriveJoinAggregateParameters_wf:
  assumes "wiring_wf w"
  shows "wiring_wf (deriveJoinAggregateParameters incoming nodes groups catalog join w)"
proof -
  let ?st = "fold (join_incoming_step join nodes groups catalog) (mget_list incoming (NodeIDOf join))
                 \<lparr>js_wiring = w, js_groupFields = [], js_groupOrder = []\<rparr>"
  have "wiring_wf (js_wiring ?st)"
    by (rule fold_invariant [where P = "\<lambda>st. wiring_wf (js_wiring st)"]) (simp_all add: join_incoming_step_wf assms)
  let ?ags = "fold (aggregate_step join)
                  (concat (map (\<lambda>g. map (Pair g) (mget_list (js_groupFields ?st) g)) (js_groupOrder ?st)))
                  \<lparr>as_wiring = js_wiring ?st, as_ownerByField = [], as_aggregate = []\<rparr>"
  have "wiring_wf (as_wiring ?ags) \<and> merged_fields (as_aggregate ?ags)"
    by (rule fold_invariant [where P = "\<lambda>st. wiring_wf (as_wiring st) \<and> merged_fields (as_aggregate st)"])
      (simp_all add: aggregate_step_wf \<open>wiring_wf (js_wiring ?st)\<close>)
  then show ?thesis by (auto simp: deriveJoinAggregateParameters_def Let_def wiring_wf_def)
qed

lemma dependency_step_wf: "wiring_wf w \<Longrightarrow> wiring_wf (dependency_step joinID outgoing provider w)"
  by (auto simp: dependency_step_def intro!: fold_invariant [where P = wiring_wf])

lemma deriveParameterDependencies_wf: "wiring_wf w \<Longrightarrow> wiring_wf (deriveParameterDependencies incoming outgoing w)"
  unfolding deriveParameterDependencies_def
  by (intro fold_invariant [where P = wiring_wf]) (auto intro: dependency_step_wf)

lemma current_values_wf: "wiring_wf w \<Longrightarrow> wiring_wf (current_values nodes edge g w)"
  by (auto simp: current_values_def Let_def split: option.splits
      intro!: fold_invariant [where P = wiring_wf] addCurrentNodeOutputField_wf)

lemma environment_step_wf:
  "wiring_wf (fst acc) \<Longrightarrow> wiring_wf (fst (environment_step def nodes groups outgoing refs start edge acc))"
  by (auto simp: environment_step_def Let_def split: prod.splits option.splits intro: current_values_wf)

lemma deriveCurrentNodeValueEnvironment_wf:
  assumes "wiring_wf w"
  shows "wiring_wf (deriveCurrentNodeValueEnvironment def nodes groups outgoing refs w)"
proof -
  let ?r = "fold (environment_step def nodes groups outgoing refs (singleStartNodeID (d_Nodes def))) (d_Edges def) (w, [])"
  have "wiring_wf (fst ?r)"
    by (rule fold_invariant [where P = "\<lambda>acc. wiring_wf (fst acc)"]) (simp_all add: environment_step_wf assms)
  then show ?thesis
    by (auto simp: deriveCurrentNodeValueEnvironment_def Let_def split: prod.splits
        intro!: fold_invariant [where P = wiring_wf])
qed

text \<open>
  C38: Every field list of the derived wiring (what an edge, a group or a node must or may
  provide, what the incoming edges of a join provide, the aggregate of a join, and the
  outputs of a group) is well formed: names are trimmed, not empty and pairwise different.
\<close>

theorem deriveWiring_wf: "wiring_wf (deriveWiring def catalog refs)"
  unfolding deriveWiring_def Let_def
  by (intro deriveCurrentNodeValueEnvironment_wf deriveParameterDependencies_wf fold_invariant [where P = wiring_wf])
    (auto intro: deriveJoinAggregateParameters_wf provision_step_wf selector_step_wf wiring_wf_empty)

section \<open>Prior parameters are guaranteed\<close>

lemma prior_requirement_Some:
  assumes "prior_requirement def nodes start outgoing consumer priorParam = Some r"
  shows "\<exists>g provider. g \<in> set (d_TransitionGroups def) \<and> dpr_providerTransitionGroupID r = tg_ID g \<and>
    TrimSpace (tg_TransitionID g) = ptp_TransitionKey (dpr_value r) \<and>
    map_of nodes (tg_SourceNodeID g) = Some provider \<and> NodeKey provider = ptp_ProviderNode (dpr_value r) \<and>
    ptp_ProviderNode (dpr_value r) \<noteq> '''' \<and> ptp_ParameterName (dpr_value r) = TrimSpace (ppp_ParameterKey priorParam)"
proof -
  from assms obtain g provider where g: "ptr_Guaranteed (resolvePriorParameterTransitionGroups (d_TransitionGroups def)
        (TrimSpace (ppp_TransitionKey priorParam)) (tg_SourceNodeID consumer) start outgoing) = [g]"
    "map_of nodes (tg_SourceNodeID g) = Some provider" "NodeKey provider \<noteq> ''''"
    "r = \<lparr>dpr_value = \<lparr>ptp_ProviderNode = NodeKey provider, ptp_TransitionKey = TrimSpace (ppp_TransitionKey priorParam),
            ptp_ParameterName = TrimSpace (ppp_ParameterKey priorParam)\<rparr>, dpr_providerTransitionGroupID = tg_ID g\<rparr>"
    unfolding prior_requirement_def Let_def
    by (auto split: if_splits list.splits option.splits)
  have "g \<in> set (ptr_Guaranteed (resolvePriorParameterTransitionGroups (d_TransitionGroups def)
        (TrimSpace (ppp_TransitionKey priorParam)) (tg_SourceNodeID consumer) start outgoing))"
    using g(1) by simp
  then have "g \<in> set (d_TransitionGroups def)" "TrimSpace (tg_TransitionID g) = TrimSpace (ppp_TransitionKey priorParam)"
    by (auto simp: resolve_prior_Guaranteed)
  with g show ?thesis by auto
qed

text \<open>What the map of prior requirements holds: each entry comes from a prompt reference of an
  edge into the node.\<close>

definition prior_ok ::
  "Definition \<Rightarrow> (NodeID, Node) gomap \<Rightarrow> prior_requirements \<Rightarrow> bool" where
  "prior_ok def nodes prior \<longleftrightarrow>
     (\<forall>n. \<forall>r \<in> set (mget_list prior n). \<exists>g provider.
        g \<in> set (d_TransitionGroups def) \<and> dpr_providerTransitionGroupID r = tg_ID g \<and>
        TrimSpace (tg_TransitionID g) = ptp_TransitionKey (dpr_value r) \<and>
        map_of nodes (tg_SourceNodeID g) = Some provider \<and> NodeKey provider = ptp_ProviderNode (dpr_value r))"

lemma prior_ok_step:
  assumes "prior_ok def nodes prior"
    and "prior_requirement def nodes start outgoing consumer priorParam = Some r"
  shows "prior_ok def nodes (AList.update n (append_unique (mget_list prior n) [r]) prior)"
  using assms(1) prior_requirement_Some [OF assms(2)] unfolding prior_ok_def by auto

lemma environment_step_prior_ok:
  assumes "prior_ok def nodes (snd acc)"
  shows "prior_ok def nodes (snd (environment_step def nodes groups outgoing refs start edge acc))"
  using assms
  by (auto simp: environment_step_def Let_def split: prod.splits option.splits
      intro!: fold_invariant [where P = "prior_ok def nodes"] prior_ok_step)

lemma environment_step_keeps:
  "priorParameterRequirementsByNode (fst (environment_step def nodes groups outgoing refs start edge acc)) =
   priorParameterRequirementsByNode (fst acc)"
  by (auto simp: environment_step_def current_values_def Let_def addCurrentNodeOutputField_def
      fold_keeps [where sel = priorParameterRequirementsByNode] split: prod.splits option.splits)

lemma set_node_requirements:
  "set (node_requirements start outgoing prior n) =
   dpr_value ` {r. \<exists>m \<in> set (reachableNodeIDs n outgoing). r \<in> set (mget_list prior m) \<and>
     transitionGroupDominates start (dpr_providerTransitionGroupID r) n outgoing}"
proof -
  have step: "set (fold (\<lambda>r out. append_unique out [dpr_value r]) rs out) = set out \<union> dpr_value ` set rs"
    for rs :: "derivedPriorParameterRequirement list" and out
    by (induction rs arbitrary: out) auto
  show ?thesis unfolding node_requirements_def step by auto
qed

lemma environment_requirements:
  "mget_list (priorParameterRequirementsByNode (deriveCurrentNodeValueEnvironment def nodes groups outgoing refs w)) n =
   (if n \<in> set (mkeys nodes)
    then node_requirements (fst (singleStartNodeID (d_Nodes def))) outgoing
           (snd (fold (environment_step def nodes groups outgoing refs (singleStartNodeID (d_Nodes def))) (d_Edges def) (w, []))) n
    else mget_list (priorParameterRequirementsByNode w) n)"
proof -
  let ?r = "fold (environment_step def nodes groups outgoing refs (singleStartNodeID (d_Nodes def))) (d_Edges def) (w, [])"
  let ?req = "node_requirements (fst (singleStartNodeID (d_Nodes def))) outgoing (snd ?r)"
  have keep: "priorParameterRequirementsByNode (fst ?r) = priorParameterRequirementsByNode w"
    using fold_keeps [where sel = "\<lambda>acc. priorParameterRequirementsByNode (fst acc)", OF environment_step_keeps] by fastforce
  have step: "mget_list (priorParameterRequirementsByNode (fold (\<lambda>nodeID v. v\<lparr>priorParameterRequirementsByNode :=
            AList.update nodeID (?req nodeID) (priorParameterRequirementsByNode v)\<rparr>) ks v)) n =
        (if n \<in> set ks then ?req n else mget_list (priorParameterRequirementsByNode v) n)" for ks v
    by (induction ks arbitrary: v) auto
  show ?thesis
    unfolding deriveCurrentNodeValueEnvironment_def Let_def case_prod_unfold step keep by simp
qed

lemma deriveJoin_keeps:
  "priorParameterRequirementsByNode (deriveJoinAggregateParameters incoming nodes groups catalog join w) =
   priorParameterRequirementsByNode w"
proof -
  have "priorParameterRequirementsByNode (js_wiring (join_incoming_step join nodes groups catalog e st)) =
      priorParameterRequirementsByNode (js_wiring st)" for e st
    by (simp add: join_incoming_step_def addRequiredProviderFields_def Let_def split: prod.splits)
  note 1 = fold_keeps [where sel = "\<lambda>st. priorParameterRequirementsByNode (js_wiring st)", OF this]
  have "priorParameterRequirementsByNode (as_wiring (aggregate_step join gf st)) =
      priorParameterRequirementsByNode (as_wiring st)" for gf st
    by (simp add: aggregate_step_def addDiagnostic_def Let_def split: prod.splits option.splits)
  note 2 = fold_keeps [where sel = "\<lambda>st. priorParameterRequirementsByNode (as_wiring st)", OF this]
  show ?thesis by (simp add: deriveJoinAggregateParameters_def Let_def 1 2)
qed

lemma deriveWiring_requirements_init:
  "priorParameterRequirementsByNode (deriveParameterDependencies incoming outgoing
     (fold (deriveJoinAggregateParameters incoming nodes groups catalog) joins
       (fold (provision_step def catalog) edges (fold (selector_step def catalog) edges w)))) =
   priorParameterRequirementsByNode w"
proof -
  let ?sel = priorParameterRequirementsByNode
  have dep: "?sel (dependency_step j outg p v) = ?sel v" for j outg p v
    by (simp add: dependency_step_def fold_keeps [where sel = ?sel])
  have "?sel (deriveParameterDependencies incoming outgoing v) = ?sel v" for v
    by (simp add: deriveParameterDependencies_def dep fold_keeps [where sel = ?sel])
  moreover have "?sel (selector_step def catalog e v) = ?sel v" for e v
    by (simp add: selector_step_def Let_def split: option.splits)
  moreover have "?sel (provision_step def catalog e v) = ?sel v" for e v
    by (simp add: provision_step_def addPossibleProvisionFields_def addRequiredProvisionFields_def Let_def
        split: option.splits prod.splits)
  moreover have "?sel (deriveJoinAggregateParameters incoming nodes groups catalog j v) = ?sel v" for j v
    by (rule deriveJoin_keeps)
  ultimately show ?thesis by (simp add: fold_keeps [where sel = ?sel])
qed

text \<open>
  C32: A prior parameter that a node depends on is always available: it is provided by a
  transition group of the definition with the required key, leaving the node the requirement
  names, and every walk from the start node to the dependent node takes an edge of that
  group.
\<close>

theorem priorParameterRequirements_guaranteed:
  assumes "r \<in> set (mget_list (priorParameterRequirementsByNode (deriveWiring def catalog refs)) n)"
  shows "\<exists>g provider. g \<in> set (d_TransitionGroups def) \<and>
    TrimSpace (tg_TransitionID g) = ptp_TransitionKey r \<and>
    map_of (wiring_nodes def) (tg_SourceNodeID g) = Some provider \<and> NodeKey provider = ptp_ProviderNode r \<and>
    (\<forall>es. walk (mget_list (index_outgoing (wiring_groups def) (d_Edges def)))
             (fst (singleStartNodeID (d_Nodes def))) es n \<longrightarrow> (\<exists>e \<in> set es. e_TransitionGroupID e = tg_ID g))"
proof -
  let ?nodes = "wiring_nodes def" and ?groups = "wiring_groups def"
  let ?out = "index_outgoing ?groups (d_Edges def)"
  let ?start = "singleStartNodeID (d_Nodes def)"
  define w0 where "w0 = deriveParameterDependencies (wiring_incoming def) ?out
     (fold (deriveJoinAggregateParameters (wiring_incoming def) ?nodes ?groups catalog)
        (filter (\<lambda>node. Kind node = NodeKindJoin) (d_Nodes def))
       (fold (provision_step def catalog) (d_Edges def) (fold (selector_step def catalog) (d_Edges def)
         (empty_wiring\<lparr>parameterDependencyEdgesByEdge :=
                 fold (\<lambda>edge. AList.update (e_ID edge) [e_ID edge]) (d_Edges def) []\<rparr>))))"
  define prior where "prior = snd (fold (environment_step def ?nodes ?groups ?out refs ?start) (d_Edges def) (w0, []))"
  have "priorParameterRequirementsByNode w0 = []"
    unfolding w0_def deriveWiring_requirements_init by (simp add: empty_wiring_def)
  moreover have "deriveWiring def catalog refs = deriveCurrentNodeValueEnvironment def ?nodes ?groups ?out refs w0"
    by (simp add: deriveWiring_def w0_def Let_def)
  ultimately have "r \<in> set (node_requirements (fst ?start) ?out prior n)"
    using assms by (simp add: environment_requirements prior_def split: if_splits)
  then obtain d m where d: "r = dpr_value d" "d \<in> set (mget_list prior m)"
    "transitionGroupDominates (fst ?start) (dpr_providerTransitionGroupID d) n ?out"
    by (auto simp: set_node_requirements)
  have "prior_ok def ?nodes prior"
    unfolding prior_def
    by (rule fold_invariant [where P = "\<lambda>acc. prior_ok def ?nodes (snd acc)"])
      (simp_all add: environment_step_prior_ok, simp add: prior_ok_def)
  with d(2) obtain g provider where "g \<in> set (d_TransitionGroups def)" "dpr_providerTransitionGroupID d = tg_ID g"
    "TrimSpace (tg_TransitionID g) = ptp_TransitionKey (dpr_value d)"
    "map_of ?nodes (tg_SourceNodeID g) = Some provider" "NodeKey provider = ptp_ProviderNode (dpr_value d)"
    unfolding prior_ok_def by blast
  with d(1,3) show ?thesis unfolding dominates_walks by auto
qed

end
