(* ===== verification/Wf_Current.thy ===== *)
theory Wf_Current
  imports Wf_Agents
begin

text \<open>
  Current nodes of a task: \<open>server/workflow/current_state.go\<close>, and the materialized
  continuation source and target session intent of \<open>server/workflow/retained_target.go\<close>.

  A session ID is a UUID (a 128-bit word, zero when unset). A time is its distance from Go's
  zero time, so \<open>IsZero\<close> is equality with 0. The protobuf message of an unavailable original
  target and its validator (\<open>protovalidate\<close>) are parameters: a type \<open>'lock\<close> and a predicate.
  Cloning copies what is behind a pointer and is the identity on values. JSON is modelled at
  the level of the wire structs: the byte encoding is the library's.
\<close>

section \<open>References\<close>

type_synonym SessionID = uuid

record CurrentNodeReference =
  cnr_TaskID :: TaskID
  cnr_NodeID :: NodeID
  cnr_transitionBranchKey :: "TransitionBranchKey option"

datatype CurrentNodeError =
    TaskIDRequired | NodeIDRequired | BranchKeyEmpty | DetailFieldNameRequired
  | TargetUnavailableInvalid TargetSelectionError | OriginalAndConfiguredTarget | OriginalTargetInvalid
  | InputNameRequired | PriorKeyRequired | PriorValuesRequired | PriorFieldNameRequired
  | SchedulingStateInvalid | InterruptionRequired | InterruptionReasonRequired
  | InterruptionTimeRequired | InterruptionForbidden
  | SessionIDZero | ContinuationSourceInvalid | SelectionInvalid AgentError | EdgeIDEmpty
  | ReusedSessionRequired | IntentInvalid

definition CurrentNodeReference_Validate :: "CurrentNodeReference \<Rightarrow> CurrentNodeError option" where
  "CurrentNodeReference_Validate r =
     (if cnr_TaskID r = '''' then Some TaskIDRequired
      else if cnr_NodeID r = '''' then Some NodeIDRequired
      else if cnr_transitionBranchKey r = Some '''' then Some BranchKeyEmpty
      else None)"

definition NewCurrentNodeReference ::
  "TaskID \<Rightarrow> NodeID \<Rightarrow> TransitionBranchKey option \<Rightarrow> CurrentNodeError + CurrentNodeReference" where
  "NewCurrentNodeReference taskID nodeID transitionBranchKey =
     (let ref = \<lparr>cnr_TaskID = TrimSpace taskID, cnr_NodeID = TrimSpace nodeID,
                 cnr_transitionBranchKey = map_option TrimSpace transitionBranchKey\<rparr> in
      case CurrentNodeReference_Validate ref of Some err \<Rightarrow> Inl err | None \<Rightarrow> Inr ref)"

text \<open>The Go method returns the key and a presence flag.\<close>

definition TransitionBranchKeyOf :: "CurrentNodeReference \<Rightarrow> TransitionBranchKey \<times> bool" where
  "TransitionBranchKeyOf r =
     (case cnr_transitionBranchKey r of None \<Rightarrow> ('''', False) | Some key \<Rightarrow> (key, True))"

definition CurrentNodeReference_Equal :: "CurrentNodeReference \<Rightarrow> CurrentNodeReference \<Rightarrow> bool" where
  "CurrentNodeReference_Equal r other =
     (if cnr_TaskID r \<noteq> cnr_TaskID other \<or> cnr_NodeID r \<noteq> cnr_NodeID other then False
      else case (TransitionBranchKeyOf r, TransitionBranchKeyOf other) of
             ((left, leftOK), (right, rightOK)) \<Rightarrow> leftOK = rightOK \<and> (\<not> leftOK \<or> left = right))"

definition IsBranchScoped :: "CurrentNodeReference \<Rightarrow> bool" where
  "IsBranchScoped r = snd (TransitionBranchKeyOf r)"

datatype CurrentNodeReferenceKey =
    serialCurrentNodeReferenceKey TaskID NodeID
  | branchCurrentNodeReferenceKey TaskID NodeID TransitionBranchKey

definition CurrentNodeReference_Key :: "CurrentNodeReference \<Rightarrow> CurrentNodeError + CurrentNodeReferenceKey" where
  "CurrentNodeReference_Key r =
     (case CurrentNodeReference_Validate r of
        Some err \<Rightarrow> Inl err
      | None \<Rightarrow>
         (case TransitionBranchKeyOf r of
            (branchKey, True) \<Rightarrow> Inr (branchCurrentNodeReferenceKey (cnr_TaskID r) (cnr_NodeID r) branchKey)
          | (_, False) \<Rightarrow> Inr (serialCurrentNodeReferenceKey (cnr_TaskID r) (cnr_NodeID r))))"


section \<open>Scheduling and interruption\<close>

datatype CurrentNodeSchedulingState =
    CurrentNodeSchedulingReady | CurrentNodeSchedulingAdmitted | CurrentNodeSchedulingInterrupted
  | CurrentNodeSchedulingFailed | CurrentNodeSchedulingOther string

definition IsActionableCurrentNodeInterruptionReason :: "string \<Rightarrow> bool" where
  "IsActionableCurrentNodeInterruptionReason reason \<longleftrightarrow>
     TrimSpace reason \<notin> set ['''', ''user_interrupt'', ''workflow_runtime_canceled'']"

record 'lock CurrentNodeInterruptionDetail =
  cid_Code :: string
  cid_Fields :: "(string, string) gomap"
  cid_ConfiguredExecutionTargetUnavailable :: "ConfiguredExecutionTargetUnavailable option"
  cid_OriginalExecutionTargetUnavailable :: "'lock option"

definition CurrentNodeInterruptionDetail_Validate ::
  "('lock \<Rightarrow> bool) \<Rightarrow> 'lock CurrentNodeInterruptionDetail \<Rightarrow> CurrentNodeError option" where
  "CurrentNodeInterruptionDetail_Validate protoOK d =
     (if list_ex blank (mkeys (cid_Fields d)) then Some DetailFieldNameRequired
      else case Option.bind (cid_ConfiguredExecutionTargetUnavailable d) ConfiguredExecutionTargetUnavailable_Validate of
        Some err \<Rightarrow> Some (TargetUnavailableInvalid err)
      | None \<Rightarrow>
         (case cid_OriginalExecutionTargetUnavailable d of
            None \<Rightarrow> None
          | Some lock \<Rightarrow>
             if cid_ConfiguredExecutionTargetUnavailable d \<noteq> None then Some OriginalAndConfiguredTarget
             else if \<not> protoOK lock then Some OriginalTargetInvalid else None))"

definition NewCurrentNodeInterruptionDetail :: "string \<Rightarrow> string option \<Rightarrow> 'lock CurrentNodeInterruptionDetail" where
  "NewCurrentNodeInterruptionDetail code diagnostic =
     \<lparr>cid_Code = TrimSpace code,
      cid_Fields = (case diagnostic of None \<Rightarrow> [] | Some text' \<Rightarrow> [(''error'', text')]),
      cid_ConfiguredExecutionTargetUnavailable = None, cid_OriginalExecutionTargetUnavailable = None\<rparr>"

definition Diagnostic :: "'lock CurrentNodeInterruptionDetail \<Rightarrow> string option" where
  "Diagnostic d =
     (case map_of (cid_Fields d) ''error'' of
        None \<Rightarrow> None
      | Some value \<Rightarrow> if blank value then None else Some value)"

record 'lock CurrentNodeInterruption =
  ci_Reason :: string
  ci_Detail :: "'lock CurrentNodeInterruptionDetail"
  ci_OccurredAt :: int

record 'lock CurrentNodeScheduling =
  sched_State :: CurrentNodeSchedulingState
  sched_Interruption :: "'lock CurrentNodeInterruption option"

definition validateCurrentNodeScheduling ::
  "('lock \<Rightarrow> bool) \<Rightarrow> 'lock CurrentNodeScheduling option \<Rightarrow> CurrentNodeError option" where
  "validateCurrentNodeScheduling protoOK scheduling =
     (case scheduling of
        None \<Rightarrow> None
      | Some s \<Rightarrow>
         (case sched_State s of
            CurrentNodeSchedulingOther _ \<Rightarrow> Some SchedulingStateInvalid
          | CurrentNodeSchedulingInterrupted \<Rightarrow>
             (case sched_Interruption s of
                None \<Rightarrow> Some InterruptionRequired
              | Some i \<Rightarrow>
                 if blank (ci_Reason i) then Some InterruptionReasonRequired
                 else if ci_OccurredAt i = 0 then Some InterruptionTimeRequired
                 else CurrentNodeInterruptionDetail_Validate protoOK (ci_Detail i))
          | _ \<Rightarrow> if sched_Interruption s \<noteq> None then Some InterruptionForbidden else None))"


section \<open>Continuation sources and session intents\<close>

datatype MaterializedContinuationSourceKind =
    MaterializedContinuationSourceExact | MaterializedContinuationSourceDeferredSelf
  | MaterializedContinuationSourceLegacy | MaterializedContinuationSourceAbsent
  | MaterializedContinuationSourceOther string

record MaterializedContinuationSource =
  mcs_kind :: MaterializedContinuationSourceKind
  mcs_sessionID :: "SessionID option"

definition NewExactMaterializedContinuationSource :: "SessionID \<Rightarrow> CurrentNodeError + MaterializedContinuationSource" where
  "NewExactMaterializedContinuationSource sessionID =
     (if IsZero sessionID then Inl ContinuationSourceInvalid
      else Inr \<lparr>mcs_kind = MaterializedContinuationSourceExact, mcs_sessionID = Some sessionID\<rparr>)"

definition DeferredSelfMaterializedContinuationSource :: MaterializedContinuationSource where
  "DeferredSelfMaterializedContinuationSource =
     \<lparr>mcs_kind = MaterializedContinuationSourceDeferredSelf, mcs_sessionID = None\<rparr>"

definition LegacyMaterializedContinuationSource :: MaterializedContinuationSource where
  "LegacyMaterializedContinuationSource = \<lparr>mcs_kind = MaterializedContinuationSourceLegacy, mcs_sessionID = None\<rparr>"

definition AbsentMaterializedContinuationSource :: MaterializedContinuationSource where
  "AbsentMaterializedContinuationSource = \<lparr>mcs_kind = MaterializedContinuationSourceAbsent, mcs_sessionID = None\<rparr>"

definition ExactSessionID :: "MaterializedContinuationSource \<Rightarrow> SessionID option" where
  "ExactSessionID s = (if mcs_kind s \<noteq> MaterializedContinuationSourceExact then None else mcs_sessionID s)"

definition MaterializedContinuationSource_Validate :: "MaterializedContinuationSource \<Rightarrow> CurrentNodeError option" where
  "MaterializedContinuationSource_Validate s =
     (case mcs_kind s of
        MaterializedContinuationSourceExact \<Rightarrow>
          (case mcs_sessionID s of
             None \<Rightarrow> Some ContinuationSourceInvalid
           | Some sessionID \<Rightarrow> if IsZero sessionID then Some ContinuationSourceInvalid else None)
      | MaterializedContinuationSourceOther _ \<Rightarrow> Some ContinuationSourceInvalid
      | _ \<Rightarrow> if mcs_sessionID s \<noteq> None then Some ContinuationSourceInvalid else None)"

text \<open>\<open>MarshalJSON\<close> and \<open>UnmarshalJSON\<close> to and from the wire struct: the kind and the optional
  session ID.\<close>

type_synonym materializedContinuationSourceWire = "MaterializedContinuationSourceKind \<times> SessionID option"

definition MaterializedContinuationSource_Marshal ::
  "MaterializedContinuationSource \<Rightarrow> CurrentNodeError + materializedContinuationSourceWire" where
  "MaterializedContinuationSource_Marshal s =
     (case MaterializedContinuationSource_Validate s of
        Some err \<Rightarrow> Inl err | None \<Rightarrow> Inr (mcs_kind s, mcs_sessionID s))"

definition MaterializedContinuationSource_Unmarshal ::
  "materializedContinuationSourceWire \<Rightarrow> CurrentNodeError + MaterializedContinuationSource" where
  "MaterializedContinuationSource_Unmarshal wire =
     (let decoded = \<lparr>mcs_kind = fst wire, mcs_sessionID = snd wire\<rparr> in
      case MaterializedContinuationSource_Validate decoded of Some err \<Rightarrow> Inl err | None \<Rightarrow> Inr decoded)"

datatype TargetSessionIntentKind =
    TargetSessionIntentReuse | TargetSessionIntentCreate | TargetSessionIntentNoAgent
  | TargetSessionIntentOther string

record TargetSessionIntent =
  tsi_kind :: TargetSessionIntentKind
  tsi_sessionID :: "SessionID option"

definition NewReuseTargetSessionIntent :: "SessionID \<Rightarrow> CurrentNodeError + TargetSessionIntent" where
  "NewReuseTargetSessionIntent sessionID =
     (if IsZero sessionID then Inl ReusedSessionRequired
      else Inr \<lparr>tsi_kind = TargetSessionIntentReuse, tsi_sessionID = Some sessionID\<rparr>)"

definition CreateTargetSessionIntent :: TargetSessionIntent where
  "CreateTargetSessionIntent = \<lparr>tsi_kind = TargetSessionIntentCreate, tsi_sessionID = None\<rparr>"

definition NoAgentTargetSessionIntent :: TargetSessionIntent where
  "NoAgentTargetSessionIntent = \<lparr>tsi_kind = TargetSessionIntentNoAgent, tsi_sessionID = None\<rparr>"

definition TargetSessionIntent_SessionID :: "TargetSessionIntent \<Rightarrow> SessionID option" where
  "TargetSessionIntent_SessionID i = (if tsi_kind i \<noteq> TargetSessionIntentReuse then None else tsi_sessionID i)"

definition TargetSessionIntent_Validate :: "TargetSessionIntent \<Rightarrow> CurrentNodeError option" where
  "TargetSessionIntent_Validate i =
     (case tsi_kind i of
        TargetSessionIntentReuse \<Rightarrow>
          (case tsi_sessionID i of
             None \<Rightarrow> Some IntentInvalid
           | Some sessionID \<Rightarrow> if IsZero sessionID then Some IntentInvalid else None)
      | TargetSessionIntentOther _ \<Rightarrow> Some IntentInvalid
      | _ \<Rightarrow> if tsi_sessionID i \<noteq> None then Some IntentInvalid else None)"

definition TargetSessionIntent_Marshal ::
  "TargetSessionIntent \<Rightarrow> CurrentNodeError + (TargetSessionIntentKind \<times> SessionID option)" where
  "TargetSessionIntent_Marshal i =
     (case TargetSessionIntent_Validate i of Some err \<Rightarrow> Inl err | None \<Rightarrow> Inr (tsi_kind i, tsi_sessionID i))"

definition TargetSessionIntent_Unmarshal ::
  "TargetSessionIntentKind \<times> SessionID option \<Rightarrow> CurrentNodeError + TargetSessionIntent" where
  "TargetSessionIntent_Unmarshal wire =
     (let decoded = \<lparr>tsi_kind = fst wire, tsi_sessionID = snd wire\<rparr> in
      case TargetSessionIntent_Validate decoded of Some err \<Rightarrow> Inl err | None \<Rightarrow> Inr decoded)"


section \<open>Current nodes\<close>

type_synonym prior_values = "(ModelKey, (string, string) gomap) gomap"

definition TransitionParameter :: "prior_values \<Rightarrow> ModelKey \<Rightarrow> string \<Rightarrow> string option" where
  "TransitionParameter v transitionKey parameterName =
     (case map_of v transitionKey of None \<Rightarrow> None | Some flds \<Rightarrow> map_of flds parameterName)"

definition SetTransitionParameter :: "ModelKey \<Rightarrow> string \<Rightarrow> string \<Rightarrow> prior_values \<Rightarrow> prior_values" where
  "SetTransitionParameter transitionKey parameterName value v =
     AList.update transitionKey
       (AList.update parameterName value (case map_of v transitionKey of None \<Rightarrow> [] | Some flds \<Rightarrow> flds)) v"

fun validateMaterializedPriorValueNamespace :: "prior_values \<Rightarrow> CurrentNodeError option" where
  "validateMaterializedPriorValueNamespace [] = None"
| "validateMaterializedPriorValueNamespace ((namespace, flds) # values) =
     (if blank namespace then Some PriorKeyRequired
      else if flds = [] then Some PriorValuesRequired
      else if list_ex blank (mkeys flds) then Some PriorFieldNameRequired
      else validateMaterializedPriorValueNamespace values)"

definition validateCurrentNodeValueEnvironment ::
  "(string, string) gomap \<Rightarrow> prior_values \<Rightarrow> CurrentNodeError option" where
  "validateCurrentNodeValueEnvironment currentInputValues priorValues =
     (if list_ex blank (mkeys currentInputValues) then Some InputNameRequired
      else validateMaterializedPriorValueNamespace priorValues)"

record 'lock CurrentNode =
  cn_Reference :: CurrentNodeReference
  cn_EnteredByEdgeID :: "EdgeID option"
  cn_CurrentInputValues :: "(string, string) gomap"
  cn_PriorValues :: prior_values
  cn_SessionID :: "SessionID option"
  cn_ContinuationSource :: MaterializedContinuationSource
  cn_Scheduling :: "'lock CurrentNodeScheduling option"
  cn_AgentExecutionSelection :: "AgentExecutionSelection option"

definition NewCurrentNodeWithMaterializedSource ::
  "('lock \<Rightarrow> bool) \<Rightarrow> CurrentNodeReference \<Rightarrow> (string, string) gomap \<Rightarrow> prior_values \<Rightarrow> SessionID option
   \<Rightarrow> MaterializedContinuationSource \<Rightarrow> 'lock CurrentNodeScheduling option \<Rightarrow> AgentExecutionSelection option
   \<Rightarrow> CurrentNodeError + 'lock CurrentNode" where
  "NewCurrentNodeWithMaterializedSource protoOK reference currentInputValues priorValues sessionID
       continuationSource scheduling selection =
     (case CurrentNodeReference_Validate reference of Some err \<Rightarrow> Inl err | None \<Rightarrow>
      case validateCurrentNodeValueEnvironment currentInputValues priorValues of Some err \<Rightarrow> Inl err | None \<Rightarrow>
      if (case sessionID of None \<Rightarrow> False | Some s \<Rightarrow> IsZero s) then Inl SessionIDZero
      else case MaterializedContinuationSource_Validate continuationSource of Some err \<Rightarrow> Inl err | None \<Rightarrow>
      case validateCurrentNodeScheduling protoOK scheduling of Some err \<Rightarrow> Inl err | None \<Rightarrow>
      case Option.bind selection AgentExecutionSelection_Validate of
        Some err \<Rightarrow> Inl (SelectionInvalid err)
      | None \<Rightarrow> Inr \<lparr>cn_Reference = reference, cn_EnteredByEdgeID = None,
                     cn_CurrentInputValues = currentInputValues, cn_PriorValues = priorValues,
                     cn_SessionID = sessionID, cn_ContinuationSource = continuationSource,
                     cn_Scheduling = scheduling, cn_AgentExecutionSelection = selection\<rparr>)"

definition NewCurrentNodeWithExecutionSelection ::
  "('lock \<Rightarrow> bool) \<Rightarrow> CurrentNodeReference \<Rightarrow> (string, string) gomap \<Rightarrow> prior_values \<Rightarrow> SessionID option
   \<Rightarrow> 'lock CurrentNodeScheduling option \<Rightarrow> AgentExecutionSelection option
   \<Rightarrow> CurrentNodeError + 'lock CurrentNode" where
  "NewCurrentNodeWithExecutionSelection protoOK reference currentInputValues priorValues sessionID scheduling selection =
     NewCurrentNodeWithMaterializedSource protoOK reference currentInputValues priorValues sessionID
       AbsentMaterializedContinuationSource scheduling selection"

definition NewCurrentNodeWithMaterializedValues ::
  "('lock \<Rightarrow> bool) \<Rightarrow> CurrentNodeReference \<Rightarrow> (string, string) gomap \<Rightarrow> prior_values \<Rightarrow> SessionID option
   \<Rightarrow> 'lock CurrentNodeScheduling option \<Rightarrow> CurrentNodeError + 'lock CurrentNode" where
  "NewCurrentNodeWithMaterializedValues protoOK reference currentInputValues priorValues sessionID scheduling =
     NewCurrentNodeWithExecutionSelection protoOK reference currentInputValues priorValues sessionID scheduling None"

definition NewCurrentNode ::
  "('lock \<Rightarrow> bool) \<Rightarrow> CurrentNodeReference \<Rightarrow> SessionID option \<Rightarrow> 'lock CurrentNodeScheduling option
   \<Rightarrow> CurrentNodeError + 'lock CurrentNode" where
  "NewCurrentNode protoOK reference sessionID scheduling =
     NewCurrentNodeWithMaterializedValues protoOK reference [] [] sessionID scheduling"

definition NewCurrentNodeWithEntry ::
  "('lock \<Rightarrow> bool) \<Rightarrow> CurrentNodeReference \<Rightarrow> EdgeID option \<Rightarrow> (string, string) gomap \<Rightarrow> prior_values
   \<Rightarrow> SessionID option \<Rightarrow> 'lock CurrentNodeScheduling option \<Rightarrow> CurrentNodeError + 'lock CurrentNode" where
  "NewCurrentNodeWithEntry protoOK reference enteredByEdgeID currentInputValues priorValues sessionID scheduling =
     (case NewCurrentNodeWithMaterializedValues protoOK reference currentInputValues priorValues sessionID scheduling of
        Inl err \<Rightarrow> Inl err
      | Inr node \<Rightarrow>
         (case enteredByEdgeID of
            None \<Rightarrow> Inr node
          | Some raw \<Rightarrow>
             let edgeID = TrimSpace raw in
             if edgeID = '''' then Inl EdgeIDEmpty else Inr (node\<lparr>cn_EnteredByEdgeID := Some edgeID\<rparr>)))"

section \<open>Properties\<close>

text \<open>
  The canonical key of a current-node reference identifies it: two valid references have
  the same key exactly when \<open>Equal\<close> holds, and that is when they are the same reference. A
  branch-scoped reference never shares a key with a serial one.
\<close>

theorem CurrentNodeReference_Key_identity:
  assumes "CurrentNodeReference_Validate r = None" and "CurrentNodeReference_Validate r' = None"
  shows "(CurrentNodeReference_Key r = CurrentNodeReference_Key r' \<longleftrightarrow> CurrentNodeReference_Equal r r') \<and>
    (CurrentNodeReference_Equal r r' \<longleftrightarrow> r = r')"
  using assms
  by (cases r; cases r')
    (auto simp: CurrentNodeReference_Key_def CurrentNodeReference_Equal_def TransitionBranchKeyOf_def
      split: option.splits)

lemma NewCurrentNodeReference_valid:
  "NewCurrentNodeReference taskID nodeID branch = Inr ref \<Longrightarrow> CurrentNodeReference_Validate ref = None"
  by (auto simp: NewCurrentNodeReference_def Let_def split: option.splits)

text \<open>The invariant of a current node: everything its constructors validate.\<close>

definition prior_values_ok :: "prior_values \<Rightarrow> bool" where
  "prior_values_ok v \<longleftrightarrow>
     list_all (\<lambda>(namespace, flds). \<not> blank namespace \<and> flds \<noteq> [] \<and> list_all (\<lambda>k. \<not> blank k) (mkeys flds)) v"

definition scheduling_ok :: "('lock \<Rightarrow> bool) \<Rightarrow> 'lock CurrentNodeScheduling option \<Rightarrow> bool" where
  "scheduling_ok protoOK scheduling \<longleftrightarrow>
     (case scheduling of
        None \<Rightarrow> True
      | Some s \<Rightarrow>
         (case sched_Interruption s of
            None \<Rightarrow> sched_State s \<in> {CurrentNodeSchedulingReady, CurrentNodeSchedulingAdmitted, CurrentNodeSchedulingFailed}
          | Some i \<Rightarrow> sched_State s = CurrentNodeSchedulingInterrupted \<and> \<not> blank (ci_Reason i) \<and> ci_OccurredAt i \<noteq> 0 \<and>
             CurrentNodeInterruptionDetail_Validate protoOK (ci_Detail i) = None))"

definition continuation_source_ok :: "MaterializedContinuationSource \<Rightarrow> bool" where
  "continuation_source_ok s \<longleftrightarrow>
     (case mcs_sessionID s of
        None \<Rightarrow> mcs_kind s \<in> {MaterializedContinuationSourceDeferredSelf,
                  MaterializedContinuationSourceLegacy, MaterializedContinuationSourceAbsent}
      | Some sid \<Rightarrow> sid \<noteq> 0 \<and> mcs_kind s = MaterializedContinuationSourceExact)"

definition reference_ok :: "CurrentNodeReference \<Rightarrow> bool" where
  "reference_ok r \<longleftrightarrow>
     cnr_TaskID r \<noteq> '''' \<and> cnr_NodeID r \<noteq> '''' \<and> cnr_transitionBranchKey r \<noteq> Some ''''"

definition values_ok :: "(string, string) gomap \<Rightarrow> prior_values \<Rightarrow> bool" where
  "values_ok inputs prior \<longleftrightarrow> list_all (\<lambda>k. \<not> blank k) (mkeys inputs) \<and> prior_values_ok prior"

definition selection_ok :: "AgentExecutionSelection option \<Rightarrow> bool" where
  "selection_ok selection \<longleftrightarrow>
     (case selection of None \<Rightarrow> True | Some s \<Rightarrow> AgentExecutionSelection_Validate s = None)"

definition current_node_ok :: "('lock \<Rightarrow> bool) \<Rightarrow> 'lock CurrentNode \<Rightarrow> bool" where
  "current_node_ok protoOK node \<longleftrightarrow>
     reference_ok (cn_Reference node) \<and> cn_EnteredByEdgeID node \<noteq> Some '''' \<and>
     values_ok (cn_CurrentInputValues node) (cn_PriorValues node) \<and> cn_SessionID node \<noteq> Some 0 \<and>
     continuation_source_ok (cn_ContinuationSource node) \<and> scheduling_ok protoOK (cn_Scheduling node) \<and>
     selection_ok (cn_AgentExecutionSelection node)"

lemma validateMaterializedPriorValueNamespace_iff:
  "validateMaterializedPriorValueNamespace v = None \<longleftrightarrow> prior_values_ok v"
  by (induction v rule: validateMaterializedPriorValueNamespace.induct)
    (auto simp: prior_values_ok_def list_ex_iff list_all_iff)

lemma validateCurrentNodeScheduling_iff:
  "validateCurrentNodeScheduling protoOK scheduling = None \<longleftrightarrow> scheduling_ok protoOK scheduling"
  unfolding scheduling_ok_def
  by (auto simp: validateCurrentNodeScheduling_def split: option.splits CurrentNodeSchedulingState.splits)

lemma MaterializedContinuationSource_Validate_iff:
  "MaterializedContinuationSource_Validate s = None \<longleftrightarrow> continuation_source_ok s"
  unfolding continuation_source_ok_def
  by (auto simp: MaterializedContinuationSource_Validate_def IsZero_def
      split: option.splits MaterializedContinuationSourceKind.splits)

lemma CurrentNodeReference_Validate_iff:
  "CurrentNodeReference_Validate reference = None \<longleftrightarrow> reference_ok reference"
  by (simp add: CurrentNodeReference_Validate_def reference_ok_def)

lemma validateCurrentNodeValueEnvironment_iff:
  "validateCurrentNodeValueEnvironment inputs prior = None \<longleftrightarrow> values_ok inputs prior"
  by (auto simp: validateCurrentNodeValueEnvironment_def validateMaterializedPriorValueNamespace_iff
      values_ok_def list_ex_iff list_all_iff)

lemma zero_session_iff:
  "(case sessionID of None \<Rightarrow> False | Some s \<Rightarrow> IsZero s) \<longleftrightarrow> sessionID = Some 0"
  by (simp add: IsZero_def split: option.splits)

lemma selection_bind_iff:
  "Option.bind selection AgentExecutionSelection_Validate = None \<longleftrightarrow> selection_ok selection"
  by (simp add: selection_ok_def split: option.splits)

lemmas current_node_checks =
  validateMaterializedPriorValueNamespace_iff validateCurrentNodeScheduling_iff
  MaterializedContinuationSource_Validate_iff CurrentNodeReference_Validate_iff
  validateCurrentNodeValueEnvironment_iff zero_session_iff selection_bind_iff

lemma option_case_None_Inr:
  "(case x of Some err \<Rightarrow> Inl (f err) | None \<Rightarrow> y) = Inr node \<longleftrightarrow> x = None \<and> y = Inr node"
  by (cases x) simp_all

lemma if_Inl_Inr: "(if c then Inl err else y) = Inr node \<longleftrightarrow> \<not> c \<and> y = Inr node"
  by simp

lemma NewCurrentNodeWithMaterializedSource_iff:
  "NewCurrentNodeWithMaterializedSource protoOK reference inputs prior sessionID source scheduling selection = Inr node \<longleftrightarrow>
   current_node_ok protoOK node \<and>
   node = \<lparr>cn_Reference = reference, cn_EnteredByEdgeID = None, cn_CurrentInputValues = inputs,
           cn_PriorValues = prior, cn_SessionID = sessionID, cn_ContinuationSource = source,
           cn_Scheduling = scheduling, cn_AgentExecutionSelection = selection\<rparr>"
  unfolding NewCurrentNodeWithMaterializedSource_def option_case_None_Inr if_Inl_Inr current_node_checks
    current_node_ok_def
  unfolding sum.inject by (intro iffI; elim conjE; hypsubst; simp)

lemma NewCurrentNodeWithMaterializedValues_iff:
  "NewCurrentNodeWithMaterializedValues protoOK reference inputs prior sessionID scheduling = Inr node \<longleftrightarrow>
   current_node_ok protoOK node \<and>
   node = \<lparr>cn_Reference = reference, cn_EnteredByEdgeID = None, cn_CurrentInputValues = inputs,
           cn_PriorValues = prior, cn_SessionID = sessionID,
           cn_ContinuationSource = AbsentMaterializedContinuationSource,
           cn_Scheduling = scheduling, cn_AgentExecutionSelection = None\<rparr>"
  unfolding NewCurrentNodeWithMaterializedValues_def NewCurrentNodeWithExecutionSelection_def
  by (rule NewCurrentNodeWithMaterializedSource_iff)

text \<open>
  The constructors of a current node accept exactly the well-formed arguments. A node is
  returned only if it satisfies the invariant (identifiers present, names not blank, an
  interruption exactly on an interrupted node, a session exactly on an exact continuation
  source, a valid agent selection), and it then holds the arguments unchanged.
\<close>

theorem NewCurrentNodeWithEntry_iff:
  "NewCurrentNodeWithEntry protoOK reference edgeID inputs prior sessionID scheduling = Inr node \<longleftrightarrow>
   current_node_ok protoOK node \<and>
   node = \<lparr>cn_Reference = reference, cn_EnteredByEdgeID = map_option TrimSpace edgeID, cn_CurrentInputValues = inputs,
           cn_PriorValues = prior, cn_SessionID = sessionID,
           cn_ContinuationSource = AbsentMaterializedContinuationSource,
           cn_Scheduling = scheduling, cn_AgentExecutionSelection = None\<rparr>"
proof (cases "NewCurrentNodeWithMaterializedValues protoOK reference inputs prior sessionID scheduling")
  case (Inl err)
  let ?n = "\<lparr>cn_Reference = reference, cn_EnteredByEdgeID = None, cn_CurrentInputValues = inputs,
           cn_PriorValues = prior, cn_SessionID = sessionID,
           cn_ContinuationSource = AbsentMaterializedContinuationSource,
           cn_Scheduling = scheduling, cn_AgentExecutionSelection = None\<rparr>"
  have "\<not> current_node_ok protoOK ?n"
    using Inl NewCurrentNodeWithMaterializedValues_iff [of protoOK reference inputs prior sessionID scheduling ?n]
    by simp
  then show ?thesis
    using Inl by (auto simp: NewCurrentNodeWithEntry_def current_node_ok_def)
next
  case (Inr n)
  then have n: "current_node_ok protoOK n"
    "n = \<lparr>cn_Reference = reference, cn_EnteredByEdgeID = None, cn_CurrentInputValues = inputs,
           cn_PriorValues = prior, cn_SessionID = sessionID,
           cn_ContinuationSource = AbsentMaterializedContinuationSource,
           cn_Scheduling = scheduling, cn_AgentExecutionSelection = None\<rparr>"
    using NewCurrentNodeWithMaterializedValues_iff by blast+
  show ?thesis
  proof (cases edgeID)
    case None
    then show ?thesis using Inr n by (auto simp: NewCurrentNodeWithEntry_def)
  next
    case (Some raw)
    then show ?thesis using Inr n by (auto simp: NewCurrentNodeWithEntry_def Let_def current_node_ok_def)
  qed
qed

lemma MaterializedContinuationSource_wire:
  "MaterializedContinuationSource_Marshal s = Inr wire \<longleftrightarrow> MaterializedContinuationSource_Unmarshal wire = Inr s"
  unfolding MaterializedContinuationSource_Marshal_def MaterializedContinuationSource_Unmarshal_def Let_def
    option_case_None_Inr by (cases wire; cases s) auto

lemma TargetSessionIntent_wire:
  "TargetSessionIntent_Marshal s = Inr wire \<longleftrightarrow> TargetSessionIntent_Unmarshal wire = Inr s"
  unfolding TargetSessionIntent_Marshal_def TargetSessionIntent_Unmarshal_def Let_def
    option_case_None_Inr by (cases wire; cases s) auto

text \<open>
  Encoding and decoding are inverse: a continuation source, and a target session intent,
  that validates is read back from its wire form unchanged, and decoding accepts no wire
  value that encoding would not produce.
\<close>

theorem session_wire_roundtrip:
  "(MaterializedContinuationSource_Marshal s = Inr wire \<longleftrightarrow> MaterializedContinuationSource_Unmarshal wire = Inr s) \<and>
   (TargetSessionIntent_Marshal i = Inr iwire \<longleftrightarrow> TargetSessionIntent_Unmarshal iwire = Inr i)"
  by (intro conjI MaterializedContinuationSource_wire TargetSessionIntent_wire)

text \<open>
  Materialized prior values behave as a two-level store: after setting a parameter, it has
  the value set, and every other parameter is unchanged.
\<close>

theorem SetTransitionParameter_lookup:
  "TransitionParameter (SetTransitionParameter k p v m) k' p' =
     (if k' = k \<and> p' = p then Some v else TransitionParameter m k' p')"
  by (simp add: TransitionParameter_def SetTransitionParameter_def split: option.splits)

end
