(* ===== verification/Wf_Session_Reuse.thy ===== *)
theory Wf_Session_Reuse
  imports Wf_Fanout Wf_Current "HOL-Library.While_Combinator"
begin

text \<open>
  Session reuse: \<open>server/workflow/session_reuse_analysis.go\<close>. The analysis explores the path
  states reachable from a completed agent node (or, for static validation, from the start
  node) and decides whether the completed session may, or must, be selected again.

  Path states, transitions and the analyzer are records. Go maps are association lists; a
  nil and an empty map are the same list, as the code never tells them apart. The analyzer is
  passed by value but shares its map \<open>staticInvalidEdges\<close>: that map is threaded through the
  functions that write it. The two worklist loops and the fixpoint loop are \<open>while_option\<close>,
  so a loop that would not end has the value \<open>None\<close>; that they end is proved in
  \<open>Wf_Session_Reuse_Props\<close>. The map \<open>queued\<close> holds exactly the members of \<open>queue\<close>, so
  membership in the queue stands for it.
\<close>

section \<open>Path states\<close>

datatype SessionReuseClassification =
    SessionReuseNone | SessionReuseThresholdPossibleReuse | SessionReuseGuaranteedCACReuse

record SessionReuseAssociation =
  sra_SessionID :: SessionID
  sra_CurrentNode :: CurrentNodeReference

record 'lock SessionReuseAnalysisInput =
  in_Workflow :: Definition
  in_AcceptedBranches :: "Edge list"
  in_CompletedCurrentNode :: "'lock CurrentNode"
  in_RetainedAssociations :: "SessionReuseAssociation list"

datatype reuseLineage =
    reuseLineageAbsent | reuseLineageCompleted | reuseLineageOther | reuseLineageUnknown

record reuseBranch =
  rb_key :: TransitionBranchKey
  rb_scoped :: bool

abbreviation no_branch :: reuseBranch where
  "no_branch \<equiv> \<lparr>rb_key = '''', rb_scoped = False\<rparr>"

datatype reuseJoinMode = reuseJoinPartial | reuseJoinComplete

record reuseOverwriteKey =
  ok_nodeID :: NodeID
  ok_branch :: reuseBranch

datatype reuseOverwriteStatus = reuseOverwriteMaybe | reuseOverwriteDefinite

type_synonym overwritten_map = "(reuseOverwriteKey, reuseOverwriteStatus) gomap"

datatype staticContinuationSourceKind =
    staticContinuationSourceAbsent | staticContinuationSourceExact | staticContinuationSourceDivergent

record staticContinuationSource =
  scs_kind :: staticContinuationSourceKind
  scs_nodeID :: NodeID
  scs_branch :: reuseBranch

definition static_source :: "staticContinuationSourceKind \<Rightarrow> staticContinuationSource" where
  "static_source kind = \<lparr>scs_kind = kind, scs_nodeID = '''', scs_branch = no_branch\<rparr>"

record staticFanout =
  sf_joinID :: NodeID
  sf_siblings :: "TransitionBranchKey list"

record reuseFanoutEntryState =
  fe_currentLineage :: reuseLineage
  fe_activeSourceSessionID :: SessionID
  fe_activeSourceKnown :: bool
  fe_completedDormant :: bool
  fe_staticSource :: staticContinuationSource

record staticFanoutInvocation =
  fi_groupID :: TransitionGroupID
  fi_incomingBranch :: reuseBranch
  fi_entry :: reuseFanoutEntryState
  fi_sibling :: TransitionBranchKey
  fi_joinID :: NodeID

record staticFanoutInvocationKey =
  fk_groupID :: TransitionGroupID
  fk_incomingBranch :: reuseBranch
  fk_entry :: reuseFanoutEntryState
  fk_joinID :: NodeID

definition aggregationKey :: "staticFanoutInvocation \<Rightarrow> staticFanoutInvocationKey" where
  "aggregationKey i =
     \<lparr>fk_groupID = fi_groupID i, fk_incomingBranch = fi_incomingBranch i, fk_entry = fi_entry i,
      fk_joinID = fi_joinID i\<rparr>"

definition no_invocation :: staticFanoutInvocation where
  "no_invocation =
     \<lparr>fi_groupID = '''', fi_incomingBranch = no_branch,
      fi_entry = \<lparr>fe_currentLineage = reuseLineageAbsent, fe_activeSourceSessionID = 0,
                  fe_activeSourceKnown = False, fe_completedDormant = False,
                  fe_staticSource = static_source staticContinuationSourceAbsent\<rparr>,
      fi_sibling = '''', fi_joinID = ''''\<rparr>"

record reusePathState =
  rs_nodeID :: NodeID
  rs_branch :: reuseBranch
  rs_currentLineage :: reuseLineage
  rs_activeSourceSessionID :: SessionID
  rs_activeSourceKnown :: bool
  rs_completedDormant :: bool
  rs_dormancyBlocked :: bool
  rs_overwritten :: overwritten_map
  rs_staticSource :: staticContinuationSource
  rs_staticInvocation :: staticFanoutInvocation
  rs_joinMode :: reuseJoinMode

definition zero_state :: reusePathState where
  "zero_state =
     \<lparr>rs_nodeID = '''', rs_branch = no_branch, rs_currentLineage = reuseLineageAbsent,
      rs_activeSourceSessionID = 0, rs_activeSourceKnown = False, rs_completedDormant = False,
      rs_dormancyBlocked = False, rs_overwritten = [],
      rs_staticSource = static_source staticContinuationSourceAbsent,
      rs_staticInvocation = no_invocation, rs_joinMode = reuseJoinPartial\<rparr>"

record reuseTransition =
  rt_target :: reusePathState
  rt_possibleReuse :: bool
  rt_guaranteedCAC :: bool

record reuseGroup =
  rg_transitions :: "reuseTransition list"

record 'lock sessionReuseAnalyzer =
  an_input :: "'lock SessionReuseAnalysisInput"
  an_completedSessionID :: SessionID
  an_nodesByID :: "(NodeID, Node) gomap"
  an_nodeIDsByKey :: "(ModelKey, NodeID) gomap"
  an_groupsBySource :: "(NodeID, TransitionGroup list) gomap"
  an_edgesByGroup :: "(TransitionGroupID, Edge list) gomap"
  an_staticValidation :: bool
  an_staticFanouts :: "(TransitionGroupID, staticFanout) gomap"

definition fanoutEntryState :: "reusePathState \<Rightarrow> reuseFanoutEntryState" where
  "fanoutEntryState state =
     \<lparr>fe_currentLineage = rs_currentLineage state,
      fe_activeSourceSessionID = rs_activeSourceSessionID state,
      fe_activeSourceKnown = rs_activeSourceKnown state,
      fe_completedDormant = rs_completedDormant state,
      fe_staticSource = rs_staticSource state\<rparr>"

definition sameReusePathState :: "reusePathState \<Rightarrow> reusePathState \<Rightarrow> bool" where
  "sameReusePathState left right \<longleftrightarrow>
     \<not> (rs_nodeID left \<noteq> rs_nodeID right \<or> rs_branch left \<noteq> rs_branch right \<or>
        rs_currentLineage left \<noteq> rs_currentLineage right \<or>
        rs_activeSourceSessionID left \<noteq> rs_activeSourceSessionID right \<or>
        rs_activeSourceKnown left \<noteq> rs_activeSourceKnown right \<or>
        rs_staticSource left \<noteq> rs_staticSource right \<or>
        rs_staticInvocation left \<noteq> rs_staticInvocation right \<or>
        rs_joinMode left \<noteq> rs_joinMode right \<or>
        rs_completedDormant left \<noteq> rs_completedDormant right \<or>
        rs_dormancyBlocked left \<noteq> rs_dormancyBlocked right)"

fun graphStateID :: "reusePathState \<Rightarrow> reusePathState list \<Rightarrow> nat option" where
  "graphStateID state [] = None"
| "graphStateID state (candidate # states) =
     (if sameReusePathState candidate state then Some 0 else map_option Suc (graphStateID state states))"


section \<open>Branches\<close>

definition reuseBranchForReference :: "CurrentNodeReference \<Rightarrow> reuseBranch" where
  "reuseBranchForReference reference =
     (case TransitionBranchKeyOf reference of (key, scoped) \<Rightarrow> \<lparr>rb_key = key, rb_scoped = scoped\<rparr>)"

definition transitionBranchPointer :: "CurrentNodeReference \<Rightarrow> TransitionBranchKey option" where
  "transitionBranchPointer reference =
     (case TransitionBranchKeyOf reference of (branch, scoped) \<Rightarrow> if \<not> scoped then None else Some branch)"

definition sameReuseBranch :: "reuseBranch \<Rightarrow> CurrentNodeReference \<Rightarrow> bool" where
  "sameReuseBranch branch reference =
     (case TransitionBranchKeyOf reference of
        (associationBranch, associationScoped) \<Rightarrow>
          if rb_scoped branch \<noteq> associationScoped then False
          else \<not> rb_scoped branch \<or> rb_key branch = associationBranch)"

definition acceptedBranchesFanout :: "Edge list \<Rightarrow> bool" where
  "acceptedBranchesFanout edges =
     (case edges of
        first # second # rest \<Rightarrow>
          list_all (\<lambda>edge. e_TransitionGroupID edge = e_TransitionGroupID first) (second # rest)
      | _ \<Rightarrow> False)"

definition nextReuseBranch :: "reuseBranch \<Rightarrow> Edge \<Rightarrow> Node \<Rightarrow> nat \<Rightarrow> reuseBranch" where
  "nextReuseBranch current edge target groupEdgeCount =
     (if Kind target = NodeKindJoin then no_branch
      else let key = TrimSpace (e_Key edge) in
           if groupEdgeCount > 1 \<and> key \<noteq> '''' then \<lparr>rb_key = key, rb_scoped = True\<rparr>
           else current)"

definition reuseContextLookupBranch ::
  "reuseBranch \<Rightarrow> reuseBranch \<Rightarrow> ContextSource \<Rightarrow> reuseBranch \<times> bool" where
  "reuseContextLookupBranch sourceBranch targetBranch source =
     (let kind = cs_Kind (CanonicalContextSource source) in
      if kind = ContextSourceSelectedNode then (sourceBranch, True)
      else if kind = ContextSourcePreviousTarget \<or> kind = ContextSourcePreviousTargetOrNew
      then (targetBranch, True)
      else (no_branch, False))"

definition isRetainedTargetContextSource :: "ContextSource \<Rightarrow> bool" where
  "isRetainedTargetContextSource source =
     (let kind = cs_Kind (CanonicalContextSource source) in
      kind = ContextSourcePreviousTarget \<or> kind = ContextSourcePreviousTargetOrNew)"


section \<open>Applying an edge to a path state\<close>

text \<open>\<open>cloneOverwritten\<close> copies a map. The result is the same list; a model of it would be the
  identity, so it has no definition of its own.\<close>

definition newest_association ::
  "TaskID \<Rightarrow> reuseBranch \<Rightarrow> NodeID \<Rightarrow> SessionReuseAssociation list \<Rightarrow> SessionReuseAssociation option" where
  "newest_association taskID branch nodeID associations =
     find (\<lambda>association.
             \<not> (cnr_TaskID (sra_CurrentNode association) \<noteq> taskID \<or>
                cnr_NodeID (sra_CurrentNode association) \<noteq> nodeID \<or>
                \<not> sameReuseBranch branch (sra_CurrentNode association)))
       (rev associations)"

text \<open>The result is the lineage, the association when one was returned, and whether an
  association was found on the path.\<close>

definition associatedLineage ::
  "'lock sessionReuseAnalyzer \<Rightarrow> reusePathState \<Rightarrow> reuseBranch \<Rightarrow> NodeID \<Rightarrow> bool
   \<Rightarrow> reuseLineage \<times> SessionReuseAssociation option \<times> bool" where
  "associatedLineage a state branch nodeID optional =
     (let status = map_of (rs_overwritten state) \<lparr>ok_nodeID = nodeID, ok_branch = branch\<rparr> in
      if status = Some reuseOverwriteDefinite then (reuseLineageOther, None, True)
      else case newest_association (cnr_TaskID (cn_Reference (in_CompletedCurrentNode (an_input a)))) branch nodeID
                  (in_RetainedAssociations (an_input a)) of
             Some association \<Rightarrow>
               if sra_SessionID association = an_completedSessionID a then
                 (if status = Some reuseOverwriteMaybe then (reuseLineageUnknown, Some association, True)
                  else (reuseLineageCompleted, Some association, True))
               else (reuseLineageOther, Some association, True)
           | None \<Rightarrow>
               if status \<noteq> None then (reuseLineageOther, None, True)
               else if optional then (reuseLineageOther, None, False)
               else (reuseLineageAbsent, None, False))"

definition association_session :: "SessionReuseAssociation option \<Rightarrow> SessionID" where
  "association_session association = (case association of None \<Rightarrow> 0 | Some x \<Rightarrow> sra_SessionID x)"

text \<open>The result is the lineage at the target, the active source session, whether it is known,
  and whether a context was selected at all.\<close>

definition resolveContextSource ::
  "'lock sessionReuseAnalyzer \<Rightarrow> reusePathState \<Rightarrow> ContextSource \<Rightarrow> Node \<Rightarrow> reuseBranch
   \<Rightarrow> reuseLineage \<times> SessionID \<times> bool \<times> bool" where
  "resolveContextSource a state source target targetBranch =
     (let canonical = CanonicalContextSource source;
          lookupBranch = fst (reuseContextLookupBranch (rs_branch state) targetBranch canonical) in
      if cs_Kind canonical = ContextSourceImmediateSource then
        (case rs_currentLineage state of
           reuseLineageCompleted \<Rightarrow> (rs_currentLineage state, an_completedSessionID a, True, True)
         | reuseLineageAbsent \<Rightarrow>
             (rs_currentLineage state, rs_activeSourceSessionID state, rs_activeSourceKnown state, True)
         | _ \<Rightarrow> (rs_currentLineage state, 0, False, True))
      else if cs_Kind canonical = ContextSourceSelectedNode then
        (case map_of (an_nodeIDsByKey a) (cs_NodeKey canonical) of
           None \<Rightarrow> (reuseLineageUnknown, 0, False, True)
         | Some nodeID \<Rightarrow>
             (case associatedLineage a state lookupBranch nodeID True of
                (lineage, association, found) \<Rightarrow>
                  if \<not> found then (lineage, 0, False, True)
                  else (lineage, association_session association, True, True)))
      else if cs_Kind canonical = ContextSourcePreviousTarget then
        (case associatedLineage a state lookupBranch (NodeIDOf target) False of
           (lineage, _, found) \<Rightarrow> (lineage, rs_activeSourceSessionID state, rs_activeSourceKnown state, found))
      else if cs_Kind canonical = ContextSourcePreviousTargetOrNew then
        (case associatedLineage a state lookupBranch (NodeIDOf target) True of
           (lineage, _, found) \<Rightarrow>
             if \<not> found then (reuseLineageOther, 0, False, True)
             else (lineage, rs_activeSourceSessionID state, rs_activeSourceKnown state, True))
      else (reuseLineageUnknown, 0, False, True))"

definition continues_session :: "Edge \<Rightarrow> bool" where
  "continues_session edge \<longleftrightarrow>
     e_ContextMode edge = ContextModeContinueSession \<or> e_ContextMode edge = ContextModeCompactAndContinueSession"

definition targetContext ::
  "'lock sessionReuseAnalyzer \<Rightarrow> reusePathState \<Rightarrow> Edge \<Rightarrow> Node \<Rightarrow> reuseBranch
   \<Rightarrow> reuseLineage \<times> SessionID \<times> bool \<times> bool" where
  "targetContext a state edge target targetBranch =
     (if Kind target \<noteq> NodeKindAgent then
        (if continues_session edge then
           (case resolveContextSource a state (e_ContextSource edge) target targetBranch of
              (_, sourceSessionID, sourceKnown, selected) \<Rightarrow>
                (reuseLineageAbsent, sourceSessionID, sourceKnown, selected))
         else (reuseLineageAbsent, rs_activeSourceSessionID state, rs_activeSourceKnown state, True))
      else if e_ContextMode edge = ContextModeNewSession then (reuseLineageOther, 0, False, True)
      else if continues_session edge then
        resolveContextSource a state (e_ContextSource edge) target targetBranch
      else (reuseLineageUnknown, 0, False, True))"

definition transferStaticContinuationSource ::
  "'lock sessionReuseAnalyzer \<Rightarrow> staticContinuationSource \<Rightarrow> NodeID \<Rightarrow> reuseBranch \<Rightarrow> reuseBranch
   \<Rightarrow> Edge \<Rightarrow> Node \<Rightarrow> staticContinuationSource" where
  "transferStaticContinuationSource a source sourceNodeID sourceBranch targetBranch edge target =
     (let absent = static_source staticContinuationSourceAbsent;
          contextSource = CanonicalContextSource (e_ContextSource edge) in
      if Kind target = NodeKindTerminal then absent
      else if e_ContextMode edge = ContextModeNewSession then
        (if Kind target \<noteq> NodeKindAgent then source
         else \<lparr>scs_kind = staticContinuationSourceExact, scs_nodeID = e_TargetNodeID edge,
               scs_branch = targetBranch\<rparr>)
      else if \<not> continues_session edge then absent
      else if cs_Kind contextSource = ContextSourceImmediateSource then
        (case map_of (an_nodesByID a) sourceNodeID of
           Some sourceNode \<Rightarrow>
             if Kind sourceNode = NodeKindAgent
             then \<lparr>scs_kind = staticContinuationSourceExact, scs_nodeID = sourceNodeID, scs_branch = sourceBranch\<rparr>
             else source
         | None \<Rightarrow> source)
      else if cs_Kind contextSource = ContextSourcePreviousTarget \<or>
              cs_Kind contextSource = ContextSourcePreviousTargetOrNew then source
      else if cs_Kind contextSource = ContextSourceSelectedNode then
        (case map_of (an_nodeIDsByKey a) (cs_NodeKey contextSource) of
           Some nodeID \<Rightarrow>
             \<lparr>scs_kind = staticContinuationSourceExact, scs_nodeID = nodeID, scs_branch = sourceBranch\<rparr>
         | None \<Rightarrow> absent)
      else absent)"

text \<open>The condition under which static validation rejects an edge into an agent node.\<close>

definition static_edge_invalid :: "staticContinuationSource \<Rightarrow> Edge \<Rightarrow> Node \<Rightarrow> bool" where
  "static_edge_invalid source edge target \<longleftrightarrow>
     Kind target = NodeKindAgent \<and>
     (isRetainedTargetContextSource (e_ContextSource edge) \<and> scs_kind source \<noteq> staticContinuationSourceExact \<or>
      cs_Kind (CanonicalContextSource (e_ContextSource edge)) \<noteq> ContextSourceSelectedNode \<and>
      e_ContextMode edge \<noteq> ContextModeNewSession \<and> scs_kind source = staticContinuationSourceDivergent)"

definition static_target :: "'lock sessionReuseAnalyzer \<Rightarrow> reusePathState \<Rightarrow> Edge \<Rightarrow> Node \<Rightarrow> reuseBranch \<Rightarrow> reusePathState" where
  "static_target a state edge target targetBranch =
     zero_state\<lparr>rs_nodeID := e_TargetNodeID edge, rs_branch := targetBranch,
                rs_staticSource := transferStaticContinuationSource a (rs_staticSource state) (rs_nodeID state)
                                     (rs_branch state) targetBranch edge target\<rparr>"

definition dynamic_transition ::
  "reusePathState \<Rightarrow> Edge \<Rightarrow> Node \<Rightarrow> reuseBranch \<Rightarrow> reuseLineage \<Rightarrow> SessionID \<Rightarrow> bool \<Rightarrow> reuseTransition" where
  "dynamic_transition state edge target targetBranch targetLineage activeSourceSessionID activeSourceKnown =
     (let dormancyBlocked =
            (rs_dormancyBlocked state \<or>
             \<not> rs_completedDormant state \<and> rs_currentLineage state = reuseLineageCompleted \<and>
             targetLineage = reuseLineageCompleted \<and> \<not> e_RequiresApproval edge);
          completedDormant =
            (rs_completedDormant state \<or>
             \<not> dormancyBlocked \<and> (e_RequiresApproval edge \<or> targetLineage \<noteq> reuseLineageCompleted));
          overwritten =
            (if Kind target = NodeKindAgent \<and> targetLineage \<noteq> reuseLineageAbsent \<and>
                targetLineage \<noteq> reuseLineageCompleted
             then AList.update \<lparr>ok_nodeID = e_TargetNodeID edge, ok_branch = targetBranch\<rparr>
                    reuseOverwriteDefinite (rs_overwritten state)
             else rs_overwritten state);
          selectedCompleted = (targetLineage = reuseLineageCompleted \<or> targetLineage = reuseLineageUnknown) in
      \<lparr>rt_target =
         zero_state\<lparr>rs_nodeID := e_TargetNodeID edge, rs_branch := targetBranch,
                    rs_currentLineage := targetLineage, rs_activeSourceSessionID := activeSourceSessionID,
                    rs_activeSourceKnown := activeSourceKnown, rs_completedDormant := completedDormant,
                    rs_dormancyBlocked := dormancyBlocked, rs_overwritten := overwritten\<rparr>,
       rt_possibleReuse = (selectedCompleted \<and> completedDormant \<and> \<not> dormancyBlocked),
       rt_guaranteedCAC =
         (e_ContextMode edge = ContextModeCompactAndContinueSession \<and> targetLineage = reuseLineageCompleted \<and>
          completedDormant \<and> \<not> dormancyBlocked)\<rparr>)"

text \<open>\<open>applyEdge\<close>: the transition, if any, and the updated set of statically invalid edges.\<close>

definition applyEdge ::
  "'lock sessionReuseAnalyzer \<Rightarrow> reusePathState \<Rightarrow> Edge \<Rightarrow> EdgeID list \<Rightarrow> reuseTransition option \<times> EdgeID list" where
  "applyEdge a state edge invalid =
     (case map_of (an_nodesByID a) (e_TargetNodeID edge) of
        None \<Rightarrow> (None, invalid)
      | Some target \<Rightarrow>
         let groupEdges = mget_list (an_edgesByGroup a) (e_TransitionGroupID edge);
             targetBranch = nextReuseBranch (rs_branch state) edge target (length groupEdges) in
         if an_staticValidation a then
           (Some \<lparr>rt_target = static_target a state edge target targetBranch,
                  rt_possibleReuse = False, rt_guaranteedCAC = False\<rparr>,
            if static_edge_invalid (rs_staticSource state) edge target
            then List.insert (e_ID edge) invalid else invalid)
         else
           (case targetContext a state edge target targetBranch of
              (targetLineage, activeSourceSessionID, activeSourceKnown, selected) \<Rightarrow>
                (if \<not> selected then None
                 else Some (dynamic_transition state edge target targetBranch targetLineage
                              activeSourceSessionID activeSourceKnown),
                 invalid)))"

text \<open>The fan-out bookkeeping that \<open>stateGroups\<close> and the classification add to a transition.\<close>

definition with_invocation ::
  "reusePathState \<Rightarrow> Edge \<Rightarrow> TransitionGroupID \<Rightarrow> staticFanout \<Rightarrow> reuseTransition \<Rightarrow> reuseTransition" where
  "with_invocation state edge groupID fanout t =
     t\<lparr>rt_target := (rt_target t)\<lparr>
         rs_staticInvocation :=
           \<lparr>fi_groupID = groupID, fi_incomingBranch = rs_branch state, fi_entry = fanoutEntryState state,
            fi_sibling = e_Key edge, fi_joinID = sf_joinID fanout\<rparr>,
         rs_joinMode := reuseJoinComplete\<rparr>\<rparr>"

definition inherit_invocation :: "reusePathState \<Rightarrow> reuseTransition \<Rightarrow> reuseTransition" where
  "inherit_invocation state t =
     t\<lparr>rt_target := (rt_target t)\<lparr>rs_staticInvocation := rs_staticInvocation state, rs_joinMode := rs_joinMode state\<rparr>\<rparr>"

fun edge_transitions ::
  "'lock sessionReuseAnalyzer \<Rightarrow> reusePathState \<Rightarrow> TransitionGroupID \<Rightarrow> Edge list \<Rightarrow> EdgeID list
   \<Rightarrow> reuseTransition list \<times> EdgeID list" where
  "edge_transitions a state groupID [] invalid = ([], invalid)"
| "edge_transitions a state groupID (edge # edges) invalid =
     (case applyEdge a state edge invalid of
        (transition, invalid') \<Rightarrow>
          (case edge_transitions a state groupID edges invalid' of
             (transitions, invalid'') \<Rightarrow>
               (case transition of
                  None \<Rightarrow> (transitions, invalid'')
                | Some t \<Rightarrow>
                    ((case map_of (an_staticFanouts a) groupID of
                        Some fanout \<Rightarrow> with_invocation state edge groupID fanout t
                      | None \<Rightarrow> inherit_invocation state t) # transitions, invalid''))))"

fun state_groups_loop ::
  "'lock sessionReuseAnalyzer \<Rightarrow> reusePathState \<Rightarrow> TransitionGroup list \<Rightarrow> EdgeID list
   \<Rightarrow> reuseGroup list \<times> EdgeID list" where
  "state_groups_loop a state [] invalid = ([], invalid)"
| "state_groups_loop a state (tgroup # tgroups) invalid =
     (case edge_transitions a state (tg_ID tgroup) (mget_list (an_edgesByGroup a) (tg_ID tgroup)) invalid of
        (transitions, invalid') \<Rightarrow>
          (case state_groups_loop a state tgroups invalid' of
             (groups, invalid'') \<Rightarrow> (\<lparr>rg_transitions = transitions\<rparr> # groups, invalid'')))"

definition stateGroups ::
  "'lock sessionReuseAnalyzer \<Rightarrow> reusePathState \<Rightarrow> EdgeID list \<Rightarrow> reuseGroup list \<times> EdgeID list" where
  "stateGroups a state invalid =
     state_groups_loop a state (mget_list (an_groupsBySource a) (rs_nodeID state)) invalid"

section \<open>Merging path states\<close>

definition merged_status :: "overwritten_map \<Rightarrow> reuseOverwriteKey \<Rightarrow> reuseOverwriteStatus \<Rightarrow> reuseOverwriteStatus" where
  "merged_status right key leftStatus =
     (if leftStatus = reuseOverwriteDefinite \<and> map_of right key = Some reuseOverwriteDefinite
      then reuseOverwriteDefinite else reuseOverwriteMaybe)"

text \<open>The second component tells whether the map changed.\<close>

definition mergeOverwritten :: "overwritten_map \<Rightarrow> overwritten_map \<Rightarrow> overwritten_map \<times> bool" where
  "mergeOverwritten left right =
     (if right = [] then (left, False)
      else let changed =
                 (list_ex (\<lambda>(key, leftStatus). leftStatus \<noteq> merged_status right key leftStatus) left \<or>
                  list_ex (\<lambda>(key, _). \<not> mhas left key) right) in
           if \<not> changed then (left, False)
           else (let merged = fold (\<lambda>(key, leftStatus). AList.update key (merged_status right key leftStatus)) left left
                 in fold (\<lambda>(key, _) m. if mhas left key then m else AList.update key reuseOverwriteMaybe m) right merged,
                 True))"

definition mergeCompleteJoinOverwritten :: "overwritten_map \<Rightarrow> overwritten_map \<Rightarrow> overwritten_map" where
  "mergeCompleteJoinOverwritten left right =
     fold (\<lambda>(key, status) merged.
             if map_of merged key = None \<or> status = reuseOverwriteDefinite \<or>
                map_of merged key = Some reuseOverwriteMaybe
             then AList.update key status merged else merged) right left"

definition reduceJoinState :: "reusePathState \<Rightarrow> reusePathState \<Rightarrow> reusePathState" where
  "reduceJoinState left right =
     (let agree = (rs_activeSourceKnown left \<and> rs_activeSourceKnown right \<and>
                   rs_activeSourceSessionID left = rs_activeSourceSessionID right) in
      left\<lparr>rs_currentLineage :=
             (if rs_currentLineage left \<noteq> rs_currentLineage right then reuseLineageUnknown
              else rs_currentLineage left),
           rs_activeSourceSessionID := (if agree then rs_activeSourceSessionID left else 0),
           rs_activeSourceKnown := agree,
           rs_completedDormant := (rs_completedDormant left \<or> rs_completedDormant right),
           rs_dormancyBlocked := (rs_dormancyBlocked left \<or> rs_dormancyBlocked right),
           rs_overwritten := mergeCompleteJoinOverwritten (rs_overwritten left) (rs_overwritten right)\<rparr>)"


section \<open>The path-state graph\<close>

record reuseGraph =
  rg_states :: "reusePathState list"
  rg_groups :: "reuseGroup list list"
  rg_possibleReuse :: bool

type_synonym join_arrivals = "(TransitionBranchKey, reusePathState) gomap"

text \<open>The locals of \<open>buildGraph\<close>: the graph (a reset entry of \<open>groups\<close> is the empty list), the
  processed flags by state ID, the arrivals at joins, the queue and the analyzer's set of
  statically invalid edges.\<close>

record build_state =
  bs_graph :: reuseGraph
  bs_processed :: "bool list"
  bs_joinArrivals :: "(staticFanoutInvocationKey, join_arrivals) gomap"
  bs_queue :: "nat list"
  bs_invalid :: "EdgeID list"

definition addState :: "reusePathState \<Rightarrow> build_state \<Rightarrow> build_state \<times> nat \<times> bool" where
  "addState state s =
     (let graph = bs_graph s in
      case graphStateID state (rg_states graph) of
        Some id' \<Rightarrow>
          (case mergeOverwritten (rs_overwritten (rg_states graph ! id')) (rs_overwritten state) of
             (merged, changed) \<Rightarrow>
               if changed then
                 (s\<lparr>bs_graph := graph\<lparr>rg_states := (rg_states graph)[id' := (rg_states graph ! id')\<lparr>rs_overwritten := merged\<rparr>],
                                      rg_groups := (rg_groups graph)[id' := []]\<rparr>,
                    bs_processed := (bs_processed s)[id' := False]\<rparr>, id', True)
               else (s, id', False))
      | None \<Rightarrow>
          (s\<lparr>bs_graph := graph\<lparr>rg_states := rg_states graph @ [state], rg_groups := rg_groups graph @ [[]]\<rparr>,
             bs_processed := bs_processed s @ [False]\<rparr>, length (rg_states graph), True))"

definition enqueue :: "nat \<Rightarrow> build_state \<Rightarrow> build_state" where
  "enqueue stateID s = (if stateID \<in> set (bs_queue s) then s else s\<lparr>bs_queue := bs_queue s @ [stateID]\<rparr>)"

definition note_possible :: "reuseTransition \<Rightarrow> build_state \<Rightarrow> build_state" where
  "note_possible t s =
     (if rt_possibleReuse t then s\<lparr>bs_graph := (bs_graph s)\<lparr>rg_possibleReuse := True\<rparr>\<rparr> else s)"

definition seed_transition :: "reuseTransition \<Rightarrow> build_state \<Rightarrow> build_state" where
  "seed_transition t s = (case addState (rt_target t) (note_possible t s) of (s', stateID, _) \<Rightarrow> enqueue stateID s')"

definition add_arrival :: "reusePathState \<Rightarrow> join_arrivals \<Rightarrow> join_arrivals" where
  "add_arrival target arrivals =
     (let sibling = fi_sibling (rs_staticInvocation target) in
      AList.update sibling
        (case map_of arrivals sibling of
           Some previous \<Rightarrow>
             let merged = reduceJoinState previous target in
             if rs_staticSource previous \<noteq> rs_staticSource target
             then merged\<lparr>rs_staticSource := static_source staticContinuationSourceDivergent\<rparr> else merged
         | None \<Rightarrow> target) arrivals)"

definition arrival_of :: "join_arrivals \<Rightarrow> TransitionBranchKey \<Rightarrow> reusePathState" where
  "arrival_of arrivals sibling = (case map_of arrivals sibling of None \<Rightarrow> zero_state | Some state \<Rightarrow> state)"

definition join_step ::
  "join_arrivals \<Rightarrow> TransitionBranchKey \<Rightarrow> staticContinuationSource \<times> reusePathState
   \<Rightarrow> staticContinuationSource \<times> reusePathState" where
  "join_step arrivals sibling = (\<lambda>(source, reduced).
     let state = arrival_of arrivals sibling in
     (if source \<noteq> rs_staticSource state then static_source staticContinuationSourceDivergent else source,
      reduceJoinState reduced state))"

text \<open>The first sibling initialises the source and the reduced state, and is then also reduced
  into it.\<close>

definition reduce_arrivals :: "join_arrivals \<Rightarrow> TransitionBranchKey list \<Rightarrow> staticContinuationSource \<times> reusePathState" where
  "reduce_arrivals arrivals siblings =
     (case siblings of
        [] \<Rightarrow> (static_source staticContinuationSourceAbsent, zero_state)
      | sibling # _ \<Rightarrow>
          let first = arrival_of arrivals sibling
          in fold (join_step arrivals) siblings (rs_staticSource first, first))"

definition joined_state :: "join_arrivals \<Rightarrow> TransitionBranchKey list \<Rightarrow> NodeID \<Rightarrow> reusePathState" where
  "joined_state arrivals siblings joinID =
     (case reduce_arrivals arrivals siblings of
        (source, reduced) \<Rightarrow>
          reduced\<lparr>rs_nodeID := joinID, rs_branch := no_branch, rs_staticSource := source,
                  rs_staticInvocation := no_invocation, rs_joinMode := reuseJoinPartial\<rparr>)"

definition add_and_enqueue :: "reusePathState \<Rightarrow> build_state \<Rightarrow> build_state" where
  "add_and_enqueue target s =
     (case addState target s of (s', targetID, changed) \<Rightarrow> if changed then enqueue targetID s' else s')"

definition fanout_siblings :: "'lock sessionReuseAnalyzer \<Rightarrow> TransitionGroupID \<Rightarrow> TransitionBranchKey list" where
  "fanout_siblings a groupID =
     (case map_of (an_staticFanouts a) groupID of None \<Rightarrow> [] | Some fanout \<Rightarrow> sf_siblings fanout)"

definition visit_transition :: "'lock sessionReuseAnalyzer \<Rightarrow> reuseTransition \<Rightarrow> build_state \<Rightarrow> build_state" where
  "visit_transition a t s0 =
     (let s = note_possible t s0; target = rt_target t; invocation = rs_staticInvocation target in
      if fi_joinID invocation = rs_nodeID target then
        (let key = aggregationKey invocation;
             arrivals = add_arrival target (case map_of (bs_joinArrivals s) key of None \<Rightarrow> [] | Some arrivals \<Rightarrow> arrivals);
             siblings = fanout_siblings a (fi_groupID invocation);
             s' = s\<lparr>bs_joinArrivals := AList.update key arrivals (bs_joinArrivals s)\<rparr> in
         if length arrivals \<noteq> length siblings then s'
         else add_and_enqueue (joined_state arrivals siblings (fi_joinID invocation)) s')
      else add_and_enqueue target s)"

definition build_step :: "'lock sessionReuseAnalyzer \<Rightarrow> build_state \<Rightarrow> build_state" where
  "build_step a s =
     (case bs_queue s of
        [] \<Rightarrow> s
      | stateID # queue \<Rightarrow>
          let s1 = s\<lparr>bs_queue := queue\<rparr> in
          if bs_processed s1 ! stateID then s1
          else case stateGroups a (rg_states (bs_graph s1) ! stateID) (bs_invalid s1) of
                 (groups, invalid) \<Rightarrow>
                   fold (visit_transition a) (concat (map rg_transitions groups))
                     (s1\<lparr>bs_processed := (bs_processed s1)[stateID := True],
                         bs_graph := (bs_graph s1)\<lparr>rg_groups := (rg_groups (bs_graph s1))[stateID := groups]\<rparr>,
                         bs_invalid := invalid\<rparr>))"

definition build_start :: "EdgeID list \<Rightarrow> reuseTransition list \<Rightarrow> build_state" where
  "build_start invalid initial =
     fold seed_transition initial
       \<lparr>bs_graph = \<lparr>rg_states = [], rg_groups = [], rg_possibleReuse = False\<rparr>, bs_processed = [],
        bs_joinArrivals = [], bs_queue = [], bs_invalid = invalid\<rparr>"

definition buildGraph ::
  "'lock sessionReuseAnalyzer \<Rightarrow> EdgeID list \<Rightarrow> reuseTransition list \<Rightarrow> (reuseGraph \<times> EdgeID list) option" where
  "buildGraph a invalid initial =
     map_option (\<lambda>s. (bs_graph s, bs_invalid s))
       (while_option (\<lambda>s. bs_queue s \<noteq> []) (build_step a) (build_start invalid initial))"


section \<open>Guaranteed reuse\<close>

definition cac_transition :: "reuseGroup list \<Rightarrow> bool" where
  "cac_transition groups = list_ex (\<lambda>g. list_ex rt_guaranteedCAC (rg_transitions g)) groups"

definition target_ids :: "reuseGraph \<Rightarrow> reuseGroup list \<Rightarrow> nat list" where
  "target_ids graph groups =
     List.map_filter (\<lambda>t. graphStateID (rt_target t) (rg_states graph)) (concat (map rg_transitions groups))"

lemma graphStateID_less: "graphStateID state states = Some i \<Longrightarrow> i < length states"
  by (induction states arbitrary: i) (auto split: if_splits)

lemma fewer_left: "i < (n::nat) \<Longrightarrow> i \<notin> set visited \<Longrightarrow> card ({..<n} - insert i (set visited)) < card ({..<n} - set visited)"
proof (rule psubset_card_mono)
  assume "i < n" and "i \<notin> set visited"
  then have "i \<in> {..<n} - set visited" by simp
  then show "{..<n} - insert i (set visited) \<subset> {..<n} - set visited" by blast
qed simp

text \<open>State IDs are indices of \<open>states\<close> and \<open>groups\<close>, which have the same length; an index
  outside \<open>groups\<close> does not arise.\<close>

function reach_cac_loop :: "reuseGraph \<Rightarrow> nat list \<Rightarrow> nat list \<Rightarrow> bool" where
  "reach_cac_loop graph [] visited = False"
| "reach_cac_loop graph (id' # queue) visited =
     (if id' \<in> set visited then reach_cac_loop graph queue visited
      else if id' \<ge> length (rg_groups graph) \<or> rg_groups graph ! id' = [] then True
      else if cac_transition (rg_groups graph ! id') then True
      else reach_cac_loop graph (queue @ target_ids graph (rg_groups graph ! id')) (id' # visited))"
  by pat_completeness auto
termination
  by (relation "measures [\<lambda>(graph, queue, visited). card ({..<length (rg_groups graph)} - set visited),
      \<lambda>(graph, queue, visited). length queue]")
    (auto simp: fewer_left not_le simp del: Diff_insert card_Diff_insert)

definition canReachTerminalOrCAC :: "nat \<Rightarrow> reuseGraph \<Rightarrow> bool" where
  "canReachTerminalOrCAC stateID graph = reach_cac_loop graph [stateID] []"

definition transition_guaranteed :: "reuseGraph \<Rightarrow> bool list \<Rightarrow> reuseTransition \<Rightarrow> bool" where
  "transition_guaranteed graph guaranteed t \<longleftrightarrow>
     rt_guaranteedCAC t \<or>
     (case graphStateID (rt_target t) (rg_states graph) of
        None \<Rightarrow> False | Some targetID \<Rightarrow> guaranteed ! targetID)"

definition next_guaranteed :: "reuseGraph \<Rightarrow> bool list \<Rightarrow> bool list \<Rightarrow> nat \<Rightarrow> bool" where
  "next_guaranteed graph canReach guaranteed id' \<longleftrightarrow>
     rg_groups graph ! id' \<noteq> [] \<and>
     list_all (\<lambda>g. list_ex (transition_guaranteed graph guaranteed) (rg_transitions g)) (rg_groups graph ! id') \<and>
     canReach ! id'"

definition sweep_step :: "reuseGraph \<Rightarrow> bool list \<Rightarrow> nat \<Rightarrow> bool list \<times> bool \<Rightarrow> bool list \<times> bool" where
  "sweep_step graph canReach id' = (\<lambda>(guaranteed, changed).
     let value = next_guaranteed graph canReach guaranteed id' in
     if value \<noteq> guaranteed ! id' then (guaranteed[id' := value], True) else (guaranteed, changed))"

definition guaranteed_sweep :: "reuseGraph \<Rightarrow> bool list \<Rightarrow> bool list \<times> bool \<Rightarrow> bool list \<times> bool" where
  "guaranteed_sweep graph canReach = (\<lambda>(guaranteed, _).
     fold (sweep_step graph canReach) [0..<length (rg_groups graph)] (guaranteed, False))"

definition guaranteed_fixpoint :: "reuseGraph \<Rightarrow> bool list option" where
  "guaranteed_fixpoint graph =
     (let canReach = map (\<lambda>id'. canReachTerminalOrCAC id' graph) [0..<length (rg_states graph)] in
      map_option fst (while_option snd (guaranteed_sweep graph canReach) (canReach, True)))"

definition guaranteedState :: "reusePathState \<Rightarrow> reuseGraph \<Rightarrow> bool option" where
  "guaranteedState state graph =
     (case graphStateID state (rg_states graph) of
        None \<Rightarrow> Some False
      | Some stateID \<Rightarrow> map_option (\<lambda>guaranteed. guaranteed ! stateID) (guaranteed_fixpoint graph))"

text \<open>The loop over several accepted branches and the single-branch case test the same
  condition.\<close>

fun guaranteedAccepted :: "reuseTransition list \<Rightarrow> reuseGraph \<Rightarrow> bool option" where
  "guaranteedAccepted [] graph = Some False"
| "guaranteedAccepted (transition # initial) graph =
     (if rt_guaranteedCAC transition then Some True
      else case guaranteedState (rt_target transition) graph of
             None \<Rightarrow> None
           | Some True \<Rightarrow> Some True
           | Some False \<Rightarrow> guaranteedAccepted initial graph)"


section \<open>Fan-outs of the definition\<close>

fun branch_distances :: "fanoutTopology \<Rightarrow> Edge list \<Rightarrow> (NodeID, nat) gomap list option" where
  "branch_distances topology [] = Some []"
| "branch_distances topology (edge # edges) =
     (case fanoutBranchJoinDistances topology (e_TargetNodeID edge) of
        None \<Rightarrow> None
      | Some distances \<Rightarrow> map_option (\<lambda>ds. distances # ds) (branch_distances topology edges))"

definition group_fanout :: "fanoutTopology \<Rightarrow> TransitionGroupID \<Rightarrow> staticFanout option" where
  "group_fanout topology groupID =
     (let edges = mget_list (edgesByGroup topology) groupID in
      if length edges < 2 then None
      else case branch_distances topology edges of
             None \<Rightarrow> None
           | Some distances \<Rightarrow>
               (case fanoutNearestCommonJoin distances of
                  None \<Rightarrow> None
                | Some joinID \<Rightarrow> Some \<lparr>sf_joinID = joinID, sf_siblings = map e_Key edges\<rparr>))"

definition sessionReuseFanouts :: "Definition \<Rightarrow> (TransitionGroupID, staticFanout) gomap" where
  "sessionReuseFanouts def =
     (let topology = newFanoutTopology def in
      fold (\<lambda>tgroup fanouts.
              case group_fanout topology (tg_ID tgroup) of
                None \<Rightarrow> fanouts
              | Some fanout \<Rightarrow> AList.update (tg_ID tgroup) fanout fanouts)
        (d_TransitionGroups def) [])"

definition index_node_keys :: "Node list \<Rightarrow> (ModelKey, NodeID) gomap" where
  "index_node_keys nodes = fold (\<lambda>node. AList.update (NodeKey node) (NodeIDOf node)) nodes []"


section \<open>Classification and static validation\<close>

definition newSessionReuseAnalyzer :: "'lock SessionReuseAnalysisInput \<Rightarrow> SessionID \<Rightarrow> 'lock sessionReuseAnalyzer" where
  "newSessionReuseAnalyzer inp completedSessionID =
     (let def = in_Workflow inp in
      \<lparr>an_input = inp, an_completedSessionID = completedSessionID,
       an_nodesByID = index_nodes (d_Nodes def), an_nodeIDsByKey = index_node_keys (d_Nodes def),
       an_groupsBySource = fold (\<lambda>tgroup. mappend (tg_SourceNodeID tgroup) tgroup) (d_TransitionGroups def) [],
       an_edgesByGroup = fold (\<lambda>edge. mappend (e_TransitionGroupID edge) edge) (d_Edges def) [],
       an_staticValidation = False, an_staticFanouts = sessionReuseFanouts def\<rparr>)"

definition initial_state :: "'lock SessionReuseAnalysisInput \<Rightarrow> SessionID \<Rightarrow> reusePathState" where
  "initial_state inp completedSessionID =
     (let completed = in_CompletedCurrentNode inp in
      zero_state\<lparr>rs_nodeID := cnr_NodeID (cn_Reference completed),
                 rs_branch := reuseBranchForReference (cn_Reference completed),
                 rs_currentLineage := reuseLineageCompleted,
                 rs_completedDormant := acceptedBranchesFanout (in_AcceptedBranches inp),
                 rs_joinMode := reuseJoinPartial,
                 rs_activeSourceSessionID :=
                   (case ExactSessionID (cn_ContinuationSource completed) of
                      Some sourceSessionID \<Rightarrow> sourceSessionID | None \<Rightarrow> completedSessionID),
                 rs_activeSourceKnown := True\<rparr>)"

definition accepted_transition :: "'lock sessionReuseAnalyzer \<Rightarrow> reusePathState \<Rightarrow> Edge \<Rightarrow> reuseTransition option" where
  "accepted_transition a initial edge =
     map_option (\<lambda>t. case map_of (an_staticFanouts a) (e_TransitionGroupID edge) of
                       Some fanout \<Rightarrow> with_invocation initial edge (e_TransitionGroupID edge) fanout t
                     | None \<Rightarrow> t)
       (fst (applyEdge a initial edge []))"

definition ClassifyWorkflowSessionReuse :: "'lock SessionReuseAnalysisInput \<Rightarrow> SessionReuseClassification option" where
  "ClassifyWorkflowSessionReuse inp =
     (case cn_SessionID (in_CompletedCurrentNode inp) of
        None \<Rightarrow> Some SessionReuseNone
      | Some completedSessionID \<Rightarrow>
          if IsZero completedSessionID \<or> in_AcceptedBranches inp = [] then Some SessionReuseNone
          else
            let a = newSessionReuseAnalyzer inp completedSessionID;
                initial = initial_state inp completedSessionID;
                initialTransitions = List.map_filter (accepted_transition a initial) (in_AcceptedBranches inp) in
            if initialTransitions = [] then Some SessionReuseNone
            else case buildGraph a [] initialTransitions of
                   None \<Rightarrow> None
                 | Some (graph, _) \<Rightarrow>
                     map_option (\<lambda>guaranteed.
                         if guaranteed then SessionReuseGuaranteedCACReuse
                         else if rg_possibleReuse graph then SessionReuseThresholdPossibleReuse
                         else SessionReuseNone)
                       (guaranteedAccepted initialTransitions graph))"

definition zero_current_node :: "'lock CurrentNode" where
  "zero_current_node =
     \<lparr>cn_Reference = \<lparr>cnr_TaskID = '''', cnr_NodeID = '''', cnr_transitionBranchKey = None\<rparr>,
      cn_EnteredByEdgeID = None, cn_CurrentInputValues = [], cn_PriorValues = [], cn_SessionID = None,
      cn_ContinuationSource = \<lparr>mcs_kind = MaterializedContinuationSourceOther '''', mcs_sessionID = None\<rparr>,
      cn_Scheduling = None, cn_AgentExecutionSelection = None\<rparr>"

definition newStaticSessionReuseAnalyzer :: "Definition \<Rightarrow> unit sessionReuseAnalyzer" where
  "newStaticSessionReuseAnalyzer def =
     (let topology = newFanoutTopology def in
      \<lparr>an_input = \<lparr>in_Workflow = def, in_AcceptedBranches = [], in_CompletedCurrentNode = zero_current_node,
                   in_RetainedAssociations = []\<rparr>,
       an_completedSessionID = 0,
       an_nodesByID = index_nodes (d_Nodes def), an_nodeIDsByKey = index_node_keys (d_Nodes def),
       an_groupsBySource = fold (\<lambda>tgroup. mappend (tg_SourceNodeID tgroup) tgroup) (d_TransitionGroups def) [],
       an_edgesByGroup =
         fold (\<lambda>tgroup m. fold (mappend (tg_ID tgroup)) (mget_list (edgesByGroup topology) (tg_ID tgroup)) m)
           (d_TransitionGroups def) [],
       an_staticValidation = True, an_staticFanouts = sessionReuseFanouts def\<rparr>)"

definition validateStaticContinuationSources :: "Definition \<Rightarrow> NodeID \<Rightarrow> EdgeID list option" where
  "validateStaticContinuationSources def start =
     (let a = newStaticSessionReuseAnalyzer def in
      case stateGroups a (zero_state\<lparr>rs_nodeID := start\<rparr>) [] of
        (groups, invalid) \<Rightarrow>
          map_option (\<lambda>(_, invalid'). map e_ID (filter (\<lambda>edge. e_ID edge \<in> set invalid') (d_Edges def)))
            (buildGraph a invalid (concat (map rg_transitions groups))))"

definition RequiresExactActiveContinuationSource :: "Definition \<Rightarrow> NodeID \<Rightarrow> bool option" where
  "RequiresExactActiveContinuationSource def start =
     map_option (\<lambda>edges. length edges > 0) (validateStaticContinuationSources def start)"


section \<open>Association references\<close>

record referenceState =
  ref_nodeID :: NodeID
  ref_branch :: reuseBranch

record reference_search =
  rx_references :: "CurrentNodeReference list"
  rx_seen :: "CurrentNodeReferenceKey list"
  rx_visited :: "referenceState list"
  rx_queue :: "referenceState list"

definition appendReference ::
  "TaskID \<Rightarrow> NodeID \<Rightarrow> TransitionBranchKey option \<Rightarrow> reference_search \<Rightarrow> reference_search" where
  "appendReference taskID nodeID branch s =
     (case NewCurrentNodeReference taskID nodeID branch of
        Inl _ \<Rightarrow> s
      | Inr reference \<Rightarrow>
          (case CurrentNodeReference_Key reference of
             Inl _ \<Rightarrow> s
           | Inr key \<Rightarrow>
               if key \<in> set (rx_seen s) then s
               else s\<lparr>rx_seen := key # rx_seen s, rx_references := rx_references s @ [reference]\<rparr>))"

definition appendContextReference ::
  "TaskID \<Rightarrow> (ModelKey, NodeID) gomap \<Rightarrow> referenceState \<Rightarrow> reuseBranch \<Rightarrow> Edge \<Rightarrow> Node
   \<Rightarrow> reference_search \<Rightarrow> reference_search" where
  "appendContextReference taskID nodeIDsByKey sourceState targetBranch edge target s =
     (if \<not> continues_session edge then s
      else
        let source = CanonicalContextSource (e_ContextSource edge) in
        case reuseContextLookupBranch (ref_branch sourceState) targetBranch source of
          (lookupBranch, usesAssociation) \<Rightarrow>
            if \<not> usesAssociation then s
            else
              let branch = (if rb_scoped lookupBranch then Some (rb_key lookupBranch) else None) in
              if cs_Kind source = ContextSourceSelectedNode then
                (case map_of nodeIDsByKey (cs_NodeKey source) of
                   None \<Rightarrow> s | Some nodeID \<Rightarrow> appendReference taskID nodeID branch s)
              else if cs_Kind source = ContextSourcePreviousTarget \<or>
                      cs_Kind source = ContextSourcePreviousTargetOrNew
              then appendReference taskID (NodeIDOf target) branch s
              else s)"

definition enqueue_reference ::
  "TaskID \<Rightarrow> (ModelKey, NodeID) gomap \<Rightarrow> fanoutTopology \<Rightarrow> referenceState \<Rightarrow> Edge
   \<Rightarrow> reference_search \<Rightarrow> reference_search" where
  "enqueue_reference taskID nodeIDsByKey topology state edge s =
     (case map_of (nodesByID topology) (e_TargetNodeID edge) of
        None \<Rightarrow> s
      | Some target \<Rightarrow>
          let targetBranch = nextReuseBranch (ref_branch state) edge target
                               (length (mget_list (edgesByGroup topology) (e_TransitionGroupID edge)));
              s' = appendContextReference taskID nodeIDsByKey state targetBranch edge target s;
              following = \<lparr>ref_nodeID = e_TargetNodeID edge, ref_branch = targetBranch\<rparr> in
          if following \<in> set (rx_visited s') then s'
          else s'\<lparr>rx_visited := following # rx_visited s', rx_queue := rx_queue s' @ [following]\<rparr>)"

definition state_edges :: "fanoutTopology \<Rightarrow> NodeID \<Rightarrow> Edge list" where
  "state_edges topology nodeID =
     concat (map (\<lambda>tgroup. mget_list (edgesByGroup topology) (tg_ID tgroup)) (mget_list (groupsBySource topology) nodeID))"

definition reference_step ::
  "TaskID \<Rightarrow> (ModelKey, NodeID) gomap \<Rightarrow> fanoutTopology \<Rightarrow> reference_search \<Rightarrow> reference_search" where
  "reference_step taskID nodeIDsByKey topology s =
     (case rx_queue s of
        [] \<Rightarrow> s
      | state # queue \<Rightarrow>
          fold (enqueue_reference taskID nodeIDsByKey topology state) (state_edges topology (ref_nodeID state))
            (s\<lparr>rx_queue := queue\<rparr>))"

definition reference_start :: "'lock SessionReuseAnalysisInput \<Rightarrow> reference_search" where
  "reference_start inp =
     (let completed = in_CompletedCurrentNode inp; reference = cn_Reference completed;
          taskID = cnr_TaskID reference;
          s = \<lparr>rx_references = [], rx_seen = [], rx_visited = [], rx_queue = []\<rparr>;
          s1 = (if cn_SessionID completed \<noteq> None
                then appendReference taskID (cnr_NodeID reference) (transitionBranchPointer reference) s else s) in
      fold (enqueue_reference taskID (index_node_keys (d_Nodes (in_Workflow inp))) (newFanoutTopology (in_Workflow inp))
              \<lparr>ref_nodeID = cnr_NodeID reference, ref_branch = reuseBranchForReference reference\<rparr>)
        (in_AcceptedBranches inp) s1)"

definition SessionReuseAssociationReferences ::
  "'lock SessionReuseAnalysisInput \<Rightarrow> CurrentNodeReference list option" where
  "SessionReuseAssociationReferences inp =
     map_option rx_references
       (while_option (\<lambda>s. rx_queue s \<noteq> [])
          (reference_step (cnr_TaskID (cn_Reference (in_CompletedCurrentNode inp)))
             (index_node_keys (d_Nodes (in_Workflow inp))) (newFanoutTopology (in_Workflow inp)))
          (reference_start inp))"

end
