(* ===== verification/Wf_Session_Reuse_Props.thy ===== *)
theory Wf_Session_Reuse_Props
  imports Wf_Session_Reuse
begin

text \<open>
  Correctness of the session reuse analysis: the graph search of
  \<open>canReachTerminalOrCAC\<close> finds exactly the reachable ends, the loop of \<open>guaranteedState\<close>
  computes a greatest fixpoint, the worklists end, and the graph they leave is closed under
  the transitions of its states.
\<close>

section \<open>Reaching an end of the graph\<close>

definition path_rel :: "reuseGraph \<Rightarrow> (nat \<times> nat) set" where
  "path_rel graph = {(i, j). i < length (rg_groups graph) \<and> j \<in> set (target_ids graph (rg_groups graph ! i))}"

definition path_end :: "reuseGraph \<Rightarrow> nat \<Rightarrow> bool" where
  "path_end graph i \<longleftrightarrow>
     i \<ge> length (rg_groups graph) \<or> rg_groups graph ! i = [] \<or> cac_transition (rg_groups graph ! i)"

lemma reach_cac_sound:
  "reach_cac_loop graph queue visited \<Longrightarrow> \<exists>i \<in> set queue. \<exists>j. (i, j) \<in> (path_rel graph)\<^sup>* \<and> path_end graph j"
proof (induction graph queue visited rule: reach_cac_loop.induct)
  case (2 graph i queue visited)
  show ?case
  proof (cases "i \<in> set visited \<or> path_end graph i")
    case True
    then show ?thesis using 2 by (auto simp: path_end_def)
  next
    case False
    then have "reach_cac_loop graph (queue @ target_ids graph (rg_groups graph ! i)) (i # visited)"
      using 2 by (auto simp: path_end_def)
    moreover have "i \<notin> set visited" "\<not> (i \<ge> length (rg_groups graph) \<or> rg_groups graph ! i = [])"
        "\<not> cac_transition (rg_groups graph ! i)"
      using False by (auto simp: path_end_def)
    ultimately obtain k j where kj: "k \<in> set (queue @ target_ids graph (rg_groups graph ! i))"
        "(k, j) \<in> (path_rel graph)\<^sup>*" "path_end graph j"
      using "2.IH"(2) by blast
    show ?thesis
    proof (cases "k \<in> set queue")
      case True
      then show ?thesis using kj by auto
    next
      case no: False
      then have "(i, k) \<in> path_rel graph" using kj False by (auto simp: path_rel_def path_end_def)
      then show ?thesis using kj by (auto intro: converse_rtrancl_into_rtrancl)
    qed
  qed
qed simp

lemma reach_cac_complete:
  assumes "\<not> reach_cac_loop graph queue visited"
    and "\<And>i j. i \<in> set visited \<Longrightarrow> (i, j) \<in> path_rel graph \<Longrightarrow> j \<in> set visited \<union> set queue"
    and "\<And>i. i \<in> set visited \<Longrightarrow> \<not> path_end graph i"
  shows "\<exists>V. set visited \<union> set queue \<subseteq> V \<and> (\<forall>i \<in> V. \<not> path_end graph i \<and> (\<forall>j. (i, j) \<in> path_rel graph \<longrightarrow> j \<in> V))"
  using assms
proof (induction graph queue visited rule: reach_cac_loop.induct)
  case (1 graph visited)
  then show ?case by (intro exI [of _ "set visited"]) auto
next
  case (2 graph i queue visited)
  show ?case
  proof (cases "i \<in> set visited")
    case True
    then have "\<exists>V. set visited \<union> set queue \<subseteq> V \<and> (\<forall>i \<in> V. \<not> path_end graph i \<and> (\<forall>j. (i, j) \<in> path_rel graph \<longrightarrow> j \<in> V))"
    proof (rule "2.IH"(1))
      show "\<not> reach_cac_loop graph queue visited" using "2.prems"(1) True by simp
      show "\<And>k j. k \<in> set visited \<Longrightarrow> (k, j) \<in> path_rel graph \<Longrightarrow> j \<in> set visited \<union> set queue"
        using "2.prems"(2) True by (metis UnE UnI1 UnI2 set_ConsD)
    qed (rule "2.prems"(3))
    then show ?thesis using True by (metis Un_insert_right insert_absorb list.simps(15) Un_insert_left UnI1 insert_is_Un le_supE le_supI insert_subset in_mono)
  next
    case False
    have no: "\<not> path_end graph i" using False "2.prems"(1) by (auto simp: path_end_def split: if_splits)
    have "\<exists>V. set (i # visited) \<union> set (queue @ target_ids graph (rg_groups graph ! i)) \<subseteq> V \<and>
        (\<forall>i \<in> V. \<not> path_end graph i \<and> (\<forall>j. (i, j) \<in> path_rel graph \<longrightarrow> j \<in> V))"
    proof (rule "2.IH"(2))
      show "\<not> (i \<ge> length (rg_groups graph) \<or> rg_groups graph ! i = [])" "\<not> cac_transition (rg_groups graph ! i)"
        using no by (auto simp: path_end_def)
      then show "\<not> reach_cac_loop graph (queue @ target_ids graph (rg_groups graph ! i)) (i # visited)"
        using False "2.prems"(1) by auto
      show "\<And>k j. k \<in> set (i # visited) \<Longrightarrow> (k, j) \<in> path_rel graph \<Longrightarrow>
          j \<in> set (i # visited) \<union> set (queue @ target_ids graph (rg_groups graph ! i))"
        using "2.prems"(2) by (fastforce simp: path_rel_def)
    qed (use False no "2.prems"(3) in auto)
    then show ?thesis by auto
  qed
qed

text \<open>
  \<open>canReachTerminalOrCAC\<close> is exact: it holds of a state exactly when some path through the
  graph leads from it to a state with no outgoing groups or with a transition that compacts and
  continues the completed session.
\<close>

theorem canReachTerminalOrCAC_iff:
  "canReachTerminalOrCAC i graph \<longleftrightarrow> (\<exists>j. (i, j) \<in> (path_rel graph)\<^sup>* \<and> path_end graph j)"
proof
  assume "canReachTerminalOrCAC i graph"
  then show "\<exists>j. (i, j) \<in> (path_rel graph)\<^sup>* \<and> path_end graph j"
    using reach_cac_sound [of graph "[i]" "[]"] by (auto simp: canReachTerminalOrCAC_def)
next
  assume "\<exists>j. (i, j) \<in> (path_rel graph)\<^sup>* \<and> path_end graph j"
  then obtain j where j: "(i, j) \<in> (path_rel graph)\<^sup>*" "path_end graph j" by blast
  show "canReachTerminalOrCAC i graph"
  proof (rule ccontr)
    assume "\<not> canReachTerminalOrCAC i graph"
    then obtain V where "i \<in> V"
      and V: "\<And>k. k \<in> V \<Longrightarrow> \<not> path_end graph k" "\<And>k l. k \<in> V \<Longrightarrow> (k, l) \<in> path_rel graph \<Longrightarrow> l \<in> V"
      using reach_cac_complete [of graph "[i]" "[]"] by (auto simp: canReachTerminalOrCAC_def)
    from j(1) \<open>i \<in> V\<close> have "j \<in> V" by (induction rule: rtrancl_induct) (auto dest: V(2))
    with V(1) j(2) show False by blast
  qed
qed


section \<open>The guaranteed fixpoint\<close>

text \<open>A set of states is self-supporting when each of its states can reach an end, and every
  choice of an outgoing group contains a transition that reuses the session or stays in the
  set.\<close>

definition supports :: "reuseGraph \<Rightarrow> bool list \<Rightarrow> nat set \<Rightarrow> nat \<Rightarrow> bool" where
  "supports graph canReach X i \<longleftrightarrow>
     canReach ! i \<and> rg_groups graph ! i \<noteq> [] \<and>
     (\<forall>g \<in> set (rg_groups graph ! i). \<exists>t \<in> set (rg_transitions g).
        rt_guaranteedCAC t \<or> (\<exists>j \<in> X. graphStateID (rt_target t) (rg_states graph) = Some j))"

definition holds_at :: "bool list \<Rightarrow> nat set" where
  "holds_at bs = {i. i < length bs \<and> bs ! i}"

lemma supports_mono: "X \<subseteq> Y \<Longrightarrow> supports graph canReach X i \<Longrightarrow> supports graph canReach Y i"
  by (fastforce simp: supports_def)

lemma next_guaranteed_supports:
  assumes "length guaranteed = length (rg_states graph)"
  shows "next_guaranteed graph canReach guaranteed i \<longleftrightarrow> supports graph canReach (holds_at guaranteed) i"
proof -
  have "transition_guaranteed graph guaranteed t \<longleftrightarrow>
      rt_guaranteedCAC t \<or> (\<exists>j \<in> holds_at guaranteed. graphStateID (rt_target t) (rg_states graph) = Some j)" for t
    using assms by (auto simp: transition_guaranteed_def holds_at_def dest: graphStateID_less split: option.splits)
  then show ?thesis by (auto simp: next_guaranteed_def supports_def list_all_iff list_ex_iff)
qed

text \<open>The loop invariant: everything supported by the current set is in it, so the set only
  shrinks, and it contains every self-supporting set.\<close>

definition fixpoint_inv :: "reuseGraph \<Rightarrow> bool list \<Rightarrow> bool list \<Rightarrow> bool" where
  "fixpoint_inv graph canReach guaranteed \<longleftrightarrow>
     length guaranteed = length (rg_states graph) \<and>
     (\<forall>i < length guaranteed. supports graph canReach (holds_at guaranteed) i \<longrightarrow> guaranteed ! i) \<and>
     (\<forall>X. X \<subseteq> {..<length guaranteed} \<and> (\<forall>i \<in> X. supports graph canReach X i) \<longrightarrow> X \<subseteq> holds_at guaranteed)"

lemma fixpoint_invD:
  assumes "fixpoint_inv graph canReach guaranteed"
  shows "length guaranteed = length (rg_states graph)"
    and "i < length guaranteed \<Longrightarrow> supports graph canReach (holds_at guaranteed) i \<Longrightarrow> guaranteed ! i"
    and "X \<subseteq> {..<length guaranteed} \<Longrightarrow> \<forall>i \<in> X. supports graph canReach X i \<Longrightarrow> X \<subseteq> holds_at guaranteed"
  using assms unfolding fixpoint_inv_def by simp_all

lemma holds_at_drop: "i < length bs \<Longrightarrow> holds_at (bs[i := False]) = holds_at bs - {i}"
  by (auto simp: holds_at_def nth_list_update split: if_splits)

lemma sweep_step_inv:
  assumes inv: "fixpoint_inv graph canReach guaranteed" and i: "i < length guaranteed"
  shows "sweep_step graph canReach i (guaranteed, changed) =
      (if guaranteed ! i \<and> \<not> supports graph canReach (holds_at guaranteed) i then (guaranteed[i := False], True)
       else (guaranteed, changed)) \<and>
    fixpoint_inv graph canReach (fst (sweep_step graph canReach i (guaranteed, changed)))"
proof (cases "guaranteed ! i \<and> \<not> supports graph canReach (holds_at guaranteed) i")
  case True
  have step: "sweep_step graph canReach i (guaranteed, changed) = (guaranteed[i := False], True)"
    using True inv i by (simp add: sweep_step_def next_guaranteed_supports fixpoint_inv_def)
  have sub: "holds_at (guaranteed[i := False]) \<subseteq> holds_at guaranteed" using i by (auto simp: holds_at_drop)
  have "fixpoint_inv graph canReach (guaranteed[i := False])"
    unfolding fixpoint_inv_def
  proof (intro conjI allI impI)
    show "length (guaranteed[i := False]) = length (rg_states graph)" using inv by (simp add: fixpoint_inv_def)
  next
    fix k assume k: "k < length (guaranteed[i := False])"
      and s: "supports graph canReach (holds_at (guaranteed[i := False])) k"
    have "supports graph canReach (holds_at guaranteed) k" by (rule supports_mono [OF sub s])
    moreover from this have "guaranteed ! k" using fixpoint_invD(2) [OF inv] k by simp
    ultimately show "guaranteed[i := False] ! k" using k True by (cases "k = i") simp_all
  next
    fix X assume X: "X \<subseteq> {..<length (guaranteed[i := False])} \<and> (\<forall>i \<in> X. supports graph canReach X i)"
    then have "X \<subseteq> holds_at guaranteed" using fixpoint_invD(3) [OF inv] by simp
    then have "i \<notin> X" using X True supports_mono by blast
    then show "X \<subseteq> holds_at (guaranteed[i := False])" using \<open>X \<subseteq> holds_at guaranteed\<close> i by (auto simp: holds_at_drop)
  qed
  then show ?thesis using True step by simp
next
  case False
  then have "sweep_step graph canReach i (guaranteed, changed) = (guaranteed, changed)"
    using inv i by (auto simp: sweep_step_def next_guaranteed_supports fixpoint_inv_def)
  then show ?thesis using False inv by auto
qed

definition sweep_result ::
  "reuseGraph \<Rightarrow> bool list \<Rightarrow> bool list \<times> bool \<Rightarrow> bool list \<times> bool \<Rightarrow> nat list \<Rightarrow> bool" where
  "sweep_result graph canReach before after ids \<longleftrightarrow>
     fixpoint_inv graph canReach (fst after) \<and> holds_at (fst after) \<subseteq> holds_at (fst before) \<and>
     (snd after \<longrightarrow> snd before \<or> holds_at (fst after) \<noteq> holds_at (fst before)) \<and>
     (\<not> snd after \<longrightarrow> \<not> snd before \<and> fst after = fst before \<and>
        (\<forall>i \<in> set ids. i \<in> holds_at (fst before) \<longrightarrow> supports graph canReach (holds_at (fst before)) i))"

lemma sweep_fold:
  assumes "fixpoint_inv graph canReach (fst st)" and "set ids \<subseteq> {..<length (rg_states graph)}"
  shows "sweep_result graph canReach st (fold (sweep_step graph canReach) ids st) ids"
  using assms
proof (induction ids arbitrary: st)
  case Nil
  then show ?case by (simp add: sweep_result_def)
next
  case (Cons i ids)
  obtain guaranteed changed where st: "st = (guaranteed, changed)" by (cases st)
  have i: "i < length guaranteed" using Cons.prems st by (simp add: fixpoint_inv_def)
  let ?st' = "sweep_step graph canReach i st"
  note step = sweep_step_inv [OF Cons.prems(1) [unfolded st fst_conv] i, of changed, folded st]
  have rest: "sweep_result graph canReach ?st' (fold (sweep_step graph canReach) ids ?st') ids"
    by (rule Cons.IH) (use conjunct2 [OF step] Cons.prems(2) in simp_all)
  show ?case
  proof (cases "guaranteed ! i \<and> \<not> supports graph canReach (holds_at guaranteed) i")
    case True
    then have st': "?st' = (guaranteed[i := False], True)" using step by simp
    have "i \<in> holds_at guaranteed" using True i by (simp add: holds_at_def)
    then have less: "holds_at (guaranteed[i := False]) \<subset> holds_at guaranteed"
      unfolding holds_at_drop [OF i] by blast
    let ?r = "fold (sweep_step graph canReach) ids ?st'"
    have r: "fixpoint_inv graph canReach (fst ?r)" "holds_at (fst ?r) \<subseteq> holds_at (guaranteed[i := False])" "snd ?r"
      using rest unfolding sweep_result_def st' by (simp, simp, (metis snd_conv))
    then have "holds_at (fst ?r) \<subset> holds_at guaranteed" using less by blast
    then show ?thesis using r(1,3) unfolding sweep_result_def st by (simp add: st psubset_eq)
  next
    case False
    then have "?st' = st" using step st by (metis (no_types, lifting))
    moreover have "i \<in> holds_at guaranteed \<longrightarrow> supports graph canReach (holds_at guaranteed) i"
      using False by (simp add: holds_at_def)
    ultimately show ?thesis using rest unfolding sweep_result_def st by (simp; blast)
  qed
qed

lemma holds_at_finite [simp]: "finite (holds_at bs)"
  by (simp add: holds_at_def)

text \<open>The value of the loop: the union of all self-supporting sets.\<close>

definition guaranteed_set :: "reuseGraph \<Rightarrow> nat set" where
  "guaranteed_set graph =
     \<Union> {X. X \<subseteq> {..<length (rg_states graph)} \<and>
            (\<forall>i \<in> X. supports graph (map (\<lambda>i. canReachTerminalOrCAC i graph) [0..<length (rg_states graph)]) X i)}"

lemma guaranteed_fixpoint_eq:
  assumes len: "length (rg_groups graph) = length (rg_states graph)"
  shows "\<exists>gs. guaranteed_fixpoint graph = Some gs \<and> length gs = length (rg_states graph) \<and>
    holds_at gs = guaranteed_set graph"
proof -
  let ?n = "length (rg_states graph)"
  define canReach where "canReach = map (\<lambda>i. canReachTerminalOrCAC i graph) [0..<?n]"
  let ?step = "guaranteed_sweep graph canReach"
  define P where "P = (\<lambda>st :: bool list \<times> bool. fixpoint_inv graph canReach (fst st) \<and>
      (\<not> snd st \<longrightarrow> (\<forall>i \<in> holds_at (fst st). supports graph canReach (holds_at (fst st)) i)))"
  have start: "P (canReach, True)"
    by (auto simp: P_def fixpoint_inv_def canReach_def supports_def holds_at_def subset_iff)
  have sweep: "P (?step st) \<and> card (holds_at (fst (?step st))) \<le> card (holds_at (fst st)) \<and>
      (snd (?step st) \<longrightarrow> card (holds_at (fst (?step st))) < card (holds_at (fst st)))"
    if "P st" for st
  proof -
    let ?r = "fold (sweep_step graph canReach) [0..<?n] (fst st, False)"
    have r: "?step st = ?r" by (simp add: guaranteed_sweep_def len split: prod.split)
    have res: "sweep_result graph canReach (fst st, False) ?r [0..<?n]"
      by (rule sweep_fold) (use that in \<open>auto simp: P_def\<close>)
    have "P ?r"
      unfolding P_def
    proof (intro conjI impI ballI)
      show "fixpoint_inv graph canReach (fst ?r)" using res by (simp add: sweep_result_def)
      fix i assume nc: "\<not> snd ?r" and i: "i \<in> holds_at (fst ?r)"
      have "length (fst ?r) = ?n" using res by (simp add: sweep_result_def fixpoint_inv_def)
      then have "i \<in> set [0..<?n]" using i by (simp add: holds_at_def)
      moreover have "fst ?r = fst st" using res nc by (simp add: sweep_result_def)
      ultimately show "supports graph canReach (holds_at (fst ?r)) i"
        using res nc i by (simp add: sweep_result_def)
    qed
    moreover have "card (holds_at (fst ?r)) \<le> card (holds_at (fst st))"
      using res by (auto simp: sweep_result_def intro!: card_mono)
    moreover have "snd ?r \<longrightarrow> card (holds_at (fst ?r)) < card (holds_at (fst st))"
      using res by (auto simp: sweep_result_def intro!: psubset_card_mono)
    ultimately show ?thesis by (simp only: r)
  qed
  have "\<exists>st. while_option snd ?step (canReach, True) = Some st"
  proof (rule measure_while_option_Some [where P = P and f = "\<lambda>st. 2 * card (holds_at (fst st)) + (if snd st then 1 else 0)"])
    fix st assume "P st" "snd st"
    then show "P (?step st) \<and> 2 * card (holds_at (fst (?step st))) + (if snd (?step st) then 1 else 0)
        < 2 * card (holds_at (fst st)) + (if snd st then 1 else (0::nat))"
      using sweep [of st] by auto
  qed (rule start)
  then obtain st where st: "while_option snd ?step (canReach, True) = Some st" by blast
  have P: "P st" using while_option_rule [of P snd ?step "(canReach, True)" st] sweep start st by blast
  have "\<not> snd st" using while_option_stop [OF st] .
  have inv: "length (fst st) = ?n"
      "\<And>X. X \<subseteq> {..<?n} \<Longrightarrow> \<forall>i \<in> X. supports graph canReach X i \<Longrightarrow> X \<subseteq> holds_at (fst st)"
      "\<forall>i \<in> holds_at (fst st). supports graph canReach (holds_at (fst st)) i"
    using P \<open>\<not> snd st\<close> unfolding P_def fixpoint_inv_def by (metis (no_types, lifting))+
  have "holds_at (fst st) \<subseteq> {..<?n}" using inv(1) by (auto simp: holds_at_def)
  then have "holds_at (fst st) \<subseteq> guaranteed_set graph"
    using inv(3) unfolding guaranteed_set_def canReach_def [symmetric] by blast
  moreover have "guaranteed_set graph \<subseteq> holds_at (fst st)"
    using inv(2) unfolding guaranteed_set_def canReach_def [symmetric] by blast
  ultimately have "holds_at (fst st) = guaranteed_set graph" by blast
  then show ?thesis
    using st inv(1) by (auto simp: guaranteed_fixpoint_def canReach_def [symmetric])
qed

lemma guaranteedState_eq:
  assumes "length (rg_groups graph) = length (rg_states graph)"
  shows "guaranteedState state graph =
    Some (\<exists>i \<in> guaranteed_set graph. graphStateID state (rg_states graph) = Some i)"
proof -
  from guaranteed_fixpoint_eq [OF assms] obtain gs where gs: "guaranteed_fixpoint graph = Some gs"
    "length gs = length (rg_states graph)" "holds_at gs = guaranteed_set graph" by blast
  then have "i \<in> guaranteed_set graph \<longleftrightarrow> gs ! i" if "graphStateID state (rg_states graph) = Some i" for i
    using graphStateID_less [OF that] by (auto simp: holds_at_def)
  then show ?thesis using gs(1) by (auto simp: guaranteedState_def split: option.splits)
qed

section \<open>Path states up to their overwritten map\<close>

definition skeleton :: "reusePathState \<Rightarrow> reusePathState" where
  "skeleton s = s\<lparr>rs_overwritten := []\<rparr>"

lemma sameReusePathState_iff: "sameReusePathState left right \<longleftrightarrow> skeleton left = skeleton right"
  by (cases left; cases right) (auto simp: sameReusePathState_def skeleton_def)

lemma skeleton_overwritten [simp]: "skeleton (s\<lparr>rs_overwritten := m\<rparr>) = skeleton s"
  by (simp add: skeleton_def)

lemma graphStateID_Some:
  "graphStateID s states = Some i \<Longrightarrow> i < length states \<and> skeleton (states ! i) = skeleton s"
  by (induction states arbitrary: i) (auto simp: sameReusePathState_iff split: if_splits)

lemma graphStateID_None: "graphStateID s states = None \<longleftrightarrow> skeleton s \<notin> skeleton ` set states"
  by (induction states) (auto simp: sameReusePathState_iff)

lemma graphStateID_skeleton:
  "(\<exists>i. graphStateID s states = Some i) \<longleftrightarrow> skeleton s \<in> skeleton ` set states"
  using graphStateID_None [of s states] by auto

text \<open>Merging on convergence: keys are united, and a status stays definite only when it is
  definite on both sides. The potential of a map counts the keys that can still become
  \<open>Maybe\<close>; a merge that reports a change lowers it.\<close>

lemma mkeys_update: "fst ` set (AList.update k v m) = insert k (fst ` set m)"
  by (simp add: dom_map_of_conv_image_fst [symmetric])

lemma mkeys_iff: "k \<in> fst ` set m \<longleftrightarrow> (\<exists>v. map_of m k = Some v)"
  by (auto simp: dom_map_of_conv_image_fst [symmetric])

lemma map_of_fold_update:
  assumes "distinct (mkeys m)"
  shows "map_of (fold (\<lambda>(k, v). AList.update k (f k v)) m m') k =
    (case map_of m k of None \<Rightarrow> map_of m' k | Some v \<Rightarrow> Some (f k v))"
  using assms
proof (induction m arbitrary: m')
  case (Cons p m)
  obtain k' v where p: "p = (k', v)" by (cases p)
  then have "k' \<notin> fst ` set m" using Cons.prems by simp
  then have "map_of m k' = None" by (simp add: map_of_eq_None_iff)
  then show ?case using Cons p by (cases "k = k'") (simp_all split: option.split)
qed simp

lemma map_of_fold_new:
  "map_of (fold (\<lambda>(k, _) m. if P k then m else AList.update k v m) ps m) k =
    (if \<not> P k \<and> k \<in> fst ` set ps then Some v else map_of m k)"
  by (induction ps arbitrary: m) auto

definition good_map :: "reuseOverwriteKey set \<Rightarrow> overwritten_map \<Rightarrow> bool" where
  "good_map K m \<longleftrightarrow> distinct (mkeys m) \<and> set (mkeys m) \<subseteq> K"

lemma good_map_update: "good_map K m \<Longrightarrow> k \<in> K \<Longrightarrow> good_map K (AList.update k v m)"
  by (simp add: good_map_def distinct_update mkeys_update)

lemma good_map_fold:
  assumes "\<And>p m. p \<in> set ps \<Longrightarrow> good_map K m \<Longrightarrow> good_map K (f p m)" and "good_map K m"
  shows "good_map K (fold f ps m)"
  using assms by (induction ps arbitrary: m) auto

lemma good_map_key: "good_map K m \<Longrightarrow> (k, v) \<in> set m \<Longrightarrow> k \<in> K"
  by (auto simp: good_map_def)

lemma mergeOverwritten_good:
  assumes "good_map K left" and "good_map K right"
  shows "good_map K (fst (mergeOverwritten left right))"
  unfolding mergeOverwritten_def Let_def
  using assms by (auto intro!: good_map_fold good_map_update dest: good_map_key)

lemma mergeComplete_good:
  assumes "good_map K left" and "good_map K right"
  shows "good_map K (mergeCompleteJoinOverwritten left right)"
  unfolding mergeCompleteJoinOverwritten_def
  using assms by (auto intro!: good_map_fold good_map_update dest: good_map_key)

definition potential :: "reuseOverwriteKey set \<Rightarrow> overwritten_map \<Rightarrow> nat" where
  "potential K m = card {k \<in> K. map_of m k \<noteq> Some reuseOverwriteMaybe}"

lemma mergeOverwritten_map_of:
  assumes "distinct (mkeys left)" and "snd (mergeOverwritten left right)"
  shows "map_of (fst (mergeOverwritten left right)) k =
    (case map_of left k of
       Some v \<Rightarrow> Some (merged_status right k v)
     | None \<Rightarrow> if mhas right k then Some reuseOverwriteMaybe else None)"
proof -
  have eq: "mergeOverwritten left right =
      (fold (\<lambda>(key, _) m. if mhas left key then m else AList.update key reuseOverwriteMaybe m) right
         (fold (\<lambda>(key, leftStatus). AList.update key (merged_status right key leftStatus)) left left), True)"
    using assms(2) by (simp add: mergeOverwritten_def Let_def split: if_splits)
  show ?thesis
    unfolding eq fst_conv map_of_fold_new map_of_fold_update [OF assms(1)] mkeys_iff
    by (cases "map_of left k"; cases "map_of right k") simp_all
qed

lemma mergeOverwritten_potential:
  assumes good: "good_map K left" "good_map K right" and K: "finite K" and ch: "snd (mergeOverwritten left right)"
  shows "potential K (fst (mergeOverwritten left right)) < potential K left"
proof -
  have d: "distinct (mkeys left)" using good by (simp add: good_map_def)
  note m = mergeOverwritten_map_of [OF d ch]
  let ?new = "{k \<in> K. map_of (fst (mergeOverwritten left right)) k \<noteq> Some reuseOverwriteMaybe}"
  let ?old = "{k \<in> K. map_of left k \<noteq> Some reuseOverwriteMaybe}"
  have sub: "?new \<subseteq> ?old" by (auto simp: m merged_status_def split: option.splits)
  have "\<exists>k \<in> K. k \<in> ?old \<and> k \<notin> ?new"
  proof -
    from ch consider k v where "(k, v) \<in> set left" "v \<noteq> merged_status right k v"
      | k v where "(k, v) \<in> set right" "\<not> mhas left k"
      by (auto simp: mergeOverwritten_def Let_def list_ex_iff split: if_splits)
    then show ?thesis
    proof cases
      case 1
      then have "map_of left k = Some v" using d by simp
      moreover have "v = reuseOverwriteDefinite" "merged_status right k v = reuseOverwriteMaybe"
        using 1(2) by (cases v; simp add: merged_status_def split: if_splits)+
      ultimately show ?thesis using good_map_key [OF good(1) 1(1)] by (intro bexI [of _ k]) (simp_all add: m)
    next
      case 2
      then have "mhas right k" by (metis mkeys_iff fst_conv image_eqI option.distinct(1))
      then show ?thesis using 2 good_map_key [OF good(2) 2(1)] by (intro bexI [of _ k]) (auto simp: m)
    qed
  qed
  then show ?thesis unfolding potential_def by (intro psubset_card_mono) (use K sub in auto)
qed

section \<open>The worklist ends\<close>

text \<open>The contract the worklist relies on: the path states it meets range, up to their
  overwritten map, over a finite set \<open>U\<close>, the overwritten keys over a finite set \<open>K\<close>, and
  both are closed under the transitions of the analyzer and the reductions at joins.\<close>

definition good_state :: "reusePathState set \<Rightarrow> reuseOverwriteKey set \<Rightarrow> reusePathState \<Rightarrow> bool" where
  "good_state U K s \<longleftrightarrow> skeleton s \<in> U \<and> good_map K (rs_overwritten s)"

definition wless :: "((nat \<times> nat) \<times> (nat \<times> nat)) set" where
  "wless = less_than <*lex*> less_than"

lemma wless_trans: "(x, y) \<in> wless \<Longrightarrow> (y, z) \<in> wless \<Longrightarrow> (x, z) \<in> wless"
  unfolding wless_def by (rule transD [OF trans_lex_prod [OF trans_less_than trans_less_than]])

lemma update_values: "snd ` set (AList.update k v m) \<subseteq> insert v (snd ` set m)"
  by (induction m) auto

lemma map_of_value: "map_of m k = Some v \<Longrightarrow> v \<in> snd ` set m"
  by (force dest: map_of_SomeD)

lemma sum_list_update_less:
  "i < length xs \<Longrightarrow> f y < f (xs ! i) \<Longrightarrow> sum_list (map f (xs[i := y])) < (sum_list (map f xs) :: nat)"
proof (induction xs arbitrary: i)
  case (Cons x xs)
  then show ?case by (cases i) auto
qed simp

locale finite_paths =
  fixes a :: "'lock sessionReuseAnalyzer" and U :: "reusePathState set" and K :: "reuseOverwriteKey set"
  assumes finite_U: "finite U" and finite_K: "finite K"
    and zero_good: "good_state U K zero_state"
    and target_good: "good_state U K s \<Longrightarrow> g \<in> set (fst (stateGroups a s invalid)) \<Longrightarrow>
      t \<in> set (rg_transitions g) \<Longrightarrow> good_state U K (rt_target t)"
    and reduce_good: "good_state U K s \<Longrightarrow> good_state U K r \<Longrightarrow> good_state U K (reduceJoinState s r)"
    and source_good: "good_state U K s \<Longrightarrow> good_state U K r \<Longrightarrow>
      good_state U K (s\<lparr>rs_staticSource := rs_staticSource r\<rparr>)"
    and diverge_good: "good_state U K s \<Longrightarrow>
      good_state U K (s\<lparr>rs_staticSource := static_source staticContinuationSourceDivergent\<rparr>)"
    and joined_good: "good_state U K s \<Longrightarrow> good_state U K r \<Longrightarrow>
      good_state U K (s\<lparr>rs_nodeID := fi_joinID (rs_staticInvocation r), rs_branch := no_branch,
        rs_staticInvocation := no_invocation, rs_joinMode := reuseJoinPartial\<rparr>)"
begin

abbreviation good :: "reusePathState \<Rightarrow> bool" where
  "good \<equiv> good_state U K"

definition good_arrivals :: "join_arrivals \<Rightarrow> bool" where
  "good_arrivals arrivals \<longleftrightarrow> (\<forall>s \<in> snd ` set arrivals. good s)"

definition base_inv :: "build_state \<Rightarrow> bool" where
  "base_inv s \<longleftrightarrow>
     length (rg_groups (bs_graph s)) = length (rg_states (bs_graph s)) \<and>
     length (bs_processed s) = length (rg_states (bs_graph s)) \<and>
     distinct (map skeleton (rg_states (bs_graph s))) \<and>
     (\<forall>st \<in> set (rg_states (bs_graph s)). good st) \<and>
     (\<forall>arrivals \<in> snd ` set (bs_joinArrivals s). good_arrivals arrivals) \<and>
     (\<forall>i \<in> set (bs_queue s). i < length (rg_states (bs_graph s)))"

definition work :: "build_state \<Rightarrow> nat \<times> nat" where
  "work s = (card U - length (rg_states (bs_graph s)),
             sum_list (map (\<lambda>st. potential K (rs_overwritten st)) (rg_states (bs_graph s))))"

definition advances :: "build_state \<Rightarrow> build_state \<Rightarrow> bool" where
  "advances s s' \<longleftrightarrow> (work s', work s) \<in> wless \<or> (work s' = work s \<and> bs_queue s' = bs_queue s)"

lemma advances_trans: "advances s s' \<Longrightarrow> advances s' s'' \<Longrightarrow> advances s s''"
  by (auto simp: advances_def intro: wless_trans)

lemma states_bounded:
  assumes "base_inv s" and "good st" and "skeleton st \<notin> skeleton ` set (rg_states (bs_graph s))"
  shows "length (rg_states (bs_graph s)) < card U"
proof -
  let ?sts = "rg_states (bs_graph s)"
  have "length ?sts = card (skeleton ` set ?sts)"
    using assms(1) distinct_card [of "map skeleton ?sts"] by (simp add: base_inv_def)
  also have "\<dots> < card U"
  proof (rule psubset_card_mono [OF finite_U])
    show "skeleton ` set ?sts \<subset> U" using assms by (auto simp: base_inv_def good_state_def)
  qed
  finally show ?thesis .
qed

lemma addState_new:
  assumes inv: "base_inv s" and st: "good st" and none: "graphStateID st (rg_states (bs_graph s)) = None"
    and add: "addState st s = (s', i, changed)"
  shows "base_inv s' \<and> i < length (rg_states (bs_graph s')) \<and> (work s', work s) \<in> wless"
proof -
  let ?sts = "rg_states (bs_graph s)"
  have eqs: "rg_states (bs_graph s') = ?sts @ [st]" "rg_groups (bs_graph s') = rg_groups (bs_graph s) @ [[]]"
    "bs_processed s' = bs_processed s @ [False]" "i = length ?sts" "bs_queue s' = bs_queue s"
    "bs_joinArrivals s' = bs_joinArrivals s"
    using add none by (auto simp: addState_def Let_def)
  have new: "skeleton st \<notin> skeleton ` set ?sts" using none by (simp add: graphStateID_None)
  then have "length ?sts < card U" using states_bounded inv st by blast
  then have "(work s', work s) \<in> wless" by (auto simp: work_def eqs wless_def)
  moreover have "base_inv s'" using inv st new unfolding base_inv_def eqs by (simp add: less_SucI)
  ultimately show ?thesis by (simp add: eqs)
qed

lemma addState_merge:
  assumes inv: "base_inv s" and st: "good st" and some: "graphStateID st (rg_states (bs_graph s)) = Some i"
    and ch: "snd (mergeOverwritten (rs_overwritten (rg_states (bs_graph s) ! i)) (rs_overwritten st))"
    and add: "addState st s = (s', j, changed)"
  shows "base_inv s' \<and> j < length (rg_states (bs_graph s')) \<and> (work s', work s) \<in> wless"
proof -
  let ?sts = "rg_states (bs_graph s)" and ?m = "mergeOverwritten (rs_overwritten (rg_states (bs_graph s) ! i)) (rs_overwritten st)"
  let ?new = "(?sts ! i)\<lparr>rs_overwritten := fst ?m\<rparr>"
  have i: "i < length ?sts" using graphStateID_Some [OF some] by simp
  have eqs: "rg_states (bs_graph s') = ?sts[i := ?new]" "rg_groups (bs_graph s') = (rg_groups (bs_graph s))[i := []]"
    "bs_processed s' = (bs_processed s)[i := False]" "j = i" "bs_queue s' = bs_queue s"
    "bs_joinArrivals s' = bs_joinArrivals s"
    using add some ch by (auto simp: addState_def Let_def split: prod.splits)
  have good_i: "good (?sts ! i)" using inv i by (simp add: base_inv_def)
  then have good_new: "good ?new" using st by (auto simp: good_state_def intro: mergeOverwritten_good)
  have "potential K (fst ?m) < potential K (rs_overwritten (?sts ! i))"
    using good_i st ch by (intro mergeOverwritten_potential [OF _ _ finite_K]) (simp_all add: good_state_def)
  then have "(work s', work s) \<in> wless"
    using i by (auto simp: work_def eqs wless_def intro!: sum_list_update_less)
  moreover have "map skeleton (?sts[i := ?new]) = map skeleton ?sts" using i by (simp add: map_update list_update_same_conv)
  then have "base_inv s'"
    using inv good_new set_update_subset_insert [of ?sts i ?new] unfolding base_inv_def eqs by auto
  ultimately show ?thesis using i by (simp add: eqs)
qed

lemma addState_same:
  assumes some: "graphStateID st (rg_states (bs_graph s)) = Some i"
    and ch: "\<not> snd (mergeOverwritten (rs_overwritten (rg_states (bs_graph s) ! i)) (rs_overwritten st))"
  shows "addState st s = (s, i, False)"
  using assms by (auto simp: addState_def Let_def split: prod.splits)

lemma addState_changed:
  assumes "base_inv s" and "good st" and "addState st s = (s', i, changed)"
  shows "base_inv s' \<and> i < length (rg_states (bs_graph s')) \<and> ((work s', work s) \<in> wless \<or> s' = s \<and> \<not> changed)"
proof (cases "graphStateID st (rg_states (bs_graph s))")
  case None
  then show ?thesis using addState_new assms by blast
next
  case (Some j)
  show ?thesis
  proof (cases "snd (mergeOverwritten (rs_overwritten (rg_states (bs_graph s) ! j)) (rs_overwritten st))")
    case True
    then show ?thesis using addState_merge Some assms by blast
  next
    case False
    then show ?thesis using addState_same [OF Some False] assms graphStateID_Some [OF Some] by simp
  qed
qed

lemma base_inv_enqueue: "base_inv s \<Longrightarrow> i < length (rg_states (bs_graph s)) \<Longrightarrow> base_inv (enqueue i s)"
  by (auto simp: base_inv_def enqueue_def)

lemma work_enqueue [simp]: "work (enqueue i s) = work s"
  by (simp add: work_def enqueue_def)

lemma base_inv_note [simp]: "base_inv (note_possible t s) = base_inv s"
  by (simp add: base_inv_def note_possible_def)

lemma work_note [simp]: "work (note_possible t s) = work s"
  by (simp add: work_def note_possible_def)

lemma queue_note [simp]: "bs_queue (note_possible t s) = bs_queue s"
  by (simp add: note_possible_def)

lemma add_and_enqueue_advances:
  assumes "base_inv s" and "good st"
  shows "base_inv (add_and_enqueue st s) \<and> advances s (add_and_enqueue st s)"
proof -
  obtain s' i changed where add: "addState st s = (s', i, changed)" by (cases "addState st s")
  from addState_changed [OF assms add] show ?thesis
    by (auto simp: add_and_enqueue_def add advances_def base_inv_enqueue)
qed

lemma empty_arrivals [simp]: "good_arrivals []"
  by (simp add: good_arrivals_def)

lemma good_add_arrival:
  assumes "good_arrivals arrivals" and "good target"
  shows "good_arrivals (add_arrival target arrivals)"
proof -
  let ?prev = "map_of arrivals (fi_sibling (rs_staticInvocation target))"
  define merged where "merged = (case ?prev of
           Some previous \<Rightarrow>
             let m = reduceJoinState previous target in
             if rs_staticSource previous \<noteq> rs_staticSource target
             then m\<lparr>rs_staticSource := static_source staticContinuationSourceDivergent\<rparr> else m
         | None \<Rightarrow> target)"
  have "good merged"
  proof (cases ?prev)
    case None
    then show ?thesis using assms(2) by (simp add: merged_def)
  next
    case (Some previous)
    have "good previous" using assms(1) map_of_value [OF Some] unfolding good_arrivals_def by blast
    then have "good (reduceJoinState previous target)" using assms(2) reduce_good by blast
    then show ?thesis using diverge_good by (simp add: merged_def Some Let_def)
  qed
  moreover have "add_arrival target arrivals = AList.update (fi_sibling (rs_staticInvocation target)) merged arrivals"
    by (simp add: add_arrival_def Let_def merged_def)
  ultimately show ?thesis
    using assms(1) update_values [of "fi_sibling (rs_staticInvocation target)" merged arrivals]
    unfolding good_arrivals_def by (metis (no_types, lifting) insertE subsetD)
qed

lemma good_arrival_of: "good_arrivals arrivals \<Longrightarrow> good (arrival_of arrivals sibling)"
  using zero_good by (cases "map_of arrivals sibling") (auto simp: arrival_of_def good_arrivals_def dest: map_of_value)

lemma good_join_fold:
  assumes "good_arrivals arrivals" and "good reduced" and "good (reduced\<lparr>rs_staticSource := source\<rparr>)"
    and "fold (join_step arrivals) siblings (source, reduced) = (source', reduced')"
  shows "good (reduced'\<lparr>rs_staticSource := source'\<rparr>)"
  using assms(2-4)
proof (induction siblings arbitrary: source reduced)
  case (Cons sibling siblings)
  let ?st = "arrival_of arrivals sibling"
  let ?source = "if source \<noteq> rs_staticSource ?st then static_source staticContinuationSourceDivergent else source"
  have st: "good ?st" using good_arrival_of assms(1) by blast
  have red: "good (reduceJoinState reduced ?st)" using reduce_good Cons.prems st by blast
  have "good ((reduceJoinState reduced ?st)\<lparr>rs_staticSource := ?source\<rparr>)"
    using diverge_good [OF red] source_good [OF red st] by simp
  then show ?case using Cons.IH [OF red] Cons.prems by (simp add: join_step_def Let_def)
qed simp

lemma good_joined_state:
  assumes "good_arrivals arrivals" and "good target"
  shows "good (joined_state arrivals siblings (fi_joinID (rs_staticInvocation target)))"
proof -
  obtain source reduced where red: "reduce_arrivals arrivals siblings = (source, reduced)"
    by (cases "reduce_arrivals arrivals siblings")
  have "good (reduced\<lparr>rs_staticSource := source\<rparr>)"
  proof (cases siblings)
    case Nil
    have "zero_state\<lparr>rs_staticSource := static_source staticContinuationSourceAbsent\<rparr> = zero_state"
      by (simp add: zero_state_def)
    then show ?thesis using red Nil zero_good by (auto simp: reduce_arrivals_def)
  next
    case (Cons sibling rest)
    have first: "good (arrival_of arrivals sibling)" using good_arrival_of assms(1) by blast
    show ?thesis
      using good_join_fold [OF assms(1) first, of "rs_staticSource (arrival_of arrivals sibling)" siblings source reduced]
        first red Cons by (simp add: reduce_arrivals_def Let_def)
  qed
  from joined_good [OF this assms(2)] show ?thesis by (cases reduced) (simp add: joined_state_def red)
qed

lemma visit_advances:
  assumes inv: "base_inv s" and good: "good (rt_target t)"
  shows "base_inv (visit_transition a t s) \<and> advances s (visit_transition a t s)"
proof (cases "fi_joinID (rs_staticInvocation (rt_target t)) = rs_nodeID (rt_target t)")
  case False
  then show ?thesis
    using add_and_enqueue_advances [of "note_possible t s" "rt_target t"] inv good
    by (simp add: visit_transition_def Let_def advances_def)
next
  case True
  let ?key = "aggregationKey (rs_staticInvocation (rt_target t))"
  define arrivals where "arrivals = add_arrival (rt_target t)
    (case map_of (bs_joinArrivals (note_possible t s)) ?key of None \<Rightarrow> [] | Some arrivals \<Rightarrow> arrivals)"
  define siblings where "siblings = fanout_siblings a (fi_groupID (rs_staticInvocation (rt_target t)))"
  define s' where "s' = (note_possible t s)\<lparr>bs_joinArrivals := AList.update ?key arrivals (bs_joinArrivals (note_possible t s))\<rparr>"
  have visit: "visit_transition a t s =
      (if length arrivals \<noteq> length siblings then s'
       else add_and_enqueue (joined_state arrivals siblings (fi_joinID (rs_staticInvocation (rt_target t)))) s')"
    using True by (simp add: visit_transition_def Let_def arrivals_def siblings_def s'_def)
  have "\<forall>m \<in> snd ` set (bs_joinArrivals s). good_arrivals m" using inv by (simp add: base_inv_def)
  then have "good_arrivals (case map_of (bs_joinArrivals (note_possible t s)) ?key of None \<Rightarrow> [] | Some arrivals \<Rightarrow> arrivals)"
    by (cases "map_of (bs_joinArrivals s) ?key") (auto simp add: note_possible_def simp del: image_iff ball_simps dest: map_of_value)
  then have arr: "good_arrivals arrivals" unfolding arrivals_def by (rule good_add_arrival) (rule good)
  have "\<forall>m \<in> snd ` set (bs_joinArrivals s'). good_arrivals m"
    using update_values [of ?key arrivals "bs_joinArrivals s"] arr \<open>\<forall>m \<in> snd ` set (bs_joinArrivals s). good_arrivals m\<close>
    by (simp add: s'_def note_possible_def subset_iff del: image_iff ball_simps) blast
  then have s': "base_inv s'" "work s' = work s" "bs_queue s' = bs_queue s"
    using inv by (auto simp: s'_def base_inv_def note_possible_def work_def)
  show ?thesis
    using add_and_enqueue_advances [OF s'(1) good_joined_state [OF arr good, of siblings]] s'
    by (auto simp: visit advances_def)
qed

lemma visits_advance:
  assumes "base_inv s" and "\<forall>t \<in> set ts. good (rt_target t)"
  shows "base_inv (fold (visit_transition a) ts s) \<and> advances s (fold (visit_transition a) ts s)"
  using assms
proof (induction ts arbitrary: s)
  case (Cons t ts)
  then show ?case using visit_advances [of s t] advances_trans by fastforce
qed (simp add: advances_def)

end

section \<open>What a step records\<close>

text \<open>The transitions of a state do not depend on the set of invalid edges, and that set grows
  by the edges the state itself invalidates.\<close>

definition out_edges :: "'lock sessionReuseAnalyzer \<Rightarrow> NodeID \<Rightarrow> Edge list" where
  "out_edges a nodeID =
     concat (map (\<lambda>tgroup. mget_list (an_edgesByGroup a) (tg_ID tgroup)) (mget_list (an_groupsBySource a) nodeID))"

definition edge_invalid_at :: "'lock sessionReuseAnalyzer \<Rightarrow> reusePathState \<Rightarrow> Edge \<Rightarrow> bool" where
  "edge_invalid_at a s edge \<longleftrightarrow>
     an_staticValidation a \<and>
     (\<exists>target. map_of (an_nodesByID a) (e_TargetNodeID edge) = Some target \<and>
               static_edge_invalid (rs_staticSource s) edge target)"

definition invalid_at :: "'lock sessionReuseAnalyzer \<Rightarrow> reusePathState \<Rightarrow> EdgeID set" where
  "invalid_at a s = {e_ID edge | edge. edge \<in> set (out_edges a (rs_nodeID s)) \<and> edge_invalid_at a s edge}"

lemma invalid_at_skeleton [simp]: "invalid_at a (skeleton s) = invalid_at a s"
  by (simp add: invalid_at_def edge_invalid_at_def skeleton_def)

definition edge_target :: "'lock sessionReuseAnalyzer \<Rightarrow> reusePathState \<Rightarrow> Edge \<Rightarrow> reuseTransition option" where
  "edge_target a s edge = fst (applyEdge a s edge [])"

definition decorate :: "'lock sessionReuseAnalyzer \<Rightarrow> reusePathState \<Rightarrow> TransitionGroupID \<Rightarrow> Edge \<Rightarrow> reuseTransition \<Rightarrow> reuseTransition" where
  "decorate a s groupID edge t =
     (case map_of (an_staticFanouts a) groupID of
        Some fanout \<Rightarrow> with_invocation s edge groupID fanout t
      | None \<Rightarrow> inherit_invocation s t)"

lemma applyEdge_eq:
  "applyEdge a s edge invalid =
     (edge_target a s edge, if edge_invalid_at a s edge then List.insert (e_ID edge) invalid else invalid)"
  by (auto simp: applyEdge_def edge_target_def edge_invalid_at_def Let_def split: option.splits prod.splits)

definition bad_ids :: "'lock sessionReuseAnalyzer \<Rightarrow> reusePathState \<Rightarrow> Edge list \<Rightarrow> EdgeID set" where
  "bad_ids a s edges = set (map e_ID (filter (edge_invalid_at a s) edges))"

lemma bad_ids_simps [simp]:
  "bad_ids a s [] = {}"
  "bad_ids a s (edge # edges) = (if edge_invalid_at a s edge then {e_ID edge} else {}) \<union> bad_ids a s edges"
  "bad_ids a s (xs @ ys) = bad_ids a s xs \<union> bad_ids a s ys"
  by (auto simp: bad_ids_def)

lemma edge_transitions_eq:
  "fst (edge_transitions a s groupID edges invalid) =
     List.map_filter (\<lambda>edge. map_option (decorate a s groupID edge) (edge_target a s edge)) edges \<and>
   set (snd (edge_transitions a s groupID edges invalid)) = set invalid \<union> bad_ids a s edges"
proof (induction edges arbitrary: invalid)
  case (Cons edge edges)
  let ?inv = "if edge_invalid_at a s edge then List.insert (e_ID edge) invalid else invalid"
  show ?case
    using Cons [of ?inv]
    by (auto simp: applyEdge_eq decorate_def map_filter_simps split: prod.splits option.splits)
qed (simp add: map_filter_simps)

lemma state_groups_loop_eq:
  "fst (state_groups_loop a s tgroups invalid) =
     map (\<lambda>tgroup. \<lparr>rg_transitions =
       List.map_filter (\<lambda>edge. map_option (decorate a s (tg_ID tgroup) edge) (edge_target a s edge))
         (mget_list (an_edgesByGroup a) (tg_ID tgroup))\<rparr>) tgroups \<and>
   set (snd (state_groups_loop a s tgroups invalid)) =
     set invalid \<union> bad_ids a s (concat (map (\<lambda>tgroup. mget_list (an_edgesByGroup a) (tg_ID tgroup)) tgroups))"
proof (induction tgroups arbitrary: invalid)
  case (Cons tgroup tgroups)
  obtain ts invalid' where e: "edge_transitions a s (tg_ID tgroup) (mget_list (an_edgesByGroup a) (tg_ID tgroup)) invalid = (ts, invalid')"
    by (cases "edge_transitions a s (tg_ID tgroup) (mget_list (an_edgesByGroup a) (tg_ID tgroup)) invalid")
  obtain gs invalid'' where g: "state_groups_loop a s tgroups invalid' = (gs, invalid'')"
    by (cases "state_groups_loop a s tgroups invalid'")
  show ?case
    using Cons [of invalid'] edge_transitions_eq [of a s "tg_ID tgroup" "mget_list (an_edgesByGroup a) (tg_ID tgroup)" invalid]
    by (simp add: e g Un_assoc)
qed simp

lemma stateGroups_eq:
  "fst (stateGroups a s invalid) =
     map (\<lambda>tgroup. \<lparr>rg_transitions =
       List.map_filter (\<lambda>edge. map_option (decorate a s (tg_ID tgroup) edge) (edge_target a s edge))
         (mget_list (an_edgesByGroup a) (tg_ID tgroup))\<rparr>) (mget_list (an_groupsBySource a) (rs_nodeID s)) \<and>
   set (snd (stateGroups a s invalid)) = set invalid \<union> invalid_at a s"
proof -
  have "invalid_at a s = bad_ids a s (out_edges a (rs_nodeID s))"
    by (auto simp: invalid_at_def bad_ids_def)
  then show ?thesis
    using state_groups_loop_eq [of a s "mget_list (an_groupsBySource a) (rs_nodeID s)" invalid]
    unfolding stateGroups_def out_edges_def by simp
qed

definition groups_of :: "'lock sessionReuseAnalyzer \<Rightarrow> reusePathState \<Rightarrow> reuseGroup list" where
  "groups_of a s = fst (stateGroups a s [])"

lemma stateGroups_groups [simp]: "fst (stateGroups a s invalid) = groups_of a s"
  using stateGroups_eq [of a s invalid] stateGroups_eq [of a s "[]"] by (simp add: groups_of_def)

definition state_transitions :: "'lock sessionReuseAnalyzer \<Rightarrow> reusePathState \<Rightarrow> reuseTransition list" where
  "state_transitions a s = concat (map rg_transitions (groups_of a s))"

lemma map_filter_mem: "y \<in> set (List.map_filter f xs) \<longleftrightarrow> (\<exists>x \<in> set xs. f x = Some y)"
  by (induction xs) (auto simp: map_filter_simps split: option.splits)

lemma state_transitions_mem:
  "t \<in> set (state_transitions a s) \<longleftrightarrow>
     (\<exists>tgroup \<in> set (mget_list (an_groupsBySource a) (rs_nodeID s)).
      \<exists>edge \<in> set (mget_list (an_edgesByGroup a) (tg_ID tgroup)).
      \<exists>t'. edge_target a s edge = Some t' \<and> decorate a s (tg_ID tgroup) edge t' = t)"
proof -
  have eq: "groups_of a s = map (\<lambda>tgroup. \<lparr>rg_transitions =
       List.map_filter (\<lambda>edge. map_option (decorate a s (tg_ID tgroup) edge) (edge_target a s edge))
         (mget_list (an_edgesByGroup a) (tg_ID tgroup))\<rparr>) (mget_list (an_groupsBySource a) (rs_nodeID s))"
    unfolding groups_of_def by (rule conjunct1 [OF stateGroups_eq])
  show ?thesis unfolding state_transitions_def eq by (simp add: map_filter_mem)
qed

definition join_arrival :: "reuseTransition \<Rightarrow> bool" where
  "join_arrival t \<longleftrightarrow> fi_joinID (rs_staticInvocation (rt_target t)) = rs_nodeID (rt_target t)"

definition settled :: "build_state \<Rightarrow> reuseTransition \<Rightarrow> bool" where
  "settled s t \<longleftrightarrow>
     (join_arrival t \<or> skeleton (rt_target t) \<in> skeleton ` set (rg_states (bs_graph s))) \<and>
     (rt_possibleReuse t \<longrightarrow> rg_possibleReuse (bs_graph s))"

text \<open>How a visit changes the worklist state: an entry is untouched, or it is unprocessed, has
  no groups and waits in the queue.\<close>

definition entry_kept :: "build_state \<Rightarrow> build_state \<Rightarrow> nat \<Rightarrow> bool" where
  "entry_kept s s' i \<longleftrightarrow>
     i < length (rg_states (bs_graph s)) \<and> rg_states (bs_graph s') ! i = rg_states (bs_graph s) ! i \<and>
     bs_processed s' ! i = bs_processed s ! i \<and> rg_groups (bs_graph s') ! i = rg_groups (bs_graph s) ! i"

definition entry_waits :: "build_state \<Rightarrow> nat \<Rightarrow> bool" where
  "entry_waits s i \<longleftrightarrow> \<not> bs_processed s ! i \<and> rg_groups (bs_graph s) ! i = [] \<and> i \<in> set (bs_queue s)"

definition grows :: "build_state \<Rightarrow> build_state \<Rightarrow> bool" where
  "grows s s' \<longleftrightarrow>
     set (bs_queue s) \<subseteq> set (bs_queue s') \<and>
     skeleton ` set (rg_states (bs_graph s)) \<subseteq> skeleton ` set (rg_states (bs_graph s')) \<and>
     bs_invalid s' = bs_invalid s \<and>
     (rg_possibleReuse (bs_graph s) \<longrightarrow> rg_possibleReuse (bs_graph s'))"

definition local_change :: "build_state \<Rightarrow> build_state \<Rightarrow> bool" where
  "local_change s s' \<longleftrightarrow>
     (\<forall>i < length (rg_states (bs_graph s')). entry_kept s s' i \<or> entry_waits s' i) \<and> grows s s'"

lemma local_change_refl: "local_change s s"
  by (simp add: local_change_def entry_kept_def grows_def)

lemma entry_waits_later: "entry_waits s i \<Longrightarrow> entry_kept s s' i \<Longrightarrow> grows s s' \<Longrightarrow> entry_waits s' i"
  by (auto simp: entry_waits_def entry_kept_def grows_def)

lemma entry_kept_trans: "entry_kept s s' i \<Longrightarrow> entry_kept s' s'' i \<Longrightarrow> entry_kept s s'' i"
  by (simp add: entry_kept_def)

lemma grows_trans: "grows s s' \<Longrightarrow> grows s' s'' \<Longrightarrow> grows s s''"
  unfolding grows_def by (elim conjE; intro conjI) (metis order_trans | simp)+

lemma local_change_trans:
  assumes "local_change s s'" and "local_change s' s''"
  shows "local_change s s''"
  unfolding local_change_def
proof (intro conjI allI impI)
  show "grows s s''" using assms grows_trans by (auto simp: local_change_def)
  fix i assume i: "i < length (rg_states (bs_graph s''))"
  show "entry_kept s s'' i \<or> entry_waits s'' i"
  proof (cases "entry_waits s'' i")
    case False
    with i assms(2) have k: "entry_kept s' s'' i" and g: "grows s' s''" by (auto simp: local_change_def)
    then have "i < length (rg_states (bs_graph s'))" by (simp add: entry_kept_def)
    then show ?thesis
      using assms(1) k g False entry_waits_later entry_kept_trans unfolding local_change_def by blast
  qed simp
qed

lemma settled_mono: "local_change s s' \<Longrightarrow> settled s t \<Longrightarrow> settled s' t"
  unfolding local_change_def settled_def grows_def by blast

section \<open>The graph that is built\<close>

definition graph_closed :: "'lock sessionReuseAnalyzer \<Rightarrow> reuseTransition list \<Rightarrow> reuseGraph \<Rightarrow> bool" where
  "graph_closed a initial graph \<longleftrightarrow>
     length (rg_groups graph) = length (rg_states graph) \<and> distinct (map skeleton (rg_states graph)) \<and>
     (\<forall>i < length (rg_states graph). rg_groups graph ! i = groups_of a (rg_states graph ! i)) \<and>
     (\<forall>t \<in> set initial. (\<exists>i. graphStateID (rt_target t) (rg_states graph) = Some i) \<and>
                         (rt_possibleReuse t \<longrightarrow> rg_possibleReuse graph)) \<and>
     (\<forall>s \<in> set (rg_states graph). \<forall>t \<in> set (state_transitions a s).
        (join_arrival t \<or> (\<exists>i. graphStateID (rt_target t) (rg_states graph) = Some i)) \<and>
        (rt_possibleReuse t \<longrightarrow> rg_possibleReuse graph))"

context finite_paths
begin

lemma target_good': "good s \<Longrightarrow> t \<in> set (state_transitions a s) \<Longrightarrow> good (rt_target t)"
  using target_good [of s _ "[]" t] by (auto simp: state_transitions_def)

lemma add_local:
  assumes inv: "base_inv s"
  shows "local_change s (add_and_enqueue st s) \<and>
    skeleton st \<in> skeleton ` set (rg_states (bs_graph (add_and_enqueue st s)))"
proof (cases "graphStateID st (rg_states (bs_graph s))")
  case None
  then have "add_and_enqueue st s = enqueue (length (rg_states (bs_graph s)))
      (s\<lparr>bs_graph := (bs_graph s)\<lparr>rg_states := rg_states (bs_graph s) @ [st], rg_groups := rg_groups (bs_graph s) @ [[]]\<rparr>,
         bs_processed := bs_processed s @ [False]\<rparr>)"
    by (simp add: add_and_enqueue_def addState_def Let_def)
  then show ?thesis
    using inv by (auto simp: local_change_def grows_def entry_kept_def entry_waits_def enqueue_def base_inv_def
        nth_append less_Suc_eq)
next
  case (Some i)
  note i = graphStateID_Some [OF Some]
  let ?m = "mergeOverwritten (rs_overwritten (rg_states (bs_graph s) ! i)) (rs_overwritten st)"
  show ?thesis
  proof (cases "snd ?m")
    case False
    then have "add_and_enqueue st s = s" using addState_same [OF Some] by (simp add: add_and_enqueue_def)
    then show ?thesis using i local_change_refl by (metis image_eqI nth_mem)
  next
    case True
    let ?new = "(rg_states (bs_graph s) ! i)\<lparr>rs_overwritten := fst ?m\<rparr>"
    let ?sts = "(rg_states (bs_graph s))[i := ?new]"
    have s': "add_and_enqueue st s = enqueue i
        (s\<lparr>bs_graph := (bs_graph s)\<lparr>rg_states := ?sts, rg_groups := (rg_groups (bs_graph s))[i := []]\<rparr>,
           bs_processed := (bs_processed s)[i := False]\<rparr>)"
      using Some True by (cases ?m) (simp add: add_and_enqueue_def addState_def Let_def)
    have "map skeleton ?sts = map skeleton (rg_states (bs_graph s))"
      using i by (simp add: map_update list_update_same_conv)
    then have sk: "skeleton ` set ?sts = skeleton ` set (rg_states (bs_graph s))" by (metis list.set_map)
    have "grows s (add_and_enqueue st s)" using sk by (auto simp: s' grows_def enqueue_def)
    moreover have "rg_states (bs_graph (add_and_enqueue st s)) = ?sts" by (simp add: s' enqueue_def)
    moreover have "skeleton st \<in> skeleton ` set (rg_states (bs_graph s))" using i by (metis image_eqI nth_mem)
    moreover have "entry_kept s (add_and_enqueue st s) j \<or> entry_waits (add_and_enqueue st s) j"
      if "j < length (rg_states (bs_graph s))" for j
      using that inv i by (cases "j = i") (simp_all add: s' entry_kept_def entry_waits_def enqueue_def base_inv_def)
    ultimately show ?thesis unfolding local_change_def using sk by simp
  qed
qed

lemma local_change_note: "local_change s (note_possible t s)"
  by (simp add: local_change_def entry_kept_def grows_def note_possible_def)

lemma local_change_from_note: "local_change (note_possible t s) s' \<Longrightarrow> local_change s s' \<and> (rt_possibleReuse t \<longrightarrow> rg_possibleReuse (bs_graph s'))"
proof (intro conjI impI)
  assume l: "local_change (note_possible t s) s'"
  then show "local_change s s'" by (rule local_change_trans [OF local_change_note])
  assume "rt_possibleReuse t"
  then show "rg_possibleReuse (bs_graph s')" using l by (simp add: local_change_def grows_def note_possible_def)
qed

lemma visit_local:
  assumes inv: "base_inv s"
  shows "local_change s (visit_transition a t s) \<and> settled (visit_transition a t s) t"
proof (cases "join_arrival t")
  case False
  let ?s' = "add_and_enqueue (rt_target t) (note_possible t s)"
  have "visit_transition a t s = ?s'" using False by (simp add: visit_transition_def join_arrival_def Let_def)
  moreover have "local_change (note_possible t s) ?s' \<and> skeleton (rt_target t) \<in> skeleton ` set (rg_states (bs_graph ?s'))"
    using inv by (intro add_local) simp
  ultimately show ?thesis using local_change_from_note [of t s] by (simp add: settled_def)
next
  case True
  define s' where "s' arrivals = (note_possible t s)\<lparr>bs_joinArrivals := arrivals\<rparr>" for arrivals
  have s': "local_change (note_possible t s) (s' arrivals)" for arrivals
    by (simp add: s'_def local_change_def entry_kept_def grows_def)
  let ?key = "aggregationKey (rs_staticInvocation (rt_target t))"
  let ?arr = "add_arrival (rt_target t)
    (case map_of (bs_joinArrivals (note_possible t s)) ?key of None \<Rightarrow> [] | Some arrivals \<Rightarrow> arrivals)"
  define arrivals where "arrivals = AList.update ?key ?arr (bs_joinArrivals (note_possible t s))"
  define st where "st = joined_state ?arr (fanout_siblings a (fi_groupID (rs_staticInvocation (rt_target t))))
    (fi_joinID (rs_staticInvocation (rt_target t)))"
  have "visit_transition a t s \<in> {s' arrivals, add_and_enqueue st (s' arrivals)}"
    using True by (simp add: visit_transition_def join_arrival_def Let_def s'_def arrivals_def st_def)
  moreover have "local_change (s' arrivals) (add_and_enqueue st (s' arrivals))"
  proof -
    have "rg_states (bs_graph (s' arrivals)) = rg_states (bs_graph s)" by (simp add: s'_def note_possible_def)
    have "local_change (note_possible t s) (add_and_enqueue st (note_possible t s))"
      using inv add_local by simp
    moreover have "add_and_enqueue st (s' arrivals) = (add_and_enqueue st (note_possible t s))\<lparr>bs_joinArrivals := arrivals\<rparr>"
      by (auto simp: s'_def add_and_enqueue_def addState_def enqueue_def Let_def split: option.splits prod.splits)
    ultimately show ?thesis by (simp add: s'_def local_change_def entry_kept_def entry_waits_def grows_def)
  qed
  ultimately have "local_change (note_possible t s) (visit_transition a t s)"
    using s' [of arrivals] local_change_trans by auto
  then show ?thesis using local_change_from_note [of t s] True by (simp add: settled_def)
qed

lemma visits_local:
  assumes "base_inv s" and "\<forall>t \<in> set ts. good (rt_target t)"
  shows "local_change s (fold (visit_transition a) ts s) \<and> (\<forall>t \<in> set ts. settled (fold (visit_transition a) ts s) t)"
  using assms
proof (induction ts arbitrary: s)
  case Nil
  then show ?case by (simp add: local_change_refl)
next
  case (Cons t ts)
  let ?s1 = "visit_transition a t s"
  have one: "local_change s ?s1" "settled ?s1 t" using visit_local Cons.prems by blast+
  have "base_inv ?s1" using visit_advances Cons.prems by simp
  then have rest: "local_change ?s1 (fold (visit_transition a) ts ?s1)"
      "\<forall>t \<in> set ts. settled (fold (visit_transition a) ts ?s1) t"
    using Cons by auto
  show ?case using local_change_trans [OF one(1) rest(1)] settled_mono [OF rest(1) one(2)] rest(2) by simp
qed

text \<open>What holds of the entry of a state: processed, with its groups, its transitions settled
  and its invalid edges noted; or waiting.\<close>

definition entry_closed :: "build_state \<Rightarrow> nat \<Rightarrow> bool" where
  "entry_closed s i \<longleftrightarrow>
     rg_groups (bs_graph s) ! i = groups_of a (rg_states (bs_graph s) ! i) \<and>
     (\<forall>t \<in> set (state_transitions a (rg_states (bs_graph s) ! i)). settled s t) \<and>
     invalid_at a (rg_states (bs_graph s) ! i) \<subseteq> set (bs_invalid s)"

definition closed_inv :: "EdgeID list \<Rightarrow> build_state \<Rightarrow> bool" where
  "closed_inv invalid s \<longleftrightarrow>
     (\<forall>i < length (rg_states (bs_graph s)). (bs_processed s ! i \<and> entry_closed s i) \<or> entry_waits s i) \<and>
     set invalid \<subseteq> set (bs_invalid s) \<and>
     set (bs_invalid s) \<subseteq> set invalid \<union> \<Union> (invalid_at a ` set (rg_states (bs_graph s)))"

lemma invalid_at_mono:
  assumes "skeleton ` A \<subseteq> skeleton ` B"
  shows "\<Union> (invalid_at a ` A) \<subseteq> \<Union> (invalid_at a ` B)"
proof
  fix x assume "x \<in> \<Union> (invalid_at a ` A)"
  then obtain st where "st \<in> A" "x \<in> invalid_at a st" by blast
  moreover from this assms obtain st' where "st' \<in> B" "skeleton st = skeleton st'" by blast
  ultimately show "x \<in> \<Union> (invalid_at a ` B)" by (metis UN_I invalid_at_skeleton)
qed

text \<open>A turn of the loop drops the head of the queue and, when that state is not processed yet,
  marks it and visits its transitions.\<close>

definition dropped :: "build_state \<Rightarrow> build_state" where
  "dropped s = s\<lparr>bs_queue := tl (bs_queue s)\<rparr>"

definition marked :: "build_state \<Rightarrow> build_state" where
  "marked s =
     (let i = hd (bs_queue s); st = rg_states (bs_graph s) ! i in
      s\<lparr>bs_queue := tl (bs_queue s), bs_processed := (bs_processed s)[i := True],
        bs_graph := (bs_graph s)\<lparr>rg_groups := (rg_groups (bs_graph s))[i := groups_of a st]\<rparr>,
        bs_invalid := snd (stateGroups a st (bs_invalid s))\<rparr>)"

abbreviation head_state :: "build_state \<Rightarrow> reusePathState" where
  "head_state s \<equiv> rg_states (bs_graph s) ! hd (bs_queue s)"

abbreviation visited :: "build_state \<Rightarrow> build_state" where
  "visited s \<equiv> fold (visit_transition a) (state_transitions a (head_state s)) (marked s)"

lemma build_step_eq:
  assumes "bs_queue s \<noteq> []"
  shows "build_step a s = (if bs_processed s ! hd (bs_queue s) then dropped s else visited s)"
proof -
  obtain i queue where iq: "bs_queue s = i # queue" using assms by (cases "bs_queue s") auto
  obtain groups invalid where sg: "stateGroups a (rg_states (bs_graph s) ! i) (bs_invalid s) = (groups, invalid)"
    by (cases "stateGroups a (rg_states (bs_graph s) ! i) (bs_invalid s)")
  then have "groups = groups_of a (rg_states (bs_graph s) ! i)"
    using stateGroups_groups [of a "rg_states (bs_graph s) ! i" "bs_invalid s"] by simp
  then show ?thesis
    by (simp add: build_step_def iq sg dropped_def marked_def Let_def state_transitions_def)
qed

lemma head_less: "base_inv s \<Longrightarrow> bs_queue s \<noteq> [] \<Longrightarrow> hd (bs_queue s) < length (rg_states (bs_graph s))"
  by (simp add: base_inv_def)

lemma marked_facts [simp]:
  "rg_states (bs_graph (marked s)) = rg_states (bs_graph s)"
  "rg_possibleReuse (bs_graph (marked s)) = rg_possibleReuse (bs_graph s)"
  "bs_queue (marked s) = tl (bs_queue s)" "work (marked s) = work s"
  "bs_processed (marked s) = (bs_processed s)[hd (bs_queue s) := True]"
  "rg_groups (bs_graph (marked s)) = (rg_groups (bs_graph s))[hd (bs_queue s) := groups_of a (head_state s)]"
  by (simp_all add: marked_def work_def Let_def)

lemma marked_invalid: "set (bs_invalid (marked s)) = set (bs_invalid s) \<union> invalid_at a (head_state s)"
  using stateGroups_eq [of a "head_state s" "bs_invalid s"] by (simp add: marked_def Let_def)

lemma marked_inv: "base_inv s \<Longrightarrow> base_inv (marked s)"
  by (cases "bs_queue s") (simp_all add: base_inv_def marked_def Let_def)

lemma visited_facts:
  assumes inv: "base_inv s" and q: "bs_queue s \<noteq> []"
  shows "base_inv (visited s)" and "advances (marked s) (visited s)" and "local_change (marked s) (visited s)"
    and "t \<in> set (state_transitions a (head_state s)) \<Longrightarrow> settled (visited s) t"
proof -
  have "good (head_state s)" using inv head_less [OF inv q] by (simp add: base_inv_def)
  then have ts: "\<forall>t \<in> set (state_transitions a (head_state s)). good (rt_target t)" using target_good' by blast
  show "base_inv (visited s)" "advances (marked s) (visited s)"
    using visits_advance [OF marked_inv [OF inv] ts] by blast+
  show "local_change (marked s) (visited s)" "t \<in> set (state_transitions a (head_state s)) \<Longrightarrow> settled (visited s) t"
    using visits_local [OF marked_inv [OF inv] ts] by blast+
qed

lemma visited_settled: "base_inv s \<Longrightarrow> bs_queue s \<noteq> [] \<Longrightarrow> settled s t \<Longrightarrow> settled (visited s) t"
  by (rule settled_mono [OF visited_facts(3)]) (simp_all add: settled_def)

lemma visited_invalid:
  assumes "base_inv s" and "bs_queue s \<noteq> []"
  shows "set (bs_invalid (visited s)) = set (bs_invalid s) \<union> invalid_at a (head_state s)"
  using visited_facts(3) [OF assms] by (simp add: local_change_def grows_def marked_invalid)

lemma visited_entry:
  assumes inv: "base_inv s" and q: "bs_queue s \<noteq> []" and cl: "closed_inv invalid s"
    and kept: "entry_kept (marked s) (visited s) i" and nw: "\<not> entry_waits (visited s) i"
  shows "bs_processed (visited s) ! i \<and> entry_closed (visited s) i"
proof -
  have lens: "length (bs_processed s) = length (rg_states (bs_graph s))"
      "length (rg_groups (bs_graph s)) = length (rg_states (bs_graph s))"
      "i < length (rg_states (bs_graph s))"
    using inv kept by (simp_all add: base_inv_def entry_kept_def)
  note invalid = visited_invalid [OF inv q]
  show ?thesis
  proof (cases "i = hd (bs_queue s)")
    case True
    then show ?thesis
      using kept lens visited_facts(4) [OF inv q] invalid by (simp add: entry_kept_def entry_closed_def)
  next
    case False
    then have eqs: "rg_states (bs_graph (visited s)) ! i = rg_states (bs_graph s) ! i"
        "bs_processed (visited s) ! i = bs_processed s ! i"
        "rg_groups (bs_graph (visited s)) ! i = rg_groups (bs_graph s) ! i"
      using kept by (simp_all add: entry_kept_def)
    have "set (tl (bs_queue s)) \<subseteq> set (bs_queue (visited s))"
      using visited_facts(3) [OF inv q] by (simp add: local_change_def grows_def)
    then have "i \<in> set (bs_queue s) \<Longrightarrow> i \<in> set (bs_queue (visited s))" using False q by (cases "bs_queue s") auto
    then have "\<not> entry_waits s i" using nw eqs by (auto simp: entry_waits_def)
    then have "bs_processed s ! i \<and> entry_closed s i" using cl lens by (auto simp: closed_inv_def)
    then show ?thesis using eqs visited_settled [OF inv q] invalid by (simp add: entry_closed_def le_supI1)
  qed
qed

lemma visited_closed:
  assumes inv: "base_inv s" and q: "bs_queue s \<noteq> []" and cl: "closed_inv invalid s"
  shows "closed_inv invalid (visited s)"
proof -
  have loc: "local_change (marked s) (visited s)" by (rule visited_facts(3) [OF inv q])
  have "(bs_processed (visited s) ! i \<and> entry_closed (visited s) i) \<or> entry_waits (visited s) i"
    if "i < length (rg_states (bs_graph (visited s)))" for i
    using visited_entry [OF inv q cl] loc that by (auto simp: local_change_def)
  moreover have "set invalid \<subseteq> set (bs_invalid (visited s))"
    using cl visited_invalid [OF inv q] by (auto simp: closed_inv_def)
  moreover have "set (bs_invalid (visited s)) \<subseteq> set invalid \<union> \<Union> (invalid_at a ` set (rg_states (bs_graph (visited s))))"
  proof -
    have "head_state s \<in> set (rg_states (bs_graph s))" using head_less [OF inv q] by simp
    then have "set (bs_invalid (visited s)) \<subseteq> set invalid \<union> \<Union> (invalid_at a ` set (rg_states (bs_graph s)))"
      using cl visited_invalid [OF inv q] by (auto simp: closed_inv_def)
    also have "\<dots> \<subseteq> set invalid \<union> \<Union> (invalid_at a ` set (rg_states (bs_graph (visited s))))"
      by (rule Un_mono [OF subset_refl invalid_at_mono]) (use loc in \<open>simp add: local_change_def grows_def\<close>)
    finally show ?thesis .
  qed
  ultimately show ?thesis unfolding closed_inv_def by (intro conjI allI impI)
qed

lemma dropped_closed:
  assumes "bs_queue s \<noteq> []" and "bs_processed s ! hd (bs_queue s)" and cl: "closed_inv invalid s"
  shows "closed_inv invalid (dropped s)"
proof -
  have "entry_closed (dropped s) i = entry_closed s i" for i
    by (simp add: entry_closed_def dropped_def settled_def)
  moreover have "entry_waits s i \<Longrightarrow> entry_waits (dropped s) i" for i
    using assms(1,2) by (cases "bs_queue s") (auto simp: entry_waits_def dropped_def)
  ultimately show ?thesis using cl by (auto simp: closed_inv_def) (auto simp: dropped_def)
qed

lemma build_step_inv:
  assumes inv: "base_inv s" and cl: "closed_inv invalid s" and q: "bs_queue s \<noteq> []"
  shows "base_inv (build_step a s) \<and> closed_inv invalid (build_step a s) \<and>
    ((work (build_step a s), work s) \<in> wless \<or>
     work (build_step a s) = work s \<and> length (bs_queue (build_step a s)) < length (bs_queue s))"
proof (cases "bs_processed s ! hd (bs_queue s)")
  case True
  have "base_inv (dropped s)" using inv q by (cases "bs_queue s") (auto simp: base_inv_def dropped_def)
  then show ?thesis
    using True q dropped_closed [OF q True cl] by (simp add: build_step_eq) (simp add: dropped_def work_def)
next
  case False
  have "advances (marked s) (visited s)" by (rule visited_facts(2) [OF inv q])
  then have "(work (visited s), work s) \<in> wless \<or>
      work (visited s) = work s \<and> length (bs_queue (visited s)) < length (bs_queue s)"
    using q by (auto simp: advances_def)
  then show ?thesis
    using False visited_facts(1) [OF inv q] visited_closed [OF inv q cl] by (simp add: build_step_eq [OF q])
qed

lemma build_step_settled:
  assumes "base_inv s" and "bs_queue s \<noteq> []" and "settled s t"
  shows "settled (build_step a s) t"
  using visited_settled [OF assms] assms by (simp add: build_step_eq dropped_def settled_def)

lemma seed_facts:
  assumes inv: "base_inv s" and good: "good (rt_target t)"
  shows "base_inv (seed_transition t s) \<and> local_change s (seed_transition t s) \<and>
    skeleton (rt_target t) \<in> skeleton ` set (rg_states (bs_graph (seed_transition t s))) \<and> settled (seed_transition t s) t"
proof -
  let ?n = "note_possible t s"
  obtain s' i changed where add: "addState (rt_target t) ?n = (s', i, changed)" by (cases "addState (rt_target t) ?n")
  have seed: "seed_transition t s = enqueue i s'" by (simp add: seed_transition_def add)
  have s': "base_inv s'" "i < length (rg_states (bs_graph s'))"
    using addState_changed [OF _ good add] inv by auto
  have l: "local_change ?n (add_and_enqueue (rt_target t) ?n)"
      "skeleton (rt_target t) \<in> skeleton ` set (rg_states (bs_graph (add_and_enqueue (rt_target t) ?n)))"
    using add_local [of ?n "rt_target t"] inv by simp_all
  have e: "add_and_enqueue (rt_target t) ?n = (if changed then enqueue i s' else s')"
    by (simp add: add_and_enqueue_def add)
  have en: "local_change x (enqueue i x)" "rg_states (bs_graph (enqueue i x)) = rg_states (bs_graph x)" for x
    by (auto simp: local_change_def grows_def entry_kept_def enqueue_def)
  have "local_change ?n (enqueue i s')" using l(1) en(1) local_change_trans by (auto simp: e split: if_splits)
  moreover have "skeleton (rt_target t) \<in> skeleton ` set (rg_states (bs_graph (enqueue i s')))"
    using l(2) by (simp add: e en(2) split: if_splits)
  ultimately show ?thesis
    unfolding seed using local_change_from_note [of t s] base_inv_enqueue [OF s'(1,2)] by (simp add: settled_def)
qed

definition seeded :: "build_state \<Rightarrow> reuseTransition \<Rightarrow> bool" where
  "seeded s t \<longleftrightarrow> skeleton (rt_target t) \<in> skeleton ` set (rg_states (bs_graph s)) \<and> settled s t"

lemma seeds_facts:
  assumes "base_inv s" and "\<forall>t \<in> set ts. good (rt_target t)"
  shows "base_inv (fold seed_transition ts s) \<and> local_change s (fold seed_transition ts s) \<and>
    (\<forall>t \<in> set ts. seeded (fold seed_transition ts s) t)"
  using assms
proof (induction ts arbitrary: s)
  case Nil
  then show ?case by (simp add: local_change_refl)
next
  case (Cons t ts)
  let ?s1 = "seed_transition t s"
  have one: "base_inv ?s1" "local_change s ?s1" "seeded ?s1 t" using seed_facts [of s t] Cons.prems by (simp_all add: seeded_def)
  then have rest: "base_inv (fold seed_transition ts ?s1)" "local_change ?s1 (fold seed_transition ts ?s1)"
      "\<forall>t \<in> set ts. seeded (fold seed_transition ts ?s1) t"
    using Cons by simp_all
  have "seeded (fold seed_transition ts ?s1) t"
    using one(3) rest(2) settled_mono [OF rest(2)] unfolding seeded_def local_change_def grows_def by blast
  then show ?case using rest local_change_trans [OF one(2) rest(2)] by simp
qed

lemma build_start_facts:
  assumes "\<forall>t \<in> set initial. good (rt_target t)"
  shows "base_inv (build_start invalid initial) \<and> closed_inv invalid (build_start invalid initial) \<and>
    (\<forall>t \<in> set initial. seeded (build_start invalid initial) t)"
proof -
  let ?s = "\<lparr>bs_graph = \<lparr>rg_states = [], rg_groups = [], rg_possibleReuse = False\<rparr>, bs_processed = [],
        bs_joinArrivals = [], bs_queue = [], bs_invalid = invalid\<rparr>"
  have facts: "base_inv (fold seed_transition initial ?s)" "local_change ?s (fold seed_transition initial ?s)"
      "\<forall>t \<in> set initial. seeded (fold seed_transition initial ?s) t"
    using seeds_facts [of ?s initial] assms by (simp_all add: base_inv_def)
  then have "closed_inv invalid (fold seed_transition initial ?s)"
    by (auto simp: local_change_def closed_inv_def entry_kept_def grows_def)
  with facts show ?thesis by (simp add: build_start_def)
qed

lemma seeded_step: "base_inv s \<Longrightarrow> bs_queue s \<noteq> [] \<Longrightarrow> seeded s t \<Longrightarrow> seeded (build_step a s) t"
proof -
  assume s: "base_inv s" "bs_queue s \<noteq> []" "seeded s t"
  have "skeleton ` set (rg_states (bs_graph s)) \<subseteq> skeleton ` set (rg_states (bs_graph (build_step a s)))"
    using visited_facts(3) [OF s(1,2)] s(2) by (simp add: build_step_eq dropped_def local_change_def grows_def)
  then show ?thesis using s build_step_settled [OF s(1,2)] by (auto simp: seeded_def)
qed

theorem buildGraph_total:
  assumes good: "\<forall>t \<in> set initial. good (rt_target t)"
  shows "\<exists>s. buildGraph a invalid initial = Some (bs_graph s, bs_invalid s) \<and> bs_queue s = [] \<and> base_inv s \<and>
    closed_inv invalid s \<and> (\<forall>t \<in> set initial. seeded s t)"
proof -
  define P where "P s \<longleftrightarrow> base_inv s \<and> closed_inv invalid s \<and> (\<forall>t \<in> set initial. seeded s t)" for s
  let ?b = "\<lambda>s. bs_queue s \<noteq> []" and ?start = "build_start invalid initial"
  have start: "P ?start" using build_start_facts [OF good] by (simp add: P_def)
  have step: "P (build_step a s)" if "P s" "?b s" for s
    using that build_step_inv seeded_step unfolding P_def by blast
  let ?R = "inv_image (wless <*lex*> less_than) (\<lambda>s. (work s, length (bs_queue s)))"
  have "wf wless" unfolding wless_def by (intro wf_lex_prod wf_less_than)
  then have "wf ?R" by (intro wf_inv_image wf_lex_prod wf_less_than)
  then have "wf {(t, s). (P s \<and> ?b s) \<and> t = build_step a s}"
  proof (rule wf_subset)
    show "{(t, s). (P s \<and> ?b s) \<and> t = build_step a s} \<subseteq> ?R"
      using build_step_inv by (auto simp: P_def)
  qed
  from wf_while_option_Some [where P = P and b = ?b and c = "build_step a", OF this step start]
  obtain s where s: "while_option ?b (build_step a) ?start = Some s" by blast
  have "P s" by (rule while_option_rule [where P = P, OF step s start]) 
  moreover have "bs_queue s = []" using while_option_stop [OF s] by simp
  ultimately show ?thesis using s by (auto simp: buildGraph_def P_def)
qed

theorem buildGraph_closed_graph:
  assumes good: "\<forall>t \<in> set initial. good (rt_target t)"
  shows "\<exists>graph invalid'. buildGraph a invalid initial = Some (graph, invalid') \<and> graph_closed a initial graph \<and>
    set invalid' = set invalid \<union> \<Union> (invalid_at a ` set (rg_states graph))"
proof -
  from buildGraph_total [OF good, of invalid] obtain s where
    s: "buildGraph a invalid initial = Some (bs_graph s, bs_invalid s)" "bs_queue s = []"
      "base_inv s" "closed_inv invalid s" "\<forall>t \<in> set initial. seeded s t"
    by blast
  have entry: "entry_closed s i" if "i < length (rg_states (bs_graph s))" for i
    using s(2,4) that by (auto simp: closed_inv_def entry_waits_def)
  have closed: "rg_groups (bs_graph s) ! i = groups_of a (rg_states (bs_graph s) ! i)"
      "\<forall>t \<in> set (state_transitions a (rg_states (bs_graph s) ! i)). settled s t"
      "invalid_at a (rg_states (bs_graph s) ! i) \<subseteq> set (bs_invalid s)" if "i < length (rg_states (bs_graph s))" for i
    using entry [OF that] by (simp_all add: entry_closed_def)
  have "graph_closed a initial (bs_graph s)"
    unfolding graph_closed_def graphStateID_skeleton
  proof (intro conjI)
    show "\<forall>st \<in> set (rg_states (bs_graph s)). \<forall>t \<in> set (state_transitions a st).
        (join_arrival t \<or> skeleton (rt_target t) \<in> skeleton ` set (rg_states (bs_graph s))) \<and>
        (rt_possibleReuse t \<longrightarrow> rg_possibleReuse (bs_graph s))"
      using closed(2) unfolding settled_def by (metis in_set_conv_nth)
  qed (use s(3,5) closed(1) in \<open>simp_all add: base_inv_def seeded_def settled_def\<close>)
  moreover have "set (bs_invalid s) = set invalid \<union> \<Union> (invalid_at a ` set (rg_states (bs_graph s)))"
  proof
    show "set (bs_invalid s) \<subseteq> set invalid \<union> \<Union> (invalid_at a ` set (rg_states (bs_graph s)))"
      using s(4) by (simp add: closed_inv_def)
    have "invalid_at a st \<subseteq> set (bs_invalid s)" if "st \<in> set (rg_states (bs_graph s))" for st
      using closed(3) that by (metis in_set_conv_nth)
    then show "set invalid \<union> \<Union> (invalid_at a ` set (rg_states (bs_graph s))) \<subseteq> set (bs_invalid s)"
      using s(4) unfolding closed_inv_def by blast
  qed
  ultimately show ?thesis using s(1) by blast
qed

end

end
