(* ===== verification/Wf_Session_Reuse_Total.thy ===== *)
theory Wf_Session_Reuse_Total
  imports Wf_Session_Reuse_Props
begin

text \<open>
  The worklists of the session reuse analysis end on every input. The path states built from a
  definition range over a finite universe (\<open>universe\<close>), on which the contract
  \<open>finite_paths\<close> of the worklist is interpreted; the classification, the static validation of
  continuation sources and the search for association references are then total.
\<close>

section \<open>The finite universe of path states\<close>

lemma lineages: "UNIV = {reuseLineageAbsent, reuseLineageCompleted, reuseLineageOther, reuseLineageUnknown}"
  using reuseLineage.exhaust by blast

lemma join_modes: "UNIV = {reuseJoinPartial, reuseJoinComplete}"
  using reuseJoinMode.exhaust by blast

lemma source_kinds: "UNIV = {staticContinuationSourceAbsent, staticContinuationSourceExact, staticContinuationSourceDivergent}"
  using staticContinuationSourceKind.exhaust by blast

instance reuseLineage :: finite
  by standard (simp add: lineages)

instance reuseJoinMode :: finite
  by standard (simp add: join_modes)

instance staticContinuationSourceKind :: finite
  by standard (simp add: source_kinds)

definition all_edges :: "'lock sessionReuseAnalyzer \<Rightarrow> Edge set" where
  "all_edges a = \<Union> (set ` snd ` set (an_edgesByGroup a))"

definition uni_nodes :: "'lock sessionReuseAnalyzer \<Rightarrow> reusePathState list \<Rightarrow> NodeID set" where
  "uni_nodes a T = {''''} \<union> e_TargetNodeID ` all_edges a \<union> sf_joinID ` snd ` set (an_staticFanouts a) \<union>
     snd ` set (an_nodeIDsByKey a) \<union> rs_nodeID ` set T \<union> fi_joinID ` rs_staticInvocation ` set T"

definition uni_branches :: "'lock sessionReuseAnalyzer \<Rightarrow> reusePathState list \<Rightarrow> reuseBranch set" where
  "uni_branches a T = {no_branch} \<union> (\<lambda>e. \<lparr>rb_key = TrimSpace (e_Key e), rb_scoped = True\<rparr>) ` all_edges a \<union> rs_branch ` set T"

definition uni_sessions :: "'lock sessionReuseAnalyzer \<Rightarrow> reusePathState list \<Rightarrow> SessionID set" where
  "uni_sessions a T = {0, an_completedSessionID a} \<union> sra_SessionID ` set (in_RetainedAssociations (an_input a)) \<union>
     rs_activeSourceSessionID ` set T"

definition uni_sources :: "'lock sessionReuseAnalyzer \<Rightarrow> reusePathState list \<Rightarrow> staticContinuationSource set" where
  "uni_sources a T =
     (\<lambda>(k, n, b). \<lparr>scs_kind = k, scs_nodeID = n, scs_branch = b\<rparr>) ` (UNIV \<times> uni_nodes a T \<times> uni_branches a T) \<union>
     rs_staticSource ` set T"

definition uni_entries :: "'lock sessionReuseAnalyzer \<Rightarrow> reusePathState list \<Rightarrow> reuseFanoutEntryState set" where
  "uni_entries a T =
     (\<lambda>(l, s, k, d, src). \<lparr>fe_currentLineage = l, fe_activeSourceSessionID = s, fe_activeSourceKnown = k,
                          fe_completedDormant = d, fe_staticSource = src\<rparr>) `
       (UNIV \<times> uni_sessions a T \<times> UNIV \<times> UNIV \<times> uni_sources a T)"

definition uni_invocations :: "'lock sessionReuseAnalyzer \<Rightarrow> reusePathState list \<Rightarrow> staticFanoutInvocation set" where
  "uni_invocations a T =
     (\<lambda>(g, b, e, s, j). \<lparr>fi_groupID = g, fi_incomingBranch = b, fi_entry = e, fi_sibling = s, fi_joinID = j\<rparr>) `
       (fst ` set (an_staticFanouts a) \<times> uni_branches a T \<times> uni_entries a T \<times> e_Key ` all_edges a \<times>
        sf_joinID ` snd ` set (an_staticFanouts a)) \<union> {no_invocation} \<union> rs_staticInvocation ` set T"

definition universe :: "'lock sessionReuseAnalyzer \<Rightarrow> reusePathState list \<Rightarrow> reusePathState set" where
  "universe a T =
     {s. rs_overwritten s = [] \<and> rs_nodeID s \<in> uni_nodes a T \<and> rs_branch s \<in> uni_branches a T \<and>
         rs_activeSourceSessionID s \<in> uni_sessions a T \<and> rs_staticSource s \<in> uni_sources a T \<and>
         rs_staticInvocation s \<in> uni_invocations a T}"

definition uni_keys :: "'lock sessionReuseAnalyzer \<Rightarrow> reusePathState list \<Rightarrow> reuseOverwriteKey set" where
  "uni_keys a T = (\<lambda>(n, b). \<lparr>ok_nodeID = n, ok_branch = b\<rparr>) ` (uni_nodes a T \<times> uni_branches a T) \<union>
     \<Union> ((\<lambda>s. fst ` set (rs_overwritten s)) ` set T)"

lemma finite_all_edges [simp]: "finite (all_edges a)"
  by (simp add: all_edges_def)

lemma finite_parts [simp]:
  "finite (uni_nodes a T)" "finite (uni_branches a T)" "finite (uni_sessions a T)"
  by (simp_all add: uni_nodes_def uni_branches_def uni_sessions_def)

lemma finite_sources [simp]: "finite (uni_sources a T)"
  by (simp add: uni_sources_def)

lemma finite_invocations [simp]: "finite (uni_invocations a T)"
  by (simp add: uni_invocations_def uni_entries_def)

lemma finite_keys: "finite (uni_keys a T)"
  by (simp add: uni_keys_def)

lemma finite_universe: "finite (universe a T)"
proof (rule finite_subset)
  let ?mk = "\<lambda>(n, b, l, s, k, d, bl, src, i, m).
    \<lparr>rs_nodeID = n, rs_branch = b, rs_currentLineage = l, rs_activeSourceSessionID = s, rs_activeSourceKnown = k,
     rs_completedDormant = d, rs_dormancyBlocked = bl, rs_overwritten = [], rs_staticSource = src,
     rs_staticInvocation = i, rs_joinMode = m\<rparr>"
  let ?S = "uni_nodes a T \<times> uni_branches a T \<times> UNIV \<times> uni_sessions a T \<times> UNIV \<times> UNIV \<times> UNIV \<times> uni_sources a T \<times>
    uni_invocations a T \<times> UNIV"
  show "finite (?mk ` ?S)" by simp
  show "universe a T \<subseteq> ?mk ` ?S"
  proof
    fix s assume "s \<in> universe a T"
    then show "s \<in> ?mk ` ?S"
      by (intro image_eqI [of _ _ "(rs_nodeID s, rs_branch s, rs_currentLineage s, rs_activeSourceSessionID s,
            rs_activeSourceKnown s, rs_completedDormant s, rs_dormancyBlocked s, rs_staticSource s,
            rs_staticInvocation s, rs_joinMode s)"])
        (auto simp: universe_def)
  qed
qed

section \<open>Closure under the transitions\<close>

abbreviation good_in :: "'lock sessionReuseAnalyzer \<Rightarrow> reusePathState list \<Rightarrow> reusePathState \<Rightarrow> bool" where
  "good_in a T \<equiv> good_state (universe a T) (uni_keys a T)"

lemma good_in_iff:
  "good_in a T s \<longleftrightarrow>
     rs_nodeID s \<in> uni_nodes a T \<and> rs_branch s \<in> uni_branches a T \<and> rs_activeSourceSessionID s \<in> uni_sessions a T \<and>
     rs_staticSource s \<in> uni_sources a T \<and> rs_staticInvocation s \<in> uni_invocations a T \<and>
     good_map (uni_keys a T) (rs_overwritten s)"
  by (simp add: good_state_def universe_def skeleton_def)

lemma mget_all_edges: "edge \<in> set (mget_list (an_edgesByGroup a) g) \<Longrightarrow> edge \<in> all_edges a"
  unfolding mget_list_def all_edges_def
  by (cases "map_of (an_edgesByGroup a) g") (auto dest!: map_of_SomeD intro: bexI [rotated])

lemma uni_intros [intro, simp]:
  "'''' \<in> uni_nodes a T" "no_branch \<in> uni_branches a T" "0 \<in> uni_sessions a T"
  "an_completedSessionID a \<in> uni_sessions a T" "no_invocation \<in> uni_invocations a T"
  "edge \<in> all_edges a \<Longrightarrow> e_TargetNodeID edge \<in> uni_nodes a T"
  "map_of (an_nodeIDsByKey a) key = Some n \<Longrightarrow> n \<in> uni_nodes a T"
  by (auto simp: uni_nodes_def uni_branches_def uni_sessions_def uni_invocations_def dest: map_of_value)

lemma uni_source [intro, simp]:
  "n \<in> uni_nodes a T \<Longrightarrow> b \<in> uni_branches a T \<Longrightarrow> \<lparr>scs_kind = k, scs_nodeID = n, scs_branch = b\<rparr> \<in> uni_sources a T"
  unfolding uni_sources_def by (intro UnI1 image_eqI [of _ _ "(k, n, b)"]) simp_all

lemma uni_static_source [intro, simp]: "static_source k \<in> uni_sources a T"
  by (simp add: static_source_def)

lemma uni_nextBranch:
  "b \<in> uni_branches a T \<Longrightarrow> edge \<in> all_edges a \<Longrightarrow> nextReuseBranch b edge target n \<in> uni_branches a T"
  by (auto simp: nextReuseBranch_def Let_def uni_branches_def)

lemma uni_transfer:
  assumes "good_in a T s" and "edge \<in> all_edges a" and "b \<in> uni_branches a T"
  shows "transferStaticContinuationSource a (rs_staticSource s) (rs_nodeID s) (rs_branch s) b edge target \<in> uni_sources a T"
  using assms by (auto simp: transferStaticContinuationSource_def good_in_iff Let_def split: option.splits)

lemma newest_association_mem: "newest_association task b n associations = Some x \<Longrightarrow> x \<in> set associations"
  unfolding newest_association_def find_Some_iff by (metis nth_mem set_rev)

lemma uni_association:
  "associatedLineage a s b n optional = (lineage, association, found) \<Longrightarrow> association_session association \<in> uni_sessions a T"
  by (auto simp: associatedLineage_def association_session_def uni_sessions_def Let_def
      split: if_splits option.splits dest: newest_association_mem)

lemma uni_resolve:
  assumes "good_in a T s" and "resolveContextSource a s source target b = (lineage, session, known, selected)"
  shows "session \<in> uni_sessions a T"
  using assms unfolding resolveContextSource_def Let_def
  by (auto simp: good_in_iff split: if_splits option.splits reuseLineage.splits prod.splits dest: uni_association)

lemma uni_targetContext:
  assumes "good_in a T s" and "targetContext a s edge target b = (lineage, session, known, selected)"
  shows "session \<in> uni_sessions a T"
  using assms unfolding targetContext_def
  by (auto simp: good_in_iff split: if_splits prod.splits dest: uni_resolve [unfolded good_in_iff, rotated])

lemma uni_key: "n \<in> uni_nodes a T \<Longrightarrow> b \<in> uni_branches a T \<Longrightarrow> \<lparr>ok_nodeID = n, ok_branch = b\<rparr> \<in> uni_keys a T"
  by (auto simp: uni_keys_def)

text \<open>The two forms of the target of an edge.\<close>

lemma edge_target_cases:
  assumes "edge_target a s edge = Some t"
  obtains target where "map_of (an_nodesByID a) (e_TargetNodeID edge) = Some target" "an_staticValidation a"
      "t = \<lparr>rt_target = static_target a s edge target (nextReuseBranch (rs_branch s) edge target
              (length (mget_list (an_edgesByGroup a) (e_TransitionGroupID edge)))),
            rt_possibleReuse = False, rt_guaranteedCAC = False\<rparr>"
  | target lineage session known where "map_of (an_nodesByID a) (e_TargetNodeID edge) = Some target" "\<not> an_staticValidation a"
      "targetContext a s edge target (nextReuseBranch (rs_branch s) edge target
         (length (mget_list (an_edgesByGroup a) (e_TransitionGroupID edge)))) = (lineage, session, known, True)"
      "t = dynamic_transition s edge target (nextReuseBranch (rs_branch s) edge target
         (length (mget_list (an_edgesByGroup a) (e_TransitionGroupID edge)))) lineage session known"
  using assms by (auto simp: edge_target_def applyEdge_def Let_def split: option.splits if_splits prod.splits)

lemma good_edge_target:
  assumes s: "good_in a T s" and e: "edge \<in> all_edges a" and t: "edge_target a s edge = Some t"
  shows "good_in a T (rt_target t) \<and> rs_staticInvocation (rt_target t) = no_invocation"
  using t
proof (cases rule: edge_target_cases)
  case (1 target)
  have b: "nextReuseBranch (rs_branch s) edge target n \<in> uni_branches a T" for n
    by (rule uni_nextBranch) (use s e in \<open>simp_all add: good_in_iff\<close>)
  show ?thesis
    using e b uni_transfer [OF s e b]
    by (simp add: 1(3) good_in_iff static_target_def zero_state_def good_map_def)
next
  case (2 target lineage session known)
  have "session \<in> uni_sessions a T" by (rule uni_targetContext [OF s 2(3)])
  moreover have b: "nextReuseBranch (rs_branch s) edge target n \<in> uni_branches a T" for n
    by (rule uni_nextBranch) (use s e in \<open>simp_all add: good_in_iff\<close>)
  moreover have "good_map (uni_keys a T) (rs_overwritten s)" using s by (simp add: good_in_iff)
  ultimately show ?thesis
    using e by (simp add: 2(4) good_in_iff dynamic_transition_def zero_state_def Let_def uni_key good_map_update)
qed

lemma good_decorate:
  assumes s: "good_in a T s" and e: "edge \<in> all_edges a" and t: "good_in a T (rt_target t)"
  shows "good_in a T (rt_target (decorate a s g edge t))"
proof (cases "map_of (an_staticFanouts a) g")
  case None
  then show ?thesis using s t by (simp add: decorate_def inherit_invocation_def good_in_iff)
next
  case (Some fanout)
  have "g \<in> fst ` set (an_staticFanouts a)" using Some by (metis mkeys_iff)
  moreover have "sf_joinID fanout \<in> sf_joinID ` snd ` set (an_staticFanouts a)" using map_of_value [OF Some] by blast
  moreover have "fanoutEntryState s \<in> uni_entries a T"
    unfolding uni_entries_def fanoutEntryState_def
    by (rule image_eqI [of _ _ "(rs_currentLineage s, rs_activeSourceSessionID s, rs_activeSourceKnown s,
          rs_completedDormant s, rs_staticSource s)"]) (use s in \<open>simp_all add: good_in_iff\<close>)
  ultimately have "\<lparr>fi_groupID = g, fi_incomingBranch = rs_branch s, fi_entry = fanoutEntryState s,
      fi_sibling = e_Key edge, fi_joinID = sf_joinID fanout\<rparr> \<in> uni_invocations a T"
    unfolding uni_invocations_def
    by (intro UnI1 image_eqI [of _ _ "(g, rs_branch s, fanoutEntryState s, e_Key edge, sf_joinID fanout)"])
      (use s e in \<open>simp_all add: good_in_iff\<close>)
  then show ?thesis using t by (simp add: decorate_def Some with_invocation_def good_in_iff)
qed

lemma uni_join: "i \<in> uni_invocations a T \<Longrightarrow> fi_joinID i \<in> uni_nodes a T"
  unfolding uni_invocations_def uni_nodes_def no_invocation_def by (elim UnE) (auto simp: image_iff, force)

interpretation fp: finite_paths a "universe a T" "uni_keys a T" for a T
proof
  show "finite (universe a T)" "finite (uni_keys a T)" by (rule finite_universe finite_keys)+
  show "good_in a T zero_state" by (simp add: good_in_iff zero_state_def good_map_def)
  show "good_in a T (rt_target t)"
    if "good_in a T s" "g \<in> set (fst (stateGroups a s invalid))" "t \<in> set (rg_transitions g)" for s g invalid t
  proof -
    have "t \<in> set (state_transitions a s)" using that by (auto simp: state_transitions_def)
    then show ?thesis
      using that(1) good_decorate good_edge_target mget_all_edges unfolding state_transitions_mem by fastforce
  qed
  show "good_in a T (reduceJoinState s r)" if "good_in a T s" "good_in a T r" for s r
    using that by (auto simp: good_in_iff reduceJoinState_def Let_def intro: mergeComplete_good)
  show "good_in a T (s\<lparr>rs_staticSource := rs_staticSource r\<rparr>)" if "good_in a T s" "good_in a T r" for s r
    using that by (simp add: good_in_iff)
  show "good_in a T (s\<lparr>rs_staticSource := static_source staticContinuationSourceDivergent\<rparr>)" if "good_in a T s" for s
    using that by (simp add: good_in_iff)
  show "good_in a T (s\<lparr>rs_nodeID := fi_joinID (rs_staticInvocation r), rs_branch := no_branch,
        rs_staticInvocation := no_invocation, rs_joinMode := reuseJoinPartial\<rparr>)"
    if "good_in a T s" "good_in a T r" for s r
    using that by (simp add: good_in_iff uni_join)
qed

section \<open>Totality and closure of the graph\<close>

lemma initial_good:
  assumes "t \<in> set initial" and "distinct (mkeys (rs_overwritten (rt_target t)))"
  shows "good_in a (map rt_target initial) (rt_target t)"
proof -
  let ?T = "map rt_target initial"
  have t: "rt_target t \<in> set ?T" using assms(1) by simp
  then have "fst ` set (rs_overwritten (rt_target t)) \<subseteq> uni_keys a ?T" unfolding uni_keys_def by blast
  then show ?thesis
    using t assms(2) unfolding good_in_iff good_map_def uni_nodes_def uni_branches_def uni_sessions_def
      uni_sources_def uni_invocations_def by auto
qed

lemma buildGraph_result:
  assumes "\<forall>t \<in> set initial. distinct (mkeys (rs_overwritten (rt_target t)))"
  shows "\<exists>graph invalid'. buildGraph a invalid initial = Some (graph, invalid') \<and> graph_closed a initial graph \<and>
    set invalid' = set invalid \<union> \<Union> (invalid_at a ` set (rg_states graph))"
proof -
  have "\<forall>t \<in> set initial. good_in a (map rt_target initial) (rt_target t)" using assms initial_good by blast
  then show ?thesis by (rule fp.buildGraph_closed_graph)
qed

text \<open>
  C30: The worklist that builds the path-state graph always ends, in spite of cycles in the
  workflow and of states that are re-opened when their overwritten provenance changes. The
  graph it leaves is closed: its states are pairwise distinct, every state carries the groups
  of its own transitions, the target of every transition other than an arrival at a join is a
  state of the graph, and a possible reuse on any of them is noted.
\<close>

theorem buildGraph_closed:
  assumes "\<forall>t \<in> set initial. distinct (mkeys (rs_overwritten (rt_target t)))"
  shows "\<exists>graph invalid'. buildGraph a invalid initial = Some (graph, invalid') \<and> graph_closed a initial graph"
  using buildGraph_result [OF assms] by blast

lemma edge_target_distinct:
  assumes "distinct (mkeys (rs_overwritten s))" and "edge_target a s edge = Some t"
  shows "distinct (mkeys (rs_overwritten (rt_target t)))"
  using assms(2)
  by (cases rule: edge_target_cases)
    (use assms(1) in \<open>simp_all add: static_target_def dynamic_transition_def zero_state_def Let_def distinct_update\<close>)

lemma state_transitions_distinct:
  assumes "distinct (mkeys (rs_overwritten s))" and "t \<in> set (state_transitions a s)"
  shows "distinct (mkeys (rs_overwritten (rt_target t)))"
proof -
  from assms(2) obtain g edge t' where "edge_target a s edge = Some t'" "decorate a s g edge t' = t"
    unfolding state_transitions_mem by blast
  moreover have "rs_overwritten (rt_target (decorate a s g edge t')) = rs_overwritten (rt_target t')"
    by (simp add: decorate_def with_invocation_def inherit_invocation_def split: option.split)
  ultimately show ?thesis using edge_target_distinct [OF assms(1)] by metis
qed

definition accepted_transitions :: "'lock SessionReuseAnalysisInput \<Rightarrow> SessionID \<Rightarrow> reuseTransition list" where
  "accepted_transitions inp session =
     List.map_filter (accepted_transition (newSessionReuseAnalyzer inp session) (initial_state inp session))
       (in_AcceptedBranches inp)"

lemma accepted_distinct:
  assumes "t \<in> set (accepted_transitions inp session)"
  shows "distinct (mkeys (rs_overwritten (rt_target t)))"
proof -
  let ?a = "newSessionReuseAnalyzer inp session" and ?s = "initial_state inp session"
  have s: "distinct (mkeys (rs_overwritten ?s))" by (simp add: initial_state_def zero_state_def Let_def)
  from assms obtain edge t' where "edge_target ?a ?s edge = Some t'"
      and t: "t = (case map_of (an_staticFanouts ?a) (e_TransitionGroupID edge) of
                     Some fanout \<Rightarrow> with_invocation ?s edge (e_TransitionGroupID edge) fanout t' | None \<Rightarrow> t')"
    unfolding accepted_transitions_def map_filter_mem accepted_transition_def edge_target_def by auto
  then show ?thesis
    using edge_target_distinct [OF s] by (auto simp: with_invocation_def split: option.splits)
qed

lemma guaranteedAccepted_eq:
  assumes "length (rg_groups graph) = length (rg_states graph)"
  shows "guaranteedAccepted ts graph =
    Some (\<exists>t \<in> set ts. rt_guaranteedCAC t \<or> (\<exists>i \<in> guaranteed_set graph. graphStateID (rt_target t) (rg_states graph) = Some i))"
  by (induction ts) (auto simp: guaranteedState_eq [OF assms] split: option.splits bool.splits)


section \<open>Static validation of continuation sources\<close>

text \<open>The path states of a definition that are reached without passing a fan-in.\<close>

inductive static_path :: "'lock sessionReuseAnalyzer \<Rightarrow> reusePathState \<Rightarrow> reusePathState \<Rightarrow> bool" for a s0 where
  start: "static_path a s0 s0"
| step: "static_path a s0 s \<Longrightarrow> t \<in> set (state_transitions a s) \<Longrightarrow> \<not> join_arrival t \<Longrightarrow> static_path a s0 (rt_target t)"

lemma edge_target_skeleton: "an_staticValidation a \<Longrightarrow> edge_target a (skeleton s) edge = edge_target a s edge"
  by (simp add: edge_target_def applyEdge_def skeleton_def static_target_def Let_def split: option.split)

lemma decorate_skeleton: "decorate a (skeleton s) g edge t = decorate a s g edge t"
  by (simp add: decorate_def with_invocation_def inherit_invocation_def fanoutEntryState_def skeleton_def split: option.split)

lemma transitions_skeleton:
  assumes "an_staticValidation a"
  shows "t \<in> set (state_transitions a (skeleton s)) \<longleftrightarrow> t \<in> set (state_transitions a s)"
  unfolding state_transitions_mem edge_target_skeleton [OF assms] decorate_skeleton by (simp add: skeleton_def)

lemma transitions_same_skeleton:
  "an_staticValidation a \<Longrightarrow> skeleton s = skeleton s' \<Longrightarrow> t \<in> set (state_transitions a s) \<Longrightarrow> t \<in> set (state_transitions a s')"
  using transitions_skeleton by metis

lemma static_path_in_graph:
  assumes closed: "graph_closed a (state_transitions a s0) graph" and st: "an_staticValidation a"
    and path: "static_path a s0 s"
  shows "s = s0 \<or> skeleton s \<in> skeleton ` set (rg_states graph)"
  using path
proof (induction rule: static_path.induct)
  case (step s t)
  from step.IH show ?case
  proof
    assume "s = s0"
    then show ?thesis using step.hyps(2) closed by (simp add: graph_closed_def graphStateID_skeleton)
  next
    assume "skeleton s \<in> skeleton ` set (rg_states graph)"
    then obtain s' where "s' \<in> set (rg_states graph)" "skeleton s = skeleton s'" by blast
    then have "t \<in> set (state_transitions a s')" using transitions_same_skeleton [OF st] step.hyps(2) by blast
    then show ?thesis
      using closed \<open>s' \<in> set (rg_states graph)\<close> step.hyps(3) unfolding graph_closed_def graphStateID_skeleton by blast
  qed
qed simp

abbreviation static_start :: "NodeID \<Rightarrow> reusePathState" where
  "static_start n \<equiv> zero_state\<lparr>rs_nodeID := n\<rparr>"

lemma validateStatic_eq:
  fixes def :: Definition
  defines "a \<equiv> newStaticSessionReuseAnalyzer def"
  shows "\<exists>graph. graph_closed a (state_transitions a (static_start start)) graph \<and>
    validateStaticContinuationSources def start =
      Some (map e_ID (filter (\<lambda>edge. e_ID edge \<in> invalid_at a (static_start start) \<union> \<Union> (invalid_at a ` set (rg_states graph)))
        (d_Edges def)))"
proof -
  let ?s0 = "static_start start"
  obtain groups invalid where sg: "stateGroups a ?s0 [] = (groups, invalid)" by (cases "stateGroups a ?s0 []")
  have groups: "concat (map rg_transitions groups) = state_transitions a ?s0"
    using stateGroups_groups [of a ?s0 "[]"] sg by (simp add: state_transitions_def)
  have invalid: "set invalid = invalid_at a ?s0" using stateGroups_eq [of a ?s0 "[]"] sg by simp
  have "\<forall>t \<in> set (state_transitions a ?s0). distinct (mkeys (rs_overwritten (rt_target t)))"
    by (intro ballI state_transitions_distinct [of ?s0]) (simp_all add: zero_state_def)
  from buildGraph_result [OF this, of a invalid] obtain graph invalid' where
    g: "buildGraph a invalid (state_transitions a ?s0) = Some (graph, invalid')"
      "graph_closed a (state_transitions a ?s0) graph"
      "set invalid' = set invalid \<union> \<Union> (invalid_at a ` set (rg_states graph))"
    by blast
  then show ?thesis
    by (intro exI [of _ graph])
      (simp add: validateStaticContinuationSources_def Let_def a_def [symmetric] sg groups invalid)
qed



section \<open>Association references\<close>

definition ref_ok :: "TaskID \<Rightarrow> reference_search \<Rightarrow> bool" where
  "ref_ok taskID s \<longleftrightarrow>
     distinct (rx_references s) \<and>
     (\<forall>r \<in> set (rx_references s). CurrentNodeReference_Validate r = None \<and> cnr_TaskID r = TrimSpace taskID \<and>
        (\<exists>key \<in> set (rx_seen s). CurrentNodeReference_Key r = Inr key))"

lemma ref_ok_append: "ref_ok taskID s \<Longrightarrow> ref_ok taskID (appendReference taskID n b s)"
  unfolding appendReference_def ref_ok_def NewCurrentNodeReference_def Let_def
  by (auto split: sum.splits option.splits)

lemma ref_ok_context: "ref_ok taskID s \<Longrightarrow> ref_ok taskID (appendContextReference taskID keys st b edge target s)"
  unfolding appendContextReference_def Let_def by (auto simp: ref_ok_append split: prod.splits option.splits)

lemma ref_ok_queue [simp]: "ref_ok taskID (s\<lparr>rx_queue := q\<rparr>) = ref_ok taskID s" "ref_ok taskID (s\<lparr>rx_visited := v\<rparr>) = ref_ok taskID s"
  by (simp_all add: ref_ok_def)

lemma append_keeps [simp]:
  "rx_queue (appendReference taskID n b s) = rx_queue s" "rx_visited (appendReference taskID n b s) = rx_visited s"
  by (simp_all add: appendReference_def split: sum.split)

lemma context_keeps [simp]:
  "rx_queue (appendContextReference taskID keys st b edge target s) = rx_queue s"
  "rx_visited (appendContextReference taskID keys st b edge target s) = rx_visited s"
  by (simp_all add: appendContextReference_def Let_def split: prod.split option.split)

text \<open>The search visits pairs of a target node and a branch drawn from finitely many.\<close>

definition ref_nodes :: "fanoutTopology \<Rightarrow> Edge list \<Rightarrow> NodeID set" where
  "ref_nodes topology accepted =
     e_TargetNodeID ` (set accepted \<union> \<Union> (set ` snd ` set (edgesByGroup topology)))"

definition ref_branches :: "fanoutTopology \<Rightarrow> Edge list \<Rightarrow> reuseBranch \<Rightarrow> reuseBranch set" where
  "ref_branches topology accepted b =
     {no_branch, b} \<union> (\<lambda>e. \<lparr>rb_key = TrimSpace (e_Key e), rb_scoped = True\<rparr>) `
       (set accepted \<union> \<Union> (set ` snd ` set (edgesByGroup topology)))"

definition ref_universe :: "fanoutTopology \<Rightarrow> Edge list \<Rightarrow> reuseBranch \<Rightarrow> referenceState set" where
  "ref_universe topology accepted b =
     (\<lambda>(n, b). \<lparr>ref_nodeID = n, ref_branch = b\<rparr>) ` (ref_nodes topology accepted \<times> ref_branches topology accepted b)"

definition search_inv :: "TaskID \<Rightarrow> referenceState set \<Rightarrow> reference_search \<Rightarrow> bool" where
  "search_inv taskID U s \<longleftrightarrow>
     ref_ok taskID s \<and> set (rx_visited s) \<subseteq> U \<and> distinct (rx_visited s) \<and> set (rx_queue s) \<subseteq> U"

definition search_left :: "referenceState set \<Rightarrow> reference_search \<Rightarrow> nat" where
  "search_left U s = card (U - set (rx_visited s))"

lemma finite_ref_universe: "finite (ref_universe topology accepted b)"
  by (simp add: ref_universe_def ref_nodes_def ref_branches_def)

lemma ref_universe_next:
  assumes "ref_branch st \<in> ref_branches topology accepted b"
    and "edge \<in> set accepted \<union> \<Union> (set ` snd ` set (edgesByGroup topology))"
  shows "\<lparr>ref_nodeID = e_TargetNodeID edge, ref_branch = nextReuseBranch (ref_branch st) edge target n\<rparr> \<in> ref_universe topology accepted b"
  unfolding ref_universe_def
  by (rule image_eqI [of _ _ "(e_TargetNodeID edge, nextReuseBranch (ref_branch st) edge target n)"])
    (use assms in \<open>auto simp: ref_nodes_def ref_branches_def nextReuseBranch_def Let_def\<close>)

lemma enqueue_reference_inv:
  assumes inv: "search_inv taskID U s" and U: "finite U"
    and new: "\<And>target n. \<lparr>ref_nodeID = e_TargetNodeID edge, ref_branch = nextReuseBranch (ref_branch st) edge target n\<rparr> \<in> U"
  shows "search_inv taskID U (enqueue_reference taskID keys topology st edge s) \<and>
    (search_left U (enqueue_reference taskID keys topology st edge s) < search_left U s \<or>
     search_left U (enqueue_reference taskID keys topology st edge s) = search_left U s \<and>
     rx_queue (enqueue_reference taskID keys topology st edge s) = rx_queue s)"
proof (cases "map_of (nodesByID topology) (e_TargetNodeID edge)")
  case None
  then show ?thesis using inv by (simp add: enqueue_reference_def)
next
  case (Some target)
  let ?n = "length (mget_list (edgesByGroup topology) (e_TransitionGroupID edge))"
  let ?b = "nextReuseBranch (ref_branch st) edge target ?n"
  let ?st = "\<lparr>ref_nodeID = e_TargetNodeID edge, ref_branch = ?b\<rparr>"
  let ?s = "appendContextReference taskID keys st ?b edge target s"
  have s': "search_inv taskID U ?s" "search_left U ?s = search_left U s"
    using inv by (simp_all add: search_inv_def ref_ok_context search_left_def)
  show ?thesis
  proof (cases "?st \<in> set (rx_visited s)")
    case True
    then show ?thesis using s' Some by (simp add: enqueue_reference_def Let_def)
  next
    case False
    let ?f = "?s\<lparr>rx_visited := ?st # rx_visited s, rx_queue := rx_queue s @ [?st]\<rparr>"
    have f: "enqueue_reference taskID keys topology st edge s = ?f"
      using False Some by (simp add: enqueue_reference_def Let_def)
    have "card (U - set (?st # rx_visited s)) < card (U - set (rx_visited s))"
      by (rule psubset_card_mono) (use U new [of target ?n] False in auto)
    then have "search_left U ?f < search_left U s" by (simp add: search_left_def)
    moreover have "search_inv taskID U ?f" using s'(1) new [of target ?n] False by (simp add: search_inv_def)
    ultimately show ?thesis by (simp only: f) simp
  qed
qed

lemma enqueue_references_inv:
  assumes "search_inv taskID U s" and "finite U"
    and "\<And>edge target n. edge \<in> set edges \<Longrightarrow>
      \<lparr>ref_nodeID = e_TargetNodeID edge, ref_branch = nextReuseBranch (ref_branch st) edge target n\<rparr> \<in> U"
  shows "search_inv taskID U (fold (enqueue_reference taskID keys topology st) edges s) \<and>
    (search_left U (fold (enqueue_reference taskID keys topology st) edges s) < search_left U s \<or>
     search_left U (fold (enqueue_reference taskID keys topology st) edges s) = search_left U s \<and>
     rx_queue (fold (enqueue_reference taskID keys topology st) edges s) = rx_queue s)"
  using assms(1,3)
proof (induction edges arbitrary: s)
  case (Cons edge edges)
  let ?s1 = "enqueue_reference taskID keys topology st edge s"
  have one: "search_inv taskID U ?s1 \<and> (search_left U ?s1 < search_left U s \<or>
      search_left U ?s1 = search_left U s \<and> rx_queue ?s1 = rx_queue s)"
    by (rule enqueue_reference_inv [OF Cons.prems(1) assms(2)]) (simp add: Cons.prems(2))
  then show ?case using Cons.IH [of ?s1] Cons.prems(2) by fastforce
qed simp

lemma state_edges_mem: "edge \<in> set (state_edges topology n) \<Longrightarrow> edge \<in> \<Union> (set ` snd ` set (edgesByGroup topology))"
proof -
  assume "edge \<in> set (state_edges topology n)"
  then obtain g where "edge \<in> set (mget_list (edgesByGroup topology) g)" by (auto simp: state_edges_def)
  then show ?thesis
    by (cases "map_of (edgesByGroup topology) g") (auto simp: mget_list_def dest!: map_of_SomeD intro: bexI [rotated])
qed

text \<open>
  The search for association references ends on every workflow, cycles included, and
  returns each reference once; every reference it returns is valid and belongs to the task of
  the completed node.
\<close>

theorem SessionReuseAssociationReferences_ok:
  "\<exists>refs. SessionReuseAssociationReferences inp = Some refs \<and> distinct refs \<and>
     (\<forall>r \<in> set refs. CurrentNodeReference_Validate r = None \<and>
        cnr_TaskID r = TrimSpace (cnr_TaskID (cn_Reference (in_CompletedCurrentNode inp))))"
proof -
  let ?ref = "cn_Reference (in_CompletedCurrentNode inp)"
  let ?task = "cnr_TaskID ?ref" and ?keys = "index_node_keys (d_Nodes (in_Workflow inp))"
  define topology where "topology = newFanoutTopology (in_Workflow inp)"
  define U where "U = ref_universe topology (in_AcceptedBranches inp) (reuseBranchForReference ?ref)"
  let ?b = "\<lambda>s. rx_queue s \<noteq> []" and ?step = "reference_step ?task ?keys topology"
  have U: "finite U" by (simp add: U_def finite_ref_universe)
  have first: "\<lparr>ref_nodeID = e_TargetNodeID edge, ref_branch = nextReuseBranch (reuseBranchForReference ?ref) edge target n\<rparr> \<in> U"
    if "edge \<in> set (in_AcceptedBranches inp)" for edge target n
    using ref_universe_next [of "\<lparr>ref_nodeID = [], ref_branch = reuseBranchForReference ?ref\<rparr>" topology
        "in_AcceptedBranches inp" "reuseBranchForReference ?ref" edge target n] that
    by (simp add: U_def ref_branches_def)
  let ?s0 = "\<lparr>rx_references = [], rx_seen = [], rx_visited = [], rx_queue = []\<rparr>"
  define s1 where "s1 = (if cn_SessionID (in_CompletedCurrentNode inp) \<noteq> None
    then appendReference ?task (cnr_NodeID ?ref) (transitionBranchPointer ?ref) ?s0 else ?s0)"
  have "ref_ok ?task ?s0" by (simp add: ref_ok_def)
  then have "search_inv ?task U s1" by (simp add: search_inv_def s1_def ref_ok_append)
  from enqueue_references_inv [OF this U, of "in_AcceptedBranches inp"
      "\<lparr>ref_nodeID = cnr_NodeID ?ref, ref_branch = reuseBranchForReference ?ref\<rparr>" ?keys topology] first
  have start: "search_inv ?task U (reference_start inp)"
    by (simp add: reference_start_def Let_def topology_def [symmetric] s1_def)
  have step: "search_inv ?task U (?step s) \<and>
      (search_left U (?step s) < search_left U s \<or>
       search_left U (?step s) = search_left U s \<and> length (rx_queue (?step s)) < length (rx_queue s))"
    if inv: "search_inv ?task U s" and q: "?b s" for s
  proof -
    obtain st queue where sq: "rx_queue s = st # queue" using q by (cases "rx_queue s") auto
    have "st \<in> U" using inv sq by (simp add: search_inv_def)
    then have "ref_branch st \<in> ref_branches topology (in_AcceptedBranches inp) (reuseBranchForReference ?ref)"
      by (auto simp: U_def ref_universe_def)
    then have following: "\<lparr>ref_nodeID = e_TargetNodeID edge, ref_branch = nextReuseBranch (ref_branch st) edge target n\<rparr> \<in> U"
      if "edge \<in> set (state_edges topology (ref_nodeID st))" for edge target n
      unfolding U_def by (rule ref_universe_next) (use state_edges_mem [OF that] in blast)
    let ?s1 = "s\<lparr>rx_queue := queue\<rparr>"
    have "search_inv ?task U ?s1" "search_left U ?s1 = search_left U s"
      using inv sq by (simp_all add: search_inv_def search_left_def)
    moreover have "?step s = fold (enqueue_reference ?task ?keys topology st) (state_edges topology (ref_nodeID st)) ?s1"
      by (simp add: reference_step_def sq)
    ultimately show ?thesis
      using enqueue_references_inv [of ?task U ?s1 "state_edges topology (ref_nodeID st)" st ?keys topology] following U sq
      by auto
  qed
  have "wf {(t, s). (search_inv ?task U s \<and> ?b s) \<and> t = ?step s}"
    by (rule wf_subset [of "measures [search_left U, \<lambda>s. length (rx_queue s)]"]) (use step in auto)
  from wf_while_option_Some [where P = "search_inv ?task U", OF this _ start]
  obtain s where s: "while_option ?b ?step (reference_start inp) = Some s" using step by blast
  have "search_inv ?task U s"
    by (rule while_option_rule [where P = "search_inv ?task U", OF _ s start]) (use step in blast)
  then show ?thesis
    using s by (auto simp: SessionReuseAssociationReferences_def topology_def search_inv_def ref_ok_def)
qed

end
