(* ===== verification/Wf_Validation.thy ===== *)
theory Wf_Validation
  imports Wf_Errors Wf_Wiring Wf_Session_Reuse
begin

text \<open>
  Validation of workflow definitions: \<open>server/workflow/validation.go\<close>.

  The state is a record; every check is a function on it that appends errors. Messages are
  left out, so a helper that builds a message only is a test whether there is one. The
  iteration order of a map is the order of its association list. A check that can panic
  (a nil node, the walk over a template) or whose loop is a \<open>while_option\<close> returns an option.
  The template parser is a parameter.
\<close>

section \<open>State and reports\<close>

record ValidationOptions =
  vo_Context :: ValidationContext
  vo_RoleResolver :: TargetAgentCatalog
  vo_ExecutionNodes :: "(NodeID, bool) gomap option"

record validationState =
  vs_def :: Definition
  vs_opts :: ValidationOptions
  vs_context :: ValidationContext
  vs_errors :: "ValidationError list"
  vs_nodesByID :: "(NodeID, Node) gomap"
  vs_nodeKeys :: "(ModelKey, NodeID) gomap"
  vs_nodeGroupsByID :: "(string, NodeGroup) gomap"
  vs_groupsByID :: "(TransitionGroupID, TransitionGroup) gomap"
  vs_edgesByID :: "(EdgeID, Edge) gomap"
  vs_edgesByGroup :: "(TransitionGroupID, Edge list) gomap"
  vs_groupsBySource :: "(NodeID, TransitionGroup list) gomap"
  vs_outgoingByNode :: edge_index
  vs_incomingByNode :: edge_index
  vs_startNodes :: "Node list"

definition newValidationState :: "Definition \<Rightarrow> ValidationOptions \<Rightarrow> ValidationContext \<Rightarrow> validationState" where
  "newValidationState def opts context =
     \<lparr>vs_def = def, vs_opts = opts, vs_context = context, vs_errors = [], vs_nodesByID = [], vs_nodeKeys = [],
      vs_nodeGroupsByID = [], vs_groupsByID = [], vs_edgesByID = [], vs_edgesByGroup = [], vs_groupsBySource = [],
      vs_outgoingByNode = [], vs_incomingByNode = [], vs_startNodes = []\<rparr>"

definition addHard :: "ValidationErrorCode \<Rightarrow> ValidationError \<Rightarrow> validationState \<Rightarrow> validationState" where
  "addHard code ref s = s\<lparr>vs_errors := vs_errors s @ [ref\<lparr>ve_Code := code, ve_BlocksContext := True\<rparr>]\<rparr>"

definition addSemantic :: "ValidationErrorCode \<Rightarrow> ValidationError \<Rightarrow> validationState \<Rightarrow> validationState" where
  "addSemantic code ref s =
     s\<lparr>vs_errors := vs_errors s @
        [ref\<lparr>ve_Code := code, ve_BlocksContext := (vs_context s \<noteq> ValidationContextDraft)\<rparr>]\<rparr>"

text \<open>\<open>if cond { s.addHard(code, ..., ref) }\<close>, and the same for \<open>addSemantic\<close>.\<close>

definition hard_if :: "bool \<Rightarrow> ValidationErrorCode \<Rightarrow> ValidationError \<Rightarrow> validationState \<Rightarrow> validationState" where
  "hard_if bad code ref s = (if bad then addHard code ref s else s)"

definition semantic_if :: "bool \<Rightarrow> ValidationErrorCode \<Rightarrow> ValidationError \<Rightarrow> validationState \<Rightarrow> validationState" where
  "semantic_if bad code ref s = (if bad then addSemantic code ref s else s)"

definition workflow_ref :: "validationState \<Rightarrow> ValidationError" where
  "workflow_ref s = zero_error\<lparr>ve_WorkflowID := Some (d_ID (vs_def s))\<rparr>"

definition node_ref :: "validationState \<Rightarrow> NodeID \<Rightarrow> ValidationError" where
  "node_ref s nodeID = (workflow_ref s)\<lparr>ve_NodeID := id_ref nodeID\<rparr>"

definition group_ref :: "validationState \<Rightarrow> TransitionGroup \<Rightarrow> ValidationError" where
  "group_ref s tgroup =
     (workflow_ref s)\<lparr>ve_TransitionGroupID := id_ref (tg_ID tgroup), ve_NodeID := id_ref (tg_SourceNodeID tgroup)\<rparr>"

definition edge_ref :: "validationState \<Rightarrow> Edge \<Rightarrow> ValidationError" where
  "edge_ref s edge =
     (workflow_ref s)\<lparr>ve_EdgeID := id_ref (e_ID edge), ve_TransitionGroupID := id_ref (e_TransitionGroupID edge)\<rparr>"

definition validDisplayName :: "string \<Rightarrow> bool" where
  "validDisplayName value = (let trimmed = TrimSpace value in trimmed \<noteq> '''' \<and> length trimmed \<le> MaxDisplayNameChars)"

definition validContextMode :: "ContextMode \<Rightarrow> bool" where
  "validContextMode mode = (case mode of ContextModeOther _ \<Rightarrow> False | _ \<Rightarrow> True)"

text \<open>The workflow ID check that opens the four indexing loops.\<close>

definition check_workflow_id :: "uuid \<Rightarrow> ValidationError \<Rightarrow> validationState \<Rightarrow> validationState" where
  "check_workflow_id workflowID ref s =
     (if IsZero workflowID then addHard CodeMissingWorkflowID ref s
      else hard_if (workflowID \<noteq> d_ID (vs_def s)) CodeCrossWorkflowReference ref s)"


section \<open>Indexing\<close>

definition validateExecutionTargetPolicy :: "validationState \<Rightarrow> validationState" where
  "validateExecutionTargetPolicy s =
     (let policy = ExecutionTargetPolicy_Canonical (d_ExecutionTargetPolicy (vs_def s)) in
      if \<not> validExecutionTargetPolicyMode (etp_Mode policy)
      then addHard CodeInvalidExecutionTargetPolicy (workflow_ref s) s
      else if etp_Mode policy \<noteq> ExecutionTargetModeCustomRef
      then hard_if (etp_CustomRef policy \<noteq> None) CodeInvalidExecutionTargetPolicy (workflow_ref s) s
      else semantic_if (case etp_CustomRef policy of None \<Rightarrow> True | Some ref \<Rightarrow> blank ref)
             CodeExecutionTargetCustomRefRequired (workflow_ref s) s)"

definition node_group_ref :: "validationState \<Rightarrow> NodeGroup \<Rightarrow> ValidationError" where
  "node_group_ref s ngroup = withRelatedEntity WorkflowGraphEntityTypeNodeGroup (ng_ID ngroup) (workflow_ref s)"

definition index_node_group ::
  "NodeGroup \<Rightarrow> validationState \<times> (ModelKey, string) gomap \<Rightarrow> validationState \<times> (ModelKey, string) gomap" where
  "index_node_group ngroup = (\<lambda>(s, seenKeys).
     let ref = node_group_ref s ngroup;
         s1 = check_workflow_id (ng_WorkflowID ngroup) ref s;
         groupID = TrimSpace (ng_ID ngroup) in
     if groupID = '''' then (addHard CodeInvalidNodeGroup ref s1, seenKeys)
     else if mhas (vs_nodeGroupsByID s1) groupID then (addHard CodeInvalidNodeGroup ref s1, seenKeys)
     else
       let key = TrimSpace (ng_Key ngroup);
           (s2, seenKeys') =
             (if key = '''' \<or> \<not> workflowkey_Valid key then (addHard CodeInvalidNodeGroup ref s1, seenKeys)
              else case map_of seenKeys key of
                     Some previousID \<Rightarrow>
                       if previousID \<noteq> groupID
                       then (addHard CodeInvalidNodeGroup
                               (withRelatedEntity WorkflowGraphEntityTypeNodeGroup previousID ref) s1, seenKeys)
                       else (s1, AList.update key groupID seenKeys)
                   | None \<Rightarrow> (s1, AList.update key groupID seenKeys));
           s3 = hard_if (case ng_DisplayName ngroup of None \<Rightarrow> False | Some name \<Rightarrow> \<not> validDisplayName name)
                  CodeInvalidDisplayName ref s2
       in (s3\<lparr>vs_nodeGroupsByID := AList.update groupID ngroup (vs_nodeGroupsByID s3)\<rparr>, seenKeys'))"

definition indexNodeGroups :: "validationState \<Rightarrow> validationState" where
  "indexNodeGroups s = fst (fold index_node_group (d_NodeGroups (vs_def s)) (s, []))"

definition index_node :: "Node \<Rightarrow> validationState \<Rightarrow> validationState" where
  "index_node node s =
     (let nodeID = NodeIDOf node; ref = node_ref s nodeID;
          s1 = check_workflow_id (NodeWorkflowID node) ref s in
      if blank nodeID then addHard CodeMissingNodeID ref s1
      else if mhas (vs_nodesByID s1) nodeID then addHard CodeDuplicateNodeID ref s1
      else let s2 = s1\<lparr>vs_nodesByID := AList.update nodeID node (vs_nodesByID s1)\<rparr> in
        if Kind node = NodeKindStart then s2\<lparr>vs_startNodes := vs_startNodes s2 @ [node]\<rparr> else s2)"

definition indexNodes :: "validationState \<Rightarrow> validationState" where
  "indexNodes s = fold index_node (d_Nodes (vs_def s)) s"

definition index_transition_group ::
  "TransitionGroup \<Rightarrow> validationState \<times> (string, TransitionGroupID) gomap
   \<Rightarrow> validationState \<times> (string, TransitionGroupID) gomap" where
  "index_transition_group tgroup = (\<lambda>(s, seenTransitions).
     let ref = group_ref s tgroup;
         s1 = check_workflow_id (tg_WorkflowID tgroup) ref s in
     if blank (tg_ID tgroup) then (addHard CodeMissingTransitionGroupID ref s1, seenTransitions)
     else if mhas (vs_groupsByID s1) (tg_ID tgroup)
     then (addHard CodeDuplicateTransitionGroupID ref s1, seenTransitions)
     else
       let s2 = s1\<lparr>vs_groupsByID := AList.update (tg_ID tgroup) tgroup (vs_groupsByID s1),
                   vs_groupsBySource := mappend (tg_SourceNodeID tgroup) tgroup (vs_groupsBySource s1)\<rparr>;
           transitionID = TrimSpace (tg_TransitionID tgroup);
           (s3, seenTransitions') =
             (if transitionID = '''' then (addHard CodeMissingTransitionID ref s2, seenTransitions)
              else if \<not> workflowkey_Valid transitionID then (addHard CodeInvalidTransitionID ref s2, seenTransitions)
              else ((case map_of seenTransitions transitionID of
                       Some previousID \<Rightarrow>
                         addHard CodeDuplicateTransitionID
                           (withRelatedEntity WorkflowGraphEntityTypeTransitionGroup previousID ref) s2
                     | None \<Rightarrow> s2),
                    AList.update transitionID (tg_ID tgroup) seenTransitions))
       in (hard_if (\<not> validDisplayName (tg_DisplayName tgroup)) CodeInvalidDisplayName ref s3, seenTransitions'))"

definition indexTransitionGroups :: "validationState \<Rightarrow> validationState" where
  "indexTransitionGroups s = fst (fold index_transition_group (d_TransitionGroups (vs_def s)) (s, []))"

definition index_edge :: "Edge \<Rightarrow> validationState \<Rightarrow> validationState" where
  "index_edge edge s =
     (let ref = edge_ref s edge; s1 = check_workflow_id (e_WorkflowID edge) ref s in
      if blank (e_ID edge) then addHard CodeMissingEdgeID ref s1
      else if mhas (vs_edgesByID s1) (e_ID edge) then addHard CodeDuplicateEdgeID ref s1
      else let s2 = s1\<lparr>vs_edgesByID := AList.update (e_ID edge) edge (vs_edgesByID s1),
                       vs_edgesByGroup := mappend (e_TransitionGroupID edge) edge (vs_edgesByGroup s1)\<rparr> in
        case map_of (vs_groupsByID s2) (e_TransitionGroupID edge) of
          None \<Rightarrow> s2
        | Some tgroup \<Rightarrow>
            s2\<lparr>vs_outgoingByNode := mappend (tg_SourceNodeID tgroup) edge (vs_outgoingByNode s2),
               vs_incomingByNode := mappend (e_TargetNodeID edge) edge (vs_incomingByNode s2)\<rparr>)"

definition indexEdges :: "validationState \<Rightarrow> validationState" where
  "indexEdges s = fold index_edge (d_Edges (vs_def s)) s"


section \<open>Shape\<close>

definition validate_node :: "Node \<Rightarrow> validationState \<Rightarrow> validationState" where
  "validate_node node s =
     (let ref = node_ref s (NodeIDOf node);
          s1 = (if blank (NodeKey node) then addHard CodeMissingNodeKey ref s
                else if \<not> workflowkey_Valid (NodeKey node) then addHard CodeInvalidNodeKey ref s
                else case map_of (vs_nodeKeys s) (NodeKey node) of
                       Some previousNodeID \<Rightarrow>
                         if previousNodeID \<noteq> NodeIDOf node
                         then addHard CodeDuplicateNodeKey
                                (withRelatedEntity WorkflowGraphEntityTypeNode previousNodeID ref) s
                         else s\<lparr>vs_nodeKeys := AList.update (NodeKey node) (NodeIDOf node) (vs_nodeKeys s)\<rparr>
                     | None \<Rightarrow> s\<lparr>vs_nodeKeys := AList.update (NodeKey node) (NodeIDOf node) (vs_nodeKeys s)\<rparr>);
          s2 = hard_if (RuneCountInString (TrimSpace (NodeDisplayName node)) > MaxDisplayNameChars)
                 CodeInvalidDisplayName ref s1;
          s3 = (case Kind node of NodeKindOther _ \<Rightarrow> addHard CodeInvalidNodeKind ref s2 | _ \<Rightarrow> s2)
      in hard_if (case NodeGroupID node of
                    None \<Rightarrow> False | Some groupID \<Rightarrow> \<not> mhas (vs_nodeGroupsByID s3) (TrimSpace groupID))
           CodeInvalidNodeGroup ref s3)"

definition validateNodes :: "validationState \<Rightarrow> validationState" where
  "validateNodes s =
     (let s1 = fold validate_node (d_Nodes (vs_def s)) s;
          s2 = hard_if (length (vs_startNodes s1) = 0) CodeMissingStartNode (workflow_ref s1) s1
      in hard_if (length (vs_startNodes s2) > 1) CodeMultipleStartNodes
           (fold (\<lambda>node. withRelatedEntity WorkflowGraphEntityTypeNode (NodeIDOf node)) (vs_startNodes s2)
             (workflow_ref s2)) s2)"

definition nodeGroupMembers :: "validationState \<Rightarrow> NodeGroup \<Rightarrow> Node list" where
  "nodeGroupMembers s ngroup =
     (let memberIDs = remdups (ng_MemberNodeIDs ngroup @
            map NodeIDOf (filter (\<lambda>node. case NodeGroupID node of
                                           None \<Rightarrow> False | Some groupID \<Rightarrow> TrimSpace groupID = ng_ID ngroup)
                                 (d_Nodes (vs_def s))))
      in List.map_filter (map_of (vs_nodesByID s)) memberIDs)"

definition nodeIDSetEqual :: "NodeID list \<Rightarrow> NodeID list \<Rightarrow> bool" where
  "nodeIDSetEqual left right \<longleftrightarrow> length left = length right \<and> list_all (\<lambda>nodeID. nodeID \<in> set right) left"

definition transitionGroupTargetsExactly :: "Edge list \<Rightarrow> NodeID list \<Rightarrow> bool" where
  "transitionGroupTargetsExactly edges branchIDs \<longleftrightarrow>
     length edges = length branchIDs \<and> nodeIDSetEqual branchIDs (remdups (map e_TargetNodeID edges))"

text \<open>\<open>nodeGroupSeparateFanoutMessage\<close> has a message exactly when some defined source reaches
  all branches through at least two transition groups. \<open>s.groupsByID[id]\<close> of an absent group is
  the zero group, whose source is empty.\<close>

definition group_source :: "validationState \<Rightarrow> TransitionGroupID \<Rightarrow> NodeID" where
  "group_source s groupID = (case map_of (vs_groupsByID s) groupID of None \<Rightarrow> '''' | Some g \<Rightarrow> tg_SourceNodeID g)"

definition nodeGroupSeparateFanout :: "validationState \<Rightarrow> NodeID list \<Rightarrow> bool" where
  "nodeGroupSeparateFanout s branchIDs =
     (let arrivals = concat (map (\<lambda>branchID. map (Pair branchID) (mget_list (vs_incomingByNode s) branchID)) branchIDs);
          sources = map (\<lambda>(_, edge). group_source s (e_TransitionGroupID edge)) arrivals
      in list_ex (\<lambda>sourceID.
           let here = filter (\<lambda>(_, edge). group_source s (e_TransitionGroupID edge) = sourceID) arrivals in
           length (remdups (map fst here)) = length branchIDs \<and>
           length (remdups (map (e_TransitionGroupID \<circ> snd) here)) \<ge> 2 \<and>
           mhas (vs_nodesByID s) sourceID) sources)"

definition nodeHasOutgoingEdgeTo :: "validationState \<Rightarrow> NodeID \<Rightarrow> NodeID \<Rightarrow> bool" where
  "nodeHasOutgoingEdgeTo s sourceID targetID =
     list_ex (\<lambda>edge. e_TargetNodeID edge = targetID) (mget_list (vs_outgoingByNode s) sourceID)"

definition nodeGroupV1FanoutTopologyError :: "validationState \<Rightarrow> NodeID list \<Rightarrow> NodeID \<Rightarrow> bool" where
  "nodeGroupV1FanoutTopologyError s branchIDs joinID =
     (let fanoutGroups = filter (\<lambda>tgroup.
            let edges = mget_list (vs_edgesByGroup s) (tg_ID tgroup) in
            length edges \<ge> 2 \<and> transitionGroupTargetsExactly edges branchIDs) (d_TransitionGroups (vs_def s))
      in if length fanoutGroups \<noteq> 1 then True
         else if nodeGroupSeparateFanout s branchIDs then True
         else list_ex (\<lambda>branchID. \<not> nodeHasOutgoingEdgeTo s branchID joinID) branchIDs)"

fun node_group_members ::
  "ValidationError \<Rightarrow> Node list \<Rightarrow> validationState \<Rightarrow> NodeID list \<Rightarrow> NodeID list
   \<Rightarrow> validationState \<times> NodeID list \<times> NodeID list" where
  "node_group_members ref [] s branchIDs joinIDs = (s, branchIDs, joinIDs)"
| "node_group_members ref (node # members) s branchIDs joinIDs =
     (case Kind node of
        NodeKindAgent \<Rightarrow> node_group_members ref members s (List.insert (NodeIDOf node) branchIDs) joinIDs
      | NodeKindScript \<Rightarrow> node_group_members ref members s (List.insert (NodeIDOf node) branchIDs) joinIDs
      | NodeKindJoin \<Rightarrow> node_group_members ref members s branchIDs (joinIDs @ [NodeIDOf node])
      | _ \<Rightarrow> node_group_members ref members (addHard CodeInvalidNodeGroup ref s) branchIDs joinIDs)"

definition validate_node_group :: "NodeGroup \<Rightarrow> validationState \<Rightarrow> validationState" where
  "validate_node_group ngroup s =
     (let ref = node_group_ref s ngroup;
          (s1, branchIDs, joinIDs) = node_group_members ref (nodeGroupMembers s ngroup) s [] [];
          s2 = hard_if (length branchIDs < 2) CodeInvalidNodeGroup ref s1
      in case joinIDs of
           [joinID] \<Rightarrow> hard_if (length branchIDs \<ge> 2 \<and> nodeGroupV1FanoutTopologyError s2 branchIDs joinID)
                        CodeInvalidNodeGroup ref s2
         | _ \<Rightarrow> addHard CodeInvalidNodeGroup ref s2)"

definition validateNodeGroups :: "validationState \<Rightarrow> validationState" where
  "validateNodeGroups s = fold validate_node_group (d_NodeGroups (vs_def s)) s"

definition edge_key_step ::
  "Edge \<Rightarrow> validationState \<times> (ModelKey, EdgeID) gomap \<Rightarrow> validationState \<times> (ModelKey, EdgeID) gomap" where
  "edge_key_step edge = (\<lambda>(s, seenEdgeKeys).
     if blank (e_Key edge) \<or> \<not> workflowkey_Valid (e_Key edge) then (s, seenEdgeKeys)
     else
       ((case map_of seenEdgeKeys (e_Key edge) of
           Some previousID \<Rightarrow>
             hard_if (previousID \<noteq> e_ID edge) CodeDuplicateEdgeKey
               (withRelatedEntity WorkflowGraphEntityTypeEdge previousID
                 ((workflow_ref s)\<lparr>ve_EdgeID := Some (e_ID edge),
                                   ve_TransitionGroupID := Some (e_TransitionGroupID edge)\<rparr>)) s
         | None \<Rightarrow> s),
        AList.update (e_Key edge) (e_ID edge) seenEdgeKeys))"

definition validate_transition_group :: "TransitionGroup \<Rightarrow> validationState \<Rightarrow> validationState" where
  "validate_transition_group tgroup s =
     (let ref = group_ref s tgroup;
          s1 = (if blank (tg_SourceNodeID tgroup) then addHard CodeEdgeTransitionGroupMissing ref s
                else hard_if (\<not> mhas (vs_nodesByID s) (tg_SourceNodeID tgroup)) CodeEdgeTransitionGroupMissing ref s);
          edges = mget_list (vs_edgesByGroup s1) (tg_ID tgroup);
          s2 = hard_if (length edges = 0) CodeEmptyTransitionGroup ref s1
      in fst (fold edge_key_step edges (s2, [])))"

definition validateTransitionGroups :: "validationState \<Rightarrow> validationState" where
  "validateTransitionGroups s = fold validate_transition_group (d_TransitionGroups (vs_def s)) s"

definition edgeSource :: "validationState \<Rightarrow> Edge \<Rightarrow> Node option" where
  "edgeSource s edge =
     (case map_of (vs_groupsByID s) (e_TransitionGroupID edge) of
        None \<Rightarrow> None | Some tgroup \<Rightarrow> map_of (vs_nodesByID s) (tg_SourceNodeID tgroup))"

text \<open>The sets \<open>seen\<close> and \<open>seenPurposes\<close> of \<open>validateParameters\<close> are lists of keys.\<close>

definition parameter_step ::
  "ValidationError \<Rightarrow> Parameter \<Rightarrow> validationState \<times> string list \<times> string list
   \<Rightarrow> validationState \<times> string list \<times> string list" where
  "parameter_step ref parameter = (\<lambda>(s, seen, seenPurposes).
     let key = TrimSpace (p_Key parameter);
         parameterRef = ref\<lparr>ve_FieldName := key\<rparr>;
         purpose = CanonicalParameterPurpose (p_Purpose parameter);
         description = TrimSpace (p_Description parameter);
         s1 = hard_if (purpose \<notin> set [ParameterPurposeOrdinary, ParameterPurposeTargetAssignee, ParameterPurposeTargetThinking])
                CodeInvalidParameterPurpose parameterRef s;
         s2 = hard_if (purpose \<noteq> ParameterPurposeOrdinary \<and> purpose \<in> set seenPurposes)
                CodeDuplicateProtectedParameter parameterRef s1;
         s3 = hard_if (key = '''' \<or> \<not> workflowkey_Valid key \<or> length key > MaxParameterKeyChars \<or> ReservedParameter key)
                CodeInvalidParameter parameterRef s2;
         s4 = hard_if (key \<in> set seen) CodeDuplicateParameter parameterRef s3;
         s5 = (if purpose = ParameterPurposeOrdinary \<and> description = ''''
               then addHard CodeParameterDescriptionRequired parameterRef s4
               else hard_if (length description > MaxParameterDescriptionChars) CodeParameterSchemaTooLarge parameterRef s4)
     in (s5, key # seen, if purpose \<noteq> ParameterPurposeOrdinary then purpose # seenPurposes else seenPurposes))"

definition validateParameters :: "Edge \<Rightarrow> ValidationError \<Rightarrow> validationState \<Rightarrow> validationState" where
  "validateParameters edge ref s =
     (case fold (parameter_step ref) (e_Parameters edge) (s, [], []) of
        (s1, seen, seenPurposes) \<Rightarrow>
          let s2 = hard_if (CanonicalAssigneeSelection (e_AssigneeSelection edge) = AssigneeSelectionPreviousNode \<and>
                            ParameterPurposeTargetAssignee \<notin> set seenPurposes) CodeMissingProtectedParameter ref s1
          in hard_if (CanonicalThinkingSelection (e_ThinkingSelection edge) = ThinkingSelectionPreviousNode \<and>
                      ParameterPurposeTargetThinking \<notin> set seenPurposes) CodeMissingProtectedParameter ref s2)"

definition validateEdgeInvocationContract :: "Edge \<Rightarrow> ValidationError \<Rightarrow> validationState \<Rightarrow> validationState" where
  "validateEdgeInvocationContract edge ref s =
     (let agentTarget = (case map_of (vs_nodesByID s) (e_TargetNodeID edge) of
                           None \<Rightarrow> False | Some target \<Rightarrow> Kind target = NodeKindAgent);
          prompt = TrimSpace (e_PromptTemplate edge);
          s1 = (if agentTarget
                then hard_if (prompt = '''' \<and> vs_context s \<noteq> ValidationContextDraft) CodeTransitionPromptRequired ref s
                else hard_if (prompt \<noteq> '''') CodeTransitionPromptForbidden ref s);
          s2 = hard_if (case edgeSource s1 edge of
                          None \<Rightarrow> False
                        | Some source \<Rightarrow> (Kind source = NodeKindStart \<or> Kind source = NodeKindJoin) \<and>
                                         length (e_Parameters edge) > 0) CodeInvalidParameter ref s1
      in validateParameters edge ref s2)"

definition validate_edge :: "Edge \<Rightarrow> validationState \<Rightarrow> validationState" where
  "validate_edge edge s =
     (let ref = edge_ref s edge;
          s1 = hard_if (\<not> mhas (vs_groupsByID s) (e_TransitionGroupID edge)) CodeEdgeTransitionGroupMissing ref s;
          s2 = (if blank (e_Key edge) then addHard CodeMissingEdgeKey ref s1
                else hard_if (\<not> workflowkey_Valid (e_Key edge)) CodeInvalidEdgeKey ref s1);
          s3 = (if blank (e_TargetNodeID edge) then addHard CodeEdgeTargetMissing ref s2
                else hard_if (\<not> mhas (vs_nodesByID s2) (e_TargetNodeID edge)) CodeEdgeTargetMissing ref s2);
          s4 = hard_if (\<not> validContextMode (e_ContextMode edge)) CodeInvalidContextMode ref s3;
          s5 = hard_if (CanonicalAssigneeSelection (e_AssigneeSelection edge)
                          \<notin> set [AssigneeSelectionConfigured, AssigneeSelectionPreviousNode])
                 CodeInvalidAssigneeSelection ref s4;
          s6 = hard_if (CanonicalThinkingSelection (e_ThinkingSelection edge)
                          \<notin> set [ThinkingSelectionConfigured, ThinkingSelectionPreviousNode])
                 CodeInvalidThinkingSelection ref s5
      in validateEdgeInvocationContract edge ref s6)"

definition validateEdges :: "validationState \<Rightarrow> validationState" where
  "validateEdges s = fold validate_edge (d_Edges (vs_def s)) s"

definition validateShape :: "validationState \<Rightarrow> validationState" where
  "validateShape s =
     (if IsZero (d_ID (vs_def s)) then addHard CodeMissingWorkflowID zero_error s
      else
        let s1 = hard_if (\<not> validDisplayName (d_DisplayName (vs_def s))) CodeInvalidDisplayName (workflow_ref s) s
        in validateEdges (validateTransitionGroups (validateNodeGroups (validateNodes (indexEdges
             (indexTransitionGroups (indexNodes (indexNodeGroups (validateExecutionTargetPolicy s1)))))))))"


section \<open>Constraints of node kinds and of the runtime\<close>

text \<open>The tool \<open>toolspec.ToolAskQuestion\<close> is \<open>ask_question\<close>. \<open>errors.As\<close> finds the code of a
  selection error.\<close>

definition validateAgentRoleRequirement ::
  "uuid \<Rightarrow> Node \<Rightarrow> string \<Rightarrow> TargetAgentCatalog \<Rightarrow> ValidationError option" where
  "validateAgentRoleRequirement workflowID node requiredTool catalog =
     (let ref = zero_error\<lparr>ve_WorkflowID := Some workflowID, ve_NodeID := id_ref (NodeIDOf node)\<rparr>;
          role = TrimSpace (NodeSubagentRole node) in
      if role = '''' then Some (ref\<lparr>ve_Code := CodeAgentRoleRequired\<rparr>)
      else
        let ref' = ref\<lparr>ve_AgentRole := Some role\<rparr> in
        if catalog = None then Some (ref'\<lparr>ve_Code := CodeAgentRoleMissing\<rparr>)
        else case PlanTargetAgentSelection catalog
                    \<lparr>tsr_FallbackRole = role, tsr_OverrideEnabled = False, tsr_SubmittedRole = ''''\<rparr> of
               Inr _ \<Rightarrow> None
             | Inl (TargetAgentSelectionError TargetAgentSelectionErrorQuestionsDisabled _) \<Rightarrow>
                 Some (ref'\<lparr>ve_RequiredTool := Some requiredTool, ve_Code := CodeAgentRoleRequiredToolDisabled\<rparr>)
             | Inl _ \<Rightarrow> Some (ref'\<lparr>ve_Code := CodeAgentRoleMissing\<rparr>))"

definition checks_availability :: "validationState \<Rightarrow> NodeID \<Rightarrow> bool" where
  "checks_availability s nodeID =
     (case vo_ExecutionNodes (vs_opts s) of
        None \<Rightarrow> True | Some nodes \<Rightarrow> map_of nodes nodeID = Some True)"

definition validate_kind :: "Node \<Rightarrow> validationState \<Rightarrow> validationState" where
  "validate_kind node s =
     (let nodeID = NodeIDOf node; ref = node_ref s nodeID;
          incoming = length (mget_list (vs_incomingByNode s) nodeID);
          outgoingGroups = mget_list (vs_groupsBySource s) nodeID in
      case Kind node of
        NodeKindStart \<Rightarrow> hard_if (\<not> blank (NodeSubagentRole node) \<or> incoming > 0) CodeInvalidStartNode ref s
      | NodeKindAgent \<Rightarrow>
          (case validateAgentRoleRequirement (d_ID (vs_def s)) node ''ask_question'' (vo_RoleResolver (vs_opts s)) of
             None \<Rightarrow> s
           | Some issue \<Rightarrow> semantic_if (checks_availability s nodeID) (ve_Code issue) issue s)
      | NodeKindJoin \<Rightarrow>
          let s1 = hard_if (\<not> blank (NodeSubagentRole node)) CodeJoinIsExecutable ref s;
              s2 = hard_if (incoming < 2) CodeInvalidJoinNode ref s1
          in semantic_if (length outgoingGroups \<noteq> 1) CodeInvalidJoinOutgoingShape ref s2
      | NodeKindTerminal \<Rightarrow>
          let s1 = hard_if (\<not> blank (NodeSubagentRole node)) CodeTerminalIsExecutable ref s
          in hard_if (length outgoingGroups > 0) CodeTerminalHasOutgoingEdge ref s1
      | _ \<Rightarrow> s)"

definition validateKindConstraints :: "validationState \<Rightarrow> validationState" where
  "validateKindConstraints s = fold validate_kind (d_Nodes (vs_def s)) s"

definition nodeDominates :: "validationState \<Rightarrow> NodeID \<Rightarrow> NodeID \<Rightarrow> bool" where
  "nodeDominates s candidate target =
     (case vs_startNodes s of
        [start] \<Rightarrow> nodeDominatesFromStart (NodeIDOf start) candidate target (vs_outgoingByNode s)
      | _ \<Rightarrow> False)"

text \<open>\<open>validateContextSource\<close>: \<open>None\<close> is the panic on a selected key whose node is not indexed;
  otherwise \<open>True\<close> in the result means that no error is reported. The returned context source is
  the canonical one in every case.\<close>

definition selected_source_ok :: "validationState \<Rightarrow> Edge \<Rightarrow> Node option \<Rightarrow> Node option \<Rightarrow> bool option" where
  "selected_source_ok s edge source target =
     (let contextSource = CanonicalContextSource (e_ContextSource edge); nodeKey = TrimSpace (cs_NodeKey contextSource) in
      if e_ContextMode edge = ContextModeNewSession then Some False
      else if nodeKey = '''' \<or> \<not> workflowkey_Valid nodeKey then Some False
      else case map_of (vs_nodeKeys s) (cs_NodeKey contextSource) of
             None \<Rightarrow> Some False
           | Some selectedID \<Rightarrow>
               (case map_of (vs_nodesByID s) selectedID of
                  None \<Rightarrow> None
                | Some selected \<Rightarrow>
                    if Kind selected \<noteq> NodeKindAgent then Some False
                    else if (case target of None \<Rightarrow> False | Some t \<Rightarrow> NodeIDOf selected = NodeIDOf t) then Some False
                    else case source of
                           None \<Rightarrow> Some True
                         | Some src \<Rightarrow>
                             Some (length (vs_startNodes s) \<noteq> 1 \<or> NodeIDOf selected = NodeIDOf src \<or>
                                   nodeDominates s (NodeIDOf selected) (NodeIDOf src))))"

definition previous_target_ok :: "validationState \<Rightarrow> Edge \<Rightarrow> Node option \<Rightarrow> Node option \<Rightarrow> bool" where
  "previous_target_ok s edge source target \<longleftrightarrow>
     e_ContextMode edge \<noteq> ContextModeNewSession \<and>
     (case target of
        None \<Rightarrow> True
      | Some t \<Rightarrow> Kind t = NodeKindAgent \<and>
          (case source of
             None \<Rightarrow> True
           | Some src \<Rightarrow> length (vs_startNodes s) \<noteq> 1 \<or> NodeIDOf t = NodeIDOf src \<or>
                         nodeDominates s (NodeIDOf t) (NodeIDOf src)))"

definition context_source_ok :: "validationState \<Rightarrow> Edge \<Rightarrow> Node option \<Rightarrow> Node option \<Rightarrow> bool option" where
  "context_source_ok s edge source target =
     (let kind = cs_Kind (CanonicalContextSource (e_ContextSource edge)) in
      if kind \<noteq> ContextSourceImmediateSource \<and> (case source of None \<Rightarrow> False | Some src \<Rightarrow> Kind src = NodeKindStart)
      then Some False
      else if kind = ContextSourceImmediateSource
      then Some (e_ContextMode edge = ContextModeNewSession \<or>
                 (case source of None \<Rightarrow> True | Some src \<Rightarrow> Kind src = NodeKindAgent))
      else if kind = ContextSourceSelectedNode then selected_source_ok s edge source target
      else if kind = ContextSourcePreviousTarget then Some (previous_target_ok s edge source target)
      else if kind = ContextSourcePreviousTargetOrNew
      then Some (e_ContextMode edge \<noteq> ContextModeNewSession \<and>
                 (case target of None \<Rightarrow> True | Some t \<Rightarrow> Kind t = NodeKindAgent))
      else Some False)"

definition validateContextSource ::
  "Edge \<Rightarrow> Node option \<Rightarrow> Node option \<Rightarrow> ValidationError \<Rightarrow> validationState \<Rightarrow> validationState option" where
  "validateContextSource edge source target ref s =
     map_option (\<lambda>ok. semantic_if (\<not> ok) CodeInvalidContextSource ref s) (context_source_ok s edge source target)"

definition kind_of :: "Node option \<Rightarrow> NodeKind" where
  "kind_of node = (case node of None \<Rightarrow> NodeKindOther '''' | Some n \<Rightarrow> Kind n)"

definition selector_request :: "validationState \<Rightarrow> Edge \<Rightarrow> Node option \<Rightarrow> Node option \<Rightarrow> TransitionParameterContractRequest" where
  "selector_request s edge source target =
     (contract_request edge (kind_of source) (kind_of target)
        (case target of None \<Rightarrow> '''' | Some t \<Rightarrow> NodeSubagentRole t)
        (length (mget_list (vs_edgesByGroup s) (e_TransitionGroupID edge)) > 1) (vo_RoleResolver (vs_opts s)))
      \<lparr>tpr_TargetSessionPolicy := AssigneeSessionPolicyEstablishTarget,
       tpr_RequireExecutionDescriptions := (vs_context s = ValidationContextExecution)\<rparr>"

definition description_required :: "AgentError option \<Rightarrow> bool" where
  "description_required err =
     (case err of
        Some (TargetAgentSelectionError TargetAgentSelectionErrorThinkingDescriptionRequired _) \<Rightarrow> True
      | _ \<Rightarrow> False)"

definition validateSelectorApplicability ::
  "Edge \<Rightarrow> Node option \<Rightarrow> Node option \<Rightarrow> ValidationError \<Rightarrow> validationState \<Rightarrow> validationState" where
  "validateSelectorApplicability edge source target ref s =
     (let validateAvailability = checks_availability s (e_TargetNodeID edge);
          (plan, planErr) = PlanTransitionSelection (selector_request s edge source target);
          assignee = esa_Assignee (tsp_Applicability plan); thinking = esa_Thinking (tsp_Applicability plan);
          s1 = (if CanonicalAssigneeSelection (e_AssigneeSelection edge) \<noteq> AssigneeSelectionPreviousNode then s
                else if sa_Reason assignee = SelectorApplicabilityTopology \<or>
                        sa_Reason assignee = SelectorApplicabilityContextSource
                then addSemantic CodeAssigneeSelectionInapplicable ref s
                else semantic_if (validateAvailability \<and> \<not> sa_Available assignee) CodeAssigneeSelectionUnavailable ref s)
      in if CanonicalThinkingSelection (e_ThinkingSelection edge) \<noteq> ThinkingSelectionPreviousNode then s1
         else if sa_Reason thinking = SelectorApplicabilityTopology
         then addSemantic CodeThinkingSelectionInapplicable ref s1
         else
           let s2 = semantic_if (validateAvailability \<and> \<not> sa_Available thinking) CodeThinkingSelectionUnavailable ref s1
           in semantic_if (validateAvailability \<and> vs_context s = ValidationContextExecution \<and> source \<noteq> None \<and>
                           target \<noteq> None \<and> description_required planErr) CodeThinkingSelectionUnavailable ref s2)"

text \<open>A fold whose steps may panic.\<close>

fun fold_option :: "('x \<Rightarrow> 's \<Rightarrow> 's option) \<Rightarrow> 'x list \<Rightarrow> 's \<Rightarrow> 's option" where
  "fold_option f [] s = Some s"
| "fold_option f (x # xs) s = Option.bind (f x s) (fold_option f xs)"

definition validate_runtime_support :: "Edge \<Rightarrow> validationState \<Rightarrow> validationState option" where
  "validate_runtime_support edge s =
     (let ref = edge_ref s edge; target = map_of (vs_nodesByID s) (e_TargetNodeID edge); source = edgeSource s edge in
      map_option (\<lambda>s1.
          fold (\<lambda>code. addSemantic code ref) (UnsupportedRuntimeFeatures (kind_of source) (e_RequiresApproval edge))
            (validateSelectorApplicability edge source target ref s1))
        (validateContextSource edge source target ref s))"

definition validateRuntimeSupport :: "validationState \<Rightarrow> validationState option" where
  "validateRuntimeSupport s = fold_option validate_runtime_support (d_Edges (vs_def s)) s"

definition validateStartOutgoingShape :: "Node \<Rightarrow> validationState \<Rightarrow> validationState" where
  "validateStartOutgoingShape start s =
     (let startID = NodeIDOf start; ref = (workflow_ref s)\<lparr>ve_NodeID := Some startID\<rparr> in
      if vs_context s = ValidationContextDraft then s
      else case mget_list (vs_groupsBySource s) startID of
             [tgroup] \<Rightarrow>
               (let edges = mget_list (vs_edgesByGroup s) (tg_ID tgroup) in
                if length edges = 0
                then addSemantic CodeInvalidStartOutgoingShape (ref\<lparr>ve_TransitionGroupID := Some (tg_ID tgroup)\<rparr>) s
                else fold (\<lambda>edge s'.
                       semantic_if (case map_of (vs_nodesByID s') (e_TargetNodeID edge) of
                                      None \<Rightarrow> True | Some target \<Rightarrow> \<not> IsExecutableNode target)
                         CodeInvalidStartOutgoingShape (ref\<lparr>ve_EdgeID := Some (e_ID edge)\<rparr>) s') edges s)
           | _ \<Rightarrow> addSemantic CodeInvalidStartOutgoingShape ref s)"

section \<open>Prompt placeholders\<close>

definition edgeParameterNameSet :: "Edge \<Rightarrow> string list" where
  "edgeParameterNameSet edge = filter (\<lambda>key. key \<noteq> '''') (map (\<lambda>p. TrimSpace (p_Key p)) (e_Parameters edge))"

definition outputFieldNameSet :: "OutputField list \<Rightarrow> string list" where
  "outputFieldNameSet fs = filter (\<lambda>name. name \<noteq> '''') (map (\<lambda>f. TrimSpace (of_Name f)) fs)"

definition protected_policy :: "ProtectedParameterConsumption \<Rightarrow> Parameter \<Rightarrow> ProtectedParameterConsumptionPolicy option" where
  "protected_policy consumption parameter =
     (let purpose = CanonicalParameterPurpose (p_Purpose parameter) in
      if purpose = ParameterPurposeTargetAssignee then Some (ppc_Assignee consumption)
      else if purpose = ParameterPurposeTargetThinking then Some (ppc_Thinking consumption)
      else None)"

definition promptParameterNameSet :: "validationState \<Rightarrow> Edge \<Rightarrow> Node \<Rightarrow> Node \<Rightarrow> string list" where
  "promptParameterNameSet s edge source target =
     (let consumption = PlanTransitionProtectedParameterConsumption
            ((contract_request edge (Kind source) (Kind target) (NodeSubagentRole target)
               (length (mget_list (vs_edgesByGroup s) (e_TransitionGroupID edge)) > 1) (vo_RoleResolver (vs_opts s)))
              \<lparr>tpr_TargetSessionPolicy := AssigneeSessionPolicyEstablishTarget\<rparr>);
          contextSourceKind = cs_Kind (CanonicalContextSource (e_ContextSource edge));
          retainedSessionPossible = (e_ContextMode edge = ContextModeContinueSession \<and>
            (contextSourceKind = ContextSourcePreviousTarget \<or> contextSourceKind = ContextSourcePreviousTargetOrNew))
      in fold (\<lambda>parameter names.
           case protected_policy consumption parameter of
             None \<Rightarrow> names
           | Some policy \<Rightarrow>
               if retainedSessionPossible \<or> policy \<noteq> ProtectedParameterConsumptionRequiredValidate
               then removeAll (TrimSpace (p_Key parameter)) names else names)
           (e_Parameters edge) (edgeParameterNameSet edge))"

definition transitionGroupParameterSet :: "validationState \<Rightarrow> TransitionGroupID \<Rightarrow> DerivedWiring \<Rightarrow> string list" where
  "transitionGroupParameterSet s groupID derived =
     (let source = (case map_of (vs_groupsByID s) groupID of
                      None \<Rightarrow> map_of (vs_nodesByID s) '''' | Some tgroup \<Rightarrow> map_of (vs_nodesByID s) (tg_SourceNodeID tgroup));
          joinFields = (case map_of (vs_groupsByID s) groupID of
                          None \<Rightarrow> []
                        | Some tgroup \<Rightarrow>
                            (case map_of (vs_nodesByID s) (tg_SourceNodeID tgroup) of
                               None \<Rightarrow> []
                             | Some node \<Rightarrow> if Kind node = NodeKindJoin
                                            then outputFieldNameSet (JoinOutputFieldsForNode derived (NodeIDOf node)) else []))
      in joinFields @ concat (map (\<lambda>edge.
           case (source, map_of (vs_nodesByID s) (e_TargetNodeID edge)) of
             (Some src, Some target) \<Rightarrow> promptParameterNameSet s edge src target
           | _ \<Rightarrow> edgeParameterNameSet edge) (mget_list (vs_edgesByGroup s) groupID)))"

definition addSessionReferenceError :: "ValidationErrorCode \<Rightarrow> ValidationError \<Rightarrow> validationState \<Rightarrow> validationState" where
  "addSessionReferenceError code ref s = addHard code ref s"

definition validatePriorSessionReference ::
  "Edge \<Rightarrow> string \<Rightarrow> ValidationError \<Rightarrow> validationState \<Rightarrow> validationState" where
  "validatePriorSessionReference edge transitionKey ref s =
     (case edgeSource s edge of
        None \<Rightarrow> s
      | Some source \<Rightarrow>
          if length (vs_startNodes s) \<noteq> 1 then s
          else
            let resolution = ResolvePromptSessionReference (vs_def s) transitionKey (NodeIDOf source)
                               (e_TargetNodeID edge) None in
            if psr_Matched resolution = 0 then addSessionReferenceError CodeSessionTransitionMissing ref s
            else if length (psr_Guaranteed resolution) = 0
            then addSessionReferenceError CodeSessionTransitionNotGuaranteed ref s
            else if length (psr_Guaranteed resolution) > 1
            then addSessionReferenceError CodeSessionTransitionAmbiguous ref s
            else hard_if (case map_of (vs_nodesByID s) (psr_SourceNodeID resolution) of
                            None \<Rightarrow> True | Some provider \<Rightarrow> Kind provider \<noteq> NodeKindAgent)
                   CodeSessionSourceCannotOwnSession ref s)"

definition validatePriorParameterReference ::
  "Edge \<Rightarrow> ValidationError \<Rightarrow> DerivedWiring \<Rightarrow> PromptPriorParameterReference \<Rightarrow> validationState \<Rightarrow> validationState" where
  "validatePriorParameterReference edge baseRef derived param s =
     (let transitionKey = TrimSpace (ppp_TransitionKey param);
          parameterKey = TrimSpace (ppp_ParameterKey param);
          ref = baseRef\<lparr>ve_FieldName := parameterKey, ve_Placeholder := ppp_Placeholder param\<rparr> in
      if transitionKey = '''' \<or> \<not> workflowkey_Valid transitionKey \<or> parameterKey = '''' \<or> \<not> workflowkey_Valid parameterKey
      then addHard CodeInvalidTemplatePlaceholder ref s
      else case (edgeSource s edge, vs_startNodes s) of
             (Some source, [start]) \<Rightarrow>
               if parameterKey = RuntimePromptParameterSessionID then validatePriorSessionReference edge transitionKey ref s
               else
                 let resolution = resolvePriorParameterTransitionGroups (d_TransitionGroups (vs_def s)) transitionKey
                                    (NodeIDOf source) (NodeIDOf start) (vs_outgoingByNode s) in
                 if ptr_Matched resolution = 0 then addHard CodeInvalidTemplatePlaceholder ref s
                 else (case ptr_Guaranteed resolution of
                         [g] \<Rightarrow> hard_if (parameterKey \<noteq> RuntimePromptParameterCommentary \<and>
                                         parameterKey \<notin> set (transitionGroupParameterSet s (tg_ID g) derived))
                                 CodeInvalidTemplatePlaceholder ref s
                       | _ \<Rightarrow> addHard CodeInvalidTemplatePlaceholder ref s)
           | _ \<Rightarrow> s)"

definition current_parameters :: "validationState \<Rightarrow> Edge \<Rightarrow> DerivedWiring \<Rightarrow> string list" where
  "current_parameters s edge derived =
     (case (edgeSource s edge, map_of (vs_nodesByID s) (e_TargetNodeID edge)) of
        (Some source, target) \<Rightarrow>
          if Kind source = NodeKindJoin then outputFieldNameSet (JoinOutputFieldsForNode derived (NodeIDOf source))
          else (case target of Some t \<Rightarrow> promptParameterNameSet s edge source t | None \<Rightarrow> edgeParameterNameSet edge)
      | (None, _) \<Rightarrow> edgeParameterNameSet edge)"

definition check_param :: "string list \<Rightarrow> ValidationError \<Rightarrow> PromptParameterReference \<Rightarrow> validationState \<Rightarrow> validationState" where
  "check_param currentParams ref param s =
     (let name = TrimSpace (ppr_Name param) in
      hard_if (name \<noteq> RuntimePromptParameterCommentary \<and>
               (name = '''' \<or> \<not> workflowkey_Valid name \<or> name \<notin> set currentParams))
        CodeInvalidTemplatePlaceholder (ref\<lparr>ve_InputName := name, ve_Placeholder := ppr_Placeholder param\<rparr>) s)"

definition validate_prompt_references ::
  "Edge \<Rightarrow> DerivedWiring \<Rightarrow> PromptTemplateReferences \<Rightarrow> ValidationError \<Rightarrow> validationState \<Rightarrow> validationState" where
  "validate_prompt_references edge derived refs ref s =
     (let s1 = fold (\<lambda>invalid. addHard CodeInvalidTemplatePlaceholder (ref\<lparr>ve_Placeholder := pri_Placeholder invalid\<rparr>))
                 (ptr_Invalid refs) s;
          s2 = (if ptr_SessionID refs \<and>
                   (case edgeSource s1 edge of None \<Rightarrow> True | Some source \<Rightarrow> Kind source \<noteq> NodeKindAgent)
                then addSessionReferenceError CodeSessionSourceCannotOwnSession (ref\<lparr>ve_Placeholder := ''.SessionId''\<rparr>) s1
                else s1);
          s3 = fold (check_param (current_parameters s2 edge derived) ref) (ptr_Params refs) s2
      in fold (validatePriorParameterReference edge ref derived) (ptr_PriorParams refs) s3)"

definition validate_prompt :: "template_parser \<Rightarrow> DerivedWiring \<Rightarrow> Edge \<Rightarrow> validationState \<Rightarrow> validationState option" where
  "validate_prompt parse derived edge s =
     (let prompt = TrimSpace (e_PromptTemplate edge);
          ref = (edge_ref s edge)\<lparr>ve_NodeID := id_ref (e_TargetNodeID edge)\<rparr> in
      if prompt = '''' then Some s
      else case ExtractPromptTemplateReferences parse prompt of
             None \<Rightarrow> None
           | Some (Inl err) \<Rightarrow> Some (addHard CodeInvalidTemplatePlaceholder ref s)
           | Some (Inr refs) \<Rightarrow> Some (validate_prompt_references edge derived refs ref s))"

definition validatePromptPlaceholders :: "template_parser \<Rightarrow> validationState \<Rightarrow> validationState option" where
  "validatePromptPlaceholders parse s =
     Option.bind (DeriveWiringWithCatalog parse (vs_def s) (vo_RoleResolver (vs_opts s)))
       (\<lambda>derived. fold_option (validate_prompt parse derived) (d_Edges (vs_def s)) s)"


section \<open>Graph and fan-outs\<close>

definition validate_reachability :: "NodeID list \<Rightarrow> NodeID \<times> Node \<Rightarrow> validationState \<Rightarrow> validationState" where
  "validate_reachability reachable = (\<lambda>(nodeID, node) s.
     let ref = (workflow_ref s)\<lparr>ve_NodeID := Some nodeID\<rparr>;
         s1 = semantic_if (nodeID \<notin> set reachable) CodeNodeUnreachableFromStart ref s
     in semantic_if (Kind node \<noteq> NodeKindTerminal \<and> \<not> canReachTerminal (vs_nodesByID s1) (vs_outgoingByNode s1) nodeID)
          CodeNonTerminalCannotReachTerminal ref s1)"

definition validateGraph :: "template_parser \<Rightarrow> validationState \<Rightarrow> validationState option" where
  "validateGraph parse s =
     Option.bind (validateRuntimeSupport (validateKindConstraints s)) (\<lambda>s1.
       case vs_startNodes s1 of
         [start] \<Rightarrow>
           let s2 = validateStartOutgoingShape start s1;
               reachable = reachableFrom (vs_outgoingByNode s2) (NodeIDOf start)
           in validatePromptPlaceholders parse (fold (validate_reachability reachable) (vs_nodesByID s2) s2)
       | _ \<Rightarrow> Some s1)"

definition validation_topology :: "validationState \<Rightarrow> fanoutTopology" where
  "validation_topology s =
     \<lparr>nodesByID = vs_nodesByID s, groupsBySource = vs_groupsBySource s, edgesByGroup = vs_edgesByGroup s,
      outgoingByNode = vs_outgoingByNode s\<rparr>"

fun branch_join_distances :: "fanoutTopology \<Rightarrow> Edge list \<Rightarrow> (NodeID, nat) gomap list option" where
  "branch_join_distances topology [] = Some []"
| "branch_join_distances topology (edge # edges) =
     (case fanoutBranchJoinDistances topology (e_TargetNodeID edge) of
        None \<Rightarrow> None
      | Some distances \<Rightarrow>
          if distances = [] then None
          else map_option ((#) distances) (branch_join_distances topology edges))"

definition fanoutHasValidJoin :: "validationState \<Rightarrow> TransitionGroup \<Rightarrow> Edge list \<Rightarrow> bool" where
  "fanoutHasValidJoin s tgroup edges =
     (case branch_join_distances (validation_topology s) edges of
        None \<Rightarrow> False
      | Some distances \<Rightarrow>
          (case fanoutNearestCommonJoin distances of
             None \<Rightarrow> False | Some nearestJoinID \<Rightarrow> nearestJoinID \<noteq> tg_SourceNodeID tgroup))"

definition validate_fanout :: "TransitionGroup \<Rightarrow> validationState \<Rightarrow> validationState" where
  "validate_fanout tgroup s =
     (let edges = mget_list (vs_edgesByGroup s) (tg_ID tgroup) in
      semantic_if (length edges > 1 \<and> \<not> fanoutHasValidJoin s tgroup edges)
        CodeInvalidFanoutJoinTopology (group_ref s tgroup) s)"

definition validateFanouts :: "validationState \<Rightarrow> validationState" where
  "validateFanouts s = fold validate_fanout (d_TransitionGroups (vs_def s)) s"

definition continuation_error :: "EdgeID \<Rightarrow> validationState \<Rightarrow> validationState" where
  "continuation_error edgeID s =
     (case map_of (vs_edgesByID s) edgeID of
        None \<Rightarrow> s
      | Some edge \<Rightarrow>
          addSemantic CodeInvalidContextSource
            ((workflow_ref s)\<lparr>ve_EdgeID := Some (e_ID edge), ve_TransitionGroupID := id_ref (e_TransitionGroupID edge)\<rparr>) s)"

definition validateContinuationSources :: "validationState \<Rightarrow> validationState option" where
  "validateContinuationSources s =
     (case vs_startNodes s of
        [start] \<Rightarrow> map_option (\<lambda>edgeIDs. fold continuation_error edgeIDs s)
                    (validateStaticContinuationSources (vs_def s) (NodeIDOf start))
      | _ \<Rightarrow> Some s)"

definition validateDerivedWiring :: "template_parser \<Rightarrow> validationState \<Rightarrow> validationState option" where
  "validateDerivedWiring parse s =
     map_option (\<lambda>derived.
         s\<lparr>vs_errors := vs_errors s @
             map (\<lambda>diagnostic. if ve_WorkflowID diagnostic = None
                               then diagnostic\<lparr>ve_WorkflowID := Some (d_ID (vs_def s))\<rparr> else diagnostic)
               (Diagnostics derived)\<rparr>)
       (DeriveWiring parse (vs_def s))"

definition ValidateDefinition ::
  "template_parser \<Rightarrow> Definition \<Rightarrow> ValidationOptions \<Rightarrow> ValidationResult option" where
  "ValidateDefinition parse def opts =
     (let context = (if vo_Context opts = ValidationContextOther '''' then ValidationContextDraft else vo_Context opts);
          s1 = validateShape (newValidationState def opts context) in
      map_option (\<lambda>s. \<lparr>vr_Context = context, vr_Errors = vs_errors s\<rparr>)
        (if IsZero (d_ID def) then Some s1
         else Option.bind (validateGraph parse s1) (\<lambda>s2.
              Option.bind (validateContinuationSources (validateFanouts s2)) (validateDerivedWiring parse))))"

end
