(* ===== verification/Wf_Validation_Props.thy ===== *)
theory Wf_Validation_Props
  imports Wf_Validation Wf_Session_Reuse_Total
begin

text \<open>
  What validation establishes. A check only appends errors and reads the indexes, so its
  effect is described by the condition under which it adds no blocking error; the locales
  \<open>check_step\<close> and \<open>total_step\<close> state that contract and carry it through the loops.
\<close>

section \<open>The contract of a check\<close>

definition clean :: "validationState \<Rightarrow> bool" where
  "clean s \<longleftrightarrow> \<not> list_ex ve_BlocksContext (vs_errors s)"

definition indexes :: "validationState \<Rightarrow> validationState" where
  "indexes s = s\<lparr>vs_errors := []\<rparr>"

abbreviation draft :: "validationState \<Rightarrow> bool" where
  "draft s \<equiv> vs_context s = ValidationContextDraft"

lemma indexes_idem [simp]: "indexes (indexes s) = indexes s"
  by (simp add: indexes_def)

lemma indexes_sel [simp]:
  "vs_def (indexes s) = vs_def s" "vs_opts (indexes s) = vs_opts s" "vs_context (indexes s) = vs_context s"
  "vs_nodesByID (indexes s) = vs_nodesByID s" "vs_nodeKeys (indexes s) = vs_nodeKeys s"
  "vs_nodeGroupsByID (indexes s) = vs_nodeGroupsByID s" "vs_groupsByID (indexes s) = vs_groupsByID s"
  "vs_edgesByID (indexes s) = vs_edgesByID s" "vs_edgesByGroup (indexes s) = vs_edgesByGroup s"
  "vs_groupsBySource (indexes s) = vs_groupsBySource s" "vs_outgoingByNode (indexes s) = vs_outgoingByNode s"
  "vs_incomingByNode (indexes s) = vs_incomingByNode s" "vs_startNodes (indexes s) = vs_startNodes s"
  by (simp_all add: indexes_def)

lemma indexes_cong:
  assumes "indexes s = indexes s'"
  shows "vs_def s = vs_def s'" "vs_opts s = vs_opts s'" "vs_context s = vs_context s'"
    "vs_nodesByID s = vs_nodesByID s'" "vs_nodeKeys s = vs_nodeKeys s'" "vs_nodeGroupsByID s = vs_nodeGroupsByID s'"
    "vs_groupsByID s = vs_groupsByID s'" "vs_edgesByID s = vs_edgesByID s'" "vs_edgesByGroup s = vs_edgesByGroup s'"
    "vs_groupsBySource s = vs_groupsBySource s'" "vs_outgoingByNode s = vs_outgoingByNode s'"
    "vs_incomingByNode s = vs_incomingByNode s'" "vs_startNodes s = vs_startNodes s'"
  using assms by (simp_all add: indexes_def) (metis validationState.select_convs validationState.surjective validationState.update_convs)+

lemma add_clean [simp]:
  "clean (addHard code ref s) \<longleftrightarrow> False"
  "clean (addSemantic code ref s) \<longleftrightarrow> clean s \<and> draft s"
  "clean (hard_if bad code ref s) \<longleftrightarrow> clean s \<and> \<not> bad"
  "clean (semantic_if bad code ref s) \<longleftrightarrow> clean s \<and> (bad \<longrightarrow> draft s)"
  by (auto simp: clean_def addHard_def addSemantic_def hard_if_def semantic_if_def)

lemma add_indexes [simp]:
  "indexes (addHard code ref s) = indexes s" "indexes (addSemantic code ref s) = indexes s"
  "indexes (hard_if bad code ref s) = indexes s" "indexes (semantic_if bad code ref s) = indexes s"
  by (auto simp: indexes_def addHard_def addSemantic_def hard_if_def semantic_if_def)

lemmas add_sel [simp] = indexes_cong [OF add_indexes(1)] indexes_cong [OF add_indexes(2)]
  indexes_cong [OF add_indexes(3)] indexes_cong [OF add_indexes(4)]

locale check_step =
  fixes run :: "'x \<Rightarrow> validationState \<Rightarrow> validationState option"
    and ok :: "'x \<Rightarrow> validationState \<Rightarrow> bool"
  assumes frame: "run x s = Some s' \<Longrightarrow> indexes s' = indexes s"
    and reports: "run x s = Some s' \<Longrightarrow> clean s' \<longleftrightarrow> clean s \<and> ok x s"
    and ok_indexes: "ok x (indexes s) = ok x s"
    and defined_indexes: "run x (indexes s) = None \<longleftrightarrow> run x s = None"
begin

lemma ok_cong: "indexes s = indexes s' \<Longrightarrow> ok x s = ok x s'"
  by (metis ok_indexes)

lemma loop_defined: "fold_option run xs s = None \<longleftrightarrow> (\<exists>x \<in> set xs. run x s = None)"
proof (induction xs arbitrary: s)
  case (Cons x xs)
  show ?case
  proof (cases "run x s")
    case (Some s1)
    then have "indexes s1 = indexes s" by (rule frame)
    then have "run y s1 = None \<longleftrightarrow> run y s = None" for y by (metis defined_indexes)
    with Some Cons.IH [of s1] show ?thesis by simp
  qed simp
qed simp

lemma loop_frame: "fold_option run xs s = Some s' \<Longrightarrow> indexes s' = indexes s"
  by (induction xs arbitrary: s) (auto simp: bind_eq_Some_conv dest: frame)

lemma loop_reports: "fold_option run xs s = Some s' \<Longrightarrow> clean s' \<longleftrightarrow> clean s \<and> (\<forall>x \<in> set xs. ok x s)"
proof (induction xs arbitrary: s)
  case (Cons x xs)
  then obtain s1 where s1: "run x s = Some s1" and rest: "fold_option run xs s1 = Some s'"
    by (auto simp: bind_eq_Some_conv)
  have "ok y s1 = ok y s" for y by (rule ok_cong) (rule frame [OF s1])
  then show ?case using Cons.IH [OF rest] reports [OF s1] by auto
qed simp

end

locale total_step =
  fixes check :: "'x \<Rightarrow> validationState \<Rightarrow> validationState"
    and ok :: "'x \<Rightarrow> validationState \<Rightarrow> bool"
  assumes check_frame: "indexes (check x s) = indexes s"
    and check_reports: "clean (check x s) \<longleftrightarrow> clean s \<and> ok x s"
    and check_ok: "ok x (indexes s) = ok x s"

sublocale total_step \<subseteq> check_step "\<lambda>x s. Some (check x s)" ok
  by unfold_locales (use check_frame check_reports check_ok in auto)

lemma fold_option_Some [simp]: "fold_option (\<lambda>x s. Some (f x s)) xs s = Some (fold f xs s)"
  by (induction xs arbitrary: s) auto

context total_step
begin

lemma fold_frame: "indexes (fold check xs s) = indexes s"
  by (rule loop_frame [OF fold_option_Some])

lemma fold_reports: "clean (fold check xs s) \<longleftrightarrow> clean s \<and> (\<forall>x \<in> set xs. ok x s)"
  by (rule loop_reports [OF fold_option_Some])

end


section \<open>Node and transition groups\<close>

definition group_edges :: "validationState \<Rightarrow> TransitionGroup \<Rightarrow> Edge list" where
  "group_edges s tgroup = mget_list (vs_edgesByGroup s) (tg_ID tgroup)"

definition distinct_edge_keys :: "Edge list \<Rightarrow> bool" where
  "distinct_edge_keys edges \<longleftrightarrow>
     (\<forall>e \<in> set edges. \<forall>e' \<in> set edges. workflowkey_Valid (e_Key e) \<and> e_Key e = e_Key e' \<longrightarrow> e_ID e = e_ID e')"

definition transition_group_ok :: "TransitionGroup \<Rightarrow> validationState \<Rightarrow> bool" where
  "transition_group_ok tgroup s \<longleftrightarrow>
     \<not> blank (tg_SourceNodeID tgroup) \<and> mhas (vs_nodesByID s) (tg_SourceNodeID tgroup) \<and>
     group_edges s tgroup \<noteq> [] \<and> distinct_edge_keys (group_edges s tgroup)"

definition keys_of :: "Edge list \<Rightarrow> (ModelKey, EdgeID) gomap \<Rightarrow> bool" where
  "keys_of edges seen \<longleftrightarrow>
     (\<forall>key i. map_of seen key = Some i \<longrightarrow> (\<exists>e \<in> set edges. e_Key e = key \<and> e_ID e = i)) \<and>
     (\<forall>e \<in> set edges. workflowkey_Valid (e_Key e) \<longrightarrow> map_of seen (e_Key e) \<noteq> None)"

lemma edge_keys_frame: "indexes (fst (fold edge_key_step edges (s, seen))) = indexes s"
  by (induction edges arbitrary: s seen) (auto simp: edge_key_step_def split: option.splits)

lemma edge_keys_unclean: "clean (fst (fold edge_key_step edges (s, seen))) \<Longrightarrow> clean s"
proof (induction edges arbitrary: s seen)
  case (Cons e edges)
  obtain s1 seen1 where e: "edge_key_step e (s, seen) = (s1, seen1)" by fastforce
  with Cons have "clean s1" by simp
  with e show ?case by (auto simp: edge_key_step_def split: if_splits option.splits)
qed simp

lemma edge_keys_reports:
  assumes "keys_of P seen" and "distinct_edge_keys P"
  shows "clean (fst (fold edge_key_step edges (s, seen))) \<longleftrightarrow> clean s \<and> distinct_edge_keys (P @ edges)"
  using assms
proof (induction edges arbitrary: P s seen)
  case (Cons e edges)
  have app: "P @ e # edges = (P @ [e]) @ edges" by simp
  show ?case
  proof (cases "workflowkey_Valid (e_Key e)")
    case False
    then have "edge_key_step e (s, seen) = (s, seen)" by (simp add: edge_key_step_def)
    moreover have "keys_of (P @ [e]) seen" using Cons.prems(1) False by (auto simp: keys_of_def)
    moreover have "distinct_edge_keys (P @ [e])" using Cons.prems(2) False by (auto simp: distinct_edge_keys_def)
    ultimately show ?thesis using Cons.IH app by simp
  next
    case True
    then have nb: "\<not> blank (e_Key e)" by (rule workflowkey_Valid_nonblank)
    show ?thesis
    proof (cases "\<exists>prev. map_of seen (e_Key e) = Some prev \<and> prev \<noteq> e_ID e")
      case bad: True
      then obtain e0 where e0: "e0 \<in> set P" "e_Key e0 = e_Key e" "e_ID e0 \<noteq> e_ID e"
        using Cons.prems(1) unfolding keys_of_def by metis
      obtain s1 seen1 where e: "edge_key_step e (s, seen) = (s1, seen1)" by fastforce
      with bad True nb have "\<not> clean s1" by (auto simp: edge_key_step_def)
      then have "\<not> clean (fst (fold edge_key_step (e # edges) (s, seen)))"
        using edge_keys_unclean e by fastforce
      moreover have "\<not> distinct_edge_keys (P @ e # edges)"
        using e0 True unfolding distinct_edge_keys_def by (metis Un_iff list.set_intros(1) set_append)
      ultimately show ?thesis by blast
    next
      case good: False
      then have e: "edge_key_step e (s, seen) = (s, AList.update (e_Key e) (e_ID e) seen)"
        using True nb by (auto simp: edge_key_step_def hard_if_def split: option.splits)
      have same: "\<forall>e0 \<in> set P. workflowkey_Valid (e_Key e0) \<and> e_Key e0 = e_Key e \<longrightarrow> e_ID e0 = e_ID e"
        using good Cons.prems unfolding keys_of_def distinct_edge_keys_def by (metis option.exhaust)
      have "keys_of (P @ [e]) (AList.update (e_Key e) (e_ID e) seen)"
        using Cons.prems(1) unfolding keys_of_def by (auto split: if_splits)
      moreover have "distinct_edge_keys (P @ [e])"
        using Cons.prems(2) same unfolding distinct_edge_keys_def by auto
      ultimately show ?thesis using Cons.IH app e by simp
    qed
  qed
qed simp

lemma edge_keys_clean: "clean (fst (fold edge_key_step edges (s, []))) \<longleftrightarrow> clean s \<and> distinct_edge_keys edges"
  using edge_keys_reports [of "[]" "[]" edges s] by (simp add: keys_of_def distinct_edge_keys_def)

interpretation transition_group_step: total_step validate_transition_group transition_group_ok
proof unfold_locales
  fix tgroup s
  show "indexes (validate_transition_group tgroup s) = indexes s"
    by (simp add: validate_transition_group_def Let_def edge_keys_frame)
  show "clean (validate_transition_group tgroup s) \<longleftrightarrow> clean s \<and> transition_group_ok tgroup s"
    by (auto simp: validate_transition_group_def Let_def edge_keys_clean transition_group_ok_def group_edges_def)
  show "transition_group_ok tgroup (indexes s) = transition_group_ok tgroup s"
    by (simp add: transition_group_ok_def group_edges_def)
qed

text \<open>Node groups only add constraints of their own; what matters here is that they are checks.\<close>

lemma node_group_members_frame:
  "node_group_members ref members s bs js = (s', bs', js') \<Longrightarrow> indexes s' = indexes s \<and> (clean s' \<longrightarrow> clean s)"
  by (induction ref members s bs js rule: node_group_members.induct) (auto split: NodeKind.splits)

definition node_members_ok :: "Node list \<Rightarrow> bool" where
  "node_members_ok members \<longleftrightarrow>
     list_all (\<lambda>node. Kind node \<in> {NodeKindAgent, NodeKindScript, NodeKindJoin}) members"

lemma node_group_members_result:
  "node_group_members ref members s bs js = (s', bs', js') \<Longrightarrow>
   (clean s' \<longleftrightarrow> clean s \<and> node_members_ok members) \<and> snd (node_group_members ref' members t bs js) = (bs', js')"
  by (induction ref members s bs js arbitrary: t rule: node_group_members.induct)
    (auto simp: node_members_ok_def split: NodeKind.splits)

definition node_group_ok :: "NodeGroup \<Rightarrow> validationState \<Rightarrow> bool" where
  "node_group_ok ngroup s \<longleftrightarrow>
     node_members_ok (nodeGroupMembers s ngroup) \<and>
     (case node_group_members zero_error (nodeGroupMembers s ngroup) s [] [] of
        (_, branchIDs, joinIDs) \<Rightarrow>
          length branchIDs \<ge> 2 \<and> (\<exists>joinID. joinIDs = [joinID] \<and> \<not> nodeGroupV1FanoutTopologyError s branchIDs joinID))"

lemma nodeGroupMembers_indexes [simp]: "nodeGroupMembers (indexes s) = nodeGroupMembers s"
  by (rule ext) (simp add: nodeGroupMembers_def)

lemma fanout_topology_error_cong:
  assumes "indexes s = indexes s'"
  shows "nodeGroupV1FanoutTopologyError s = nodeGroupV1FanoutTopologyError s'"
  by (rule ext)+ (simp add: nodeGroupV1FanoutTopologyError_def nodeGroupSeparateFanout_def group_source_def
      nodeHasOutgoingEdgeTo_def indexes_cong [OF assms] cong: list.case_cong)

lemma node_group_ok_iff:
  assumes "node_group_members ref (nodeGroupMembers s ngroup) s' [] [] = (s1, branchIDs, joinIDs)"
  shows "node_group_ok ngroup s \<longleftrightarrow> node_members_ok (nodeGroupMembers s ngroup) \<and> length branchIDs \<ge> 2 \<and>
    (\<exists>joinID. joinIDs = [joinID] \<and> \<not> nodeGroupV1FanoutTopologyError s branchIDs joinID)"
  using node_group_members_result [OF assms, of zero_error s, THEN conjunct2]
  by (cases "node_group_members zero_error (nodeGroupMembers s ngroup) s [] []") (simp add: node_group_ok_def)

interpretation node_group_step: total_step validate_node_group node_group_ok
proof unfold_locales
  fix ngroup s
  obtain s1 branchIDs joinIDs
    where m: "node_group_members (node_group_ref s ngroup) (nodeGroupMembers s ngroup) s [] [] = (s1, branchIDs, joinIDs)"
    by (metis prod_cases3)
  note run = validate_node_group_def m Let_def
  note idx = node_group_members_frame [OF m]
  show "indexes (validate_node_group ngroup s) = indexes s"
    using idx by (simp add: run split: list.split)
  have "nodeGroupV1FanoutTopologyError (hard_if bad code ref s1) = nodeGroupV1FanoutTopologyError s" for bad code ref
    using idx by (intro fanout_topology_error_cong) simp
  then show "clean (validate_node_group ngroup s) \<longleftrightarrow> clean s \<and> node_group_ok ngroup s"
    using node_group_members_result [OF m] node_group_ok_iff [OF m]
    by (auto simp: run split: list.split)
  obtain s2 bs js where m2: "node_group_members zero_error (nodeGroupMembers s ngroup) s [] [] = (s2, bs, js)"
    by (metis prod_cases3)
  then show "node_group_ok ngroup (indexes s) = node_group_ok ngroup s"
    using node_group_ok_iff [OF m2] node_group_ok_iff [of zero_error "indexes s" ngroup s s2 bs js]
      fanout_topology_error_cong [of "indexes s" s] by simp
qed


section \<open>Edges\<close>

definition parameter_ok :: "Parameter \<Rightarrow> bool" where
  "parameter_ok p \<longleftrightarrow>
     (let key = TrimSpace (p_Key p); purpose = CanonicalParameterPurpose (p_Purpose p);
          description = TrimSpace (p_Description p) in
      purpose \<in> {ParameterPurposeOrdinary, ParameterPurposeTargetAssignee, ParameterPurposeTargetThinking} \<and>
      workflowkey_Valid key \<and> length key \<le> MaxParameterKeyChars \<and> \<not> ReservedParameter key \<and>
      (purpose = ParameterPurposeOrdinary \<longrightarrow> description \<noteq> '''') \<and>
      length description \<le> MaxParameterDescriptionChars)"

definition protected_purposes :: "Parameter list \<Rightarrow> string list" where
  "protected_purposes ps =
     filter (\<lambda>purpose. purpose \<noteq> ParameterPurposeOrdinary) (map (\<lambda>p. CanonicalParameterPurpose (p_Purpose p)) ps)"

lemma parameters_frame: "indexes (fst (fold (parameter_step ref) ps (s, seen, purposes))) = indexes s"
  by (induction ps arbitrary: s seen purposes) (auto simp: parameter_step_def Let_def)

lemma parameters_purposes:
  "snd (snd (fold (parameter_step ref) ps (s, seen, purposes))) = rev (protected_purposes ps) @ purposes"
  by (induction ps arbitrary: s seen purposes) (auto simp: parameter_step_def Let_def protected_purposes_def)

lemma parameters_reports:
  "clean (fst (fold (parameter_step ref) ps (s, seen, purposes))) \<longleftrightarrow>
   clean s \<and> list_all parameter_ok ps \<and>
   distinct (map (\<lambda>p. TrimSpace (p_Key p)) ps) \<and> set seen \<inter> set (map (\<lambda>p. TrimSpace (p_Key p)) ps) = {} \<and>
   distinct (protected_purposes ps) \<and> set purposes \<inter> set (protected_purposes ps) = {}"
proof (induction ps arbitrary: s seen purposes)
  case (Cons p ps)
  obtain s1 seen1 purposes1 where p: "parameter_step ref p (s, seen, purposes) = (s1, seen1, purposes1)"
    by (metis prod_cases3)
  have s1: "clean s1 \<longleftrightarrow> clean s \<and> parameter_ok p \<and> TrimSpace (p_Key p) \<notin> set seen \<and>
      (CanonicalParameterPurpose (p_Purpose p) \<noteq> ParameterPurposeOrdinary \<longrightarrow>
        CanonicalParameterPurpose (p_Purpose p) \<notin> set purposes)"
    using p workflowkey_Valid_nonblank [of "TrimSpace (p_Key p)"]
    by (auto simp: parameter_step_def parameter_ok_def Let_def split: if_splits)
  have "seen1 = TrimSpace (p_Key p) # seen"
    and "purposes1 = (if CanonicalParameterPurpose (p_Purpose p) \<noteq> ParameterPurposeOrdinary
                      then CanonicalParameterPurpose (p_Purpose p) # purposes else purposes)"
    using p by (auto simp: parameter_step_def Let_def)
  with s1 show ?case by (auto simp: p Cons.IH protected_purposes_def)
qed (auto simp: protected_purposes_def)

definition parameters_ok :: "Edge \<Rightarrow> bool" where
  "parameters_ok edge \<longleftrightarrow>
     list_all parameter_ok (e_Parameters edge) \<and> distinct (map (\<lambda>p. TrimSpace (p_Key p)) (e_Parameters edge)) \<and>
     distinct (protected_purposes (e_Parameters edge)) \<and>
     (CanonicalAssigneeSelection (e_AssigneeSelection edge) = AssigneeSelectionPreviousNode \<longrightarrow>
        ParameterPurposeTargetAssignee \<in> set (protected_purposes (e_Parameters edge))) \<and>
     (CanonicalThinkingSelection (e_ThinkingSelection edge) = ThinkingSelectionPreviousNode \<longrightarrow>
        ParameterPurposeTargetThinking \<in> set (protected_purposes (e_Parameters edge)))"

lemma validateParameters_step:
  "indexes (validateParameters edge ref s) = indexes s"
  "clean (validateParameters edge ref s) \<longleftrightarrow> clean s \<and> parameters_ok edge"
proof -
  obtain s1 seen purposes where f: "fold (parameter_step ref) (e_Parameters edge) (s, [], []) = (s1, seen, purposes)"
    by (metis prod_cases3)
  show "indexes (validateParameters edge ref s) = indexes s"
    using parameters_frame [of ref "e_Parameters edge" s "[]" "[]"] by (simp add: validateParameters_def f Let_def)
  show "clean (validateParameters edge ref s) \<longleftrightarrow> clean s \<and> parameters_ok edge"
    using parameters_reports [of ref "e_Parameters edge" s "[]" "[]"] parameters_purposes [of ref "e_Parameters edge" s "[]" "[]"]
    by (auto simp: validateParameters_def f Let_def parameters_ok_def)
qed

definition prompt_allowed :: "Edge \<Rightarrow> validationState \<Rightarrow> bool" where
  "prompt_allowed edge s \<longleftrightarrow>
     (case map_of (vs_nodesByID s) (e_TargetNodeID edge) of
        Some target \<Rightarrow> if Kind target = NodeKindAgent then draft s \<or> \<not> blank (e_PromptTemplate edge)
                       else blank (e_PromptTemplate edge)
      | None \<Rightarrow> blank (e_PromptTemplate edge)) \<and>
     (case edgeSource s edge of
        Some source \<Rightarrow> Kind source \<in> {NodeKindStart, NodeKindJoin} \<longrightarrow> e_Parameters edge = []
      | None \<Rightarrow> True)"

lemma edgeSource_cong:
  assumes "indexes s = indexes s'"
  shows "edgeSource s = edgeSource s'"
  by (rule ext) (simp add: edgeSource_def indexes_cong [OF assms] split: option.split)

lemma validateEdgeInvocationContract_step:
  "indexes (validateEdgeInvocationContract edge ref s) = indexes s"
  "clean (validateEdgeInvocationContract edge ref s) \<longleftrightarrow> clean s \<and> prompt_allowed edge s \<and> parameters_ok edge"
proof -
  have src: "edgeSource (hard_if bad code ref' s) = edgeSource s" for bad code ref'
    by (rule edgeSource_cong) simp
  show "indexes (validateEdgeInvocationContract edge ref s) = indexes s"
    by (simp add: validateEdgeInvocationContract_def Let_def validateParameters_step)
  show "clean (validateEdgeInvocationContract edge ref s) \<longleftrightarrow> clean s \<and> prompt_allowed edge s \<and> parameters_ok edge"
    by (auto simp: validateEdgeInvocationContract_def Let_def validateParameters_step prompt_allowed_def src
        split: option.splits)
qed

definition edge_ok :: "Edge \<Rightarrow> validationState \<Rightarrow> bool" where
  "edge_ok edge s \<longleftrightarrow>
     mhas (vs_groupsByID s) (e_TransitionGroupID edge) \<and> workflowkey_Valid (e_Key edge) \<and>
     \<not> blank (e_TargetNodeID edge) \<and> mhas (vs_nodesByID s) (e_TargetNodeID edge) \<and> validContextMode (e_ContextMode edge) \<and>
     CanonicalAssigneeSelection (e_AssigneeSelection edge) \<in> {AssigneeSelectionConfigured, AssigneeSelectionPreviousNode} \<and>
     CanonicalThinkingSelection (e_ThinkingSelection edge) \<in> {ThinkingSelectionConfigured, ThinkingSelectionPreviousNode} \<and>
     prompt_allowed edge s \<and> parameters_ok edge"

lemma prompt_allowed_cong:
  assumes "indexes s = indexes s'"
  shows "prompt_allowed edge s = prompt_allowed edge s'"
  by (simp add: prompt_allowed_def edgeSource_cong [OF assms] indexes_cong [OF assms] split: option.split)

lemma prompt_allowed_add [simp]:
  "prompt_allowed edge (addHard code ref s) = prompt_allowed edge s"
  "prompt_allowed edge (hard_if bad code ref s) = prompt_allowed edge s"
  by (rule prompt_allowed_cong, simp)+

interpretation edge_step: total_step validate_edge edge_ok
proof unfold_locales
  fix edge s
  show "indexes (validate_edge edge s) = indexes s"
    by (simp add: validate_edge_def Let_def validateEdgeInvocationContract_step)
  show "clean (validate_edge edge s) \<longleftrightarrow> clean s \<and> edge_ok edge s"
    using workflowkey_Valid_nonblank [of "e_Key edge"]
    by (auto simp: validate_edge_def Let_def validateEdgeInvocationContract_step edge_ok_def)
  show "edge_ok edge (indexes s) = edge_ok edge s"
    by (simp add: edge_ok_def prompt_allowed_cong [of "indexes s" s])
qed


section \<open>Indexes of a clean definition\<close>

text \<open>A loop that enters items under fresh keys: when it ends without a blocking error, every
  item was good, no key was used twice, and the loop did nothing but add the items.\<close>

locale indexing_loop =
  fixes step :: "'x \<Rightarrow> 's \<Rightarrow> 's" and add :: "'x \<Rightarrow> 's \<Rightarrow> 's" and state :: "'s \<Rightarrow> validationState"
    and key :: "'x \<Rightarrow> 'k" and entered :: "'s \<Rightarrow> 'k list" and good :: "Definition \<Rightarrow> 'x \<Rightarrow> bool"
  assumes step_clean: "clean (state (step x s)) \<Longrightarrow>
      clean (state s) \<and> good (vs_def (state s)) x \<and> key x \<notin> set (entered s) \<and> step x s = add x s"
    and add_kept: "vs_def (state (add x s)) = vs_def (state s)"
    and add_entered: "entered (add x s) = entered s @ [key x]"
begin

lemma loop_clean:
  "clean (state (fold step xs s)) \<Longrightarrow>
   clean (state s) \<and> (\<forall>x \<in> set xs. good (vs_def (state s)) x) \<and> distinct (map key xs) \<and>
   set (entered s) \<inter> key ` set xs = {} \<and> fold step xs s = fold add xs s"
proof (induction xs arbitrary: s)
  case (Cons x xs)
  then have rest: "clean (state (fold step xs (step x s)))" by simp
  note IH = Cons.IH [OF rest]
  then have x: "clean (state s) \<and> good (vs_def (state s)) x \<and> key x \<notin> set (entered s) \<and> step x s = add x s"
    by (intro step_clean) blast
  with IH show ?case by (auto simp: add_kept add_entered)
qed simp

end

lemma update_fresh [simp]: "k \<notin> set (mkeys m) \<Longrightarrow> AList.update k v m = m @ [(k, v)]"
  by (induction m) auto

lemma check_workflow_id_clean [simp]:
  "clean (check_workflow_id workflowID ref s) \<longleftrightarrow> clean s \<and> \<not> IsZero workflowID \<and> workflowID = d_ID (vs_def s)"
  by (simp add: check_workflow_id_def)

lemma check_workflow_id_same [simp]:
  "\<not> IsZero workflowID \<Longrightarrow> workflowID = d_ID (vs_def s) \<Longrightarrow> check_workflow_id workflowID ref s = s"
  by (simp add: check_workflow_id_def hard_if_def)

lemma indexes_check_workflow_id [simp]: "indexes (check_workflow_id workflowID ref s) = indexes s"
  by (simp add: check_workflow_id_def)

lemmas check_workflow_id_sel [simp] = indexes_cong [OF indexes_check_workflow_id]

lemma clean_update [simp]:
  "clean (s\<lparr>vs_nodesByID := a\<rparr>) = clean s" "clean (s\<lparr>vs_startNodes := b\<rparr>) = clean s"
  "clean (s\<lparr>vs_groupsByID := c\<rparr>) = clean s" "clean (s\<lparr>vs_groupsBySource := d\<rparr>) = clean s"
  "clean (s\<lparr>vs_edgesByID := e\<rparr>) = clean s" "clean (s\<lparr>vs_edgesByGroup := f\<rparr>) = clean s"
  "clean (s\<lparr>vs_outgoingByNode := g\<rparr>) = clean s" "clean (s\<lparr>vs_incomingByNode := h\<rparr>) = clean s"
  "clean (s\<lparr>vs_nodeKeys := k\<rparr>) = clean s" "clean (s\<lparr>vs_nodeGroupsByID := l\<rparr>) = clean s"
  by (simp_all add: clean_def)

definition add_node :: "Node \<Rightarrow> validationState \<Rightarrow> validationState" where
  "add_node node s =
     s\<lparr>vs_nodesByID := vs_nodesByID s @ [(NodeIDOf node, node)],
       vs_startNodes := vs_startNodes s @ (if Kind node = NodeKindStart then [node] else [])\<rparr>"

definition node_id_good :: "Definition \<Rightarrow> Node \<Rightarrow> bool" where
  "node_id_good def node \<longleftrightarrow> NodeWorkflowID node = d_ID def \<and> \<not> blank (NodeIDOf node)"

interpretation node_index: indexing_loop index_node add_node id NodeIDOf "\<lambda>s. mkeys (vs_nodesByID s)" node_id_good
  by unfold_locales
    (auto simp: index_node_def add_node_def node_id_good_def Let_def map_of_eq_None_iff split: if_splits)

definition add_group ::
  "TransitionGroup \<Rightarrow> validationState \<times> (string, TransitionGroupID) gomap
   \<Rightarrow> validationState \<times> (string, TransitionGroupID) gomap" where
  "add_group tgroup = (\<lambda>(s, seen).
     (s\<lparr>vs_groupsByID := vs_groupsByID s @ [(tg_ID tgroup, tgroup)],
        vs_groupsBySource := mappend (tg_SourceNodeID tgroup) tgroup (vs_groupsBySource s)\<rparr>,
      seen @ [(TrimSpace (tg_TransitionID tgroup), tg_ID tgroup)]))"

definition group_id_good :: "Definition \<Rightarrow> TransitionGroup \<Rightarrow> bool" where
  "group_id_good def tgroup \<longleftrightarrow> tg_WorkflowID tgroup = d_ID def \<and> \<not> blank (tg_ID tgroup) \<and>
     workflowkey_Valid (tg_TransitionID tgroup) \<and> validDisplayName (tg_DisplayName tgroup)"

lemma workflowkey_Valid_trim [simp]: "workflowkey_Valid (TrimSpace key) = workflowkey_Valid key"
  by (simp add: workflowkey_Valid_def)

lemma index_transition_group_clean:
  assumes "clean (fst (index_transition_group g ss))"
  shows "clean (fst ss) \<and> group_id_good (vs_def (fst ss)) g \<and> tg_ID g \<notin> set (mkeys (vs_groupsByID (fst ss))) \<and>
    TrimSpace (tg_TransitionID g) \<notin> set (mkeys (snd ss)) \<and> index_transition_group g ss = add_group g ss"
proof -
  obtain s seen where ss: "ss = (s, seen)" by fastforce
  from assms have c: "clean s \<and> group_id_good (vs_def s) g \<and> tg_ID g \<notin> set (mkeys (vs_groupsByID s)) \<and>
    map_of seen (TrimSpace (tg_TransitionID g)) = None \<and> \<not> IsZero (tg_WorkflowID g)"
    by (auto simp: ss index_transition_group_def Let_def group_id_good_def map_of_eq_None_iff split: if_splits option.splits)
  moreover from c have "\<not> blank (tg_TransitionID g)"
    by (simp add: group_id_good_def workflowkey_Valid_nonblank)
  ultimately have "index_transition_group g ss = add_group g ss"
    by (auto simp: ss index_transition_group_def add_group_def Let_def group_id_good_def map_of_eq_None_iff hard_if_def
        rev_image_eqI split: option.split dest!: map_of_SomeD)
  with c show ?thesis by (simp add: ss map_of_eq_None_iff)
qed

interpretation group_index: indexing_loop index_transition_group add_group fst tg_ID
  "\<lambda>ss. mkeys (vs_groupsByID (fst ss))" group_id_good
  by unfold_locales (use index_transition_group_clean in blast, simp_all add: add_group_def split_def)

interpretation transition_index: indexing_loop index_transition_group add_group fst "\<lambda>g. TrimSpace (tg_TransitionID g)"
  "\<lambda>ss. mkeys (snd ss)" group_id_good
  by unfold_locales (use index_transition_group_clean in blast, simp_all add: add_group_def split_def)

definition add_edge :: "Edge \<Rightarrow> validationState \<Rightarrow> validationState" where
  "add_edge edge s =
     (let s2 = s\<lparr>vs_edgesByID := vs_edgesByID s @ [(e_ID edge, edge)],
                vs_edgesByGroup := mappend (e_TransitionGroupID edge) edge (vs_edgesByGroup s)\<rparr> in
      case map_of (vs_groupsByID s) (e_TransitionGroupID edge) of
        None \<Rightarrow> s2
      | Some tgroup \<Rightarrow>
          s2\<lparr>vs_outgoingByNode := mappend (tg_SourceNodeID tgroup) edge (vs_outgoingByNode s),
             vs_incomingByNode := mappend (e_TargetNodeID edge) edge (vs_incomingByNode s)\<rparr>)"

definition edge_id_good :: "Definition \<Rightarrow> Edge \<Rightarrow> bool" where
  "edge_id_good def edge \<longleftrightarrow> e_WorkflowID edge = d_ID def \<and> \<not> blank (e_ID edge)"

interpretation edge_index: indexing_loop index_edge add_edge id e_ID "\<lambda>s. mkeys (vs_edgesByID s)" edge_id_good
proof unfold_locales
  fix e s
  assume "clean (id (index_edge e s))"
  then have c: "clean s \<and> edge_id_good (vs_def s) e \<and> e_ID e \<notin> set (mkeys (vs_edgesByID s)) \<and> \<not> IsZero (e_WorkflowID e)"
    by (auto simp: index_edge_def edge_id_good_def Let_def map_of_eq_None_iff split: if_splits option.splits)
  then have "index_edge e s = add_edge e s"
    by (auto simp: index_edge_def add_edge_def edge_id_good_def Let_def map_of_eq_None_iff
        rev_image_eqI split: option.split dest!: map_of_SomeD)
  with c show "clean (id s) \<and> edge_id_good (vs_def (id s)) e \<and> e_ID e \<notin> set (mkeys (vs_edgesByID s)) \<and> index_edge e s = add_edge e s"
    by simp
qed (simp_all add: add_edge_def Let_def split: option.split)

lemma fold_add_node:
  "fold add_node ns s =
   s\<lparr>vs_nodesByID := vs_nodesByID s @ map (\<lambda>n. (NodeIDOf n, n)) ns,
     vs_startNodes := vs_startNodes s @ filter (\<lambda>n. Kind n = NodeKindStart) ns\<rparr>"
  by (induction ns arbitrary: s) (auto simp: add_node_def)

lemma fold_add_group:
  "fst (fold add_group gs (s, seen)) =
   s\<lparr>vs_groupsByID := vs_groupsByID s @ map (\<lambda>g. (tg_ID g, g)) gs,
     vs_groupsBySource := fold (\<lambda>g. mappend (tg_SourceNodeID g) g) gs (vs_groupsBySource s)\<rparr>"
  by (induction gs arbitrary: s seen) (auto simp: add_group_def)

lemma fold_add_edge:
  "fold add_edge es s =
   s\<lparr>vs_edgesByID := vs_edgesByID s @ map (\<lambda>e. (e_ID e, e)) es,
     vs_edgesByGroup := fold (\<lambda>e. mappend (e_TransitionGroupID e) e) es (vs_edgesByGroup s),
     vs_outgoingByNode := fold (\<lambda>e m. case edge_source (vs_groupsByID s) e of
                                 None \<Rightarrow> m | Some source \<Rightarrow> mappend source e m) es (vs_outgoingByNode s),
     vs_incomingByNode := fold (\<lambda>e m. if mhas (vs_groupsByID s) (e_TransitionGroupID e)
                                 then mappend (e_TargetNodeID e) e m else m) es (vs_incomingByNode s)\<rparr>"
  by (induction es arbitrary: s) (auto simp: add_edge_def Let_def edge_source_def split: option.split)

text \<open>The maps that a definition without blocking errors leaves in the state. They are the
  indexes of \<open>newFanoutTopology\<close>.\<close>

definition nodes_map :: "Definition \<Rightarrow> (NodeID, Node) gomap" where
  "nodes_map def = map (\<lambda>n. (NodeIDOf n, n)) (d_Nodes def)"

definition groups_map :: "Definition \<Rightarrow> (TransitionGroupID, TransitionGroup) gomap" where
  "groups_map def = map (\<lambda>g. (tg_ID g, g)) (d_TransitionGroups def)"

lemma fold_update_distinct:
  "distinct (map f xs) \<Longrightarrow> f ` set xs \<inter> fst ` set m = {} \<Longrightarrow>
   fold (\<lambda>x. AList.update (f x) x) xs m = m @ map (\<lambda>x. (f x, x)) xs"
  by (induction xs arbitrary: m) auto

lemma index_nodes_map: "distinct (map NodeIDOf (d_Nodes def)) \<Longrightarrow> index_nodes (d_Nodes def) = nodes_map def"
  by (simp add: index_nodes_def nodes_map_def fold_update_distinct)

lemma index_groups_map: "distinct (map tg_ID (d_TransitionGroups def)) \<Longrightarrow> index_groups (d_TransitionGroups def) = groups_map def"
  by (simp add: index_groups_def groups_map_def fold_update_distinct)

definition set_groups :: "validationState \<Rightarrow> validationState" where
  "set_groups s = s\<lparr>vs_errors := [], vs_nodeGroupsByID := []\<rparr>"

lemma set_groups_kept [simp]:
  "set_groups (addHard code ref s) = set_groups s" "set_groups (hard_if bad code ref s) = set_groups s"
  "set_groups (check_workflow_id w ref s) = set_groups s" "set_groups (s\<lparr>vs_nodeGroupsByID := m\<rparr>) = set_groups s"
  by (simp_all add: set_groups_def addHard_def hard_if_def check_workflow_id_def)

lemma index_node_group_frame:
  "(clean (fst (fold index_node_group ngs ss)) \<longrightarrow> clean (fst ss)) \<and>
   set_groups (fst (fold index_node_group ngs ss)) = set_groups (fst ss)"
proof (induction ngs arbitrary: ss)
  case (Cons ng ngs)
  obtain s seen where ss: "ss = (s, seen)" by fastforce
  have "clean (fst (index_node_group ng ss)) \<longrightarrow> clean (fst ss)"
    by (auto simp: ss index_node_group_def Let_def split: if_splits option.splits)
  moreover have "set_groups (fst (index_node_group ng ss)) = set_groups (fst ss)"
    by (simp add: ss index_node_group_def Let_def split: option.split)
  ultimately show ?case using Cons.IH [of "index_node_group ng ss"] by auto
qed simp

definition set_keys :: "validationState \<Rightarrow> validationState" where
  "set_keys s = s\<lparr>vs_errors := [], vs_nodeKeys := []\<rparr>"

lemma set_keys_kept [simp]:
  "set_keys (addHard code ref s) = set_keys s" "set_keys (hard_if bad code ref s) = set_keys s"
  "set_keys (s\<lparr>vs_nodeKeys := m\<rparr>) = set_keys s"
  by (simp_all add: set_keys_def addHard_def hard_if_def)

lemma validate_node_frame: "set_keys (validate_node n s) = set_keys s"
  by (simp add: validate_node_def Let_def split: option.split NodeKind.split)

lemma validate_node_clean:
  assumes "clean (validate_node n s)"
  shows "clean s \<and> workflowkey_Valid (NodeKey n) \<and> map_of (vs_nodeKeys s) (NodeKey n) \<in> {None, Some (NodeIDOf n)} \<and>
    map_of (vs_nodeKeys (validate_node n s)) = (map_of (vs_nodeKeys s))(NodeKey n \<mapsto> NodeIDOf n)"
  using assms Kind_cases [of n]
  by (auto simp: validate_node_def Let_def split: if_splits option.splits NodeKind.splits)

lemma validate_nodes_clean:
  "clean (fold validate_node ns s) \<Longrightarrow>
   clean s \<and> (\<forall>n \<in> set ns. workflowkey_Valid (NodeKey n)) \<and>
   map_of (vs_nodeKeys s) \<subseteq>\<^sub>m map_of (vs_nodeKeys (fold validate_node ns s)) \<and>
   (\<forall>n \<in> set ns. map_of (vs_nodeKeys (fold validate_node ns s)) (NodeKey n) = Some (NodeIDOf n)) \<and>
   set_keys (fold validate_node ns s) = set_keys s"
proof (induction ns arbitrary: s)
  case (Cons n ns)
  then have "clean (fold validate_node ns (validate_node n s))" by simp
  note IH = Cons.IH [OF this]
  note n = validate_node_clean [OF IH [THEN conjunct1]]
  have "map_of (vs_nodeKeys s) \<subseteq>\<^sub>m map_of (vs_nodeKeys (validate_node n s))"
    using n by (auto simp: map_le_def)
  then have le: "map_of (vs_nodeKeys s) \<subseteq>\<^sub>m map_of (vs_nodeKeys (fold validate_node ns (validate_node n s)))"
    using IH by (blast intro: map_le_trans)
  have "map_of (vs_nodeKeys (validate_node n s)) (NodeKey n) = Some (NodeIDOf n)" using n by simp
  with IH have "map_of (vs_nodeKeys (fold validate_node ns (validate_node n s))) (NodeKey n) = Some (NodeIDOf n)"
    unfolding map_le_def by (metis domI)
  with IH n le show ?case by (simp add: validate_node_frame)
qed simp

lemma set_groups_cong:
  assumes "set_groups s = set_groups s'"
  shows "vs_def s = vs_def s'" "vs_opts s = vs_opts s'" "vs_context s = vs_context s'"
    "vs_nodesByID s = vs_nodesByID s'" "vs_nodeKeys s = vs_nodeKeys s'"
    "vs_groupsByID s = vs_groupsByID s'" "vs_edgesByID s = vs_edgesByID s'" "vs_edgesByGroup s = vs_edgesByGroup s'"
    "vs_groupsBySource s = vs_groupsBySource s'" "vs_outgoingByNode s = vs_outgoingByNode s'"
    "vs_incomingByNode s = vs_incomingByNode s'" "vs_startNodes s = vs_startNodes s'"
  using assms by (cases s; cases s'; simp add: set_groups_def)+

lemma set_keys_cong:
  assumes "set_keys s = set_keys s'"
  shows "vs_def s = vs_def s'" "vs_opts s = vs_opts s'" "vs_context s = vs_context s'"
    "vs_nodesByID s = vs_nodesByID s'" "vs_groupsByID s = vs_groupsByID s'" "vs_edgesByID s = vs_edgesByID s'"
    "vs_edgesByGroup s = vs_edgesByGroup s'" "vs_groupsBySource s = vs_groupsBySource s'"
    "vs_outgoingByNode s = vs_outgoingByNode s'" "vs_incomingByNode s = vs_incomingByNode s'"
    "vs_startNodes s = vs_startNodes s'" "vs_nodeGroupsByID s = vs_nodeGroupsByID s'"
  using assms by (cases s; cases s'; simp add: set_keys_def)+

text \<open>What the state holds when the indexes are filled without a blocking error.\<close>

definition indexed :: "Definition \<Rightarrow> validationState \<Rightarrow> bool" where
  "indexed def s \<longleftrightarrow>
     vs_def s = def \<and> vs_nodesByID s = nodes_map def \<and> vs_groupsByID s = groups_map def \<and>
     vs_edgesByID s = map (\<lambda>e. (e_ID e, e)) (d_Edges def) \<and>
     vs_edgesByGroup s = edgesByGroup (newFanoutTopology def) \<and>
     vs_groupsBySource s = groupsBySource (newFanoutTopology def) \<and>
     vs_outgoingByNode s = outgoingByNode (newFanoutTopology def) \<and>
     vs_incomingByNode s = fold (\<lambda>e m. if mhas (groups_map def) (e_TransitionGroupID e)
                                  then mappend (e_TargetNodeID e) e m else m) (d_Edges def) [] \<and>
     vs_startNodes s = filter (\<lambda>n. Kind n = NodeKindStart) (d_Nodes def)"

definition ids_ok :: "Definition \<Rightarrow> bool" where
  "ids_ok def \<longleftrightarrow>
     distinct (map NodeIDOf (d_Nodes def)) \<and> list_all (node_id_good def) (d_Nodes def) \<and>
     distinct (map tg_ID (d_TransitionGroups def)) \<and> list_all (group_id_good def) (d_TransitionGroups def) \<and>
     distinct (map (\<lambda>g. TrimSpace (tg_TransitionID g)) (d_TransitionGroups def)) \<and>
     distinct (map e_ID (d_Edges def)) \<and> list_all (edge_id_good def) (d_Edges def)"

lemma index_loops:
  assumes c: "clean (indexEdges (indexTransitionGroups (indexNodes s)))"
    and s: "set_groups s = set_groups (newValidationState def opts context)"
  shows "clean s \<and> ids_ok def \<and> indexed def (indexEdges (indexTransitionGroups (indexNodes s))) \<and>
    vs_opts (indexEdges (indexTransitionGroups (indexNodes s))) = opts \<and>
    vs_context (indexEdges (indexTransitionGroups (indexNodes s))) = context"
proof -
  note new = set_groups_cong [OF s] newValidationState_def
  define s4 where "s4 = indexNodes s"
  define s5 where "s5 = indexTransitionGroups s4"
  have edges: "indexEdges s5 = fold index_edge (d_Edges (vs_def s5)) s5" by (simp add: indexEdges_def)
  have groups: "s5 = fst (fold index_transition_group (d_TransitionGroups (vs_def s4)) (s4, []))"
    by (simp add: s5_def indexTransitionGroups_def)
  have nodes: "s4 = fold index_node (d_Nodes (vs_def s)) s" by (simp add: s4_def indexNodes_def)
  from c have c6: "clean (id (fold index_edge (d_Edges (vs_def s5)) s5))" by (simp add: s4_def s5_def indexEdges_def)
  note e = edge_index.loop_clean [OF c6]
  then have c5: "clean (fst (fold index_transition_group (d_TransitionGroups (vs_def s4)) (s4, [])))" by (simp add: groups)
  note g = group_index.loop_clean [OF c5] and t = transition_index.loop_clean [OF c5]
  then have c4: "clean (id (fold index_node (d_Nodes (vs_def s)) s))" by (simp add: nodes)
  note n = node_index.loop_clean [OF c4]
  have s4: "s4 = s\<lparr>vs_nodesByID := nodes_map def, vs_startNodes := filter (\<lambda>n. Kind n = NodeKindStart) (d_Nodes def)\<rparr>"
    using n by (simp add: nodes fold_add_node nodes_map_def new)
  then have s5: "s5 = s4\<lparr>vs_groupsByID := groups_map def, vs_groupsBySource := groupsBySource (newFanoutTopology def)\<rparr>"
    using g by (simp add: groups fold_add_group groups_map_def newFanoutTopology_def new)
  have def: "vs_def s = def" "vs_def s4 = def" "vs_def s5 = def" using s4 s5 by (simp_all add: new)
  have "indexEdges s5 = fold add_edge (d_Edges def) s5" using e by (simp add: edges def)
  moreover have "index_groups (d_TransitionGroups def) = groups_map def"
    using g by (intro index_groups_map) (simp add: def)
  ultimately have "indexed def (indexEdges s5)" "vs_opts (indexEdges s5) = opts" "vs_context (indexEdges s5) = context"
    by (simp_all add: indexed_def fold_add_edge s5 s4 newFanoutTopology_def index_outgoing_def new)
  moreover have "ids_ok def" using e g t n by (simp add: ids_ok_def def list_all_iff)
  ultimately show ?thesis using n by (simp add: s4_def s5_def)
qed

lemma validateExecutionTargetPolicy_step:
  "indexes (validateExecutionTargetPolicy s) = indexes s" "clean (validateExecutionTargetPolicy s) \<Longrightarrow> clean s"
  by (auto simp: validateExecutionTargetPolicy_def Let_def split: if_splits option.splits)

definition keys_ok :: "Definition \<Rightarrow> validationState \<Rightarrow> bool" where
  "keys_ok def s \<longleftrightarrow>
     (\<forall>n \<in> set (d_Nodes def). workflowkey_Valid (NodeKey n) \<and> map_of (vs_nodeKeys s) (NodeKey n) = Some (NodeIDOf n))"

definition shape_ok :: "Definition \<Rightarrow> validationState \<Rightarrow> bool" where
  "shape_ok def s \<longleftrightarrow>
     \<not> IsZero (d_ID def) \<and> ids_ok def \<and> keys_ok def s \<and> length (vs_startNodes s) = 1 \<and>
     (\<forall>g \<in> set (d_TransitionGroups def). transition_group_ok g s) \<and> (\<forall>e \<in> set (d_Edges def). edge_ok e s)"

lemma set_groups_indexes: "indexes s = indexes s' \<Longrightarrow> set_groups s = set_groups s'"
  by (cases s; cases s'; simp add: indexes_def set_groups_def)

lemma validateNodes_clean:
  assumes "clean (validateNodes s)" and "vs_def s = def"
  shows "clean s \<and> keys_ok def (validateNodes s) \<and> length (vs_startNodes s) = 1 \<and> set_keys (validateNodes s) = set_keys s"
proof -
  let ?s1 = "fold validate_node (d_Nodes def) s"
  have c: "clean ?s1" and "length (vs_startNodes ?s1) \<noteq> 0" and "\<not> length (vs_startNodes ?s1) > 1"
    using assms by (simp_all add: validateNodes_def Let_def)
  then have l: "length (vs_startNodes ?s1) = 1" by linarith
  note n = validate_nodes_clean [OF c]
  have eq: "validateNodes s = ?s1" using l assms(2) by (auto simp: validateNodes_def Let_def hard_if_def)
  have "vs_startNodes ?s1 = vs_startNodes s" using n by (intro set_keys_cong) blast
  with n l eq show ?thesis by (auto simp: keys_ok_def)
qed

lemma indexed_cong:
  assumes "indexed def s" and "set_keys s' = set_keys s"
  shows "indexed def s'"
  using assms by (simp add: indexed_def set_keys_cong [OF assms(2)])

lemma set_keys_indexes: "indexes s = indexes s' \<Longrightarrow> set_keys s = set_keys s'"
  by (cases s; cases s'; simp add: indexes_def set_keys_def)

lemma shape_clean:
  assumes "clean (validateShape (newValidationState def opts context))" (is "clean ?sh")
  shows "shape_ok def ?sh \<and> indexed def ?sh \<and> vs_opts ?sh = opts \<and> vs_context ?sh = context"
proof -
  define s0 where "s0 = newValidationState def opts context"
  define s2 where "s2 = validateExecutionTargetPolicy (hard_if (\<not> validDisplayName (d_DisplayName def)) CodeInvalidDisplayName (workflow_ref s0) s0)"
  define s3 where "s3 = indexNodeGroups s2"
  define s6 where "s6 = indexEdges (indexTransitionGroups (indexNodes s3))"
  define s7 where "s7 = validateNodes s6"
  define s8 where "s8 = validateNodeGroups s7"
  define s9 where "s9 = validateTransitionGroups s8"
  have def0: "vs_def s0 = def" by (simp add: s0_def newValidationState_def)
  from assms have nz: "\<not> IsZero (d_ID def)" by (auto simp: validateShape_def newValidationState_def)
  then have sh: "?sh = validateEdges s9"
    by (simp add: validateShape_def s9_def s8_def s7_def s6_def s3_def s2_def def0 s0_def newValidationState_def)
  have s3: "set_groups s3 = set_groups s0"
    using index_node_group_frame [of "d_NodeGroups (vs_def s2)" "(s2, [])"]
    by (simp add: s3_def indexNodeGroups_def s2_def set_groups_indexes [OF validateExecutionTargetPolicy_step(1)])
  have i8: "indexes s8 = indexes s7" by (simp add: s8_def validateNodeGroups_def node_group_step.fold_frame)
  have i9: "indexes s9 = indexes s8" by (simp add: s9_def validateTransitionGroups_def transition_group_step.fold_frame)
  have ish: "indexes ?sh = indexes s9" by (simp add: sh validateEdges_def edge_step.fold_frame)
  from assms have e: "clean s9" "\<forall>e \<in> set (d_Edges (vs_def s9)). edge_ok e s9"
    by (simp_all add: sh validateEdges_def edge_step.fold_reports)
  then have g: "clean s8" "\<forall>g \<in> set (d_TransitionGroups (vs_def s8)). transition_group_ok g s8"
    by (simp_all add: s9_def validateTransitionGroups_def transition_group_step.fold_reports)
  then have c7: "clean s7" by (simp add: s8_def validateNodeGroups_def node_group_step.fold_reports)
  have c6: "clean s6"
    using c7 by (simp add: s7_def validateNodes_def Let_def) (use validate_nodes_clean in blast)
  note ix = index_loops [OF c6 [unfolded s6_def] s3 [unfolded s0_def], folded s6_def]
  then have def6: "vs_def s6 = def" by (simp add: indexed_def)
  note n = validateNodes_clean [OF c7 [unfolded s7_def] def6, folded s7_def]
  have all: "indexes ?sh = indexes s7" "indexes ?sh = indexes s8" "indexes ?sh = indexes s9" using i8 i9 ish by simp_all
  have sk: "set_keys ?sh = set_keys s6" using n set_keys_indexes [OF all(1)] by simp
  have ixd: "indexed def ?sh" using ix sk by (blast intro: indexed_cong)
  then have "vs_def ?sh = def" by (simp add: indexed_def)
  with e g have "\<forall>e \<in> set (d_Edges def). edge_ok e ?sh" "\<forall>g \<in> set (d_TransitionGroups def). transition_group_ok g ?sh"
    using indexes_cong(1) [OF all(3)] indexes_cong(1) [OF all(2)] edge_step.ok_cong [OF all(3)]
      transition_group_step.ok_cong [OF all(2)] by metis+
  moreover have "keys_ok def ?sh" using n indexes_cong(5) [OF all(1)] by (simp add: keys_ok_def)
  moreover have "length (vs_startNodes ?sh) = 1" using n set_keys_cong(11) [OF sk] by simp
  ultimately have "shape_ok def ?sh" using nz ix by (simp add: shape_ok_def)
  then show ?thesis using ix ixd set_keys_cong(2,3) [OF sk] by simp
qed

section \<open>Graph checks\<close>

definition kind_ok :: "Node \<Rightarrow> validationState \<Rightarrow> bool" where
  "kind_ok node s \<longleftrightarrow>
     (case Kind node of
        NodeKindStart \<Rightarrow> mget_list (vs_incomingByNode s) (NodeIDOf node) = []
      | NodeKindAgent \<Rightarrow> draft s \<or> \<not> checks_availability s (NodeIDOf node) \<or>
          validateAgentRoleRequirement (d_ID (vs_def s)) node ''ask_question'' (vo_RoleResolver (vs_opts s)) = None
      | NodeKindJoin \<Rightarrow> length (mget_list (vs_incomingByNode s) (NodeIDOf node)) \<ge> 2 \<and>
          (draft s \<or> length (mget_list (vs_groupsBySource s) (NodeIDOf node)) = 1)
      | NodeKindTerminal \<Rightarrow> mget_list (vs_groupsBySource s) (NodeIDOf node) = []
      | _ \<Rightarrow> True)"

lemma checks_availability_indexes [simp]: "checks_availability (indexes s) = checks_availability s"
  by (rule ext) (simp add: checks_availability_def)

lemma role_of_kind: "Kind node \<noteq> NodeKindAgent \<Longrightarrow> NodeSubagentRole node = ''''"
  by (cases node) auto

interpretation kind_step: total_step validate_kind kind_ok
proof unfold_locales
  fix node s
  show "indexes (validate_kind node s) = indexes s"
    by (simp add: validate_kind_def Let_def split: NodeKind.split option.split)
  show "clean (validate_kind node s) \<longleftrightarrow> clean s \<and> kind_ok node s"
    using role_of_kind [of node]
    by (auto simp: validate_kind_def kind_ok_def Let_def split: NodeKind.split option.split)
  show "kind_ok node (indexes s) = kind_ok node s"
    by (simp add: kind_ok_def cong: NodeKind.case_cong)
qed

definition selector_ok :: "Edge \<Rightarrow> Node option \<Rightarrow> Node option \<Rightarrow> validationState \<Rightarrow> bool" where
  "selector_ok edge source target s \<longleftrightarrow>
     draft s \<or>
     (let (plan, planErr) = PlanTransitionSelection (selector_request s edge source target);
          assignee = esa_Assignee (tsp_Applicability plan); thinking = esa_Thinking (tsp_Applicability plan);
          available = checks_availability s (e_TargetNodeID edge) in
      (CanonicalAssigneeSelection (e_AssigneeSelection edge) = AssigneeSelectionPreviousNode \<longrightarrow>
         sa_Reason assignee \<notin> {SelectorApplicabilityTopology, SelectorApplicabilityContextSource} \<and>
         (available \<longrightarrow> sa_Available assignee)) \<and>
      (CanonicalThinkingSelection (e_ThinkingSelection edge) = ThinkingSelectionPreviousNode \<longrightarrow>
         sa_Reason thinking \<noteq> SelectorApplicabilityTopology \<and> (available \<longrightarrow> sa_Available thinking) \<and>
         \<not> (available \<and> vs_context s = ValidationContextExecution \<and> source \<noteq> None \<and> target \<noteq> None \<and>
            description_required planErr)))"

lemma validateSelectorApplicability_step:
  "indexes (validateSelectorApplicability edge source target ref s) = indexes s"
  "clean (validateSelectorApplicability edge source target ref s) \<longleftrightarrow> clean s \<and> selector_ok edge source target s"
  by (cases "PlanTransitionSelection (selector_request s edge source target)";
      auto simp: validateSelectorApplicability_def selector_ok_def Let_def)+

lemma selector_ok_cong:
  assumes "indexes s = indexes s'"
  shows "selector_ok edge source target s = selector_ok edge source target s'"
  by (simp add: selector_ok_def selector_request_def checks_availability_def indexes_cong [OF assms])

definition runtime_ok :: "Edge \<Rightarrow> validationState \<Rightarrow> bool" where
  "runtime_ok edge s \<longleftrightarrow>
     (let source = edgeSource s edge; target = map_of (vs_nodesByID s) (e_TargetNodeID edge) in
      (draft s \<or> context_source_ok s edge source target = Some True) \<and> selector_ok edge source target s \<and>
      (draft s \<or> \<not> (kind_of source = NodeKindJoin \<and> e_RequiresApproval edge)))"

lemma nodeDominates_cong:
  assumes "indexes s = indexes s'"
  shows "nodeDominates s = nodeDominates s'"
  by (intro ext) (simp add: nodeDominates_def indexes_cong [OF assms] split: list.split)

lemma context_source_ok_cong:
  assumes "indexes s = indexes s'"
  shows "context_source_ok s edge source target = context_source_ok s' edge source target"
  by (simp add: context_source_ok_def selected_source_ok_def previous_target_ok_def nodeDominates_cong [OF assms]
      indexes_cong [OF assms] Let_def split: option.split)

interpretation runtime_step: check_step validate_runtime_support runtime_ok
proof unfold_locales
  fix edge s s'
  let ?source = "edgeSource s edge" and ?target = "map_of (vs_nodesByID s) (e_TargetNodeID edge)"
  let ?ref = "edge_ref s edge"
  { assume "validate_runtime_support edge s = Some s'"
    then obtain ok where ok: "context_source_ok s edge ?source ?target = Some ok"
      and s': "s' = fold (\<lambda>code. addSemantic code ?ref) (UnsupportedRuntimeFeatures (kind_of ?source) (e_RequiresApproval edge))
        (validateSelectorApplicability edge ?source ?target ?ref (semantic_if (\<not> ok) CodeInvalidContextSource ?ref s))"
      by (auto simp: validate_runtime_support_def validateContextSource_def Let_def)
    then show "indexes s' = indexes s"
      by (simp add: UnsupportedRuntimeFeatures_def validateSelectorApplicability_step)
    have "selector_ok edge ?source ?target (semantic_if (\<not> ok) CodeInvalidContextSource ?ref s) = selector_ok edge ?source ?target s"
      by (rule selector_ok_cong) simp
    moreover have "vs_context (validateSelectorApplicability edge ?source ?target ?ref (semantic_if (\<not> ok) CodeInvalidContextSource ?ref s)) = vs_context s"
      by (rule indexes_cong) (simp add: validateSelectorApplicability_step)
    ultimately show "clean s' \<longleftrightarrow> clean s \<and> runtime_ok edge s"
      by (auto simp: s' runtime_ok_def ok Let_def UnsupportedRuntimeFeatures_def validateSelectorApplicability_step) }
  show "validate_runtime_support edge (indexes s) = None \<longleftrightarrow> validate_runtime_support edge s = None"
    by (simp add: validate_runtime_support_def validateContextSource_def Let_def edgeSource_cong [of "indexes s" s]
        context_source_ok_cong [of "indexes s" s])
  show "runtime_ok edge (indexes s) = runtime_ok edge s"
    by (simp add: runtime_ok_def edgeSource_cong [of "indexes s" s] context_source_ok_cong [of "indexes s" s]
        selector_ok_cong [of "indexes s" s])
qed

definition reachability_ok :: "NodeID list \<Rightarrow> NodeID \<times> Node \<Rightarrow> validationState \<Rightarrow> bool" where
  "reachability_ok reachable nn s \<longleftrightarrow>
     draft s \<or> (fst nn \<in> set reachable \<and>
       (Kind (snd nn) = NodeKindTerminal \<or> canReachTerminal (vs_nodesByID s) (vs_outgoingByNode s) (fst nn)))"

interpretation reachability_step: total_step "validate_reachability reachable" "reachability_ok reachable" for reachable
  by unfold_locales (auto simp: validate_reachability_def reachability_ok_def Let_def)

definition fanout_ok :: "TransitionGroup \<Rightarrow> validationState \<Rightarrow> bool" where
  "fanout_ok tgroup s \<longleftrightarrow>
     draft s \<or> length (group_edges s tgroup) \<le> 1 \<or> fanoutHasValidJoin s tgroup (group_edges s tgroup)"

interpretation fanout_step: total_step validate_fanout fanout_ok
  by unfold_locales
    (auto simp: validate_fanout_def fanout_ok_def group_edges_def fanoutHasValidJoin_def validation_topology_def Let_def)

interpretation continuation_step: total_step continuation_error
  "\<lambda>edgeID s. draft s \<or> map_of (vs_edgesByID s) edgeID = None"
  by unfold_locales (auto simp: continuation_error_def split: option.split)

definition start_shape_ok :: "Node \<Rightarrow> validationState \<Rightarrow> bool" where
  "start_shape_ok start s \<longleftrightarrow>
     draft s \<or> (\<exists>g. mget_list (vs_groupsBySource s) (NodeIDOf start) = [g] \<and> group_edges s g \<noteq> [] \<and>
       (\<forall>e \<in> set (group_edges s g). \<exists>t. map_of (vs_nodesByID s) (e_TargetNodeID e) = Some t \<and> IsExecutableNode t))"

definition start_edge_ok :: "Edge \<Rightarrow> validationState \<Rightarrow> bool" where
  "start_edge_ok e s \<longleftrightarrow>
     draft s \<or> (\<exists>t. map_of (vs_nodesByID s) (e_TargetNodeID e) = Some t \<and> IsExecutableNode t)"

interpretation start_edge_step: total_step
  "\<lambda>e s. semantic_if (case map_of (vs_nodesByID s) (e_TargetNodeID e) of None \<Rightarrow> True | Some t \<Rightarrow> \<not> IsExecutableNode t)
           CodeInvalidStartOutgoingShape (ref\<lparr>ve_EdgeID := Some (e_ID e)\<rparr>) s" start_edge_ok for ref
  by unfold_locales (auto simp: start_edge_ok_def split: option.splits)

lemma validateStartOutgoingShape_step:
  "indexes (validateStartOutgoingShape start s) = indexes s"
  "clean (validateStartOutgoingShape start s) \<longleftrightarrow> clean s \<and> start_shape_ok start s"
  by (auto simp: validateStartOutgoingShape_def start_shape_ok_def start_edge_ok_def group_edges_def Let_def
      start_edge_step.fold_frame start_edge_step.fold_reports split: list.split)

definition param_ok :: "string list \<Rightarrow> PromptParameterReference \<Rightarrow> bool" where
  "param_ok names p \<longleftrightarrow>
     TrimSpace (ppr_Name p) = RuntimePromptParameterCommentary \<or>
     (workflowkey_Valid (ppr_Name p) \<and> TrimSpace (ppr_Name p) \<in> set names)"

interpretation param_step: total_step "check_param names ref" "\<lambda>p _. param_ok names p" for names ref
proof unfold_locales
  fix p s
  show "clean (check_param names ref p s) \<longleftrightarrow> clean s \<and> param_ok names p"
    using workflowkey_Valid_nonblank [of "ppr_Name p"] by (auto simp: check_param_def param_ok_def Let_def)
qed (auto simp: check_param_def Let_def)

definition session_reference_ok :: "Edge \<Rightarrow> string \<Rightarrow> validationState \<Rightarrow> bool" where
  "session_reference_ok edge transitionKey s \<longleftrightarrow>
     (case edgeSource s edge of
        None \<Rightarrow> True
      | Some source \<Rightarrow>
          length (vs_startNodes s) = 1 \<longrightarrow>
          (let r = ResolvePromptSessionReference (vs_def s) transitionKey (NodeIDOf source) (e_TargetNodeID edge) None in
           psr_Matched r \<noteq> 0 \<and> length (psr_Guaranteed r) = 1 \<and>
           (\<exists>provider. map_of (vs_nodesByID s) (psr_SourceNodeID r) = Some provider \<and> Kind provider = NodeKindAgent)))"

lemma validatePriorSessionReference_step:
  "indexes (validatePriorSessionReference edge key ref s) = indexes s"
  "clean (validatePriorSessionReference edge key ref s) \<longleftrightarrow> clean s \<and> session_reference_ok edge key s"
proof -
  show "indexes (validatePriorSessionReference edge key ref s) = indexes s"
    by (simp add: validatePriorSessionReference_def addSessionReferenceError_def Let_def split: option.split)
  have one: "length xs = 1 \<longleftrightarrow> length xs \<noteq> 0 \<and> \<not> length xs > 1" for xs :: "TransitionGroup list" by linarith
  show "clean (validatePriorSessionReference edge key ref s) \<longleftrightarrow> clean s \<and> session_reference_ok edge key s"
    unfolding validatePriorSessionReference_def session_reference_ok_def addSessionReferenceError_def Let_def one
    by (auto split: option.splits)
qed

definition prior_reference_ok :: "Edge \<Rightarrow> DerivedWiring \<Rightarrow> PromptPriorParameterReference \<Rightarrow> validationState \<Rightarrow> bool" where
  "prior_reference_ok edge derived p s \<longleftrightarrow>
     (let transitionKey = TrimSpace (ppp_TransitionKey p); parameterKey = TrimSpace (ppp_ParameterKey p) in
      workflowkey_Valid transitionKey \<and> workflowkey_Valid parameterKey \<and>
      (case (edgeSource s edge, vs_startNodes s) of
         (Some source, [start]) \<Rightarrow>
           if parameterKey = RuntimePromptParameterSessionID then session_reference_ok edge transitionKey s
           else
             (let r = resolvePriorParameterTransitionGroups (d_TransitionGroups (vs_def s)) transitionKey
                        (NodeIDOf source) (NodeIDOf start) (vs_outgoingByNode s) in
              ptr_Matched r \<noteq> 0 \<and>
              (\<exists>g. ptr_Guaranteed r = [g] \<and> (parameterKey = RuntimePromptParameterCommentary \<or>
                   parameterKey \<in> set (transitionGroupParameterSet s (tg_ID g) derived))))
       | _ \<Rightarrow> True))"

lemma session_reference_ok_cong:
  assumes "indexes s = indexes s'"
  shows "session_reference_ok edge key s = session_reference_ok edge key s'"
  by (simp add: session_reference_ok_def edgeSource_cong [OF assms] indexes_cong [OF assms] split: option.split)

lemma promptParameterNameSet_cong:
  assumes "indexes s = indexes s'"
  shows "promptParameterNameSet s = promptParameterNameSet s'"
  by (intro ext) (simp add: promptParameterNameSet_def indexes_cong [OF assms])

lemma transitionGroupParameterSet_cong:
  assumes "indexes s = indexes s'"
  shows "transitionGroupParameterSet s = transitionGroupParameterSet s'"
  by (intro ext) (simp add: transitionGroupParameterSet_def promptParameterNameSet_cong [OF assms] indexes_cong [OF assms]
      cong: option.case_cong)

interpretation prior_reference_step: total_step "validatePriorParameterReference edge ref derived"
  "prior_reference_ok edge derived" for edge ref derived
proof unfold_locales
  fix p s
  show "indexes (validatePriorParameterReference edge ref derived p s) = indexes s"
    by (simp add: validatePriorParameterReference_def Let_def validatePriorSessionReference_step
        split: option.split list.split)
  show "clean (validatePriorParameterReference edge ref derived p s) \<longleftrightarrow> clean s \<and> prior_reference_ok edge derived p s"
    using workflowkey_Valid_nonblank [of "ppp_TransitionKey p"] workflowkey_Valid_nonblank [of "ppp_ParameterKey p"]
    by (auto simp: validatePriorParameterReference_def prior_reference_ok_def Let_def validatePriorSessionReference_step
        split: option.split list.split)
  have i: "indexes (indexes s) = indexes s" by simp
  show "prior_reference_ok edge derived p (indexes s) = prior_reference_ok edge derived p s"
    by (simp add: prior_reference_ok_def edgeSource_cong [OF i] session_reference_ok_cong [OF i]
        transitionGroupParameterSet_cong [OF i] Let_def split: option.split list.split)
qed

lemma current_parameters_cong:
  assumes "indexes s = indexes s'"
  shows "current_parameters s edge derived = current_parameters s' edge derived"
  by (simp add: current_parameters_def edgeSource_cong [OF assms] promptParameterNameSet_cong [OF assms]
      indexes_cong [OF assms] split: option.split)

interpretation invalid_step: total_step
  "\<lambda>invalid. addHard CodeInvalidTemplatePlaceholder (ref\<lparr>ve_Placeholder := pri_Placeholder invalid\<rparr>)" "\<lambda>_ _. False" for ref
  by unfold_locales simp_all

definition references_ok :: "Edge \<Rightarrow> DerivedWiring \<Rightarrow> PromptTemplateReferences \<Rightarrow> validationState \<Rightarrow> bool" where
  "references_ok edge derived refs s \<longleftrightarrow>
     ptr_Invalid refs = [] \<and>
     (ptr_SessionID refs \<longrightarrow> (\<exists>source. edgeSource s edge = Some source \<and> Kind source = NodeKindAgent)) \<and>
     (\<forall>p \<in> set (ptr_Params refs). param_ok (current_parameters s edge derived) p) \<and>
     (\<forall>p \<in> set (ptr_PriorParams refs). prior_reference_ok edge derived p s)"

lemma validate_prompt_references_step:
  "indexes (validate_prompt_references edge derived refs ref s) = indexes s"
  "clean (validate_prompt_references edge derived refs ref s) \<longleftrightarrow> clean s \<and> references_ok edge derived refs s"
proof -
  define s1 where "s1 = fold (\<lambda>invalid. addHard CodeInvalidTemplatePlaceholder (ref\<lparr>ve_Placeholder := pri_Placeholder invalid\<rparr>)) (ptr_Invalid refs) s"
  have i1: "indexes s1 = indexes s" by (simp add: s1_def invalid_step.fold_frame)
  have c1: "clean s1 \<longleftrightarrow> clean s \<and> ptr_Invalid refs = []" by (auto simp: s1_def invalid_step.fold_reports)
  define s2 where "s2 = (if ptr_SessionID refs \<and> (case edgeSource s1 edge of None \<Rightarrow> True | Some source \<Rightarrow> Kind source \<noteq> NodeKindAgent)
    then addSessionReferenceError CodeSessionSourceCannotOwnSession (ref\<lparr>ve_Placeholder := ''.SessionId''\<rparr>) s1 else s1)"
  have i2: "indexes s2 = indexes s" by (simp add: s2_def addSessionReferenceError_def i1)
  have c2: "clean s2 \<longleftrightarrow> clean s \<and> ptr_Invalid refs = [] \<and>
      (ptr_SessionID refs \<longrightarrow> (\<exists>source. edgeSource s edge = Some source \<and> Kind source = NodeKindAgent))"
    by (auto simp: s2_def addSessionReferenceError_def c1 edgeSource_cong [OF i1] split: option.splits)
  define s3 where "s3 = fold (check_param (current_parameters s2 edge derived) ref) (ptr_Params refs) s2"
  have i3: "indexes s3 = indexes s" by (simp add: s3_def param_step.fold_frame i2)
  have c3: "clean s3 \<longleftrightarrow> clean s2 \<and> (\<forall>p \<in> set (ptr_Params refs). param_ok (current_parameters s edge derived) p)"
    by (simp add: s3_def param_step.fold_reports current_parameters_cong [OF i2])
  have v: "validate_prompt_references edge derived refs ref s =
      fold (validatePriorParameterReference edge ref derived) (ptr_PriorParams refs) s3"
    by (simp add: validate_prompt_references_def Let_def s1_def s2_def s3_def)
  show "indexes (validate_prompt_references edge derived refs ref s) = indexes s"
    by (simp add: v prior_reference_step.fold_frame i3)
  show "clean (validate_prompt_references edge derived refs ref s) \<longleftrightarrow> clean s \<and> references_ok edge derived refs s"
    by (auto simp: v prior_reference_step.fold_reports c3 c2 references_ok_def prior_reference_step.ok_cong [OF i3])
qed

definition prompt_ok :: "template_parser \<Rightarrow> DerivedWiring \<Rightarrow> Edge \<Rightarrow> validationState \<Rightarrow> bool" where
  "prompt_ok parse derived edge s \<longleftrightarrow>
     blank (e_PromptTemplate edge) \<or>
     (\<exists>refs. ExtractPromptTemplateReferences parse (e_PromptTemplate edge) = Some (Inr refs) \<and>
        references_ok edge derived refs s)"

lemma references_ok_cong:
  assumes "indexes s = indexes s'"
  shows "references_ok edge derived refs s = references_ok edge derived refs s'"
  by (simp add: references_ok_def edgeSource_cong [OF assms] current_parameters_cong [OF assms]
      prior_reference_step.ok_cong [OF assms])

lemma Extract_trim [simp]:
  "ExtractPromptTemplateReferences parse (TrimSpace prompt) = ExtractPromptTemplateReferences parse prompt"
  by (simp add: ExtractPromptTemplateReferences_def)

interpretation prompt_step: check_step "validate_prompt parse derived" "prompt_ok parse derived" for parse derived
proof unfold_locales
  fix edge s s'
  { assume "validate_prompt parse derived edge s = Some s'"
    then show "indexes s' = indexes s" and "clean s' \<longleftrightarrow> clean s \<and> prompt_ok parse derived edge s"
      by (auto simp: validate_prompt_def prompt_ok_def Let_def validate_prompt_references_step
          split: if_splits option.splits sum.splits) }
  show "validate_prompt parse derived edge (indexes s) = None \<longleftrightarrow> validate_prompt parse derived edge s = None"
    by (simp add: validate_prompt_def Let_def split: option.split sum.split)
  show "prompt_ok parse derived edge (indexes s) = prompt_ok parse derived edge s"
    by (simp add: prompt_ok_def references_ok_cong [of "indexes s" s])
qed


section \<open>The whole validation\<close>

definition graph_ok :: "template_parser \<Rightarrow> validationState \<Rightarrow> bool" where
  "graph_ok parse s \<longleftrightarrow>
     (\<forall>n \<in> set (d_Nodes (vs_def s)). kind_ok n s) \<and> (\<forall>e \<in> set (d_Edges (vs_def s)). runtime_ok e s) \<and>
     (\<forall>start. vs_startNodes s = [start] \<longrightarrow>
        start_shape_ok start s \<and>
        (\<forall>nn \<in> set (vs_nodesByID s). reachability_ok (reachableFrom (vs_outgoingByNode s) (NodeIDOf start)) nn s) \<and>
        (\<exists>derived. DeriveWiringWithCatalog parse (vs_def s) (vo_RoleResolver (vs_opts s)) = Some derived \<and>
           (\<forall>e \<in> set (d_Edges (vs_def s)). prompt_ok parse derived e s)))"

lemma validateGraph_step:
  assumes "validateGraph parse s = Some s'"
  shows "indexes s' = indexes s" "clean s' \<longleftrightarrow> clean s \<and> graph_ok parse s"
proof -
  define s0 where "s0 = validateKindConstraints s"
  have i0: "indexes s0 = indexes s" and c0: "clean s0 \<longleftrightarrow> clean s \<and> (\<forall>n \<in> set (d_Nodes (vs_def s)). kind_ok n s)"
    by (simp_all add: s0_def validateKindConstraints_def kind_step.fold_frame kind_step.fold_reports)
  from assms obtain s1 where s1: "validateRuntimeSupport s0 = Some s1"
    by (auto simp: validateGraph_def s0_def bind_eq_Some_conv)
  then have r: "fold_option validate_runtime_support (d_Edges (vs_def s0)) s0 = Some s1"
    by (simp add: validateRuntimeSupport_def)
  have i1: "indexes s1 = indexes s" using runtime_step.loop_frame [OF r] i0 by simp
  have c1: "clean s1 \<longleftrightarrow> clean s \<and> (\<forall>n \<in> set (d_Nodes (vs_def s)). kind_ok n s) \<and> (\<forall>e \<in> set (d_Edges (vs_def s)). runtime_ok e s)"
    using runtime_step.loop_reports [OF r] c0 by (simp add: runtime_step.ok_cong [OF i0] indexes_cong(1) [OF i0])
  note same = indexes_cong [OF i1]
  have "indexes s' = indexes s \<and> (clean s' \<longleftrightarrow> clean s \<and> graph_ok parse s)"
  proof (cases "\<exists>start. vs_startNodes s = [start]")
    case False
    with assms s1 have "s' = s1"
      by (auto simp: validateGraph_def s0_def [symmetric] same split: list.splits)
    with i1 c1 False show ?thesis by (auto simp: graph_ok_def)
  next
    case True
    then obtain start where start: "vs_startNodes s = [start]" by blast
    let ?r = "reachableFrom (vs_outgoingByNode s) (NodeIDOf start)"
    define s2 where "s2 = validateStartOutgoingShape start s1"
    have i2: "indexes s2 = indexes s" by (simp add: s2_def validateStartOutgoingShape_step i1)
    have c2: "clean s2 \<longleftrightarrow> clean s1 \<and> start_shape_ok start s"
      by (simp add: s2_def validateStartOutgoingShape_step) (simp add: start_shape_ok_def group_edges_def same)
    define s3 where "s3 = fold (validate_reachability ?r) (vs_nodesByID s) s2"
    have i3: "indexes s3 = indexes s" by (simp add: s3_def reachability_step.fold_frame i2)
    have c3: "clean s3 \<longleftrightarrow> clean s1 \<and> start_shape_ok start s \<and> (\<forall>nn \<in> set (vs_nodesByID s). reachability_ok ?r nn s)"
      by (simp add: s3_def reachability_step.fold_reports reachability_step.ok_cong [OF i2] c2)
    have "validatePromptPlaceholders parse s3 = Some s'"
      using assms s1 by (simp add: validateGraph_def s0_def [symmetric] same start Let_def s3_def s2_def [symmetric]
          indexes_cong [OF i2])
    then obtain derived where d: "DeriveWiringWithCatalog parse (vs_def s) (vo_RoleResolver (vs_opts s)) = Some derived"
      and f: "fold_option (validate_prompt parse derived) (d_Edges (vs_def s3)) s3 = Some s'"
      by (auto simp: validatePromptPlaceholders_def bind_eq_Some_conv indexes_cong [OF i3])
    have "indexes s' = indexes s" using prompt_step.loop_frame [OF f] i3 by simp
    moreover have "clean s' \<longleftrightarrow> clean s3 \<and> (\<forall>e \<in> set (d_Edges (vs_def s)). prompt_ok parse derived e s)"
      using prompt_step.loop_reports [OF f] by (simp add: prompt_step.ok_cong [OF i3] indexes_cong(1) [OF i3])
    ultimately show ?thesis using c3 c1 d start by (auto simp: graph_ok_def)
  qed
  then show "indexes s' = indexes s" "clean s' \<longleftrightarrow> clean s \<and> graph_ok parse s" by blast+
qed

text \<open>A validation that reports no blocking error, broken down into its parts.\<close>

lemma ValidateDefinition_steps:
  assumes "ValidateDefinition parse def opts = Some r" and "\<not> HasBlockingErrors r"
  obtains s2 s3 s4 where "\<not> IsZero (d_ID def)"
    and "validateGraph parse (validateShape (newValidationState def opts (vr_Context r))) = Some s2"
    and "validateContinuationSources (validateFanouts s2) = Some s3" and "validateDerivedWiring parse s3 = Some s4" and "clean s4"
proof -
  have "\<not> IsZero (d_ID def)"
  proof
    assume "IsZero (d_ID def)"
    with assms(1) have "\<not> clean (newValidationState def opts (vr_Context r)\<lparr>vs_errors := vr_Errors r\<rparr>)"
      by (auto simp: ValidateDefinition_def Let_def validateShape_def newValidationState_def clean_def addHard_def)
    with assms(2) show False by (simp add: clean_def HasBlockingErrors_def)
  qed
  moreover from this assms(1) obtain s2 s3 s4
    where "validateGraph parse (validateShape (newValidationState def opts (vr_Context r))) = Some s2"
    and "validateContinuationSources (validateFanouts s2) = Some s3"
    and "validateDerivedWiring parse s3 = Some s4" and r: "vr_Errors r = vs_errors s4"
    by (auto simp: ValidateDefinition_def Let_def bind_eq_Some_conv)
  moreover have "clean s4" using assms(2) r by (simp add: clean_def HasBlockingErrors_def)
  ultimately show thesis using that by blast
qed

lemma ValidateDefinition_clean:
  assumes "ValidateDefinition parse def opts = Some r" and "\<not> HasBlockingErrors r"
  obtains s where "clean s" and "shape_ok def s" and "indexed def s" and "vs_opts s = opts" and "vs_context s = vr_Context r"
    and "graph_ok parse s" and "\<forall>g \<in> set (d_TransitionGroups def). fanout_ok g s"
    and "\<And>start edgeIDs. vs_startNodes s = [start] \<Longrightarrow> validateStaticContinuationSources def (NodeIDOf start) = Some edgeIDs \<Longrightarrow>
      \<forall>i \<in> set edgeIDs. draft s \<or> map_of (vs_edgesByID s) i = None"
proof -
  define s where "s = validateShape (newValidationState def opts (vr_Context r))"
  from assms obtain s2 s3 s4 where s2: "validateGraph parse s = Some s2"
    and s3: "validateContinuationSources (validateFanouts s2) = Some s3"
    and s4: "validateDerivedWiring parse s3 = Some s4" and "clean s4"
    unfolding s_def by (rule ValidateDefinition_steps)
  then have "clean s3" using s4 by (auto simp: validateDerivedWiring_def clean_def)
  then have cf: "clean (validateFanouts s2)"
    using s3 by (auto simp: validateContinuationSources_def continuation_step.fold_reports split: list.splits)
  then have c2: "clean s2" and f: "\<forall>g \<in> set (d_TransitionGroups (vs_def s2)). fanout_ok g s2"
    by (simp_all add: validateFanouts_def fanout_step.fold_reports)
  note g = validateGraph_step [OF s2]
  then have c: "clean s" and "graph_ok parse s" using c2 by simp_all
  moreover note shape_clean [OF c [unfolded s_def], folded s_def]
  moreover have "\<forall>g \<in> set (d_TransitionGroups def). fanout_ok g s"
    using f indexes_cong(1) [OF g(1)] fanout_step.ok_cong [OF g(1)] calculation by (metis indexed_def)
  moreover have "\<forall>i \<in> set edgeIDs. draft s \<or> map_of (vs_edgesByID s) i = None"
    if st: "vs_startNodes s = [start]" and v: "validateStaticContinuationSources def (NodeIDOf start) = Some edgeIDs" for start edgeIDs
  proof -
    have i: "indexes (validateFanouts s2) = indexes s" by (simp add: validateFanouts_def fanout_step.fold_frame g(1))
    have "vs_def s = def" using calculation by (simp add: indexed_def)
    with s3 st v have "s3 = fold continuation_error edgeIDs (validateFanouts s2)"
      by (simp add: validateContinuationSources_def indexes_cong [OF i])
    with \<open>clean s3\<close> show ?thesis by (simp add: continuation_step.fold_reports indexes_cong [OF i])
  qed
  ultimately show thesis using that by blast
qed

definition definition_structure :: "Definition \<Rightarrow> bool" where
  "definition_structure def \<longleftrightarrow>
     (let nodeIDs = map NodeIDOf (d_Nodes def); groupIDs = map tg_ID (d_TransitionGroups def) in
      distinct nodeIDs \<and> distinct (map NodeKey (d_Nodes def)) \<and>
      distinct groupIDs \<and> distinct (map (\<lambda>g. TrimSpace (tg_TransitionID g)) (d_TransitionGroups def)) \<and>
      distinct (map e_ID (d_Edges def)) \<and>
      distinct (map (\<lambda>e. (e_TransitionGroupID e, e_Key e)) (d_Edges def)) \<and>
      length (filter (\<lambda>n. Kind n = NodeKindStart) (d_Nodes def)) = 1 \<and>
      list_all (\<lambda>n. workflowkey_Valid (NodeKey n)) (d_Nodes def) \<and>
      list_all (\<lambda>g. workflowkey_Valid (tg_TransitionID g) \<and> tg_SourceNodeID g \<in> set nodeIDs \<and>
                    (\<exists>e \<in> set (d_Edges def). e_TransitionGroupID e = tg_ID g)) (d_TransitionGroups def) \<and>
      list_all (\<lambda>e. workflowkey_Valid (e_Key e) \<and> e_TransitionGroupID e \<in> set groupIDs \<and> e_TargetNodeID e \<in> set nodeIDs \<and>
                    list_all parameter_ok (e_Parameters e) \<and>
                    distinct (map (\<lambda>p. TrimSpace (p_Key p)) (e_Parameters e))) (d_Edges def))"

lemma topology_edges: "mget_list (edgesByGroup (newFanoutTopology def)) g = filter (\<lambda>e. e_TransitionGroupID e = g) (d_Edges def)"
  by (simp add: newFanoutTopology_def gomm.lookup_index)

lemma nodes_map_None: "map_of (nodes_map def) i = None \<longleftrightarrow> i \<notin> NodeIDOf ` set (d_Nodes def)"
  unfolding map_of_eq_None_iff by (simp add: nodes_map_def image_image)

lemma groups_map_None: "map_of (groups_map def) i = None \<longleftrightarrow> i \<notin> tg_ID ` set (d_TransitionGroups def)"
  unfolding map_of_eq_None_iff by (simp add: groups_map_def image_image)

lemma distinct_map_inj: "distinct (map f xs) \<Longrightarrow> (\<And>x y. x \<in> set xs \<Longrightarrow> y \<in> set xs \<Longrightarrow> g x = g y \<Longrightarrow> f x = f y) \<Longrightarrow> distinct (map g xs)"
  unfolding distinct_map inj_on_def by metis

lemma shape_structure:
  assumes "shape_ok def s" and "indexed def s"
  shows "definition_structure def"
proof -
  have ids: "ids_ok def" and keys: "keys_ok def s" and start: "length (vs_startNodes s) = 1"
    and groups: "\<And>g. g \<in> set (d_TransitionGroups def) \<Longrightarrow> transition_group_ok g s"
    and edges: "\<And>e. e \<in> set (d_Edges def) \<Longrightarrow> edge_ok e s"
    using assms(1) by (auto simp: shape_ok_def)
  note ix = assms(2) [unfolded indexed_def]
  have nodeKeys: "distinct (map NodeKey (d_Nodes def))"
  proof (rule distinct_map_inj [of NodeIDOf])
    show "distinct (map NodeIDOf (d_Nodes def))" using ids by (simp add: ids_ok_def)
    fix n n' assume "n \<in> set (d_Nodes def)" "n' \<in> set (d_Nodes def)" "NodeKey n = NodeKey n'"
    with keys show "NodeIDOf n = NodeIDOf n'" unfolding keys_ok_def by (metis option.inject)
  qed
  have same: "e_ID e = e_ID e'"
    if e: "e \<in> set (d_Edges def)" "e' \<in> set (d_Edges def)" "(e_TransitionGroupID e, e_Key e) = (e_TransitionGroupID e', e_Key e')"
    for e e'
  proof -
    obtain g where g: "g \<in> set (d_TransitionGroups def)" "tg_ID g = e_TransitionGroupID e"
      using edges [OF e(1)] ix by (auto simp: edge_ok_def groups_map_None simp del: not_None_eq)
    then have d: "distinct_edge_keys (filter (\<lambda>x. e_TransitionGroupID x = tg_ID g) (d_Edges def))" (is "distinct_edge_keys ?E")
      using groups [OF g(1)] ix by (simp add: transition_group_ok_def group_edges_def topology_edges)
    have "e \<in> set ?E" "e' \<in> set ?E" using e g by auto
    moreover have "workflowkey_Valid (e_Key e) \<and> e_Key e = e_Key e'" using edges [OF e(1)] e(3) by (simp add: edge_ok_def)
    ultimately show ?thesis using d unfolding distinct_edge_keys_def by blast
  qed
  have edgeKeys: "distinct (map (\<lambda>e. (e_TransitionGroupID e, e_Key e)) (d_Edges def))"
  proof (rule distinct_map_inj [of e_ID])
    show "distinct (map e_ID (d_Edges def))" using ids by (simp add: ids_ok_def)
  qed (rule same)
  have g_ok: "workflowkey_Valid (tg_TransitionID g) \<and> tg_SourceNodeID g \<in> NodeIDOf ` set (d_Nodes def) \<and>
      (\<exists>e \<in> set (d_Edges def). e_TransitionGroupID e = tg_ID g)" if "g \<in> set (d_TransitionGroups def)" for g
    using groups [OF that] ids ix that
    by (auto simp: transition_group_ok_def group_edges_def topology_edges filter_empty_conv ids_ok_def list_all_iff
        group_id_good_def nodes_map_None simp del: not_None_eq)
  have e_ok: "workflowkey_Valid (e_Key e) \<and> e_TransitionGroupID e \<in> tg_ID ` set (d_TransitionGroups def) \<and>
      e_TargetNodeID e \<in> NodeIDOf ` set (d_Nodes def) \<and> list_all parameter_ok (e_Parameters e) \<and>
      distinct (map (\<lambda>p. TrimSpace (p_Key p)) (e_Parameters e))" if "e \<in> set (d_Edges def)" for e
    using edges [OF that] ix
    by (simp add: edge_ok_def parameters_ok_def nodes_map_None groups_map_None del: not_None_eq)
  show ?thesis
    using ids nodeKeys edgeKeys start keys g_ok e_ok ix
    by (simp add: definition_structure_def ids_ok_def keys_ok_def list_all_iff)
qed


end
