(* ===== verification/Wf_Validation_Sound.thy ===== *)
theory Wf_Validation_Sound
  imports Wf_Validation_Props
begin

text \<open>
  The guarantees of a validation without blocking errors: the graph of an executable
  definition, the availability of prompt parameters, the relation between the contexts, and
  when validation returns.
\<close>

section \<open>The graph\<close>

abbreviation outgoing :: "Definition \<Rightarrow> NodeID \<Rightarrow> Edge list" where
  "outgoing def \<equiv> mget_list (outgoingByNode (newFanoutTopology def))"

abbreviation leaving_groups :: "Definition \<Rightarrow> NodeID \<Rightarrow> TransitionGroup list" where
  "leaving_groups def nodeID \<equiv> filter (\<lambda>g. tg_SourceNodeID g = nodeID) (d_TransitionGroups def)"

abbreviation edges_of :: "Definition \<Rightarrow> TransitionGroup \<Rightarrow> Edge list" where
  "edges_of def g \<equiv> filter (\<lambda>e. e_TransitionGroupID e = tg_ID g) (d_Edges def)"

abbreviation entering_edges :: "Definition \<Rightarrow> NodeID \<Rightarrow> Edge list" where
  "entering_edges def nodeID \<equiv> filter (\<lambda>e. e_TargetNodeID e = nodeID) (d_Edges def)"

definition node_shape :: "Definition \<Rightarrow> Node \<Rightarrow> bool" where
  "node_shape def n \<longleftrightarrow>
     (case Kind n of
        NodeKindStart \<Rightarrow> entering_edges def (NodeIDOf n) = [] \<and>
          (\<exists>g. leaving_groups def (NodeIDOf n) = [g] \<and>
             (\<forall>e \<in> set (edges_of def g). \<exists>t \<in> set (d_Nodes def). NodeIDOf t = e_TargetNodeID e \<and> IsExecutableNode t))
      | NodeKindJoin \<Rightarrow> length (entering_edges def (NodeIDOf n)) \<ge> 2 \<and> length (leaving_groups def (NodeIDOf n)) = 1
      | NodeKindTerminal \<Rightarrow> leaving_groups def (NodeIDOf n) = []
      | _ \<Rightarrow> True)"

definition workflow_graph :: "Definition \<Rightarrow> bool" where
  "workflow_graph def \<longleftrightarrow>
     (\<exists>start. filter (\<lambda>n. Kind n = NodeKindStart) (d_Nodes def) = [start] \<and>
       (\<forall>n \<in> set (d_Nodes def). node_shape def n \<and>
          (\<exists>es. walk (outgoing def) (NodeIDOf start) es (NodeIDOf n)) \<and>
          (\<exists>t \<in> set (d_Nodes def). Kind t = NodeKindTerminal \<and> (\<exists>es. walk (outgoing def) (NodeIDOf n) es (NodeIDOf t))))) \<and>
     (\<forall>g \<in> set (d_TransitionGroups def). length (edges_of def g) > 1 \<longrightarrow>
        (\<exists>f. group_fanout (newFanoutTopology def) (tg_ID g) = Some f \<and> sf_joinID f \<noteq> tg_SourceNodeID g))"

lemma nodes_map_Some: "ids_ok def \<Longrightarrow> map_of (nodes_map def) i = Some n \<longleftrightarrow> n \<in> set (d_Nodes def) \<and> NodeIDOf n = i"
  by (auto simp: ids_ok_def nodes_map_def map_of_eq_Some_iff comp_def)

lemma groups_map_Some:
  "ids_ok def \<Longrightarrow> map_of (groups_map def) i = Some g \<longleftrightarrow> g \<in> set (d_TransitionGroups def) \<and> tg_ID g = i"
  by (auto simp: ids_ok_def groups_map_def map_of_eq_Some_iff comp_def)

lemma groups_by_source: "mget_list (groupsBySource (newFanoutTopology def)) i = leaving_groups def i"
  by (simp add: newFanoutTopology_def gomm.lookup_index)

lemma incoming_edges:
  assumes "\<forall>e \<in> set es. mhas groups (e_TransitionGroupID e)"
  shows "mget_list (fold (\<lambda>e m. if mhas groups (e_TransitionGroupID e) then mappend (e_TargetNodeID e) e m else m) es m) i =
    mget_list m i @ filter (\<lambda>e. e_TargetNodeID e = i) es"
  using assms by (induction es arbitrary: m) auto

lemma validation_topology_eq:
  assumes "indexed def s" and "ids_ok def"
  shows "validation_topology s = newFanoutTopology def"
proof -
  have "nodes_map def = index_nodes (d_Nodes def)" using assms(2) by (simp add: index_nodes_map ids_ok_def)
  with assms(1) show ?thesis
    by (simp add: validation_topology_def indexed_def) (simp add: newFanoutTopology_def)
qed

lemma branch_join_distances_eq: "branch_join_distances topology edges = Some ds \<Longrightarrow> branch_distances topology edges = Some ds"
  by (induction edges arbitrary: ds) (auto split: option.splits if_splits)

lemma fanoutHasValidJoin_fanout:
  assumes "fanoutHasValidJoin s g edges" and "indexed def s" and "ids_ok def" and "length edges > 1"
    and "edges = edges_of def g"
  shows "\<exists>f. group_fanout (newFanoutTopology def) (tg_ID g) = Some f \<and> sf_joinID f \<noteq> tg_SourceNodeID g"
  using assms branch_join_distances_eq [of "newFanoutTopology def" edges]
  by (auto simp: fanoutHasValidJoin_def validation_topology_eq group_fanout_def topology_edges Let_def split: option.splits)

lemma node_shape_ok:
  assumes "shape_ok def s" and "indexed def s" and "\<not> draft s" and "kind_ok n s"
    and "Kind n = NodeKindStart \<Longrightarrow> start_shape_ok n s"
  shows "node_shape def n"
proof -
  note ix = assms(2) [unfolded indexed_def]
  have ids: "ids_ok def" using assms(1) by (simp add: shape_ok_def)
  have "mget_list (vs_incomingByNode s) (NodeIDOf n) = [] @ entering_edges def (NodeIDOf n)"
  proof -
    have "\<forall>e \<in> set (d_Edges def). mhas (groups_map def) (e_TransitionGroupID e)"
      using assms(1) ix by (simp add: shape_ok_def edge_ok_def)
    from incoming_edges [OF this, of "[]"] ix show ?thesis by simp
  qed
  then have incoming: "mget_list (vs_incomingByNode s) (NodeIDOf n) = entering_edges def (NodeIDOf n)" by simp
  have out: "mget_list (vs_groupsBySource s) i = leaving_groups def i" for i using ix by (simp add: groups_by_source)
  have start: "\<exists>g. leaving_groups def (NodeIDOf n) = [g] \<and>
      (\<forall>e \<in> set (edges_of def g). \<exists>t \<in> set (d_Nodes def). NodeIDOf t = e_TargetNodeID e \<and> IsExecutableNode t)"
    if "Kind n = NodeKindStart"
  proof -
    from assms(5) [OF that] assms(3) obtain g where g: "leaving_groups def (NodeIDOf n) = [g]"
      and e: "\<forall>e \<in> set (group_edges s g). \<exists>t. map_of (vs_nodesByID s) (e_TargetNodeID e) = Some t \<and> IsExecutableNode t"
      unfolding start_shape_ok_def out by blast
    have eq: "group_edges s g = edges_of def g" using ix by (simp add: group_edges_def topology_edges)
    show ?thesis
    proof (intro exI [of _ g] conjI ballI)
      show "leaving_groups def (NodeIDOf n) = [g]" by (rule g)
      fix edge assume "edge \<in> set (edges_of def g)"
      with e obtain t where "map_of (vs_nodesByID s) (e_TargetNodeID edge) = Some t" "IsExecutableNode t"
        unfolding eq by blast
      then show "\<exists>t \<in> set (d_Nodes def). NodeIDOf t = e_TargetNodeID edge \<and> IsExecutableNode t"
        using ix nodes_map_Some [OF ids] by auto
    qed
  qed
  note k = assms(4) [unfolded kind_ok_def incoming out]
  show ?thesis
  proof (cases "Kind n")
    case NodeKindStart
    with k have "entering_edges def (NodeIDOf n) = []" by simp
    with start [OF NodeKindStart] NodeKindStart show ?thesis unfolding node_shape_def by simp
  qed (use k assms(3) in \<open>simp_all add: node_shape_def\<close>)
qed

text \<open>
  C24: A definition that validation accepts for task creation or execution is an executable
  graph. Every node is reachable from the only start node, and from every node a walk leads to
  a terminal node; nothing enters the start node, and its one transition group enters
  executable nodes only; a join has at least two entering edges and one outgoing group; nothing
  leaves a terminal node; every fan-out has one nearest common join, and it is not the node
  the fan-out leaves.
\<close>

theorem ValidateDefinition_graph:
  assumes "ValidateDefinition parse def opts = Some r" and "\<not> HasBlockingErrors r"
    and "vr_Context r \<noteq> ValidationContextDraft"
  shows "workflow_graph def"
proof -
  from assms(1,2) obtain s where shape: "shape_ok def s" and ix: "indexed def s" and c: "vs_context s = vr_Context r"
    and g: "graph_ok parse s" and f: "\<forall>g \<in> set (d_TransitionGroups def). fanout_ok g s"
    by (rule ValidateDefinition_clean)
  have nd: "\<not> draft s" using c assms(3) by simp
  have ids: "ids_ok def" using shape by (simp add: shape_ok_def)
  note ixd = ix [unfolded indexed_def]
  obtain start where st: "vs_startNodes s = [start]" using shape by (auto simp: shape_ok_def length_Suc_conv)
  have starts: "filter (\<lambda>n. Kind n = NodeKindStart) (d_Nodes def) = [start]" using st ixd by simp
  have kinds: "\<forall>n \<in> set (d_Nodes def). kind_ok n s" and shape1: "start_shape_ok start s"
    and reach: "\<forall>nn \<in> set (nodes_map def). reachability_ok (reachableFrom (outgoingByNode (newFanoutTopology def)) (NodeIDOf start)) nn s"
    using g st ixd by (auto simp: graph_ok_def)
  have "node_shape def n \<and> (\<exists>es. walk (outgoing def) (NodeIDOf start) es (NodeIDOf n)) \<and>
      (\<exists>t \<in> set (d_Nodes def). Kind t = NodeKindTerminal \<and> (\<exists>es. walk (outgoing def) (NodeIDOf n) es (NodeIDOf t)))"
    if n: "n \<in> set (d_Nodes def)" for n
  proof (intro conjI)
    have "n = start" if "Kind n = NodeKindStart"
    proof -
      have "n \<in> set (filter (\<lambda>n. Kind n = NodeKindStart) (d_Nodes def))" using n that by simp
      then show ?thesis unfolding starts by simp
    qed
    with shape1 kinds n show "node_shape def n"
      by (intro node_shape_ok [OF shape ix nd]) auto
    have r: "reachability_ok (reachableFrom (outgoingByNode (newFanoutTopology def)) (NodeIDOf start)) (NodeIDOf n, n) s"
      using reach n by (auto simp: nodes_map_def)
    then show "\<exists>es. walk (outgoing def) (NodeIDOf start) es (NodeIDOf n)"
      using nd by (simp add: reachability_ok_def reachableFrom_def reachable_loop_walks)
    show "\<exists>t \<in> set (d_Nodes def). Kind t = NodeKindTerminal \<and> (\<exists>es. walk (outgoing def) (NodeIDOf n) es (NodeIDOf t))"
    proof (cases "Kind n = NodeKindTerminal")
      case True
      have "walk (outgoing def) (NodeIDOf n) [] (NodeIDOf n)" by simp
      with True n show ?thesis by blast
    next
      case False
      with r nd ixd show ?thesis
        using nodes_map_Some [OF ids] by (auto simp: reachability_ok_def terminal_walks)
    qed
  qed
  moreover have "\<exists>f. group_fanout (newFanoutTopology def) (tg_ID g) = Some f \<and> sf_joinID f \<noteq> tg_SourceNodeID g"
    if "g \<in> set (d_TransitionGroups def)" "length (edges_of def g) > 1" for g
    using f that nd ixd ids ix
    by (intro fanoutHasValidJoin_fanout [of s g "edges_of def g"]) (auto simp: fanout_ok_def group_edges_def topology_edges)
  ultimately show ?thesis using starts unfolding workflow_graph_def by blast
qed



section \<open>Prompts\<close>

lemma prompt_names_subset: "set (promptParameterNameSet s e source target) \<subseteq> set (edgeParameterNameSet e)"
proof -
  have "set (fold (\<lambda>p names. case f p of None \<Rightarrow> names
      | Some policy \<Rightarrow> if c policy then removeAll (key p) names else names) ps names) \<subseteq> set names"
    for f :: "Parameter \<Rightarrow> ProtectedParameterConsumptionPolicy option" and c key ps names
  proof (induction ps arbitrary: names)
    case (Cons p ps)
    have "set (case f p of None \<Rightarrow> names | Some policy \<Rightarrow> if c policy then removeAll (key p) names else names) \<subseteq> set names"
      by (auto split: option.split)
    with Cons show ?case by (fastforce simp: comp_def)
  qed simp
  then show ?thesis by (simp add: promptParameterNameSet_def Let_def)
qed

definition group_provides :: "Definition \<Rightarrow> DerivedWiring \<Rightarrow> TransitionGroup \<Rightarrow> string \<Rightarrow> bool" where
  "group_provides def derived g name \<longleftrightarrow>
     (\<exists>e \<in> set (edges_of def g). name \<in> set (edgeParameterNameSet e)) \<or>
     (\<exists>j \<in> set (d_Nodes def). NodeIDOf j = tg_SourceNodeID g \<and> Kind j = NodeKindJoin \<and>
        name \<in> set (outputFieldNameSet (JoinOutputFieldsForNode derived (NodeIDOf j))))"

lemma transitionGroupParameterSet_provides:
  assumes "indexed def s" and "ids_ok def" and "g \<in> set (d_TransitionGroups def)"
    and "name \<in> set (transitionGroupParameterSet s (tg_ID g) derived)"
  shows "group_provides def derived g name"
proof -
  have g: "map_of (vs_groupsByID s) (tg_ID g) = Some g"
    using assms by (simp add: indexed_def groups_map_Some)
  have edges: "mget_list (vs_edgesByGroup s) (tg_ID g) = edges_of def g"
    using assms(1) by (simp add: indexed_def topology_edges)
  have at_join: "\<exists>node. map_of (vs_nodesByID s) i = Some node \<and> Kind node = NodeKindJoin \<and>
      name \<in> set (outputFieldNameSet (JoinOutputFieldsForNode derived (NodeIDOf node)))"
    if "name \<in> set (case map_of (vs_nodesByID s) i of None \<Rightarrow> []
      | Some node \<Rightarrow> if Kind node = NodeKindJoin
                     then outputFieldNameSet (JoinOutputFieldsForNode derived (NodeIDOf node)) else [])" for i
    using that by (cases "map_of (vs_nodesByID s) i") (simp_all split: if_splits)
  have "name \<in> set (case map_of (vs_nodesByID s) (tg_SourceNodeID g) of None \<Rightarrow> []
      | Some node \<Rightarrow> if Kind node = NodeKindJoin
                     then outputFieldNameSet (JoinOutputFieldsForNode derived (NodeIDOf node)) else []) \<or>
    (\<exists>e \<in> set (edges_of def g). name \<in> set (case (map_of (vs_nodesByID s) (tg_SourceNodeID g), map_of (vs_nodesByID s) (e_TargetNodeID e)) of
         (Some src, Some target) \<Rightarrow> promptParameterNameSet s e src target | _ \<Rightarrow> edgeParameterNameSet e))"
    using assms(4) unfolding transitionGroupParameterSet_def Let_def g edges option.case set_append set_concat set_map by blast
  then show ?thesis
  proof (elim disjE bexE)
    assume "name \<in> set (case map_of (vs_nodesByID s) (tg_SourceNodeID g) of None \<Rightarrow> []
      | Some node \<Rightarrow> if Kind node = NodeKindJoin
                     then outputFieldNameSet (JoinOutputFieldsForNode derived (NodeIDOf node)) else [])"
    from at_join [OF this] obtain node where node: "map_of (vs_nodesByID s) (tg_SourceNodeID g) = Some node"
      "Kind node = NodeKindJoin" "name \<in> set (outputFieldNameSet (JoinOutputFieldsForNode derived (NodeIDOf node)))" by blast
    then have "node \<in> set (d_Nodes def)" "NodeIDOf node = tg_SourceNodeID g"
      using assms(1,2) by (simp_all add: indexed_def nodes_map_Some)
    with node show ?thesis unfolding group_provides_def by blast
  next
    fix e
    assume "e \<in> set (edges_of def g)" and "name \<in> set (case (map_of (vs_nodesByID s) (tg_SourceNodeID g), map_of (vs_nodesByID s) (e_TargetNodeID e)) of
         (Some src, Some target) \<Rightarrow> promptParameterNameSet s e src target | _ \<Rightarrow> edgeParameterNameSet e)"
    moreover from this(2) have "name \<in> set (edgeParameterNameSet e)"
      using prompt_names_subset [of s e] by (auto split: option.splits)
    ultimately show ?thesis unfolding group_provides_def by blast
  qed
qed

text \<open>
  C29: A prompt never refers to a value that may be missing. In a definition without blocking
  errors, every reference \<open>.Params.t.x\<close> of a prompt (other than a session) names a transition
  group with key \<open>t\<close> that every walk from the start node to the source of the prompt's
  transition has taken, and the group provides \<open>x\<close>: as a parameter of one of its edges, as an
  aggregate of the join it leaves, or \<open>x\<close> is the commentary.
\<close>

theorem ValidateDefinition_prompts:
  assumes "ValidateDefinition parse def opts = Some r" and "\<not> HasBlockingErrors r" and "e \<in> set (d_Edges def)"
    and "ExtractPromptTemplateReferences parse (e_PromptTemplate e) = Some (Inr refs)"
    and "p \<in> set (ptr_PriorParams refs)" and "TrimSpace (ppp_ParameterKey p) \<noteq> RuntimePromptParameterSessionID"
  shows "\<exists>start consumer g derived. filter (\<lambda>n. Kind n = NodeKindStart) (d_Nodes def) = [start] \<and>
    consumer \<in> set (d_TransitionGroups def) \<and> tg_ID consumer = e_TransitionGroupID e \<and>
    g \<in> set (d_TransitionGroups def) \<and> TrimSpace (tg_TransitionID g) = TrimSpace (ppp_TransitionKey p) \<and>
    (\<forall>es. walk (outgoing def) (NodeIDOf start) es (tg_SourceNodeID consumer) \<longrightarrow> (\<exists>x \<in> set es. e_TransitionGroupID x = tg_ID g)) \<and>
    DeriveWiringWithCatalog parse def (vo_RoleResolver opts) = Some derived \<and>
    (TrimSpace (ppp_ParameterKey p) = RuntimePromptParameterCommentary \<or>
     group_provides def derived g (TrimSpace (ppp_ParameterKey p)))"
proof -
  from assms(1,2) obtain s where shape: "shape_ok def s" and ix: "indexed def s" and o: "vs_opts s = opts"
    and g: "graph_ok parse s"
    by (rule ValidateDefinition_clean) blast
  note ixd = ix [unfolded indexed_def]
  have ids: "ids_ok def" using shape by (simp add: shape_ok_def)
  obtain start where st: "vs_startNodes s = [start]" using shape by (auto simp: shape_ok_def length_Suc_conv)
  obtain derived where d: "DeriveWiringWithCatalog parse def (vo_RoleResolver opts) = Some derived"
    and "prompt_ok parse derived e s"
    using g st ixd o assms(3) by (auto simp: graph_ok_def)
  moreover have "refs = no_references" if "blank (e_PromptTemplate e)"
    using that assms(4) by (simp add: ExtractPromptTemplateReferences_def)
  ultimately have "prior_reference_ok edge derived p s" if "edge = e" for edge
    using that assms(4,5) by (auto simp: prompt_ok_def references_ok_def no_references_def)
  then have ok: "prior_reference_ok e derived p s" by simp
  have "edge_ok e s" using shape assms(3) by (simp add: shape_ok_def)
  then obtain consumer where c: "map_of (vs_groupsByID s) (e_TransitionGroupID e) = Some consumer"
    by (auto simp: edge_ok_def)
  then have cg: "consumer \<in> set (d_TransitionGroups def)" "tg_ID consumer = e_TransitionGroupID e"
    using ixd groups_map_Some [OF ids] by auto
  then have "transition_group_ok consumer s" using shape by (simp add: shape_ok_def)
  then obtain source where src: "edgeSource s e = Some source" "NodeIDOf source = tg_SourceNodeID consumer"
    using c ixd nodes_map_Some [OF ids] by (auto simp: transition_group_ok_def edgeSource_def)
  obtain g where gg: "ptr_Guaranteed (resolvePriorParameterTransitionGroups (d_TransitionGroups def)
        (TrimSpace (ppp_TransitionKey p)) (tg_SourceNodeID consumer) (NodeIDOf start) (outgoingByNode (newFanoutTopology def))) = [g]"
    and pk: "TrimSpace (ppp_ParameterKey p) = RuntimePromptParameterCommentary \<or>
      TrimSpace (ppp_ParameterKey p) \<in> set (transitionGroupParameterSet s (tg_ID g) derived)"
    using ok assms(6) src st ixd by (auto simp: prior_reference_ok_def Let_def)
  have gm: "g \<in> set (d_TransitionGroups def)" "TrimSpace (tg_TransitionID g) = TrimSpace (ppp_TransitionKey p)"
    "transitionGroupDominates (NodeIDOf start) (tg_ID g) (tg_SourceNodeID consumer) (outgoingByNode (newFanoutTopology def))"
    using resolve_prior_Guaranteed [of "d_TransitionGroups def" "TrimSpace (ppp_TransitionKey p)" "tg_SourceNodeID consumer"
      "NodeIDOf start" "outgoingByNode (newFanoutTopology def)", unfolded gg] by auto
  have "\<forall>es. walk (outgoing def) (NodeIDOf start) es (tg_SourceNodeID consumer) \<longrightarrow> (\<exists>x \<in> set es. e_TransitionGroupID x = tg_ID g)"
    using gm(3) unfolding dominates_walks by blast
  moreover have "filter (\<lambda>n. Kind n = NodeKindStart) (d_Nodes def) = [start]" using st ixd by simp
  ultimately show ?thesis
    using cg gm d pk transitionGroupParameterSet_provides [OF ix ids gm(1)] by blast
qed

section \<open>When validation returns\<close>

lemma index_node_keeps:
  "vs_def (index_node n s) = vs_def s" "vs_nodeKeys (index_node n s) = vs_nodeKeys s"
  "mhas (vs_nodesByID s) i \<Longrightarrow> mhas (vs_nodesByID (index_node n s)) i"
  "\<not> blank (NodeIDOf n) \<Longrightarrow> mhas (vs_nodesByID (index_node n s)) (NodeIDOf n)"
  by (auto simp: index_node_def Let_def)

lemma index_nodes_keeps:
  "vs_def (fold index_node ns s) = vs_def s" "vs_nodeKeys (fold index_node ns s) = vs_nodeKeys s"
  "mhas (vs_nodesByID s) i \<Longrightarrow> mhas (vs_nodesByID (fold index_node ns s)) i"
  by (induction ns arbitrary: s) (simp_all add: index_node_keeps del: not_None_eq)

lemma index_nodes_has:
  assumes "n \<in> set ns" and "\<not> blank (NodeIDOf n)"
  shows "mhas (vs_nodesByID (fold index_node ns s)) (NodeIDOf n)"
  using assms
proof (induction ns arbitrary: s)
  case (Cons a ns)
  show ?case
  proof (cases "n \<in> set ns")
    case True
    then show ?thesis using Cons.IH [of "index_node a s"] Cons.prems by simp
  next
    case False
    then have "n = a" using Cons.prems(1) by simp
    then show ?thesis using index_nodes_keeps(3) [OF index_node_keeps(4) [OF Cons.prems(2)]] by simp
  qed
qed simp

lemma index_transition_group_keeps:
  "vs_def (fst (index_transition_group g ss)) = vs_def (fst ss)"
  "vs_nodesByID (fst (index_transition_group g ss)) = vs_nodesByID (fst ss)"
  "vs_nodeKeys (fst (index_transition_group g ss)) = vs_nodeKeys (fst ss)"
  by (cases ss; simp add: index_transition_group_def Let_def split: option.split)+

lemma index_groups_keeps:
  "vs_def (fst (fold index_transition_group gs ss)) = vs_def (fst ss)"
  "vs_nodesByID (fst (fold index_transition_group gs ss)) = vs_nodesByID (fst ss)"
  "vs_nodeKeys (fst (fold index_transition_group gs ss)) = vs_nodeKeys (fst ss)"
  by (induction gs arbitrary: ss) (simp_all add: index_transition_group_keeps)

lemma index_edge_keeps:
  "vs_def (index_edge e s) = vs_def s" "vs_nodesByID (index_edge e s) = vs_nodesByID s"
  "vs_nodeKeys (index_edge e s) = vs_nodeKeys s"
  by (auto simp: index_edge_def Let_def split: option.split)

lemma index_edges_keeps:
  "vs_def (fold index_edge es s) = vs_def s" "vs_nodesByID (fold index_edge es s) = vs_nodesByID s"
  "vs_nodeKeys (fold index_edge es s) = vs_nodeKeys s"
  by (induction es arbitrary: s) (simp_all add: index_edge_keeps)

lemma validate_node_keys:
  "map_of (vs_nodeKeys (validate_node n s)) k = Some i \<Longrightarrow> map_of (vs_nodeKeys s) k = Some i \<or> i = NodeIDOf n"
  by (auto simp: validate_node_def Let_def split: if_splits option.splits NodeKind.splits)

lemma validate_nodes_keys:
  "map_of (vs_nodeKeys (fold validate_node ns s)) k = Some i \<Longrightarrow> map_of (vs_nodeKeys s) k = Some i \<or> i \<in> NodeIDOf ` set ns"
  by (induction ns arbitrary: s) (auto dest: validate_node_keys)

lemma validate_nodes_keep: "set_keys (fold validate_node ns s) = set_keys s"
  by (induction ns arbitrary: s) (simp_all add: validate_node_frame)

definition keys_indexed :: "validationState \<Rightarrow> bool" where
  "keys_indexed s \<longleftrightarrow> (\<forall>k i. map_of (vs_nodeKeys s) k = Some i \<longrightarrow> mhas (vs_nodesByID s) i)"

lemma keys_indexed_cong:
  assumes "indexes s = indexes s'"
  shows "keys_indexed s = keys_indexed s'"
  unfolding keys_indexed_def indexes_cong [OF assms] ..

lemma shape_keys_indexed:
  assumes "\<forall>n \<in> set (d_Nodes def). \<not> blank (NodeIDOf n)" and "\<not> IsZero (d_ID def)"
  shows "keys_indexed (validateShape (newValidationState def opts context)) \<and>
    vs_def (validateShape (newValidationState def opts context)) = def"
proof -
  define s0 where "s0 = newValidationState def opts context"
  define s2 where "s2 = validateExecutionTargetPolicy (hard_if (\<not> validDisplayName (d_DisplayName def)) CodeInvalidDisplayName (workflow_ref s0) s0)"
  define s3 where "s3 = indexNodeGroups s2"
  define s6 where "s6 = indexEdges (indexTransitionGroups (indexNodes s3))"
  define s7 where "s7 = validateNodes s6"
  have sh: "validateShape s0 = validateEdges (validateTransitionGroups (validateNodeGroups s7))"
    using assms(2) by (simp add: validateShape_def s7_def s6_def s3_def s2_def s0_def newValidationState_def)
  have s3: "set_groups s3 = set_groups s0"
    using index_node_group_frame [of "d_NodeGroups (vs_def s2)" "(s2, [])"]
    by (simp add: s3_def indexNodeGroups_def s2_def set_groups_indexes [OF validateExecutionTargetPolicy_step(1)])
  note s3' = set_groups_cong [OF s3] s0_def newValidationState_def
  have k6: "vs_nodeKeys s6 = []" "vs_def s6 = def"
    and n6: "vs_nodesByID s6 = vs_nodesByID (fold index_node (d_Nodes def) s3)"
    by (simp_all add: s6_def indexEdges_def indexTransitionGroups_def indexNodes_def index_edges_keeps index_groups_keeps
        index_nodes_keeps s3')
  have i7: "indexes s7 = indexes (fold validate_node (d_Nodes def) s6)"
    by (simp add: s7_def validateNodes_def Let_def k6)
  note same = indexes_cong [OF i7] set_keys_cong [OF validate_nodes_keep [of "d_Nodes def" s6]]
  have "mhas (vs_nodesByID s7) i" if "map_of (vs_nodeKeys s7) k = Some i" for k i
  proof -
    from that have "i \<in> NodeIDOf ` set (d_Nodes def)"
      using validate_nodes_keys [of "d_Nodes def" s6 k i] by (simp add: same k6)
    then obtain n where "n \<in> set (d_Nodes def)" "i = NodeIDOf n" by blast
    then show ?thesis using assms(1) index_nodes_has [of n "d_Nodes def" s3] by (simp add: same n6 del: not_None_eq)
  qed
  moreover have "vs_def s7 = def" by (simp add: same k6)
  moreover have "indexes (validateShape s0) = indexes s7"
    by (simp add: sh validateEdges_def validateTransitionGroups_def validateNodeGroups_def edge_step.fold_frame
        transition_group_step.fold_frame node_group_step.fold_frame)
  ultimately show ?thesis
    unfolding s0_def [symmetric] by (metis keys_indexed_cong keys_indexed_def indexes_cong(1))
qed

lemma context_source_None:
  "context_source_ok s edge source target = None \<Longrightarrow>
   \<exists>k i. map_of (vs_nodeKeys s) k = Some i \<and> map_of (vs_nodesByID s) i = None"
  by (auto simp: context_source_ok_def selected_source_ok_def Let_def split: if_splits option.splits)

lemma context_source_defined: "keys_indexed s \<Longrightarrow> context_source_ok s edge source target \<noteq> None"
  using context_source_None unfolding keys_indexed_def by blast

lemma runtime_support_defined: "keys_indexed s \<Longrightarrow> validate_runtime_support edge s \<noteq> None"
  using context_source_defined by (simp add: validate_runtime_support_def validateContextSource_def Let_def)

lemma prior_references_defined:
  "\<forall>e \<in> set es. ExtractPromptTemplateReferences parse (e_PromptTemplate e) \<noteq> None \<Longrightarrow> prior_references parse es acc \<noteq> None"
  by (induction es arbitrary: acc) (auto split: option.split sum.split)

lemma validate_prompt_defined:
  "ExtractPromptTemplateReferences parse (e_PromptTemplate e) \<noteq> None \<Longrightarrow> validate_prompt parse derived e s \<noteq> None"
  by (auto simp: validate_prompt_def Let_def split: option.split sum.split)

lemma validatePromptPlaceholders_defined:
  assumes "\<forall>e \<in> set (d_Edges (vs_def s)). ExtractPromptTemplateReferences parse (e_PromptTemplate e) \<noteq> None"
  shows "validatePromptPlaceholders parse s \<noteq> None"
proof -
  obtain derived where d: "DeriveWiringWithCatalog parse (vs_def s) (vo_RoleResolver (vs_opts s)) = Some derived"
    using prior_references_defined [OF assms, of "[]"] by (auto simp: DeriveWiringWithCatalog_def)
  have "fold_option (validate_prompt parse derived) (d_Edges (vs_def s)) s \<noteq> None"
    using assms validate_prompt_defined prompt_step.loop_defined by blast
  with d show ?thesis by (simp add: validatePromptPlaceholders_def)
qed

lemma validateGraph_defined:
  assumes "\<forall>e \<in> set (d_Edges (vs_def s)). validate_runtime_support e s \<noteq> None"
    and "\<forall>e \<in> set (d_Edges (vs_def s)). ExtractPromptTemplateReferences parse (e_PromptTemplate e) \<noteq> None"
  shows "validateGraph parse s \<noteq> None"
proof -
  define s0 where "s0 = validateKindConstraints s"
  have i0: "indexes s0 = indexes s" by (simp add: s0_def validateKindConstraints_def kind_step.fold_frame)
  have "validate_runtime_support e s0 = None \<longleftrightarrow> validate_runtime_support e s = None" for e
    by (metis i0 runtime_step.defined_indexes)
  then have "validateRuntimeSupport s0 \<noteq> None"
    using assms(1) runtime_step.loop_defined indexes_cong(1) [OF i0] by (simp add: validateRuntimeSupport_def del: not_None_eq)
  then obtain s1 where s1: "validateRuntimeSupport s0 = Some s1" by blast
  then have i1: "indexes s1 = indexes s" using runtime_step.loop_frame i0 by (simp add: validateRuntimeSupport_def)
  have "validatePromptPlaceholders parse (fold (validate_reachability r) ns (validateStartOutgoingShape start s1)) \<noteq> None" for r ns start
  proof (rule validatePromptPlaceholders_defined)
    have "indexes (fold (validate_reachability r) ns (validateStartOutgoingShape start s1)) = indexes s"
      by (simp add: reachability_step.fold_frame validateStartOutgoingShape_step i1)
    from indexes_cong(1) [OF this] assms(2)
    show "\<forall>e \<in> set (d_Edges (vs_def (fold (validate_reachability r) ns (validateStartOutgoingShape start s1)))).
      ExtractPromptTemplateReferences parse (e_PromptTemplate e) \<noteq> None" by simp
  qed
  then show ?thesis
    by (simp add: validateGraph_def s0_def [symmetric] s1 Let_def split: list.split)
qed

lemma continuation_sources_defined: "validateContinuationSources s \<noteq> None"
proof -
  have "validateStaticContinuationSources (vs_def s) i \<noteq> None" for i
    using validateStatic_eq [of "vs_def s" i] by auto
  then show ?thesis by (simp add: validateContinuationSources_def split: list.split)
qed

text \<open>
  C34: Validation returns a result, whatever the definition, as long as no node ID is blank and
  no prompt makes the extraction of references panic: no lookup of a nil node, and none of the
  analyses it runs diverges.
\<close>

theorem ValidateDefinition_returns:
  assumes "\<forall>n \<in> set (d_Nodes def). \<not> blank (NodeIDOf n)"
    and "\<forall>e \<in> set (d_Edges def). ExtractPromptTemplateReferences parse (e_PromptTemplate e) \<noteq> None"
  shows "\<exists>r. ValidateDefinition parse def opts = Some r"
proof (cases "IsZero (d_ID def)")
  case False
  let ?s = "validateShape (newValidationState def opts
    (if vo_Context opts = ValidationContextOther '''' then ValidationContextDraft else vo_Context opts))"
  note k = shape_keys_indexed [OF assms(1) False]
  then have "validateGraph parse ?s \<noteq> None" 
    using assms(2) runtime_support_defined by (intro validateGraph_defined) auto
  then obtain s2 where s2: "validateGraph parse ?s = Some s2" by blast
  obtain s3 where s3: "validateContinuationSources (validateFanouts s2) = Some s3"
    using continuation_sources_defined by blast
  have "indexes s3 = indexes s2"
    using s3 by (auto simp: validateContinuationSources_def continuation_step.fold_frame validateFanouts_def
        fanout_step.fold_frame split: list.splits)
  then have "vs_def s3 = def" using validateGraph_step(1) [OF s2] k by (metis indexes_cong(1))
  then have "validateDerivedWiring parse s3 \<noteq> None"
    using prior_references_defined [OF assms(2)] by (simp add: validateDerivedWiring_def DeriveWiring_def)
  with s2 s3 False show ?thesis by (auto simp: ValidateDefinition_def Let_def)
qed (simp add: ValidateDefinition_def Let_def)

end
