(* ===== verification/Wf_Validation_Draft.thy ===== *)
theory Wf_Validation_Draft
  imports Wf_Validation_Sound
begin

text \<open>
  A workflow that passes the validation for execution, or for a reconciliation, also passes as a
  draft: the draft context only turns errors into warnings. The proof follows the two runs of
  the validator side by side; \<open>redraft\<close> maps a state of one run to the state of the other.
\<close>

section \<open>Drafts\<close>

definition redraft :: "validationState \<Rightarrow> validationState" where
  "redraft s = s\<lparr>vs_context := ValidationContextDraft, vs_opts := (vs_opts s)\<lparr>vo_Context := ValidationContextDraft\<rparr>\<rparr>"

lemma redraft_sel [simp]:
  "vs_def (redraft s) = vs_def s" "vs_context (redraft s) = ValidationContextDraft"
  "vo_RoleResolver (vs_opts (redraft s)) = vo_RoleResolver (vs_opts s)"
  "vo_ExecutionNodes (vs_opts (redraft s)) = vo_ExecutionNodes (vs_opts s)"
  "vs_errors (redraft s) = vs_errors s" "vs_nodesByID (redraft s) = vs_nodesByID s" "vs_nodeKeys (redraft s) = vs_nodeKeys s"
  "vs_nodeGroupsByID (redraft s) = vs_nodeGroupsByID s" "vs_groupsByID (redraft s) = vs_groupsByID s"
  "vs_edgesByID (redraft s) = vs_edgesByID s" "vs_edgesByGroup (redraft s) = vs_edgesByGroup s"
  "vs_groupsBySource (redraft s) = vs_groupsBySource s" "vs_outgoingByNode (redraft s) = vs_outgoingByNode s"
  "vs_incomingByNode (redraft s) = vs_incomingByNode s" "vs_startNodes (redraft s) = vs_startNodes s"
  by (simp_all add: redraft_def)

lemma redraft_clean [simp]: "clean (redraft s) = clean s"
  by (simp add: clean_def)

lemma redraft_update [simp]:
  "(redraft s)\<lparr>vs_errors := a\<rparr> = redraft (s\<lparr>vs_errors := a\<rparr>)"
  "(redraft s)\<lparr>vs_nodesByID := b\<rparr> = redraft (s\<lparr>vs_nodesByID := b\<rparr>)"
  "(redraft s)\<lparr>vs_startNodes := c\<rparr> = redraft (s\<lparr>vs_startNodes := c\<rparr>)"
  "(redraft s)\<lparr>vs_nodeGroupsByID := d\<rparr> = redraft (s\<lparr>vs_nodeGroupsByID := d\<rparr>)"
  "(redraft s)\<lparr>vs_nodeKeys := e\<rparr> = redraft (s\<lparr>vs_nodeKeys := e\<rparr>)"
  "(redraft s)\<lparr>vs_groupsByID := f\<rparr> = redraft (s\<lparr>vs_groupsByID := f\<rparr>)"
  "(redraft s)\<lparr>vs_groupsBySource := g\<rparr> = redraft (s\<lparr>vs_groupsBySource := g\<rparr>)"
  "(redraft s)\<lparr>vs_edgesByID := h\<rparr> = redraft (s\<lparr>vs_edgesByID := h\<rparr>)"
  "(redraft s)\<lparr>vs_edgesByGroup := i\<rparr> = redraft (s\<lparr>vs_edgesByGroup := i\<rparr>)"
  "(redraft s)\<lparr>vs_outgoingByNode := j\<rparr> = redraft (s\<lparr>vs_outgoingByNode := j\<rparr>)"
  "(redraft s)\<lparr>vs_incomingByNode := k\<rparr> = redraft (s\<lparr>vs_incomingByNode := k\<rparr>)"
  by (simp_all add: redraft_def)

lemma redraft_ref [simp]:
  "workflow_ref (redraft s) = workflow_ref s" "node_ref (redraft s) = node_ref s" "group_ref (redraft s) = group_ref s"
  "edge_ref (redraft s) = edge_ref s" "node_group_ref (redraft s) = node_group_ref s"
  by (auto simp: workflow_ref_def node_ref_def group_ref_def edge_ref_def node_group_ref_def)

lemma redraft_hard [simp]:
  "addHard code ref (redraft s) = redraft (addHard code ref s)"
  "hard_if bad code ref (redraft s) = redraft (hard_if bad code ref s)"
  "check_workflow_id w ref (redraft s) = redraft (check_workflow_id w ref s)"
  by (simp_all add: addHard_def hard_if_def check_workflow_id_def)

lemma redraft_indexes: "indexes (redraft s) = redraft (indexes s)"
  by (simp add: indexes_def)

lemma redraft_cong: "indexes s = indexes s' \<Longrightarrow> indexes (redraft s) = indexes (redraft s')"
  by (simp add: redraft_indexes)

lemma redraft_loops:
  "indexNodeGroups (redraft s) = redraft (indexNodeGroups s)"
  "indexNodes (redraft s) = redraft (indexNodes s)"
  "indexTransitionGroups (redraft s) = redraft (indexTransitionGroups s)"
  "indexEdges (redraft s) = redraft (indexEdges s)"
  "validateNodes (redraft s) = redraft (validateNodes s)"
proof -
  have ng: "index_node_group x (redraft s, m) = map_prod redraft id (index_node_group x (s, m))" for x s m
    by (simp add: index_node_group_def Let_def split: option.split)
  have "fold index_node_group xs (redraft s, m) = map_prod redraft id (fold index_node_group xs (s, m))" for xs s m
  proof (induction xs arbitrary: s m)
    case (Cons x xs)
    then show ?case by (cases "index_node_group x (s, m)") (simp add: ng)
  qed simp
  then show "indexNodeGroups (redraft s) = redraft (indexNodeGroups s)" by (simp add: indexNodeGroups_def)
  have n: "index_node x (redraft s) = redraft (index_node x s)" for x s by (simp add: index_node_def Let_def)
  have "fold index_node xs (redraft s) = redraft (fold index_node xs s)" for xs s
    by (induction xs arbitrary: s) (simp_all add: n)
  then show "indexNodes (redraft s) = redraft (indexNodes s)" by (simp add: indexNodes_def)
  have tg: "index_transition_group x (redraft s, m) = map_prod redraft id (index_transition_group x (s, m))" for x s m
    by (simp add: index_transition_group_def Let_def split: option.split)
  have "fold index_transition_group xs (redraft s, m) = map_prod redraft id (fold index_transition_group xs (s, m))" for xs s m
  proof (induction xs arbitrary: s m)
    case (Cons x xs)
    then show ?case by (cases "index_transition_group x (s, m)") (simp add: tg)
  qed simp
  then show "indexTransitionGroups (redraft s) = redraft (indexTransitionGroups s)" by (simp add: indexTransitionGroups_def)
  have e: "index_edge x (redraft s) = redraft (index_edge x s)" for x s
    by (simp add: index_edge_def Let_def split: option.split)
  have "fold index_edge xs (redraft s) = redraft (fold index_edge xs s)" for xs s
    by (induction xs arbitrary: s) (simp_all add: e)
  then show "indexEdges (redraft s) = redraft (indexEdges s)" by (simp add: indexEdges_def)
  have v: "validate_node x (redraft s) = redraft (validate_node x s)" for x s
    by (cases "NodeGroupID x"; cases x; cases "map_of (vs_nodeKeys s) (NodeKey x)"; simp add: validate_node_def Let_def)
  have "fold validate_node xs (redraft s) = redraft (fold validate_node xs s)" for xs s
    by (induction xs arbitrary: s) (simp_all add: v)
  then show "validateNodes (redraft s) = redraft (validateNodes s)" by (simp add: validateNodes_def Let_def)
qed

lemma redraft_policy:
  assumes "clean (validateExecutionTargetPolicy s)"
  shows "validateExecutionTargetPolicy (redraft s) = redraft (validateExecutionTargetPolicy s)"
proof -
  have "semantic_if bad code ref (redraft s) = redraft (semantic_if bad code ref s)" if "bad \<longrightarrow> draft s" for bad code ref
    using that by (auto simp: semantic_if_def addSemantic_def)
  then show ?thesis using assms
    by (simp add: validateExecutionTargetPolicy_def Let_def split: if_splits)
qed

text \<open>The conditions of the checks do not get stronger in a draft.\<close>

lemma redraft_ok:
  "node_group_ok ng (redraft s) = node_group_ok ng s" "transition_group_ok g (redraft s) = transition_group_ok g s"
  "edge_ok e s \<Longrightarrow> edge_ok e (redraft s)"
proof -
  have m: "nodeGroupMembers (redraft s) = nodeGroupMembers s" by (rule ext) (simp add: nodeGroupMembers_def)
  have f: "nodeGroupV1FanoutTopologyError (redraft s) = nodeGroupV1FanoutTopologyError s"
    by (intro ext) (simp add: nodeGroupV1FanoutTopologyError_def nodeGroupSeparateFanout_def group_source_def
        nodeHasOutgoingEdgeTo_def)
  obtain s1 bs js where r: "node_group_members zero_error (nodeGroupMembers s ng) s [] [] = (s1, bs, js)"
    by (metis prod_cases3)
  then show "node_group_ok ng (redraft s) = node_group_ok ng s"
    using node_group_ok_iff [of zero_error s ng s s1 bs js] node_group_ok_iff [of zero_error "redraft s" ng s s1 bs js]
    by (simp add: m f)
  show "transition_group_ok g (redraft s) = transition_group_ok g s" by (simp add: transition_group_ok_def group_edges_def)
  show "edge_ok e s \<Longrightarrow> edge_ok e (redraft s)"
    by (auto simp: edge_ok_def prompt_allowed_def edgeSource_def split: option.splits)
qed

lemma redraft_prompt_ok: "prompt_ok parse derived e (redraft s) = prompt_ok parse derived e s"
proof -
  have src: "edgeSource (redraft s) = edgeSource s" by (rule ext) (simp add: edgeSource_def split: option.split)
  have names: "promptParameterNameSet (redraft s) = promptParameterNameSet s"
    by (intro ext) (simp add: promptParameterNameSet_def)
  have groups: "transitionGroupParameterSet (redraft s) = transitionGroupParameterSet s"
    unfolding transitionGroupParameterSet_def redraft_sel names ..
  have session: "session_reference_ok e key (redraft s) = session_reference_ok e key s" for key
    unfolding session_reference_ok_def redraft_sel src ..
  have "prior_reference_ok e derived p (redraft s) = prior_reference_ok e derived p s" for p
    unfolding prior_reference_ok_def redraft_sel src groups session ..
  then show ?thesis unfolding prompt_ok_def references_ok_def current_parameters_def src names redraft_sel by simp
qed

lemma redraft_graph_ok: "graph_ok parse s \<Longrightarrow> graph_ok parse (redraft s)"
  by (auto simp: graph_ok_def redraft_prompt_ok start_shape_ok_def reachability_ok_def runtime_ok_def selector_ok_def
      kind_ok_def Let_def split: NodeKind.splits)

lemma shape_policy_clean:
  assumes "clean (validateNodes (indexEdges (indexTransitionGroups (indexNodes (indexNodeGroups p)))))"
  shows "clean p"
proof -
  have "clean (indexEdges (indexTransitionGroups (indexNodes (indexNodeGroups p))))"
    using assms by (simp add: validateNodes_def Let_def) (use validate_nodes_clean in blast)
  then have "clean (indexTransitionGroups (indexNodes (indexNodeGroups p)))"
    using edge_index.loop_clean by (fastforce simp: indexEdges_def)
  then have "clean (indexNodes (indexNodeGroups p))"
    using group_index.loop_clean by (fastforce simp: indexTransitionGroups_def)
  then have "clean (indexNodeGroups p)" using node_index.loop_clean by (fastforce simp: indexNodes_def)
  then show ?thesis using index_node_group_frame [of _ "(p, [])"] by (simp add: indexNodeGroups_def)
qed

lemma redraft_shape:
  assumes "clean (validateShape s)" and "\<not> IsZero (d_ID (vs_def s))"
  shows "clean (validateShape (redraft s)) \<and> indexes (validateShape (redraft s)) = indexes (redraft (validateShape s))"
proof -
  define s1 where "s1 = hard_if (\<not> validDisplayName (d_DisplayName (vs_def s))) CodeInvalidDisplayName (workflow_ref s) s"
  define r where "r = (\<lambda>p. validateNodes (indexEdges (indexTransitionGroups (indexNodes (indexNodeGroups p)))))"
  let ?p = "validateExecutionTargetPolicy s1" and ?p' = "validateExecutionTargetPolicy (redraft s1)"
  have sh: "validateShape s = validateEdges (validateTransitionGroups (validateNodeGroups (r ?p)))"
    and sh': "validateShape (redraft s) = validateEdges (validateTransitionGroups (validateNodeGroups (r ?p')))"
    using assms(2) by (simp_all add: validateShape_def r_def s1_def)
  define q where "q = r ?p" define q' where "q' = r ?p'"
  define q1 where "q1 = validateNodeGroups q" define q1' where "q1' = validateNodeGroups q'"
  define q2 where "q2 = validateTransitionGroups q1" define q2' where "q2' = validateTransitionGroups q1'"
  have iq1: "indexes q1 = indexes q" "indexes q1' = indexes q'"
    by (simp_all add: q1_def q1'_def validateNodeGroups_def node_group_step.fold_frame)
  have iq2: "indexes q2 = indexes q" "indexes q2' = indexes q'"
    by (simp_all add: q2_def q2'_def validateTransitionGroups_def transition_group_step.fold_frame iq1)
  from assms(1) have ce: "clean q2" "\<forall>e \<in> set (d_Edges (vs_def q)). edge_ok e q"
    by (simp_all add: sh q_def [symmetric] q1_def [symmetric] q2_def [symmetric] validateEdges_def edge_step.fold_reports
        edge_step.ok_cong [OF iq2(1)] indexes_cong(1) [OF iq2(1)])
  then have cg: "clean q1" "\<forall>g \<in> set (d_TransitionGroups (vs_def q)). transition_group_ok g q"
    by (simp_all add: q2_def validateTransitionGroups_def transition_group_step.fold_reports
        transition_group_step.ok_cong [OF iq1(1)] indexes_cong(1) [OF iq1(1)])
  then have cq: "clean q" "\<forall>g \<in> set (d_NodeGroups (vs_def q)). node_group_ok g q"
    by (simp_all add: q1_def validateNodeGroups_def node_group_step.fold_reports)
  have "clean ?p"
    using cq(1) shape_policy_clean by (simp add: q_def r_def)
  then have q': "q' = redraft q" by (simp add: q'_def q_def r_def redraft_policy redraft_loops)
  have "clean q1'" using cq by (simp add: q1'_def validateNodeGroups_def node_group_step.fold_reports q' redraft_ok)
  then have "clean q2'"
    using cg by (simp add: q2'_def validateTransitionGroups_def transition_group_step.fold_reports
        transition_group_step.ok_cong [OF iq1(2)] indexes_cong(1) [OF iq1(2)] q' redraft_ok)
  then have "clean (validateEdges q2')"
    using ce by (simp add: validateEdges_def edge_step.fold_reports edge_step.ok_cong [OF iq2(2)] indexes_cong(1) [OF iq2(2)]
        q' redraft_ok)
  moreover have "indexes (validateEdges q2') = indexes (redraft q)" "indexes (validateEdges q2) = indexes q"
    by (simp_all add: validateEdges_def edge_step.fold_frame iq2 q')
  ultimately show ?thesis
    unfolding sh sh' q_def [symmetric] q'_def [symmetric] q1_def [symmetric] q1'_def [symmetric]
      q2_def [symmetric] q2'_def [symmetric] by (simp add: redraft_indexes)
qed

text \<open>The analyses of the graph run in the draft as well, and find nothing.\<close>

lemma graph_ok_cong:
  assumes "indexes s = indexes s'"
  shows "graph_ok parse s = graph_ok parse s'"
  unfolding graph_ok_def kind_step.ok_cong [OF assms] runtime_step.ok_cong [OF assms] indexes_cong [OF assms]
    reachability_step.ok_cong [OF assms] prompt_step.ok_cong [OF assms]
  by (simp add: start_shape_ok_def group_edges_def indexes_cong [OF assms])

lemma redraft_runtime_defined: "validate_runtime_support e (redraft s) = None \<longleftrightarrow> validate_runtime_support e s = None"
proof -
  have dom: "nodeDominates (redraft s) = nodeDominates s" by (intro ext) (simp add: nodeDominates_def split: list.split)
  have src: "edgeSource (redraft s) = edgeSource s" by (rule ext) (simp add: edgeSource_def split: option.split)
  have "context_source_ok (redraft s) edge source target = context_source_ok s edge source target" for edge source target
    unfolding context_source_ok_def selected_source_ok_def previous_target_ok_def dom redraft_sel ..
  then show ?thesis
    by (simp add: validate_runtime_support_def validateContextSource_def Let_def src del: not_None_eq)
qed

lemma validateGraph_runtime_defined:
  assumes "validateGraph parse s = Some s2" and "e \<in> set (d_Edges (vs_def s))"
  shows "validate_runtime_support e s \<noteq> None"
proof -
  define s0 where "s0 = validateKindConstraints s"
  have i0: "indexes s0 = indexes s" by (simp add: s0_def validateKindConstraints_def kind_step.fold_frame)
  have "fold_option validate_runtime_support (d_Edges (vs_def s0)) s0 \<noteq> None"
    using assms(1) by (auto simp: validateGraph_def validateRuntimeSupport_def s0_def bind_eq_Some_conv)
  then have "validate_runtime_support e s0 \<noteq> None"
    unfolding runtime_step.loop_defined using assms(2) indexes_cong(1) [OF i0] by auto
  then show ?thesis using runtime_step.defined_indexes i0 by metis
qed

lemma prior_references_Some:
  "prior_references parse es acc \<noteq> None \<Longrightarrow> \<forall>e \<in> set es. ExtractPromptTemplateReferences parse (e_PromptTemplate e) \<noteq> None"
  by (induction es arbitrary: acc) (auto split: option.splits sum.splits)

lemma draft_graph:
  assumes "validateGraph parse s = Some s2" and "clean s2" and "prior_references parse (d_Edges (vs_def s)) [] \<noteq> None"
    and i: "indexes sd = indexes (redraft s)" and "clean sd"
  obtains t where "validateGraph parse sd = Some t" and "clean t" and "indexes t = indexes (redraft s)"
proof -
  have "validate_runtime_support e sd \<noteq> None" if "e \<in> set (d_Edges (vs_def s))" for e
    using validateGraph_runtime_defined [OF assms(1) that] redraft_runtime_defined runtime_step.defined_indexes i by metis
  then obtain t where t: "validateGraph parse sd = Some t"
    using validateGraph_defined [of sd parse] prior_references_Some [OF assms(3)] indexes_cong(1) [OF i] by auto
  have "graph_ok parse s" using validateGraph_step(2) [OF assms(1)] assms(2) by simp
  then have "clean t" using validateGraph_step(2) [OF t] assms(5) redraft_graph_ok graph_ok_cong [OF i] by simp
  with t that validateGraph_step(1) [OF t] i show ?thesis by simp
qed

lemma draft_continuation:
  assumes "draft s" and "clean s"
  obtains t where "validateContinuationSources (validateFanouts s) = Some t" and "clean t" and "vs_def t = vs_def s"
proof -
  let ?f = "validateFanouts s"
  have i: "indexes ?f = indexes s" by (simp add: validateFanouts_def fanout_step.fold_frame)
  have c: "clean ?f" using assms by (simp add: validateFanouts_def fanout_step.fold_reports fanout_ok_def)
  have d: "draft ?f" using assms(1) indexes_cong [OF i] by simp
  obtain t where t: "validateContinuationSources ?f = Some t" using continuation_sources_defined by blast
  then have "clean t"
    using c d by (auto simp: validateContinuationSources_def continuation_step.fold_reports split: list.splits)
  moreover have "indexes t = indexes ?f"
    using t by (auto simp: validateContinuationSources_def continuation_step.fold_frame split: list.splits)
  ultimately show ?thesis using t that i indexes_cong(1) by metis
qed

lemma derived_wiring_clean:
  assumes "validateDerivedWiring parse s = Some s'" and "clean s'"
    and "validateDerivedWiring parse t = Some t'" and "vs_def t = vs_def s" and "clean t"
  shows "clean t'"
proof -
  from assms(1) obtain derived where d: "DeriveWiring parse (vs_def s) = Some derived"
    by (auto simp: validateDerivedWiring_def)
  define ds where "ds = map (\<lambda>diagnostic. if ve_WorkflowID diagnostic = None
      then diagnostic\<lparr>ve_WorkflowID := Some (d_ID (vs_def s))\<rparr> else diagnostic) (Diagnostics derived)"
  from assms(1) d have "s' = s\<lparr>vs_errors := vs_errors s @ ds\<rparr>"
    by (simp add: validateDerivedWiring_def ds_def)
  moreover from assms(3) d have "t' = t\<lparr>vs_errors := vs_errors t @ ds\<rparr>"
    unfolding validateDerivedWiring_def assms(4) by (simp add: ds_def)
  ultimately show ?thesis using assms(2,5) by (simp add: clean_def)
qed

text \<open>
  C35: A definition that validation accepts in some context is accepted as a draft: with the
  same options and the draft context, validation returns a result, and no error of it blocks.
\<close>

theorem ValidateDefinition_draft:
  assumes "ValidateDefinition parse def opts = Some r" and "\<not> HasBlockingErrors r"
  shows "\<exists>r'. ValidateDefinition parse def (opts\<lparr>vo_Context := ValidationContextDraft\<rparr>) = Some r' \<and> \<not> HasBlockingErrors r'"
proof -
  define n where "n = newValidationState def opts (vr_Context r)"
  let ?opts = "opts\<lparr>vo_Context := ValidationContextDraft\<rparr>" and ?s = "validateShape n"
  from assms obtain s2 s3 s4 where z: "\<not> IsZero (d_ID def)" and s2: "validateGraph parse ?s = Some s2"
    and s3: "validateContinuationSources (validateFanouts s2) = Some s3"
    and s4: "validateDerivedWiring parse s3 = Some s4" "clean s4"
    unfolding n_def by (rule ValidateDefinition_steps)
  have n: "newValidationState def ?opts ValidationContextDraft = redraft n"
    by (simp add: n_def redraft_def newValidationState_def)
  have c3: "clean s3" using s4 by (auto simp: validateDerivedWiring_def clean_def)
  then have c2: "clean s2"
    using s3 by (auto simp: validateContinuationSources_def validateFanouts_def continuation_step.fold_reports
        fanout_step.fold_reports split: list.splits)
  have i3: "indexes s3 = indexes s2"
    using s3 by (auto simp: validateContinuationSources_def continuation_step.fold_frame validateFanouts_def
        fanout_step.fold_frame split: list.splits)
  note g = validateGraph_step [OF s2]
  have c: "clean ?s" using g(2) c2 by simp
  have d: "vs_def ?s = def" using shape_clean [OF c [unfolded n_def], folded n_def] by (auto simp: indexed_def)
  have d3: "vs_def s3 = def" using indexes_cong(1) [OF i3] indexes_cong(1) [OF g(1)] d by simp
  have refs: "prior_references parse (d_Edges (vs_def ?s)) [] \<noteq> None"
    using s4(1) d3 d by (auto simp: validateDerivedWiring_def DeriveWiring_def)
  have sh: "clean (validateShape (redraft n))" "indexes (validateShape (redraft n)) = indexes (redraft ?s)"
    using redraft_shape [OF c] z by (simp_all add: n_def newValidationState_def)
  obtain t where t: "validateGraph parse (validateShape (redraft n)) = Some t" "clean t" "indexes t = indexes (redraft ?s)"
    by (rule draft_graph [OF s2 c2 refs sh(2,1)])
  have dt: "draft t" "vs_def t = def" using indexes_cong [OF t(3)] d by simp_all
  obtain t3 where t3: "validateContinuationSources (validateFanouts t) = Some t3" "clean t3" "vs_def t3 = vs_def t"
    by (rule draft_continuation [OF dt(1) t(2)])
  obtain t4 where t4: "validateDerivedWiring parse t3 = Some t4" "clean t4"
  proof -
    have eq: "vs_def t3 = vs_def s3" using t3(3) d3 dt(2) by simp
    then obtain t4 where t4: "validateDerivedWiring parse t3 = Some t4"
      using s4(1) by (auto simp: validateDerivedWiring_def)
    have "clean t4" using derived_wiring_clean [OF s4 t4 eq t3(2)] .
    with t4 show ?thesis by (rule that)
  qed
  have "ValidateDefinition parse def ?opts = Some \<lparr>vr_Context = ValidationContextDraft, vr_Errors = vs_errors t4\<rparr>"
    using z t t3 t4 n by (simp add: ValidateDefinition_def)
  moreover have "\<not> HasBlockingErrors \<lparr>vr_Context = ValidationContextDraft, vr_Errors = vs_errors t4\<rparr>"
    using t4(2) by (simp add: clean_def HasBlockingErrors_def)
  ultimately show ?thesis by blast
qed

end
