(* ===== verification/Wf_Examples.thy ===== *)
theory Wf_Examples
  imports Wf_Agents_Props Wf_Prompts Wf_Wiring_Props Wf_Current Wf_Session_Reuse_Total
begin

text \<open>
  A small workflow on which the theorems of the development are applied: start, an agent, a
  fan-out into two agents, a join, a terminal node. Each theorem here instantiates one property
  and evaluates the definitions it mentions.
\<close>

section \<open>The sample workflow\<close>

definition sample_identity :: "string \<Rightarrow> NodeIdentity" where
  "sample_identity n = \<lparr>ni_WorkflowID = 1, ni_ID = n, ni_Key = n, ni_DisplayName = n, ni_GroupID = None\<rparr>"

definition sample_edge :: "string \<Rightarrow> string \<Rightarrow> string \<Rightarrow> Edge" where
  "sample_edge name tgroup target =
     \<lparr>e_WorkflowID = 1, e_ID = name, e_Key = name, e_TransitionGroupID = tgroup, e_TargetNodeID = target,
      e_AssigneeSelection = '''', e_ThinkingSelection = '''', e_ContextMode = ContextModeNewSession,
      e_ContextSource = \<lparr>cs_Kind = '''', cs_NodeKey = ''''\<rparr>, e_RequiresApproval = False, e_PromptTemplate = '''',
      e_Parameters = [], e_InputBindings = [], e_OutputRequirements = []\<rparr>"

definition sample_group :: "string \<Rightarrow> string \<Rightarrow> TransitionGroup" where
  "sample_group name source =
     \<lparr>tg_WorkflowID = 1, tg_ID = name, tg_SourceNodeID = source, tg_TransitionID = name, tg_DisplayName = name,
      tg_Description = ''''\<rparr>"

definition sample_def :: Definition where
  "sample_def =
     \<lparr>d_ID = 1, d_DisplayName = ''w'', d_ExecutionTargetPolicy = DefaultExecutionTargetPolicy, d_NodeGroups = [],
      d_Nodes = [StartNode (sample_identity ''s''), AgentNode (sample_identity ''p'') ''coder'' '''',
        AgentNode (sample_identity ''a'') ''coder'' '''', AgentNode (sample_identity ''b'') ''coder'' '''',
        JoinNode (sample_identity ''j'') [], TerminalNode (sample_identity ''t'')],
      d_TransitionGroups = [sample_group ''g'' ''s'', sample_group ''f'' ''p'', sample_group ''h'' ''a'',
        sample_group ''i'' ''b'', sample_group ''k'' ''j''],
      d_Edges = [sample_edge ''e'' ''g'' ''p'', sample_edge ''x'' ''f'' ''a'', sample_edge ''y'' ''f'' ''b'',
        sample_edge ''u'' ''h'' ''j'', sample_edge ''v'' ''i'' ''j'', sample_edge ''w'' ''k'' ''t'']\<rparr>"

definition sample_out :: edge_index where
  "sample_out = outgoingByNode (newFanoutTopology sample_def)"

lemmas sample_defs = sample_def_def sample_identity_def sample_edge_def sample_group_def sample_out_def

lemma sample_out_eq [simp]:
  "sample_out = [(''s'', [sample_edge ''e'' ''g'' ''p'']), (''p'', [sample_edge ''x'' ''f'' ''a'', sample_edge ''y'' ''f'' ''b'']),
     (''a'', [sample_edge ''u'' ''h'' ''j'']), (''b'', [sample_edge ''v'' ''i'' ''j'']), (''j'', [sample_edge ''w'' ''k'' ''t''])]"
  by code_simp

section \<open>Graph searches\<close>

abbreviation sample_walk :: "Edge list" where
  "sample_walk \<equiv> [sample_edge ''e'' ''g'' ''p'', sample_edge ''x'' ''f'' ''a'', sample_edge ''u'' ''h'' ''j'']"

lemma sample_walks: "walk (mget_list sample_out) ''s'' sample_walk ''j''"
  by code_simp

theorem transitionGroupDominates_iff_sample:
  "transitionGroupDominates ''s'' ''f'' ''j'' sample_out \<and> (\<exists>e \<in> set sample_walk. e_TransitionGroupID e = ''f'')"
proof -
  have "transitionGroupDominates ''s'' ''f'' ''j'' sample_out" by code_simp
  with transitionGroupDominates_iff [of "''s''" "''f''" "''j''" sample_out] sample_walks show ?thesis by blast
qed

theorem nodeDominatesFromStart_iff_sample:
  "nodeDominatesFromStart ''s'' ''p'' ''j'' sample_out \<and> ''p'' \<in> set (walk_nodes ''s'' sample_walk)"
proof -
  have d: "nodeDominatesFromStart ''s'' ''p'' ''j'' sample_out" by code_simp
  moreover have "''p'' \<noteq> ''j''" by simp
  ultimately show ?thesis
    using nodeDominatesFromStart_iff [of "''s''" "''p''" "''j''" sample_out] sample_walks by blast
qed


section \<open>Fan-outs and joins\<close>

abbreviation sample_topology :: fanoutTopology where
  "sample_topology \<equiv> newFanoutTopology sample_def"

lemma sample_branch: "walk (branch_out sample_topology) ''a'' [sample_edge ''u'' ''h'' ''j''] ''j''"
  by code_simp

theorem fanoutBranchTraversal_accepts_sample:
  "fanoutBranchTraversal sample_topology ''a'' \<noteq> None \<and> distinct (walk_nodes ''a'' [sample_edge ''u'' ''h'' ''j''])"
proof -
  have "fanoutBranchTraversal sample_topology ''a'' \<noteq> None" by code_simp
  with fanoutBranchTraversal_accepts [of sample_topology "''a''"] sample_branch show ?thesis by blast
qed

theorem fanoutBranchTraversal_distances_sample:
  "\<exists>result. fanoutBranchTraversal sample_topology ''a'' = Some result \<and> map_of (joinDistances result) ''j'' = Some 1 \<and>
     1 \<le> length [sample_edge ''u'' ''h'' ''j'']"
proof -
  let ?r = "\<lparr>pathNodes = [(''a'', 0)], joinDistances = [(''j'', 1)]\<rparr>"
  have r: "fanoutBranchTraversal sample_topology ''a'' = Some ?r" by code_simp
  have "map_of (joinDistances ?r) ''j'' = Some 1" by simp
  with fanoutBranchTraversal_distances [OF r, of "''j''" 1] sample_branch r show ?thesis by blast
qed

theorem fanoutNearestCommonJoin_iff_sample:
  "fanoutNearestCommonJoin [[(''j'', 1), (''k'', 3)], [(''k'', 1), (''j'', 2)]] = Some ''j'' \<and>
   common_join [[(''j'', 1), (''k'', 3)], [(''k'', 1), (''j'', 2)]] ''j''"
proof -
  let ?ds = "[[(''j'', 1), (''k'', 3)], [(''k'', 1), (''j'', 2)]]"
  have "\<forall>m \<in> set ?ds. distinct (mkeys m)" by simp
  moreover have "fanoutNearestCommonJoin ?ds = Some ''j''" by code_simp
  ultimately show ?thesis using fanoutNearestCommonJoin_iff [of ?ds "''j''"] by blast
qed

theorem ResolveFanoutJoin_sound_sample:
  "\<exists>res. ResolveFanoutJoin sample_def [''x'', ''y''] = Some res \<and> Kind (fjr_Join res) = NodeKindJoin"
proof -
  have "ResolveFanoutJoin sample_def [''x'', ''y''] \<noteq> None" by code_simp
  then obtain res where r: "ResolveFanoutJoin sample_def [''x'', ''y''] = Some res" by blast
  moreover have "\<forall>k \<in> set [''x'', ''y'']. TrimSpace k = k" by simp
  ultimately show ?thesis using ResolveFanoutJoin_sound [OF r] by blast
qed


section \<open>Session reuse\<close>

definition sample_reference :: CurrentNodeReference where
  "sample_reference = \<lparr>cnr_TaskID = ''k'', cnr_NodeID = ''p'', cnr_transitionBranchKey = None\<rparr>"

definition sample_input :: "unit SessionReuseAnalysisInput" where
  "sample_input =
     \<lparr>in_Workflow = sample_def, in_AcceptedBranches = [sample_edge ''x'' ''f'' ''a'', sample_edge ''y'' ''f'' ''b''],
      in_CompletedCurrentNode = zero_current_node\<lparr>cn_Reference := sample_reference, cn_SessionID := Some 7\<rparr>,
      in_RetainedAssociations = []\<rparr>"

theorem buildGraph_closed_sample:
  "\<exists>graph invalid'. buildGraph (newSessionReuseAnalyzer sample_input 7) [] (accepted_transitions sample_input 7) = Some (graph, invalid')"
proof -
  have "\<forall>t \<in> set (accepted_transitions sample_input 7). distinct (mkeys (rs_overwritten (rt_target t)))" by code_simp
  from buildGraph_closed [OF this, of "newSessionReuseAnalyzer sample_input 7" "[]"] show ?thesis by blast
qed


theorem SessionReuseAssociationReferences_ok_sample:
  "\<exists>refs. SessionReuseAssociationReferences sample_input = Some refs \<and> distinct refs"
  using SessionReuseAssociationReferences_ok [of sample_input] by blast

text \<open>A retained-target edge straight from the start node has no exact source.\<close>

definition retained_edge :: Edge where
  "retained_edge = (sample_edge ''e'' ''g'' ''p'')\<lparr>e_ContextMode := ContextModeContinueSession,
     e_ContextSource := \<lparr>cs_Kind = ContextSourcePreviousTarget, cs_NodeKey = ''''\<rparr>\<rparr>"

definition retained_def :: Definition where
  "retained_def = sample_def\<lparr>d_Edges := retained_edge # tl (d_Edges sample_def)\<rparr>"


section \<open>Agents\<close>

definition sample_role :: "string \<Rightarrow> TargetAgentRole" where
  "sample_role name =
     \<lparr>tr_Identity = name, tr_QuestionsEnabled = True, tr_ExplicitAgentCallable = True, tr_Model = ''m'',
      tr_ConfiguredThinking = ''low'',
      tr_Thinking = \<lparr>tc_ReasoningCapable = True, tc_Finite = True, tc_Levels = [''low'', ''high'']\<rparr>\<rparr>"

definition sample_resolver :: RoleResolver where
  "sample_resolver = \<lparr>ResolveConfiguredRole = (\<lambda>name. if name = ''coder'' then Some (sample_role name) else None),
     ExplicitCallableRoles = [sample_role ''coder'', sample_role ''tester'']\<rparr>"

definition thinking_request :: TargetAgentThinkingSelectionRequest where
  "thinking_request = \<lparr>ttr_OverrideEnabled = True, ttr_TargetRole = sample_role ''coder'', ttr_EligibleRoles = [],
     ttr_SubmittedValue = ''high'', ttr_AuthoredDescription = ''''\<rparr>"

theorem PlanTargetAgentThinkingSelection_supported_sample:
  "\<exists>selection. PlanTargetAgentThinkingSelection thinking_request = Inr selection \<and> tts_Value selection = ''high''"
proof -
  let ?s = "\<lparr>tts_Value = ''high'', tts_Exposed = True, tts_SubmittedValueIgnored = False\<rparr>"
  have "PlanTargetAgentThinkingSelection thinking_request = Inr ?s" by code_simp
  with PlanTargetAgentThinkingSelection_supported [OF this] show ?thesis by simp
qed

definition role_request :: TargetAgentSelectionRequest where
  "role_request = \<lparr>tsr_FallbackRole = ''coder'', tsr_OverrideEnabled = True, tsr_SubmittedRole = ''tester''\<rparr>"

theorem PlanTargetAgentSelection_eligible_sample:
  "\<exists>selection. PlanTargetAgentSelection (Some sample_resolver) role_request = Inr selection \<and>
     tr_Identity (tas_Role selection) = ''tester'' \<and> tas_QuestionsRequired selection"
proof -
  let ?s = "\<lparr>tas_Role = canonicalTargetAgentRole (sample_role ''tester''), tas_QuestionsRequired = True,
    tas_SubmittedRoleIgnored = False\<rparr>"
  have s: "PlanTargetAgentSelection (Some sample_resolver) role_request = Inr ?s" by code_simp
  have "tr_Identity (canonicalTargetAgentRole (sample_role ''tester'')) = ''tester''" by code_simp
  with s PlanTargetAgentSelection_eligible [OF s] show ?thesis by (simp add: role_request_def)
qed

definition retained_selection :: AgentExecutionSelection where
  "retained_selection = \<lparr>aes_Assignee = ''coder'', aes_Thinking = None, aes_Origin = AssigneeOriginConfiguredFallback\<rparr>"

definition execution_request :: TargetAgentExecutionSelectionRequest where
  "execution_request = \<lparr>ter_Edge = sample_edge ''e'' ''g'' ''p'', ter_FallbackRole = ''coder'',
     ter_Catalog = Some sample_resolver, ter_SubmittedRole = '''', ter_SubmittedThinking = '''',
     ter_ThinkingDescription = '''', ter_RetainedSession = Some retained_selection\<rparr>"

theorem planTargetAgentExecutionSelection_valid_sample:
  "\<exists>selection. PlanTargetAgentExecutionSelection execution_request = Inr selection \<and>
     aes_Assignee selection = ''coder'' \<and> aes_Origin selection = AssigneeOriginRetainedSession"
proof -
  have "\<not> Option.is_none (case PlanTargetAgentExecutionSelection execution_request of Inl _ \<Rightarrow> None | Inr s \<Rightarrow> Some s)"
    by code_simp
  then obtain selection where s: "PlanTargetAgentExecutionSelection execution_request = Inr selection"
    by (cases "PlanTargetAgentExecutionSelection execution_request") simp_all
  with planTargetAgentExecutionSelection_valid [OF s] show ?thesis
    by (simp add: execution_request_def retained_selection_def)
qed

definition choosing_edge :: Edge where
  "choosing_edge = (sample_edge ''e'' ''g'' ''p'')\<lparr>e_AssigneeSelection := AssigneeSelectionPreviousNode,
     e_ThinkingSelection := ThinkingSelectionPreviousNode,
     e_Parameters := [\<lparr>p_Key = ''q'', p_Description = ''d'', p_Purpose = ParameterPurposeOrdinary\<rparr>]\<rparr>"

definition sample_contract_request :: TransitionParameterContractRequest where
  "sample_contract_request = contract_request choosing_edge NodeKindAgent NodeKindAgent ''coder'' False (Some sample_resolver)"

theorem planTransitionParameterContract_parameters_sample:
  "\<exists>contract. planTransitionParameterContract sample_contract_request = Inr contract \<and>
     map (\<lambda>p. (p_Key p, p_Purpose p)) (tpc_Parameters contract) = [(''q'', ParameterPurposeOrdinary)]"
proof -
  have "\<not> Option.is_none (case planTransitionParameterContract sample_contract_request of Inl _ \<Rightarrow> None | Inr s \<Rightarrow> Some s)"
    by code_simp
  then obtain contract where c: "planTransitionParameterContract sample_contract_request = Inr contract"
    by (cases "planTransitionParameterContract sample_contract_request") simp_all
  have "map (\<lambda>p. (p_Key p, p_Purpose p))
      (filter (\<lambda>p. purpose_policy (PlanTransitionProtectedParameterConsumption sample_contract_request) p =
                   ProtectedParameterConsumptionRequiredValidate) (e_Parameters (tpr_Edge sample_contract_request)))
    = [(''q'', ParameterPurposeOrdinary)]"
    by code_simp
  with planTransitionParameterContract_parameters [OF c, THEN conjunct2, THEN conjunct2] c show ?thesis by auto
qed

theorem applicability_matches_contract_sample:
  "sa_ParameterVisible (esa_Assignee (tsp_Applicability (fst (PlanTransitionSelection sample_contract_request)))) \<and>
   ppc_Assignee (PlanTransitionProtectedParameterConsumption sample_contract_request) = ProtectedParameterConsumptionRequiredValidate"
proof -
  have hyps: "tpr_RetainedTargetRole sample_contract_request = None"
      "tpr_TargetSessionPolicy sample_contract_request \<noteq> AssigneeSessionPolicyPreserve"
      "TrimSpace (tpr_TargetRole sample_contract_request) = tpr_TargetRole sample_contract_request"
      "CanonicalAssigneeSelection (e_AssigneeSelection (tpr_Edge sample_contract_request)) = AssigneeSelectionPreviousNode"
      "CanonicalThinkingSelection (e_ThinkingSelection (tpr_Edge sample_contract_request)) = ThinkingSelectionPreviousNode"
    by code_simp+
  have "ppc_Assignee (PlanTransitionProtectedParameterConsumption sample_contract_request) =
      ProtectedParameterConsumptionRequiredValidate" by code_simp
  with applicability_matches_contract [OF hyps] show ?thesis by blast
qed


section \<open>Prompts, wiring and current nodes\<close>

definition sample_roots :: "TemplateNode list" where
  "sample_roots = [ListNode [ActionNode (PipeNode [CommandNode [FieldNode [''Params'', ''x'']]]), OtherNode]]"

theorem ExtractPromptTemplateReferences_complete_sample:
  "\<exists>refs. ExtractPromptTemplateReferences (\<lambda>_. Inr sample_roots) ''p'' = Some (Inr refs) \<and>
     ptr_Params refs = [\<lparr>ppr_Name = ''x'', ppr_Placeholder = ''.Params.x''\<rparr>]"
proof -
  let ?parse = "\<lambda>_. Inr sample_roots"
  have "(case ExtractPromptTemplateReferences ?parse ''p'' of Some (Inr _) \<Rightarrow> True | _ \<Rightarrow> False)" by code_simp
  then obtain refs where r: "ExtractPromptTemplateReferences ?parse ''p'' = Some (Inr refs)"
    by (auto split: option.splits sum.splits)
  have "List.map_filter param_reference (field_idents_list sample_roots) = [\<lparr>ppr_Name = ''x'', ppr_Placeholder = ''.Params.x''\<rparr>]"
    by code_simp
  with r ExtractPromptTemplateReferences_complete [of ?parse "''p''" sample_roots refs] show ?thesis by simp
qed

theorem ExtractPromptTemplateReferences_panics_sample:
  "ExtractPromptTemplateReferences (\<lambda>_. Inr [ActionNode (TemplateCallNode None)]) ''p'' = None"
  using ExtractPromptTemplateReferences_panics
    [of "\<lambda>_. Inr [ActionNode (TemplateCallNode None)]" "''p''" "[ActionNode (TemplateCallNode None)]"] by simp

theorem ResolvePromptSessionNodeScope_branch_sample:
  "pss_BranchKey (ResolvePromptSessionNodeScope sample_def ''a'' ''a'' None) = Some ''x'' \<and> ''x'' \<noteq> ''''"
proof -
  have b: "pss_BranchKey (ResolvePromptSessionNodeScope sample_def ''a'' ''a'' None) = Some ''x''" by code_simp
  from ResolvePromptSessionNodeScope_branch [OF b] b show ?thesis by blast
qed

abbreviation field_a :: OutputField where
  "field_a \<equiv> \<lparr>of_Name = ''a'', of_Description = ''d''\<rparr>"

abbreviation field_b :: OutputField where
  "field_b \<equiv> \<lparr>of_Name = '' b'', of_Description = ''d''\<rparr>"

theorem appendCompatibleOutputFields_spec_sample:
  "merged_fields (fst (appendCompatibleOutputFields [field_a] [field_b] zero_error))"
proof -
  have "merged_fields [field_a]" by code_simp
  from appendCompatibleOutputFields_spec [OF this, of "[field_b]" zero_error] show ?thesis
    by (cases "appendCompatibleOutputFields [field_a] [field_b] zero_error") auto
qed

abbreviation sample_refs :: "(EdgeID, PromptPriorParameterReference list) gomap" where
  "sample_refs \<equiv> [(''w'', [\<lparr>ppp_TransitionKey = ''g'', ppp_ParameterKey = ''q'', ppp_Placeholder = ''z''\<rparr>])]"

theorem priorParameterRequirements_guaranteed_sample:
  "\<exists>g provider. g \<in> set (d_TransitionGroups sample_def) \<and> TrimSpace (tg_TransitionID g) = ''g'' \<and>
     map_of (wiring_nodes sample_def) (tg_SourceNodeID g) = Some provider \<and> NodeKey provider = ''s''"
proof -
  let ?r = "\<lparr>ptp_ProviderNode = ''s'', ptp_TransitionKey = ''g'', ptp_ParameterName = ''q''\<rparr>"
  have "?r \<in> set (mget_list (priorParameterRequirementsByNode (deriveWiring sample_def None sample_refs)) ''t'')" by code_simp
  from priorParameterRequirements_guaranteed [OF this] show ?thesis by auto
qed

theorem CurrentNodeReference_Key_identity_sample:
  "CurrentNodeReference_Key sample_reference = CurrentNodeReference_Key sample_reference \<and>
   CurrentNodeReference_Equal sample_reference sample_reference"
proof -
  have "CurrentNodeReference_Validate sample_reference = None" by code_simp
  from CurrentNodeReference_Key_identity [OF this this] show ?thesis by blast
qed

end
