(* ===== verification/Wf_Validation_Examples.thy ===== *)
theory Wf_Validation_Examples
  imports Wf_Examples Wf_Validation_Draft
begin

text \<open>
  A workflow that validation accepts for execution, with a fan-out and a prompt that reads a
  parameter of an earlier transition, and the properties of validation applied to it.
\<close>

definition valid_edge :: "string \<Rightarrow> string \<Rightarrow> string \<Rightarrow> string \<Rightarrow> string list \<Rightarrow> Edge" where
  "valid_edge name tgroup target prompt params =
     (sample_edge name tgroup target)\<lparr>e_AssigneeSelection := AssigneeSelectionConfigured,
        e_ThinkingSelection := ThinkingSelectionConfigured, e_PromptTemplate := prompt,
        e_Parameters := map (\<lambda>key. \<lparr>p_Key = key, p_Description = ''d'', p_Purpose = ParameterPurposeOrdinary\<rparr>) params\<rparr>"

definition valid_def :: Definition where
  "valid_def =
     \<lparr>d_ID = 1, d_DisplayName = ''w'', d_ExecutionTargetPolicy = DefaultExecutionTargetPolicy, d_NodeGroups = [],
      d_Nodes = [StartNode (sample_identity ''s''), AgentNode (sample_identity ''p'') ''coder'' '''',
        AgentNode (sample_identity ''o'') ''coder'' '''',
        AgentNode (sample_identity ''a'') ''coder'' '''', AgentNode (sample_identity ''b'') ''coder'' '''',
        JoinNode (sample_identity ''j'') [], TerminalNode (sample_identity ''t'')],
      d_TransitionGroups = [sample_group ''g'' ''s'', sample_group ''q'' ''p'', sample_group ''f'' ''o'', sample_group ''h'' ''a'',
        sample_group ''i'' ''b'', sample_group ''k'' ''j''],
      d_Edges = [valid_edge ''e'' ''g'' ''p'' ''go'' [], valid_edge ''z'' ''q'' ''o'' ''go'' [''plan''],
        valid_edge ''x'' ''f'' ''a'' ''left'' [], valid_edge ''y'' ''f'' ''b'' ''right'' [],
        valid_edge ''u'' ''h'' ''j'' '''' [], valid_edge ''v'' ''i'' ''j'' '''' [], valid_edge ''w'' ''k'' ''t'' '''' []]\<rparr>"

definition valid_parse :: template_parser where
  "valid_parse source =
     (if source = ''left'' then Inr [ActionNode (PipeNode [CommandNode [FieldNode [''Params'', ''q'', ''plan'']]])] else Inr [])"

definition valid_role :: "string \<Rightarrow> TargetAgentRole option" where
  "valid_role name =
     (if name = ''coder''
      then Some \<lparr>tr_Identity = name, tr_QuestionsEnabled = True, tr_ExplicitAgentCallable = False, tr_Model = ''m'',
             tr_ConfiguredThinking = '''', tr_Thinking = \<lparr>tc_ReasoningCapable = False, tc_Finite = False, tc_Levels = []\<rparr>\<rparr>
      else None)"

definition valid_opts :: ValidationOptions where
  "valid_opts =
     \<lparr>vo_Context = ValidationContextExecution,
      vo_RoleResolver = Some \<lparr>ResolveConfiguredRole = valid_role, ExplicitCallableRoles = []\<rparr>, vo_ExecutionNodes = None\<rparr>"


lemma valid_result:
  "ValidateDefinition valid_parse valid_def valid_opts = Some \<lparr>vr_Context = ValidationContextExecution, vr_Errors = []\<rparr>"
  by code_simp

lemma valid_accepted:
  "\<not> HasBlockingErrors \<lparr>vr_Context = ValidationContextExecution, vr_Errors = []\<rparr>"
  "vr_Context \<lparr>vr_Context = ValidationContextExecution, vr_Errors = []\<rparr> \<noteq> ValidationContextDraft"
  by (simp_all add: HasBlockingErrors_def)


theorem ValidateDefinition_graph_sample: "workflow_graph valid_def"
  by (rule ValidateDefinition_graph [OF valid_result valid_accepted])


theorem ValidateDefinition_prompts_sample:
  "\<exists>start consumer g derived. filter (\<lambda>n. Kind n = NodeKindStart) (d_Nodes valid_def) = [start] \<and>
     consumer \<in> set (d_TransitionGroups valid_def) \<and> tg_ID consumer = ''f'' \<and>
     g \<in> set (d_TransitionGroups valid_def) \<and> TrimSpace (tg_TransitionID g) = ''q'' \<and>
     (\<forall>es. walk (outgoing valid_def) (NodeIDOf start) es (tg_SourceNodeID consumer) \<longrightarrow>
        (\<exists>x \<in> set es. e_TransitionGroupID x = tg_ID g)) \<and>
     DeriveWiringWithCatalog valid_parse valid_def (vo_RoleResolver valid_opts) = Some derived \<and>
     (''plan'' = RuntimePromptParameterCommentary \<or> group_provides valid_def derived g ''plan'')"
proof -
  let ?e = "valid_edge ''x'' ''f'' ''a'' ''left'' []"
  let ?p = "\<lparr>ppp_TransitionKey = ''q'', ppp_ParameterKey = ''plan'', ppp_Placeholder = ''.Params.q.plan''\<rparr>"
  let ?refs = "no_references\<lparr>ptr_PriorParams := [?p]\<rparr>"
  have e: "?e \<in> set (d_Edges valid_def)" by (simp add: valid_def_def)
  have refs: "ExtractPromptTemplateReferences valid_parse (e_PromptTemplate ?e) = Some (Inr ?refs)" by code_simp
  have p: "?p \<in> set (ptr_PriorParams ?refs)" by simp
  have keys: "TrimSpace (ppp_ParameterKey ?p) \<noteq> RuntimePromptParameterSessionID" "TrimSpace ''q'' = ''q''" "TrimSpace ''plan'' = ''plan''"
    by code_simp+
  have eg: "e_TransitionGroupID ?e = ''f''" by (simp add: valid_edge_def sample_edge_def)
  show ?thesis
    using ValidateDefinition_prompts [OF valid_result valid_accepted(1) e refs p keys(1)]
    unfolding eg PromptPriorParameterReference.select_convs keys(2,3) .
qed

theorem ValidateDefinition_returns_sample: "\<exists>r. ValidateDefinition valid_parse valid_def valid_opts = Some r"
proof (rule ValidateDefinition_returns)
  show "\<forall>n \<in> set (d_Nodes valid_def). \<not> blank (NodeIDOf n)" by code_simp
  show "\<forall>e \<in> set (d_Edges valid_def). ExtractPromptTemplateReferences valid_parse (e_PromptTemplate e) \<noteq> None"
    by code_simp
qed

theorem ValidateDefinition_draft_sample:
  "\<exists>r. ValidateDefinition valid_parse valid_def (valid_opts\<lparr>vo_Context := ValidationContextDraft\<rparr>) = Some r \<and>
     \<not> HasBlockingErrors r"
  by (rule ValidateDefinition_draft [OF valid_result valid_accepted(1)])

end
