(* ===== verification/Adm_Queue.thy ===== *)
theory Adm_Queue
  imports Wf_Current
begin

text \<open>
  The queue of automatic starts: \<open>server/workflowexecution/current_node_automatic_queue.go\<close>, and
  the types of \<open>current_node_admission.go\<close> it stores.

  Every entry is a member of three doubly linked lists: all entries, the entries of its policy
  (agent or script), and the entries of its task and policy. Entries are Go pointers, so the
  model has a store: a list of entries that only grows, a pointer being an index into it. The
  fields \<open>first\<close> and \<open>last\<close> of the queue itself are a lane state. A task queue is reached
  through the task map only and is stored in it by value. A panic is \<open>None\<close>.
\<close>

section \<open>Starts\<close>

datatype currentNodeAdmissionPolicy =
    currentNodeAdmissionExplicitOverride
  | currentNodeAdmissionAutomaticAgent
  | currentNodeAdmissionAutomaticScript

definition isAutomatic :: "currentNodeAdmissionPolicy \<Rightarrow> bool" where
  "isAutomatic p \<longleftrightarrow> p = currentNodeAdmissionAutomaticAgent \<or> p = currentNodeAdmissionAutomaticScript"

definition countsAgentCapacity :: "currentNodeAdmissionPolicy \<Rightarrow> bool" where
  "countsAgentCapacity p \<longleftrightarrow> p = currentNodeAdmissionAutomaticAgent"

datatype TaskPromptDelivery = TaskPromptDeliveryAssignment | TaskPromptDeliveryResume

text \<open>
  The assignment steer, the completion and the capacity lease are pointers; a number is the
  identity of what they point to.
\<close>

record currentNodeQueuedStart =
  qs_reference :: CurrentNodeReference
  qs_nodeKind :: NodeKind
  qs_taskPromptDelivery :: TaskPromptDelivery
  qs_assignmentSteer :: "nat option"
  qs_policy :: currentNodeAdmissionPolicy
  qs_completion :: "nat option"
  qs_agentCapacityLease :: "nat option"
  qs_scheduling :: CurrentNodeSchedulingState

abbreviation start_task :: "currentNodeQueuedStart \<Rightarrow> TaskID" where
  "start_task s \<equiv> cnr_TaskID (qs_reference s)"

section \<open>Entries and lanes\<close>

type_synonym entry_ptr = nat

record currentNodeAutomaticQueueEntry =
  qe_start :: currentNodeQueuedStart
  qe_order :: "64 word"
  qe_globalPrev :: "entry_ptr option"
  qe_globalNext :: "entry_ptr option"
  qe_policyPrev :: "entry_ptr option"
  qe_policyNext :: "entry_ptr option"
  qe_taskPrev :: "entry_ptr option"
  qe_taskNext :: "entry_ptr option"

type_synonym entry_store = "currentNodeAutomaticQueueEntry list"

datatype queue_link = GlobalLink | PolicyLink | TaskLink

fun link_prev :: "queue_link \<Rightarrow> currentNodeAutomaticQueueEntry \<Rightarrow> entry_ptr option" where
  "link_prev GlobalLink e = qe_globalPrev e"
| "link_prev PolicyLink e = qe_policyPrev e"
| "link_prev TaskLink e = qe_taskPrev e"

fun link_next :: "queue_link \<Rightarrow> currentNodeAutomaticQueueEntry \<Rightarrow> entry_ptr option" where
  "link_next GlobalLink e = qe_globalNext e"
| "link_next PolicyLink e = qe_policyNext e"
| "link_next TaskLink e = qe_taskNext e"

fun set_prev :: "queue_link \<Rightarrow> entry_ptr option \<Rightarrow> currentNodeAutomaticQueueEntry \<Rightarrow> currentNodeAutomaticQueueEntry" where
  "set_prev GlobalLink v e = e\<lparr>qe_globalPrev := v\<rparr>"
| "set_prev PolicyLink v e = e\<lparr>qe_policyPrev := v\<rparr>"
| "set_prev TaskLink v e = e\<lparr>qe_taskPrev := v\<rparr>"

fun set_next :: "queue_link \<Rightarrow> entry_ptr option \<Rightarrow> currentNodeAutomaticQueueEntry \<Rightarrow> currentNodeAutomaticQueueEntry" where
  "set_next GlobalLink v e = e\<lparr>qe_globalNext := v\<rparr>"
| "set_next PolicyLink v e = e\<lparr>qe_policyNext := v\<rparr>"
| "set_next TaskLink v e = e\<lparr>qe_taskNext := v\<rparr>"

record currentNodeAutomaticQueueLaneState =
  ls_first :: "entry_ptr option"
  ls_last :: "entry_ptr option"

datatype currentNodeAutomaticQueueLane = currentNodeAutomaticAgentLane | currentNodeAutomaticScriptLane

record currentNodeAutomaticQueueLanes =
  lanes_agent :: currentNodeAutomaticQueueLaneState
  lanes_script :: currentNodeAutomaticQueueLaneState

record currentNodeAutomaticQueue =
  q_entries :: entry_store
  q_all :: currentNodeAutomaticQueueLaneState
  q_lanes :: currentNodeAutomaticQueueLanes
  q_tasks :: "(TaskID, currentNodeAutomaticQueueLanes) gomap"
  q_nextOrder :: "64 word"
  q_size :: int

definition empty_lane :: currentNodeAutomaticQueueLaneState where
  "empty_lane = \<lparr>ls_first = None, ls_last = None\<rparr>"

definition empty_lanes :: currentNodeAutomaticQueueLanes where
  "empty_lanes = \<lparr>lanes_agent = empty_lane, lanes_script = empty_lane\<rparr>"

definition currentNodeAutomaticQueueLaneForPolicy ::
  "currentNodeAdmissionPolicy \<Rightarrow> currentNodeAutomaticQueueLane option" where
  "currentNodeAutomaticQueueLaneForPolicy policy =
     (case policy of
        currentNodeAdmissionAutomaticAgent \<Rightarrow> Some currentNodeAutomaticAgentLane
      | currentNodeAdmissionAutomaticScript \<Rightarrow> Some currentNodeAutomaticScriptLane
      | currentNodeAdmissionExplicitOverride \<Rightarrow> None)"

fun lane_at :: "currentNodeAutomaticQueueLane \<Rightarrow> currentNodeAutomaticQueueLanes \<Rightarrow> currentNodeAutomaticQueueLaneState" where
  "lane_at currentNodeAutomaticAgentLane lanes = lanes_agent lanes"
| "lane_at currentNodeAutomaticScriptLane lanes = lanes_script lanes"

fun set_lane ::
  "currentNodeAutomaticQueueLane \<Rightarrow> currentNodeAutomaticQueueLaneState \<Rightarrow> currentNodeAutomaticQueueLanes \<Rightarrow> currentNodeAutomaticQueueLanes" where
  "set_lane currentNodeAutomaticAgentLane st lanes = lanes\<lparr>lanes_agent := st\<rparr>"
| "set_lane currentNodeAutomaticScriptLane st lanes = lanes\<lparr>lanes_script := st\<rparr>"

section \<open>Operations\<close>

definition update_entry ::
  "entry_ptr \<Rightarrow> (currentNodeAutomaticQueueEntry \<Rightarrow> currentNodeAutomaticQueueEntry) \<Rightarrow> entry_store \<Rightarrow> entry_store" where
  "update_entry p f store = store[p := f (store ! p)]"

definition link_last ::
  "queue_link \<Rightarrow> entry_ptr \<Rightarrow> entry_store \<times> currentNodeAutomaticQueueLaneState \<Rightarrow> entry_store \<times> currentNodeAutomaticQueueLaneState" where
  "link_last k p = (\<lambda>(store, lane).
     let store1 = update_entry p (set_prev k (ls_last lane)) store in
     case ls_last lane of
       None \<Rightarrow> (store1, lane\<lparr>ls_first := Some p, ls_last := Some p\<rparr>)
     | Some l \<Rightarrow> (update_entry l (set_next k (Some p)) store1, lane\<lparr>ls_last := Some p\<rparr>))"

definition unlink ::
  "queue_link \<Rightarrow> entry_ptr \<Rightarrow> entry_store \<times> currentNodeAutomaticQueueLaneState \<Rightarrow> entry_store \<times> currentNodeAutomaticQueueLaneState" where
  "unlink k p = (\<lambda>(store, lane).
     let (store1, lane1) =
       (case link_prev k (store ! p) of
          None \<Rightarrow> (store, lane\<lparr>ls_first := link_next k (store ! p)\<rparr>)
        | Some a \<Rightarrow> (update_entry a (set_next k (link_next k (store ! p))) store, lane))
     in case link_next k (store1 ! p) of
          None \<Rightarrow> (store1, lane1\<lparr>ls_last := link_prev k (store1 ! p)\<rparr>)
        | Some b \<Rightarrow> (update_entry b (set_prev k (link_prev k (store1 ! p))) store1, lane1))"

definition new_entry :: "currentNodeQueuedStart \<Rightarrow> 64 word \<Rightarrow> currentNodeAutomaticQueueEntry" where
  "new_entry start order =
     \<lparr>qe_start = start, qe_order = order, qe_globalPrev = None, qe_globalNext = None,
      qe_policyPrev = None, qe_policyNext = None, qe_taskPrev = None, qe_taskNext = None\<rparr>"

definition queue_append :: "currentNodeQueuedStart \<Rightarrow> currentNodeAutomaticQueue \<Rightarrow> currentNodeAutomaticQueue option" where
  "queue_append start q =
     (let order = q_nextOrder q + 1 in
      if order = 0 then None
      else
        let p = length (q_entries q);
            (store1, all1) = link_last GlobalLink p (q_entries q @ [new_entry start order], q_all q);
            taskQueue = (case map_of (q_tasks q) (start_task start) of None \<Rightarrow> empty_lanes | Some tq \<Rightarrow> tq)
        in case currentNodeAutomaticQueueLaneForPolicy (qs_policy start) of
             None \<Rightarrow> None
           | Some l \<Rightarrow>
               let (store2, policyLane) = link_last PolicyLink p (store1, lane_at l (q_lanes q));
                   (store3, taskLane) = link_last TaskLink p (store2, lane_at l taskQueue)
               in Some \<lparr>q_entries = store3, q_all = all1, q_lanes = set_lane l policyLane (q_lanes q),
                        q_tasks = AList.update (start_task start) (set_lane l taskLane taskQueue) (q_tasks q),
                        q_nextOrder = order, q_size = q_size q + 1\<rparr>)"

definition queue_remove ::
  "entry_ptr \<Rightarrow> currentNodeAutomaticQueue \<Rightarrow> (currentNodeAutomaticQueue \<times> currentNodeQueuedStart) option" where
  "queue_remove p q =
     (let start = qe_start (q_entries q ! p);
          (store1, all1) = unlink GlobalLink p (q_entries q, q_all q)
      in case map_of (q_tasks q) (start_task start) of
           None \<Rightarrow> None
         | Some taskQueue \<Rightarrow>
            (case currentNodeAutomaticQueueLaneForPolicy (qs_policy start) of
               None \<Rightarrow> None
             | Some l \<Rightarrow>
                 let (store2, policyLane) = unlink PolicyLink p (store1, lane_at l (q_lanes q));
                     (store3, taskLane) = unlink TaskLink p (store2, lane_at l taskQueue);
                     taskQueue' = set_lane l taskLane taskQueue
                 in Some (q\<lparr>q_entries := store3, q_all := all1, q_lanes := set_lane l policyLane (q_lanes q),
                            q_tasks := (if ls_first (lanes_agent taskQueue') = None \<and> ls_first (lanes_script taskQueue') = None
                                        then AList.delete (start_task start) (q_tasks q)
                                        else AList.update (start_task start) taskQueue' (q_tasks q)),
                            q_size := q_size q - 1\<rparr>, start)))"

text \<open>The loops over the queue follow the global links; that they end is proved below.\<close>

partial_function (option) queue_walk :: "entry_store \<Rightarrow> entry_ptr option \<Rightarrow> currentNodeQueuedStart list option" where
  "queue_walk store entry =
     (case entry of
        None \<Rightarrow> Some []
      | Some p \<Rightarrow> Option.bind (queue_walk store (qe_globalNext (store ! p))) (\<lambda>starts. Some (qe_start (store ! p) # starts)))"

definition queue_starts :: "currentNodeAutomaticQueue \<Rightarrow> currentNodeQueuedStart list option" where
  "queue_starts q = queue_walk (q_entries q) (ls_first (q_all q))"

partial_function (option) remove_task_loop ::
  "TaskID \<Rightarrow> entry_ptr option \<Rightarrow> currentNodeAutomaticQueue \<Rightarrow> currentNodeQueuedStart list
   \<Rightarrow> (currentNodeAutomaticQueue \<times> currentNodeQueuedStart list) option" where
  "remove_task_loop taskID entry q starts =
     (case entry of
        None \<Rightarrow> Some (q, starts)
      | Some p \<Rightarrow>
          if start_task (qe_start (q_entries q ! p)) = taskID
          then Option.bind (queue_remove p q) (\<lambda>(q', start).
                 remove_task_loop taskID (qe_globalNext (q_entries q ! p)) q' (starts @ [start]))
          else remove_task_loop taskID (qe_globalNext (q_entries q ! p)) q starts)"

definition queue_removeTask ::
  "TaskID \<Rightarrow> currentNodeAutomaticQueue \<Rightarrow> (currentNodeAutomaticQueue \<times> currentNodeQueuedStart list) option" where
  "queue_removeTask taskID q =
     (if map_of (q_tasks q) taskID = None then Some (q, [])
      else remove_task_loop taskID (ls_first (q_all q)) q [])"

definition queue_clear :: "currentNodeAutomaticQueue \<Rightarrow> currentNodeAutomaticQueue" where
  "queue_clear q = q\<lparr>q_all := empty_lane, q_lanes := empty_lanes, q_tasks := [], q_nextOrder := 0, q_size := 0\<rparr>"

definition queue_len :: "currentNodeAutomaticQueue \<Rightarrow> int" where
  "queue_len q = q_size q"

definition new_queue :: currentNodeAutomaticQueue where
  "new_queue = \<lparr>q_entries = [], q_all = empty_lane, q_lanes = empty_lanes, q_tasks = [], q_nextOrder = 0, q_size = 0\<rparr>"

definition earlier :: "entry_store \<Rightarrow> entry_ptr option \<Rightarrow> entry_ptr option \<Rightarrow> entry_ptr option" where
  "earlier store script agent =
     (case agent of
        None \<Rightarrow> script
      | Some a \<Rightarrow> (case script of
                     None \<Rightarrow> agent
                   | Some s \<Rightarrow> if qe_order (store ! a) < qe_order (store ! s) then agent else script))"

definition lane_candidate :: "bool \<Rightarrow> entry_store \<Rightarrow> currentNodeAutomaticQueueLanes \<Rightarrow> entry_ptr option" where
  "lane_candidate agentAvailable store lanes =
     (let script = ls_first (lanes_script lanes) in
      if agentAvailable then earlier store script (ls_first (lanes_agent lanes)) else script)"

definition queue_selectEntry :: "TaskID option \<Rightarrow> bool \<Rightarrow> currentNodeAutomaticQueue \<Rightarrow> entry_ptr option" where
  "queue_selectEntry lastTask agentAvailable q =
     (case Option.bind (Option.bind lastTask (map_of (q_tasks q))) (lane_candidate agentAvailable (q_entries q)) of
        Some candidate \<Rightarrow> Some candidate
      | None \<Rightarrow> lane_candidate agentAvailable (q_entries q) (q_lanes q))"

end
