(* ===== verification/Adm_Queue_Props.thy ===== *)
theory Adm_Queue_Props
  imports Adm_Queue
begin

text \<open>
  The linked automatic queue implements a list of starts. \<open>queue_repr q ps\<close> says that \<open>ps\<close>
  are the entries of \<open>q\<close> in order and that all three families of links, the task map, the orders
  and the size agree with \<open>ps\<close>. Each operation is proved against it; the locale
  \<open>start_queue\<close> states what the controller relies on, and the queue is its interpretation.
\<close>

section \<open>Doubly linked lists in the store\<close>

definition first_of :: "'a list \<Rightarrow> 'a option" where
  "first_of xs = (case xs of [] \<Rightarrow> None | x # _ \<Rightarrow> Some x)"

definition last_of :: "'a list \<Rightarrow> 'a option" where
  "last_of xs = (if xs = [] then None else Some (last xs))"

lemma first_of_simps [simp]:
  "first_of [] = None" "first_of (x # xs) = Some x" "first_of (xs @ ys) = (if xs = [] then first_of ys else first_of xs)"
  by (simp_all add: first_of_def split: list.split)

lemma last_of_simps [simp]:
  "last_of [] = None" "last_of (x # xs) = (if xs = [] then Some x else last_of xs)"
  "last_of (xs @ ys) = (if ys = [] then last_of xs else last_of ys)"
  by (simp_all add: last_of_def)

lemma first_of_None [simp]: "first_of xs = None \<longleftrightarrow> xs = []"
  by (simp add: first_of_def split: list.split)

lemma last_of_None [simp]: "last_of xs = None \<longleftrightarrow> xs = []"
  by (simp add: last_of_def)

lemma first_of_in: "first_of xs = Some x \<Longrightarrow> x \<in> set xs"
  by (cases xs) simp_all

lemma last_of_in: "last_of xs = Some x \<Longrightarrow> x \<in> set xs"
  by (cases xs rule: rev_cases) simp_all

lemma link_set [simp]:
  "link_next k (set_next k' v e) = (if k = k' then v else link_next k e)"
  "link_prev k (set_prev k' v e) = (if k = k' then v else link_prev k e)"
  "link_next k (set_prev k' v e) = link_next k e" "link_prev k (set_next k' v e) = link_prev k e"
  "qe_start (set_next k' v e) = qe_start e" "qe_start (set_prev k' v e) = qe_start e"
  "qe_order (set_next k' v e) = qe_order e" "qe_order (set_prev k' v e) = qe_order e"
  by (cases k; cases k'; simp)+

lemma length_update_entry [simp]: "length (update_entry p f h) = length h"
  by (simp add: update_entry_def)

lemma nth_update_entry: "x < length h \<Longrightarrow> update_entry p f h ! x = (if x = p then f (h ! p) else h ! x)"
  by (simp add: update_entry_def)

fun dlist :: "queue_link \<Rightarrow> entry_store \<Rightarrow> entry_ptr option \<Rightarrow> entry_ptr list \<Rightarrow> bool" where
  "dlist k h p [] = True"
| "dlist k h p (x # xs) = (link_prev k (h ! x) = p \<and> link_next k (h ! x) = first_of xs \<and> dlist k h (Some x) xs)"

definition lane_repr :: "queue_link \<Rightarrow> entry_store \<Rightarrow> currentNodeAutomaticQueueLaneState \<Rightarrow> entry_ptr list \<Rightarrow> bool" where
  "lane_repr k h lane xs \<longleftrightarrow> ls_first lane = first_of xs \<and> ls_last lane = last_of xs \<and> dlist k h None xs"

definition same_links :: "queue_link \<Rightarrow> entry_store \<Rightarrow> entry_store \<Rightarrow> entry_ptr \<Rightarrow> bool" where
  "same_links k h h' x \<longleftrightarrow> link_prev k (h' ! x) = link_prev k (h ! x) \<and> link_next k (h' ! x) = link_next k (h ! x)"

definition same_data :: "entry_store \<Rightarrow> entry_store \<Rightarrow> entry_ptr \<Rightarrow> bool" where
  "same_data h h' x \<longleftrightarrow> qe_start (h' ! x) = qe_start (h ! x) \<and> qe_order (h' ! x) = qe_order (h ! x)"

lemma dlist_cong: "(\<And>x. x \<in> set xs \<Longrightarrow> same_links k h h' x) \<Longrightarrow> dlist k h' p xs = dlist k h p xs"
  by (induction xs arbitrary: p) (simp_all add: same_links_def)

lemma lane_repr_cong: "(\<And>x. x \<in> set xs \<Longrightarrow> same_links k h h' x) \<Longrightarrow> lane_repr k h' lane xs = lane_repr k h lane xs"
  unfolding lane_repr_def using dlist_cong by metis


lemma dlist_snoc:
  assumes "p \<notin> set xs" and "dlist k h q xs"
    and "link_prev k (h' ! p) = (if xs = [] then q else last_of xs)" and "link_next k (h' ! p) = None"
    and "\<And>x. x \<in> set xs \<Longrightarrow> link_prev k (h' ! x) = link_prev k (h ! x)"
    and "\<And>x. x \<in> set xs \<Longrightarrow> link_next k (h' ! x) = (if Some x = last_of xs then Some p else link_next k (h ! x))"
    and "distinct xs"
  shows "dlist k h' q (xs @ [p])"
  using assms
proof (induction xs arbitrary: q)
  case (Cons x xs)
  show ?case
  proof (cases "xs = []")
    case False
    then have "last_of xs \<noteq> Some x" using Cons.prems(7) last_of_in by fastforce
    moreover have "dlist k h' (Some x) (xs @ [p])" using Cons False by (intro Cons.IH) auto
    ultimately show ?thesis using Cons.prems False by auto
  qed (use Cons.prems in auto)
qed simp

lemma dlist_cut:
  assumes "dlist k h q (as @ p # bs)" and "distinct (as @ p # bs)"
    and "\<And>x. x \<in> set (as @ bs) \<Longrightarrow> link_next k (h' ! x) = (if Some x = last_of as then first_of bs else link_next k (h ! x))"
    and "\<And>x. x \<in> set (as @ bs) \<Longrightarrow> link_prev k (h' ! x) = (if Some x = first_of bs then link_prev k (h ! p) else link_prev k (h ! x))"
  shows "dlist k h' q (as @ bs)"
  using assms
proof (induction as arbitrary: q)
  case Nil
  show ?case
  proof (cases bs)
    case (Cons b cs)
    have "dlist k h' (Some b) cs = dlist k h (Some b) cs"
      using Nil Cons by (intro dlist_cong) (auto simp: same_links_def)
    with Nil Cons show ?thesis by simp
  qed simp
next
  case (Cons a as)
  have "dlist k h' (Some a) (as @ bs)"
  proof (rule Cons.IH)
    show "link_next k (h' ! x) = (if Some x = last_of as then first_of bs else link_next k (h ! x))" if "x \<in> set (as @ bs)" for x
      using Cons.prems(2,3) that by (cases "as = []") auto
  qed (use Cons.prems in auto)
  moreover have "link_prev k (h' ! a) = q" using Cons.prems first_of_in [of bs a] by auto
  moreover have "link_next k (h' ! a) = first_of (as @ bs)"
  proof (cases "as = []")
    case False
    then have "last_of (a # as) \<noteq> Some a" using Cons.prems(2) last_of_in by fastforce
    with False Cons.prems show ?thesis by auto
  qed (use Cons.prems in auto)
  ultimately show ?case by simp
qed

text \<open>Linking at the end and unlinking, each with what it leaves alone.\<close>

lemma link_frame:
  assumes "link_last k p (h, lane) = (h', lane') \<or> unlink k p (h, lane) = (h', lane')"
  shows "length h' = length h" and "\<And>x. x < length h \<Longrightarrow> same_data h h' x"
    and "\<And>x k'. x < length h \<Longrightarrow> k' \<noteq> k \<Longrightarrow> same_links k' h h' x"
  using assms
  by (auto simp: link_last_def unlink_def Let_def same_data_def same_links_def nth_update_entry split: option.splits)

lemma link_last_repr:
  assumes "link_last k p (h, lane) = (h', lane')" and "lane_repr k h lane xs"
    and "p \<notin> set xs" and "distinct xs" and "set (p # xs) \<subseteq> {..<length h}" and "link_next k (h ! p) = None"
  shows "lane_repr k h' lane' (xs @ [p])" and "length h' = length h"
    and "\<And>x. x < length h \<Longrightarrow> same_data h h' x" and "\<And>x k'. x < length h \<Longrightarrow> k' \<noteq> k \<Longrightarrow> same_links k' h h' x"
    and "\<And>x. x < length h \<Longrightarrow> x \<notin> set (p # xs) \<Longrightarrow> same_links k h h' x"
proof -
  define h1 where "h1 = update_entry p (set_prev k (ls_last lane)) h"
  have l: "ls_last lane = last_of xs" using assms(2) by (simp add: lane_repr_def)
  have r: "h' = (case last_of xs of None \<Rightarrow> h1 | Some l \<Rightarrow> update_entry l (set_next k (Some p)) h1)"
    "lane' = (if xs = [] then lane\<lparr>ls_first := Some p, ls_last := Some p\<rparr> else lane\<lparr>ls_last := Some p\<rparr>)"
    using assms(1) by (auto simp: link_last_def h1_def l Let_def split: option.splits)
  show len: "length h' = length h" by (simp add: r h1_def split: option.split)
  have nth: "h' ! x = (if Some x = last_of xs then set_next k (Some p) (h ! x) else if x = p then set_prev k (last_of xs) (h ! x) else h ! x)"
    if "x < length h" for x
    using that assms(3) last_of_in [of xs p]
    by (auto simp: r h1_def nth_update_entry l split: option.split)
  show "same_data h h' x" if "x < length h" for x using that by (simp add: same_data_def nth)
  show "same_links k' h h' x" if "x < length h" "k' \<noteq> k" for x k' using that by (simp add: same_links_def nth)
  show "same_links k h h' x" if "x < length h" "x \<notin> set (p # xs)" for x
    using that last_of_in [of xs x] by (auto simp: same_links_def nth)
  have "dlist k h' None (xs @ [p])"
  proof (rule dlist_snoc [OF assms(3)])
    show "dlist k h None xs" using assms(2) by (simp add: lane_repr_def)
  qed (use assms in \<open>auto simp: nth last_of_in\<close>)
  then show "lane_repr k h' lane' (xs @ [p])"
    using assms(2) by (simp add: lane_repr_def r)
qed

lemma dlist_at:
  assumes "dlist k h q (as @ p # bs)"
  shows "link_prev k (h ! p) = (if as = [] then q else last_of as)" and "link_next k (h ! p) = first_of bs"
  using assms by (induction as arbitrary: q) (auto split: if_splits)

lemma unlink_repr:
  assumes "unlink k p (h, lane) = (h', lane')" and "lane_repr k h lane (as @ p # bs)"
    and d: "distinct (as @ p # bs)" and b: "set (as @ p # bs) \<subseteq> {..<length h}"
  shows "lane_repr k h' lane' (as @ bs)" and "length h' = length h"
    and "\<And>x. x < length h \<Longrightarrow> same_data h h' x" and "\<And>x k'. x < length h \<Longrightarrow> k' \<noteq> k \<Longrightarrow> same_links k' h h' x"
    and "\<And>x. x < length h \<Longrightarrow> x \<notin> set (as @ bs) \<Longrightarrow> same_links k h h' x"
proof -
  have dl: "dlist k h None (as @ p # bs)" using assms(2) by (simp add: lane_repr_def)
  have prev: "link_prev k (h ! p) = last_of as" and succ: "link_next k (h ! p) = first_of bs"
    using dlist_at [OF dl] by (auto split: if_splits)
  define h1 where "h1 = (case last_of as of None \<Rightarrow> h | Some a \<Rightarrow> update_entry a (set_next k (first_of bs)) h)"
  have p: "h1 ! p = h ! p" using d b last_of_in [of as] by (auto simp: h1_def nth_update_entry split: option.split)
  have len1: "length h1 = length h" by (simp add: h1_def split: option.split)
  have r: "h' = (case first_of bs of None \<Rightarrow> h1 | Some c \<Rightarrow> update_entry c (set_prev k (last_of as)) h1)"
    "lane' = \<lparr>ls_first = (if as = [] then first_of bs else ls_first lane), ls_last = (if bs = [] then last_of as else ls_last lane)\<rparr>"
    using assms(1) p by (auto simp: unlink_def h1_def prev succ Let_def split: option.splits)
  show "length h' = length h" by (simp add: r len1 split: option.split)
  have disj: "last_of as = Some x \<Longrightarrow> first_of bs \<noteq> Some x" for x using d last_of_in first_of_in by fastforce
  have nth: "h' ! x = (if Some x = last_of as then set_next k (first_of bs) (h ! x)
      else if Some x = first_of bs then set_prev k (last_of as) (h ! x) else h ! x)" if "x < length h" for x
    using that disj by (auto simp: r h1_def nth_update_entry split: option.split)
  show "same_data h h' x" if "x < length h" for x using that by (simp add: same_data_def nth)
  show "same_links k' h h' x" if "x < length h" "k' \<noteq> k" for x k' using that by (simp add: same_links_def nth)
  show "same_links k h h' x" if "x < length h" "x \<notin> set (as @ bs)" for x
    using that last_of_in [of as x] first_of_in [of bs x] by (auto simp: same_links_def nth)
  have "dlist k h' None (as @ bs)"
  proof (rule dlist_cut [OF dl d])
    fix x assume "x \<in> set (as @ bs)"
    then have "x < length h" using b by auto
    then show "link_next k (h' ! x) = (if Some x = last_of as then first_of bs else link_next k (h ! x))"
      "link_prev k (h' ! x) = (if Some x = first_of bs then link_prev k (h ! p) else link_prev k (h ! x))"
      using disj [of x] by (auto simp: nth prev)
  qed
  then show "lane_repr k h' lane' (as @ bs)"
    using assms(2) by (auto simp: lane_repr_def r)
qed

section \<open>Representation of the queue\<close>

abbreviation entry_start :: "currentNodeAutomaticQueue \<Rightarrow> entry_ptr \<Rightarrow> currentNodeQueuedStart" where
  "entry_start q p \<equiv> qe_start (q_entries q ! p)"

definition in_lane :: "currentNodeAutomaticQueueLane \<Rightarrow> entry_store \<Rightarrow> entry_ptr \<Rightarrow> bool" where
  "in_lane l h p \<longleftrightarrow> currentNodeAutomaticQueueLaneForPolicy (qs_policy (qe_start (h ! p))) = Some l"

definition in_task :: "TaskID \<Rightarrow> entry_store \<Rightarrow> entry_ptr \<Rightarrow> bool" where
  "in_task t h p \<longleftrightarrow> start_task (qe_start (h ! p)) = t"

definition tasks_repr :: "entry_store \<Rightarrow> (TaskID, currentNodeAutomaticQueueLanes) gomap \<Rightarrow> entry_ptr list \<Rightarrow> bool" where
  "tasks_repr h tasks ps \<longleftrightarrow>
     (\<forall>t. (map_of tasks t = None \<longleftrightarrow> filter (in_task t h) ps = []) \<and>
          (\<forall>tq l. map_of tasks t = Some tq \<longrightarrow> lane_repr TaskLink h (lane_at l tq) (filter (in_lane l h) (filter (in_task t h) ps))))"

definition store_repr ::
  "entry_store \<Rightarrow> currentNodeAutomaticQueueLaneState \<Rightarrow> currentNodeAutomaticQueueLanes
   \<Rightarrow> (TaskID, currentNodeAutomaticQueueLanes) gomap \<Rightarrow> entry_ptr list \<Rightarrow> bool" where
  "store_repr h all lanes tasks ps \<longleftrightarrow>
     set ps \<subseteq> {..<length h} \<and> distinct ps \<and> lane_repr GlobalLink h all ps \<and>
     (\<forall>l. lane_repr PolicyLink h (lane_at l lanes) (filter (in_lane l h) ps)) \<and> tasks_repr h tasks ps"

definition queue_repr :: "currentNodeAutomaticQueue \<Rightarrow> entry_ptr list \<Rightarrow> bool" where
  "queue_repr q ps \<longleftrightarrow>
     store_repr (q_entries q) (q_all q) (q_lanes q) (q_tasks q) ps \<and>
     sorted_wrt (\<lambda>a b. qe_order (q_entries q ! a) < qe_order (q_entries q ! b)) ps \<and>
     (\<forall>p \<in> set ps. qe_order (q_entries q ! p) \<le> q_nextOrder q \<and> isAutomatic (qs_policy (entry_start q p))) \<and>
     q_size q = int (length ps)"

lemma lane_at_set_lane [simp]: "lane_at l (set_lane l' st lanes) = (if l = l' then st else lane_at l lanes)"
  by (cases l; cases l') simp_all

lemma lane_at_empty [simp]: "lane_at l empty_lanes = empty_lane"
  by (cases l) (simp_all add: empty_lanes_def)

lemma lane_repr_empty: "lane_repr k h empty_lane []"
  by (simp add: lane_repr_def empty_lane_def)

lemma lane_for_automatic: "isAutomatic p \<longleftrightarrow> (\<exists>l. currentNodeAutomaticQueueLaneForPolicy p = Some l)"
  by (cases p) (simp_all add: isAutomatic_def currentNodeAutomaticQueueLaneForPolicy_def)

lemma in_lane_cong: "same_data h h' p \<Longrightarrow> in_lane l h' p = in_lane l h p"
  by (simp add: in_lane_def same_data_def)

lemma in_task_cong: "same_data h h' p \<Longrightarrow> in_task t h' p = in_task t h p"
  by (simp add: in_task_def same_data_def)

lemma filter_lane_cong: "\<forall>p \<in> set ps. same_data h h' p \<Longrightarrow> filter (in_lane l h') ps = filter (in_lane l h) ps"
  by (rule filter_cong) (simp_all add: in_lane_cong)

lemma filter_task_cong: "\<forall>p \<in> set ps. same_data h h' p \<Longrightarrow> filter (in_task t h') ps = filter (in_task t h) ps"
  by (rule filter_cong) (simp_all add: in_task_cong)

lemma new_queue_repr: "queue_repr new_queue []"
  by (simp add: queue_repr_def store_repr_def new_queue_def lane_repr_empty tasks_repr_def)

lemma queue_clear_repr: "queue_repr (queue_clear q) []"
  by (simp add: queue_repr_def store_repr_def queue_clear_def lane_repr_empty tasks_repr_def)

text \<open>The loops over the queue end and visit the starts in order.\<close>

lemma queue_walk_simps [simp]:
  "queue_walk h None = Some []"
  "queue_walk h (Some p) = Option.bind (queue_walk h (qe_globalNext (h ! p))) (\<lambda>starts. Some (qe_start (h ! p) # starts))"
  by (subst queue_walk.simps, simp)+

lemma queue_walk_dlist:
  "dlist GlobalLink h p xs \<Longrightarrow> queue_walk h (first_of xs) = Some (map (\<lambda>x. qe_start (h ! x)) xs)"
proof (induction xs arbitrary: p)
  case (Cons x xs)
  then show ?case using Cons.IH [of "Some x"] by simp
qed simp

lemma queue_starts_repr: "queue_repr q ps \<Longrightarrow> queue_starts q = Some (map (entry_start q) ps)"
  using queue_walk_dlist [of "q_entries q" None ps] by (auto simp: queue_repr_def store_repr_def lane_repr_def queue_starts_def)

text \<open>Selection takes the first eligible start, of the last task if it has one.\<close>

definition eligible :: "bool \<Rightarrow> currentNodeQueuedStart \<Rightarrow> bool" where
  "eligible agentAvailable s \<longleftrightarrow> agentAvailable \<or> \<not> countsAgentCapacity (qs_policy s)"

lemma first_of_filter: "first_of (filter P xs) = List.find P xs"
  by (induction xs) simp_all

lemma find_either:
  assumes "sorted_wrt (\<lambda>a b. (f a :: 'b :: linorder) < f b) xs"
  shows "List.find (\<lambda>x. P x \<or> Q x) xs =
    (case (List.find P xs, List.find Q xs) of
       (None, y) \<Rightarrow> y | (Some x, None) \<Rightarrow> Some x | (Some x, Some y) \<Rightarrow> if f y < f x then Some y else Some x)"
  using assms
proof (induction xs)
  case (Cons a xs)
  have "f a < f x" if "List.find R xs = Some x" for R x
    using Cons.prems that by (auto simp: find_Some_iff)
  with Cons show ?case by (fastforce split: option.splits)
qed simp

section \<open>The operations on the representation\<close>

lemma same_trans:
  "same_links k h h1 x \<Longrightarrow> same_links k h1 h2 x \<Longrightarrow> same_links k h h2 x"
  "same_data h h1 x \<Longrightarrow> same_data h1 h2 x \<Longrightarrow> same_data h h2 x"
  by (simp_all add: same_links_def same_data_def)

lemma order_succ: "(n :: 64 word) + 1 \<noteq> 0 \<Longrightarrow> n < n + 1"
  by (simp add: word_less_nat_alt unatSuc add.commute)

lemma queue_repr_lane_candidate:
  assumes "sorted_wrt (\<lambda>a b. qe_order (h ! a) < qe_order (h ! b)) ps"
    and "\<forall>p \<in> set ps. isAutomatic (qs_policy (qe_start (h ! p)))"
    and "\<And>l. ls_first (lane_at l lanes) = first_of (filter (in_lane l h) ps)"
  shows "lane_candidate agentAvailable h lanes = List.find (\<lambda>p. eligible agentAvailable (qe_start (h ! p))) ps"
proof -
  let ?s = "in_lane currentNodeAutomaticScriptLane h" and ?a = "in_lane currentNodeAutomaticAgentLane h"
  have "ls_first (lanes_agent lanes) = List.find ?a ps" "ls_first (lanes_script lanes) = List.find ?s ps"
    using assms(3) [of currentNodeAutomaticAgentLane] assms(3) [of currentNodeAutomaticScriptLane]
    by (simp_all add: first_of_filter)
  then have "lane_candidate agentAvailable h lanes =
    (if agentAvailable then List.find (\<lambda>p. ?s p \<or> ?a p) ps else List.find ?s ps)"
    using find_either [OF assms(1), of ?s ?a] by (auto simp: lane_candidate_def earlier_def split: option.split)
  also have "\<dots> = List.find (\<lambda>p. eligible agentAvailable (qe_start (h ! p))) ps"
    using assms(2)
    by (auto intro!: find_cong simp: eligible_def in_lane_def isAutomatic_def countsAgentCapacity_def
        currentNodeAutomaticQueueLaneForPolicy_def)
  finally show ?thesis .
qed

lemma find_filter: "List.find P (filter Q xs) = List.find (\<lambda>x. Q x \<and> P x) xs"
  by (induction xs) simp_all

lemma queue_selectEntry_repr:
  assumes "queue_repr q ps"
  shows "queue_selectEntry lastTask agentAvailable q =
    (case Option.bind lastTask (\<lambda>t. List.find (\<lambda>p. start_task (entry_start q p) = t \<and> eligible agentAvailable (entry_start q p)) ps) of
       Some p \<Rightarrow> Some p
     | None \<Rightarrow> List.find (\<lambda>p. eligible agentAvailable (entry_start q p)) ps)"
proof -
  let ?h = "q_entries q"
  note r = assms [unfolded queue_repr_def store_repr_def]
  have all: "lane_candidate agentAvailable ?h (q_lanes q) = List.find (\<lambda>p. eligible agentAvailable (entry_start q p)) ps"
    using r by (intro queue_repr_lane_candidate) (auto simp: lane_repr_def)
  have "Option.bind (map_of (q_tasks q) t) (lane_candidate agentAvailable ?h) =
      List.find (\<lambda>p. start_task (entry_start q p) = t \<and> eligible agentAvailable (entry_start q p)) ps" for t
  proof (cases "map_of (q_tasks q) t")
    case None
    then have "filter (in_task t ?h) ps = []" using r by (simp add: tasks_repr_def)
    then have "List.find (\<lambda>p. in_task t ?h p \<and> eligible agentAvailable (entry_start q p)) ps = None"
      by (metis List.find.simps(1) find_filter)
    with None show ?thesis by (simp add: in_task_def)
  next
    case (Some tq)
    have "lane_candidate agentAvailable ?h tq = List.find (\<lambda>p. eligible agentAvailable (entry_start q p)) (filter (in_task t ?h) ps)"
    proof (rule queue_repr_lane_candidate)
      show "ls_first (lane_at l tq) = first_of (filter (in_lane l ?h) (filter (in_task t ?h) ps))" for l
        using r Some by (auto simp: tasks_repr_def lane_repr_def)
    qed (use r in \<open>auto intro: sorted_wrt_filter\<close>)
    with Some show ?thesis by (simp add: find_filter in_task_def)
  qed
  then show ?thesis unfolding queue_selectEntry_def all by (cases lastTask) simp_all
qed

lemma lanes_link_last:
  assumes "link_last k p (h, lane_at l lanes) = (h', lane')" and "\<And>l. lane_repr k h (lane_at l lanes) (filter (in_lane l h) xs)"
    and "p \<notin> set xs" and "distinct xs" and "set (p # xs) \<subseteq> {..<length h}" and "link_next k (h ! p) = None" and "in_lane l h p"
  shows "lane_repr k h' (lane_at m (set_lane l lane' lanes)) (filter (in_lane m h') (xs @ [p]))"
    and "\<And>x. x < length h \<Longrightarrow> x \<notin> set (p # xs) \<Longrightarrow> same_links k h h' x"
proof -
  let ?xs = "filter (in_lane l h) xs"
  note ll = link_last_repr [OF assms(1) assms(2) [of l], simplified, OF _ _ _ assms(6)]
  have b: "p \<notin> set ?xs" "distinct ?xs" "p < length h" "set ?xs \<subseteq> {..<length h}" using assms(3-5) by auto
  have data: "\<forall>x \<in> set (xs @ [p]). same_data h h' x" using ll(3) b assms(5) by auto
  show "same_links k h h' x" if "x < length h" "x \<notin> set (p # xs)" for x using ll(5) b that by auto
  have "lane_repr k h' (lane_at m (set_lane l lane' lanes)) (filter (in_lane m h) (xs @ [p]))"
  proof (cases "m = l")
    case True
    with ll(1) b assms(7) show ?thesis by simp
  next
    case False
    then have "\<not> in_lane m h p" using assms(7) by (simp add: in_lane_def)
    moreover have "same_links k h h' x" if "x \<in> set (filter (in_lane m h) xs)" for x
      using ll(5) [of x] b that assms(3,5) False by (auto simp: in_lane_def)
    ultimately show ?thesis using False assms(2) [of m] lane_repr_cong [of "filter (in_lane m h) xs" k h h'] by auto
  qed
  then show "lane_repr k h' (lane_at m (set_lane l lane' lanes)) (filter (in_lane m h') (xs @ [p]))"
    using filter_lane_cong [OF data] by simp
qed

lemma lanes_unlink:
  assumes "unlink k p (h, lane_at l lanes) = (h', lane')"
    and "\<And>l. lane_repr k h (lane_at l lanes) (filter (in_lane l h) (as @ p # bs))"
    and "distinct (as @ p # bs)" and "set (as @ p # bs) \<subseteq> {..<length h}" and "in_lane l h p"
  shows "lane_repr k h' (lane_at m (set_lane l lane' lanes)) (filter (in_lane m h') (as @ bs))"
    and "\<And>x. x < length h \<Longrightarrow> x \<notin> set (as @ bs) \<Longrightarrow> same_links k h h' x"
proof -
  let ?as = "filter (in_lane l h) as" and ?bs = "filter (in_lane l h) bs"
  have f: "filter (in_lane l h) (as @ p # bs) = ?as @ p # ?bs" using assms(5) by simp
  have b: "distinct (?as @ p # ?bs)" "set (?as @ p # ?bs) \<subseteq> {..<length h}" using assms(3,4) by auto
  note u = unlink_repr [OF assms(1) assms(2) [of l, unfolded f] b]
  have data: "\<forall>x \<in> set (as @ bs). same_data h h' x" using u(3) assms(4) by auto
  show "same_links k h h' x" if "x < length h" "x \<notin> set (as @ bs)" for x using u(5) that by auto
  have "lane_repr k h' (lane_at m (set_lane l lane' lanes)) (filter (in_lane m h) (as @ bs))"
  proof (cases "m = l")
    case True
    with u(1) show ?thesis by simp
  next
    case False
    then have n: "filter (in_lane m h) (as @ p # bs) = filter (in_lane m h) (as @ bs)" using assms(5) by (simp add: in_lane_def)
    have "same_links k h h' x" if "x \<in> set (filter (in_lane m h) (as @ bs))" for x
      using u(5) [of x] that assms(4) False by (auto simp: in_lane_def)
    then show ?thesis
      using False assms(2) [of m, unfolded n] lane_repr_cong [of "filter (in_lane m h) (as @ bs)" k h h'] by auto
  qed
  then show "lane_repr k h' (lane_at m (set_lane l lane' lanes)) (filter (in_lane m h') (as @ bs))"
    using filter_lane_cong [OF data] by simp
qed

lemma lanes_repr_cong:
  assumes "\<And>x. x \<in> set xs \<Longrightarrow> same_links k h h' x" and "\<And>x. x \<in> set xs \<Longrightarrow> same_data h h' x"
  shows "lane_repr k h' lane (filter (in_lane l h') xs) = lane_repr k h lane (filter (in_lane l h) xs)"
  using assms filter_lane_cong [of xs h h' l] lane_repr_cong [of "filter (in_lane l h) xs" k h h' lane] by auto

lemma tasks_repr_upd:
  assumes "tasks_repr h tasks ps"
    and "\<And>t. t \<noteq> t0 \<Longrightarrow> filter (in_task t h') ps' = filter (in_task t h) ps \<and> map_of tasks' t = map_of tasks t"
    and "\<And>x. x \<in> set ps \<Longrightarrow> \<not> in_task t0 h x \<Longrightarrow> same_links TaskLink h h' x \<and> same_data h h' x"
    and "map_of tasks' t0 = (if filter (in_task t0 h') ps' = [] then None else Some tq)"
    and "\<And>l. lane_repr TaskLink h' (lane_at l tq) (filter (in_lane l h') (filter (in_task t0 h') ps'))"
  shows "tasks_repr h' tasks' ps'"
  unfolding tasks_repr_def
proof (intro allI conjI impI)
  fix t
  show "map_of tasks' t = None \<longleftrightarrow> filter (in_task t h') ps' = []"
    using assms by (cases "t = t0") (auto simp: tasks_repr_def)
  fix tq' l assume t: "map_of tasks' t = Some tq'"
  show "lane_repr TaskLink h' (lane_at l tq') (filter (in_lane l h') (filter (in_task t h') ps'))"
  proof (cases "t = t0")
    case True
    with t assms(4,5) show ?thesis by (auto split: if_splits)
  next
    case False
    have "lane_repr TaskLink h (lane_at l tq') (filter (in_lane l h) (filter (in_task t h) ps))"
      using assms(1,2) False t by (auto simp: tasks_repr_def)
    moreover have "same_links TaskLink h h' x" "same_data h h' x" if "x \<in> set (filter (in_task t h) ps)" for x
      using assms(3) [of x] that False by (auto simp: in_task_def)
    ultimately have "lane_repr TaskLink h' (lane_at l tq') (filter (in_lane l h') (filter (in_task t h) ps))"
      using lanes_repr_cong [of "filter (in_task t h) ps" TaskLink h h' "lane_at l tq'" l] by blast
    then show ?thesis using assms(2) [OF False] by simp
  qed
qed

lemma three_links:
  assumes "link_last GlobalLink p (h, a) = (h1, a1) \<or> unlink GlobalLink p (h, a) = (h1, a1)"
    and "link_last PolicyLink p (h1, b) = (h2, b1) \<or> unlink PolicyLink p (h1, b) = (h2, b1)"
    and "link_last TaskLink p (h2, c) = (h3, c1) \<or> unlink TaskLink p (h2, c) = (h3, c1)"
  shows "length h1 = length h" "length h2 = length h" "length h3 = length h"
    and "\<And>x. x < length h \<Longrightarrow> same_data h h1 x" "\<And>x. x < length h \<Longrightarrow> same_data h h2 x" "\<And>x. x < length h \<Longrightarrow> same_data h h3 x"
    and "\<And>x. x < length h \<Longrightarrow> same_links PolicyLink h h1 x" "\<And>x. x < length h \<Longrightarrow> same_links TaskLink h h2 x"
    and "\<And>lane xs. set xs \<subseteq> {..<length h} \<Longrightarrow> lane_repr GlobalLink h3 lane xs = lane_repr GlobalLink h1 lane xs"
    and "\<And>m lane xs. set xs \<subseteq> {..<length h} \<Longrightarrow>
      lane_repr PolicyLink h1 lane (filter (in_lane m h1) xs) = lane_repr PolicyLink h lane (filter (in_lane m h) xs)"
    and "\<And>m lane xs. set xs \<subseteq> {..<length h} \<Longrightarrow>
      lane_repr PolicyLink h3 lane (filter (in_lane m h3) xs) = lane_repr PolicyLink h2 lane (filter (in_lane m h2) xs)"
    and "\<And>m lane xs. set xs \<subseteq> {..<length h} \<Longrightarrow>
      lane_repr TaskLink h2 lane (filter (in_lane m h2) xs) = lane_repr TaskLink h lane (filter (in_lane m h) xs)"
proof -
  note f1 = link_frame [OF assms(1)] and f2 = link_frame [OF assms(2)] and f3 = link_frame [OF assms(3)]
  show len: "length h1 = length h" "length h2 = length h" "length h3 = length h" by (simp_all add: f1(1) f2(1) f3(1))
  show d1: "same_data h h1 x" if "x < length h" for x using that f1(2) by simp
  show d2: "same_data h h2 x" if "x < length h" for x using that same_trans(2) [OF d1 f2(2)] len by simp
  show d3: "same_data h h3 x" if "x < length h" for x using that same_trans(2) [OF d2 f3(2)] len by simp
  show p1: "same_links PolicyLink h h1 x" if "x < length h" for x using that f1(3) by simp
  show t2: "same_links TaskLink h h2 x" if "x < length h" for x using that same_trans(1) [OF f1(3) f2(3)] len by simp
  show "lane_repr GlobalLink h3 lane xs = lane_repr GlobalLink h1 lane xs" if "set xs \<subseteq> {..<length h}" for lane xs
    using that same_trans(1) [OF f2(3) f3(3)] len by (intro lane_repr_cong) auto
  show "lane_repr PolicyLink h1 lane (filter (in_lane m h1) xs) = lane_repr PolicyLink h lane (filter (in_lane m h) xs)"
    if "set xs \<subseteq> {..<length h}" for m lane xs
    using that p1 d1 by (intro lanes_repr_cong) auto
  show "lane_repr PolicyLink h3 lane (filter (in_lane m h3) xs) = lane_repr PolicyLink h2 lane (filter (in_lane m h2) xs)"
    if "set xs \<subseteq> {..<length h}" for m lane xs
    using that f3 len by (intro lanes_repr_cong) auto
  show "lane_repr TaskLink h2 lane (filter (in_lane m h2) xs) = lane_repr TaskLink h lane (filter (in_lane m h) xs)"
    if "set xs \<subseteq> {..<length h}" for m lane xs
    using that t2 d2 by (intro lanes_repr_cong) auto
qed

lemma store_repr_extend:
  assumes "store_repr h all lanes tasks ps"
  shows "store_repr (h @ [e]) all lanes tasks ps"
proof -
  have k: "same_links k h (h @ [e]) x" "same_data h (h @ [e]) x" if "x \<in> set ps" for k x
    using that assms by (auto simp: store_repr_def same_links_def same_data_def nth_append)
  note r = assms [unfolded store_repr_def]
  have "tasks_repr (h @ [e]) tasks ps"
    unfolding tasks_repr_def
  proof (intro allI conjI impI)
    fix t
    have ft: "filter (in_task t (h @ [e])) ps = filter (in_task t h) ps" using k filter_task_cong by blast
    then show "map_of tasks t = None \<longleftrightarrow> filter (in_task t (h @ [e])) ps = []" using r by (simp add: tasks_repr_def)
    fix tq l assume "map_of tasks t = Some tq"
    then show "lane_repr TaskLink (h @ [e]) (lane_at l tq) (filter (in_lane l (h @ [e])) (filter (in_task t (h @ [e])) ps))"
      using r k lanes_repr_cong [of "filter (in_task t h) ps" TaskLink h "h @ [e]" "lane_at l tq" l] ft
      by (auto simp: tasks_repr_def)
  qed
  moreover have "lane_repr PolicyLink (h @ [e]) (lane_at l lanes) (filter (in_lane l (h @ [e])) ps)" for l
    using r k lanes_repr_cong [of ps PolicyLink h "h @ [e]" "lane_at l lanes" l] by auto
  moreover have "lane_repr GlobalLink (h @ [e]) all ps" using r k lane_repr_cong [of ps GlobalLink h "h @ [e]" all] by auto
  ultimately show ?thesis using r by (auto simp: store_repr_def)
qed

lemma tasks_repr_lanes:
  assumes "tasks_repr h tasks ps"
  shows "lane_repr TaskLink h (lane_at m (case map_of tasks t of None \<Rightarrow> empty_lanes | Some tq \<Rightarrow> tq))
    (filter (in_lane m h) (filter (in_task t h) ps))"
proof (cases "map_of tasks t")
  case None
  then have "filter (in_task t h) ps = []" using assms by (simp add: tasks_repr_def)
  then show ?thesis using None by (simp add: lane_repr_empty)
qed (use assms in \<open>simp add: tasks_repr_def\<close>)

lemma store_repr_link:
  assumes repr: "store_repr h all lanes tasks ps" and p: "p \<notin> set ps" "p < length h" "\<And>k. link_next k (h ! p) = None" "in_lane l h p"
    and s1: "link_last GlobalLink p (h, all) = (h1, all1)" and s2: "link_last PolicyLink p (h1, lane_at l lanes) = (h2, pl)"
    and s3: "link_last TaskLink p (h2, lane_at l tq) = (h3, taskLane)"
    and t: "t = start_task (qe_start (h ! p))" and tq: "tq = (case map_of tasks t of None \<Rightarrow> empty_lanes | Some tq \<Rightarrow> tq)"
  shows "store_repr h3 all1 (set_lane l pl lanes) (AList.update t (set_lane l taskLane tq) tasks) (ps @ [p])"
proof -
  note r = repr [unfolded store_repr_def]
  note links = three_links [OF disjI1 [OF s1] disjI1 [OF s2] disjI1 [OF s3]]
  note len = links(1-3)
  have b: "set (p # ps) \<subseteq> {..<length h}" "set ps \<subseteq> {..<length h}" "set (ps @ [p]) \<subseteq> {..<length h}" using r p(2) by auto
  have p1: "link_next PolicyLink (h1 ! p) = None" "link_next TaskLink (h2 ! p) = None" "in_lane l h1 p" "in_lane l h2 p"
    using links(7,8) [OF p(2)] p(3) in_lane_cong [OF links(4) [OF p(2)]] in_lane_cong [OF links(5) [OF p(2)]] p(4)
    by (simp_all add: same_links_def del: link_next.simps link_prev.simps)
  have "lane_repr GlobalLink h1 all1 (ps @ [p])" using r b p by (intro link_last_repr [OF s1]) simp_all
  then have 1: "lane_repr GlobalLink h3 all1 (ps @ [p])" using links(9) b(3) by blast
  have "lane_repr PolicyLink h1 (lane_at m lanes) (filter (in_lane m h1) ps)" for m using r links(10) [OF b(2)] by simp
  from lanes_link_last(1) [OF s2 this p(1) _ _ p1(1,3)]
  have 2: "lane_repr PolicyLink h3 (lane_at m (set_lane l pl lanes)) (filter (in_lane m h3) (ps @ [p]))" for m
    unfolding links(11) [OF b(3)] using r b(1) by (simp add: len)
  let ?ts = "filter (in_task t h) ps"
  have b': "p \<notin> set ?ts" "distinct ?ts" "set (p # ?ts) \<subseteq> {..<length h2}" "set ?ts \<subseteq> {..<length h}"
    using b(1) p r by (auto simp: len)
  have "lane_repr TaskLink h (lane_at m tq) (filter (in_lane m h) ?ts)" for m
    unfolding tq using r tasks_repr_lanes by blast
  then have "lane_repr TaskLink h2 (lane_at m tq) (filter (in_lane m h2) ?ts)" for m using links(12) [OF b'(4)] by blast
  note tasks3 = lanes_link_last [OF s3 this b'(1-3) p1(2,4)]
  have ts3: "filter (in_task t' h3) (ps @ [p]) = filter (in_task t' h) ps @ (if t' = t then [p] else [])" for t'
  proof -
    have "\<forall>x \<in> set (ps @ [p]). same_data h h3 x" using links(6) b(3) by auto
    from filter_task_cong [OF this] show ?thesis by (simp add: in_task_def t)
  qed
  have "tasks_repr h3 (AList.update t (set_lane l taskLane tq) tasks) (ps @ [p])"
  proof (rule tasks_repr_upd [where ?t0.0 = t and tq = "set_lane l taskLane tq"])
    show "lane_repr TaskLink h3 (lane_at m (set_lane l taskLane tq)) (filter (in_lane m h3) (filter (in_task t h3) (ps @ [p])))" for m
      using tasks3(1) [of m] ts3 by simp
    show "same_links TaskLink h h3 x \<and> same_data h h3 x" if "x \<in> set ps" "\<not> in_task t h x" for x
      using that tasks3(2) [of x] same_trans(1) [OF links(8)] links(6) b(2) p(1) by (auto simp: len)
  qed (use r ts3 in \<open>auto simp: update_conv\<close>)
  with 1 2 b(3) r p(1) show ?thesis by (simp add: store_repr_def len)
qed

lemma store_repr_unlink:
  assumes repr: "store_repr h all lanes tasks (as @ p # bs)" and p: "in_lane l h p"
    and auto: "\<And>x. x \<in> set (as @ bs) \<Longrightarrow> \<exists>l. in_lane l h x"
    and s1: "unlink GlobalLink p (h, all) = (h1, all1)" and s2: "unlink PolicyLink p (h1, lane_at l lanes) = (h2, pl)"
    and s3: "unlink TaskLink p (h2, lane_at l tq) = (h3, taskLane)"
    and t: "t = start_task (qe_start (h ! p))" and tq: "map_of tasks t = Some tq" and tq': "tq' = set_lane l taskLane tq"
  shows "store_repr h3 all1 (set_lane l pl lanes)
    (if ls_first (lanes_agent tq') = None \<and> ls_first (lanes_script tq') = None then AList.delete t tasks else AList.update t tq' tasks) (as @ bs)"
proof -
  note r = repr [unfolded store_repr_def]
  note links = three_links [OF disjI2 [OF s1] disjI2 [OF s2] disjI2 [OF s3]]
  note len = links(1-3)
  have b: "set (as @ p # bs) \<subseteq> {..<length h}" "set (as @ bs) \<subseteq> {..<length h}" "p < length h" using r by auto
  have p1: "in_lane l h1 p" "in_lane l h2 p"
    using in_lane_cong [OF links(4) [OF b(3)]] in_lane_cong [OF links(5) [OF b(3)]] p by simp_all
  have "lane_repr GlobalLink h1 all1 (as @ bs)" using r by (intro unlink_repr [OF s1]) simp_all
  then have 1: "lane_repr GlobalLink h3 all1 (as @ bs)" using links(9) b(2) by blast
  have "lane_repr PolicyLink h1 (lane_at m lanes) (filter (in_lane m h1) (as @ p # bs))" for m using r links(10) [OF b(1)] by simp
  from lanes_unlink(1) [OF s2 this _ _ p1(1)]
  have 2: "lane_repr PolicyLink h3 (lane_at m (set_lane l pl lanes)) (filter (in_lane m h3) (as @ bs))" for m
    unfolding links(11) [OF b(2)] using r by (simp add: len)
  let ?as = "filter (in_task t h) as" and ?bs = "filter (in_task t h) bs"
  have ft: "filter (in_task t h) (as @ p # bs) = ?as @ p # ?bs" by (simp add: in_task_def t)
  have b': "distinct (?as @ p # ?bs)" "set (?as @ p # ?bs) \<subseteq> {..<length h2}" "set (?as @ p # ?bs) \<subseteq> {..<length h}"
    using r by (auto simp: len)
  have "lane_repr TaskLink h (lane_at m tq) (filter (in_lane m h) (?as @ p # ?bs))" for m
    using r tasks_repr_lanes [of h tasks "as @ p # bs" m t] tq unfolding ft by simp
  then have "lane_repr TaskLink h2 (lane_at m tq) (filter (in_lane m h2) (?as @ p # ?bs))" for m
    using links(12) [OF b'(3)] by blast
  note tasks3 = lanes_unlink [OF s3 this b'(1,2) p1(2), folded tq']
  have ts3: "filter (in_task t' h3) (as @ bs) = filter (in_task t' h) (as @ bs)" for t'
    using links(6) b(2) by (intro filter_task_cong) auto
  have lanes3: "lane_repr TaskLink h3 (lane_at m tq') (filter (in_lane m h3) (filter (in_task t h3) (as @ bs)))" for m
    using tasks3(1) [of m] ts3 by simp
  have empty: "ls_first (lanes_agent tq') = None \<and> ls_first (lanes_script tq') = None \<longleftrightarrow> filter (in_task t h3) (as @ bs) = []"
  proof -
    have "ls_first (lane_at m tq') = None \<longleftrightarrow> filter (in_lane m h3) (filter (in_task t h3) (as @ bs)) = []" for m
      using lanes3 [of m] by (simp add: lane_repr_def)
    from this [of currentNodeAutomaticAgentLane] this [of currentNodeAutomaticScriptLane]
    have "ls_first (lanes_agent tq') = None \<and> ls_first (lanes_script tq') = None \<longleftrightarrow>
        (\<forall>m. filter (in_lane m h3) (filter (in_task t h3) (as @ bs)) = [])"
      by (metis currentNodeAutomaticQueueLane.exhaust lane_at.simps)
    moreover have "\<exists>m. in_lane m h3 x" if "x \<in> set (as @ bs)" for x
    proof -
      have "same_data h h3 x" using links(6) that b(2) by auto
      then show ?thesis using auto [OF that] in_lane_cong by blast
    qed
    ultimately show ?thesis by (auto simp: filter_empty_conv)
  qed
  have "tasks_repr h3 (if ls_first (lanes_agent tq') = None \<and> ls_first (lanes_script tq') = None
      then AList.delete t tasks else AList.update t tq' tasks) (as @ bs)"
  proof (rule tasks_repr_upd [where ?t0.0 = t and tq = tq', OF _ _ _ _ lanes3])
    show "tasks_repr h tasks (as @ p # bs)" using r by simp
    show "same_links TaskLink h h3 x \<and> same_data h h3 x" if "x \<in> set (as @ p # bs)" "\<not> in_task t h x" for x
      using that tasks3(2) [of x] same_trans(1) [OF links(8)] links(6) b(1) by (auto simp: len)
  qed (use ts3 empty in \<open>auto simp: update_conv delete_conv in_task_def t\<close>)
  with 1 2 b(2) r show ?thesis by (simp add: store_repr_def len)
qed

text \<open>The data of the old entries survives every operation on the links.\<close>

lemma queue_append_repr:
  assumes repr: "queue_repr q ps" and auto: "isAutomatic (qs_policy start)" and ok: "q_nextOrder q + 1 \<noteq> 0"
  obtains q' where "queue_append start q = Some q'" and "queue_repr q' (ps @ [length (q_entries q)])"
    and "map (entry_start q') (ps @ [length (q_entries q)]) = map (entry_start q) ps @ [start]"
    and "q_nextOrder q' = q_nextOrder q + 1"
proof -
  define p where "p = length (q_entries q)"
  define h where "h = q_entries q @ [new_entry start (q_nextOrder q + 1)]"
  define tq where "tq = (case map_of (q_tasks q) (start_task start) of None \<Rightarrow> empty_lanes | Some tq \<Rightarrow> tq)"
  obtain l where l: "currentNodeAutomaticQueueLaneForPolicy (qs_policy start) = Some l"
    using auto lane_for_automatic by blast
  obtain h1 all1 where s1: "link_last GlobalLink p (h, q_all q) = (h1, all1)" by fastforce
  obtain h2 pl where s2: "link_last PolicyLink p (h1, lane_at l (q_lanes q)) = (h2, pl)" by fastforce
  obtain h3 taskLane where s3: "link_last TaskLink p (h2, lane_at l tq) = (h3, taskLane)" by fastforce
  let ?q = "\<lparr>q_entries = h3, q_all = all1, q_lanes = set_lane l pl (q_lanes q),
      q_tasks = AList.update (start_task start) (set_lane l taskLane tq) (q_tasks q), q_nextOrder = q_nextOrder q + 1, q_size = q_size q + 1\<rparr>"
  have app: "queue_append start q = Some ?q"
    using ok l s1 s2 s3 by (simp add: queue_append_def Let_def h_def p_def tq_def)
  note r = repr [unfolded queue_repr_def]
  have new: "h ! p = new_entry start (q_nextOrder q + 1)" "p < length h" by (simp_all add: h_def p_def)
  have ps: "\<And>x. x \<in> set ps \<Longrightarrow> x < p" using r by (auto simp: store_repr_def p_def)
  have "store_repr h3 all1 (set_lane l pl (q_lanes q)) (AList.update (start_task start) (set_lane l taskLane tq) (q_tasks q)) (ps @ [p])"
  proof (rule store_repr_link [OF _ _ new(2) _ _ s1 s2 s3])
    show "store_repr h (q_all q) (q_lanes q) (q_tasks q) ps" unfolding h_def using r store_repr_extend by blast
    show "link_next k (h ! p) = None" for k by (cases k) (simp_all add: new new_entry_def)
  qed (use l new ps in \<open>auto simp: in_lane_def new_entry_def tq_def\<close>)
  moreover have data: "same_data h h3 x" if "x < length h" for x
    using that three_links(6) [OF disjI1 [OF s1] disjI1 [OF s2] disjI1 [OF s3]] by blast
  have old3: "qe_start (h3 ! x) = entry_start q x" "qe_order (h3 ! x) = qe_order (q_entries q ! x)" if "x \<in> set ps" for x
    using data [of x] ps [OF that] by (simp_all add: same_data_def h_def p_def nth_append)
  have new3: "qe_start (h3 ! p) = start" "qe_order (h3 ! p) = q_nextOrder q + 1"
    using data [OF new(2)] new(1) by (simp_all add: same_data_def new_entry_def)
  moreover have "sorted_wrt (\<lambda>a b. qe_order (h3 ! a) < qe_order (h3 ! b)) ps"
    using r old3(2) by (auto intro: sorted_wrt_mono_rel [rotated])
  ultimately have "queue_repr ?q (ps @ [p])"
    using r auto order_succ [OF ok] old3 unfolding queue_repr_def
    by (fastforce simp: sorted_wrt_append intro: order_trans less_imp_le le_less_trans)
  then show thesis using that app old3 new3 by (auto simp: p_def)
qed

lemma queue_remove_repr:
  assumes repr: "queue_repr q (as @ p # bs)"
  obtains q' where "queue_remove p q = Some (q', entry_start q p)" and "queue_repr q' (as @ bs)"
    and "\<And>x. x < length (q_entries q) \<Longrightarrow> entry_start q' x = entry_start q x" and "q_nextOrder q' = q_nextOrder q"
    and "length (q_entries q') = length (q_entries q)"
proof -
  let ?h = "q_entries q" and ?t = "start_task (entry_start q p)"
  note r = repr [unfolded queue_repr_def]
  obtain l where l: "currentNodeAutomaticQueueLaneForPolicy (qs_policy (entry_start q p)) = Some l"
    using r lane_for_automatic by auto
  have "filter (in_task ?t ?h) (as @ p # bs) \<noteq> []" by (simp add: in_task_def)
  then obtain tq where tq: "map_of (q_tasks q) ?t = Some tq"
    using r unfolding store_repr_def tasks_repr_def by (metis not_None_eq)
  obtain h1 all1 where s1: "unlink GlobalLink p (?h, q_all q) = (h1, all1)" by fastforce
  obtain h2 pl where s2: "unlink PolicyLink p (h1, lane_at l (q_lanes q)) = (h2, pl)" by fastforce
  obtain h3 taskLane where s3: "unlink TaskLink p (h2, lane_at l tq) = (h3, taskLane)" by fastforce
  define tq' where "tq' = set_lane l taskLane tq"
  define tasks' where "tasks' = (if ls_first (lanes_agent tq') = None \<and> ls_first (lanes_script tq') = None
      then AList.delete ?t (q_tasks q) else AList.update ?t tq' (q_tasks q))"
  let ?q = "q\<lparr>q_entries := h3, q_all := all1, q_lanes := set_lane l pl (q_lanes q), q_tasks := tasks', q_size := q_size q - 1\<rparr>"
  have rem: "queue_remove p q = Some (?q, entry_start q p)"
    using l tq s1 s2 s3 by (simp add: queue_remove_def Let_def tasks'_def tq'_def)
  have b: "\<And>x. x \<in> set (as @ p # bs) \<Longrightarrow> x < length ?h" using r by (auto simp: store_repr_def)
  note links = three_links [OF disjI2 [OF s1] disjI2 [OF s2] disjI2 [OF s3]]
  have "store_repr h3 all1 (set_lane l pl (q_lanes q)) tasks' (as @ bs)"
    unfolding tasks'_def
  proof (rule store_repr_unlink [OF _ _ _ s1 s2 s3 refl tq tq'_def])
    show "\<exists>l. in_lane l ?h x" if "x \<in> set (as @ bs)" for x using that r by (auto simp: in_lane_def lane_for_automatic)
  qed (use r l in \<open>auto simp: in_lane_def\<close>)
  moreover have data: "qe_start (h3 ! x) = entry_start q x" "qe_order (h3 ! x) = qe_order (?h ! x)" if "x < length ?h" for x
    using links(6) [OF that] by (simp_all add: same_data_def)
  moreover have "sorted_wrt (\<lambda>a b. qe_order (h3 ! a) < qe_order (h3 ! b)) (as @ bs)"
    using r b data(2) by (auto simp: sorted_wrt_append intro: sorted_wrt_mono_rel [rotated])
  ultimately have "queue_repr ?q (as @ bs)" using r b unfolding queue_repr_def by auto
  then show thesis using that rem data links(3) by simp
qed

lemma in_task_fun: "in_task t h = (\<lambda>p. start_task (qe_start (h ! p)) = t)"
  by (rule ext) (simp add: in_task_def)

lemma remove_task_loop_simps [simp]:
  "remove_task_loop t None q starts = Some (q, starts)"
  "remove_task_loop t (Some p) q starts =
     (if start_task (entry_start q p) = t
      then Option.bind (queue_remove p q) (\<lambda>(q', start). remove_task_loop t (qe_globalNext (q_entries q ! p)) q' (starts @ [start]))
      else remove_task_loop t (qe_globalNext (q_entries q ! p)) q starts)"
  by (subst remove_task_loop.simps, simp)+

lemma remove_task_loop_repr:
  assumes "queue_repr q (as @ bs)"
  shows "\<exists>q'. remove_task_loop t (first_of bs) q starts = Some (q', starts @ map (entry_start q) (filter (in_task t (q_entries q)) bs)) \<and>
    queue_repr q' (as @ filter (\<lambda>p. \<not> in_task t (q_entries q) p) bs) \<and> (\<forall>x < length (q_entries q). entry_start q' x = entry_start q x)"
  using assms
proof (induction bs arbitrary: as q starts)
  case (Cons p bs)
  let ?h = "q_entries q"
  have "dlist GlobalLink ?h None (as @ p # bs)" using Cons.prems by (simp add: queue_repr_def store_repr_def lane_repr_def)
  then have succ: "qe_globalNext (?h ! p) = first_of bs" using dlist_at(2) [of GlobalLink] by simp
  show ?case
  proof (cases "in_task t ?h p")
    case True
    obtain q1 where q1: "queue_remove p q = Some (q1, entry_start q p)" "queue_repr q1 (as @ bs)"
      "\<And>x. x < length ?h \<Longrightarrow> entry_start q1 x = entry_start q x" "length (q_entries q1) = length ?h"
      using queue_remove_repr [OF Cons.prems] by metis
    have b: "\<forall>x \<in> set bs. x < length ?h" using Cons.prems by (auto simp: queue_repr_def store_repr_def)
    have f: "filter (in_task t (q_entries q1)) bs = filter (in_task t ?h) bs"
      "filter (\<lambda>p. \<not> in_task t (q_entries q1) p) bs = filter (\<lambda>p. \<not> in_task t ?h p) bs"
      using b q1(3) by (auto intro!: filter_cong simp: in_task_def)
    have m: "map (entry_start q1) (filter (in_task t ?h) bs) = map (entry_start q) (filter (in_task t ?h) bs)"
      using b q1(3) by simp
    from Cons.IH [OF q1(2), of "starts @ [entry_start q p]"] True show ?thesis
      using q1 succ unfolding f m by (auto simp: in_task_fun)
  next
    case False
    with Cons.IH [of q "as @ [p]" starts] Cons.prems succ show ?thesis by (simp add: in_task_def)
  qed
qed simp

lemma queue_removeTask_repr:
  assumes "queue_repr q ps"
  obtains q' where "queue_removeTask t q = Some (q', filter (\<lambda>s. start_task s = t) (map (entry_start q) ps))"
    and "queue_repr q' (filter (\<lambda>p. start_task (entry_start q p) \<noteq> t) ps)"
    and "\<And>x. x < length (q_entries q) \<Longrightarrow> entry_start q' x = entry_start q x"
proof (cases "map_of (q_tasks q) t = None")
  case True
  then have "filter (in_task t (q_entries q)) ps = []" using assms by (simp add: queue_repr_def store_repr_def tasks_repr_def)
  then have "\<forall>p \<in> set ps. start_task (entry_start q p) \<noteq> t" by (simp add: filter_empty_conv in_task_def)
  then have "filter (\<lambda>s. start_task s = t) (map (entry_start q) ps) = []" "filter (\<lambda>p. start_task (entry_start q p) \<noteq> t) ps = ps"
    by (auto simp: filter_empty_conv)
  with True assms that show thesis by (simp add: queue_removeTask_def)
next
  case False
  have "ls_first (q_all q) = first_of ps" using assms by (simp add: queue_repr_def store_repr_def lane_repr_def)
  with False remove_task_loop_repr [of q "[]" ps t "[]"] assms that show thesis
    by (auto simp: queue_removeTask_def in_task_fun filter_map comp_def)
qed

section \<open>The queue as a list of starts\<close>

definition queue_holds :: "currentNodeAutomaticQueue \<Rightarrow> currentNodeQueuedStart list \<Rightarrow> bool" where
  "queue_holds q starts \<longleftrightarrow> (\<exists>ps. queue_repr q ps \<and> starts = map (entry_start q) ps)"

definition queue_room :: "currentNodeAutomaticQueue \<Rightarrow> bool" where
  "queue_room q \<longleftrightarrow> q_nextOrder q + 1 \<noteq> 0"

text \<open>What the controller takes next: the first eligible start of the task it served last, or the first eligible start.\<close>

definition next_start ::
  "TaskID option \<Rightarrow> bool \<Rightarrow> currentNodeQueuedStart list
   \<Rightarrow> (currentNodeQueuedStart list \<times> currentNodeQueuedStart \<times> currentNodeQueuedStart list) option" where
  "next_start lastTask agentAvailable starts =
     (case Option.bind lastTask (\<lambda>t. List.extract (\<lambda>s. start_task s = t \<and> eligible agentAvailable s) starts) of
        Some r \<Rightarrow> Some r
      | None \<Rightarrow> List.extract (eligible agentAvailable) starts)"

text \<open>
  The interface of the controller: a queue value stands for a list of starts, and every
  operation acts on that list.
\<close>

locale start_queue =
  fixes holds :: "'q \<Rightarrow> currentNodeQueuedStart list \<Rightarrow> bool" and room :: "'q \<Rightarrow> bool"
    and append_start :: "currentNodeQueuedStart \<Rightarrow> 'q \<Rightarrow> 'q option"
    and select :: "TaskID option \<Rightarrow> bool \<Rightarrow> 'q \<Rightarrow> 'p option"
    and take_entry :: "'p \<Rightarrow> 'q \<Rightarrow> ('q \<times> currentNodeQueuedStart) option"
    and take_task :: "TaskID \<Rightarrow> 'q \<Rightarrow> ('q \<times> currentNodeQueuedStart list) option"
    and starts_of :: "'q \<Rightarrow> currentNodeQueuedStart list option" and size_of :: "'q \<Rightarrow> int"
  assumes append_holds: "holds q starts \<Longrightarrow> isAutomatic (qs_policy s) \<Longrightarrow> room q \<Longrightarrow>
      \<exists>q'. append_start s q = Some q' \<and> holds q' (starts @ [s])"
    and select_None: "holds q starts \<Longrightarrow> next_start lastTask avail starts = None \<Longrightarrow> select lastTask avail q = None"
    and select_Some: "holds q starts \<Longrightarrow> next_start lastTask avail starts = Some (before, s, after) \<Longrightarrow>
      \<exists>p q'. select lastTask avail q = Some p \<and> take_entry p q = Some (q', s) \<and> holds q' (before @ after)"
    and take_task_holds: "holds q starts \<Longrightarrow>
      \<exists>q'. take_task t q = Some (q', filter (\<lambda>s. start_task s = t) starts) \<and> holds q' (filter (\<lambda>s. start_task s \<noteq> t) starts)"
    and starts_holds: "holds q starts \<Longrightarrow> starts_of q = Some starts"
    and size_holds: "holds q starts \<Longrightarrow> size_of q = int (length starts)"
    and automatic: "holds q starts \<Longrightarrow> s \<in> set starts \<Longrightarrow> isAutomatic (qs_policy s)"
begin

text \<open>A capacity-counting start is only taken while capacity is available.\<close>

lemma next_start_split:
  assumes "next_start lastTask avail starts = Some (before, s, after)"
  shows "starts = before @ s # after" and "eligible avail s"
  using assms by (auto simp: next_start_def extract_Some_iff split: option.splits bind_split_asm)

lemma selected_capacity:
  assumes "holds q starts" and "select lastTask avail q = Some p" and "take_entry p q = Some (q', s)"
    and "countsAgentCapacity (qs_policy s)"
  shows "avail"
proof (cases "next_start lastTask avail starts")
  case None
  with select_None assms(1,2) show ?thesis by simp
next
  case (Some r)
  obtain before s' after where r: "r = (before, s', after)" by (cases r)
  with Some select_Some assms(1-3) have "s' = s" by fastforce
  with next_start_split(2) [OF Some [unfolded r]] assms(4) show ?thesis by (simp add: eligible_def)
qed

lemma select_member:
  assumes "holds q starts" and "select lastTask avail q = Some p"
  obtains before s after q' where "starts = before @ s # after" and "eligible avail s"
    and "take_entry p q = Some (q', s)" and "holds q' (before @ after)"
proof (cases "next_start lastTask avail starts")
  case None
  with select_None assms show thesis by simp
next
  case (Some r)
  obtain before s after where r: "r = (before, s, after)" by (cases r)
  from select_Some [OF assms(1) Some [unfolded r]] assms(2) obtain q'
    where "take_entry p q = Some (q', s)" "holds q' (before @ after)" by auto
  with that next_start_split [OF Some [unfolded r]] show thesis by blast
qed

lemma take_task_split:
  assumes "holds q starts" and "take_task t q = Some (q', taken)"
  shows "taken = filter (\<lambda>s. start_task s = t) starts" and "holds q' (filter (\<lambda>s. start_task s \<noteq> t) starts)"
  using take_task_holds [OF assms(1), of t] assms(2) by auto

end

lemma find_extract_None: "List.extract P (map f xs) = None \<longleftrightarrow> List.find (\<lambda>x. P (f x)) xs = None"
  by (auto simp: extract_None_iff find_None_iff)

lemma find_first: "\<forall>x \<in> set as. \<not> P x \<Longrightarrow> P p \<Longrightarrow> List.find P (as @ p # bs) = Some p"
  by (induction as) simp_all

lemma find_extract_Some:
  assumes "List.extract P (map f xs) = Some (before, s, after)"
  obtains p as bs where "List.find (\<lambda>x. P (f x)) xs = Some p" and "xs = as @ p # bs"
    and "before = map f as" and "s = f p" and "after = map f bs"
proof -
  from assms have m: "map f xs = before @ s # after" "P s" "\<forall>y \<in> set before. \<not> P y" by (auto simp: extract_Some_iff)
  from m(1) obtain as p bs where "xs = as @ p # bs" "before = map f as" "s = f p" "after = map f bs"
    by (auto simp: map_eq_append_conv map_eq_Cons_conv)
  with m that find_first [of as "\<lambda>x. P (f x)" p bs] show thesis by simp
qed

lemma queue_select_None:
  assumes "queue_holds q starts" and "next_start lastTask avail starts = None"
  shows "queue_selectEntry lastTask avail q = None"
  using assms queue_selectEntry_repr
  by (cases lastTask) (auto simp: queue_holds_def next_start_def find_extract_None split: option.splits)

lemma queue_select_Some:
  assumes "queue_holds q starts" and "next_start lastTask avail starts = Some (before, s, after)"
  shows "\<exists>p q'. queue_selectEntry lastTask avail q = Some p \<and> queue_remove p q = Some (q', s) \<and> queue_holds q' (before @ after)"
proof -
  from assms(1) obtain ps where r: "queue_repr q ps" and starts: "starts = map (entry_start q) ps"
    by (auto simp: queue_holds_def)
  obtain p as bs where sel: "queue_selectEntry lastTask avail q = Some p" and ps: "ps = as @ p # bs"
    and split: "before = map (entry_start q) as" "s = entry_start q p" "after = map (entry_start q) bs"
  proof (cases "Option.bind lastTask (\<lambda>t. List.extract (\<lambda>s. start_task s = t \<and> eligible avail s) starts)")
    case None
    then have f: "List.extract (eligible avail) (map (entry_start q) ps) = Some (before, s, after)"
      using assms(2) by (simp add: next_start_def starts)
    have "Option.bind lastTask (\<lambda>t. List.find (\<lambda>p. start_task (entry_start q p) = t \<and> eligible avail (entry_start q p)) ps) = None"
      using None by (cases lastTask) (simp_all add: starts find_extract_None)
    with find_extract_Some [OF f] queue_selectEntry_repr [OF r, of lastTask avail] that show thesis by auto
  next
    case (Some r')
    then obtain t where t: "lastTask = Some t" and f: "List.extract (\<lambda>s. start_task s = t \<and> eligible avail s) (map (entry_start q) ps) = Some (before, s, after)"
      using assms(2) by (cases lastTask) (auto simp: next_start_def starts)
    obtain p as bs
      where p: "List.find (\<lambda>p. start_task (entry_start q p) = t \<and> eligible avail (entry_start q p)) ps = Some p"
        and split: "ps = as @ p # bs" "before = map (entry_start q) as" "s = entry_start q p" "after = map (entry_start q) bs" by (rule find_extract_Some [OF f])
    have "queue_selectEntry lastTask avail q = Some p" using queue_selectEntry_repr [OF r, of lastTask avail] t p by simp
    from that [OF this split] show thesis .
  qed
  obtain q' where "queue_remove p q = Some (q', entry_start q p)" "queue_repr q' (as @ bs)"
    and data: "\<And>x. x < length (q_entries q) \<Longrightarrow> entry_start q' x = entry_start q x"
    using queue_remove_repr [OF r [unfolded ps]] by metis
  moreover have "\<forall>x \<in> set (as @ bs). x < length (q_entries q)" using r ps by (auto simp: queue_repr_def store_repr_def)
  ultimately show ?thesis using sel split by (auto simp: queue_holds_def intro!: exI [of _ "as @ bs"])
qed

interpretation automatic_queue: start_queue queue_holds queue_room queue_append queue_selectEntry queue_remove
  queue_removeTask queue_starts queue_len
proof
  fix q starts assume h: "queue_holds q starts"
  then obtain ps where r: "queue_repr q ps" and starts: "starts = map (entry_start q) ps" by (auto simp: queue_holds_def)
  show "\<exists>q'. queue_append s q = Some q' \<and> queue_holds q' (starts @ [s])" if "isAutomatic (qs_policy s)" "queue_room q" for s
    using that r starts queue_append_repr [OF r that(1)] unfolding queue_room_def queue_holds_def by metis
  show "\<exists>q'. queue_removeTask t q = Some (q', filter (\<lambda>s. start_task s = t) starts) \<and> queue_holds q' (filter (\<lambda>s. start_task s \<noteq> t) starts)" for t
  proof -
    obtain q' where q': "queue_removeTask t q = Some (q', filter (\<lambda>s. start_task s = t) (map (entry_start q) ps))"
      "queue_repr q' (filter (\<lambda>p. start_task (entry_start q p) \<noteq> t) ps)"
      and data: "\<And>x. x < length (q_entries q) \<Longrightarrow> entry_start q' x = entry_start q x"
      using queue_removeTask_repr [OF r] by metis
    have "\<forall>x \<in> set ps. x < length (q_entries q)" using r by (auto simp: queue_repr_def store_repr_def)
    then have "map (entry_start q') (filter (\<lambda>p. start_task (entry_start q p) \<noteq> t) ps) = filter (\<lambda>s. start_task s \<noteq> t) starts"
      using data by (simp add: starts filter_map comp_def)
    with q' starts show ?thesis unfolding queue_holds_def by metis
  qed
  show "queue_starts q = Some starts" using r starts queue_starts_repr by simp
  show "queue_len q = int (length starts)" using r starts by (simp add: queue_repr_def queue_len_def)
  show "isAutomatic (qs_policy s)" if "s \<in> set starts" for s using that r starts by (auto simp: queue_repr_def)
qed (fact queue_select_None queue_select_Some)+

text \<open>
  C16: The linked queue is a list of starts: appending adds at the end, taking out a task removes
  exactly its starts in order, clearing empties it, the size is the length, and the loops over
  the queue end and see the starts in order. The pointer structure never shows.
\<close>

theorem automatic_queue_refines_list:
  assumes "queue_holds q starts"
  shows "queue_starts q = Some starts \<and> queue_len q = int (length starts) \<and> queue_holds (queue_clear q) [] \<and>
    (isAutomatic (qs_policy s) \<longrightarrow> queue_room q \<longrightarrow> (\<exists>q'. queue_append s q = Some q' \<and> queue_holds q' (starts @ [s]))) \<and>
    (\<exists>q'. queue_removeTask t q = Some (q', filter (\<lambda>s. start_task s = t) starts) \<and>
          queue_holds q' (filter (\<lambda>s. start_task s \<noteq> t) starts))"
  using automatic_queue.starts_holds [OF assms] automatic_queue.size_holds [OF assms]
    automatic_queue.append_holds [OF assms] automatic_queue.take_task_holds [OF assms] queue_clear_repr
  by (auto simp: queue_holds_def)

text \<open>
  C26: Selection and removal implement the scheduling policy on the list: the first start of the
  task served last that may run now, otherwise the first start that may run now. Script starts
  may always run, agent starts only while capacity is available.
\<close>

theorem automatic_queue_serves_next:
  assumes "queue_holds q starts"
  shows "case next_start lastTask agentAvailable starts of
      None \<Rightarrow> queue_selectEntry lastTask agentAvailable q = None
    | Some (before, s, after) \<Rightarrow>
        \<exists>p q'. queue_selectEntry lastTask agentAvailable q = Some p \<and> queue_remove p q = Some (q', s) \<and> queue_holds q' (before @ after)"
  using queue_select_None [OF assms] queue_select_Some [OF assms]
  by (auto split: option.split)

end
