(* ===== verification/Adm_Controller.thy ===== *)
theory Adm_Controller
  imports Adm_Queue_Props
begin

text \<open>
  Admission of current nodes: the state that \<open>CurrentNodeController.mu\<close> guards and the operations
  on it, from \<open>server/workflowexecution\<close> (\<open>current_node_admission.go\<close>, \<open>current_node_controller.go\<close>,
  \<open>current_node_lifecycle.go\<close>, \<open>current_node_interruption.go\<close>, \<open>current_node_interrupt_state.go\<close>).

  Capacity leases, completions and interruption fences are objects that several goroutines
  hold pointers to: the state has a store for each, a list that only grows. The store of
  workflows, the runner and the session authority are outside; the steps of a worker leave their
  outcome open. An operation returns \<open>None\<close> when it panics. Error messages are left out.
\<close>

section \<open>Interruption fences\<close>

record currentNodeInterruptFence =
  if_taskID :: TaskID
  if_closed :: bool

type_synonym ScopeID = uuid

record currentNodeInterruptState =
  is_fences :: "currentNodeInterruptFence list"
  is_byScope :: "(ScopeID, nat) gomap"
  is_byCurrentNode :: "(CurrentNodeReferenceKey, nat) gomap"

definition newCurrentNodeInterruptState :: currentNodeInterruptState where
  "newCurrentNodeInterruptState = \<lparr>is_fences = [], is_byScope = [], is_byCurrentNode = []\<rparr>"

definition taskFence :: "TaskID \<Rightarrow> currentNodeInterruptState \<Rightarrow> nat option" where
  "taskFence taskID s =
     List.find (\<lambda>fence. if_taskID (is_fences s ! fence) = taskID) (map snd (is_byScope s) @ map snd (is_byCurrentNode s))"

definition taskActive :: "TaskID \<Rightarrow> currentNodeInterruptState \<Rightarrow> bool" where
  "taskActive taskID s \<longleftrightarrow> taskFence taskID s \<noteq> None"

definition beginTask :: "TaskID \<Rightarrow> currentNodeInterruptState \<Rightarrow> (currentNodeInterruptState \<times> nat) option" where
  "beginTask taskID s =
     (if taskActive taskID s then None
      else Some (s\<lparr>is_fences := is_fences s @ [\<lparr>if_taskID = taskID, if_closed = False\<rparr>]\<rparr>, length (is_fences s)))"

definition addScope :: "nat \<Rightarrow> ScopeID \<Rightarrow> currentNodeInterruptState \<Rightarrow> currentNodeInterruptState option" where
  "addScope fence scopeID s =
     (if map_of (is_byScope s) scopeID \<notin> {None, Some fence} then None
      else Some (s\<lparr>is_byScope := AList.update scopeID fence (is_byScope s)\<rparr>))"

definition addCurrentNode :: "nat \<Rightarrow> CurrentNodeReferenceKey \<Rightarrow> currentNodeInterruptState \<Rightarrow> currentNodeInterruptState option" where
  "addCurrentNode fence key s =
     (if map_of (is_byCurrentNode s) key \<notin> {None, Some fence} then None
      else Some (s\<lparr>is_byCurrentNode := AList.update key fence (is_byCurrentNode s)\<rparr>))"

definition scopeFenced :: "ScopeID \<Rightarrow> currentNodeInterruptState \<Rightarrow> bool" where
  "scopeFenced scopeID s \<longleftrightarrow> mhas (is_byScope s) scopeID"

definition currentNodeFenced :: "CurrentNodeReferenceKey \<Rightarrow> currentNodeInterruptState \<Rightarrow> bool" where
  "currentNodeFenced key s \<longleftrightarrow> mhas (is_byCurrentNode s) key"

definition fenceActive :: "nat \<Rightarrow> currentNodeInterruptState \<Rightarrow> bool" where
  "fenceActive fence s \<longleftrightarrow> fence \<in> set (map snd (is_byScope s)) \<or> fence \<in> set (map snd (is_byCurrentNode s))"

definition finishFence :: "nat option \<Rightarrow> currentNodeInterruptState \<Rightarrow> currentNodeInterruptState" where
  "finishFence fence s =
     (case fence of
        None \<Rightarrow> s
      | Some f \<Rightarrow>
          if if_closed (is_fences s ! f) \<or> fenceActive f s then s
          else s\<lparr>is_fences := (is_fences s)[f := (is_fences s ! f)\<lparr>if_closed := True\<rparr>]\<rparr>)"

definition finishScope :: "ScopeID \<Rightarrow> currentNodeInterruptState \<Rightarrow> currentNodeInterruptState" where
  "finishScope scopeID s =
     finishFence (map_of (is_byScope s) scopeID) (s\<lparr>is_byScope := AList.delete scopeID (is_byScope s)\<rparr>)"

definition finishCurrentNode :: "CurrentNodeReferenceKey \<Rightarrow> currentNodeInterruptState \<Rightarrow> currentNodeInterruptState" where
  "finishCurrentNode key s =
     finishFence (map_of (is_byCurrentNode s) key) (s\<lparr>is_byCurrentNode := AList.delete key (is_byCurrentNode s)\<rparr>)"

section \<open>The controller\<close>

datatype currentNodeAgentCapacityOwner =
    currentNodeAgentCapacityReservation | currentNodeAgentCapacityLive | currentNodeAgentCapacityReleased

datatype admission_error =
    ControllerClosed | LifecycleFailed | ErrTaskExecutionNotQuiescent | ErrExecutionNoLongerLive
  | ReferenceInvalid CurrentNodeError | ExplicitStartAutomatic | AutomaticPolicyRequired
  | SelectionMismatch | ErrManualMoveLifecycleConflict

definition explicitAdmissionConcurrency :: nat where
  "explicitAdmissionConcurrency = 8"

record CurrentNodeController =
  cc_agentConcurrency :: int
  cc_workerWake :: bool
  cc_closed :: bool
  cc_closing :: bool
  cc_explicitQueue :: "currentNodeQueuedStart list"
  cc_explicitQueued :: "(CurrentNodeReferenceKey, unit) gomap"
  cc_explicitReservations :: "(CurrentNodeReferenceKey, currentNodeQueuedStart) gomap"
  cc_automaticQueue :: currentNodeAutomaticQueue
  cc_queued :: "(CurrentNodeReferenceKey, unit) gomap"
  cc_automaticReservations :: "(CurrentNodeReferenceKey, currentNodeQueuedStart) gomap"
  cc_admissionWorkers :: "(CurrentNodeReferenceKey, currentNodeQueuedStart) gomap"
  cc_agentCapacityActive :: int
  cc_interrupts :: currentNodeInterruptState
  cc_workerErr :: bool
  cc_lastAutomaticTask :: "TaskID option"
  cc_leases :: "currentNodeAgentCapacityOwner list"
  cc_completions :: "bool list"

definition NewCurrentNodeController :: "int \<Rightarrow> CurrentNodeController option" where
  "NewCurrentNodeController agentConcurrency =
     (if agentConcurrency \<le> 0 then None
      else Some \<lparr>cc_agentConcurrency = agentConcurrency, cc_workerWake = False, cc_closed = False, cc_closing = False,
        cc_explicitQueue = [], cc_explicitQueued = [], cc_explicitReservations = [], cc_automaticQueue = new_queue,
        cc_queued = [], cc_automaticReservations = [], cc_admissionWorkers = [], cc_agentCapacityActive = 0,
        cc_interrupts = newCurrentNodeInterruptState, cc_workerErr = False, cc_lastAutomaticTask = None,
        cc_leases = [], cc_completions = []\<rparr>)"

text \<open>The wake-up channel holds one token; a send that would block is dropped.\<close>

definition wakeAdmissionWorker :: "CurrentNodeController \<Rightarrow> CurrentNodeController" where
  "wakeAdmissionWorker c = c\<lparr>cc_workerWake := True\<rparr>"

definition newCurrentNodeAdmissionCompletion :: "CurrentNodeController \<Rightarrow> CurrentNodeController \<times> nat" where
  "newCurrentNodeAdmissionCompletion c =
     (c\<lparr>cc_completions := cc_completions c @ [False]\<rparr>, length (cc_completions c))"

definition completion_resolve :: "nat option \<Rightarrow> CurrentNodeController \<Rightarrow> CurrentNodeController" where
  "completion_resolve completion c =
     (case completion of None \<Rightarrow> c | Some n \<Rightarrow> c\<lparr>cc_completions := (cc_completions c)[n := True]\<rparr>)"

definition ensure_completion ::
  "currentNodeQueuedStart \<Rightarrow> CurrentNodeController \<Rightarrow> CurrentNodeController \<times> currentNodeQueuedStart" where
  "ensure_completion start c =
     (case qs_completion start of
        Some _ \<Rightarrow> (c, start)
      | None \<Rightarrow> let (c1, n) = newCurrentNodeAdmissionCompletion c in (c1, start\<lparr>qs_completion := Some n\<rparr>))"

abbreviation start_key :: "currentNodeQueuedStart \<Rightarrow> CurrentNodeError + CurrentNodeReferenceKey" where
  "start_key start \<equiv> CurrentNodeReference_Key (qs_reference start)"

definition ensureAvailableLocked :: "CurrentNodeController \<Rightarrow> admission_error option" where
  "ensureAvailableLocked c =
     (if cc_closed c then Some ControllerClosed else if cc_workerErr c then Some LifecycleFailed else None)"

definition ensureTaskAvailableLocked :: "TaskID \<Rightarrow> CurrentNodeController \<Rightarrow> admission_error option" where
  "ensureTaskAvailableLocked taskID c =
     (case ensureAvailableLocked c of
        Some err \<Rightarrow> Some err
      | None \<Rightarrow> if taskActive taskID (cc_interrupts c) then Some ErrTaskExecutionNotQuiescent else None)"

section \<open>Queueing\<close>

definition currentNodeOwnedLocked :: "CurrentNodeReferenceKey \<Rightarrow> CurrentNodeController \<Rightarrow> bool" where
  "currentNodeOwnedLocked key c \<longleftrightarrow>
     mhas (cc_explicitQueued c) key \<or> mhas (cc_explicitReservations c) key \<or>
     mhas (cc_queued c) key \<or> mhas (cc_automaticReservations c) key"

definition queueExplicitStartLocked ::
  "currentNodeQueuedStart \<Rightarrow> CurrentNodeController \<Rightarrow> CurrentNodeController \<times> admission_error option" where
  "queueExplicitStartLocked start c =
     (if qs_policy start \<noteq> currentNodeAdmissionExplicitOverride then (c, Some ExplicitStartAutomatic)
      else
        let (c1, start1) = ensure_completion start c in
        case start_key start1 of
          Inl err \<Rightarrow> (c1, Some (ReferenceInvalid err))
        | Inr key \<Rightarrow>
            if currentNodeOwnedLocked key c1 then (c1, None)
            else (wakeAdmissionWorker (c1\<lparr>cc_explicitQueue := cc_explicitQueue c1 @ [start1],
                     cc_explicitQueued := AList.update key () (cc_explicitQueued c1)\<rparr>), None))"

definition queueAutomaticStartLocked ::
  "currentNodeQueuedStart \<Rightarrow> CurrentNodeController \<Rightarrow> (CurrentNodeController \<times> admission_error option) option" where
  "queueAutomaticStartLocked start c =
     (if \<not> isAutomatic (qs_policy start) then Some (c, Some AutomaticPolicyRequired)
      else
        let (c1, start1) = ensure_completion start c in
        case start_key start1 of
          Inl err \<Rightarrow> Some (c1, Some (ReferenceInvalid err))
        | Inr key \<Rightarrow>
            if currentNodeOwnedLocked key c1 then Some (c1, None)
            else map_option (\<lambda>q. (wakeAdmissionWorker (c1\<lparr>cc_automaticQueue := q,
                     cc_queued := AList.update key () (cc_queued c1)\<rparr>), None))
                   (queue_append start1 (cc_automaticQueue c1)))"

fun enqueue_loop :: "currentNodeQueuedStart list \<Rightarrow> CurrentNodeController \<Rightarrow> CurrentNodeController option" where
  "enqueue_loop [] c = Some c"
| "enqueue_loop (start # starts) c =
     Option.bind (if isAutomatic (qs_policy start) then queueAutomaticStartLocked start c
                  else Some (queueExplicitStartLocked start c))
       (\<lambda>(c1, err). enqueue_loop starts (if err \<noteq> None then c1\<lparr>cc_workerErr := True\<rparr> else c1))"

definition enqueueStarts :: "currentNodeQueuedStart list \<Rightarrow> CurrentNodeController \<Rightarrow> CurrentNodeController option" where
  "enqueueStarts starts c =
     (if starts = [] \<or> cc_closed c then Some c else map_option wakeAdmissionWorker (enqueue_loop starts c))"

fun queue_prepared_loop ::
  "currentNodeQueuedStart list \<Rightarrow> CurrentNodeController \<Rightarrow> CurrentNodeController \<times> admission_error option" where
  "queue_prepared_loop [] c = (c, None)"
| "queue_prepared_loop (start # starts) c =
     (case queueExplicitStartLocked start c of
        (c1, Some err) \<Rightarrow> (c1, Some err)
      | (c1, None) \<Rightarrow> queue_prepared_loop starts c1)"

definition queuePreparedStarts ::
  "currentNodeQueuedStart list \<Rightarrow> CurrentNodeController \<Rightarrow> CurrentNodeController \<times> admission_error option" where
  "queuePreparedStarts starts c =
     (case queue_prepared_loop starts c of
        (c1, Some err) \<Rightarrow> (c1, Some err)
      | (c1, None) \<Rightarrow> (wakeAdmissionWorker c1, None))"

section \<open>Taking starts\<close>

definition inFlightAdmissionCountLocked :: "currentNodeAdmissionPolicy \<Rightarrow> CurrentNodeController \<Rightarrow> nat" where
  "inFlightAdmissionCountLocked policy c =
     length (filter (\<lambda>(_, start). qs_policy start = policy) (cc_admissionWorkers c))"

definition takeExplicitStart ::
  "CurrentNodeController \<Rightarrow> (CurrentNodeController \<times> currentNodeQueuedStart option) option" where
  "takeExplicitStart c =
     (if cc_closed c \<or> inFlightAdmissionCountLocked currentNodeAdmissionExplicitOverride c \<ge> explicitAdmissionConcurrency
      then Some (c, None)
      else case cc_explicitQueue c of
        [] \<Rightarrow> Some (c, None)
      | start # rest \<Rightarrow>
         (case start_key start of
            Inl _ \<Rightarrow> None
          | Inr key \<Rightarrow>
              let (c1, start1) = ensure_completion start
                    (c\<lparr>cc_explicitQueue := rest, cc_explicitQueued := AList.delete key (cc_explicitQueued c)\<rparr>)
              in Some (c1\<lparr>cc_explicitReservations := AList.update key start1 (cc_explicitReservations c1),
                         cc_admissionWorkers := AList.update key start1 (cc_admissionWorkers c1)\<rparr>, Some start1)))"

definition reserve_capacity ::
  "currentNodeQueuedStart \<Rightarrow> CurrentNodeController \<Rightarrow> CurrentNodeController \<times> currentNodeQueuedStart" where
  "reserve_capacity start c =
     (if countsAgentCapacity (qs_policy start)
      then (c\<lparr>cc_leases := cc_leases c @ [currentNodeAgentCapacityReservation],
              cc_agentCapacityActive := cc_agentCapacityActive c + 1\<rparr>,
            start\<lparr>qs_agentCapacityLease := Some (length (cc_leases c))\<rparr>)
      else (c, start))"

definition takeAutomaticIntent ::
  "CurrentNodeController \<Rightarrow> (CurrentNodeController \<times> currentNodeQueuedStart option) option" where
  "takeAutomaticIntent c =
     (if cc_closed c \<or> queue_len (cc_automaticQueue c) = 0 then Some (c, None)
      else case queue_selectEntry (cc_lastAutomaticTask c) (cc_agentCapacityActive c < cc_agentConcurrency c) (cc_automaticQueue c) of
        None \<Rightarrow> Some (c, None)
      | Some entry \<Rightarrow>
         (case queue_remove entry (cc_automaticQueue c) of
            None \<Rightarrow> None
          | Some (q, start) \<Rightarrow>
             (case start_key start of
                Inl _ \<Rightarrow> None
              | Inr key \<Rightarrow>
                  let (c1, start1) = ensure_completion (start\<lparr>qs_taskPromptDelivery := TaskPromptDeliveryResume\<rparr>)
                        (c\<lparr>cc_automaticQueue := q, cc_queued := AList.delete key (cc_queued c)\<rparr>);
                      (c2, start2) = reserve_capacity start1 c1
                  in Some (c2\<lparr>cc_automaticReservations := AList.update key start2 (cc_automaticReservations c2),
                             cc_admissionWorkers := AList.update key start2 (cc_admissionWorkers c2),
                             cc_lastAutomaticTask := Some (start_task start2)\<rparr>, Some start2))))"

section \<open>Capacity and reservations\<close>

definition transitionAgentCapacityLocked ::
  "nat option \<Rightarrow> currentNodeAgentCapacityOwner \<Rightarrow> currentNodeAgentCapacityOwner \<Rightarrow> CurrentNodeController \<Rightarrow> CurrentNodeController option" where
  "transitionAgentCapacityLocked lease from to c =
     (case lease of
        None \<Rightarrow> Some c
      | Some l \<Rightarrow> if cc_leases c ! l \<noteq> from then None else Some (c\<lparr>cc_leases := (cc_leases c)[l := to]\<rparr>))"

definition releaseAgentCapacityLocked :: "nat option \<Rightarrow> CurrentNodeController \<Rightarrow> CurrentNodeController option" where
  "releaseAgentCapacityLocked lease c =
     (case lease of
        None \<Rightarrow> Some c
      | Some l \<Rightarrow>
          if cc_leases c ! l = currentNodeAgentCapacityReleased then Some c
          else let c1 = c\<lparr>cc_leases := (cc_leases c)[l := currentNodeAgentCapacityReleased]\<rparr>
               in if cc_agentCapacityActive c1 \<le> 0 then None
                  else Some (c1\<lparr>cc_agentCapacityActive := cc_agentCapacityActive c1 - 1\<rparr>))"

definition releaseAgentCapacity :: "nat option \<Rightarrow> CurrentNodeController \<Rightarrow> CurrentNodeController option" where
  "releaseAgentCapacity lease c =
     (if lease = None then Some c
      else map_option (\<lambda>c1. if cc_closed c1 \<or> cc_closing c1 then c1 else wakeAdmissionWorker c1)
             (releaseAgentCapacityLocked lease c))"

definition admissionReservationLocked ::
  "CurrentNodeReferenceKey \<Rightarrow> currentNodeAdmissionPolicy \<Rightarrow> CurrentNodeController \<Rightarrow> currentNodeQueuedStart option" where
  "admissionReservationLocked key policy c =
     (if isAutomatic policy then map_of (cc_automaticReservations c) key else map_of (cc_explicitReservations c) key)"

definition deleteAdmissionReservationLocked ::
  "CurrentNodeReferenceKey \<Rightarrow> currentNodeAdmissionPolicy \<Rightarrow> CurrentNodeController \<Rightarrow> CurrentNodeController" where
  "deleteAdmissionReservationLocked key policy c =
     (if isAutomatic policy then c\<lparr>cc_automaticReservations := AList.delete key (cc_automaticReservations c)\<rparr>
      else c\<lparr>cc_explicitReservations := AList.delete key (cc_explicitReservations c)\<rparr>)"

definition releaseReservation ::
  "CurrentNodeReferenceKey \<Rightarrow> currentNodeAdmissionPolicy \<Rightarrow> nat option \<Rightarrow> CurrentNodeController \<Rightarrow> CurrentNodeController option" where
  "releaseReservation key policy capacityLease c =
     (let reserved = (admissionReservationLocked key policy c \<noteq> None);
          c1 = deleteAdmissionReservationLocked key policy c;
          held = (case capacityLease of None \<Rightarrow> False | Some l \<Rightarrow> cc_leases c1 ! l = currentNodeAgentCapacityReservation)
      in map_option (\<lambda>c2. if (reserved \<or> isAutomatic policy) \<and> \<not> cc_closed c2 then wakeAdmissionWorker c2 else c2)
           (if held then releaseAgentCapacityLocked capacityLease c1 else Some c1))"

definition finishAdmissionWorker :: "currentNodeQueuedStart \<Rightarrow> CurrentNodeController \<Rightarrow> CurrentNodeController option" where
  "finishAdmissionWorker start c =
     (case start_key start of
        Inl _ \<Rightarrow> None
      | Inr key \<Rightarrow>
         (case map_of (cc_admissionWorkers c) key of
            None \<Rightarrow> None
          | Some current \<Rightarrow>
              if qs_completion current \<noteq> qs_completion start \<or> qs_policy current \<noteq> qs_policy start then None
              else let c1 = c\<lparr>cc_admissionWorkers := AList.delete key (cc_admissionWorkers c)\<rparr>
                   in Some (if cc_closed c1 then c1 else wakeAdmissionWorker c1)))"

text \<open>
  The part of an admission under the lock, common to agents and scripts: the task must be
  available and the reservation must still be the worker's own.
\<close>

definition claim_reservation ::
  "currentNodeQueuedStart \<Rightarrow> CurrentNodeReferenceKey \<Rightarrow> CurrentNodeController \<Rightarrow> admission_error + CurrentNodeController" where
  "claim_reservation start key c =
     (case ensureTaskAvailableLocked (start_task start) c of
        Some err \<Rightarrow> Inl err
      | None \<Rightarrow>
         (case admissionReservationLocked key (qs_policy start) c of
            None \<Rightarrow> Inl ErrExecutionNoLongerLive
          | Some reservation \<Rightarrow>
              if qs_completion reservation \<noteq> qs_completion start then Inl ErrExecutionNoLongerLive
              else Inr (deleteAdmissionReservationLocked key (qs_policy start) c)))"

definition admit_agent_section ::
  "currentNodeQueuedStart \<Rightarrow> CurrentNodeReferenceKey \<Rightarrow> CurrentNodeController \<Rightarrow> (admission_error + CurrentNodeController) option" where
  "admit_agent_section start key c =
     (case claim_reservation start key c of
        Inl err \<Rightarrow> Some (Inl err)
      | Inr c1 \<Rightarrow> map_option Inr (transitionAgentCapacityLocked (qs_agentCapacityLease start)
                                   currentNodeAgentCapacityReservation currentNodeAgentCapacityLive c1))"

section \<open>Queries\<close>

definition task_start_queued :: "TaskID \<Rightarrow> currentNodeQueuedStart list \<Rightarrow> bool" where
  "task_start_queued taskID starts \<longleftrightarrow> list_ex (\<lambda>start. start_task start = taskID) starts"

definition task_start_stored :: "TaskID \<Rightarrow> (CurrentNodeReferenceKey, currentNodeQueuedStart) gomap \<Rightarrow> bool" where
  "task_start_stored taskID starts \<longleftrightarrow> list_ex (\<lambda>(_, start). start_task start = taskID) starts"

definition taskHasControllerQueuedWorkLocked :: "TaskID \<Rightarrow> CurrentNodeController \<Rightarrow> bool option" where
  "taskHasControllerQueuedWorkLocked taskID c =
     map_option (\<lambda>automatic.
         task_start_queued taskID automatic \<or> task_start_queued taskID (cc_explicitQueue c) \<or>
         task_start_stored taskID (cc_automaticReservations c) \<or> task_start_stored taskID (cc_explicitReservations c) \<or>
         task_start_stored taskID (cc_admissionWorkers c))
       (queue_starts (cc_automaticQueue c))"

definition taskExecutionQuiescentLocked :: "TaskID \<Rightarrow> CurrentNodeController \<Rightarrow> bool option" where
  "taskExecutionQuiescentLocked taskID c =
     (if taskActive taskID (cc_interrupts c) then Some False
      else map_option (\<lambda>automatic.
         \<not> task_start_queued taskID automatic \<and> \<not> task_start_stored taskID (cc_automaticReservations c) \<and>
         \<not> task_start_queued taskID (cc_explicitQueue c) \<and> \<not> task_start_stored taskID (cc_explicitReservations c) \<and>
         \<not> task_start_stored taskID (cc_admissionWorkers c))
       (queue_starts (cc_automaticQueue c)))"

definition ensureTaskQuiescentLocked :: "TaskID \<Rightarrow> CurrentNodeController \<Rightarrow> admission_error option option" where
  "ensureTaskQuiescentLocked taskID c =
     (case ensureTaskAvailableLocked taskID c of
        Some err \<Rightarrow> Some (Some err)
      | None \<Rightarrow> map_option (\<lambda>quiescent. if quiescent then None else Some ErrTaskExecutionNotQuiescent)
                  (taskExecutionQuiescentLocked taskID c))"

text \<open>The check of every reference of a task that the controller holds; \<open>Key\<close> fails exactly when \<open>Validate\<close> does.\<close>

definition first_reference_error :: "TaskID \<Rightarrow> currentNodeQueuedStart list \<Rightarrow> CurrentNodeError option" where
  "first_reference_error taskID starts =
     (case List.find (\<lambda>start. start_task start = taskID \<and> CurrentNodeReference_Validate (qs_reference start) \<noteq> None) starts of
        None \<Rightarrow> None
      | Some start \<Rightarrow> CurrentNodeReference_Validate (qs_reference start))"

definition validateTaskControllerWorkLocked :: "TaskID \<Rightarrow> CurrentNodeController \<Rightarrow> CurrentNodeError option option" where
  "validateTaskControllerWorkLocked taskID c =
     map_option (\<lambda>automatic. first_reference_error taskID
         (automatic @ cc_explicitQueue c @ map snd (cc_explicitReservations c) @
          map snd (cc_automaticReservations c) @ map snd (cc_admissionWorkers c)))
       (queue_starts (cc_automaticQueue c))"

section \<open>Promotion\<close>

text \<open>An automatic start becomes explicit when a user asks for it: it then bypasses the agent capacity.\<close>

definition promote_start :: "currentNodeQueuedStart \<Rightarrow> CurrentNodeReferenceKey \<Rightarrow> CurrentNodeController \<Rightarrow> CurrentNodeController" where
  "promote_start start key c =
     c\<lparr>cc_queued := AList.delete key (cc_queued c),
       cc_explicitQueue := cc_explicitQueue c @ [start\<lparr>qs_policy := currentNodeAdmissionExplicitOverride\<rparr>],
       cc_explicitQueued := AList.update key () (cc_explicitQueued c)\<rparr>"

fun promote_loop ::
  "currentNodeQueuedStart list \<Rightarrow> CurrentNodeController \<Rightarrow> CurrentNodeController \<times> admission_error option" where
  "promote_loop [] c = (c, None)"
| "promote_loop (start # starts) c =
     (case start_key start of
        Inl err \<Rightarrow> (c, Some (ReferenceInvalid err))
      | Inr key \<Rightarrow> promote_loop starts (promote_start start key c))"

definition PromoteConcurrencyQueuedTask ::
  "TaskID \<Rightarrow> CurrentNodeController \<Rightarrow> (CurrentNodeController \<times> (admission_error + CurrentNodeReference list)) option" where
  "PromoteConcurrencyQueuedTask taskID c =
     (if cc_closed c then Some (c, Inl ControllerClosed)
      else map_option (\<lambda>(q, starts).
         (case promote_loop starts (c\<lparr>cc_automaticQueue := q\<rparr>) of
            (c1, Some err) \<Rightarrow> (c1, Inl err)
          | (c1, None) \<Rightarrow> (if starts = [] then c1 else wakeAdmissionWorker c1, Inr (map qs_reference starts))))
       (queue_removeTask taskID (cc_automaticQueue c)))"

text \<open>The entry of the automatic queue with a given key, along the global links; an invalid reference panics.\<close>

partial_function (option) find_entry ::
  "CurrentNodeReferenceKey \<Rightarrow> entry_store \<Rightarrow> entry_ptr option \<Rightarrow> entry_ptr option option" where
  "find_entry key store entry =
     (case entry of
        None \<Rightarrow> Some None
      | Some p \<Rightarrow>
         (case start_key (qe_start (store ! p)) of
            Inl _ \<Rightarrow> None
          | Inr startKey \<Rightarrow> if startKey = key then Some (Some p) else find_entry key store (qe_globalNext (store ! p))))"

fun find_explicit :: "CurrentNodeReferenceKey \<Rightarrow> currentNodeQueuedStart list \<Rightarrow> currentNodeQueuedStart option option" where
  "find_explicit key [] = Some None"
| "find_explicit key (start # starts) =
     (case start_key start of
        Inl _ \<Rightarrow> None
      | Inr startKey \<Rightarrow> if startKey = key then Some (Some start) else find_explicit key starts)"

definition held_completion :: "CurrentNodeReferenceKey \<Rightarrow> CurrentNodeController \<Rightarrow> nat option" where
  "held_completion key c =
     (case map_of (cc_explicitReservations c) key of
        Some start \<Rightarrow> qs_completion start
      | None \<Rightarrow>
         (case map_of (cc_automaticReservations c) key of
            Some start \<Rightarrow> qs_completion start
          | None \<Rightarrow> Option.bind (map_of (cc_admissionWorkers c) key) qs_completion))"

definition currentNodeAdmissionLocked ::
  "CurrentNodeReferenceKey \<Rightarrow> CurrentNodeController \<Rightarrow> (CurrentNodeController \<times> nat option) option" where
  "currentNodeAdmissionLocked key c =
     (case find_explicit key (cc_explicitQueue c) of
        None \<Rightarrow> None
      | Some (Some start) \<Rightarrow> Some (c, qs_completion start)
      | Some None \<Rightarrow>
         (case find_entry key (q_entries (cc_automaticQueue c)) (ls_first (q_all (cc_automaticQueue c))) of
            None \<Rightarrow> None
          | Some (Some p) \<Rightarrow>
              map_option (\<lambda>(q, start). (wakeAdmissionWorker (promote_start start key (c\<lparr>cc_automaticQueue := q\<rparr>)), qs_completion start))
                (queue_remove p (cc_automaticQueue c))
          | Some None \<Rightarrow> Some (c, held_completion key c)))"

section \<open>Interruption\<close>

record currentNodeAdmissionWait =
  aw_key :: CurrentNodeReferenceKey
  aw_done :: "nat option"

text \<open>The controller, and what the critical section of an interruption collects.\<close>

record interruption =
  ir_controller :: CurrentNodeController
  ir_references :: "CurrentNodeReference list"
  ir_admissionWaits :: "currentNodeAdmissionWait list"

definition fence_start ::
  "nat \<Rightarrow> CurrentNodeReferenceKey \<Rightarrow> currentNodeQueuedStart \<Rightarrow> nat option \<Rightarrow> interruption \<Rightarrow> interruption option" where
  "fence_start fence key start wait r =
     map_option (\<lambda>interrupts. r\<lparr>ir_controller := (ir_controller r)\<lparr>cc_interrupts := interrupts\<rparr>,
         ir_references := ir_references r @ [qs_reference start],
         ir_admissionWaits := ir_admissionWaits r @ [\<lparr>aw_key = key, aw_done = wait\<rparr>]\<rparr>)
       (addCurrentNode fence key (cc_interrupts (ir_controller r)))"

definition on_controller :: "(CurrentNodeController \<Rightarrow> CurrentNodeController) \<Rightarrow> interruption \<Rightarrow> interruption" where
  "on_controller f r = r\<lparr>ir_controller := f (ir_controller r)\<rparr>"

text \<open>
  The drain returns an error when a reference has no key; its callers have validated every
  reference before, under the same lock, and the model leaves the result of that branch undefined
  (\<open>None\<close>, like a panic).
\<close>

fun drain_explicit :: "TaskID \<Rightarrow> nat \<Rightarrow> currentNodeQueuedStart list \<Rightarrow> interruption \<Rightarrow> interruption option" where
  "drain_explicit taskID fence [] r = Some r"
| "drain_explicit taskID fence (start # starts) r =
     (if start_task start \<noteq> taskID
      then drain_explicit taskID fence starts (on_controller (\<lambda>c. c\<lparr>cc_explicitQueue := cc_explicitQueue c @ [start]\<rparr>) r)
      else case start_key start of
        Inl _ \<Rightarrow> None
      | Inr key \<Rightarrow>
          Option.bind (fence_start fence key start None
                        (on_controller (\<lambda>c. c\<lparr>cc_explicitQueued := AList.delete key (cc_explicitQueued c)\<rparr>) r))
            (\<lambda>r1. drain_explicit taskID fence starts (on_controller (completion_resolve (qs_completion start)) r1)))"

fun drain_automatic :: "nat \<Rightarrow> currentNodeQueuedStart list \<Rightarrow> interruption \<Rightarrow> interruption option" where
  "drain_automatic fence [] r = Some r"
| "drain_automatic fence (start # starts) r =
     (case start_key start of
        Inl _ \<Rightarrow> None
      | Inr key \<Rightarrow>
          Option.bind (fence_start fence key start None
                        (on_controller (\<lambda>c. c\<lparr>cc_queued := AList.delete key (cc_queued c)\<rparr>) r))
            (drain_automatic fence starts))"

fun drain_reservations ::
  "bool \<Rightarrow> TaskID \<Rightarrow> nat \<Rightarrow> (CurrentNodeReferenceKey \<times> currentNodeQueuedStart) list \<Rightarrow> interruption \<Rightarrow> interruption option" where
  "drain_reservations automatic taskID fence [] r = Some r"
| "drain_reservations automatic taskID fence ((key, start) # starts) r =
     (if start_task start \<noteq> taskID \<or> mhas (cc_admissionWorkers (ir_controller r)) key
      then drain_reservations automatic taskID fence starts r
      else
        Option.bind
          (if automatic
           then releaseAgentCapacityLocked (qs_agentCapacityLease start)
                  ((ir_controller r)\<lparr>cc_automaticReservations := AList.delete key (cc_automaticReservations (ir_controller r))\<rparr>)
           else Some ((ir_controller r)\<lparr>cc_explicitReservations := AList.delete key (cc_explicitReservations (ir_controller r))\<rparr>))
          (\<lambda>c1. Option.bind (fence_start fence key start (qs_completion start) (r\<lparr>ir_controller := c1\<rparr>))
            (\<lambda>r1. drain_reservations automatic taskID fence starts (on_controller (completion_resolve (qs_completion start)) r1))))"

definition drainTaskControllerWorkLocked :: "TaskID \<Rightarrow> nat \<Rightarrow> interruption \<Rightarrow> interruption option" where
  "drainTaskControllerWorkLocked taskID fence r =
     (let queue = cc_explicitQueue (ir_controller r) in
      Option.bind (drain_explicit taskID fence queue (on_controller (\<lambda>c. c\<lparr>cc_explicitQueue := []\<rparr>) r)) (\<lambda>r1.
      let q = cc_automaticQueue (ir_controller r1) in
      Option.bind (remove_task_loop taskID (ls_first (q_all q)) q []) (\<lambda>(q', starts).
      Option.bind (drain_automatic fence starts (on_controller (\<lambda>c. c\<lparr>cc_automaticQueue := q'\<rparr>) r1)) (\<lambda>r2.
      Option.bind (drain_reservations False taskID fence (cc_explicitReservations (ir_controller r2)) r2) (\<lambda>r3.
      drain_reservations True taskID fence (cc_automaticReservations (ir_controller r3)) r3)))))"

text \<open>
  The critical sections of the two interruptions. An execution that the authority selects is
  given by its scope and its current node. The result is the fence, if one was begun, and what was collected.
\<close>

type_synonym selected_execution = "ScopeID \<times> CurrentNodeReference"

fun fence_scopes :: "nat \<Rightarrow> ScopeID list \<Rightarrow> currentNodeInterruptState \<Rightarrow> currentNodeInterruptState option" where
  "fence_scopes fence [] interrupts = Some interrupts"
| "fence_scopes fence (scope # scopes) interrupts = Option.bind (addScope fence scope interrupts) (fence_scopes fence scopes)"

definition begin_interruption ::
  "TaskID \<Rightarrow> selected_execution list \<Rightarrow> CurrentNodeController \<Rightarrow> (admission_error + nat \<times> interruption) option" where
  "begin_interruption taskID selected c =
     Option.bind (validateTaskControllerWorkLocked taskID c) (\<lambda>invalid.
       case invalid of
         Some err \<Rightarrow> Some (Inl (ReferenceInvalid err))
       | None \<Rightarrow>
          (case beginTask taskID (cc_interrupts c) of
             None \<Rightarrow> Some (Inl ErrTaskExecutionNotQuiescent)
           | Some (interrupts, fence) \<Rightarrow>
               Option.bind (fence_scopes fence (map fst selected) interrupts) (\<lambda>fenced.
               map_option (\<lambda>r. Inr (fence, r))
                 (drainTaskControllerWorkLocked taskID fence
                   \<lparr>ir_controller = c\<lparr>cc_interrupts := fenced\<rparr>, ir_references = map snd selected, ir_admissionWaits = []\<rparr>))))"

definition interruption_refused :: "TaskID \<Rightarrow> selected_execution list \<Rightarrow> CurrentNodeController \<Rightarrow> admission_error option" where
  "interruption_refused taskID selected c =
     (if cc_closed c then Some ControllerClosed
      else if cc_workerErr c then Some LifecycleFailed
      else if taskActive taskID (cc_interrupts c) then Some ErrTaskExecutionNotQuiescent
      else if list_ex (\<lambda>(_, reference). cnr_TaskID reference \<noteq> taskID) selected then Some SelectionMismatch
      else None)"

definition Interrupt_section ::
  "TaskID \<Rightarrow> bool \<Rightarrow> selected_execution list \<Rightarrow> selected_execution list \<Rightarrow> CurrentNodeController
   \<Rightarrow> (admission_error + nat option \<times> interruption) option" where
  "Interrupt_section taskID taskWide interruptible queued c =
     (let selected = (if taskWide then interruptible @ queued else interruptible) in
      case interruption_refused taskID selected c of
        Some err \<Rightarrow> Some (Inl err)
      | None \<Rightarrow>
          if taskWide then map_option (map_sum id (map_prod Some id)) (begin_interruption taskID selected c)
          else Some (Inr (None, \<lparr>ir_controller = c, ir_references = map snd selected, ir_admissionWaits = []\<rparr>)))"

definition InterruptForManualMove_section ::
  "TaskID \<Rightarrow> selected_execution list \<Rightarrow> selected_execution list \<Rightarrow> CurrentNodeController
   \<Rightarrow> (admission_error + nat option \<times> interruption) option" where
  "InterruptForManualMove_section taskID interruptible queued c =
     (if queued \<noteq> [] then Some (Inl ErrManualMoveLifecycleConflict)
      else case interruption_refused taskID interruptible c of
        Some err \<Rightarrow> Some (Inl err)
      | None \<Rightarrow>
         Option.bind (queue_starts (cc_automaticQueue c)) (\<lambda>automatic.
         case first_reference_error taskID (automatic @ cc_explicitQueue c @ map snd (cc_explicitReservations c) @
                map snd (cc_automaticReservations c)) of
           Some err \<Rightarrow> Some (Inl (ReferenceInvalid err))
         | None \<Rightarrow>
            Option.bind (taskHasControllerQueuedWorkLocked taskID c) (\<lambda>work.
              if interruptible \<noteq> [] \<or> work
              then map_option (map_sum id (map_prod Some id)) (begin_interruption taskID interruptible c)
              else Some (Inr (None, \<lparr>ir_controller = c, ir_references = [], ir_admissionWaits = []\<rparr>)))))"

definition finishTaskInterruptAdmissionKey :: "CurrentNodeReferenceKey \<Rightarrow> CurrentNodeController \<Rightarrow> CurrentNodeController" where
  "finishTaskInterruptAdmissionKey key c = c\<lparr>cc_interrupts := finishCurrentNode key (cc_interrupts c)\<rparr>"

definition finishTaskInterruptAdmission :: "CurrentNodeReference \<Rightarrow> CurrentNodeController \<Rightarrow> CurrentNodeController option" where
  "finishTaskInterruptAdmission reference c =
     (case CurrentNodeReference_Key reference of
        Inl _ \<Rightarrow> None
      | Inr key \<Rightarrow> Some (finishTaskInterruptAdmissionKey key c))"

section \<open>Shutdown\<close>

definition close_begin :: "CurrentNodeController \<Rightarrow> CurrentNodeController" where
  "close_begin c = (if cc_closed c then c else c\<lparr>cc_closing := True\<rparr>)"

definition close_queues :: "CurrentNodeController \<Rightarrow> CurrentNodeController" where
  "close_queues c =
     fold (\<lambda>start. completion_resolve (qs_completion start)) (cc_explicitQueue c)
       (c\<lparr>cc_closed := True, cc_closing := False, cc_explicitQueue := [], cc_explicitQueued := [],
          cc_automaticQueue := queue_clear (cc_automaticQueue c), cc_queued := []\<rparr>)"

text \<open>A failed start sets the lifecycle error, unless the controller shuts down.\<close>

definition handleCurrentNodeStartFailures :: "bool \<Rightarrow> CurrentNodeController \<Rightarrow> CurrentNodeController" where
  "handleCurrentNodeStartFailures recovered c =
     (if cc_closed c \<or> cc_closing c \<or> recovered then c else c\<lparr>cc_workerErr := True\<rparr>)"

end
