(* ===== verification/Adm_System.thy ===== *)
theory Adm_System
  imports Adm_Controller
begin

text \<open>
  The admission of current nodes as a system: the controller, the goroutine \<open>runAdmissions\<close>, one
  goroutine \<open>runAdmission\<close> per start taken, the callbacks handed to started agents, and the
  callers that queue, promote, watch and interrupt work or shut the controller down.

  One step is one critical section of \<open>CurrentNodeController.mu\<close>, together with the wake-up that
  is sent right after it. What a worker does outside the lock (preparation, the store, the
  runner) is open: it may succeed or fail at every point. A worker is identified by its
  position; a finished one stays in the list.
\<close>

datatype admission_phase =
    Preparing | Admitting | Publishing | Starting | Releasing | Leaving | Settling | Resolving | Unfencing | Ending | Finished

record admission_worker =
  aw_start :: currentNodeQueuedStart
  aw_phase :: admission_phase

datatype loop_position = Waiting | TakingExplicit | TakingAutomatic | Stopped

record admission_system =
  sy_controller :: CurrentNodeController
  sy_loop :: loop_position
  sy_workers :: "admission_worker list"
  sy_callbacks :: "nat list"

definition initial_system :: "CurrentNodeController \<Rightarrow> admission_system" where
  "initial_system c = \<lparr>sy_controller = c, sy_loop = Waiting, sy_workers = [], sy_callbacks = []\<rparr>"

section \<open>Steps of a worker\<close>

text \<open>
  \<open>admit\<close> and \<open>runAdmission\<close>, cut at the critical sections. \<open>Preparing\<close> is the time until the
  reservation is claimed; \<open>Admitting\<close> and \<open>Starting\<close> the admission and the start of an agent;
  \<open>Publishing\<close> the publication of a script; \<open>Releasing\<close> the error paths of \<open>admitAgent\<close>; then the
  deferred calls in their order.
\<close>

datatype worker_action =
    PreparationFails | TaskMutationFails | ClaimScript | ClaimAgent | AdmissionFails | StartAgent
  | StartFails | StartReturns bool | PublicationReturns bool | ReleaseLease | ReleaseReservation
  | Settle bool | ResolveCompletion | Unfence | FinishWorker

definition worker_wake :: "currentNodeQueuedStart \<Rightarrow> bool \<Rightarrow> CurrentNodeController \<Rightarrow> CurrentNodeController" where
  "worker_wake start success c = (if success \<and> \<not> isAutomatic (qs_policy start) then wakeAdmissionWorker c else c)"

fun worker_enabled :: "worker_action \<Rightarrow> admission_phase \<Rightarrow> bool" where
  "worker_enabled PreparationFails p = (p = Preparing)"
| "worker_enabled TaskMutationFails p = (p = Preparing)"
| "worker_enabled ClaimScript p = (p = Preparing)"
| "worker_enabled ClaimAgent p = (p = Preparing)"
| "worker_enabled AdmissionFails p = (p = Admitting)"
| "worker_enabled StartAgent p = (p = Admitting)"
| "worker_enabled StartFails p = (p = Starting)"
| "worker_enabled (StartReturns _) p = (p = Starting)"
| "worker_enabled (PublicationReturns _) p = (p = Publishing)"
| "worker_enabled ReleaseLease p = (p = Releasing)"
| "worker_enabled ReleaseReservation p = (p = Leaving)"
| "worker_enabled (Settle _) p = (p = Settling)"
| "worker_enabled ResolveCompletion p = (p = Resolving)"
| "worker_enabled Unfence p = (p = Unfencing)"
| "worker_enabled FinishWorker p = (p = Ending)"

fun worker_exec ::
  "worker_action \<Rightarrow> currentNodeQueuedStart \<Rightarrow> CurrentNodeController \<Rightarrow> (CurrentNodeController \<times> admission_phase) option" where
  "worker_exec PreparationFails start c = Some (c, Leaving)"
| "worker_exec TaskMutationFails start c = Some (c, Releasing)"
| "worker_exec ClaimScript start c =
     (case start_key start of
        Inl _ \<Rightarrow> Some (c, Leaving)
      | Inr key \<Rightarrow> (case claim_reservation start key c of
                     Inl _ \<Rightarrow> Some (c, Leaving)
                   | Inr c1 \<Rightarrow> Some (c1, Publishing)))"
| "worker_exec ClaimAgent start c =
     (case start_key start of
        Inl _ \<Rightarrow> Some (c, Leaving)
      | Inr key \<Rightarrow> map_option (\<lambda>r. case r of Inl _ \<Rightarrow> (c, Releasing) | Inr c1 \<Rightarrow> (c1, Admitting)) (admit_agent_section start key c))"
| "worker_exec AdmissionFails start c = Some (c, Releasing)"
| "worker_exec StartAgent start c = Some (c, Starting)"
| "worker_exec StartFails start c = Some (c, Releasing)"
| "worker_exec (StartReturns success) start c = Some (worker_wake start success c, Leaving)"
| "worker_exec (PublicationReturns success) start c = Some (worker_wake start success c, Leaving)"
| "worker_exec ReleaseLease start c =
     map_option (\<lambda>c1. (c1, Leaving)) (releaseAgentCapacityLocked (qs_agentCapacityLease start) c)"
| "worker_exec ReleaseReservation start c =
     (case start_key start of
        Inl _ \<Rightarrow> Some (c, Settling)
      | Inr key \<Rightarrow> map_option (\<lambda>c1. (c1, Settling)) (releaseReservation key (qs_policy start) (qs_agentCapacityLease start) c))"
| "worker_exec (Settle recovered) start c = Some (handleCurrentNodeStartFailures recovered c, Resolving)"
| "worker_exec ResolveCompletion start c = Some (completion_resolve (qs_completion start) c, Unfencing)"
| "worker_exec Unfence start c = map_option (\<lambda>c1. (c1, Ending)) (finishTaskInterruptAdmission (qs_reference start) c)"
| "worker_exec FinishWorker start c = map_option (\<lambda>c1. (c1, Finished)) (finishAdmissionWorker start c)"

section \<open>Steps of the system\<close>

datatype admission_action =
    Wake | StopLoop | TakeExplicit | TakeAutomatic
  | Worker nat worker_action | ReleaseCallback nat
  | EnqueueStarts "currentNodeQueuedStart list" | QueuePrepared "currentNodeQueuedStart list"
  | Promote TaskID | Watch CurrentNodeReferenceKey
  | InterruptTask TaskID bool "ScopeID list" "ScopeID list" | InterruptMove TaskID "ScopeID list" "ScopeID list"
  | EndScope ScopeID | EndKey CurrentNodeReferenceKey
  | CloseBegin | CloseQueues

text \<open>A start that is queued comes from \<open>prepareStarts\<close>: it has an unresolved completion of its own and no lease.\<close>

definition prepared :: "currentNodeQueuedStart \<Rightarrow> bool" where
  "prepared start \<longleftrightarrow> qs_agentCapacityLease start = None \<and> qs_completion start = None"

fun enabled :: "admission_action \<Rightarrow> admission_system \<Rightarrow> bool" where
  "enabled Wake s \<longleftrightarrow> sy_loop s = Waiting \<and> cc_workerWake (sy_controller s)"
| "enabled StopLoop s \<longleftrightarrow> sy_loop s = Waiting \<and> (cc_closing (sy_controller s) \<or> cc_closed (sy_controller s))"
| "enabled TakeExplicit s \<longleftrightarrow> sy_loop s = TakingExplicit"
| "enabled TakeAutomatic s \<longleftrightarrow> sy_loop s = TakingAutomatic"
| "enabled (Worker i a) s \<longleftrightarrow> i < length (sy_workers s) \<and> worker_enabled a (aw_phase (sy_workers s ! i))"
| "enabled (ReleaseCallback l) s \<longleftrightarrow> l \<in> set (sy_callbacks s)"
| "enabled (EnqueueStarts starts) s \<longleftrightarrow> list_all prepared starts"
| "enabled (QueuePrepared starts) s \<longleftrightarrow> list_all prepared starts"
| "enabled _ s \<longleftrightarrow> True"

definition spawn :: "currentNodeQueuedStart \<Rightarrow> admission_system \<Rightarrow> admission_system" where
  "spawn start s = s\<lparr>sy_workers := sy_workers s @ [\<lparr>aw_start = start, aw_phase = Preparing\<rparr>], sy_loop := TakingExplicit\<rparr>"

definition with_controller :: "admission_system \<Rightarrow> CurrentNodeController \<Rightarrow> admission_system" where
  "with_controller s c = s\<lparr>sy_controller := c\<rparr>"

definition after_section :: "CurrentNodeController \<Rightarrow> (admission_error + 'a \<times> interruption) \<Rightarrow> CurrentNodeController" where
  "after_section c r = (case r of Inl _ \<Rightarrow> c | Inr (_, r') \<Rightarrow> ir_controller r')"

text \<open>
  \<open>scopeNode\<close> is the current node that the session authority has registered for an execution scope.
\<close>

fun exec :: "(ScopeID \<Rightarrow> CurrentNodeReference) \<Rightarrow> admission_action \<Rightarrow> admission_system \<Rightarrow> admission_system option" where
  "exec scopeNode Wake s = Some (s\<lparr>sy_controller := (sy_controller s)\<lparr>cc_workerWake := False\<rparr>, sy_loop := TakingExplicit\<rparr>)"
| "exec scopeNode StopLoop s = Some (s\<lparr>sy_loop := Stopped\<rparr>)"
| "exec scopeNode TakeExplicit s =
     map_option (\<lambda>(c, taken). case taken of
         None \<Rightarrow> (with_controller s c)\<lparr>sy_loop := TakingAutomatic\<rparr>
       | Some start \<Rightarrow> spawn start (with_controller s c)) (takeExplicitStart (sy_controller s))"
| "exec scopeNode TakeAutomatic s =
     map_option (\<lambda>(c, taken). case taken of
         None \<Rightarrow> (with_controller s c)\<lparr>sy_loop := Waiting\<rparr>
       | Some start \<Rightarrow> spawn start (with_controller s c)) (takeAutomaticIntent (sy_controller s))"
| "exec scopeNode (Worker i a) s =
     (let w = sy_workers s ! i in
      map_option (\<lambda>(c, phase). s\<lparr>sy_controller := c, sy_workers := (sy_workers s)[i := w\<lparr>aw_phase := phase\<rparr>],
          sy_callbacks := (case (a, qs_agentCapacityLease (aw_start w)) of
              (StartAgent, Some l) \<Rightarrow> l # sy_callbacks s | _ \<Rightarrow> sy_callbacks s)\<rparr>)
        (worker_exec a (aw_start w) (sy_controller s)))"
| "exec scopeNode (ReleaseCallback l) s = map_option (with_controller s) (releaseAgentCapacity (Some l) (sy_controller s))"
| "exec scopeNode (EnqueueStarts starts) s = map_option (with_controller s) (enqueueStarts starts (sy_controller s))"
| "exec scopeNode (QueuePrepared starts) s = Some (with_controller s (fst (queuePreparedStarts starts (sy_controller s))))"
| "exec scopeNode (Promote t) s = map_option (\<lambda>(c, _). with_controller s c) (PromoteConcurrencyQueuedTask t (sy_controller s))"
| "exec scopeNode (Watch key) s = map_option (\<lambda>(c, _). with_controller s c) (currentNodeAdmissionLocked key (sy_controller s))"
| "exec scopeNode (InterruptTask t taskWide scopes queued) s =
     (let select = map (\<lambda>scope. (scope, scopeNode scope)) in
      map_option (\<lambda>r. with_controller s (after_section (sy_controller s) r))
        (Interrupt_section t taskWide (select scopes) (select queued) (sy_controller s)))"
| "exec scopeNode (InterruptMove t scopes queued) s =
     (let select = map (\<lambda>scope. (scope, scopeNode scope)) in
      map_option (\<lambda>r. with_controller s (after_section (sy_controller s) r))
        (InterruptForManualMove_section t (select scopes) (select queued) (sy_controller s)))"
| "exec scopeNode (EndScope scope) s =
     Some (with_controller s ((sy_controller s)\<lparr>cc_interrupts := finishScope scope (cc_interrupts (sy_controller s))\<rparr>))"
| "exec scopeNode (EndKey key) s = Some (with_controller s (finishTaskInterruptAdmissionKey key (sy_controller s)))"
| "exec scopeNode CloseBegin s = Some (with_controller s (close_begin (sy_controller s)))"
| "exec scopeNode CloseQueues s =
     Some (if cc_closing (sy_controller s) then with_controller s (close_queues (sy_controller s)) else s)"

inductive reachable :: "int \<Rightarrow> (ScopeID \<Rightarrow> CurrentNodeReference) \<Rightarrow> admission_system \<Rightarrow> bool" for agentConcurrency scopeNode where
  reachable_init: "NewCurrentNodeController agentConcurrency = Some c \<Longrightarrow> reachable agentConcurrency scopeNode (initial_system c)"
| reachable_step: "reachable agentConcurrency scopeNode s \<Longrightarrow> enabled a s \<Longrightarrow> exec scopeNode a s = Some s' \<Longrightarrow>
    reachable agentConcurrency scopeNode s'"

inductive_cases reachableE: "reachable agentConcurrency scopeNode s"

end
