(* ===== verification/Adm_Invariant.thy ===== *)
theory Adm_Invariant
  imports Adm_System
begin

text \<open>
  The invariant of the controller state (\<open>controller_ok\<close>) and the relation \<open>queue_step\<close> that every
  operation on the queues keeps: what may and what may not change. The operations that take
  starts or move capacity are treated in \<open>Adm_Safety\<close>.
\<close>

section \<open>The invariant of the queues\<close>

definition the_key :: "currentNodeQueuedStart \<Rightarrow> CurrentNodeReferenceKey" where
  "the_key start = projr (start_key start)"

definition keyed :: "currentNodeQueuedStart \<Rightarrow> bool" where
  "keyed start \<longleftrightarrow> start_key start = Inr (the_key start)"

lemma start_key_Inr: "start_key start = Inr key \<Longrightarrow> keyed start \<and> the_key start = key"
  by (simp add: keyed_def the_key_def)

lemma the_key_update [simp]:
  "the_key (start\<lparr>qs_completion := x\<rparr>) = the_key start"
  "the_key (start\<lparr>qs_policy := p\<rparr>) = the_key start"
  "the_key (start\<lparr>qs_taskPromptDelivery := d\<rparr>) = the_key start"
  "the_key (start\<lparr>qs_agentCapacityLease := l\<rparr>) = the_key start"
  "keyed (start\<lparr>qs_completion := x\<rparr>) = keyed start"
  "keyed (start\<lparr>qs_policy := p\<rparr>) = keyed start"
  "keyed (start\<lparr>qs_taskPromptDelivery := d\<rparr>) = keyed start"
  "keyed (start\<lparr>qs_agentCapacityLease := l\<rparr>) = keyed start"
  by (simp_all add: the_key_def keyed_def)

lemma keyed_start_key [simp]: "keyed start \<Longrightarrow> start_key start = Inr (the_key start)"
  by (simp add: keyed_def)

text \<open>The starts of the automatic queue, in order; all queued starts.\<close>

definition automatic_starts :: "CurrentNodeController \<Rightarrow> currentNodeQueuedStart list" where
  "automatic_starts c = the (queue_starts (cc_automaticQueue c))"

definition queued_starts :: "CurrentNodeController \<Rightarrow> currentNodeQueuedStart list" where
  "queued_starts c = cc_explicitQueue c @ automatic_starts c"

definition reserved_key :: "CurrentNodeController \<Rightarrow> CurrentNodeReferenceKey \<Rightarrow> bool" where
  "reserved_key c key \<longleftrightarrow> mhas (cc_explicitReservations c) key \<or> mhas (cc_automaticReservations c) key"

definition completion_in :: "CurrentNodeController \<Rightarrow> currentNodeQueuedStart \<Rightarrow> bool" where
  "completion_in c start \<longleftrightarrow> (\<exists>n < length (cc_completions c). qs_completion start = Some n)"

definition queued_ok :: "CurrentNodeController \<Rightarrow> currentNodeQueuedStart \<Rightarrow> bool" where
  "queued_ok c start \<longleftrightarrow> keyed start \<and> qs_agentCapacityLease start = None \<and> completion_in c start \<and> \<not> reserved_key c (the_key start)"

definition controller_ok :: "CurrentNodeController \<Rightarrow> bool" where
  "controller_ok c \<longleftrightarrow>
     queue_holds (cc_automaticQueue c) (automatic_starts c) \<and>
     (\<forall>start \<in> set (queued_starts c). queued_ok c start) \<and>
     (\<forall>start \<in> set (cc_explicitQueue c). \<not> isAutomatic (qs_policy start)) \<and>
     distinct (map the_key (queued_starts c)) \<and> distinct (map qs_completion (queued_starts c)) \<and>
     (\<forall>key. mhas (cc_explicitQueued c) key \<longleftrightarrow> key \<in> the_key ` set (cc_explicitQueue c)) \<and>
     (\<forall>key. mhas (cc_queued c) key \<longleftrightarrow> key \<in> the_key ` set (automatic_starts c)) \<and>
     (\<forall>key. \<not> (mhas (cc_explicitReservations c) key \<and> mhas (cc_automaticReservations c) key)) \<and>
     (\<forall>key. reserved_key c key \<longrightarrow> mhas (cc_admissionWorkers c) key)"

lemma queue_holds_starts: "queue_holds (cc_automaticQueue c) starts \<Longrightarrow> automatic_starts c = starts"
  by (simp add: automatic_starts_def automatic_queue.starts_holds)

text \<open>
  What an operation on the queues keeps: workers, reservations and capacity are as before; the
  wake-up token is not taken; unless the token is set nothing is added to a queue; the starts in
  the queues are old ones, up to their policy, or have a new completion; completions stay resolved.
\<close>

definition same_ownership :: "CurrentNodeController \<Rightarrow> CurrentNodeController \<Rightarrow> bool" where
  "same_ownership c c' \<longleftrightarrow>
     cc_agentConcurrency c' = cc_agentConcurrency c \<and> cc_leases c' = cc_leases c \<and>
     cc_agentCapacityActive c' = cc_agentCapacityActive c \<and> cc_admissionWorkers c' = cc_admissionWorkers c \<and>
     cc_explicitReservations c' = cc_explicitReservations c \<and> cc_automaticReservations c' = cc_automaticReservations c"

definition wake_kept :: "CurrentNodeController \<Rightarrow> CurrentNodeController \<Rightarrow> bool" where
  "wake_kept c c' \<longleftrightarrow>
     (cc_closed c \<longrightarrow> cc_closed c') \<and> (cc_closing c \<or> cc_closed c \<longrightarrow> cc_closing c' \<or> cc_closed c') \<and>
     (cc_workerWake c \<longrightarrow> cc_workerWake c') \<and>
     (\<not> cc_workerWake c' \<longrightarrow> set (cc_explicitQueue c') \<subseteq> set (cc_explicitQueue c) \<and> set (automatic_starts c') \<subseteq> set (automatic_starts c))"

definition completions_of :: "currentNodeQueuedStart list \<Rightarrow> nat option set" where
  "completions_of starts = qs_completion ` set starts"

definition completions_kept :: "CurrentNodeController \<Rightarrow> CurrentNodeController \<Rightarrow> bool" where
  "completions_kept c c' \<longleftrightarrow>
     length (cc_completions c) \<le> length (cc_completions c') \<and>
     (\<forall>n < length (cc_completions c).
        (cc_completions c ! n \<longrightarrow> cc_completions c' ! n) \<and>
        (Some n \<in> completions_of (queued_starts c') \<longrightarrow> Some n \<in> completions_of (queued_starts c)) \<and>
        (Some n \<in> completions_of (cc_explicitQueue c) \<longrightarrow> cc_completions c' ! n \<or> Some n \<in> completions_of (cc_explicitQueue c')))"

definition queue_step :: "CurrentNodeController \<Rightarrow> CurrentNodeController \<Rightarrow> bool" where
  "queue_step c c' \<longleftrightarrow> same_ownership c c' \<and> wake_kept c c' \<and> completions_kept c c'"

lemma queue_step_refl [simp, intro]: "queue_step c c"
  by (simp add: queue_step_def same_ownership_def wake_kept_def completions_kept_def)

lemma completions_kept_trans: "completions_kept a b \<Longrightarrow> completions_kept b c \<Longrightarrow> completions_kept a c"
  unfolding completions_kept_def by (meson order_less_le_trans order_trans)

lemma wake_kept_trans: "wake_kept a b \<Longrightarrow> wake_kept b c \<Longrightarrow> wake_kept a c"
  unfolding wake_kept_def by (meson subset_trans)

lemma same_ownership_trans: "same_ownership a b \<Longrightarrow> same_ownership b c \<Longrightarrow> same_ownership a c"
  by (simp add: same_ownership_def)

lemma queue_step_trans [trans]: "queue_step a b \<Longrightarrow> queue_step b c \<Longrightarrow> queue_step a c"
  unfolding queue_step_def using same_ownership_trans wake_kept_trans completions_kept_trans by blast

section \<open>Operations on the queues\<close>

lemma controller_ok_cong:
  assumes "controller_ok c"
    and "cc_automaticQueue c' = cc_automaticQueue c" and "cc_explicitQueue c' = cc_explicitQueue c"
    and "cc_explicitQueued c' = cc_explicitQueued c" and "cc_queued c' = cc_queued c"
    and "cc_explicitReservations c' = cc_explicitReservations c" and "cc_automaticReservations c' = cc_automaticReservations c"
    and "cc_admissionWorkers c' = cc_admissionWorkers c" and "length (cc_completions c) \<le> length (cc_completions c')"
  shows "controller_ok c'"
proof -
  have "automatic_starts c' = automatic_starts c" using assms(2) by (simp add: automatic_starts_def)
  then have "queued_starts c' = queued_starts c" using assms(3) by (simp add: queued_starts_def)
  moreover have "completion_in c' start" if "completion_in c start" for start
    using that assms(9) by (auto simp: completion_in_def intro: less_le_trans)
  ultimately show ?thesis using assms \<open>automatic_starts c' = automatic_starts c\<close>
    by (auto simp: controller_ok_def queued_ok_def reserved_key_def)
qed

lemma automatic_starts_update [simp]:
  "automatic_starts (c\<lparr>cc_explicitQueue := x1\<rparr>) = automatic_starts c"
  "automatic_starts (c\<lparr>cc_explicitQueued := x2\<rparr>) = automatic_starts c"
  "automatic_starts (c\<lparr>cc_queued := x3\<rparr>) = automatic_starts c"
  "automatic_starts (c\<lparr>cc_completions := x4\<rparr>) = automatic_starts c"
  "automatic_starts (c\<lparr>cc_workerWake := x5\<rparr>) = automatic_starts c"
  "automatic_starts (c\<lparr>cc_interrupts := x6\<rparr>) = automatic_starts c"
  "automatic_starts (c\<lparr>cc_workerErr := x7\<rparr>) = automatic_starts c"
  "automatic_starts (c\<lparr>cc_leases := x8\<rparr>) = automatic_starts c"
  "automatic_starts (c\<lparr>cc_agentCapacityActive := x9\<rparr>) = automatic_starts c"
  "automatic_starts (c\<lparr>cc_explicitReservations := x10\<rparr>) = automatic_starts c"
  "automatic_starts (c\<lparr>cc_automaticReservations := x11\<rparr>) = automatic_starts c"
  "automatic_starts (c\<lparr>cc_admissionWorkers := x12\<rparr>) = automatic_starts c"
  "automatic_starts (c\<lparr>cc_lastAutomaticTask := x13\<rparr>) = automatic_starts c"
  "automatic_starts (c\<lparr>cc_closed := x14\<rparr>) = automatic_starts c"
  "automatic_starts (c\<lparr>cc_closing := x15\<rparr>) = automatic_starts c"
  by (simp_all add: automatic_starts_def)

lemma automatic_starts_queue [simp]:
  "queue_holds q starts \<Longrightarrow> automatic_starts (c\<lparr>cc_automaticQueue := q\<rparr>) = starts"
  by (simp add: queue_holds_starts)

lemma controller_holds: "controller_ok c \<Longrightarrow> queue_holds (cc_automaticQueue c) (automatic_starts c)"
  by (simp add: controller_ok_def)

lemma wake_ok [simp]: "controller_ok (wakeAdmissionWorker c) = controller_ok c"
  by (auto elim: controller_ok_cong simp: wakeAdmissionWorker_def)

lemma wake_interrupts [simp]: "cc_interrupts (wakeAdmissionWorker c) = cc_interrupts c"
  by (simp add: wakeAdmissionWorker_def)

lemma wake_step [simp, intro]: "queue_step c (wakeAdmissionWorker c)"
  by (simp add: queue_step_def same_ownership_def wake_kept_def completions_kept_def wakeAdmissionWorker_def queued_starts_def)

lemma owned_iff:
  "controller_ok c \<Longrightarrow> currentNodeOwnedLocked key c \<longleftrightarrow> key \<in> the_key ` set (queued_starts c) \<or> reserved_key c key"
  by (auto simp: controller_ok_def currentNodeOwnedLocked_def reserved_key_def queued_starts_def simp del: not_None_eq)

lemma ensure_completion_None:
  "qs_completion start = None \<Longrightarrow> ensure_completion start c =
     (c\<lparr>cc_completions := cc_completions c @ [False]\<rparr>, start\<lparr>qs_completion := Some (length (cc_completions c))\<rparr>)"
  by (simp add: ensure_completion_def newCurrentNodeAdmissionCompletion_def)

lemma ensure_completion_Some: "completion_in c start \<Longrightarrow> ensure_completion start c = (c, start)"
  by (auto simp: ensure_completion_def completion_in_def)

lemma fresh_completion:
  assumes "controller_ok c"
  shows "Some (length (cc_completions c)) \<notin> completions_of (queued_starts c)"
  using assms by (auto simp: controller_ok_def queued_ok_def completion_in_def completions_of_def image_iff)

lemma alloc_ok:
  assumes "controller_ok c"
  shows "controller_ok (c\<lparr>cc_completions := cc_completions c @ [False]\<rparr>)" "queue_step c (c\<lparr>cc_completions := cc_completions c @ [False]\<rparr>)"
proof -
  show "controller_ok (c\<lparr>cc_completions := cc_completions c @ [False]\<rparr>)" using assms by (rule controller_ok_cong) simp_all
  show "queue_step c (c\<lparr>cc_completions := cc_completions c @ [False]\<rparr>)"
    by (simp add: queue_step_def same_ownership_def wake_kept_def completions_kept_def nth_append queued_starts_def)
qed

text \<open>Adding a start at the end of one of the queues.\<close>

definition new_for :: "CurrentNodeController \<Rightarrow> currentNodeQueuedStart \<Rightarrow> bool" where
  "new_for c start \<longleftrightarrow> queued_ok c start \<and> the_key start \<notin> the_key ` set (queued_starts c) \<and>
     qs_completion start \<notin> completions_of (queued_starts c)"

lemma add_explicit_ok:
  assumes "controller_ok c" and "new_for c start" and "\<not> isAutomatic (qs_policy start)"
  shows "controller_ok (c\<lparr>cc_explicitQueue := cc_explicitQueue c @ [start],
    cc_explicitQueued := AList.update (the_key start) () (cc_explicitQueued c)\<rparr>)"
  using assms
  by (auto simp: controller_ok_def new_for_def queued_starts_def queued_ok_def completion_in_def reserved_key_def completions_of_def simp del: not_None_eq)

lemma add_automatic_ok:
  assumes "controller_ok c" and "new_for c start" and "queue_holds q (automatic_starts c @ [start])"
  shows "controller_ok (c\<lparr>cc_automaticQueue := q, cc_queued := AList.update (the_key start) () (cc_queued c)\<rparr>)"
  using assms
  by (auto simp: controller_ok_def new_for_def queued_starts_def queued_ok_def completion_in_def reserved_key_def completions_of_def simp del: not_None_eq)

lemma queue_step_add:
  assumes "qs_completion start = Some (length (cc_completions c))"
    and "cc_explicitQueue c' = cc_explicitQueue c @ es" and "automatic_starts c' = automatic_starts c @ as" and "set (es @ as) \<subseteq> {start}"
    and "same_ownership c c'" and "cc_workerWake c'" and "cc_closed c' = cc_closed c" and "cc_closing c' = cc_closing c"
    and "cc_completions c' = cc_completions c @ [False]"
  shows "queue_step c c'"
  using assms
  by (auto simp: queue_step_def wake_kept_def completions_kept_def completions_of_def queued_starts_def nth_append)

lemma queueExplicitStart_ok:
  assumes "controller_ok c" and "prepared start"
  shows "controller_ok (fst (queueExplicitStartLocked start c))" "queue_step c (fst (queueExplicitStartLocked start c))"
proof -
  let ?c = "c\<lparr>cc_completions := cc_completions c @ [False]\<rparr>" and ?start = "start\<lparr>qs_completion := Some (length (cc_completions c))\<rparr>"
  have e: "ensure_completion start c = (?c, ?start)" using assms(2) by (simp add: prepared_def ensure_completion_None)
  note ok = alloc_ok [OF assms(1)]
  have new: "new_for ?c ?start" if "start_key start = Inr key" "\<not> currentNodeOwnedLocked key ?c" for key
    using that assms fresh_completion [OF assms(1)] owned_iff [OF ok(1), of key] start_key_Inr [OF that(1)]
    by (auto simp: new_for_def queued_ok_def prepared_def completion_in_def queued_starts_def)
  show "controller_ok (fst (queueExplicitStartLocked start c))"
    using ok(1) assms(1) add_explicit_ok [OF ok(1) new]
    by (auto simp: queueExplicitStartLocked_def e isAutomatic_def split: sum.splits dest!: start_key_Inr)
  show "queue_step c (fst (queueExplicitStartLocked start c))"
    using ok(2) by (auto simp: queueExplicitStartLocked_def e wakeAdmissionWorker_def same_ownership_def split: sum.splits
      intro!: queue_step_add [of ?start _ _ "[?start]" "[]"])
qed

lemma queue_append_holds:
  assumes "queue_holds q starts" and "isAutomatic (qs_policy start)" and "queue_append start q = Some q'"
  shows "queue_holds q' (starts @ [start])"
  using automatic_queue.append_holds [OF assms(1,2)] assms(3)
  by (cases "queue_room q") (auto simp: queue_append_def queue_room_def)

lemma queueAutomaticStart_ok:
  assumes "controller_ok c" and "prepared start" and "queueAutomaticStartLocked start c = Some (c', err)"
  shows "controller_ok c'" "queue_step c c'"
proof -
  let ?c = "c\<lparr>cc_completions := cc_completions c @ [False]\<rparr>" and ?start = "start\<lparr>qs_completion := Some (length (cc_completions c))\<rparr>"
  have e: "ensure_completion start c = (?c, ?start)" using assms(2) by (simp add: prepared_def ensure_completion_None)
  note ok = alloc_ok [OF assms(1)]
  have new: "new_for ?c ?start" if "start_key start = Inr key" "\<not> currentNodeOwnedLocked key ?c" for key
    using that assms fresh_completion [OF assms(1)] owned_iff [OF ok(1), of key] start_key_Inr [OF that(1)]
    by (auto simp: new_for_def queued_ok_def prepared_def completion_in_def queued_starts_def)
  have holds: "queue_holds q (automatic_starts c @ [?start])"
    if "queue_append ?start (cc_automaticQueue c) = Some q" "isAutomatic (qs_policy start)" for q
    using that queue_append_holds [OF controller_holds [OF assms(1)], of ?start] by simp
  show "controller_ok c'"
    using assms(1,3) ok(1) add_automatic_ok [OF ok(1) new] holds
    by (auto simp: queueAutomaticStartLocked_def e split: sum.splits if_splits dest!: start_key_Inr)
  show "queue_step c c'"
    using assms(3) ok(2) holds
    by (auto simp: queueAutomaticStartLocked_def e wakeAdmissionWorker_def same_ownership_def split: sum.splits if_splits
      intro!: queue_step_add [of ?start _ _ "[]" "[?start]"])
qed

lemma workerErr_ok [simp]: "controller_ok (c\<lparr>cc_workerErr := x\<rparr>) = controller_ok c"
  by (auto elim: controller_ok_cong)

lemma workerErr_step [simp, intro]: "queue_step c (c\<lparr>cc_workerErr := x\<rparr>)"
  by (simp add: queue_step_def same_ownership_def wake_kept_def completions_kept_def queued_starts_def)

lemma enqueue_loop_ok:
  "controller_ok c \<Longrightarrow> list_all prepared starts \<Longrightarrow> enqueue_loop starts c = Some c' \<Longrightarrow> controller_ok c' \<and> queue_step c c'"
proof (induction starts arbitrary: c)
  case (Cons start starts)
  from Cons.prems(3) obtain c1 err where
    q: "(if isAutomatic (qs_policy start) then queueAutomaticStartLocked start c else Some (queueExplicitStartLocked start c)) = Some (c1, err)"
    and rest: "enqueue_loop starts (if err \<noteq> None then c1\<lparr>cc_workerErr := True\<rparr> else c1) = Some c'"
    by (auto simp: bind_eq_Some_conv simp del: not_None_eq)
  let ?c = "if err \<noteq> None then c1\<lparr>cc_workerErr := True\<rparr> else c1"
  have "prepared start" using Cons.prems(2) by simp
  have "controller_ok c1 \<and> queue_step c c1"
  proof (cases "isAutomatic (qs_policy start)")
    case True
    with q queueAutomaticStart_ok [OF Cons.prems(1) \<open>prepared start\<close>] show ?thesis by simp
  next
    case False
    with q queueExplicitStart_ok [OF Cons.prems(1) \<open>prepared start\<close>] show ?thesis by simp
  qed
  then have "controller_ok ?c" "queue_step c ?c" by (auto intro: queue_step_trans)
  with Cons.IH [OF _ _ rest] Cons.prems(2) show ?case by (auto intro: queue_step_trans)
qed simp

lemma enqueueStarts_ok:
  assumes "controller_ok c" and "list_all prepared starts" and "enqueueStarts starts c = Some c'"
  shows "controller_ok c' \<and> queue_step c c'"
  using assms enqueue_loop_ok [OF assms(1,2)]
  by (auto simp: enqueueStarts_def split: if_splits intro: queue_step_trans)

lemma queue_prepared_loop_ok:
  "controller_ok c \<Longrightarrow> list_all prepared starts \<Longrightarrow> queue_prepared_loop starts c = (c', err) \<Longrightarrow> controller_ok c' \<and> queue_step c c'"
proof (induction starts arbitrary: c)
  case (Cons start starts)
  have "controller_ok (fst (queueExplicitStartLocked start c))" "queue_step c (fst (queueExplicitStartLocked start c))"
    using queueExplicitStart_ok [OF Cons.prems(1)] Cons.prems(2) by simp_all
  with Cons.IH Cons.prems(2,3) show ?case
    by (auto split: prod.splits option.splits intro: queue_step_trans)
qed simp

lemma queuePreparedStarts_ok:
  assumes "controller_ok c" and "list_all prepared starts"
  shows "controller_ok (fst (queuePreparedStarts starts c)) \<and> queue_step c (fst (queuePreparedStarts starts c))"
  using queue_prepared_loop_ok [OF assms]
  by (auto simp: queuePreparedStarts_def split: prod.splits option.splits intro: queue_step_trans)

section \<open>Promotion\<close>

text \<open>
  The starts that a promotion has taken out of the automatic queue, and has yet to append to the
  explicit one, are the list \<open>moving\<close>.
\<close>

definition moving_ok :: "currentNodeQueuedStart list \<Rightarrow> CurrentNodeController \<Rightarrow> bool" where
  "moving_ok moving c \<longleftrightarrow>
     queue_holds (cc_automaticQueue c) (automatic_starts c) \<and>
     (\<forall>start \<in> set (queued_starts c @ moving). queued_ok c start) \<and>
     (\<forall>start \<in> set (cc_explicitQueue c). \<not> isAutomatic (qs_policy start)) \<and>
     distinct (map the_key (queued_starts c @ moving)) \<and> distinct (map qs_completion (queued_starts c @ moving)) \<and>
     (\<forall>key. mhas (cc_explicitQueued c) key \<longleftrightarrow> key \<in> the_key ` set (cc_explicitQueue c)) \<and>
     (\<forall>key. mhas (cc_queued c) key \<longleftrightarrow> key \<in> the_key ` set (automatic_starts c @ moving)) \<and>
     (\<forall>key. \<not> (mhas (cc_explicitReservations c) key \<and> mhas (cc_automaticReservations c) key)) \<and>
     (\<forall>key. reserved_key c key \<longrightarrow> mhas (cc_admissionWorkers c) key)"

lemma moving_ok_Nil: "moving_ok [] c = controller_ok c"
  by (simp add: moving_ok_def controller_ok_def)

lemma moving_ok_promote:
  assumes "moving_ok (start # moving) c"
  shows "moving_ok moving (promote_start start (the_key start) c)"
proof -
  have keys: "the_key start \<notin> the_key ` set (automatic_starts c @ moving)" using assms by (auto simp: moving_ok_def queued_starts_def)
  show ?thesis using assms keys
    by (auto simp: moving_ok_def promote_start_def queued_starts_def queued_ok_def completion_in_def reserved_key_def isAutomatic_def
      delete_conv' simp del: not_None_eq)
qed

lemma promote_loop_ok:
  "moving_ok starts c \<Longrightarrow> promote_loop starts c = (c', err) \<Longrightarrow> err = None \<and> controller_ok c'"
proof (induction starts arbitrary: c)
  case Nil
  then show ?case by (simp add: moving_ok_Nil)
next
  case (Cons start starts)
  from Cons.prems(1) have "keyed start" by (simp add: moving_ok_def queued_ok_def)
  with Cons.IH [OF moving_ok_promote [OF Cons.prems(1)]] Cons.prems(2) show ?case by simp
qed

definition as_explicit :: "currentNodeQueuedStart \<Rightarrow> currentNodeQueuedStart" where
  "as_explicit start = start\<lparr>qs_policy := currentNodeAdmissionExplicitOverride\<rparr>"

lemma promote_loop_fields:
  "promote_loop starts c = (c', None) \<Longrightarrow>
     same_ownership c c' \<and> cc_completions c' = cc_completions c \<and> cc_automaticQueue c' = cc_automaticQueue c \<and>
     cc_closed c' = cc_closed c \<and> cc_closing c' = cc_closing c \<and> cc_workerWake c' = cc_workerWake c \<and>
     cc_interrupts c' = cc_interrupts c \<and>
     cc_explicitQueue c' = cc_explicitQueue c @ map as_explicit starts"
proof (induction starts arbitrary: c)
  case (Cons start starts)
  then obtain key where "start_key start = Inr key" and loop: "promote_loop starts (promote_start start key c) = (c', None)"
    by (auto split: sum.splits)
  with Cons.IH [OF loop] show ?case by (simp add: promote_start_def same_ownership_def as_explicit_def)
qed (simp add: same_ownership_def)

text \<open>Moving starts of the automatic queue to the end of the explicit queue.\<close>

lemma move_step:
  assumes "controller_ok c" and "same_ownership c c'" and "cc_completions c' = cc_completions c"
    and "cc_closed c' = cc_closed c" and "cc_closing c' = cc_closing c"
    and "cc_workerWake c \<or> moved \<noteq> [] \<longrightarrow> cc_workerWake c'"
    and "cc_explicitQueue c' = cc_explicitQueue c @ map as_explicit moved"
    and "set (automatic_starts c') \<union> set moved = set (automatic_starts c)"
  shows "queue_step c c'"
proof -
  have "qs_completion (as_explicit x) = qs_completion x" for x by (simp add: as_explicit_def)
  then have comps: "completions_of (cc_explicitQueue c') = completions_of (cc_explicitQueue c) \<union> completions_of moved"
    using assms(7) by (auto simp: completions_of_def image_Un image_image)
  have "completions_of (automatic_starts c') \<union> completions_of moved = completions_of (automatic_starts c)"
    using assms(8) by (auto simp: completions_of_def simp flip: image_Un)
  with comps have "completions_of (queued_starts c') = completions_of (queued_starts c)"
    by (auto simp: completions_of_def queued_starts_def image_Un)
  with comps assms show ?thesis by (auto simp: queue_step_def wake_kept_def completions_kept_def)
qed

lemma take_task_moving:
  assumes "controller_ok c" and "queue_holds q (filter (\<lambda>s. \<not> P s) (automatic_starts c))"
  shows "moving_ok (filter P (automatic_starts c)) (c\<lparr>cc_automaticQueue := q\<rparr>)"
proof -
  have part: "distinct (map f (filter (\<lambda>s. \<not> P s) xs)) \<and> distinct (map f (filter P xs)) \<and>
      f ` set (filter (\<lambda>s. \<not> P s) xs) \<inter> f ` set (filter P xs) = {}" if "distinct (map f xs)" for f :: "currentNodeQueuedStart \<Rightarrow> 'b" and xs
    using that by (induction xs) (auto simp: image_iff)
  from assms(1) have "distinct (map the_key (automatic_starts c))" "distinct (map qs_completion (automatic_starts c))"
    by (auto simp: controller_ok_def queued_starts_def)
  note d = this [THEN part]
  have queued: "the_key ` set (filter (\<lambda>s. \<not> P s) (automatic_starts c)) \<union> the_key ` set (filter P (automatic_starts c)) = the_key ` set (automatic_starts c)"
    by auto
  show ?thesis unfolding moving_ok_def using assms d
    apply (intro conjI)
    subgoal by simp
    subgoal by (auto simp: controller_ok_def queued_starts_def queued_ok_def completion_in_def reserved_key_def)
    subgoal by (simp add: controller_ok_def)
    subgoal by (auto simp: controller_ok_def queued_starts_def)
    subgoal by (auto simp: controller_ok_def queued_starts_def)
    subgoal by (simp add: controller_ok_def)
    subgoal using queued by (auto simp: controller_ok_def simp del: not_None_eq)
    subgoal by (simp add: controller_ok_def)
    subgoal by (simp add: controller_ok_def reserved_key_def)
    done
qed

lemma Promote_ok:
  assumes "controller_ok c"
  obtains c' r where "PromoteConcurrencyQueuedTask t c = Some (c', r)" and "controller_ok c'" and "queue_step c c'"
    and "cc_interrupts c' = cc_interrupts c"
proof (cases "cc_closed c")
  case True
  with that assms show thesis by (simp add: PromoteConcurrencyQueuedTask_def)
next
  case False
  let ?P = "\<lambda>s. start_task s = t"
  obtain q where q: "queue_removeTask t (cc_automaticQueue c) = Some (q, filter ?P (automatic_starts c))"
    and holds: "queue_holds q (filter (\<lambda>s. \<not> ?P s) (automatic_starts c))"
    using automatic_queue.take_task_holds [OF controller_holds [OF assms]] by blast
  let ?c = "c\<lparr>cc_automaticQueue := q\<rparr>" and ?moved = "filter ?P (automatic_starts c)"
  obtain c1 err where loop: "promote_loop ?moved ?c = (c1, err)" by (cases "promote_loop ?moved ?c")
  from promote_loop_ok [OF take_task_moving [OF assms holds] loop] have ok: "err = None" "controller_ok c1" by simp_all
  note f = promote_loop_fields [OF loop [unfolded ok(1)]]
  let ?r = "if ?moved = [] then c1 else wakeAdmissionWorker c1"
  have "automatic_starts ?r = filter (\<lambda>s. \<not> ?P s) (automatic_starts c)"
    using f queue_holds_starts [of ?r] holds by (simp add: wakeAdmissionWorker_def split: if_splits)
  then have "queue_step c ?r" using f
    by (intro move_step [OF assms, where moved = ?moved]) (auto simp: same_ownership_def wakeAdmissionWorker_def)
  moreover have "controller_ok ?r" "cc_interrupts ?r = cc_interrupts c" using ok f by simp_all
  moreover have "PromoteConcurrencyQueuedTask t c = Some (?r, Inr (map qs_reference ?moved))"
    using q loop ok False by (simp add: PromoteConcurrencyQueuedTask_def)
  ultimately show thesis using that by blast
qed

text \<open>The other loops over the queue: the removal without the guard on the task map, and the search for a key.\<close>

lemma remove_task_loop_holds:
  assumes "queue_holds q starts"
  obtains q' where "remove_task_loop t (ls_first (q_all q)) q [] = Some (q', filter (\<lambda>s. start_task s = t) starts)"
    and "queue_holds q' (filter (\<lambda>s. start_task s \<noteq> t) starts)"
proof -
  from assms obtain ps where r: "queue_repr q ps" and starts: "starts = map (entry_start q) ps" by (auto simp: queue_holds_def)
  have "ls_first (q_all q) = first_of ps" using r by (simp add: queue_repr_def store_repr_def lane_repr_def)
  moreover obtain q' where q': "remove_task_loop t (first_of ps) q [] = Some (q', map (entry_start q) (filter (in_task t (q_entries q)) ps))"
    "queue_repr q' (filter (\<lambda>p. \<not> in_task t (q_entries q) p) ps)" "\<forall>x < length (q_entries q). entry_start q' x = entry_start q x"
    using remove_task_loop_repr [of q "[]" ps t "[]"] r by auto
  moreover have "\<forall>x \<in> set ps. x < length (q_entries q)" using r by (auto simp: queue_repr_def store_repr_def)
  then have "filter (\<lambda>s. start_task s \<noteq> t) starts = map (entry_start q') (filter (\<lambda>p. \<not> in_task t (q_entries q) p) ps)"
    using q'(3) by (simp add: starts filter_map comp_def in_task_fun)
  then have "queue_holds q' (filter (\<lambda>s. start_task s \<noteq> t) starts)" using q'(2) unfolding queue_holds_def by metis
  ultimately show thesis using that by (simp add: starts filter_map comp_def in_task_fun)
qed

lemma find_entry_simps [simp]:
  "find_entry key h None = Some None"
  "find_entry key h (Some p) =
     (case start_key (qe_start (h ! p)) of
        Inl _ \<Rightarrow> None
      | Inr startKey \<Rightarrow> if startKey = key then Some (Some p) else find_entry key h (qe_globalNext (h ! p)))"
  by (subst find_entry.simps, simp)+

lemma find_entry_dlist:
  "dlist GlobalLink h p xs \<Longrightarrow> \<forall>x \<in> set xs. keyed (qe_start (h ! x)) \<Longrightarrow>
   find_entry key h (first_of xs) = Some (List.find (\<lambda>x. the_key (qe_start (h ! x)) = key) xs)"
proof (induction xs arbitrary: p)
  case (Cons x xs)
  then show ?case using Cons.IH [of "Some x"] by simp
qed simp

lemma find_split: "List.find P xs = Some x \<Longrightarrow> \<exists>as bs. xs = as @ x # bs \<and> P x"
  by (metis extract_Some_iff extract_None_iff find_None_iff find_Some_iff in_set_conv_decomp nth_mem)

lemma find_entry_holds:
  assumes "queue_holds q starts" and "\<forall>s \<in> set starts. keyed s"
  shows "(\<exists>p before s after q'. find_entry key (q_entries q) (ls_first (q_all q)) = Some (Some p) \<and>
      starts = before @ s # after \<and> the_key s = key \<and> queue_remove p q = Some (q', s) \<and> queue_holds q' (before @ after)) \<or>
    find_entry key (q_entries q) (ls_first (q_all q)) = Some None \<and> key \<notin> the_key ` set starts"
proof -
  from assms obtain ps where r: "queue_repr q ps" and starts: "starts = map (entry_start q) ps" by (auto simp: queue_holds_def)
  have "ls_first (q_all q) = first_of ps" and "dlist GlobalLink (q_entries q) None ps"
    using r by (simp_all add: queue_repr_def store_repr_def lane_repr_def)
  then have f: "find_entry key (q_entries q) (ls_first (q_all q)) = Some (List.find (\<lambda>x. the_key (entry_start q x) = key) ps)"
    using find_entry_dlist assms(2) starts by simp
  show ?thesis
  proof (cases "List.find (\<lambda>x. the_key (entry_start q x) = key) ps")
    case None
    then show ?thesis using f starts by (auto simp: find_None_iff)
  next
    case (Some p)
    then obtain as bs where ps: "ps = as @ p # bs" and k: "the_key (entry_start q p) = key" using find_split by fast
    obtain q' where rem: "queue_remove p q = Some (q', entry_start q p)" "queue_repr q' (as @ bs)"
      and data: "\<And>x. x < length (q_entries q) \<Longrightarrow> entry_start q' x = entry_start q x"
      using queue_remove_repr [OF r [unfolded ps]] by metis
    have "\<forall>x \<in> set (as @ bs). x < length (q_entries q)" using r ps by (auto simp: queue_repr_def store_repr_def)
    then have "queue_holds q' (map (entry_start q) as @ map (entry_start q) bs)"
      using rem(2) data unfolding queue_holds_def by (intro exI [of _ "as @ bs"]) simp
    with f Some rem(1) k starts ps show ?thesis by auto
  qed
qed

lemma find_explicit_keyed:
  "\<forall>s \<in> set starts. keyed s \<Longrightarrow> find_explicit key starts = Some (List.find (\<lambda>s. the_key s = key) starts)"
  by (induction starts) simp_all

lemma Watch_ok:
  assumes "controller_ok c"
  obtains c' r where "currentNodeAdmissionLocked key c = Some (c', r)" and "controller_ok c'" and "queue_step c c'"
    and "cc_interrupts c' = cc_interrupts c"
proof -
  have keyed: "\<forall>s \<in> set (cc_explicitQueue c). keyed s" "\<forall>s \<in> set (automatic_starts c). keyed s"
    using assms by (auto simp: controller_ok_def queued_starts_def queued_ok_def)
  note fe = find_explicit_keyed [OF keyed(1), of key]
  from find_entry_holds [OF controller_holds [OF assms] keyed(2), of key]
  consider p before s after q' where "find_entry key (q_entries (cc_automaticQueue c)) (ls_first (q_all (cc_automaticQueue c))) = Some (Some p)"
      "automatic_starts c = before @ s # after" "the_key s = key" "queue_remove p (cc_automaticQueue c) = Some (q', s)" "queue_holds q' (before @ after)"
    | "find_entry key (q_entries (cc_automaticQueue c)) (ls_first (q_all (cc_automaticQueue c))) = Some None"
    by blast
  then show thesis
  proof cases
    case 1
    let ?m = "c\<lparr>cc_automaticQueue := q'\<rparr>" and ?c = "wakeAdmissionWorker (promote_start s key (c\<lparr>cc_automaticQueue := q'\<rparr>))"
    have "moving_ok [s] ?m" using assms 1(2,5)
      by (auto simp: moving_ok_def controller_ok_def queued_starts_def queued_ok_def completion_in_def reserved_key_def simp del: not_None_eq)
    then have ok: "controller_ok ?c" using moving_ok_promote [of s "[]" ?m] 1(3) by (simp add: moving_ok_Nil)
    have starts: "automatic_starts ?c = before @ after" using 1(5) by (simp add: wakeAdmissionWorker_def promote_start_def)
    have step: "queue_step c ?c"
    proof (rule move_step [OF assms, where moved = "[s]"])
      show "set (automatic_starts ?c) \<union> set [s] = set (automatic_starts c)" using starts 1(2) by auto
    qed (simp_all add: wakeAdmissionWorker_def promote_start_def same_ownership_def as_explicit_def)
    show thesis
    proof (cases "List.find (\<lambda>s. the_key s = key) (cc_explicitQueue c)")
      case None
      with fe 1 ok step that [of ?c] show thesis by (simp add: currentNodeAdmissionLocked_def promote_start_def)
    next
      case (Some start)
      with fe assms that show thesis by (simp add: currentNodeAdmissionLocked_def)
    qed
  next
    case 2
    with fe assms that show thesis
      by (cases "List.find (\<lambda>s. the_key s = key) (cc_explicitQueue c)") (simp_all add: currentNodeAdmissionLocked_def)
  qed
qed

end
