(* ===== verification/Adm_Interruption.thy ===== *)
theory Adm_Interruption
  imports Adm_Invariant
begin

text \<open>
  Interruption keeps the controller's invariant: the fences (\<open>fence_ok\<close>) and the drain of a task's
  work. In a state that satisfies the invariant the drain succeeds, removes exactly the queued
  starts of the task, and leaves every reservation alone, because each has a registered worker.
\<close>

section \<open>Fences\<close>

fun key_task :: "CurrentNodeReferenceKey \<Rightarrow> TaskID" where
  "key_task (serialCurrentNodeReferenceKey t n) = t"
| "key_task (branchCurrentNodeReferenceKey t n b) = t"

lemma key_task_start: "start_key start = Inr key \<Longrightarrow> key_task key = start_task start"
  by (auto simp: CurrentNodeReference_Key_def split: option.splits prod.splits bool.splits)

lemma key_task_the_key [simp]: "keyed start \<Longrightarrow> key_task (the_key start) = start_task start"
  using key_task_start keyed_start_key by blast

text \<open>Every fence is stored under scopes and current nodes of its own task.\<close>

definition fence_ok :: "(ScopeID \<Rightarrow> CurrentNodeReference) \<Rightarrow> currentNodeInterruptState \<Rightarrow> bool" where
  "fence_ok scopeNode i \<longleftrightarrow>
     (\<forall>(key, f) \<in> set (is_byCurrentNode i). f < length (is_fences i) \<and> if_taskID (is_fences i ! f) = key_task key) \<and>
     (\<forall>(scope, f) \<in> set (is_byScope i). f < length (is_fences i) \<and> if_taskID (is_fences i ! f) = cnr_TaskID (scopeNode scope))"

text \<open>During an interruption of task \<open>t\<close> with fence \<open>f\<close>, \<open>f\<close> is the only fence of the task.\<close>

definition fencing :: "(ScopeID \<Rightarrow> CurrentNodeReference) \<Rightarrow> TaskID \<Rightarrow> nat \<Rightarrow> currentNodeInterruptState \<Rightarrow> bool" where
  "fencing scopeNode t f i \<longleftrightarrow> fence_ok scopeNode i \<and> f < length (is_fences i) \<and> if_taskID (is_fences i ! f) = t \<and>
     (\<forall>(key, f') \<in> set (is_byCurrentNode i). key_task key = t \<longrightarrow> f' = f) \<and>
     (\<forall>(scope, f') \<in> set (is_byScope i). cnr_TaskID (scopeNode scope) = t \<longrightarrow> f' = f)"

lemma set_update_subset: "set (AList.update k v m) \<subseteq> insert (k, v) (set m)"
  by (induction m) auto

lemma set_delete_subset: "set (AList.delete k m) \<subseteq> set m"
  by (induction m) auto

lemma fencing_update:
  assumes "fencing scopeNode t f i"
  shows "key_task key = t \<Longrightarrow> fencing scopeNode t f (i\<lparr>is_byCurrentNode := AList.update key f (is_byCurrentNode i)\<rparr>)"
    and "cnr_TaskID (scopeNode scope) = t \<Longrightarrow> fencing scopeNode t f (i\<lparr>is_byScope := AList.update scope f (is_byScope i)\<rparr>)"
  using assms set_update_subset [of key f "is_byCurrentNode i"] set_update_subset [of scope f "is_byScope i"]
  by (auto simp: fencing_def fence_ok_def)

lemma addCurrentNode_fencing:
  assumes "fencing scopeNode t f i" and "key_task key = t"
  obtains i' where "addCurrentNode f key i = Some i'" and "fencing scopeNode t f i'"
proof -
  have "map_of (is_byCurrentNode i) key \<in> {None, Some f}"
    using assms by (cases "map_of (is_byCurrentNode i) key") (auto simp: fencing_def dest!: map_of_SomeD)
  with that fencing_update(1) [OF assms] show thesis unfolding addCurrentNode_def by simp
qed

lemma addScope_fencing:
  assumes "fencing scopeNode t f i" and "cnr_TaskID (scopeNode scope) = t"
  obtains i' where "addScope f scope i = Some i'" and "fencing scopeNode t f i'"
proof -
  have "map_of (is_byScope i) scope \<in> {None, Some f}"
    using assms by (cases "map_of (is_byScope i) scope") (auto simp: fencing_def dest!: map_of_SomeD)
  with that fencing_update(2) [OF assms] show thesis unfolding addScope_def by simp
qed

lemma fence_scopes_fencing:
  assumes "fencing scopeNode t f i" and "\<forall>scope \<in> set scopes. cnr_TaskID (scopeNode scope) = t"
  obtains i' where "fence_scopes f scopes i = Some i'" and "fencing scopeNode t f i'"
  using assms
proof (induction scopes arbitrary: i thesis)
  case (Cons scope scopes)
  obtain i1 where i1: "addScope f scope i = Some i1" "fencing scopeNode t f i1"
    using addScope_fencing Cons.prems(2,3) by (metis list.set_intros(1))
  obtain i' where "fence_scopes f scopes i1 = Some i'" "fencing scopeNode t f i'"
    using Cons.IH [OF _ i1(2)] Cons.prems(3) by auto
  with i1 Cons.prems(1) show ?case by simp
qed simp

lemma taskActive_iff:
  "taskActive t i \<longleftrightarrow> (\<exists>f \<in> snd ` set (is_byScope i) \<union> snd ` set (is_byCurrentNode i). if_taskID (is_fences i ! f) = t)"
  by (auto simp: taskActive_def taskFence_def find_None_iff simp del: not_None_eq)

lemma beginTask_fencing:
  assumes "fence_ok scopeNode i" and "beginTask t i = Some (i', f)"
  shows "fencing scopeNode t f i'"
proof -
  have i': "i' = i\<lparr>is_fences := is_fences i @ [\<lparr>if_taskID = t, if_closed = False\<rparr>]\<rparr>" and f: "f = length (is_fences i)"
    and inactive: "\<not> taskActive t i" using assms(2) by (auto simp: beginTask_def split: if_splits)
  have keys: "f' < length (is_fences i) \<and> if_taskID (is_fences i ! f') = key_task key \<and> key_task key \<noteq> t"
    if "(key, f') \<in> set (is_byCurrentNode i)" for key f'
    using that assms(1) inactive unfolding taskActive_iff fence_ok_def by force
  have scopes: "f' < length (is_fences i) \<and> if_taskID (is_fences i ! f') = cnr_TaskID (scopeNode scope) \<and> cnr_TaskID (scopeNode scope) \<noteq> t"
    if "(scope, f') \<in> set (is_byScope i)" for scope f'
    using that assms(1) inactive unfolding taskActive_iff fence_ok_def by force
  show ?thesis unfolding i' f fencing_def fence_ok_def by (auto simp: nth_append dest: keys scopes)
qed

lemma fence_ok_mono:
  assumes "fence_ok scopeNode i" and "set (is_byCurrentNode i') \<subseteq> set (is_byCurrentNode i)" and "set (is_byScope i') \<subseteq> set (is_byScope i)"
    and "map if_taskID (is_fences i') = map if_taskID (is_fences i)"
  shows "fence_ok scopeNode i'"
proof -
  have "length (is_fences i') = length (is_fences i)" using assms(4) map_eq_imp_length_eq by blast
  moreover have "if_taskID (is_fences i' ! f) = if_taskID (is_fences i ! f)" if "f < length (is_fences i)" for f
    using assms(4) that calculation by (metis nth_map)
  moreover have "f < length (is_fences i) \<and> if_taskID (is_fences i ! f) = key_task key" if "(key, f) \<in> set (is_byCurrentNode i')" for key f
    using that subsetD [OF assms(2) that] assms(1) by (auto simp: fence_ok_def)
  moreover have "f < length (is_fences i) \<and> if_taskID (is_fences i ! f) = cnr_TaskID (scopeNode scope)" if "(scope, f) \<in> set (is_byScope i')" for scope f
    using that subsetD [OF assms(3) that] assms(1) by (auto simp: fence_ok_def)
  ultimately show ?thesis unfolding fence_ok_def by auto
qed

lemma close_fence_tasks: "map if_taskID (fences[f := (fences ! f)\<lparr>if_closed := True\<rparr>]) = map if_taskID fences"
proof (rule nth_equalityI)
  fix i assume "i < length (map if_taskID (fences[f := (fences ! f)\<lparr>if_closed := True\<rparr>]))"
  then show "map if_taskID (fences[f := (fences ! f)\<lparr>if_closed := True\<rparr>]) ! i = map if_taskID fences ! i"
    by (cases "i = f") simp_all
qed simp

lemma finishFence_tasks [simp]:
  "map if_taskID (is_fences (finishFence f s)) = map if_taskID (is_fences s)"
  "is_byScope (finishFence f s) = is_byScope s" "is_byCurrentNode (finishFence f s) = is_byCurrentNode s"
  by (simp_all add: finishFence_def close_fence_tasks split: option.splits)

lemma finish_fence_ok:
  assumes "fence_ok scopeNode i"
  shows "fence_ok scopeNode (finishScope scope i)" and "fence_ok scopeNode (finishCurrentNode key i)"
  by (rule fence_ok_mono [OF assms]; simp add: finishScope_def finishCurrentNode_def set_delete_subset)+

section \<open>The drain\<close>

lemma interrupts_ok [simp]: "controller_ok (c\<lparr>cc_interrupts := i\<rparr>) = controller_ok c"
  by (auto elim: controller_ok_cong)

lemma interrupts_step [simp, intro]: "queue_step c (c\<lparr>cc_interrupts := i\<rparr>)"
  by (simp add: queue_step_def same_ownership_def wake_kept_def completions_kept_def queued_starts_def)

lemma completion_resolve_ok [simp]: "controller_ok (completion_resolve n c) = controller_ok c"
  by (auto simp: completion_resolve_def elim: controller_ok_cong split: option.splits)

lemma nth_resolved: "m < length xs \<Longrightarrow> xs[n := True] ! m \<longleftrightarrow> m = n \<or> xs ! m"
  by (cases "m = n") simp_all

lemma completion_resolve_step [simp, intro]: "queue_step c (completion_resolve n c)"
  by (auto simp: queue_step_def same_ownership_def wake_kept_def completions_kept_def queued_starts_def completion_resolve_def
      nth_resolved split: option.splits)

lemma interrupts_resolve [simp]: "cc_interrupts (completion_resolve n c) = cc_interrupts c"
  by (simp add: completion_resolve_def split: option.splits)

text \<open>While the explicit queue is filtered, the starts not yet visited still belong to it.\<close>

definition with_rest :: "currentNodeQueuedStart list \<Rightarrow> CurrentNodeController \<Rightarrow> CurrentNodeController" where
  "with_rest rest c = c\<lparr>cc_explicitQueue := cc_explicitQueue c @ rest\<rparr>"

lemma with_rest_Nil [simp]: "with_rest [] c = c"
  by (simp add: with_rest_def)

definition drop_explicit :: "currentNodeQueuedStart \<Rightarrow> currentNodeInterruptState \<Rightarrow> CurrentNodeController \<Rightarrow> CurrentNodeController" where
  "drop_explicit start i c =
     completion_resolve (qs_completion start) (c\<lparr>cc_explicitQueued := AList.delete (the_key start) (cc_explicitQueued c), cc_interrupts := i\<rparr>)"

lemma drop_explicit_ok:
  assumes "controller_ok (with_rest (start # rest) c)"
  shows "controller_ok (with_rest rest (drop_explicit start i c))"
    and "queue_step (with_rest (start # rest) c) (with_rest rest (drop_explicit start i c))"
proof -
  have key: "the_key start \<notin> the_key ` set (cc_explicitQueue c @ rest)" using assms by (auto simp: controller_ok_def with_rest_def queued_starts_def)
  obtain n where n: "qs_completion start = Some n" "n < length (cc_completions c)"
    using assms by (auto simp: controller_ok_def with_rest_def queued_starts_def queued_ok_def completion_in_def)
  show "controller_ok (with_rest rest (drop_explicit start i c))"
    using assms key
    by (auto simp: n drop_explicit_def completion_resolve_def controller_ok_def with_rest_def queued_starts_def queued_ok_def completion_in_def
        reserved_key_def delete_conv' simp del: not_None_eq)
  show "queue_step (with_rest (start # rest) c) (with_rest rest (drop_explicit start i c))"
    by (auto simp: n drop_explicit_def completion_resolve_def with_rest_def queue_step_def same_ownership_def wake_kept_def completions_kept_def
        completions_of_def queued_starts_def nth_resolved)
qed

definition interrupting :: "(ScopeID \<Rightarrow> CurrentNodeReference) \<Rightarrow> TaskID \<Rightarrow> nat \<Rightarrow> interruption \<Rightarrow> bool" where
  "interrupting scopeNode t f r \<longleftrightarrow> fencing scopeNode t f (cc_interrupts (ir_controller r))"

lemma fence_start_some:
  assumes "interrupting scopeNode t f r" and "keyed start" and "start_task start = t"
  obtains i where "fence_start f (the_key start) start w r = Some (r\<lparr>ir_controller := (ir_controller r)\<lparr>cc_interrupts := i\<rparr>,
      ir_references := ir_references r @ [qs_reference start],
      ir_admissionWaits := ir_admissionWaits r @ [\<lparr>aw_key = the_key start, aw_done = w\<rparr>]\<rparr>)" and "fencing scopeNode t f i"
proof -
  obtain i where "addCurrentNode f (the_key start) (cc_interrupts (ir_controller r)) = Some i" "fencing scopeNode t f i"
    using addCurrentNode_fencing [of scopeNode t f "cc_interrupts (ir_controller r)" "the_key start"] assms
    by (auto simp: interrupting_def)
  with that show thesis by (simp add: fence_start_def)
qed

lemma drain_explicit_ok:
  assumes "controller_ok (with_rest rest (ir_controller r))" and "interrupting scopeNode t f r"
  shows "\<exists>r'. drain_explicit t f rest r = Some r' \<and> controller_ok (ir_controller r') \<and>
    queue_step (with_rest rest (ir_controller r)) (ir_controller r') \<and> interrupting scopeNode t f r' \<and>
    automatic_starts (ir_controller r') = automatic_starts (ir_controller r) \<and>
    cc_explicitQueue (ir_controller r') = cc_explicitQueue (ir_controller r) @ filter (\<lambda>s. start_task s \<noteq> t) rest \<and>
    ir_references r' = ir_references r @ map qs_reference (filter (\<lambda>s. start_task s = t) rest)"
  using assms
proof (induction rest arbitrary: r)
  case Nil
  then show ?case by simp
next
  case (Cons start rest)
  show ?case
  proof (cases "start_task start = t")
    case False
    let ?r = "on_controller (\<lambda>c. c\<lparr>cc_explicitQueue := cc_explicitQueue c @ [start]\<rparr>) r"
    have "with_rest rest (ir_controller ?r) = with_rest (start # rest) (ir_controller r)" by (simp add: on_controller_def with_rest_def)
    with Cons.IH [of ?r] Cons.prems False show ?thesis by (simp add: on_controller_def interrupting_def)
  next
    case True
    have k: "keyed start" using Cons.prems(1) by (simp add: controller_ok_def with_rest_def queued_starts_def queued_ok_def)
    let ?r = "on_controller (\<lambda>c. c\<lparr>cc_explicitQueued := AList.delete (the_key start) (cc_explicitQueued c)\<rparr>) r"
    have "interrupting scopeNode t f ?r" using Cons.prems(2) by (simp add: interrupting_def on_controller_def)
    from fence_start_some [OF this k True, of None] obtain i where i: "fence_start f (the_key start) start None ?r =
        Some (?r\<lparr>ir_controller := (ir_controller ?r)\<lparr>cc_interrupts := i\<rparr>, ir_references := ir_references ?r @ [qs_reference start],
          ir_admissionWaits := ir_admissionWaits ?r @ [\<lparr>aw_key = the_key start, aw_done = None\<rparr>]\<rparr>)" "fencing scopeNode t f i" by blast
    define r1 where "r1 = on_controller (completion_resolve (qs_completion start))
       (?r\<lparr>ir_controller := (ir_controller ?r)\<lparr>cc_interrupts := i\<rparr>, ir_references := ir_references ?r @ [qs_reference start],
          ir_admissionWaits := ir_admissionWaits ?r @ [\<lparr>aw_key = the_key start, aw_done = None\<rparr>]\<rparr>)"
    have c1: "ir_controller r1 = drop_explicit start i (ir_controller r)" by (simp add: r1_def on_controller_def drop_explicit_def)
    note drop = drop_explicit_ok [OF Cons.prems(1), of i]
    have "interrupting scopeNode t f r1" using i(2) by (simp add: interrupting_def c1 drop_explicit_def)
    moreover have "drain_explicit t f (start # rest) r = drain_explicit t f rest r1" using True k i(1) by (simp add: r1_def)
    moreover have "cc_explicitQueue (ir_controller r1) = cc_explicitQueue (ir_controller r)"
      "automatic_starts (ir_controller r1) = automatic_starts (ir_controller r)"
      by (simp_all add: c1 drop_explicit_def completion_resolve_def split: option.splits)
    moreover have "ir_references r1 = ir_references r @ [qs_reference start]" by (simp add: r1_def on_controller_def)
    ultimately show ?thesis using Cons.IH [of r1] drop True unfolding c1 by (auto intro: queue_step_trans)
  qed
qed

lemma moving_ok_drop:
  assumes "moving_ok (start # moving) c"
  shows "moving_ok moving (c\<lparr>cc_queued := AList.delete (the_key start) (cc_queued c), cc_interrupts := i\<rparr>)"
proof -
  have keys: "the_key start \<notin> the_key ` set (automatic_starts c @ moving)" using assms by (auto simp: moving_ok_def queued_starts_def)
  show ?thesis using assms keys
    by (auto simp: moving_ok_def queued_starts_def queued_ok_def completion_in_def reserved_key_def delete_conv' simp del: not_None_eq)
qed

lemma drop_automatic_step:
  assumes "same_ownership c c'" and "set (automatic_starts c') \<subseteq> set (automatic_starts c)"
    and "cc_explicitQueue c' = cc_explicitQueue c" and "cc_completions c' = cc_completions c"
    and "cc_closed c' = cc_closed c" and "cc_closing c' = cc_closing c" and "cc_workerWake c' = cc_workerWake c"
  shows "queue_step c c'"
proof -
  have "completions_of (queued_starts c') \<subseteq> completions_of (queued_starts c)"
    using assms(2,3) by (auto simp: completions_of_def queued_starts_def)
  with assms show ?thesis by (auto simp: queue_step_def wake_kept_def completions_kept_def)
qed

lemma drain_automatic_ok:
  assumes "moving_ok starts (ir_controller r)" and "interrupting scopeNode t f r" and "\<forall>s \<in> set starts. start_task s = t"
  shows "\<exists>r' m i. drain_automatic f starts r = Some r' \<and> controller_ok (ir_controller r') \<and> interrupting scopeNode t f r' \<and>
    ir_controller r' = (ir_controller r)\<lparr>cc_queued := m, cc_interrupts := i\<rparr> \<and>
    ir_references r' = ir_references r @ map qs_reference starts"
  using assms
proof (induction starts arbitrary: r)
  case Nil
  then have "controller_ok (ir_controller r)" by (simp add: moving_ok_Nil)
  with Nil.prems(2) show ?case
    by (auto intro!: exI [of _ "cc_queued (ir_controller r)"] exI [of _ "cc_interrupts (ir_controller r)"])
next
  case (Cons start starts)
  have k: "keyed start" "start_task start = t" using Cons.prems by (simp_all add: moving_ok_def queued_ok_def)
  let ?r = "on_controller (\<lambda>c. c\<lparr>cc_queued := AList.delete (the_key start) (cc_queued c)\<rparr>) r"
  have "interrupting scopeNode t f ?r" using Cons.prems(2) by (simp add: interrupting_def on_controller_def)
  from fence_start_some [OF this k, of None] obtain i where i: "fence_start f (the_key start) start None ?r =
        Some (?r\<lparr>ir_controller := (ir_controller ?r)\<lparr>cc_interrupts := i\<rparr>, ir_references := ir_references ?r @ [qs_reference start],
          ir_admissionWaits := ir_admissionWaits ?r @ [\<lparr>aw_key = the_key start, aw_done = None\<rparr>]\<rparr>)" "fencing scopeNode t f i" by blast
  define r1 where "r1 = ?r\<lparr>ir_controller := (ir_controller ?r)\<lparr>cc_interrupts := i\<rparr>, ir_references := ir_references ?r @ [qs_reference start],
          ir_admissionWaits := ir_admissionWaits ?r @ [\<lparr>aw_key = the_key start, aw_done = None\<rparr>]\<rparr>"
  have c1: "ir_controller r1 = (ir_controller r)\<lparr>cc_queued := AList.delete (the_key start) (cc_queued (ir_controller r)), cc_interrupts := i\<rparr>"
    and refs: "ir_references r1 = ir_references r @ [qs_reference start]" by (simp_all add: r1_def on_controller_def)
  have "moving_ok starts (ir_controller r1)" using moving_ok_drop [OF Cons.prems(1)] by (simp add: c1)
  moreover have "interrupting scopeNode t f r1" using i(2) by (simp add: interrupting_def c1)
  moreover have "drain_automatic f (start # starts) r = drain_automatic f starts r1" using k i(1) by (simp add: r1_def)
  ultimately show ?case using Cons.IH [of r1] Cons.prems(3) unfolding c1 refs by fastforce
qed

text \<open>Every reservation belongs to a registered worker, so the drain skips it.\<close>

lemma drain_reservations_skip:
  "\<forall>(key, start) \<in> set starts. mhas (cc_admissionWorkers (ir_controller r)) key \<Longrightarrow> drain_reservations b t f starts r = Some r"
  by (induction starts) auto

lemma reservations_registered:
  assumes "controller_ok c"
  shows "\<forall>(key, start) \<in> set (cc_explicitReservations c). mhas (cc_admissionWorkers c) key"
    and "\<forall>(key, start) \<in> set (cc_automaticReservations c). mhas (cc_admissionWorkers c) key"
proof -
  have "mhas m key" if "(key, start) \<in> set m" for m :: "(CurrentNodeReferenceKey, currentNodeQueuedStart) gomap" and key start
    using that by (metis map_of_eq_None_iff image_eqI fst_conv)
  moreover have "mhas (cc_admissionWorkers c) key" if "mhas (cc_explicitReservations c) key \<or> mhas (cc_automaticReservations c) key" for key
    using assms that unfolding controller_ok_def reserved_key_def by metis
  ultimately show "\<forall>(key, start) \<in> set (cc_explicitReservations c). mhas (cc_admissionWorkers c) key"
    "\<forall>(key, start) \<in> set (cc_automaticReservations c). mhas (cc_admissionWorkers c) key"
    by (simp_all only: split_paired_Ball_Sigma Ball_def split_paired_All case_prod_conv) metis+
qed

lemma drain_ok:
  assumes "controller_ok (ir_controller r)" and "interrupting scopeNode t f r"
  obtains r' where "drainTaskControllerWorkLocked t f r = Some r'" and "controller_ok (ir_controller r')"
    and "queue_step (ir_controller r) (ir_controller r')" and "interrupting scopeNode t f r'"
    and "cc_explicitQueue (ir_controller r') = filter (\<lambda>s. start_task s \<noteq> t) (cc_explicitQueue (ir_controller r))"
    and "automatic_starts (ir_controller r') = filter (\<lambda>s. start_task s \<noteq> t) (automatic_starts (ir_controller r))"
    and "ir_references r' = ir_references r @ map qs_reference (filter (\<lambda>s. start_task s = t) (queued_starts (ir_controller r)))"
proof -
  let ?c = "ir_controller r" and ?r0 = "on_controller (\<lambda>c. c\<lparr>cc_explicitQueue := []\<rparr>) r"
  have "with_rest (cc_explicitQueue ?c) (ir_controller ?r0) = ?c" by (simp add: with_rest_def on_controller_def)
  moreover have "interrupting scopeNode t f ?r0" using assms(2) by (simp add: interrupting_def on_controller_def)
  ultimately obtain r1 where r1: "drain_explicit t f (cc_explicitQueue ?c) ?r0 = Some r1" "controller_ok (ir_controller r1)"
      "queue_step ?c (ir_controller r1)" "interrupting scopeNode t f r1" "automatic_starts (ir_controller r1) = automatic_starts ?c"
      "cc_explicitQueue (ir_controller r1) = filter (\<lambda>s. start_task s \<noteq> t) (cc_explicitQueue ?c)"
      "ir_references r1 = ir_references r @ map qs_reference (filter (\<lambda>s. start_task s = t) (cc_explicitQueue ?c))"
    using drain_explicit_ok [of "cc_explicitQueue ?c" ?r0 scopeNode t f] assms(1) by (auto simp: on_controller_def)
  let ?q = "cc_automaticQueue (ir_controller r1)" and ?moved = "filter (\<lambda>s. start_task s = t) (automatic_starts ?c)"
  obtain q where q: "remove_task_loop t (ls_first (q_all ?q)) ?q [] = Some (q, ?moved)"
      and holds: "queue_holds q (filter (\<lambda>s. start_task s \<noteq> t) (automatic_starts ?c))"
    using remove_task_loop_holds [OF controller_holds [OF r1(2)], of t] unfolding r1(5) by blast
  let ?r1 = "on_controller (\<lambda>c. c\<lparr>cc_automaticQueue := q\<rparr>) r1"
  have "moving_ok ?moved (ir_controller ?r1)"
    using take_task_moving [OF r1(2), of q "\<lambda>s. start_task s = t"] holds by (simp add: r1(5) on_controller_def)
  moreover have "interrupting scopeNode t f ?r1" using r1(4) by (simp add: interrupting_def on_controller_def)
  ultimately obtain r2 m i where r2: "drain_automatic f ?moved ?r1 = Some r2" "controller_ok (ir_controller r2)" "interrupting scopeNode t f r2"
      "ir_controller r2 = (ir_controller ?r1)\<lparr>cc_queued := m, cc_interrupts := i\<rparr>" "ir_references r2 = ir_references ?r1 @ map qs_reference ?moved"
    using drain_automatic_ok [of ?moved ?r1 scopeNode t f] by (metis (mono_tags, lifting) mem_Collect_eq set_filter)
  have c2: "ir_controller r2 = (ir_controller r1)\<lparr>cc_automaticQueue := q, cc_queued := m, cc_interrupts := i\<rparr>"
    using r2(4) by (simp add: on_controller_def)
  have starts: "automatic_starts (ir_controller r2) = filter (\<lambda>s. start_task s \<noteq> t) (automatic_starts ?c)" using holds by (simp add: c2)
  have "queue_step (ir_controller r1) (ir_controller r2)"
  proof (rule drop_automatic_step)
    show "set (automatic_starts (ir_controller r2)) \<subseteq> set (automatic_starts (ir_controller r1))" by (auto simp: starts r1(5))
  qed (simp_all add: c2 same_ownership_def)
  then have "queue_step ?c (ir_controller r2)" by (rule queue_step_trans [OF r1(3)])
  moreover note reservations_registered [OF r2(2), THEN drain_reservations_skip]
  then have "drainTaskControllerWorkLocked t f r = Some r2"
    using r1(1) q r2(1) by (simp add: drainTaskControllerWorkLocked_def Let_def)
  moreover have "cc_explicitQueue (ir_controller r2) = filter (\<lambda>s. start_task s \<noteq> t) (cc_explicitQueue ?c)" using r1(6) by (simp add: c2)
  moreover have "ir_references r2 = ir_references r @ map qs_reference (filter (\<lambda>s. start_task s = t) (queued_starts ?c))"
    using r1(7) r2(5) by (simp add: on_controller_def queued_starts_def)
  ultimately show thesis using that r2(2,3) starts by blast
qed

section \<open>The critical sections\<close>

lemma first_reference_error_None:
  "(\<forall>start \<in> set starts. keyed start) \<Longrightarrow> first_reference_error t starts = None"
proof -
  assume k: "\<forall>start \<in> set starts. keyed start"
  have "CurrentNodeReference_Validate (qs_reference start) = None" if "keyed start" for start
    using keyed_start_key [OF that] by (auto simp: CurrentNodeReference_Key_def split: option.splits)
  with k have "List.find (\<lambda>start. start_task start = t \<and> CurrentNodeReference_Validate (qs_reference start) \<noteq> None) starts = None"
    by (auto simp: find_None_iff)
  then show ?thesis by (simp add: first_reference_error_def)
qed

lemma queue_starts_ok: "controller_ok c \<Longrightarrow> queue_starts (cc_automaticQueue c) = Some (automatic_starts c)"
  by (simp add: controller_holds automatic_queue.starts_holds)

lemma begin_interruption_ok:
  assumes "controller_ok c" and "fence_ok scopeNode (cc_interrupts c)"
    and "\<forall>(scope, reference) \<in> set selected. reference = scopeNode scope \<and> cnr_TaskID reference = t"
  obtains err where "begin_interruption t selected c = Some (Inl err)"
  | f r where "begin_interruption t selected c = Some (Inr (f, r))" and "controller_ok (ir_controller r)" and "queue_step c (ir_controller r)"
    and "interrupting scopeNode t f r"
    and "cc_explicitQueue (ir_controller r) = filter (\<lambda>s. start_task s \<noteq> t) (cc_explicitQueue c)"
    and "automatic_starts (ir_controller r) = filter (\<lambda>s. start_task s \<noteq> t) (automatic_starts c)"
    and "ir_references r = map snd selected @ map qs_reference (filter (\<lambda>s. start_task s = t) (queued_starts c))"
proof -
  obtain invalid where v: "validateTaskControllerWorkLocked t c = Some invalid"
    using queue_starts_ok [OF assms(1)] by (simp add: validateTaskControllerWorkLocked_def)
  show thesis
  proof (cases "invalid \<noteq> None \<or> beginTask t (cc_interrupts c) = None")
    case True
    with v that(1) show thesis by (cases invalid) (auto simp: begin_interruption_def)
  next
    case False
    then obtain i f where inv: "invalid = None" and b: "beginTask t (cc_interrupts c) = Some (i, f)" by auto
    note fencing = beginTask_fencing [OF assms(2) b]
    have scopes: "\<forall>scope \<in> set (map fst selected). cnr_TaskID (scopeNode scope) = t" using assms(3) by fastforce
    obtain i' where i': "fence_scopes f (map fst selected) i = Some i'" "fencing scopeNode t f i'"
      using fence_scopes_fencing [OF fencing scopes] by blast
    let ?r = "\<lparr>ir_controller = c\<lparr>cc_interrupts := i'\<rparr>, ir_references = map snd selected, ir_admissionWaits = []\<rparr>"
    have r: "controller_ok (ir_controller ?r)" "interrupting scopeNode t f ?r" using assms(1) i'(2) by (simp_all add: interrupting_def)
    obtain r' where r': "drainTaskControllerWorkLocked t f ?r = Some r'" "controller_ok (ir_controller r')"
        "queue_step (ir_controller ?r) (ir_controller r')" "interrupting scopeNode t f r'"
        "cc_explicitQueue (ir_controller r') = filter (\<lambda>s. start_task s \<noteq> t) (cc_explicitQueue (ir_controller ?r))"
        "automatic_starts (ir_controller r') = filter (\<lambda>s. start_task s \<noteq> t) (automatic_starts (ir_controller ?r))"
        "ir_references r' = ir_references ?r @ map qs_reference (filter (\<lambda>s. start_task s = t) (queued_starts (ir_controller ?r)))"
      by (rule drain_ok [OF r])
    have "begin_interruption t selected c = Some (Inr (f, r'))" using v inv b i'(1) r'(1) by (simp add: begin_interruption_def)
    moreover have "queue_step c (ir_controller r')" using r'(3) queue_step_trans [OF interrupts_step] by simp
    ultimately show thesis using that(2) r'(2,4-7) by (simp add: queued_starts_def)
  qed
qed

definition section_ok :: "(ScopeID \<Rightarrow> CurrentNodeReference) \<Rightarrow> CurrentNodeController \<Rightarrow> CurrentNodeController \<Rightarrow> bool" where
  "section_ok scopeNode c c' \<longleftrightarrow> controller_ok c' \<and> queue_step c c' \<and> fence_ok scopeNode (cc_interrupts c')"

lemma section_ok_refl: "controller_ok c \<Longrightarrow> fence_ok scopeNode (cc_interrupts c) \<Longrightarrow> section_ok scopeNode c c"
  by (simp add: section_ok_def)

lemma selected_of_task:
  assumes "interruption_refused t selected c = None" and "\<forall>(scope, reference) \<in> set selected. reference = scopeNode scope"
  shows "\<forall>(scope, reference) \<in> set selected. reference = scopeNode scope \<and> cnr_TaskID reference = t"
  using assms by (auto simp: interruption_refused_def list_ex_iff split: if_splits)

lemma begin_interruption_section:
  assumes "controller_ok c" and "fence_ok scopeNode (cc_interrupts c)"
    and "\<forall>(scope, reference) \<in> set selected. reference = scopeNode scope" and "interruption_refused t selected c = None"
  obtains r where "map_option (map_sum id (map_prod Some id)) (begin_interruption t selected c) = Some r"
    and "section_ok scopeNode c (after_section c r)"
  using begin_interruption_ok [OF assms(1,2) selected_of_task [OF assms(4,3)]] that section_ok_refl [OF assms(1,2)]
  by (cases rule: begin_interruption_ok [OF assms(1,2) selected_of_task [OF assms(4,3)]])
    (auto simp: after_section_def section_ok_def interrupting_def fencing_def)

lemma Interrupt_section_ok:
  assumes "controller_ok c" and "fence_ok scopeNode (cc_interrupts c)"
    and "\<forall>(scope, reference) \<in> set (interruptible @ queued). reference = scopeNode scope"
  obtains r where "Interrupt_section t taskWide interruptible queued c = Some r" and "section_ok scopeNode c (after_section c r)"
proof (cases "interruption_refused t (if taskWide then interruptible @ queued else interruptible) c")
  case (Some err)
  with that section_ok_refl [OF assms(1,2)] show thesis by (simp add: Interrupt_section_def Let_def after_section_def)
next
  case None
  show thesis
  proof (cases taskWide)
    case True
    with None have n: "interruption_refused t (interruptible @ queued) c = None" by simp
    from begin_interruption_section [OF assms this] True that n show thesis by (auto simp: Interrupt_section_def Let_def)
  next
    case False
    with None that section_ok_refl [OF assms(1,2)] show thesis by (simp add: Interrupt_section_def after_section_def)
  qed
qed

lemma InterruptForManualMove_section_ok:
  assumes "controller_ok c" and "fence_ok scopeNode (cc_interrupts c)"
    and "\<forall>(scope, reference) \<in> set interruptible. reference = scopeNode scope"
  obtains r where "InterruptForManualMove_section t interruptible queued c = Some r" and "section_ok scopeNode c (after_section c r)"
proof (cases "queued \<noteq> [] \<or> interruption_refused t interruptible c \<noteq> None")
  case True
  then obtain err where "InterruptForManualMove_section t interruptible queued c = Some (Inl err)"
    by (cases "interruption_refused t interruptible c"; cases "queued = []") (auto simp: InterruptForManualMove_section_def)
  with that section_ok_refl [OF assms(1,2)] show thesis by (simp add: after_section_def)
next
  case False
  note starts = queue_starts_ok [OF assms(1)]
  note d = InterruptForManualMove_section_def taskHasControllerQueuedWorkLocked_def starts
  have refused: "interruption_refused t interruptible c = None" using False by blast
  obtain r where r: "map_option (map_sum id (map_prod Some id)) (begin_interruption t interruptible c) = Some r"
      "section_ok scopeNode c (after_section c r)"
    by (rule begin_interruption_section [OF assms refused])
  show thesis
  proof (cases "first_reference_error t (automatic_starts c @ cc_explicitQueue c @ map snd (cc_explicitReservations c) @ map snd (cc_automaticReservations c))")
    case (Some err)
    with that [of "Inl (ReferenceInvalid err)"] False section_ok_refl [OF assms(1,2)] show thesis by (simp add: d after_section_def)
  next
    case None
    show thesis
    proof (cases "interruptible \<noteq> [] \<or> the (taskHasControllerQueuedWorkLocked t c)")
      case True
      with that [OF _ r(2)] r(1) None False show thesis by (simp add: d)
    next
      case F: False
      with that [of "Inr (None, \<lparr>ir_controller = c, ir_references = [], ir_admissionWaits = []\<rparr>)"] None False section_ok_refl [OF assms(1,2)]
      show thesis by (simp add: d after_section_def)
    qed
  qed
qed

end
