(* ===== verification/Adm_Safety.thy ===== *)
theory Adm_Safety
  imports Adm_Interruption
begin

text \<open>
  The invariant of the admission system (\<open>system_ok\<close>) and its preservation by every step, with the
  properties it gives: bounded capacity, exclusive ownership of current nodes, no lost wake-up,
  and the one panic that a step can run into.
\<close>

section \<open>The invariant\<close>

definition unreleased :: "CurrentNodeController \<Rightarrow> nat" where
  "unreleased c = length (filter (\<lambda>owner. owner \<noteq> currentNodeAgentCapacityReleased) (cc_leases c))"

definition capacity_ok :: "int \<Rightarrow> CurrentNodeController \<Rightarrow> bool" where
  "capacity_ok n c \<longleftrightarrow> cc_agentConcurrency c = n \<and> cc_agentCapacityActive c = int (unreleased c) \<and> cc_agentCapacityActive c \<le> n"

abbreviation explicit_in_flight :: "CurrentNodeController \<Rightarrow> nat" where
  "explicit_in_flight c \<equiv> inFlightAdmissionCountLocked currentNodeAdmissionExplicitOverride c"

definition worker_lease :: "admission_worker \<Rightarrow> nat option" where
  "worker_lease w = qs_agentCapacityLease (aw_start w)"

definition worker_completion :: "admission_worker \<Rightarrow> nat option" where
  "worker_completion w = qs_completion (aw_start w)"

definition leases_ok :: "currentNodeAgentCapacityOwner list \<Rightarrow> admission_worker list \<Rightarrow> nat list \<Rightarrow> bool" where
  "leases_ok leases workers callbacks \<longleftrightarrow>
     (\<forall>w \<in> set workers. \<forall>l. worker_lease w = Some l \<longrightarrow>
        l < length leases \<and> isAutomatic (qs_policy (aw_start w)) \<and>
        (aw_phase w = Preparing \<longrightarrow> leases ! l = currentNodeAgentCapacityReservation)) \<and>
     (\<forall>i j l. i < j \<longrightarrow> j < length workers \<longrightarrow> worker_lease (workers ! i) = Some l \<longrightarrow> worker_lease (workers ! j) \<noteq> Some l) \<and>
     (\<forall>l \<in> set callbacks. \<exists>w \<in> set workers. worker_lease w = Some l \<and> aw_phase w \<noteq> Preparing)"

definition registered_ok :: "CurrentNodeController \<Rightarrow> admission_worker list \<Rightarrow> bool" where
  "registered_ok c workers \<longleftrightarrow>
     (\<forall>w \<in> set workers. keyed (aw_start w)) \<and>
     (\<forall>i < length workers. aw_phase (workers ! i) \<noteq> Finished \<longrightarrow>
        map_of (cc_admissionWorkers c) (the_key (aw_start (workers ! i))) = Some (aw_start (workers ! i)) \<or>
        (\<exists>j. i < j \<and> j < length workers \<and> the_key (aw_start (workers ! j)) = the_key (aw_start (workers ! i)))) \<and>
     (\<forall>key start. map_of (cc_admissionWorkers c) key = Some start \<longrightarrow>
        (\<exists>w \<in> set workers. aw_start w = start \<and> the_key start = key \<and> aw_phase w \<noteq> Finished))"

text \<open>A reservation is held by the registered worker of its start, until that worker claims or releases it.\<close>

definition holding :: "admission_phase \<Rightarrow> bool" where
  "holding p \<longleftrightarrow> p \<in> {Preparing, Releasing, Leaving}"

definition reservation_held :: "CurrentNodeController \<Rightarrow> admission_worker list \<Rightarrow> CurrentNodeReferenceKey \<Rightarrow> currentNodeQueuedStart \<Rightarrow> bool" where
  "reservation_held c workers key start \<longleftrightarrow> the_key start = key \<and> map_of (cc_admissionWorkers c) key = Some start \<and>
     (\<exists>w \<in> set workers. aw_start w = start \<and> holding (aw_phase w))"

definition reservations_ok :: "CurrentNodeController \<Rightarrow> admission_worker list \<Rightarrow> bool" where
  "reservations_ok c workers \<longleftrightarrow>
     (\<forall>key start. map_of (cc_explicitReservations c) key = Some start \<longrightarrow>
        \<not> isAutomatic (qs_policy start) \<and> reservation_held c workers key start) \<and>
     (\<forall>key start. map_of (cc_automaticReservations c) key = Some start \<longrightarrow>
        isAutomatic (qs_policy start) \<and> reservation_held c workers key start)"

definition completions_ok :: "CurrentNodeController \<Rightarrow> admission_worker list \<Rightarrow> bool" where
  "completions_ok c workers \<longleftrightarrow> distinct (map worker_completion workers) \<and>
     (\<forall>w \<in> set workers. completion_in c (aw_start w) \<and> worker_completion w \<notin> completions_of (queued_starts c))"

definition explicit_takeable :: "CurrentNodeController \<Rightarrow> bool" where
  "explicit_takeable c \<longleftrightarrow> cc_explicitQueue c \<noteq> [] \<and> explicit_in_flight c < explicitAdmissionConcurrency"

definition automatic_takeable :: "CurrentNodeController \<Rightarrow> bool" where
  "automatic_takeable c \<longleftrightarrow> list_ex (eligible (cc_agentCapacityActive c < cc_agentConcurrency c)) (automatic_starts c)"

text \<open>A worker in this phase is about to wake the loop.\<close>

definition about_to_wake :: "admission_worker \<Rightarrow> bool" where
  "about_to_wake w \<longleftrightarrow> aw_phase w = Leaving \<and> isAutomatic (qs_policy (aw_start w))"

definition wake_ok :: "CurrentNodeController \<Rightarrow> loop_position \<Rightarrow> admission_worker list \<Rightarrow> bool" where
  "wake_ok c loop workers \<longleftrightarrow>
     cc_closing c \<or> cc_closed c \<or>
     loop \<noteq> Stopped \<and>
     (cc_workerWake c \<or>
      (loop \<noteq> TakingExplicit \<longrightarrow> \<not> explicit_takeable c) \<and>
      (loop = Waiting \<longrightarrow> \<not> automatic_takeable c \<or> (\<exists>w \<in> set workers. about_to_wake w)))"

definition system_ok :: "int \<Rightarrow> (ScopeID \<Rightarrow> CurrentNodeReference) \<Rightarrow> admission_system \<Rightarrow> bool" where
  "system_ok n scopeNode s \<longleftrightarrow>
     (let c = sy_controller s; workers = sy_workers s in
      controller_ok c \<and> fence_ok scopeNode (cc_interrupts c) \<and> capacity_ok n c \<and>
      explicit_in_flight c \<le> explicitAdmissionConcurrency \<and>
      leases_ok (cc_leases c) workers (sy_callbacks s) \<and> registered_ok c workers \<and> reservations_ok c workers \<and> completions_ok c workers \<and>
      wake_ok c (sy_loop s) workers)"

lemmas system_ok_defs = system_ok_def Let_def

section \<open>Operations on the queues\<close>

lemma wake_ok_mono:
  assumes "wake_ok c loop workers" and "wake_kept c c'" and "cc_agentCapacityActive c' = cc_agentCapacityActive c"
    and "cc_agentConcurrency c' = cc_agentConcurrency c" and "cc_admissionWorkers c' = cc_admissionWorkers c"
  shows "wake_ok c' loop workers"
proof -
  have "explicit_takeable c" if "\<not> cc_workerWake c'" "explicit_takeable c'"
    using that assms by (auto simp: explicit_takeable_def wake_kept_def inFlightAdmissionCountLocked_def)
  moreover have "automatic_takeable c" if "\<not> cc_workerWake c'" "automatic_takeable c'"
    using that assms by (auto simp: automatic_takeable_def wake_kept_def list_ex_iff)
  ultimately show ?thesis using assms(1,2) unfolding wake_ok_def wake_kept_def by blast
qed

lemma completions_ok_kept:
  assumes "completions_ok c workers" and "completions_kept c c'"
  shows "completions_ok c' workers"
proof -
  have "completion_in c' (aw_start w) \<and> worker_completion w \<notin> completions_of (queued_starts c')" if "w \<in> set workers" for w
  proof -
    obtain n where n: "n < length (cc_completions c)" "worker_completion w = Some n" "Some n \<notin> completions_of (queued_starts c)"
      using assms(1) \<open>w \<in> set workers\<close> by (auto simp: completions_ok_def completion_in_def worker_completion_def)
    have "n < length (cc_completions c')" using n(1) assms(2) by (simp add: completions_kept_def)
    moreover have "Some n \<notin> completions_of (queued_starts c')" using n(1,3) assms(2) unfolding completions_kept_def by blast
    ultimately have "n < length (cc_completions c') \<and> Some n \<notin> completions_of (queued_starts c')" ..
    with n(2) show ?thesis by (auto simp: completion_in_def worker_completion_def)
  qed
  with assms(1) show ?thesis by (simp add: completions_ok_def)
qed

lemma system_ok_section:
  assumes "system_ok n scopeNode s" and "section_ok scopeNode (sy_controller s) c'"
  shows "system_ok n scopeNode (with_controller s c')"
proof -
  let ?c = "sy_controller s"
  have q: "same_ownership ?c c'" "wake_kept ?c c'" "completions_kept ?c c'"
    and ok: "controller_ok c'" "fence_ok scopeNode (cc_interrupts c')"
    using assms(2) by (simp_all add: section_ok_def queue_step_def)
  have "capacity_ok n c'" "explicit_in_flight c' \<le> explicitAdmissionConcurrency"
    "leases_ok (cc_leases c') (sy_workers s) (sy_callbacks s)" "registered_ok c' (sy_workers s)"
    using assms(1) q(1)
    by (simp_all add: system_ok_defs same_ownership_def capacity_ok_def unreleased_def inFlightAdmissionCountLocked_def registered_ok_def)
  moreover have "reservations_ok c' (sy_workers s)"
    using assms(1) q(1) by (simp add: system_ok_defs same_ownership_def reservations_ok_def reservation_held_def)
  moreover have "completions_ok c' (sy_workers s)" using assms(1) q(3) completions_ok_kept by (auto simp: system_ok_defs)
  moreover have "wake_ok c' (sy_loop s) (sy_workers s)"
  proof (rule wake_ok_mono [OF _ q(2)])
    show "wake_ok ?c (sy_loop s) (sy_workers s)" using assms(1) by (simp add: system_ok_defs)
  qed (use q(1) in \<open>simp_all add: same_ownership_def\<close>)
  ultimately show ?thesis using ok by (simp add: system_ok_defs with_controller_def)
qed

lemma section_ok_steps:
  assumes "controller_ok c" and "fence_ok scopeNode (cc_interrupts c)"
  shows "section_ok scopeNode c (c\<lparr>cc_interrupts := finishScope scope (cc_interrupts c)\<rparr>)"
    and "section_ok scopeNode c (finishTaskInterruptAdmissionKey key c)"
    and "section_ok scopeNode c (handleCurrentNodeStartFailures b c)"
    and "section_ok scopeNode c (completion_resolve m c)"
  using assms by (simp_all add: section_ok_def finishTaskInterruptAdmissionKey_def handleCurrentNodeStartFailures_def finish_fence_ok)

lemma close_begin_section:
  assumes "controller_ok c" and "fence_ok scopeNode (cc_interrupts c)"
  shows "section_ok scopeNode c (close_begin c)"
proof -
  have "controller_ok (c\<lparr>cc_closing := True\<rparr>)" using assms(1) by (rule controller_ok_cong) simp_all
  moreover have "queue_step c (c\<lparr>cc_closing := True\<rparr>)"
    by (simp add: queue_step_def same_ownership_def wake_kept_def completions_kept_def queued_starts_def)
  ultimately show ?thesis using assms by (simp add: section_ok_def close_begin_def)
qed

lemma resolve_all:
  "cc_completions (fold (\<lambda>start. completion_resolve (qs_completion start)) starts c) ! n \<longleftrightarrow>
     cc_completions c ! n \<or> Some n \<in> completions_of starts" if "n < length (cc_completions c)"
  using that
proof (induction starts arbitrary: c)
  case (Cons start starts)
  let ?c = "completion_resolve (qs_completion start) c"
  have "n < length (cc_completions ?c)" using Cons.prems by (simp add: completion_resolve_def split: option.splits)
  moreover have "cc_completions ?c ! n \<longleftrightarrow> cc_completions c ! n \<or> qs_completion start = Some n"
    using Cons.prems by (auto simp: completion_resolve_def nth_resolved split: option.splits)
  ultimately show ?case using Cons.IH [of ?c] by (auto simp: completions_of_def)
qed (simp add: completions_of_def)

lemma resolve_all_fields:
  "\<exists>xs. fold (\<lambda>start. completion_resolve (qs_completion start)) starts c = c\<lparr>cc_completions := xs\<rparr> \<and> length xs = length (cc_completions c)"
proof (induction starts arbitrary: c)
  case Nil
  show ?case by (rule exI [of _ "cc_completions c"]) simp
next
  case (Cons start starts)
  have "\<exists>xs. completion_resolve (qs_completion start) c = c\<lparr>cc_completions := xs\<rparr> \<and> length xs = length (cc_completions c)"
    by (cases "qs_completion start") (auto simp: completion_resolve_def intro: exI [of _ "cc_completions c"])
  then obtain xs where "completion_resolve (qs_completion start) c = c\<lparr>cc_completions := xs\<rparr>" "length xs = length (cc_completions c)" by blast
  with Cons.IH [of "c\<lparr>cc_completions := xs\<rparr>"] show ?case by auto
qed

lemma close_queues_section:
  assumes "controller_ok c" and "fence_ok scopeNode (cc_interrupts c)"
  shows "section_ok scopeNode c (close_queues c)"
proof -
  let ?c = "c\<lparr>cc_closed := True, cc_closing := False, cc_explicitQueue := [], cc_explicitQueued := [],
      cc_automaticQueue := queue_clear (cc_automaticQueue c), cc_queued := []\<rparr>"
  obtain xs where xs: "close_queues c = ?c\<lparr>cc_completions := xs\<rparr>" "length xs = length (cc_completions c)"
    using resolve_all_fields [of "cc_explicitQueue c" ?c] by (auto simp: close_queues_def)
  have holds: "queue_holds (queue_clear (cc_automaticQueue c)) []" using queue_clear_repr by (auto simp: queue_holds_def)
  have starts: "automatic_starts (close_queues c) = []" "queued_starts (close_queues c) = []"
    using holds by (simp_all add: xs queued_starts_def)
  have resolved: "cc_completions c ! n \<longrightarrow> xs ! n" "Some n \<in> completions_of (cc_explicitQueue c) \<longrightarrow> xs ! n" if "n < length (cc_completions c)" for n
    using resolve_all [of n ?c "cc_explicitQueue c"] that xs(1) by (simp_all add: close_queues_def)
  have "controller_ok (close_queues c)" using assms(1) holds starts
    by (simp add: controller_ok_def xs(1) reserved_key_def queued_starts_def)
  moreover have "queue_step c (close_queues c)" using resolved starts
    by (simp add: queue_step_def same_ownership_def wake_kept_def completions_kept_def completions_of_def xs)
  ultimately show ?thesis using assms(2) by (simp add: section_ok_def xs(1))
qed

lemma enqueue_interrupts:
  "enqueueStarts starts c = Some c' \<Longrightarrow> cc_interrupts c' = cc_interrupts c"
  "cc_interrupts (fst (queuePreparedStarts starts c)) = cc_interrupts c"
proof -
  have ens: "cc_interrupts (fst (ensure_completion start c)) = cc_interrupts c" for start c
    by (simp add: ensure_completion_def newCurrentNodeAdmissionCompletion_def split: option.splits)
  have e: "cc_interrupts (fst (queueExplicitStartLocked start c)) = cc_interrupts c" for start c
    using ens [of start c] by (auto simp: queueExplicitStartLocked_def split: prod.splits sum.splits)
  have a: "cc_interrupts c' = cc_interrupts c" if "queueAutomaticStartLocked start c = Some (c', err)" for start c c' err
    using ens [of start c] that by (auto simp: queueAutomaticStartLocked_def split: prod.splits sum.splits if_splits)
  have "enqueue_loop starts c = Some c' \<Longrightarrow> cc_interrupts c' = cc_interrupts c" for c'
  proof (induction starts arbitrary: c)
    case (Cons start starts)
    then obtain c1 err where
      q: "(if isAutomatic (qs_policy start) then queueAutomaticStartLocked start c else Some (queueExplicitStartLocked start c)) = Some (c1, err)"
      and rest: "enqueue_loop starts (if err \<noteq> None then c1\<lparr>cc_workerErr := True\<rparr> else c1) = Some c'"
      by (auto simp: bind_eq_Some_conv simp del: not_None_eq)
    have "cc_interrupts c1 = cc_interrupts c" using q a e [of start c] by (auto split: if_splits)
    with Cons.IH [OF rest] show ?case by (simp split: if_splits)
  qed simp
  then show "enqueueStarts starts c = Some c' \<Longrightarrow> cc_interrupts c' = cc_interrupts c"
    by (auto simp: enqueueStarts_def split: if_splits)
  have "cc_interrupts (fst (queue_prepared_loop starts c)) = cc_interrupts c"
  proof (induction starts arbitrary: c)
    case (Cons start starts)
    show ?case using Cons.IH [of "fst (queueExplicitStartLocked start c)"] e [of start c] by (auto split: prod.splits option.splits)
  qed simp
  then show "cc_interrupts (fst (queuePreparedStarts starts c)) = cc_interrupts c"
    by (auto simp: queuePreparedStarts_def split: prod.splits option.splits)
qed

section \<open>Taking starts\<close>

lemma distinct_key_unique: "distinct (map f (xs @ s # ys)) \<Longrightarrow> x \<in> set (xs @ ys) \<Longrightarrow> f x \<noteq> f s"
  by (auto simp: image_iff)

lemma queued_start_unique:
  assumes "controller_ok c" and "queued_starts c = xs @ s # ys"
  shows "\<forall>x \<in> set (xs @ ys). the_key x \<noteq> the_key s" and "\<forall>x \<in> set (xs @ ys). qs_completion x \<noteq> qs_completion s"
    and "queued_ok c s" and "\<not> reserved_key c (the_key s)"
proof -
  have d: "distinct (map the_key (xs @ s # ys))" "distinct (map qs_completion (xs @ s # ys))" "queued_ok c s"
    using assms by (simp_all add: controller_ok_def)
  show "\<forall>x \<in> set (xs @ ys). the_key x \<noteq> the_key s" "\<forall>x \<in> set (xs @ ys). qs_completion x \<noteq> qs_completion s"
    using distinct_key_unique [OF d(1)] distinct_key_unique [OF d(2)] by blast+
  show "queued_ok c s" "\<not> reserved_key c (the_key s)" using d(3) by (simp_all add: queued_ok_def)
qed

definition explicit_taken :: "currentNodeQueuedStart \<Rightarrow> currentNodeQueuedStart list \<Rightarrow> CurrentNodeController \<Rightarrow> CurrentNodeController" where
  "explicit_taken start rest c =
     c\<lparr>cc_explicitQueue := rest, cc_explicitQueued := AList.delete (the_key start) (cc_explicitQueued c),
       cc_explicitReservations := AList.update (the_key start) start (cc_explicitReservations c),
       cc_admissionWorkers := AList.update (the_key start) start (cc_admissionWorkers c)\<rparr>"

lemma takeExplicitStart_cases:
  assumes "controller_ok c"
  obtains "takeExplicitStart c = Some (c, None)" and "cc_closed c \<or> \<not> explicit_takeable c"
  | start rest where "takeExplicitStart c = Some (explicit_taken start rest c, Some start)"
    and "cc_explicitQueue c = start # rest" and "\<not> cc_closed c" and "explicit_in_flight c < explicitAdmissionConcurrency"
proof (cases "cc_closed c \<or> explicit_in_flight c \<ge> explicitAdmissionConcurrency \<or> cc_explicitQueue c = []")
  case True
  then show thesis using that(1) by (auto simp: takeExplicitStart_def explicit_takeable_def)
next
  case False
  then obtain start rest where e: "cc_explicitQueue c = start # rest" by (cases "cc_explicitQueue c") auto
  with assms have "queued_ok c start" by (simp add: controller_ok_def queued_starts_def)
  then have k: "keyed start" "completion_in c start" by (simp_all add: queued_ok_def)
  have "ensure_completion start (c\<lparr>cc_explicitQueue := rest, cc_explicitQueued := m\<rparr>) = (c\<lparr>cc_explicitQueue := rest, cc_explicitQueued := m\<rparr>, start)" for m
    using k(2) by (intro ensure_completion_Some) (simp add: completion_in_def)
  then have "takeExplicitStart c = Some (explicit_taken start rest c, Some start)"
    using False k(1) e by (simp add: takeExplicitStart_def explicit_taken_def)
  with that(2) False e show thesis by simp
qed

lemma explicit_taken_ok:
  assumes "controller_ok c" and "cc_explicitQueue c = start # rest"
  shows "controller_ok (explicit_taken start rest c)"
proof -
  note key = queued_start_unique [OF assms(1), of "[]" start "rest @ automatic_starts c", simplified queued_starts_def assms(2), simplified]
  show ?thesis using assms key
    by (auto simp: explicit_taken_def controller_ok_def queued_starts_def queued_ok_def completion_in_def reserved_key_def delete_conv'
        simp del: not_None_eq)
qed

definition automatic_taken ::
  "currentNodeAutomaticQueue \<Rightarrow> currentNodeQueuedStart \<Rightarrow> currentNodeAgentCapacityOwner list \<Rightarrow> CurrentNodeController \<Rightarrow> CurrentNodeController" where
  "automatic_taken q start new c =
     c\<lparr>cc_automaticQueue := q, cc_queued := AList.delete (the_key start) (cc_queued c),
       cc_leases := cc_leases c @ new, cc_agentCapacityActive := cc_agentCapacityActive c + int (length new),
       cc_automaticReservations := AList.update (the_key start) start (cc_automaticReservations c),
       cc_admissionWorkers := AList.update (the_key start) start (cc_admissionWorkers c),
       cc_lastAutomaticTask := Some (start_task start)\<rparr>"

definition taken_start :: "currentNodeQueuedStart \<Rightarrow> CurrentNodeController \<Rightarrow> currentNodeQueuedStart" where
  "taken_start start c =
     (let start1 = start\<lparr>qs_taskPromptDelivery := TaskPromptDeliveryResume\<rparr> in
      if countsAgentCapacity (qs_policy start) then start1\<lparr>qs_agentCapacityLease := Some (length (cc_leases c))\<rparr> else start1)"

definition new_leases :: "currentNodeQueuedStart \<Rightarrow> currentNodeAgentCapacityOwner list" where
  "new_leases start = (if countsAgentCapacity (qs_policy start) then [currentNodeAgentCapacityReservation] else [])"

lemma taken_start_fields [simp]:
  "the_key (taken_start start c) = the_key start" "keyed (taken_start start c) = keyed start"
  "qs_completion (taken_start start c) = qs_completion start" "qs_policy (taken_start start c) = qs_policy start"
  "start_task (taken_start start c) = start_task start"
  by (simp_all add: taken_start_def Let_def)

lemma takeAutomaticIntent_cases:
  assumes "controller_ok c"
  obtains "takeAutomaticIntent c = Some (c, None)" and "cc_closed c \<or> \<not> automatic_takeable c"
  | q before start after where "takeAutomaticIntent c = Some (automatic_taken q (taken_start start c) (new_leases start) c, Some (taken_start start c))"
    and "automatic_starts c = before @ start # after" and "queue_holds q (before @ after)" and "\<not> cc_closed c"
    and "countsAgentCapacity (qs_policy start) \<longrightarrow> cc_agentCapacityActive c < cc_agentConcurrency c"
proof -
  let ?avail = "cc_agentCapacityActive c < cc_agentConcurrency c" and ?last = "cc_lastAutomaticTask c" and ?q = "cc_automaticQueue c"
  note holds = controller_holds [OF assms]
  have len: "queue_len ?q = int (length (automatic_starts c))" using holds by (rule automatic_queue.size_holds)
  show thesis
  proof (cases "cc_closed c \<or> queue_len ?q = 0")
    case True
    then show thesis using that(1) len by (auto simp: takeAutomaticIntent_def automatic_takeable_def)
  next
    case F: False
    show thesis
    proof (cases "next_start ?last ?avail (automatic_starts c)")
      case None
      then have "queue_selectEntry ?last ?avail ?q = None" using holds queue_select_None by blast
      moreover have "\<not> automatic_takeable c"
        using None by (auto simp: next_start_def automatic_takeable_def list_ex_iff extract_None_iff split: option.splits)
      ultimately show thesis using that(1) by (simp add: takeAutomaticIntent_def)
    next
      case (Some r)
      obtain before start after where r: "r = (before, start, after)" by (cases r)
      note split = automatic_queue.next_start_split [OF Some [unfolded r]]
      obtain p q where q: "queue_selectEntry ?last ?avail ?q = Some p" "queue_remove p ?q = Some (q, start)" "queue_holds q (before @ after)"
        using queue_select_Some [OF holds Some [unfolded r]] by blast
      from assms split(1) have "queued_ok c start" by (simp add: controller_ok_def queued_starts_def)
      then have k: "keyed start" "completion_in c start" "qs_agentCapacityLease start = None" by (simp_all add: queued_ok_def)
      have ens: "ensure_completion (start\<lparr>qs_taskPromptDelivery := TaskPromptDeliveryResume\<rparr>) (c\<lparr>cc_automaticQueue := q, cc_queued := m\<rparr>) =
          (c\<lparr>cc_automaticQueue := q, cc_queued := m\<rparr>, start\<lparr>qs_taskPromptDelivery := TaskPromptDeliveryResume\<rparr>)" for m
        using k(2) by (intro ensure_completion_Some) (simp add: completion_in_def)
      have "takeAutomaticIntent c = Some (automatic_taken q (taken_start start c) (new_leases start) c, Some (taken_start start c))"
        using F q(1,2) k(1) ens
        by (simp add: takeAutomaticIntent_def automatic_taken_def reserve_capacity_def taken_start_def new_leases_def Let_def)
      moreover have "countsAgentCapacity (qs_policy start) \<longrightarrow> ?avail" using split(2) unfolding eligible_def by blast
      ultimately show thesis using that(2) split(1) q(3) F by blast
    qed
  qed
qed

lemma automatic_taken_ok:
  assumes "controller_ok c" and "automatic_starts c = before @ start # after" and "queue_holds q (before @ after)"
  shows "controller_ok (automatic_taken q (taken_start start c) new c)"
proof -
  note key = queued_start_unique [OF assms(1), of "cc_explicitQueue c @ before" start after, simplified queued_starts_def assms(2), simplified]
  show ?thesis using assms key
    by (auto simp: automatic_taken_def controller_ok_def queued_starts_def queued_ok_def completion_in_def reserved_key_def delete_conv'
        simp del: not_None_eq)
qed

lemma in_flight_update:
  "length (filter (\<lambda>(_, start). P start) (AList.update k v m)) \<le> length (filter (\<lambda>(_, start). P start) m) + (if P v then 1 else 0)"
  by (induction m) auto

lemma in_flight_delete:
  "length (filter (\<lambda>(_, start). P start) (AList.delete k m)) \<le> length (filter (\<lambda>(_, start). P start) m)"
  by (induction m) auto

lemma registered_spawn:
  assumes "registered_ok c workers" and "keyed start"
    and "cc_admissionWorkers c' = AList.update (the_key start) start (cc_admissionWorkers c)"
  shows "registered_ok c' (workers @ [\<lparr>aw_start = start, aw_phase = Preparing\<rparr>])"
  unfolding registered_ok_def
proof (intro conjI allI impI)
  let ?ws = "workers @ [\<lparr>aw_start = start, aw_phase = Preparing\<rparr>]"
  show "\<forall>w \<in> set ?ws. keyed (aw_start w)" using assms(1,2) by (auto simp: registered_ok_def)
  show "map_of (cc_admissionWorkers c') (the_key (aw_start (?ws ! i))) = Some (aw_start (?ws ! i)) \<or>
      (\<exists>j. i < j \<and> j < length ?ws \<and> the_key (aw_start (?ws ! j)) = the_key (aw_start (?ws ! i)))"
    if "i < length ?ws" "aw_phase (?ws ! i) \<noteq> Finished" for i
  proof (cases "i < length workers")
    case True
    then have "aw_phase (workers ! i) \<noteq> Finished" using that(2) by (simp add: nth_append)
    with True consider "the_key (aw_start (workers ! i)) = the_key start"
      | "the_key (aw_start (workers ! i)) \<noteq> the_key start" "map_of (cc_admissionWorkers c) (the_key (aw_start (workers ! i))) = Some (aw_start (workers ! i))"
      | j where "i < j" "j < length workers" "the_key (aw_start (workers ! j)) = the_key (aw_start (workers ! i))"
      using assms(1) unfolding registered_ok_def by blast
    then show ?thesis
    proof cases
      case 1
      with True show ?thesis by (auto simp: nth_append intro!: exI [of _ "length workers"])
    next
      case 2
      with True show ?thesis by (simp add: assms(3) nth_append)
    next
      case (3 j)
      with True show ?thesis by (auto simp: nth_append intro!: exI [of _ j])
    qed
  next
    case False
    with that(1) show ?thesis by (simp add: assms(3) nth_append)
  qed
  show "\<exists>w \<in> set ?ws. aw_start w = st \<and> the_key st = key \<and> aw_phase w \<noteq> Finished"
    if "map_of (cc_admissionWorkers c') key = Some st" for key st
    using that assms(1) by (auto simp: assms(3) registered_ok_def split: if_splits)
qed

lemma reservations_spawn:
  assumes "reservations_ok c workers" and "\<not> reserved_key c (the_key start)"
    and "cc_admissionWorkers c' = AList.update (the_key start) start (cc_admissionWorkers c)"
    and "isAutomatic (qs_policy start) \<Longrightarrow> cc_explicitReservations c' = cc_explicitReservations c \<and>
      cc_automaticReservations c' = AList.update (the_key start) start (cc_automaticReservations c)"
    and "\<not> isAutomatic (qs_policy start) \<Longrightarrow> cc_automaticReservations c' = cc_automaticReservations c \<and>
      cc_explicitReservations c' = AList.update (the_key start) start (cc_explicitReservations c)"
  shows "reservations_ok c' (workers @ [\<lparr>aw_start = start, aw_phase = Preparing\<rparr>])"
proof -
  let ?ws = "workers @ [\<lparr>aw_start = start, aw_phase = Preparing\<rparr>]"
  have new: "reservation_held c' ?ws (the_key start) start" by (simp add: reservation_held_def assms(3) holding_def)
  have "reservation_held c' ?ws key st" if "reservation_held c workers key st" "key \<noteq> the_key start" for key st
    using that by (auto simp: reservation_held_def assms(3))
  then have old: "reservation_held c' ?ws key st" if "reservation_held c workers key st" "reserved_key c key" for key st
    using that assms(2) by metis
  show ?thesis
  proof (cases "isAutomatic (qs_policy start)")
    case True
    with assms(1,2) assms(4) [OF True] new old show ?thesis
      by (auto simp: reservations_ok_def reserved_key_def split: if_splits)
  next
    case False
    with assms(1,2) assms(5) [OF False] new old show ?thesis
      by (auto simp: reservations_ok_def reserved_key_def split: if_splits)
  qed
qed

lemma completions_spawn:
  assumes "completions_ok c workers" and "cc_completions c' = cc_completions c" and "completion_in c start"
    and "qs_completion start \<in> completions_of (queued_starts c)"
    and "completions_of (queued_starts c') \<subseteq> completions_of (queued_starts c) - {qs_completion start}"
  shows "completions_ok c' (workers @ [\<lparr>aw_start = start, aw_phase = Preparing\<rparr>])"
  using assms by (auto simp: completions_ok_def worker_completion_def completion_in_def)

lemma leases_spawn:
  assumes "leases_ok leases workers callbacks"
    and "qs_agentCapacityLease start = None \<or> qs_agentCapacityLease start = Some (length leases) \<and>
      isAutomatic (qs_policy start) \<and> new = [currentNodeAgentCapacityReservation]"
  shows "leases_ok (leases @ new) (workers @ [\<lparr>aw_start = start, aw_phase = Preparing\<rparr>]) callbacks"
proof -
  have below: "worker_lease (workers ! i) = Some l \<Longrightarrow> i < length workers \<Longrightarrow> l < length leases" for i l
    using assms(1) nth_mem unfolding leases_ok_def by blast
  show ?thesis using assms unfolding leases_ok_def
    apply (intro conjI)
    subgoal by (auto simp: nth_append worker_lease_def)
    subgoal using below by (fastforce simp: nth_append worker_lease_def less_Suc_eq)
    subgoal by auto
    done
qed

lemma wake_ok_taking: "wake_ok c loop workers \<Longrightarrow> cc_closed c' = cc_closed c \<Longrightarrow> cc_closing c' = cc_closing c \<Longrightarrow> wake_ok c' TakingExplicit workers'"
  by (auto simp: wake_ok_def)

lemma TakeExplicit_preserves:
  assumes "system_ok n scopeNode s" and "exec scopeNode TakeExplicit s = Some s'"
  shows "system_ok n scopeNode s'"
proof -
  let ?c = "sy_controller s"
  have ok: "controller_ok ?c" using assms(1) by (simp add: system_ok_defs)
  show ?thesis
  proof (cases rule: takeExplicitStart_cases [OF ok])
    case 1
    then have "s' = s\<lparr>sy_loop := TakingAutomatic\<rparr>" using assms(2) by (simp add: with_controller_def)
    then show ?thesis using assms(1) 1(2) by (auto simp: system_ok_defs wake_ok_def)
  next
    case (2 start rest)
    let ?c' = "explicit_taken start rest ?c"
    have s': "s' = spawn start (with_controller s ?c')" using assms(2) 2(1) by simp
    note u = queued_start_unique [OF ok, of "[]" start "rest @ automatic_starts ?c", simplified queued_starts_def 2(2), simplified]
    have k: "keyed start" "completion_in ?c start" "qs_agentCapacityLease start = None" using u by (simp_all add: queued_ok_def)
    have start_queued: "queued_starts ?c = start # rest @ automatic_starts ?c" by (simp add: queued_starts_def 2(2))
    have f: "cc_admissionWorkers ?c' = AList.update (the_key start) start (cc_admissionWorkers ?c)" "cc_leases ?c' = cc_leases ?c"
      "cc_completions ?c' = cc_completions ?c" "cc_interrupts ?c' = cc_interrupts ?c" "queued_starts ?c' = rest @ automatic_starts ?c"
      by (simp_all add: explicit_taken_def queued_starts_def)
    have "explicit_in_flight ?c' \<le> explicitAdmissionConcurrency"
      using in_flight_update [of "\<lambda>s. qs_policy s = currentNodeAdmissionExplicitOverride" "the_key start" start "cc_admissionWorkers ?c"] 2(4)
      by (simp add: inFlightAdmissionCountLocked_def f(1) split: if_splits)
    moreover have "capacity_ok n ?c'" using assms(1) by (simp add: system_ok_defs capacity_ok_def unreleased_def explicit_taken_def)
    moreover have "leases_ok (cc_leases ?c') (sy_workers s @ [\<lparr>aw_start = start, aw_phase = Preparing\<rparr>]) (sy_callbacks s)"
      using leases_spawn [of "cc_leases ?c" "sy_workers s" "sy_callbacks s" start "[]"] assms(1) k(3) by (simp add: system_ok_defs f(2))
    moreover have "registered_ok ?c' (sy_workers s @ [\<lparr>aw_start = start, aw_phase = Preparing\<rparr>])"
      using registered_spawn [OF _ k(1) f(1)] assms(1) by (simp add: system_ok_defs)
    moreover have "reservations_ok ?c' (sy_workers s @ [\<lparr>aw_start = start, aw_phase = Preparing\<rparr>])"
    proof (rule reservations_spawn [OF _ u(4) f(1)])
      show "reservations_ok ?c (sy_workers s)" using assms(1) by (simp add: system_ok_defs)
    qed (use ok 2(2) in \<open>simp_all add: explicit_taken_def controller_ok_def\<close>)
    moreover have "completions_ok ?c' (sy_workers s @ [\<lparr>aw_start = start, aw_phase = Preparing\<rparr>])"
    proof (rule completions_spawn [OF _ f(3) k(2)])
      show "completions_ok ?c (sy_workers s)" using assms(1) by (simp add: system_ok_defs)
    qed (use u(2) in \<open>auto simp: completions_of_def f(5) start_queued\<close>)
    moreover have "wake_ok ?c' TakingExplicit (sy_workers s @ [\<lparr>aw_start = start, aw_phase = Preparing\<rparr>])"
      using assms(1) wake_ok_taking [of ?c "sy_loop s" "sy_workers s" ?c'] by (simp add: system_ok_defs explicit_taken_def)
    ultimately show ?thesis using explicit_taken_ok [OF ok 2(2)] assms(1) f(4)
      by (simp add: s' system_ok_defs spawn_def with_controller_def)
  qed
qed

lemma TakeAutomatic_preserves:
  assumes "system_ok n scopeNode s" and "exec scopeNode TakeAutomatic s = Some s'" and "sy_loop s = TakingAutomatic"
  shows "system_ok n scopeNode s'"
proof -
  let ?c = "sy_controller s"
  have ok: "controller_ok ?c" using assms(1) by (simp add: system_ok_defs)
  show ?thesis
  proof (cases rule: takeAutomaticIntent_cases [OF ok])
    case 1
    then have "s' = s\<lparr>sy_loop := Waiting\<rparr>" using assms(2) by (simp add: with_controller_def)
    then show ?thesis using assms(1,3) 1(2) by (auto simp: system_ok_defs wake_ok_def)
  next
    case (2 q before start after)
    let ?start = "taken_start start ?c" and ?new = "new_leases start"
    let ?c' = "automatic_taken q ?start ?new ?c" and ?w = "\<lparr>aw_start = taken_start start ?c, aw_phase = Preparing\<rparr>"
    have s': "s' = spawn ?start (with_controller s ?c')" using assms(2) 2(1) by simp
    have start_queued: "queued_starts ?c = (cc_explicitQueue ?c @ before) @ start # after" by (simp add: queued_starts_def 2(2))
    note u = queued_start_unique [OF ok start_queued]
    have k: "keyed ?start" "completion_in ?c ?start" "qs_agentCapacityLease start = None" using u by (simp_all add: queued_ok_def completion_in_def)
    have f: "cc_admissionWorkers ?c' = AList.update (the_key ?start) ?start (cc_admissionWorkers ?c)" "cc_leases ?c' = cc_leases ?c @ ?new"
      "cc_completions ?c' = cc_completions ?c" "cc_interrupts ?c' = cc_interrupts ?c" "queued_starts ?c' = cc_explicitQueue ?c @ before @ after"
      using 2(3) by (simp_all add: automatic_taken_def queued_starts_def)
    have "qs_policy start \<noteq> currentNodeAdmissionExplicitOverride"
      using automatic_queue.automatic [OF controller_holds [OF ok], of start] 2(2) by (auto simp: isAutomatic_def)
    then have "explicit_in_flight ?c' \<le> explicitAdmissionConcurrency"
      using in_flight_update [of "\<lambda>s. qs_policy s = currentNodeAdmissionExplicitOverride" "the_key ?start" ?start "cc_admissionWorkers ?c"] assms(1)
      by (simp add: inFlightAdmissionCountLocked_def f(1) system_ok_defs)
    moreover have "capacity_ok n ?c'" using assms(1) 2(5)
      by (auto simp: system_ok_defs capacity_ok_def unreleased_def f(2) new_leases_def automatic_taken_def)
    moreover have "leases_ok (cc_leases ?c') (sy_workers s @ [?w]) (sy_callbacks s)" unfolding f(2)
    proof (rule leases_spawn)
      show "qs_agentCapacityLease ?start = None \<or> qs_agentCapacityLease ?start = Some (length (cc_leases ?c)) \<and>
          isAutomatic (qs_policy ?start) \<and> ?new = [currentNodeAgentCapacityReservation]"
        using k(3) by (auto simp: taken_start_def new_leases_def Let_def countsAgentCapacity_def isAutomatic_def)
    qed (use assms(1) in \<open>simp add: system_ok_defs\<close>)
    moreover have "registered_ok ?c' (sy_workers s @ [?w])"
      using registered_spawn [OF _ k(1) f(1)] assms(1) by (simp add: system_ok_defs)
    moreover have "reservations_ok ?c' (sy_workers s @ [?w])"
    proof (rule reservations_spawn [OF _ _ f(1)])
      show "reservations_ok ?c (sy_workers s)" using assms(1) by (simp add: system_ok_defs)
      show "\<not> reserved_key ?c (the_key ?start)" using u(4) by simp
    qed (use automatic_queue.automatic [OF controller_holds [OF ok], of start] 2(2) in \<open>simp_all add: automatic_taken_def\<close>)
    moreover have "completions_ok ?c' (sy_workers s @ [?w])"
    proof (rule completions_spawn [OF _ f(3) k(2)])
      show "completions_ok ?c (sy_workers s)" using assms(1) by (simp add: system_ok_defs)
    qed (use u(2) in \<open>auto simp: completions_of_def f(5) start_queued\<close>)
    moreover have "wake_ok ?c' TakingExplicit (sy_workers s @ [?w])"
      using assms(1) wake_ok_taking [of ?c "sy_loop s" "sy_workers s" ?c'] by (simp add: system_ok_defs automatic_taken_def)
    ultimately show ?thesis using automatic_taken_ok [OF ok 2(2,3)] assms(1) f(4)
      by (simp add: s' system_ok_defs spawn_def with_controller_def)
  qed
qed

section \<open>Capacity\<close>

lemma length_filter_update:
  assumes "l < length xs" and "\<not> P v"
  shows "length (filter P xs) = length (filter P (xs[l := v])) + (if P (xs ! l) then 1 else 0)"
proof -
  have "filter P xs = filter P (take l xs @ xs ! l # drop (Suc l) xs)" by (rule arg_cong [OF id_take_nth_drop [OF assms(1)]])
  moreover have "filter P (xs[l := v]) = filter P (take l xs @ v # drop (Suc l) xs)" using assms(1) by (simp add: upd_conv_take_nth_drop)
  ultimately show ?thesis using assms(2) by simp
qed

definition released :: "nat \<Rightarrow> CurrentNodeController \<Rightarrow> CurrentNodeController" where
  "released l c = c\<lparr>cc_leases := (cc_leases c)[l := currentNodeAgentCapacityReleased],
     cc_agentCapacityActive := cc_agentCapacityActive c - (if cc_leases c ! l = currentNodeAgentCapacityReleased then 0 else 1)\<rparr>"

lemma release_lease:
  assumes "capacity_ok n c" and "l < length (cc_leases c)"
  shows "releaseAgentCapacityLocked (Some l) c = Some (released l c)" and "capacity_ok n (released l c)"
proof -
  let ?P = "\<lambda>owner. owner \<noteq> currentNodeAgentCapacityReleased"
  have u: "unreleased c = unreleased (released l c) + (if cc_leases c ! l = currentNodeAgentCapacityReleased then 0 else 1)"
    using length_filter_update [OF assms(2), of ?P currentNodeAgentCapacityReleased] by (simp add: unreleased_def released_def)
  then have "cc_leases c ! l = currentNodeAgentCapacityReleased \<or> cc_agentCapacityActive c > 0"
    using assms(1) by (auto simp: capacity_ok_def)
  then show "releaseAgentCapacityLocked (Some l) c = Some (released l c)"
  proof (cases "cc_leases c ! l = currentNodeAgentCapacityReleased")
    case True
    then have "(cc_leases c)[l := currentNodeAgentCapacityReleased] = cc_leases c" by (metis list_update_id)
    with True show ?thesis by (simp add: releaseAgentCapacityLocked_def released_def)
  qed (simp add: releaseAgentCapacityLocked_def released_def Let_def)
  show "capacity_ok n (released l c)" using assms(1) u by (auto simp: capacity_ok_def released_def unreleased_def split: if_splits)
qed

text \<open>
  A step of a worker with start \<open>start\<close>, other than its last: the queues, the registered workers
  and the other workers' leases are as before; capacity that it gives back is followed by a wake-up.
\<close>

definition worker_step :: "currentNodeQueuedStart \<Rightarrow> CurrentNodeController \<Rightarrow> CurrentNodeController \<Rightarrow> bool" where
  "worker_step start c c' \<longleftrightarrow>
     cc_automaticQueue c' = cc_automaticQueue c \<and> cc_explicitQueue c' = cc_explicitQueue c \<and>
     cc_admissionWorkers c' = cc_admissionWorkers c \<and> cc_agentConcurrency c' = cc_agentConcurrency c \<and>
     length (cc_completions c') = length (cc_completions c) \<and>
     length (cc_leases c') = length (cc_leases c) \<and>
     (\<forall>l. qs_agentCapacityLease start \<noteq> Some l \<longrightarrow> cc_leases c' ! l = cc_leases c ! l) \<and>
     map_of (cc_explicitReservations c') \<subseteq>\<^sub>m map_of (cc_explicitReservations c) \<and>
     map_of (cc_automaticReservations c') \<subseteq>\<^sub>m map_of (cc_automaticReservations c) \<and>
     cc_closed c' = cc_closed c \<and> cc_closing c' = cc_closing c \<and> (cc_workerWake c \<longrightarrow> cc_workerWake c')"

lemma worker_step_refl [simp, intro]: "worker_step start c c"
  by (simp add: worker_step_def)

lemma worker_step_starts:
  assumes "worker_step start c c'"
  shows "automatic_starts c' = automatic_starts c" "queued_starts c' = queued_starts c"
  using assms by (simp_all add: worker_step_def automatic_starts_def queued_starts_def)

lemma released_step: "worker_step start c (released l c)" if "qs_agentCapacityLease start = Some l"
  using that by (auto simp: worker_step_def released_def)

lemma released_ok [simp]: "controller_ok (released l c) = controller_ok c"
  by (auto simp: released_def elim: controller_ok_cong)

lemma release_own_lease:
  assumes "capacity_ok n c" and "\<And>l. qs_agentCapacityLease start = Some l \<Longrightarrow> l < length (cc_leases c)"
  obtains c' where "releaseAgentCapacityLocked (qs_agentCapacityLease start) c = Some c'" and "capacity_ok n c'"
    and "worker_step start c c'" and "controller_ok c' = controller_ok c" and "cc_interrupts c' = cc_interrupts c"
    and "qs_agentCapacityLease start = None \<longrightarrow> c' = c"
proof (cases "qs_agentCapacityLease start")
  case None
  with assms that [of c] show thesis by (simp add: releaseAgentCapacityLocked_def)
next
  case (Some l)
  note r = release_lease [OF assms(1) assms(2) [OF Some]]
  have "cc_interrupts (released l c) = cc_interrupts c" by (simp add: released_def)
  with r Some that [of "released l c"] released_step [OF Some] show thesis by simp
qed

lemma delete_reservation_ok:
  assumes "controller_ok c"
  shows "controller_ok (deleteAdmissionReservationLocked key policy c)"
proof -
  have autos: "automatic_starts (deleteAdmissionReservationLocked key policy c) = automatic_starts c"
    "queued_starts (deleteAdmissionReservationLocked key policy c) = queued_starts c"
    by (simp_all add: deleteAdmissionReservationLocked_def queued_starts_def)
  have sub: "mhas (AList.delete key m) k \<Longrightarrow> mhas m k" for m :: "(CurrentNodeReferenceKey, currentNodeQueuedStart) gomap" and k
    by (cases "k = key") (simp_all add: delete_conv')
  have fields: "mhas (cc_explicitReservations (deleteAdmissionReservationLocked key policy c)) k \<Longrightarrow> mhas (cc_explicitReservations c) k"
    "mhas (cc_automaticReservations (deleteAdmissionReservationLocked key policy c)) k \<Longrightarrow> mhas (cc_automaticReservations c) k" for k
    unfolding deleteAdmissionReservationLocked_def by (cases "isAutomatic policy"; use sub in fastforce)+
  have res: "reserved_key (deleteAdmissionReservationLocked key policy c) k \<Longrightarrow> reserved_key c k" for k
    using fields unfolding reserved_key_def by blast
  have q: "queued_ok (deleteAdmissionReservationLocked key policy c) start" if "queued_ok c start" for start
    using that res by (auto simp: queued_ok_def completion_in_def deleteAdmissionReservationLocked_def)
  have same: "cc_automaticQueue (deleteAdmissionReservationLocked key policy c) = cc_automaticQueue c"
    "cc_explicitQueue (deleteAdmissionReservationLocked key policy c) = cc_explicitQueue c"
    "cc_explicitQueued (deleteAdmissionReservationLocked key policy c) = cc_explicitQueued c"
    "cc_queued (deleteAdmissionReservationLocked key policy c) = cc_queued c"
    "cc_admissionWorkers (deleteAdmissionReservationLocked key policy c) = cc_admissionWorkers c"
    by (simp_all add: deleteAdmissionReservationLocked_def)
  have excl: "\<not> (mhas (cc_explicitReservations (deleteAdmissionReservationLocked key policy c)) k \<and>
      mhas (cc_automaticReservations (deleteAdmissionReservationLocked key policy c)) k)" for k
    using assms fields [of k] unfolding controller_ok_def by metis
  have reg: "mhas (cc_admissionWorkers c) k" if "reserved_key (deleteAdmissionReservationLocked key policy c) k" for k
    using assms res [OF that] unfolding controller_ok_def by metis
  have "\<forall>start \<in> set (queued_starts c). queued_ok (deleteAdmissionReservationLocked key policy c) start"
    using assms q by (simp add: controller_ok_def)
  then show ?thesis using assms excl reg by (simp add: controller_ok_def autos same)
qed

lemma delete_reservation_fields [simp]:
  "worker_step start c (deleteAdmissionReservationLocked key policy c)"
  "capacity_ok n (deleteAdmissionReservationLocked key policy c) = capacity_ok n c"
  "cc_interrupts (deleteAdmissionReservationLocked key policy c) = cc_interrupts c"
  "cc_leases (deleteAdmissionReservationLocked key policy c) = cc_leases c"
  by (simp_all add: worker_step_def deleteAdmissionReservationLocked_def capacity_ok_def unreleased_def map_le_def delete_conv')

lemma deleted_reservation: "admissionReservationLocked key policy (deleteAdmissionReservationLocked key policy c) = None"
  by (simp add: admissionReservationLocked_def deleteAdmissionReservationLocked_def delete_conv')

lemma worker_step_trans: "worker_step start a b \<Longrightarrow> worker_step start b c \<Longrightarrow> worker_step start a c"
  unfolding worker_step_def by (auto intro: map_le_trans)

section \<open>Steps of a worker\<close>

definition worker_result :: "int \<Rightarrow> (ScopeID \<Rightarrow> CurrentNodeReference) \<Rightarrow> currentNodeQueuedStart \<Rightarrow> admission_phase \<Rightarrow>
    CurrentNodeController \<Rightarrow> CurrentNodeController \<Rightarrow> admission_phase \<Rightarrow> bool" where
  "worker_result n scopeNode start p c c' p' \<longleftrightarrow>
     controller_ok c' \<and> fence_ok scopeNode (cc_interrupts c') \<and> capacity_ok n c' \<and> worker_step start c c' \<and>
     p' \<notin> {Preparing, Finished} \<and>
     (holding p \<and> \<not> holding p' \<longrightarrow> admissionReservationLocked (the_key start) (qs_policy start) c' = None) \<and>
     (cc_closed c' \<or> cc_workerWake c' \<or>
      (cc_agentCapacityActive c' = cc_agentCapacityActive c \<or> p' = Leaving \<and> isAutomatic (qs_policy start)) \<and>
      \<not> (p = Leaving \<and> isAutomatic (qs_policy start)))"

text \<open>What a worker may rely on when its step begins.\<close>

definition worker_context :: "int \<Rightarrow> (ScopeID \<Rightarrow> CurrentNodeReference) \<Rightarrow> currentNodeQueuedStart \<Rightarrow> admission_phase \<Rightarrow> CurrentNodeController \<Rightarrow> bool" where
  "worker_context n scopeNode start p c \<longleftrightarrow>
     controller_ok c \<and> fence_ok scopeNode (cc_interrupts c) \<and> capacity_ok n c \<and> keyed start \<and>
     (\<forall>l. qs_agentCapacityLease start = Some l \<longrightarrow>
        l < length (cc_leases c) \<and> isAutomatic (qs_policy start) \<and> (p = Preparing \<longrightarrow> cc_leases c ! l = currentNodeAgentCapacityReservation))"

lemma worker_contextD:
  assumes "worker_context n scopeNode start p c"
  shows "controller_ok c" "fence_ok scopeNode (cc_interrupts c)" "capacity_ok n c" "keyed start"
    "qs_agentCapacityLease start = Some l \<Longrightarrow>
      l < length (cc_leases c) \<and> isAutomatic (qs_policy start) \<and> (p = Preparing \<longrightarrow> cc_leases c ! l = currentNodeAgentCapacityReservation)"
  using assms by (simp_all add: worker_context_def)

lemma unchanged:
  assumes "worker_context n scopeNode start p c" and "p' \<notin> {Preparing, Finished}" and "p \<noteq> Leaving" and "holding p \<longrightarrow> holding p'"
  shows "worker_result n scopeNode start p c c p'"
  using assms by (auto simp: worker_result_def worker_context_def)

lemma section_result:
  assumes "worker_context n scopeNode start p c" and "p \<noteq> Leaving"
    and "section_ok scopeNode c c'" and "worker_step start c c'" and "p' \<notin> {Preparing, Finished}" and "holding p \<longrightarrow> holding p'"
  shows "worker_result n scopeNode start p c c' p'"
  using assms by (auto simp: worker_context_def worker_result_def section_ok_def queue_step_def same_ownership_def capacity_ok_def unreleased_def)

lemma wake_result:
  assumes "worker_context n scopeNode start p c" and "p \<noteq> Leaving" and "p' \<notin> {Preparing, Finished}" and "holding p \<longrightarrow> holding p'"
  shows "worker_result n scopeNode start p c (worker_wake start success c) p'"
proof (rule section_result [OF assms(1,2) _ _ assms(3,4)])
  show "section_ok scopeNode c (worker_wake start success c)"
    using worker_contextD(1,2) [OF assms(1)] by (simp add: section_ok_def worker_wake_def)
  show "worker_step start c (worker_wake start success c)"
    by (simp add: worker_wake_def worker_step_def wakeAdmissionWorker_def)
qed

lemma claim_result:
  assumes "worker_context n scopeNode start p c" and "p \<noteq> Leaving"
    and "claim_reservation start (the_key start) c = Inr c'" and "p' \<notin> {Preparing, Finished}"
  shows "worker_result n scopeNode start p c c' p'"
proof -
  have c': "c' = deleteAdmissionReservationLocked (the_key start) (qs_policy start) c"
    using assms(3) by (auto simp: claim_reservation_def split: option.splits if_splits)
  have "cc_agentCapacityActive c' = cc_agentCapacityActive c" by (simp add: c' deleteAdmissionReservationLocked_def)
  with assms(2,4) worker_contextD(1-3) [OF assms(1)] delete_reservation_ok show ?thesis
    by (simp add: worker_result_def c' deleted_reservation)
qed

lemma transition_result:
  assumes "worker_result n scopeNode start p c c' p'" and "p = Preparing" and wc: "worker_context n scopeNode start p c" and "cc_leases c' = cc_leases c"
  obtains c'' where "transitionAgentCapacityLocked (qs_agentCapacityLease start) currentNodeAgentCapacityReservation currentNodeAgentCapacityLive c' = Some c''"
    and "worker_result n scopeNode start p c c'' p'"
proof (cases "qs_agentCapacityLease start")
  case None
  with assms(1) that show thesis by (simp add: transitionAgentCapacityLocked_def)
next
  case (Some l)
  with worker_contextD(5) [OF wc] assms(2,4) have l: "l < length (cc_leases c')" "cc_leases c' ! l = currentNodeAgentCapacityReservation" by simp_all
  let ?c = "c'\<lparr>cc_leases := (cc_leases c')[l := currentNodeAgentCapacityLive]\<rparr>"
  let ?P = "\<lambda>owner. owner \<noteq> currentNodeAgentCapacityReleased"
  have "unreleased ?c = unreleased c'"
    using length_filter_update [OF l(1), of ?P currentNodeAgentCapacityReleased] l
      length_filter_update [of l "(cc_leases c')[l := currentNodeAgentCapacityLive]" ?P currentNodeAgentCapacityReleased]
    by (simp add: unreleased_def)
  then have "capacity_ok n ?c" using assms(1) by (simp add: worker_result_def capacity_ok_def)
  moreover have "controller_ok c'" using assms(1) by (simp add: worker_result_def)
  then have "controller_ok ?c" by (rule controller_ok_cong) simp_all
  moreover have "worker_step start c ?c" using assms(1) Some by (auto simp: worker_result_def worker_step_def)
  moreover have "admissionReservationLocked k policy ?c = admissionReservationLocked k policy c'" for k policy
    by (simp add: admissionReservationLocked_def)
  ultimately have "worker_result n scopeNode start p c ?c p'" using assms(1) by (simp add: worker_result_def)
  with that [of ?c] Some l(2) show thesis by (simp add: transitionAgentCapacityLocked_def)
qed

lemma claim_agent_result:
  assumes wc: "worker_context n scopeNode start p c" and "p = Preparing"
  shows "\<exists>c' p'. worker_exec ClaimAgent start c = Some (c', p') \<and> worker_result n scopeNode start p c c' p'"
proof -
  note key = keyed_start_key [OF worker_contextD(4) [OF wc]]
  show ?thesis
  proof (cases "claim_reservation start (the_key start) c")
    case (Inl err)
    then show ?thesis using assms(2) key unchanged [OF wc] by (simp add: admit_agent_section_def holding_def)
  next
    case (Inr c1)
    have same: "cc_leases c1 = cc_leases c" using Inr
      by (auto simp: claim_reservation_def deleteAdmissionReservationLocked_def split: option.splits if_splits)
    have "worker_result n scopeNode start p c c1 Admitting" using claim_result [OF wc _ Inr] assms(2) by simp
    then obtain c2 where "transitionAgentCapacityLocked (qs_agentCapacityLease start) currentNodeAgentCapacityReservation currentNodeAgentCapacityLive c1 = Some c2"
      "worker_result n scopeNode start p c c2 Admitting"
      by (rule transition_result [OF _ assms(2) wc same])
    with key Inr show ?thesis by (simp add: admit_agent_section_def)
  qed
qed

lemma release_lease_result:
  assumes wc: "worker_context n scopeNode start p c" and "p \<noteq> Leaving"
  shows "\<exists>c' p'. worker_exec ReleaseLease start c = Some (c', p') \<and> worker_result n scopeNode start p c c' p'"
proof -
  note capacity = worker_contextD(3) [OF wc] and lease = worker_contextD(5) [OF wc]
  have "\<And>l. qs_agentCapacityLease start = Some l \<Longrightarrow> l < length (cc_leases c)" using lease by blast
  from release_own_lease [OF capacity this] obtain c' where
    c': "releaseAgentCapacityLocked (qs_agentCapacityLease start) c = Some c'" "capacity_ok n c'" "worker_step start c c'"
      "controller_ok c' = controller_ok c" "cc_interrupts c' = cc_interrupts c" "qs_agentCapacityLease start = None \<longrightarrow> c' = c" by blast
  have "cc_agentCapacityActive c' = cc_agentCapacityActive c \<or> isAutomatic (qs_policy start)"
    using c'(6) lease by (cases "qs_agentCapacityLease start") auto
  then have "worker_result n scopeNode start p c c' Leaving" using c' worker_contextD(1,2) [OF wc] assms(2) by (simp add: worker_result_def holding_def)
  with c'(1) show ?thesis by simp
qed

lemma release_reservation_result:
  assumes wc: "worker_context n scopeNode start p c"
  shows "\<exists>c' p'. worker_exec ReleaseReservation start c = Some (c', p') \<and> worker_result n scopeNode start p c c' p'"
proof -
  note controller = worker_contextD(1) [OF wc] and capacity = worker_contextD(3) [OF wc] and lease = worker_contextD(5) [OF wc]
  let ?key = "the_key start" and ?lease = "qs_agentCapacityLease start"
  define c1 where "c1 = deleteAdmissionReservationLocked ?key (qs_policy start) c"
  have c1: "controller_ok c1" "capacity_ok n c1" "worker_step start c c1" "cc_interrupts c1 = cc_interrupts c" "cc_leases c1 = cc_leases c"
    "cc_agentCapacityActive c1 = cc_agentCapacityActive c" "cc_closed c1 = cc_closed c"
    using controller capacity delete_reservation_ok by (simp_all add: c1_def) (simp_all add: deleteAdmissionReservationLocked_def)
  have "\<And>l. ?lease = Some l \<Longrightarrow> l < length (cc_leases c1)" using lease c1(5) by auto
  from release_own_lease [OF c1(2) this] obtain c2 where
    c2: "releaseAgentCapacityLocked ?lease c1 = Some c2" "capacity_ok n c2" "worker_step start c1 c2"
      "controller_ok c2 = controller_ok c1" "cc_interrupts c2 = cc_interrupts c1" "?lease = None \<longrightarrow> c2 = c1" by blast
  define held where "held \<longleftrightarrow> (case ?lease of None \<Rightarrow> False | Some l \<Rightarrow> cc_leases c1 ! l = currentNodeAgentCapacityReservation)"
  define c3 where "c3 = (if held then c2 else c1)"
  have c3: "capacity_ok n c3" "controller_ok c3" "worker_step start c c3" "cc_interrupts c3 = cc_interrupts c" "cc_closed c3 = cc_closed c"
  proof -
    have "worker_step start c c2" by (rule worker_step_trans [OF c1(3) c2(3)])
    moreover have "cc_closed c2 = cc_closed c1" using c2(3) by (simp add: worker_step_def)
    ultimately show "capacity_ok n c3" "controller_ok c3" "worker_step start c c3" "cc_interrupts c3 = cc_interrupts c" "cc_closed c3 = cc_closed c"
      using c1 c2 by (simp_all add: c3_def)
  qed
  have active: "cc_agentCapacityActive c3 = cc_agentCapacityActive c" if "\<not> isAutomatic (qs_policy start)"
    using that lease c1(6) by (auto simp: c3_def held_def split: option.splits)
  define reserved where "reserved \<longleftrightarrow> admissionReservationLocked ?key (qs_policy start) c \<noteq> None"
  let ?c' = "if (reserved \<or> isAutomatic (qs_policy start)) \<and> \<not> cc_closed c3 then wakeAdmissionWorker c3 else c3"
  have "releaseReservation ?key (qs_policy start) ?lease c = Some ?c'"
    using c2(1) by (simp add: releaseReservation_def Let_def c1_def [symmetric] held_def [symmetric] c3_def reserved_def del: not_None_eq)
  moreover have "worker_step start c ?c'" using c3(3) by (simp add: worker_step_def wakeAdmissionWorker_def)
  moreover have "capacity_ok n ?c'" using c3(1) by (simp add: capacity_ok_def wakeAdmissionWorker_def unreleased_def)
  moreover have "controller_ok ?c'" "cc_interrupts ?c' = cc_interrupts c" using c3 by simp_all
  moreover have "cc_closed ?c' \<or> cc_workerWake ?c' \<or> cc_agentCapacityActive ?c' = cc_agentCapacityActive c \<and> \<not> isAutomatic (qs_policy start)"
    using active by (auto simp: wakeAdmissionWorker_def)
  moreover have "admissionReservationLocked ?key (qs_policy start) ?c' = None"
    using deleted_reservation [of ?key "qs_policy start" c] c2(3) unfolding c1_def [symmetric]
    by (auto simp: c3_def worker_step_def admissionReservationLocked_def wakeAdmissionWorker_def map_le_def dom_def split: if_splits)
  ultimately show ?thesis using worker_contextD(2,4) [OF wc] by (auto simp: worker_result_def)
qed

lemma resolve_result:
  assumes wc: "worker_context n scopeNode start p c" and "p \<noteq> Leaving" and "\<not> holding p"
  shows "worker_result n scopeNode start p c (completion_resolve m c) Unfencing"
  by (rule section_result [OF assms(1,2) section_ok_steps(4) [OF worker_contextD(1,2) [OF wc]]])
    (use assms(3) in \<open>auto simp: worker_step_def completion_resolve_def split: option.splits\<close>)

lemma settle_result:
  assumes wc: "worker_context n scopeNode start p c" and "p \<noteq> Leaving" and "\<not> holding p"
  shows "worker_result n scopeNode start p c (handleCurrentNodeStartFailures b c) Resolving"
  by (rule section_result [OF assms(1,2) section_ok_steps(3) [OF worker_contextD(1,2) [OF wc]]])
    (use assms(3) in \<open>auto simp: worker_step_def handleCurrentNodeStartFailures_def\<close>)

lemma unfence_result:
  assumes wc: "worker_context n scopeNode start p c" and "p \<noteq> Leaving" and "\<not> holding p"
  shows "\<exists>c' p'. worker_exec Unfence start c = Some (c', p') \<and> worker_result n scopeNode start p c c' p'"
proof -
  have "finishTaskInterruptAdmission (qs_reference start) c = Some (finishTaskInterruptAdmissionKey (the_key start) c)"
    using worker_contextD(4) [OF wc] by (simp add: finishTaskInterruptAdmission_def)
  moreover have "worker_result n scopeNode start p c (finishTaskInterruptAdmissionKey (the_key start) c) Ending"
    by (rule section_result [OF assms(1,2) section_ok_steps(2) [OF worker_contextD(1,2) [OF wc]]])
      (use assms(3) in \<open>auto simp: worker_step_def finishTaskInterruptAdmissionKey_def\<close>)
  ultimately show ?thesis by simp
qed

lemma claim_script_result:
  assumes wc: "worker_context n scopeNode start p c" and "p = Preparing"
  shows "\<exists>c' p'. worker_exec ClaimScript start c = Some (c', p') \<and> worker_result n scopeNode start p c c' p'"
  using worker_contextD(4) [OF wc] assms(2) claim_result [OF wc] unchanged [OF wc]
  by (cases "claim_reservation start (the_key start) c") (auto simp: holding_def)

lemma worker_exec_result:
  assumes wc: "worker_context n scopeNode start p c" and "worker_enabled a p" and "a \<noteq> FinishWorker"
  shows "\<exists>c' p'. worker_exec a start c = Some (c', p') \<and> worker_result n scopeNode start p c c' p'"
proof (cases a)
  case ClaimScript
  with assms(2) claim_script_result [OF wc] show ?thesis by (simp add: holding_def del: worker_exec.simps)
next
  case ClaimAgent
  with assms(2) claim_agent_result [OF wc] show ?thesis by (simp add: holding_def del: worker_exec.simps)
next
  case ReleaseLease
  with assms(2) release_lease_result [OF wc] show ?thesis by (simp add: holding_def del: worker_exec.simps)
next
  case ReleaseReservation
  with release_reservation_result [OF wc] show ?thesis by (simp add: holding_def del: worker_exec.simps)
next
  case Unfence
  with assms(2) unfence_result [OF wc] show ?thesis by (simp add: holding_def del: worker_exec.simps)
next
  case ResolveCompletion
  with assms(2) resolve_result [OF wc] show ?thesis by (simp add: holding_def)
next
  case (Settle b)
  with assms(2) settle_result [OF wc] show ?thesis by (simp add: holding_def)
next
  case (StartReturns b)
  with assms(2) wake_result [OF wc] show ?thesis by (simp add: holding_def)
next
  case (PublicationReturns b)
  with assms(2) wake_result [OF wc] show ?thesis by (simp add: holding_def)
qed (use assms(2,3) unchanged [OF wc] in \<open>simp_all add: holding_def\<close>)

definition with_phase :: "nat \<Rightarrow> admission_phase \<Rightarrow> admission_worker list \<Rightarrow> admission_worker list" where
  "with_phase i p workers = workers[i := (workers ! i)\<lparr>aw_phase := p\<rparr>]"

lemma with_phase_simps [simp]:
  "length (with_phase i p workers) = length workers"
  "j < length workers \<Longrightarrow> aw_start (with_phase i p workers ! j) = aw_start (workers ! j)"
  "j < length workers \<Longrightarrow> aw_phase (with_phase i p workers ! j) = (if j = i then p else aw_phase (workers ! j))"
  "map worker_completion (with_phase i p workers) = map worker_completion workers"
proof -
  show len: "length (with_phase i p workers) = length workers" by (simp add: with_phase_def)
  have start: "j < length workers \<Longrightarrow> aw_start (with_phase i p workers ! j) = aw_start (workers ! j)" for j
    by (cases "i = j") (simp_all add: with_phase_def)
  then show "j < length workers \<Longrightarrow> aw_start (with_phase i p workers ! j) = aw_start (workers ! j)" .
  show "j < length workers \<Longrightarrow> aw_phase (with_phase i p workers ! j) = (if j = i then p else aw_phase (workers ! j))"
    by (cases "i = j") (simp_all add: with_phase_def)
  show "map worker_completion (with_phase i p workers) = map worker_completion workers"
    by (rule nth_equalityI) (simp_all add: worker_completion_def start len)
qed

lemma with_phase_worker:
  assumes "w \<in> set (with_phase i p workers)"
  obtains j where "j < length workers" and "w = with_phase i p workers ! j"
  using assms by (auto simp: in_set_conv_nth)

lemma leases_with_phase:
  assumes "leases_ok leases workers callbacks" and "i < length workers" and "p' \<noteq> Preparing"
    and "length leases' = length leases" and "\<And>l. worker_lease (workers ! i) \<noteq> Some l \<Longrightarrow> leases' ! l = leases ! l"
    and "set callbacks' \<subseteq> set callbacks \<union> {l. worker_lease (workers ! i) = Some l}"
  shows "leases_ok leases' (with_phase i p' workers) callbacks'"
  unfolding leases_ok_def
proof (intro conjI ballI allI impI)
  let ?ws = "with_phase i p' workers"
  have lease [simp]: "j < length workers \<Longrightarrow> worker_lease (?ws ! j) = worker_lease (workers ! j)" for j by (simp add: worker_lease_def)
  have own: "l < length leases" "isAutomatic (qs_policy (aw_start (workers ! j)))"
    "aw_phase (workers ! j) = Preparing \<Longrightarrow> leases ! l = currentNodeAgentCapacityReservation"
    if "j < length workers" "worker_lease (workers ! j) = Some l" for j l
    using assms(1) nth_mem [OF that(1)] that(2) unfolding leases_ok_def by blast+
  have unique: "worker_lease (workers ! j) = Some l \<Longrightarrow> worker_lease (workers ! k) = Some l \<Longrightarrow> j < length workers \<Longrightarrow> k < length workers \<Longrightarrow> j = k" for j k l
    using assms(1) unfolding leases_ok_def by (metis linorder_neqE_nat)
  fix w l assume w: "w \<in> set ?ws" "worker_lease w = Some l"
  then obtain j where j: "j < length workers" "w = ?ws ! j" by (auto elim: with_phase_worker)
  have l: "worker_lease (workers ! j) = Some l" using w(2) j by simp
  show "l < length leases'" using own(1) [OF j(1) l] assms(4) by simp
  show "isAutomatic (qs_policy (aw_start w))" using own(2) [OF j(1) l] j by simp
  show "leases' ! l = currentNodeAgentCapacityReservation" if "aw_phase w = Preparing"
  proof -
    have "j \<noteq> i" "aw_phase (workers ! j) = Preparing" using that j assms(3) by (auto split: if_splits)
    with own(3) [OF j(1) l] unique [OF l _ j(1) assms(2)] assms(5) show ?thesis by metis
  qed
next
  let ?ws = "with_phase i p' workers"
  fix j k l assume "j < k" "k < length ?ws" "worker_lease (?ws ! j) = Some l"
  then show "worker_lease (?ws ! k) \<noteq> Some l" using assms(1) by (auto simp: leases_ok_def worker_lease_def)
next
  let ?ws = "with_phase i p' workers"
  fix l assume "l \<in> set callbacks'"
  then consider "l \<in> set callbacks" | "worker_lease (workers ! i) = Some l" using assms(6) by blast
  then obtain j where "j < length workers" "worker_lease (workers ! j) = Some l" "j \<noteq> i \<longrightarrow> aw_phase (workers ! j) \<noteq> Preparing"
  proof cases
    case 1
    with assms(1) obtain w where w: "w \<in> set workers" "worker_lease w = Some l" "aw_phase w \<noteq> Preparing" unfolding leases_ok_def by blast
    then obtain j where "j < length workers" "w = workers ! j" by (auto simp: in_set_conv_nth)
    with that w show thesis by blast
  next
    case 2
    with that [of i] assms(2) show thesis by simp
  qed
  then show "\<exists>w \<in> set ?ws. worker_lease w = Some l \<and> aw_phase w \<noteq> Preparing"
    using assms(3) by (intro bexI [of _ "?ws ! j"]) (auto simp: worker_lease_def)
qed

lemma registered_with_phase:
  assumes "registered_ok c workers" and "i < length workers" and "aw_phase (workers ! i) \<noteq> Finished" and "p' \<noteq> Finished"
    and "cc_admissionWorkers c' = cc_admissionWorkers c"
  shows "registered_ok c' (with_phase i p' workers)"
  unfolding registered_ok_def
proof (intro conjI allI impI ballI)
  let ?ws = "with_phase i p' workers"
  show "keyed (aw_start w)" if "w \<in> set ?ws" for w
    using that assms(1) by (auto simp: registered_ok_def elim!: with_phase_worker)
  show "map_of (cc_admissionWorkers c') (the_key (aw_start (?ws ! j))) = Some (aw_start (?ws ! j)) \<or>
      (\<exists>k. j < k \<and> k < length ?ws \<and> the_key (aw_start (?ws ! k)) = the_key (aw_start (?ws ! j)))"
    if "j < length ?ws" "aw_phase (?ws ! j) \<noteq> Finished" for j
  proof -
    have j: "j < length workers" "aw_phase (workers ! j) \<noteq> Finished" using that assms(3) by (auto split: if_splits)
    then consider "map_of (cc_admissionWorkers c) (the_key (aw_start (workers ! j))) = Some (aw_start (workers ! j))"
      | k where "j < k" "k < length workers" "the_key (aw_start (workers ! k)) = the_key (aw_start (workers ! j))"
      using assms(1) unfolding registered_ok_def by blast
    then show ?thesis
    proof cases
      case (2 k)
      with j show ?thesis by (intro disjI2 exI [of _ k]) simp
    qed (use j assms(5) in simp)
  qed
  show "\<exists>w \<in> set ?ws. aw_start w = st \<and> the_key st = key \<and> aw_phase w \<noteq> Finished"
    if m: "map_of (cc_admissionWorkers c') key = Some st" for key st
  proof -
    obtain w where w: "w \<in> set workers" "aw_start w = st \<and> the_key st = key \<and> aw_phase w \<noteq> Finished"
      using assms(1) m [unfolded assms(5)] unfolding registered_ok_def by blast
    then obtain j where j: "j < length workers" "w = workers ! j" by (auto simp: in_set_conv_nth)
    with w(2) assms(4) show ?thesis by (intro bexI [of _ "?ws ! j"]) (auto simp: nth_mem)
  qed
qed

lemma worker_unique:
  assumes "distinct (map worker_completion workers)" and "i < length workers" and "w \<in> set workers"
    and "qs_completion (aw_start w) = qs_completion (aw_start (workers ! i))"
  shows "w = workers ! i"
proof -
  obtain j where j: "j < length workers" "w = workers ! j" using assms(3) by (auto simp: in_set_conv_nth)
  then have "map worker_completion workers ! j = map worker_completion workers ! i"
    using assms(2,4) by (simp add: worker_completion_def)
  then have "j = i" using assms(1,2) j by (metis length_map nth_eq_iff_index_eq)
  with j show ?thesis by simp
qed

lemma reservations_with_phase:
  assumes "reservations_ok c workers"
    and "worker_result n scopeNode (aw_start (workers ! i)) (aw_phase (workers ! i)) c c' p'" and "i < length workers"
  shows "reservations_ok c' (with_phase i p' workers)"
proof -
  let ?start = "aw_start (workers ! i)" and ?ws = "with_phase i p' workers"
  have st: "worker_step ?start c c'" and gone: "holding (aw_phase (workers ! i)) \<and> \<not> holding p' \<longrightarrow>
      admissionReservationLocked (the_key ?start) (qs_policy ?start) c' = None" using assms(2) by (simp_all add: worker_result_def)
  have sub: "map_of (cc_explicitReservations c') key = Some start \<Longrightarrow> map_of (cc_explicitReservations c) key = Some start"
    "map_of (cc_automaticReservations c') key = Some start \<Longrightarrow> map_of (cc_automaticReservations c) key = Some start" for key start
    using st unfolding worker_step_def by (metis domI map_le_def)+
  have kept: "reservation_held c' ?ws key start"
    if held: "reservation_held c workers key start" and still: "admissionReservationLocked key (qs_policy start) c' \<noteq> None" for key start
  proof -
    obtain w where w: "w \<in> set workers" "aw_start w = start" "holding (aw_phase w)" using held by (auto simp: reservation_held_def)
    obtain j where j: "j < length workers" "w = workers ! j" using w(1) by (auto simp: in_set_conv_nth)
    have "holding (aw_phase (?ws ! j))"
    proof (cases "j = i")
      case True
      then have "start = ?start" "holding (aw_phase (workers ! i))" using w j by simp_all
      with gone still held j True show ?thesis by (auto simp: reservation_held_def)
    qed (use w j in simp)
    then have "\<exists>w \<in> set ?ws. aw_start w = start \<and> holding (aw_phase w)"
      using j w(2) by (intro bexI [of _ "?ws ! j"]) (simp_all add: nth_mem)
    with held st show ?thesis by (simp add: reservation_held_def worker_step_def)
  qed
  show ?thesis unfolding reservations_ok_def
  proof (intro conjI allI impI)
    fix key start
    show "\<not> isAutomatic (qs_policy start)" "reservation_held c' ?ws key start" if "map_of (cc_explicitReservations c') key = Some start"
    proof -
      show a: "\<not> isAutomatic (qs_policy start)" using sub(1) [OF that] assms(1) by (simp add: reservations_ok_def)
      show "reservation_held c' ?ws key start"
        by (rule kept) (use a that sub(1) [OF that] assms(1) in \<open>simp_all add: reservations_ok_def admissionReservationLocked_def\<close>)
    qed
    show "isAutomatic (qs_policy start)" "reservation_held c' ?ws key start" if "map_of (cc_automaticReservations c') key = Some start"
    proof -
      show a: "isAutomatic (qs_policy start)" using sub(2) [OF that] assms(1) by (simp add: reservations_ok_def)
      show "reservation_held c' ?ws key start"
        by (rule kept) (use a that sub(2) [OF that] assms(1) in \<open>simp_all add: reservations_ok_def admissionReservationLocked_def\<close>)
    qed
  qed
qed

lemma wake_with_phase:
  assumes "wake_ok c loop workers" and "worker_result n scopeNode (aw_start (workers ! i)) (aw_phase (workers ! i)) c c' p'" and "i < length workers"
  shows "wake_ok c' loop (with_phase i p' workers)"
proof -
  note r = assms(2) [unfolded worker_result_def]
  note st = r [THEN conjunct2, THEN conjunct2, THEN conjunct2, THEN conjunct1]
  have same: "cc_closed c' = cc_closed c" "cc_closing c' = cc_closing c" "cc_workerWake c \<longrightarrow> cc_workerWake c'"
    "explicit_takeable c' = explicit_takeable c" "cc_agentConcurrency c' = cc_agentConcurrency c"
    using st by (simp_all add: worker_step_def explicit_takeable_def inFlightAdmissionCountLocked_def)
  have auto: "\<exists>w \<in> set (with_phase i p' workers). about_to_wake w"
    if "automatic_takeable c'" "\<not> cc_workerWake c'" "\<not> cc_closed c'" "\<not> automatic_takeable c \<or> (\<exists>w \<in> set workers. about_to_wake w)"
  proof (cases "p' = Leaving \<and> isAutomatic (qs_policy (aw_start (workers ! i)))")
    case True
    then have "about_to_wake (with_phase i p' workers ! i)" using assms(3) by (simp add: about_to_wake_def)
    with assms(3) show ?thesis by (metis nth_mem with_phase_simps(1))
  next
    case False
    with r that(2,3) have a: "cc_agentCapacityActive c' = cc_agentCapacityActive c" "\<not> about_to_wake (workers ! i)"
      by (auto simp: about_to_wake_def)
    with that(1) same(5) worker_step_starts [OF st] have "automatic_takeable c" by (simp add: automatic_takeable_def)
    with that(4) obtain j where j: "j < length workers" "about_to_wake (workers ! j)" by (auto simp: in_set_conv_nth)
    with a(2) have "about_to_wake (with_phase i p' workers ! j)" by (auto simp: about_to_wake_def)
    with j(1) show ?thesis by (metis nth_mem with_phase_simps(1))
  qed
  show ?thesis using assms(1) same(1-4) auto unfolding wake_ok_def by auto
qed

lemma system_worker_context:
  assumes "system_ok n scopeNode s" and "i < length (sy_workers s)"
  shows "worker_context n scopeNode (aw_start (sy_workers s ! i)) (aw_phase (sy_workers s ! i)) (sy_controller s)"
  using assms(1) nth_mem [OF assms(2)]
  by (auto simp: system_ok_defs worker_context_def leases_ok_def registered_ok_def worker_lease_def)

lemma worker_enabled_phase: "worker_enabled a p \<Longrightarrow> p \<noteq> Finished"
  by (cases a) auto

lemma Worker_preserves:
  assumes "system_ok n scopeNode s" and "enabled (Worker i a) s" and "a \<noteq> FinishWorker"
  shows "\<exists>s'. exec scopeNode (Worker i a) s = Some s' \<and> system_ok n scopeNode s'"
proof -
  let ?ws = "sy_workers s" and ?c = "sy_controller s"
  let ?w = "?ws ! i"
  have i: "i < length ?ws" "worker_enabled a (aw_phase ?w)" using assms(2) by simp_all
  obtain c' p' where e: "worker_exec a (aw_start ?w) ?c = Some (c', p')"
      and r: "worker_result n scopeNode (aw_start ?w) (aw_phase ?w) ?c c' p'"
    using worker_exec_result [OF system_worker_context [OF assms(1) i(1)] i(2) assms(3)] by blast
  define callbacks where "callbacks = (case (a, qs_agentCapacityLease (aw_start ?w)) of (StartAgent, Some l) \<Rightarrow> l # sy_callbacks s | _ \<Rightarrow> sy_callbacks s)"
  let ?s = "s\<lparr>sy_controller := c', sy_workers := with_phase i p' ?ws, sy_callbacks := callbacks\<rparr>"
  have s: "exec scopeNode (Worker i a) s = Some ?s" by (simp add: e Let_def with_phase_def callbacks_def)
  have cb: "set callbacks \<subseteq> set (sy_callbacks s) \<union> {l. worker_lease ?w = Some l}"
    by (auto simp: callbacks_def worker_lease_def split: worker_action.splits option.splits)
  have st: "worker_step (aw_start ?w) ?c c'" and p': "p' \<noteq> Preparing" "p' \<noteq> Finished"
    and ok: "controller_ok c'" "fence_ok scopeNode (cc_interrupts c')" "capacity_ok n c'" using r by (simp_all add: worker_result_def)
  have "leases_ok (cc_leases c') (with_phase i p' ?ws) callbacks"
  proof (rule leases_with_phase [OF _ i(1) p'(1) _ _ cb])
    show "leases_ok (cc_leases ?c) ?ws (sy_callbacks s)" using assms(1) by (simp add: system_ok_defs)
  qed (use st in \<open>simp_all add: worker_step_def worker_lease_def\<close>)
  moreover have "registered_ok c' (with_phase i p' ?ws)"
    using assms(1) st by (intro registered_with_phase [OF _ i(1) worker_enabled_phase [OF i(2)] p'(2)]) (simp_all add: system_ok_defs worker_step_def)
  moreover have "reservations_ok c' (with_phase i p' ?ws)"
    using assms(1) by (intro reservations_with_phase [OF _ r i(1)]) (simp add: system_ok_defs)
  moreover have "completions_ok c' (with_phase i p' ?ws)"
  proof -
    have "completion_in c' (aw_start w) \<and> worker_completion w \<notin> completions_of (queued_starts c')" if w: "w \<in> set (with_phase i p' ?ws)" for w
    proof -
      obtain j where j: "j < length ?ws" "w = with_phase i p' ?ws ! j" by (rule with_phase_worker [OF w])
      with assms(1) nth_mem [OF j(1)] st worker_step_starts(2) [OF st] show ?thesis
        by (simp add: system_ok_defs completions_ok_def completion_in_def worker_completion_def worker_step_def)
    qed
    with assms(1) show ?thesis by (simp add: system_ok_defs completions_ok_def)
  qed
  moreover have "wake_ok c' (sy_loop s) (with_phase i p' ?ws)"
    using assms(1) by (intro wake_with_phase [OF _ r i(1)]) (simp add: system_ok_defs)
  moreover have "explicit_in_flight c' \<le> explicitAdmissionConcurrency"
    using assms(1) st by (simp add: system_ok_defs worker_step_def inFlightAdmissionCountLocked_def)
  ultimately have "system_ok n scopeNode ?s" using ok by (simp add: system_ok_defs)
  with s show ?thesis by blast
qed

text \<open>
  The last step of a worker removes its registration. It panics exactly when the registration is
  not the worker's own.
\<close>

lemma finishAdmissionWorker_own:
  assumes "keyed start" and "map_of (cc_admissionWorkers c) (the_key start) = Some start"
  shows "finishAdmissionWorker start c =
    Some (let c1 = c\<lparr>cc_admissionWorkers := AList.delete (the_key start) (cc_admissionWorkers c)\<rparr> in
          if cc_closed c1 then c1 else wakeAdmissionWorker c1)"
  using assms by (simp add: finishAdmissionWorker_def Let_def)

lemma system_ok_parts:
  assumes "system_ok n scopeNode s"
  shows "controller_ok (sy_controller s)" "fence_ok scopeNode (cc_interrupts (sy_controller s))" "capacity_ok n (sy_controller s)"
    "explicit_in_flight (sy_controller s) \<le> explicitAdmissionConcurrency"
    "leases_ok (cc_leases (sy_controller s)) (sy_workers s) (sy_callbacks s)" "registered_ok (sy_controller s) (sy_workers s)"
    "reservations_ok (sy_controller s) (sy_workers s)" "completions_ok (sy_controller s) (sy_workers s)"
    "wake_ok (sy_controller s) (sy_loop s) (sy_workers s)"
  using assms by (simp_all add: system_ok_defs)

lemma registered_worker:
  assumes "registered_ok c workers" and "map_of (cc_admissionWorkers c) key = Some start"
  obtains w where "w \<in> set workers" and "aw_start w = start" and "the_key start = key" and "aw_phase w \<noteq> Finished"
  using assms unfolding registered_ok_def by blast

lemma finishAdmissionWorker_Some:
  assumes "system_ok n scopeNode s" and "i < length (sy_workers s)"
    and "finishAdmissionWorker (aw_start (sy_workers s ! i)) (sy_controller s) = Some c'"
  shows "map_of (cc_admissionWorkers (sy_controller s)) (the_key (aw_start (sy_workers s ! i))) = Some (aw_start (sy_workers s ! i))"
proof -
  let ?w = "sy_workers s ! i" and ?c = "sy_controller s"
  have k: "keyed (aw_start ?w)" using system_worker_context [OF assms(1,2)] by (rule worker_contextD)
  then obtain current where current: "map_of (cc_admissionWorkers ?c) (the_key (aw_start ?w)) = Some current"
      "qs_completion current = qs_completion (aw_start ?w)"
    using assms(3) by (auto simp: finishAdmissionWorker_def split: option.splits if_splits)
  obtain w where w: "w \<in> set (sy_workers s)" "aw_start w = current" using registered_worker [OF system_ok_parts(6) [OF assms(1)] current(1)] by blast
  have "w = ?w" by (rule worker_unique [OF _ assms(2) w(1)]) (use system_ok_parts(8) [OF assms(1)] w(2) current(2) in \<open>simp_all add: completions_ok_def\<close>)
  with w(2) current(1) show ?thesis by simp
qed

lemma registered_finish:
  assumes "registered_ok c workers" and "distinct (map worker_completion workers)" and "i < length workers"
    and "map_of (cc_admissionWorkers c) (the_key (aw_start (workers ! i))) = Some (aw_start (workers ! i))"
    and "cc_admissionWorkers c' = AList.delete (the_key (aw_start (workers ! i))) (cc_admissionWorkers c)"
  shows "registered_ok c' (with_phase i Finished workers)"
  unfolding registered_ok_def
proof (intro conjI allI impI ballI)
  let ?ws = "with_phase i Finished workers" and ?key = "the_key (aw_start (workers ! i))"
  show "keyed (aw_start w)" if "w \<in> set ?ws" for w
    using that assms(1) by (auto simp: registered_ok_def elim!: with_phase_worker)
  show "map_of (cc_admissionWorkers c') (the_key (aw_start (?ws ! j))) = Some (aw_start (?ws ! j)) \<or>
      (\<exists>k. j < k \<and> k < length ?ws \<and> the_key (aw_start (?ws ! k)) = the_key (aw_start (?ws ! j)))"
    if j: "j < length ?ws" "aw_phase (?ws ! j) \<noteq> Finished" for j
  proof -
    have ji: "j \<noteq> i" "j < length workers" "aw_phase (workers ! j) \<noteq> Finished" using j by (auto split: if_splits)
    then consider "map_of (cc_admissionWorkers c) (the_key (aw_start (workers ! j))) = Some (aw_start (workers ! j))"
      | k where "j < k" "k < length workers" "the_key (aw_start (workers ! k)) = the_key (aw_start (workers ! j))"
      using assms(1) unfolding registered_ok_def by blast
    then show ?thesis
    proof cases
      case 1
      have "the_key (aw_start (workers ! j)) \<noteq> ?key"
      proof
        assume "the_key (aw_start (workers ! j)) = ?key"
        with 1 assms(4) have "aw_start (workers ! j) = aw_start (workers ! i)" by (metis option.inject)
        then have "map worker_completion workers ! j = map worker_completion workers ! i" using ji assms(3) by (simp add: worker_completion_def)
        with assms(2,3) ji show False by (metis length_map nth_eq_iff_index_eq)
      qed
      with 1 ji show ?thesis by (simp add: assms(5) delete_conv')
    next
      case (2 k)
      with ji show ?thesis by (intro disjI2 exI [of _ k]) simp
    qed
  qed
  show "\<exists>w \<in> set ?ws. aw_start w = st \<and> the_key st = key \<and> aw_phase w \<noteq> Finished"
    if m: "map_of (cc_admissionWorkers c') key = Some st" for key st
  proof -
    have m': "key \<noteq> ?key" "map_of (cc_admissionWorkers c) key = Some st" using m by (auto simp: assms(5) delete_conv' split: if_splits)
    obtain w where w: "w \<in> set workers" "aw_start w = st" "the_key st = key" "aw_phase w \<noteq> Finished"
      by (rule registered_worker [OF assms(1) m'(2)])
    obtain j where j: "j < length workers" "w = workers ! j" using w(1) by (auto simp: in_set_conv_nth)
    then have "j \<noteq> i" using w m'(1) by auto
    with j w show ?thesis by (intro bexI [of _ "?ws ! j"]) (auto simp: nth_mem)
  qed
qed

lemma reservations_finish:
  assumes "reservations_ok c workers" and "distinct (map worker_completion workers)" and "i < length workers"
    and "map_of (cc_admissionWorkers c) (the_key (aw_start (workers ! i))) = Some (aw_start (workers ! i))"
    and "\<not> holding (aw_phase (workers ! i))"
    and "cc_admissionWorkers c' = AList.delete (the_key (aw_start (workers ! i))) (cc_admissionWorkers c)"
    and "cc_explicitReservations c' = cc_explicitReservations c" and "cc_automaticReservations c' = cc_automaticReservations c"
  shows "reservations_ok c' (with_phase i Finished workers)" and "\<not> reserved_key c (the_key (aw_start (workers ! i)))"
proof -
  have other: "\<exists>j. j < length workers \<and> j \<noteq> i \<and> aw_start (workers ! j) = start \<and> holding (aw_phase (workers ! j)) \<and> key \<noteq> the_key (aw_start (workers ! i))"
    if held: "reservation_held c workers key start" for key start
  proof -
    obtain w where w: "w \<in> set workers" "aw_start w = start" "holding (aw_phase w)" using held by (auto simp: reservation_held_def)
    obtain j where j: "j < length workers" "w = workers ! j" using w(1) by (auto simp: in_set_conv_nth)
    have "j \<noteq> i" using w j assms(5) by auto
    moreover have "key \<noteq> the_key (aw_start (workers ! i))"
    proof
      assume "key = the_key (aw_start (workers ! i))"
      with held assms(4) have "start = aw_start (workers ! i)" unfolding reservation_held_def by (metis option.inject)
      then have "w = workers ! i" using worker_unique [OF assms(2,3) w(1)] w(2) by simp
      with w(3) assms(5) show False by simp
    qed
    ultimately show ?thesis using w j by blast
  qed
  have kept: "reservation_held c' (with_phase i Finished workers) key start" if held: "reservation_held c workers key start" for key start
  proof -
    obtain j where j: "j < length workers" "j \<noteq> i" "aw_start (workers ! j) = start" "holding (aw_phase (workers ! j))" "key \<noteq> the_key (aw_start (workers ! i))"
      using other [OF held] by blast
    then have "\<exists>w \<in> set (with_phase i Finished workers). aw_start w = start \<and> holding (aw_phase w)"
      by (intro bexI [of _ "with_phase i Finished workers ! j"]) (simp_all add: nth_mem)
    with j(5) held show ?thesis by (simp add: reservation_held_def assms(6) delete_conv')
  qed
  show "reservations_ok c' (with_phase i Finished workers)" using assms(1,7,8) kept by (simp add: reservations_ok_def)
  show "\<not> reserved_key c (the_key (aw_start (workers ! i)))"
    using assms(1) other unfolding reserved_key_def reservations_ok_def by (metis option.exhaust)
qed

lemma Finish_preserves:
  assumes "system_ok n scopeNode s" and "enabled (Worker i FinishWorker) s" and "exec scopeNode (Worker i FinishWorker) s = Some s'"
  shows "system_ok n scopeNode s'"
proof -
  let ?ws = "sy_workers s" and ?c = "sy_controller s" and ?start = "aw_start (sy_workers s ! i)"
  have i: "i < length ?ws" "\<not> holding (aw_phase (?ws ! i))" using assms(2) by (simp_all add: holding_def)
  obtain c' where f: "finishAdmissionWorker ?start ?c = Some c'" using assms(3) by (auto simp: Let_def)
  have s': "s' = s\<lparr>sy_controller := c', sy_workers := with_phase i Finished ?ws\<rparr>" using assms(3) f by (auto simp: Let_def with_phase_def)
  have k: "keyed ?start" using system_worker_context [OF assms(1) i(1)] by (rule worker_contextD)
  note own = finishAdmissionWorker_Some [OF assms(1) i(1) f] and parts = system_ok_parts [OF assms(1)]
  have d: "distinct (map worker_completion ?ws)" using parts(8) by (simp add: completions_ok_def)
  define c1 where "c1 = ?c\<lparr>cc_admissionWorkers := AList.delete (the_key ?start) (cc_admissionWorkers ?c)\<rparr>"
  have c': "c' = (if cc_closed c1 then c1 else wakeAdmissionWorker c1)"
    using f finishAdmissionWorker_own [OF k own] unfolding c1_def [symmetric] Let_def by simp
  have fields: "cc_admissionWorkers c' = AList.delete (the_key ?start) (cc_admissionWorkers ?c)" "cc_leases c' = cc_leases ?c"
    "cc_interrupts c' = cc_interrupts ?c" "cc_completions c' = cc_completions ?c" "cc_agentConcurrency c' = cc_agentConcurrency ?c"
    "cc_agentCapacityActive c' = cc_agentCapacityActive ?c" "queued_starts c' = queued_starts ?c" "cc_closed c' = cc_closed ?c"
    "cc_closing c' = cc_closing ?c" "cc_explicitReservations c' = cc_explicitReservations ?c"
    "cc_automaticReservations c' = cc_automaticReservations ?c"
    by (simp_all add: c' c1_def wakeAdmissionWorker_def queued_starts_def)
  have woken: "cc_closed c' \<or> cc_workerWake c'" by (simp add: c' c1_def wakeAdmissionWorker_def)
  note res = reservations_finish [OF parts(7) d i(1) own i(2) fields(1,10,11)]
  have "controller_ok c1"
  proof -
    have q: "queued_starts c1 = queued_starts ?c" "automatic_starts c1 = automatic_starts ?c" "reserved_key c1 = reserved_key ?c"
      by (simp_all add: c1_def queued_starts_def reserved_key_def fun_eq_iff)
    have "mhas (cc_admissionWorkers c1) key" if "reserved_key ?c key" for key
    proof -
      have "key \<noteq> the_key ?start" using res(2) that by blast
      moreover have "mhas (cc_admissionWorkers ?c) key" using parts(1) that unfolding controller_ok_def by metis
      ultimately show ?thesis by (simp add: c1_def delete_conv')
    qed
    moreover have "queued_ok c1 start = queued_ok ?c start" for start by (simp add: queued_ok_def completion_in_def reserved_key_def c1_def)
    ultimately show ?thesis using parts(1) by (simp add: controller_ok_def q) (simp add: c1_def)
  qed
  then have "controller_ok c'" by (simp add: c')
  moreover have "explicit_in_flight c' \<le> explicitAdmissionConcurrency"
    using in_flight_delete [of "\<lambda>s. qs_policy s = currentNodeAdmissionExplicitOverride" "the_key ?start" "cc_admissionWorkers ?c"] parts(4)
    by (simp add: inFlightAdmissionCountLocked_def fields(1))
  moreover have "leases_ok (cc_leases c') (with_phase i Finished ?ws) (sy_callbacks s)"
    unfolding fields(2) by (rule leases_with_phase [OF parts(5) i(1)]) auto
  moreover have "registered_ok c' (with_phase i Finished ?ws)" by (rule registered_finish [OF parts(6) d i(1) own fields(1)])
  moreover have "completions_ok c' (with_phase i Finished ?ws)"
  proof -
    have "completion_in c' (aw_start w) \<and> worker_completion w \<notin> completions_of (queued_starts c')" if w: "w \<in> set (with_phase i Finished ?ws)" for w
    proof -
      obtain j where j: "j < length ?ws" "w = with_phase i Finished ?ws ! j" by (rule with_phase_worker [OF w])
      with parts(8) nth_mem [OF j(1)] show ?thesis by (simp add: completions_ok_def completion_in_def worker_completion_def fields)
    qed
    with d show ?thesis by (simp add: completions_ok_def)
  qed
  moreover have "wake_ok c' (sy_loop s) (with_phase i Finished ?ws)" using parts(9) woken by (auto simp: wake_ok_def fields)
  moreover have "capacity_ok n c'" using parts(3) by (simp add: capacity_ok_def unreleased_def fields)
  ultimately show ?thesis using parts(2) res(1) by (simp add: s' system_ok_defs fields(3))
qed

section \<open>All steps\<close>

lemma Callback_preserves:
  assumes "system_ok n scopeNode s" and "enabled (ReleaseCallback l) s"
  shows "\<exists>s'. exec scopeNode (ReleaseCallback l) s = Some s' \<and> system_ok n scopeNode s'"
proof -
  let ?c = "sy_controller s" and ?ws = "sy_workers s"
  note parts = system_ok_parts [OF assms(1)]
  obtain w where w: "w \<in> set ?ws" "worker_lease w = Some l" "aw_phase w \<noteq> Preparing"
    using assms(2) parts(5) by (auto simp: leases_ok_def)
  have l: "l < length (cc_leases ?c)" using parts(5) w by (auto simp: leases_ok_def)
  note r = release_lease [OF parts(3) l]
  let ?r = "released l ?c"
  let ?c' = "if cc_closed ?r \<or> cc_closing ?r then ?r else wakeAdmissionWorker ?r"
  have e: "exec scopeNode (ReleaseCallback l) s = Some (with_controller s ?c')" using r(1) by (simp add: releaseAgentCapacity_def)
  have fields: "cc_admissionWorkers ?c' = cc_admissionWorkers ?c" "cc_leases ?c' = (cc_leases ?c)[l := currentNodeAgentCapacityReleased]"
    "cc_interrupts ?c' = cc_interrupts ?c" "cc_completions ?c' = cc_completions ?c" "queued_starts ?c' = queued_starts ?c"
    "cc_explicitReservations ?c' = cc_explicitReservations ?c" "cc_automaticReservations ?c' = cc_automaticReservations ?c"
    by (simp_all add: released_def wakeAdmissionWorker_def queued_starts_def)
  have "leases_ok (cc_leases ?c') ?ws (sy_callbacks s)"
  proof -
    have unique: "aw_phase w' \<noteq> Preparing" if "w' \<in> set ?ws" "worker_lease w' = Some l" for w'
    proof -
      obtain i j where ij: "i < length ?ws" "w = ?ws ! i" "j < length ?ws" "w' = ?ws ! j" using w(1) \<open>w' \<in> set ?ws\<close> by (auto simp: in_set_conv_nth)
      have "i = j" using parts(5) ij w(2) that(2) unfolding leases_ok_def by (metis linorder_neqE_nat)
      with ij w(3) show ?thesis by simp
    qed
    have res: "(cc_leases ?c)[l := currentNodeAgentCapacityReleased] ! l' = currentNodeAgentCapacityReservation"
      if "w' \<in> set ?ws" "worker_lease w' = Some l'" "aw_phase w' = Preparing" for w' l'
    proof -
      have "l' \<noteq> l" using unique that by blast
      moreover have "cc_leases ?c ! l' = currentNodeAgentCapacityReservation" using parts(5) that unfolding leases_ok_def by blast
      ultimately show ?thesis by simp
    qed
    have old: "l' < length (cc_leases ?c) \<and> isAutomatic (qs_policy (aw_start w'))" if "w' \<in> set ?ws" "worker_lease w' = Some l'" for w' l'
      using parts(5) that unfolding leases_ok_def by blast
    show ?thesis unfolding fields(2) leases_ok_def length_list_update
    proof (intro conjI)
      show "\<forall>w \<in> set ?ws. \<forall>l'. worker_lease w = Some l' \<longrightarrow> l' < length (cc_leases ?c) \<and> isAutomatic (qs_policy (aw_start w)) \<and>
          (aw_phase w = Preparing \<longrightarrow> (cc_leases ?c)[l := currentNodeAgentCapacityReleased] ! l' = currentNodeAgentCapacityReservation)"
        using old res by blast
    qed (use parts(5) in \<open>unfold leases_ok_def, blast\<close>)+
  qed
  moreover have "capacity_ok n ?c'" using r(2) by (simp add: capacity_ok_def unreleased_def wakeAdmissionWorker_def)
  moreover have "controller_ok ?c'" using parts(1) by simp
  moreover have "explicit_in_flight ?c' \<le> explicitAdmissionConcurrency" using parts(4) by (simp add: inFlightAdmissionCountLocked_def fields(1) del: if_split)
  moreover have "registered_ok ?c' ?ws" using parts(6) unfolding registered_ok_def fields .
  moreover have "reservations_ok ?c' ?ws" using parts(7) unfolding reservations_ok_def reservation_held_def fields .
  moreover have "completions_ok ?c' ?ws" using parts(8) unfolding completions_ok_def completion_in_def fields .
  moreover have "wake_ok ?c' (sy_loop s) ?ws" using parts(9) by (auto simp: wake_ok_def released_def wakeAdmissionWorker_def)
  moreover have "fence_ok scopeNode (cc_interrupts ?c')" using parts(2) unfolding fields .
  ultimately have "system_ok n scopeNode (with_controller s ?c')" unfolding system_ok_defs with_controller_def by simp
  with e show ?thesis by blast
qed

lemma initial_ok:
  assumes "NewCurrentNodeController n = Some c"
  shows "system_ok n scopeNode (initial_system c)"
proof -
  have holds: "queue_holds new_queue []" using new_queue_repr by (auto simp: queue_holds_def)
  have c: "c = \<lparr>cc_agentConcurrency = n, cc_workerWake = False, cc_closed = False, cc_closing = False,
        cc_explicitQueue = [], cc_explicitQueued = [], cc_explicitReservations = [], cc_automaticQueue = new_queue,
        cc_queued = [], cc_automaticReservations = [], cc_admissionWorkers = [], cc_agentCapacityActive = 0,
        cc_interrupts = newCurrentNodeInterruptState, cc_workerErr = False, cc_lastAutomaticTask = None,
        cc_leases = [], cc_completions = []\<rparr>" and n: "0 < n"
    using assms by (auto simp: NewCurrentNodeController_def split: if_splits)
  then have "automatic_starts c = []" using queue_holds_starts [of c] holds by simp
  with holds n show ?thesis
    by (simp add: c initial_system_def system_ok_defs controller_ok_def queued_starts_def reserved_key_def fence_ok_def
        newCurrentNodeInterruptState_def capacity_ok_def unreleased_def inFlightAdmissionCountLocked_def leases_ok_def registered_ok_def
        reservations_ok_def completions_ok_def wake_ok_def explicit_takeable_def automatic_takeable_def)
qed

lemma section_actions:
  assumes "system_ok n scopeNode s" and "enabled a s"
    and "a \<in> {Promote t, Watch key, InterruptTask t b scopes queued, InterruptMove t scopes queued, EndScope scope, EndKey key, CloseBegin, CloseQueues, QueuePrepared starts}"
  shows "\<exists>c'. exec scopeNode a s = Some (with_controller s c') \<and> section_ok scopeNode (sy_controller s) c'"
proof -
  let ?c = "sy_controller s" and ?sel = "map (\<lambda>scope. (scope, scopeNode scope))"
  note ok = system_ok_parts(1,2) [OF assms(1)]
  have self: "with_controller s ?c = s" by (simp add: with_controller_def)
  have sel: "\<forall>(scope, reference) \<in> set (?sel scopes @ ?sel queued). reference = scopeNode scope"
    "\<forall>(scope, reference) \<in> set (?sel scopes). reference = scopeNode scope" by auto
  obtain cp rp where p: "PromoteConcurrencyQueuedTask t ?c = Some (cp, rp)" "controller_ok cp" "queue_step ?c cp" "cc_interrupts cp = cc_interrupts ?c"
    by (rule Promote_ok [OF ok(1)])
  obtain cw rw where w: "currentNodeAdmissionLocked key ?c = Some (cw, rw)" "controller_ok cw" "queue_step ?c cw" "cc_interrupts cw = cc_interrupts ?c"
    by (rule Watch_ok [OF ok(1)])
  obtain ri where i: "Interrupt_section t b (?sel scopes) (?sel queued) ?c = Some ri" "section_ok scopeNode ?c (after_section ?c ri)"
    by (rule Interrupt_section_ok [OF ok sel(1)])
  obtain rm where m: "InterruptForManualMove_section t (?sel scopes) (?sel queued) ?c = Some rm" "section_ok scopeNode ?c (after_section ?c rm)"
    by (rule InterruptForManualMove_section_ok [OF ok sel(2)])
  from assms(3) consider "a = Promote t" | "a = Watch key" | "a = InterruptTask t b scopes queued" | "a = InterruptMove t scopes queued"
    | "a = EndScope scope" | "a = EndKey key" | "a = CloseBegin" | "a = CloseQueues" | "a = QueuePrepared starts" by blast
  then show ?thesis
  proof cases
    case 1
    with p ok(2) show ?thesis by (intro exI [of _ cp]) (simp add: section_ok_def)
  next
    case 2
    with w ok(2) show ?thesis by (intro exI [of _ cw]) (simp add: section_ok_def)
  next
    case 3
    with i show ?thesis by (intro exI [of _ "after_section ?c ri"]) (simp add: Let_def)
  next
    case 4
    with m show ?thesis by (intro exI [of _ "after_section ?c rm"]) (simp add: Let_def)
  next
    case 5
    with section_ok_steps(1) [OF ok] show ?thesis by (metis exec.simps(13))
  next
    case 6
    with section_ok_steps(2) [OF ok] show ?thesis by (metis exec.simps(14))
  next
    case 7
    with close_begin_section [OF ok] show ?thesis by (metis exec.simps(15))
  next
    case 8
    show ?thesis
    proof (cases "cc_closing ?c")
      case True
      with 8 close_queues_section [OF ok] show ?thesis by (intro exI [of _ "close_queues ?c"]) simp
    next
      case False
      with 8 section_ok_refl [OF ok] self show ?thesis by (intro exI [of _ ?c]) simp
    qed
  next
    case 9
    with assms(2) have "list_all prepared starts" by simp
    note q = queuePreparedStarts_ok [OF ok(1) this]
    from 9 q enqueue_interrupts(2) [of starts ?c] ok(2) show ?thesis
      by (intro exI [of _ "fst (queuePreparedStarts starts ?c)"]) (simp add: section_ok_def)
  qed
qed

lemma step_preserves:
  assumes "system_ok n scopeNode s" and "enabled a s" and "exec scopeNode a s = Some s'"
  shows "system_ok n scopeNode s'"
proof -
  have sections: "system_ok n scopeNode s'"
    if "a \<in> {Promote t, Watch key, InterruptTask t b scopes queued, InterruptMove t scopes queued, EndScope scope, EndKey key, CloseBegin, CloseQueues, QueuePrepared starts}"
    for t key b scopes queued scope starts
    using section_actions [OF assms(1,2) that] assms(3) system_ok_section [OF assms(1)] by auto
  show ?thesis
  proof (cases a)
    case Wake
    with assms show ?thesis by (auto simp: system_ok_defs wake_ok_def capacity_ok_def unreleased_def inFlightAdmissionCountLocked_def
        registered_ok_def reservations_ok_def reservation_held_def completions_ok_def completion_in_def queued_starts_def
        elim: controller_ok_cong)
  next
    case StopLoop
    with assms show ?thesis by (auto simp: system_ok_defs wake_ok_def)
  next
    case TakeExplicit
    with assms TakeExplicit_preserves show ?thesis by metis
  next
    case TakeAutomatic
    with assms TakeAutomatic_preserves show ?thesis by (metis enabled.simps(4))
  next
    case (Worker i w)
    show ?thesis
    proof (cases "w = FinishWorker")
      case True
      with Worker assms Finish_preserves show ?thesis by metis
    next
      case False
      with Worker assms Worker_preserves [OF assms(1), of i w] show ?thesis by auto
    qed
  next
    case (ReleaseCallback l)
    with assms Callback_preserves [OF assms(1), of l] show ?thesis by auto
  next
    case (EnqueueStarts starts)
    then obtain c' where c': "enqueueStarts starts (sy_controller s) = Some c'" "s' = with_controller s c'" using assms(3) by auto
    have "section_ok scopeNode (sy_controller s) c'"
      using enqueueStarts_ok [OF system_ok_parts(1) [OF assms(1)] _ c'(1)] enqueue_interrupts(1) [OF c'(1)] system_ok_parts(2) [OF assms(1)]
        assms(2) EnqueueStarts by (simp add: section_ok_def)
    with c'(2) system_ok_section [OF assms(1)] show ?thesis by simp
  qed (use sections in blast)+
qed

lemma reachable_ok: "reachable n scopeNode s \<Longrightarrow> system_ok n scopeNode s"
  by (induction rule: reachable.induct) (blast intro: initial_ok step_preserves)+

end
