(* ===== verification/Adm_Props.thy ===== *)
theory Adm_Props
  imports Adm_Safety
begin

text \<open>
  The properties of the admission system, for every reachable state, whatever the order in which
  the callers, the admission loop, the workers and the callbacks take their steps.
\<close>

section \<open>Capacity and ownership\<close>

text \<open>
  C2: The agent capacity is never exceeded. In every reachable state the counter equals the number
  of leases that are not released, and lies between zero and the configured concurrency; at most
  eight explicit admissions are in flight.
\<close>

theorem agent_capacity_bounded:
  assumes "reachable agentConcurrency scopeNode s"
  shows "cc_agentCapacityActive (sy_controller s) = int (unreleased (sy_controller s)) \<and>
    0 \<le> cc_agentCapacityActive (sy_controller s) \<and> cc_agentCapacityActive (sy_controller s) \<le> agentConcurrency \<and>
    inFlightAdmissionCountLocked currentNodeAdmissionExplicitOverride (sy_controller s) \<le> explicitAdmissionConcurrency"
  using system_ok_parts(3,4) [OF reachable_ok [OF assms]] by (simp add: capacity_ok_def)

text \<open>
  C7: A current node has one owner. In every reachable state the keys of all queued starts are
  different, the two maps of queued keys list exactly them, no reserved key is queued, no key is
  reserved twice, and a reservation is the one of the worker registered for the key.
\<close>

theorem current_node_owned_once:
  assumes "reachable agentConcurrency scopeNode s"
  shows "let c = sy_controller s in
    distinct (map the_key (queued_starts c)) \<and>
    (\<forall>key. mhas (cc_explicitQueued c) key \<longleftrightarrow> key \<in> the_key ` set (cc_explicitQueue c)) \<and>
    (\<forall>key. mhas (cc_queued c) key \<longleftrightarrow> key \<in> the_key ` set (automatic_starts c)) \<and>
    (\<forall>key. reserved_key c key \<longrightarrow> key \<notin> the_key ` set (queued_starts c)) \<and>
    (\<forall>key start. map_of (cc_explicitReservations c) key = Some start \<longrightarrow>
       map_of (cc_automaticReservations c) key = None \<and> map_of (cc_admissionWorkers c) key = Some start) \<and>
    (\<forall>key start. map_of (cc_automaticReservations c) key = Some start \<longrightarrow>
       map_of (cc_explicitReservations c) key = None \<and> map_of (cc_admissionWorkers c) key = Some start)"
proof -
  let ?c = "sy_controller s"
  note parts = system_ok_parts [OF reachable_ok [OF assms]]
  have ok: "distinct (map the_key (queued_starts ?c))" "\<forall>key. mhas (cc_explicitQueued ?c) key \<longleftrightarrow> key \<in> the_key ` set (cc_explicitQueue ?c)"
    "\<forall>key. mhas (cc_queued ?c) key \<longleftrightarrow> key \<in> the_key ` set (automatic_starts ?c)"
    "\<forall>key. \<not> (mhas (cc_explicitReservations ?c) key \<and> mhas (cc_automaticReservations ?c) key)"
    "\<forall>start \<in> set (queued_starts ?c). queued_ok ?c start"
    using parts(1) unfolding controller_ok_def by blast+
  have free: "\<forall>key. reserved_key ?c key \<longrightarrow> key \<notin> the_key ` set (queued_starts ?c)" using ok(5) by (auto simp: queued_ok_def)
  have e: "map_of (cc_automaticReservations ?c) key = None \<and> map_of (cc_admissionWorkers ?c) key = Some start"
    if "map_of (cc_explicitReservations ?c) key = Some start" for key start
    using that ok(4) parts(7) by (simp add: reservations_ok_def reservation_held_def) (metis not_None_eq)
  have a: "map_of (cc_explicitReservations ?c) key = None \<and> map_of (cc_admissionWorkers ?c) key = Some start"
    if "map_of (cc_automaticReservations ?c) key = Some start" for key start
    using that ok(4) parts(7) by (simp add: reservations_ok_def reservation_held_def) (metis not_None_eq)
  show ?thesis unfolding Let_def using ok(1-3) free e a by blast
qed

section \<open>Wake-ups\<close>

text \<open>
  C6: No wake-up is lost. In a reachable state of an open controller in which the admission loop
  waits and no token is in the channel, a non-empty explicit queue means that eight explicit
  admissions are in flight; and when all workers have finished, the explicit queue is empty and
  what is left in the automatic queue is agent starts for which there is no capacity.
\<close>

theorem no_lost_wakeup:
  assumes "reachable agentConcurrency scopeNode s" and "sy_loop s = Waiting" and "\<not> cc_workerWake (sy_controller s)"
    and "\<not> cc_closing (sy_controller s)" and "\<not> cc_closed (sy_controller s)"
  shows "(cc_explicitQueue (sy_controller s) \<noteq> [] \<longrightarrow>
      inFlightAdmissionCountLocked currentNodeAdmissionExplicitOverride (sy_controller s) = explicitAdmissionConcurrency) \<and>
    ((\<forall>w \<in> set (sy_workers s). aw_phase w = Finished) \<longrightarrow>
      cc_explicitQueue (sy_controller s) = [] \<and>
      (\<forall>start \<in> set (automatic_starts (sy_controller s)).
         qs_policy start = currentNodeAdmissionAutomaticAgent \<and> cc_agentCapacityActive (sy_controller s) = agentConcurrency))"
proof -
  let ?c = "sy_controller s"
  note parts = system_ok_parts [OF reachable_ok [OF assms(1)]]
  have wake: "\<not> explicit_takeable ?c" "\<not> automatic_takeable ?c \<or> (\<exists>w \<in> set (sy_workers s). about_to_wake w)"
    using parts(9) assms(2-5) by (auto simp: wake_ok_def)
  have full: "explicit_in_flight ?c = explicitAdmissionConcurrency" if "cc_explicitQueue ?c \<noteq> []"
    using that wake(1) parts(4) by (simp add: explicit_takeable_def)
  have idle: "cc_explicitQueue ?c = [] \<and> (\<forall>start \<in> set (automatic_starts ?c).
      qs_policy start = currentNodeAdmissionAutomaticAgent \<and> cc_agentCapacityActive ?c = agentConcurrency)"
    if finished: "\<forall>w \<in> set (sy_workers s). aw_phase w = Finished"
  proof
    have "cc_admissionWorkers ?c = []"
    proof (rule ccontr)
      assume "cc_admissionWorkers ?c \<noteq> []"
      then obtain key start m where "cc_admissionWorkers ?c = (key, start) # m" by (cases "cc_admissionWorkers ?c") auto
      then have "map_of (cc_admissionWorkers ?c) key = Some start" by simp
      with registered_worker [OF parts(6) this] finished show False by metis
    qed
    then have "explicit_in_flight ?c = 0" by (simp add: inFlightAdmissionCountLocked_def)
    with full show "cc_explicitQueue ?c = []" by (auto simp: explicitAdmissionConcurrency_def)
    have "\<not> automatic_takeable ?c" using wake(2) finished by (auto simp: about_to_wake_def)
    then show "\<forall>start \<in> set (automatic_starts ?c). qs_policy start = currentNodeAdmissionAutomaticAgent \<and> cc_agentCapacityActive ?c = agentConcurrency"
      using parts(3) by (auto simp: automatic_takeable_def list_ex_iff eligible_def countsAgentCapacity_def capacity_ok_def)
  qed
  show ?thesis using full idle by blast
qed

section \<open>Panics\<close>

definition admission_replaced :: "nat \<Rightarrow> admission_system \<Rightarrow> bool" where
  "admission_replaced i s \<longleftrightarrow>
     (\<exists>j. i < j \<and> j < length (sy_workers s) \<and> the_key (aw_start (sy_workers s ! j)) = the_key (aw_start (sy_workers s ! i)))"

lemma queue_append_panic:
  "queue_holds q starts \<Longrightarrow> isAutomatic (qs_policy start) \<Longrightarrow> queue_append start q = None \<Longrightarrow> q_nextOrder q + 1 = 0"
  using automatic_queue.append_holds [of q starts start] by (auto simp: queue_room_def)

lemma queue_append_order: "queue_append start q = Some q' \<Longrightarrow> q_nextOrder q' = q_nextOrder q + 1"
  by (auto simp: queue_append_def Let_def split: option.splits prod.splits if_splits)

lemma unat_order: "n + 1 \<noteq> (0 :: 64 word) \<Longrightarrow> unat (n + 1) = unat n + 1"
  by (metis Suc_eq_plus1 add.commute unatSuc)

lemma unat_max: "n + 1 = (0 :: 64 word) \<Longrightarrow> unat n = 2 ^ 64 - 1"
proof -
  assume "n + 1 = 0"
  then have "n = - 1" by (simp add: eq_neg_iff_add_eq_0)
  then show ?thesis by (simp add: unat_eq_nat_uint uint_word_ariths)
qed

definition queue_order :: "CurrentNodeController \<Rightarrow> nat" where
  "queue_order c = unat (q_nextOrder (cc_automaticQueue c))"

lemma queueExplicit_order: "queue_order (fst (queueExplicitStartLocked start c)) = queue_order c"
  by (auto simp: queueExplicitStartLocked_def queue_order_def ensure_completion_def newCurrentNodeAdmissionCompletion_def
      wakeAdmissionWorker_def split: sum.splits option.splits)

lemma queueAutomatic_order:
  assumes "controller_ok c"
  shows "queueAutomaticStartLocked start c = None \<Longrightarrow> queue_order c = 2 ^ 64 - 1"
    and "queueAutomaticStartLocked start c = Some (c', err) \<Longrightarrow> queue_order c' \<le> queue_order c + 1"
proof -
  obtain c1 start1 where e: "ensure_completion start c = (c1, start1)" by (cases "ensure_completion start c")
  then have f: "cc_automaticQueue c1 = cc_automaticQueue c" "qs_policy start1 = qs_policy start"
    by (auto simp: ensure_completion_def newCurrentNodeAdmissionCompletion_def split: option.splits)
  show "queue_order c = 2 ^ 64 - 1" if "queueAutomaticStartLocked start c = None"
  proof -
    from that have "isAutomatic (qs_policy start)" "queue_append start1 (cc_automaticQueue c) = None"
      using f by (auto simp: queueAutomaticStartLocked_def e split: sum.splits if_splits)
    then have "q_nextOrder (cc_automaticQueue c) + 1 = 0" using queue_append_panic [OF controller_holds [OF assms], of start1] f(2) by simp
    then show ?thesis unfolding queue_order_def by (rule unat_max)
  qed
  show "queue_order c' \<le> queue_order c + 1" if "queueAutomaticStartLocked start c = Some (c', err)"
  proof -
    have "unat (q + 1) \<le> unat q + 1" for q :: "64 word" using unat_order [of q] by (cases "q + 1 = 0") simp_all
    with that f show ?thesis
      by (auto simp: queueAutomaticStartLocked_def e queue_order_def wakeAdmissionWorker_def queue_append_order split: sum.splits if_splits)
  qed
qed

lemma enqueue_loop_panic:
  "controller_ok c \<Longrightarrow> list_all prepared starts \<Longrightarrow> enqueue_loop starts c = None \<Longrightarrow> 2 ^ 64 \<le> queue_order c + length starts"
proof (induction starts arbitrary: c)
  case (Cons start starts)
  let ?queue = "if isAutomatic (qs_policy start) then queueAutomaticStartLocked start c else Some (queueExplicitStartLocked start c)"
  show ?case
  proof (cases ?queue)
    case None
    then have "queueAutomaticStartLocked start c = None" by (simp split: if_splits)
    with queueAutomatic_order(1) [OF Cons.prems(1)] show ?thesis by simp
  next
    case (Some r)
    obtain c1 err where r: "r = (c1, err)" by (cases r)
    let ?c = "if err \<noteq> None then c1\<lparr>cc_workerErr := True\<rparr> else c1"
    have p: "prepared start" using Cons.prems(2) by simp
    have "controller_ok c1 \<and> queue_order c1 \<le> queue_order c + 1"
    proof (cases "isAutomatic (qs_policy start)")
      case True
      then have "queueAutomaticStartLocked start c = Some (c1, err)" using Some r by simp
      with queueAutomaticStart_ok(1) [OF Cons.prems(1) p] queueAutomatic_order(2) [OF Cons.prems(1)] show ?thesis by blast
    next
      case False
      then have "c1 = fst (queueExplicitStartLocked start c)" using Some r by simp
      with queueExplicitStart_ok(1) [OF Cons.prems(1) p] queueExplicit_order [of start c] show ?thesis by simp
    qed
    moreover have "enqueue_loop starts ?c = None" using Cons.prems(3) Some r by simp
    ultimately have "2 ^ 64 \<le> queue_order ?c + length starts" using Cons.IH [of ?c] Cons.prems(2) by simp
    moreover have "queue_order ?c = queue_order c1" by (simp add: queue_order_def)
    ultimately show ?thesis using \<open>controller_ok c1 \<and> queue_order c1 \<le> queue_order c + 1\<close> by simp
  qed
qed simp


section \<open>Waiting for an admission\<close>

text \<open>
  A completion is attended: it is resolved, or it belongs to a start of the explicit queue, or to a
  worker that has yet to resolve it.
\<close>

definition attended :: "nat \<Rightarrow> admission_system \<Rightarrow> bool" where
  "attended m s \<longleftrightarrow> m < length (cc_completions (sy_controller s)) \<and>
     (cc_completions (sy_controller s) ! m \<or> Some m \<in> completions_of (cc_explicitQueue (sy_controller s)) \<or>
      (\<exists>w \<in> set (sy_workers s). worker_completion w = Some m \<and> aw_phase w \<notin> {Unfencing, Ending, Finished}))"

lemma attended_kept:
  assumes "attended m s" and "completions_kept (sy_controller s) c'"
  shows "attended m (with_controller s c')"
  using assms by (auto simp: attended_def completions_kept_def with_controller_def)

lemma attended_spawn:
  assumes "attended m s" and "cc_completions c' = cc_completions (sy_controller s)"
    and "completions_of (cc_explicitQueue (sy_controller s)) \<subseteq> insert (qs_completion start) (completions_of (cc_explicitQueue c'))"
  shows "attended m (spawn start (with_controller s c'))"
  using assms by (auto simp: attended_def spawn_def with_controller_def worker_completion_def)

lemma worker_exec_completions:
  assumes "worker_exec a start c = Some (c', p')"
  shows "cc_explicitQueue c' = cc_explicitQueue c \<and>
    cc_completions c' = (if a = ResolveCompletion then cc_completions (completion_resolve (qs_completion start) c) else cc_completions c) \<and>
    (p' \<in> {Unfencing, Ending, Finished} \<longrightarrow> a \<in> {ResolveCompletion, Unfence, FinishWorker})"
proof -
  have claim: "cc_explicitQueue c1 = cc_explicitQueue c \<and> cc_completions c1 = cc_completions c"
    if "claim_reservation start key c = Inr c1" for key c1
    using that by (auto simp: claim_reservation_def deleteAdmissionReservationLocked_def split: option.splits if_splits)
  have trans: "cc_explicitQueue c2 = cc_explicitQueue c1 \<and> cc_completions c2 = cc_completions c1"
    if "transitionAgentCapacityLocked l x y c1 = Some c2" for l x y c1 c2
    using that by (auto simp: transitionAgentCapacityLocked_def split: option.splits if_splits)
  have rel: "cc_explicitQueue c2 = cc_explicitQueue c1 \<and> cc_completions c2 = cc_completions c1"
    if "releaseAgentCapacityLocked l c1 = Some c2" for l c1 c2
    using that by (auto simp: releaseAgentCapacityLocked_def Let_def split: option.splits if_splits)
  show ?thesis
  proof (cases a)
    case ClaimAgent
    show ?thesis
    proof (cases "start_key start")
      case (Inr key)
      then show ?thesis
      proof (cases "claim_reservation start key c")
        case claimed: (Inr c1)
        obtain c2 where "transitionAgentCapacityLocked (qs_agentCapacityLease start) currentNodeAgentCapacityReservation currentNodeAgentCapacityLive c1 = Some c2"
          "c' = c2" "p' = Admitting" using assms ClaimAgent Inr claimed by (auto simp: admit_agent_section_def)
        with claim [OF claimed] trans ClaimAgent show ?thesis by fastforce
      qed (use assms ClaimAgent Inr in \<open>auto simp: admit_agent_section_def\<close>)
    qed (use assms ClaimAgent in auto)
  next
    case ClaimScript
    with assms claim show ?thesis by (auto split: sum.splits)
  next
    case ReleaseLease
    with assms rel show ?thesis by auto
  next
    case ReleaseReservation
    have del: "cc_explicitQueue (deleteAdmissionReservationLocked k p c) = cc_explicitQueue c"
      "cc_completions (deleteAdmissionReservationLocked k p c) = cc_completions c" for k p
      by (simp_all add: deleteAdmissionReservationLocked_def)
    from ReleaseReservation assms rel del show ?thesis
      by (auto simp: releaseReservation_def Let_def wakeAdmissionWorker_def split: sum.splits if_splits)
  next
    case ResolveCompletion
    with assms show ?thesis by (auto simp: completion_resolve_def split: option.splits)
  qed (use assms in \<open>auto simp: worker_wake_def wakeAdmissionWorker_def handleCurrentNodeStartFailures_def finishTaskInterruptAdmission_def
        finishTaskInterruptAdmissionKey_def finishAdmissionWorker_def Let_def split: sum.splits option.splits if_splits\<close>)
qed

lemma attended_worker:
  assumes "attended m s" and "enabled (Worker i a) s" and "exec scopeNode (Worker i a) s = Some s'"
  shows "attended m s'"
proof -
  let ?c = "sy_controller s" and ?ws = "sy_workers s"
  let ?w = "?ws ! i"
  have i: "i < length ?ws" "worker_enabled a (aw_phase ?w)" using assms(2) by simp_all
  obtain c' p' where e: "worker_exec a (aw_start ?w) ?c = Some (c', p')" using assms(3) by (auto simp: Let_def)
  have s': "sy_controller s' = c'" "sy_workers s' = with_phase i p' ?ws" using assms(3) e by (auto simp: Let_def with_phase_def)
  note f = worker_exec_completions [OF e]
  have len: "length (cc_completions c') = length (cc_completions ?c)" using f by (simp add: completion_resolve_def split: option.splits)
  have mono: "cc_completions ?c ! m \<Longrightarrow> cc_completions c' ! m"
    using f assms(1) by (auto simp: completion_resolve_def nth_resolved attended_def split: option.splits if_splits)
  have resolved: "cc_completions c' ! m" if "a = ResolveCompletion" "worker_completion ?w = Some m"
    using f that assms(1) by (simp add: completion_resolve_def nth_resolved attended_def worker_completion_def)
  have running: "cc_completions c' ! m \<or> (\<exists>w \<in> set (with_phase i p' ?ws). worker_completion w = Some m \<and> aw_phase w \<notin> {Unfencing, Ending, Finished})"
    if w: "w \<in> set ?ws" "worker_completion w = Some m" "aw_phase w \<notin> {Unfencing, Ending, Finished}" for w
  proof -
    obtain j where j: "j < length ?ws" "w = ?ws ! j" using w(1) by (auto simp: in_set_conv_nth)
    have "cc_completions c' ! m \<or> aw_phase (with_phase i p' ?ws ! j) \<notin> {Unfencing, Ending, Finished}"
    proof (cases "j = i")
      case True
      with w j i(2) f resolved show ?thesis by (cases a) auto
    qed (use w j in simp)
    with j w(2) show ?thesis by (auto simp: worker_completion_def intro!: bexI [of _ "with_phase i p' ?ws ! j"])
  qed
  from assms(1) consider "cc_completions ?c ! m" | "Some m \<in> completions_of (cc_explicitQueue ?c)"
    | w where "w \<in> set ?ws" "worker_completion w = Some m" "aw_phase w \<notin> {Unfencing, Ending, Finished}" unfolding attended_def by blast
  then show ?thesis
  proof cases
    case 1
    with mono len assms(1) show ?thesis by (simp add: attended_def s')
  next
    case 2
    with f len assms(1) show ?thesis by (simp add: attended_def s' del: if_split)
  next
    case (3 w)
    with running len assms(1) show ?thesis unfolding attended_def s' by metis
  qed
qed

lemma attended_step:
  assumes "reachable n scopeNode s" and "attended m s" and "enabled a s" and "exec scopeNode a s = Some s'"
  shows "attended m s'"
proof -
  let ?c = "sy_controller s"
  note ok = reachable_ok [OF assms(1)] and parts = system_ok_parts [OF reachable_ok [OF assms(1)]]
  have sections: "attended m s'"
    if "a \<in> {Promote t, Watch key, InterruptTask t b scopes queued, InterruptMove t scopes queued, EndScope scope, EndKey key, CloseBegin, CloseQueues, QueuePrepared starts}"
    for t key b scopes queued scope starts
    using section_actions [OF ok assms(3) that] assms(4) attended_kept [OF assms(2)] by (auto simp: section_ok_def queue_step_def)
  show ?thesis
  proof (cases a)
    case TakeExplicit
    then show ?thesis using assms(2,4)
    proof (cases rule: takeExplicitStart_cases [OF parts(1)])
      case 1
      with TakeExplicit assms(2,4) show ?thesis by (auto simp: attended_def with_controller_def)
    next
      case (2 start rest)
      then have "attended m (spawn start (with_controller s (explicit_taken start rest ?c)))"
        by (intro attended_spawn [OF assms(2)]) (auto simp: explicit_taken_def completions_of_def)
      with 2(1) TakeExplicit assms(4) show ?thesis by simp
    qed
  next
    case TakeAutomatic
    then show ?thesis using assms(2,4)
    proof (cases rule: takeAutomaticIntent_cases [OF parts(1)])
      case 1
      with TakeAutomatic assms(2,4) show ?thesis by (auto simp: attended_def with_controller_def)
    next
      case (2 q before start after)
      then have "attended m (spawn (taken_start start ?c) (with_controller s (automatic_taken q (taken_start start ?c) (new_leases start) ?c)))"
        by (intro attended_spawn [OF assms(2)]) (auto simp: automatic_taken_def completions_of_def)
      with 2(1) TakeAutomatic assms(4) show ?thesis by simp
    qed
  next
    case (Worker i w)
    with assms attended_worker show ?thesis by blast
  next
    case (ReleaseCallback l)
    with assms(2,4) show ?thesis
      by (auto simp: attended_def releaseAgentCapacity_def releaseAgentCapacityLocked_def with_controller_def wakeAdmissionWorker_def Let_def
          split: if_splits)
  next
    case (EnqueueStarts starts)
    then obtain c' where c': "enqueueStarts starts ?c = Some c'" "s' = with_controller s c'" using assms(4) by auto
    with enqueueStarts_ok [OF parts(1) _ c'(1)] assms(3) EnqueueStarts attended_kept [OF assms(2)] show ?thesis by (simp add: queue_step_def)
  next
    case Wake
    with assms(2,4) show ?thesis by (auto simp: attended_def)
  next
    case StopLoop
    with assms(2,4) show ?thesis by (auto simp: attended_def)
  qed (use sections in blast)+
qed

lemma workers_attended: "reachable n scopeNode s \<Longrightarrow> w \<in> set (sy_workers s) \<Longrightarrow> \<exists>m. worker_completion w = Some m \<and> attended m s"
proof -
  assume r: "reachable n scopeNode s" and w: "w \<in> set (sy_workers s)"
  have c: "\<exists>m < length (cc_completions (sy_controller s)). worker_completion w = Some m" if "reachable n scopeNode s" "w \<in> set (sy_workers s)" for s w
    using system_ok_parts(8) [OF reachable_ok [OF that(1)]] that(2) by (auto simp: completions_ok_def completion_in_def worker_completion_def)
  have "\<forall>w \<in> set (sy_workers s). \<forall>m. worker_completion w = Some m \<longrightarrow> attended m s"
    using r
  proof (induction rule: reachable.induct)
    case (reachable_init c)
    then show ?case by (simp add: initial_system_def)
  next
    case (reachable_step s a s')
    note r' = reachable.reachable_step [OF reachable_step.hyps]
    have before: "\<exists>w0 \<in> set (sy_workers s). worker_completion w0 = worker_completion w" if w: "w \<in> set (sy_workers s')" "aw_phase w \<noteq> Preparing" for w
    proof (cases a)
      case (Worker i b)
      then obtain p' where "sy_workers s' = with_phase i p' (sy_workers s)"
        using reachable_step.hyps(3) by (auto simp: Let_def with_phase_def)
      with w(1) obtain j where "j < length (sy_workers s)" "w = with_phase i p' (sy_workers s) ! j" by (metis with_phase_worker)
      then show ?thesis by (intro bexI [of _ "sy_workers s ! j"]) (simp_all add: worker_completion_def)
    qed (use w reachable_step.hyps(3) in \<open>fastforce simp: with_controller_def spawn_def Let_def split: option.splits if_splits\<close>)+
    have "attended m s'" if w: "w \<in> set (sy_workers s')" "worker_completion w = Some m" for w m
    proof (cases "aw_phase w = Preparing")
      case True
      with w c [OF r' w(1)] show ?thesis unfolding attended_def by force
    next
      case False
      with before w obtain w0 where "w0 \<in> set (sy_workers s)" "worker_completion w0 = Some m" by metis
      with reachable_step.IH attended_step [OF reachable_step.hyps(1) _ reachable_step.hyps(2,3)] show ?thesis by blast
    qed
    then show ?case by blast
  qed
  with c [OF r w] w show ?thesis by blast
qed

lemma watched_completion:
  assumes "reachable n scopeNode s" and "currentNodeAdmissionLocked key (sy_controller s) = Some (c', Some m)"
  shows "attended m (with_controller s c')"
proof -
  let ?c = "sy_controller s"
  note parts = system_ok_parts [OF reachable_ok [OF assms(1)]]
  have keyed: "\<forall>x \<in> set (cc_explicitQueue ?c). keyed x" "\<forall>x \<in> set (automatic_starts ?c). keyed x"
    and queued: "\<forall>x \<in> set (queued_starts ?c). completion_in ?c x"
    using parts(1) by (auto simp: controller_ok_def queued_starts_def queued_ok_def)
  have worker: "attended m s" if "map_of (cc_admissionWorkers ?c) key = Some start" "qs_completion start = Some m" for start
    using registered_worker [OF parts(6) that(1)] workers_attended [OF assms(1)] that(2)
    by (metis option.inject worker_completion_def)
  have reserved: "map_of (cc_admissionWorkers ?c) key = Some start"
    if "map_of (cc_explicitReservations ?c) key = Some start \<or> map_of (cc_automaticReservations ?c) key = Some start" for start
    using that parts(7) by (auto simp: reservations_ok_def reservation_held_def)
  show ?thesis
  proof (cases "List.find (\<lambda>x. the_key x = key) (cc_explicitQueue ?c)")
    case (Some start)
    then have start: "start \<in> set (cc_explicitQueue ?c)" by (metis find_Some_iff nth_mem)
    have "c' = ?c" "qs_completion start = Some m"
      using assms(2) Some find_explicit_keyed [OF keyed(1), of key] by (auto simp: currentNodeAdmissionLocked_def)
    moreover have "completion_in ?c start" "qs_completion start \<in> completions_of (cc_explicitQueue ?c)"
      using start queued by (simp_all add: queued_starts_def completions_of_def)
    ultimately show ?thesis by (auto simp: attended_def with_controller_def completion_in_def)
  next
    case None
    note d = currentNodeAdmissionLocked_def find_explicit_keyed [OF keyed(1), of key] None
    from find_entry_holds [OF controller_holds [OF parts(1)] keyed(2), of key] show ?thesis
    proof (elim disjE exE conjE)
      fix p before start after q'
      assume f: "find_entry key (q_entries (cc_automaticQueue ?c)) (ls_first (q_all (cc_automaticQueue ?c))) = Some (Some p)"
        "automatic_starts ?c = before @ start # after" "queue_remove p (cc_automaticQueue ?c) = Some (q', start)"
      then have "c' = wakeAdmissionWorker (promote_start start key (?c\<lparr>cc_automaticQueue := q'\<rparr>))" "qs_completion start = Some m"
        using assms(2) by (auto simp: d)
      moreover have "completion_in ?c start" using queued f(2) by (simp add: queued_starts_def)
      ultimately show ?thesis
        by (auto simp: attended_def with_controller_def wakeAdmissionWorker_def promote_start_def completions_of_def completion_in_def)
    next
      assume "find_entry key (q_entries (cc_automaticQueue ?c)) (ls_first (q_all (cc_automaticQueue ?c))) = Some None"
      then have c': "c' = ?c" "held_completion key ?c = Some m" using assms(2) by (auto simp: d)
      then have "attended m s" using worker reserved
        by (auto simp: held_completion_def bind_eq_Some_conv split: option.splits)
      with c'(1) show ?thesis by (simp add: with_controller_def)
    qed
  qed
qed


section \<open>Interruption\<close>


end
