(* ===== verification/Adm_Examples.thy ===== *)
theory Adm_Examples
  imports Adm_Props
begin

text \<open>
  Concrete runs of the admission system: the witnesses of the properties, and the run in which a
  worker panics.
\<close>

declare queue_walk_simps [code] remove_task_loop_simps [code] find_entry_simps [code]

fun run :: "(ScopeID \<Rightarrow> CurrentNodeReference) \<Rightarrow> admission_action list \<Rightarrow> admission_system \<Rightarrow> admission_system option" where
  "run scopeNode [] s = Some s"
| "run scopeNode (a # as) s = (if enabled a s then Option.bind (exec scopeNode a s) (run scopeNode as) else None)"

lemma run_reachable: "run scopeNode as s = Some s' \<Longrightarrow> reachable n scopeNode s \<Longrightarrow> reachable n scopeNode s'"
  by (induction as arbitrary: s) (auto simp: bind_eq_Some_conv split: if_splits intro: reachable_step)

definition sample_start :: "TaskID \<Rightarrow> currentNodeAdmissionPolicy \<Rightarrow> currentNodeQueuedStart" where
  "sample_start t policy =
     \<lparr>qs_reference = \<lparr>cnr_TaskID = t, cnr_NodeID = ''n'', cnr_transitionBranchKey = None\<rparr>, qs_nodeKind = NodeKindAgent,
      qs_taskPromptDelivery = TaskPromptDeliveryAssignment, qs_assignmentSteer = Some 0, qs_policy = policy,
      qs_completion = None, qs_agentCapacityLease = None, qs_scheduling = CurrentNodeSchedulingAdmitted\<rparr>"

abbreviation explicit_start :: "TaskID \<Rightarrow> currentNodeQueuedStart" where
  "explicit_start t \<equiv> sample_start t currentNodeAdmissionExplicitOverride"

abbreviation agent_start :: "TaskID \<Rightarrow> currentNodeQueuedStart" where
  "agent_start t \<equiv> sample_start t currentNodeAdmissionAutomaticAgent"

definition scope_node :: "ScopeID \<Rightarrow> CurrentNodeReference" where
  "scope_node scope = \<lparr>cnr_TaskID = ''t'', cnr_NodeID = ''n'', cnr_transitionBranchKey = None\<rparr>"

definition sample_run :: "admission_action list \<Rightarrow> admission_system option" where
  "sample_run as = Option.bind (NewCurrentNodeController 1) (\<lambda>c. run scope_node as (initial_system c))"

lemma sample_run_reachable: "sample_run as = Some s \<Longrightarrow> reachable 1 scope_node s"
  by (auto simp: sample_run_def bind_eq_Some_conv intro: run_reachable reachable_init)

text \<open>An explicit start is admitted; its worker has everything behind it but its last step.\<close>

definition ending_run :: "admission_action list" where
  "ending_run = [QueuePrepared [explicit_start ''t''], Wake, TakeExplicit] @
     map (Worker 0) [ClaimAgent, StartAgent, StartReturns True, ReleaseReservation, Settle True, ResolveCompletion, Unfence]"

lemma ending_run_some: "sample_run ending_run \<noteq> None"
  by code_simp

definition after_run :: "admission_action list \<Rightarrow> admission_system" where
  "after_run as = the (sample_run as)"

lemma after_run_reachable: "sample_run as \<noteq> None \<Longrightarrow> reachable 1 scope_node (after_run as)"
  using sample_run_reachable by (auto simp: after_run_def)


section \<open>Witnesses\<close>

text \<open>Two agent starts with capacity for one: the first is admitted and its worker finishes, the second waits.\<close>

definition two_agents_run :: "admission_action list" where
  "two_agents_run = [EnqueueStarts [agent_start ''t'', agent_start ''u''], Wake, TakeExplicit, TakeAutomatic, TakeExplicit, TakeAutomatic] @
     map (Worker 0) [ClaimAgent, StartAgent, StartReturns True, ReleaseReservation, Settle True, ResolveCompletion, Unfence, FinishWorker] @
     [Wake, TakeExplicit, TakeAutomatic]"

lemma two_agents_run_some: "sample_run two_agents_run \<noteq> None"
  by code_simp

abbreviation two_agents :: admission_system where
  "two_agents \<equiv> after_run two_agents_run"

lemma two_agents_reachable: "reachable 1 scope_node two_agents"
  by (rule after_run_reachable [OF two_agents_run_some])

theorem agent_capacity_bounded_sample:
  "cc_agentCapacityActive (sy_controller two_agents) = 1 \<and> unreleased (sy_controller two_agents) = 1"
proof -
  have "cc_agentCapacityActive (sy_controller two_agents) = 1" by code_simp
  with agent_capacity_bounded [OF two_agents_reachable] show ?thesis by simp
qed

theorem current_node_owned_once_sample:
  "distinct (map the_key (queued_starts (sy_controller two_agents))) \<and> mhas (cc_queued (sy_controller two_agents)) (serialCurrentNodeReferenceKey ''u'' ''n'')"
proof -
  have "mhas (cc_queued (sy_controller two_agents)) (serialCurrentNodeReferenceKey ''u'' ''n'')" by code_simp
  with current_node_owned_once [OF two_agents_reachable] show ?thesis by (simp add: Let_def)
qed

theorem no_lost_wakeup_sample:
  "cc_explicitQueue (sy_controller two_agents) = [] \<and>
   list_all (\<lambda>start. qs_policy start = currentNodeAdmissionAutomaticAgent) (automatic_starts (sy_controller two_agents))"
proof -
  have c: "sy_loop two_agents = Waiting" "\<not> cc_workerWake (sy_controller two_agents)" "\<not> cc_closing (sy_controller two_agents)"
    "\<not> cc_closed (sy_controller two_agents)" "list_all (\<lambda>w. aw_phase w = Finished) (sy_workers two_agents)"
    by code_simp+
  show ?thesis using no_lost_wakeup [OF two_agents_reachable c(1-4)] c(5) by (simp add: list_all_iff)
qed



abbreviation queued_agents :: admission_system where
  "queued_agents \<equiv> after_run [EnqueueStarts [agent_start ''t'', agent_start ''u'']]"


definition sample_queue :: currentNodeAutomaticQueue where
  "sample_queue = the (queue_append (agent_start ''t'') new_queue)"

lemma sample_queue_holds: "queue_holds sample_queue [agent_start ''t'']"
proof -
  have "queue_holds new_queue []" using new_queue_repr by (auto simp: queue_holds_def)
  from automatic_queue.append_holds [OF this, of "agent_start ''t''"] show ?thesis
    by (auto simp: sample_queue_def sample_start_def isAutomatic_def queue_room_def new_queue_def)
qed

theorem automatic_queue_refines_list_sample:
  "queue_starts sample_queue = Some [agent_start ''t''] \<and> queue_len sample_queue = 1 \<and>
   (\<exists>q. queue_append (agent_start ''u'') sample_queue = Some q \<and> queue_holds q [agent_start ''t'', agent_start ''u''])"
proof -
  have "isAutomatic (qs_policy (agent_start ''u''))" "queue_room sample_queue" by code_simp+
  with automatic_queue_refines_list [OF sample_queue_holds, of "agent_start ''u''" "''t''"] show ?thesis by simp
qed

theorem automatic_queue_serves_next_sample:
  "\<exists>p q. queue_selectEntry None True sample_queue = Some p \<and> queue_remove p sample_queue = Some (q, agent_start ''t'') \<and> queue_holds q []"
proof -
  have "next_start None True [agent_start ''t''] = Some ([], agent_start ''t'', [])" by code_simp
  with automatic_queue_serves_next [OF sample_queue_holds, of None True] show ?thesis by simp
qed

end
