(* ===== verification/Lane_Registry.thy ===== *)
theory Lane_Registry
  imports Prelude
begin

text \<open>
  Mutation lanes, \<open>src/server/mutationlane/mutation_lane.go\<close>: a registry of reader/writer locks, one
  entry per key in use, created by the first caller and deleted with the last reference.

  Entries are pointers: the registry has a store of entries and the map holds their addresses.
  The channel \<open>changed\<close> is closed and replaced by every release; it is represented by the number
  of replacements, and a waiting caller holds the number it has seen. The receiver and the
  context of a call are not nil. A panic is \<open>None\<close>.
\<close>

section \<open>Entries and leases\<close>

record mutationLaneEntry =
  changed :: nat
  readers :: int
  exclusive :: bool
  refs :: int

record 'k MutationLaneRegistry =
  entries :: "('k, nat) gomap"
  store :: "mutationLaneEntry list"

record 'k MutationLaneLease =
  lease_key :: 'k
  lease_entry :: nat
  lease_shared :: bool
  lease_released :: bool

definition NewMutationLaneRegistry :: "'k MutationLaneRegistry" where
  "NewMutationLaneRegistry = \<lparr>entries = [], store = []\<rparr>"

definition new_lane_entry :: mutationLaneEntry where
  "new_lane_entry = \<lparr>changed = 0, readers = 0, exclusive = False, refs = 0\<rparr>"

definition update_lane :: "nat \<Rightarrow> mutationLaneEntry \<Rightarrow> 'k MutationLaneRegistry \<Rightarrow> 'k MutationLaneRegistry" where
  "update_lane a e r = r\<lparr>store := (store r)[a := e]\<rparr>"

text \<open>The first part of \<open>acquire\<close>, under the lock of the registry: find or create the entry and count
  the reference.\<close>

definition lane_reference :: "'k \<Rightarrow> 'k MutationLaneRegistry \<Rightarrow> nat \<times> 'k MutationLaneRegistry" where
  "lane_reference key r =
     (let (a, r1) =
        (case map_of (entries r) key of
           Some a \<Rightarrow> (a, r)
         | None \<Rightarrow> (length (store r), r\<lparr>entries := AList.update key (length (store r)) (entries r), store := store r @ [new_lane_entry]\<rparr>));
          e = store r1 ! a in
      (a, update_lane a (e\<lparr>refs := refs e + 1\<rparr>) r1))"

text \<open>One round of the loop of \<open>mutationLaneEntry.acquire\<close> under the lock of the entry: \<open>None\<close> when the
  caller has to wait.\<close>

definition entry_acquire :: "bool \<Rightarrow> mutationLaneEntry \<Rightarrow> mutationLaneEntry option" where
  "entry_acquire shared e =
     (if shared \<and> \<not> exclusive e \<or> \<not> shared \<and> \<not> exclusive e \<and> readers e = 0
      then Some (if shared then e\<lparr>readers := readers e + 1\<rparr> else e\<lparr>exclusive := True\<rparr>)
      else None)"

definition entry_release :: "bool \<Rightarrow> mutationLaneEntry \<Rightarrow> mutationLaneEntry option" where
  "entry_release shared e =
     (if shared
      then (if readers e \<le> 0 then None else Some (e\<lparr>readers := readers e - 1, changed := changed e + 1\<rparr>))
      else (if \<not> exclusive e then None else Some (e\<lparr>exclusive := False, changed := changed e + 1\<rparr>)))"

definition releaseReferenceLocked :: "'k \<Rightarrow> nat \<Rightarrow> 'k MutationLaneRegistry \<Rightarrow> 'k MutationLaneRegistry option" where
  "releaseReferenceLocked key a r =
     (let e = store r ! a in
      if map_of (entries r) key \<noteq> Some a \<or> refs e \<le> 0 then None
      else
        (let r1 = update_lane a (e\<lparr>refs := refs e - 1\<rparr>) r in
         Some (if refs e - 1 = 0 then r1\<lparr>entries := AList.delete key (entries r1)\<rparr> else r1)))"

text \<open>\<open>Release\<close> runs under the lock of the registry. Between the release of the entry and of the
  reference other callers may acquire the entry; they touch neither its references nor the map, so
  that the two parts are taken together.\<close>

definition lane_release ::
  "'k MutationLaneLease \<Rightarrow> 'k MutationLaneRegistry \<Rightarrow> ('k MutationLaneLease \<times> 'k MutationLaneRegistry) option" where
  "lane_release l r =
     (if lease_released l then None
      else case entry_release (lease_shared l) (store r ! lease_entry l) of
        None \<Rightarrow> None
      | Some e \<Rightarrow>
         (case releaseReferenceLocked (lease_key l) (lease_entry l) (update_lane (lease_entry l) e r) of
            None \<Rightarrow> None
          | Some r1 \<Rightarrow> Some (l\<lparr>lease_released := True\<rparr>, r1)))"


section \<open>Callers\<close>

text \<open>
  A goroutine that uses the lanes: outside of \<open>acquire\<close> (\<open>Ready\<close>), before a round of its loop
  (\<open>Trying\<close>), in its \<open>select\<close> (\<open>Blocked\<close>, with the channel it has seen), or on the way out after
  its context was done (\<open>Failed\<close>); and the leases it has not released.
\<close>

datatype 'k lane_phase = Ready | Trying 'k nat bool | Blocked 'k nat bool nat | Failed 'k nat

record 'k lane_caller =
  phase :: "'k lane_phase"
  leases :: "'k MutationLaneLease list"

record 'k lane_system =
  registry :: "'k MutationLaneRegistry"
  callers :: "'k lane_caller list"

definition initial_lanes :: "nat \<Rightarrow> 'k lane_system" where
  "initial_lanes n = \<lparr>registry = NewMutationLaneRegistry, callers = replicate n \<lparr>phase = Ready, leases = []\<rparr>\<rparr>"

datatype 'k lane_action =
    Reference nat 'k bool
  | Try nat
  | Wake nat
  | CancelWait nat
  | DropReference nat
  | ReleaseLane nat nat

definition set_caller :: "nat \<Rightarrow> 'k lane_caller \<Rightarrow> 'k lane_system \<Rightarrow> 'k lane_system" where
  "set_caller t c s = s\<lparr>callers := (callers s)[t := c]\<rparr>"

fun lane_enabled :: "'k lane_action \<Rightarrow> 'k lane_system \<Rightarrow> bool" where
  "lane_enabled (Reference t k shared) s = (t < length (callers s) \<and> phase (callers s ! t) = Ready)"
| "lane_enabled (Try t) s = (t < length (callers s) \<and> (case phase (callers s ! t) of Trying _ _ _ \<Rightarrow> True | _ \<Rightarrow> False))"
| "lane_enabled (Wake t) s =
     (t < length (callers s) \<and>
      (case phase (callers s ! t) of Blocked _ a _ seen \<Rightarrow> changed (store (registry s) ! a) \<noteq> seen | _ \<Rightarrow> False))"
| "lane_enabled (CancelWait t) s = (t < length (callers s) \<and> (case phase (callers s ! t) of Blocked _ _ _ _ \<Rightarrow> True | _ \<Rightarrow> False))"
| "lane_enabled (DropReference t) s = (t < length (callers s) \<and> (case phase (callers s ! t) of Failed _ _ \<Rightarrow> True | _ \<Rightarrow> False))"
| "lane_enabled (ReleaseLane t i) s =
     (t < length (callers s) \<and> phase (callers s ! t) = Ready \<and> i < length (leases (callers s ! t)))"

fun lane_exec :: "'k lane_action \<Rightarrow> 'k lane_system \<Rightarrow> 'k lane_system option" where
  "lane_exec (Reference t k shared) s =
     (case lane_reference k (registry s) of
        (a, r) \<Rightarrow> Some (set_caller t ((callers s ! t)\<lparr>phase := Trying k a shared\<rparr>) (s\<lparr>registry := r\<rparr>)))"
| "lane_exec (Try t) s =
     (case phase (callers s ! t) of
        Trying k a shared \<Rightarrow>
          (let e = store (registry s) ! a in
           case entry_acquire shared e of
             None \<Rightarrow> Some (set_caller t ((callers s ! t)\<lparr>phase := Blocked k a shared (changed e)\<rparr>) s)
           | Some e' \<Rightarrow>
               Some (set_caller t \<lparr>phase = Ready,
                   leases = \<lparr>lease_key = k, lease_entry = a, lease_shared = shared, lease_released = False\<rparr> # leases (callers s ! t)\<rparr>
                 (s\<lparr>registry := update_lane a e' (registry s)\<rparr>)))
      | _ \<Rightarrow> Some s)"
| "lane_exec (Wake t) s =
     (case phase (callers s ! t) of
        Blocked k a shared _ \<Rightarrow> Some (set_caller t ((callers s ! t)\<lparr>phase := Trying k a shared\<rparr>) s)
      | _ \<Rightarrow> Some s)"
| "lane_exec (CancelWait t) s =
     (case phase (callers s ! t) of
        Blocked k a _ _ \<Rightarrow> Some (set_caller t ((callers s ! t)\<lparr>phase := Failed k a\<rparr>) s)
      | _ \<Rightarrow> Some s)"
| "lane_exec (DropReference t) s =
     (case phase (callers s ! t) of
        Failed k a \<Rightarrow>
          (case releaseReferenceLocked k a (registry s) of
             None \<Rightarrow> None
           | Some r \<Rightarrow> Some (set_caller t ((callers s ! t)\<lparr>phase := Ready\<rparr>) (s\<lparr>registry := r\<rparr>)))
      | _ \<Rightarrow> Some s)"
| "lane_exec (ReleaseLane t i) s =
     (let c = callers s ! t in
      case lane_release (leases c ! i) (registry s) of
        None \<Rightarrow> None
      | Some (_, r) \<Rightarrow> Some (set_caller t (c\<lparr>leases := take i (leases c) @ drop (Suc i) (leases c)\<rparr>) (s\<lparr>registry := r\<rparr>)))"

inductive lane_reachable :: "'k lane_system \<Rightarrow> bool" where
  lane_initial: "lane_reachable (initial_lanes n)"
| lane_step: "lane_reachable s \<Longrightarrow> lane_enabled a s \<Longrightarrow> lane_exec a s = Some s' \<Longrightarrow> lane_reachable s'"

end
