(* ===== verification/Lane_Props.thy ===== *)
theory Lane_Props
  imports Lane_Registry "HOL-Library.Multiset"
begin

text \<open>
  The lanes exclude each other, never panic and leave nothing behind. The invariant relates the
  registry to the multiset of what its callers hold: a reference (pending) or a lease each.
\<close>

section \<open>The registry and its tokens\<close>

datatype token_kind = Pending | SharedLease | ExclusiveLease

type_synonym 'k token = "'k \<times> nat \<times> token_kind"

definition lease_kind :: "bool \<Rightarrow> token_kind" where
  "lease_kind shared = (if shared then SharedLease else ExclusiveLease)"

definition lane_entry_ok :: "mutationLaneEntry \<Rightarrow> 'k \<Rightarrow> nat \<Rightarrow> 'k token multiset \<Rightarrow> bool" where
  "lane_entry_ok e k a T \<longleftrightarrow>
     refs e = int (size (filter_mset (\<lambda>x. fst x = k) T)) \<and> 0 < refs e \<and>
     readers e = int (count T (k, a, SharedLease)) \<and>
     count T (k, a, ExclusiveLease) = of_bool (exclusive e) \<and> (exclusive e \<longrightarrow> readers e = 0)"

definition lane_inv :: "'k MutationLaneRegistry \<Rightarrow> 'k token multiset \<Rightarrow> bool" where
  "lane_inv r T \<longleftrightarrow>
     distinct (map fst (entries r)) \<and> distinct (map snd (entries r)) \<and>
     (\<forall>a \<in> snd ` set (entries r). a < length (store r)) \<and>
     (\<forall>x \<in># T. map_of (entries r) (fst x) = Some (fst (snd x))) \<and>
     (\<forall>k a. map_of (entries r) k = Some a \<longrightarrow> lane_entry_ok (store r ! a) k a T)"

lemma lane_inv_new: "lane_inv NewMutationLaneRegistry {#}"
  by (simp add: lane_inv_def NewMutationLaneRegistry_def)

lemma lane_inv_entry: "lane_inv r T \<Longrightarrow> map_of (entries r) k = Some a \<Longrightarrow> lane_entry_ok (store r ! a) k a T \<and> a < length (store r)"
  unfolding lane_inv_def by (metis image_eqI map_of_SomeD snd_conv)

lemma map_of_distinct_snd:
  "distinct (map snd m) \<Longrightarrow> map_of m k = Some a \<Longrightarrow> map_of m k' = Some a \<Longrightarrow> k = k'"
  by (metis distinct_map fst_conv inj_onD map_of_SomeD snd_conv)

lemma update_absent: "k \<notin> fst ` set m \<Longrightarrow> AList.update k v m = m @ [(k, v)]"
  by (induction m) auto

lemma update_lane_simps [simp]:
  "entries (update_lane a e r) = entries r" "store (update_lane a e r) = (store r)[a := e]"
  by (simp_all add: update_lane_def)

text \<open>Tokens of other keys do not matter to an entry.\<close>

lemma lane_entry_ok_other: "k' \<noteq> k \<Longrightarrow> lane_entry_ok e k' a' (add_mset (k, a, x) T) \<longleftrightarrow> lane_entry_ok e k' a' T"
  by (simp add: lane_entry_ok_def)

lemma lane_inv_exchange:
  assumes inv: "lane_inv r (add_mset (k, a, x) T)" and ok: "lane_entry_ok e k a (add_mset (k, a, y) T)"
  shows "lane_inv (update_lane a e r) (add_mset (k, a, y) T)"
proof -
  have k: "map_of (entries r) k = Some a" using inv by (simp add: lane_inv_def)
  have len: "a < length (store r)" using lane_inv_entry [OF inv k] by simp
  have "lane_entry_ok ((store r)[a := e] ! a') k' a' (add_mset (k, a, y) T)" if "map_of (entries r) k' = Some a'" for k' a'
  proof (cases "k' = k")
    case True
    then show ?thesis using that k ok len by simp
  next
    case False
    then have "a' \<noteq> a" using map_of_distinct_snd [OF _ k, of k'] that inv by (auto simp: lane_inv_def)
    with lane_inv_entry [OF inv that] False show ?thesis by (simp add: lane_entry_ok_other)
  qed
  with inv show ?thesis by (auto simp: lane_inv_def)
qed

lemma lane_reference_inv:
  assumes inv: "lane_inv r T" and ref: "lane_reference k r = (a, r')"
  shows "lane_inv r' (add_mset (k, a, Pending) T)"
proof (cases "map_of (entries r) k")
  case (Some b)
  then have r': "a = b" "r' = update_lane a ((store r ! a)\<lparr>refs := refs (store r ! a) + 1\<rparr>) r"
    using ref by (auto simp: lane_reference_def Let_def)
  note e = lane_inv_entry [OF inv Some]
  have other: "lane_entry_ok (store r ! a') k' a' T \<and> a' \<noteq> a" if "map_of (entries r) k' = Some a'" "k' \<noteq> k" for k' a'
    using map_of_distinct_snd [OF _ Some, of k'] lane_inv_entry [OF inv that(1)] that inv r'(1) by (auto simp: lane_inv_def)
  have "lane_entry_ok (store r' ! a') k' a' (add_mset (k, a, Pending) T)" if "map_of (entries r) k' = Some a'" for k' a'
  proof (cases "k' = k")
    case True
    then show ?thesis using that Some e r' by (auto simp: lane_entry_ok_def)
  next
    case False
    then show ?thesis using other [OF that] r' by (simp add: lane_entry_ok_other)
  qed
  with inv Some r' show ?thesis by (auto simp: lane_inv_def)
next
  case None
  let ?n = "length (store r)"
  have abs: "k \<notin> fst ` set (entries r)" using None by (simp add: map_of_eq_None_iff)
  have r': "a = ?n" "entries r' = entries r @ [(k, ?n)]"
    "store r' = store r @ [new_lane_entry\<lparr>refs := 1\<rparr>]"
    using ref None by (auto simp: lane_reference_def Let_def update_absent [OF abs] new_lane_entry_def)
  have fresh: "?n \<notin> snd ` set (entries r)" using inv by (auto simp: lane_inv_def)
  have no: "filter_mset (\<lambda>x. fst x = k) T = {#}" "\<And>b y. (k, b, y) \<notin># T"
    using inv None by (auto simp: lane_inv_def)
  have m: "map_of (entries r') k' = (if k' = k then Some ?n else map_of (entries r) k')" for k'
    using None by (auto simp: r'(2) map_add_def split: option.splits)
  have "lane_entry_ok (store r' ! a') k' a' (add_mset (k, a, Pending) T)" if "map_of (entries r') k' = Some a'" for k' a'
  proof (cases "k' = k")
    case True
    then have "a' = ?n" using that m by simp
    then show ?thesis using True no r' by (simp add: lane_entry_ok_def new_lane_entry_def not_in_iff)
  next
    case False
    then have o: "map_of (entries r) k' = Some a'" using that m by simp
    then have "a' < ?n" using lane_inv_entry [OF inv o] by simp
    then show ?thesis using lane_inv_entry [OF inv o] False r'(3) by (simp add: lane_entry_ok_other nth_append)
  qed
  moreover have "\<forall>x \<in># add_mset (k, a, Pending) T. map_of (entries r') (fst x) = Some (fst (snd x))"
    using inv no(2) m r'(1) by (auto simp: lane_inv_def)
  ultimately show ?thesis using inv abs fresh r' by (auto simp: lane_inv_def less_Suc_eq)
qed

lemma entry_acquire_inv:
  assumes inv: "lane_inv r (add_mset (k, a, Pending) T)" and e: "entry_acquire shared (store r ! a) = Some e'"
  shows "lane_inv (update_lane a e' r) (add_mset (k, a, lease_kind shared) T)"
proof -
  have "lane_entry_ok (store r ! a) k a (add_mset (k, a, Pending) T)"
    using lane_inv_entry [OF inv, of k a] inv by (simp add: lane_inv_def)
  with e have "lane_entry_ok e' k a (add_mset (k, a, lease_kind shared) T)"
    by (cases shared) (auto simp: entry_acquire_def lane_entry_ok_def lease_kind_def split: if_splits)
  with inv show ?thesis by (rule lane_inv_exchange)
qed

lemma entry_release_inv:
  assumes inv: "lane_inv r (add_mset (k, a, lease_kind shared) T)"
  shows "\<exists>e'. entry_release shared (store r ! a) = Some e' \<and> lane_inv (update_lane a e' r) (add_mset (k, a, Pending) T)"
proof -
  have ok: "lane_entry_ok (store r ! a) k a (add_mset (k, a, lease_kind shared) T)"
    using lane_inv_entry [OF inv, of k a] inv by (simp add: lane_inv_def)
  then obtain e' where e: "entry_release shared (store r ! a) = Some e'" "lane_entry_ok e' k a (add_mset (k, a, Pending) T)"
    by (cases shared; cases "exclusive (store r ! a)") (auto simp: entry_release_def lane_entry_ok_def lease_kind_def)
  with lane_inv_exchange [OF inv e(2)] show ?thesis by blast
qed

lemma releaseReferenceLocked_inv:
  assumes inv: "lane_inv r (add_mset (k, a, Pending) T)"
  shows "\<exists>r'. releaseReferenceLocked k a r = Some r' \<and> lane_inv r' T"
proof -
  let ?e = "store r ! a"
  have k: "map_of (entries r) k = Some a" using inv by (simp add: lane_inv_def)
  note e = lane_inv_entry [OF inv k]
  have other: "lane_entry_ok (store r ! a') k' a' T \<and> a' \<noteq> a" if "map_of (entries r) k' = Some a'" "k' \<noteq> k" for k' a'
    using map_of_distinct_snd [OF _ k, of k'] lane_inv_entry [OF inv that(1)] that inv by (auto simp: lane_inv_def lane_entry_ok_other)
  let ?r = "update_lane a (?e\<lparr>refs := refs ?e - 1\<rparr>) r"
  have pos: "0 < refs ?e" using e by (simp add: lane_entry_ok_def)
  show ?thesis
  proof (cases "refs ?e = 1")
    case True
    let ?r' = "?r\<lparr>entries := AList.delete k (entries r)\<rparr>"
    have rel: "releaseReferenceLocked k a r = Some ?r'" using k True by (simp add: releaseReferenceLocked_def Let_def)
    have no: "fst x \<noteq> k" if "x \<in># T" for x
      using e True that by (cases x) (auto simp: lane_entry_ok_def)
    have "lane_inv ?r' T"
      unfolding lane_inv_def
    proof (intro conjI allI impI ballI)
      show "distinct (map fst (entries ?r'))" using inv by (simp add: lane_inv_def distinct_delete)
      show "distinct (map snd (entries ?r'))"
        using inv by (auto simp: lane_inv_def AList.delete_eq distinct_map_filter)
      show "b < length (store ?r')" if "b \<in> snd ` set (entries ?r')" for b
        using that inv by (auto simp: lane_inv_def AList.delete_eq)
      show "map_of (entries ?r') (fst x) = Some (fst (snd x))" if "x \<in># T" for x
        using that no inv by (auto simp: lane_inv_def delete_conv')
      show "lane_entry_ok (store ?r' ! a') k' a' T" if "map_of (entries ?r') k' = Some a'" for k' a'
        using that other [of k' a'] by (auto simp: delete_conv' split: if_splits)
    qed
    with rel show ?thesis by blast
  next
    case False
    have rel: "releaseReferenceLocked k a r = Some ?r" using k False pos by (simp add: releaseReferenceLocked_def Let_def)
    have "lane_entry_ok (store ?r ! a') k' a' T" if "map_of (entries r) k' = Some a'" for k' a'
    proof (cases "k' = k")
      case True
      have "0 < refs ?e - 1" using False pos by linarith
      then show ?thesis using True that k e by (auto simp: lane_entry_ok_def)
    next
      case F: False
      then show ?thesis using other [OF that F] by simp
    qed
    then have "lane_inv ?r T" using inv by (auto simp: lane_inv_def)
    with rel show ?thesis by blast
  qed
qed

lemma lane_release_inv:
  assumes inv: "lane_inv r (add_mset (lease_key l, lease_entry l, lease_kind (lease_shared l)) T)" and l: "\<not> lease_released l"
  shows "\<exists>l' r'. lane_release l r = Some (l', r') \<and> lane_inv r' T"
proof -
  obtain e where e: "entry_release (lease_shared l) (store r ! lease_entry l) = Some e"
    "lane_inv (update_lane (lease_entry l) e r) (add_mset (lease_key l, lease_entry l, Pending) T)"
    using entry_release_inv [OF inv] by blast
  with releaseReferenceLocked_inv [OF e(2)] l show ?thesis by (auto simp: lane_release_def)
qed


section \<open>Callers\<close>

fun phase_tokens :: "'k lane_phase \<Rightarrow> 'k token multiset" where
  "phase_tokens Ready = {#}"
| "phase_tokens (Trying k a shared) = {#(k, a, Pending)#}"
| "phase_tokens (Blocked k a shared seen) = {#(k, a, Pending)#}"
| "phase_tokens (Failed k a) = {#(k, a, Pending)#}"

definition lease_token :: "'k MutationLaneLease \<Rightarrow> 'k token" where
  "lease_token l = (lease_key l, lease_entry l, lease_kind (lease_shared l))"

definition caller_tokens :: "'k lane_caller \<Rightarrow> 'k token multiset" where
  "caller_tokens c = phase_tokens (phase c) + mset (map lease_token (leases c))"

definition lane_tokens :: "'k lane_system \<Rightarrow> 'k token multiset" where
  "lane_tokens s = sum_list (map caller_tokens (callers s))"

text \<open>A caller that waits on the current channel could not acquire its entry.\<close>

definition waits_rightly :: "'k MutationLaneRegistry \<Rightarrow> 'k lane_phase \<Rightarrow> bool" where
  "waits_rightly r p \<longleftrightarrow>
     (case p of
        Blocked k a shared seen \<Rightarrow>
          seen \<le> changed (store r ! a) \<and> (seen = changed (store r ! a) \<longrightarrow> entry_acquire shared (store r ! a) = None)
      | _ \<Rightarrow> True)"

definition lanes_ok :: "'k lane_system \<Rightarrow> bool" where
  "lanes_ok s \<longleftrightarrow> lane_inv (registry s) (lane_tokens s) \<and>
     (\<forall>c \<in> set (callers s). waits_rightly (registry s) (phase c) \<and> list_all (\<lambda>l. \<not> lease_released l) (leases c))"

lemma sum_list_replace:
  fixes f :: "'a \<Rightarrow> 'b multiset"
  assumes "t < length cs"
  obtains R where "sum_list (map f cs) = f (cs ! t) + R" and "\<And>c. sum_list (map f (cs[t := c])) = f c + R"
proof
  let ?R = "sum_list (map f (take t cs)) + sum_list (map f (drop (Suc t) cs))"
  show "sum_list (map f cs) = f (cs ! t) + ?R"
    by (subst id_take_nth_drop [OF assms]) (simp add: ac_simps)
  show "sum_list (map f (cs[t := c])) = f c + ?R" for c
    by (simp add: upd_conv_take_nth_drop [OF assms] ac_simps)
qed

text \<open>Exchanging a token of one caller for another, with the entry it points to.\<close>

lemma pending_tokens:
  "phase c \<in> {Trying k a shared, Blocked k a shared seen, Failed k a} \<Longrightarrow>
   caller_tokens c = add_mset (k, a, Pending) (mset (map lease_token (leases c)))"
  by (auto simp: caller_tokens_def)

lemma waits_rightly_other:
  assumes "waits_rightly r p" and "\<And>k b shared seen. p = Blocked k b shared seen \<Longrightarrow> store r' ! b = store r ! b"
  shows "waits_rightly r' p"
  using assms by (auto simp: waits_rightly_def split: lane_phase.splits)

text \<open>What a step may do to the entry that somebody waits for: take it, or release it and replace its
  channel.\<close>

definition entry_step :: "mutationLaneEntry \<Rightarrow> mutationLaneEntry \<Rightarrow> bool" where
  "entry_step e e' \<longleftrightarrow> changed e < changed e' \<or>
     changed e = changed e' \<and> (exclusive e \<longrightarrow> exclusive e') \<and> (readers e \<noteq> 0 \<longrightarrow> exclusive e' \<or> readers e' \<noteq> 0)"

lemma entry_step_waits:
  assumes "waits_rightly r p" and "\<And>k b shared seen. p = Blocked k b shared seen \<Longrightarrow> entry_step (store r ! b) (store r' ! b)"
  shows "waits_rightly r' p"
  using assms by (fastforce simp: waits_rightly_def entry_step_def entry_acquire_def split: lane_phase.splits if_splits)

lemma entry_step_refl [simp]: "entry_step e e"
  by (simp add: entry_step_def)

lemma lane_reference_step:
  "lane_reference k r = (a, r') \<Longrightarrow> b < length (store r) \<Longrightarrow> entry_step (store r ! b) (store r' ! b)"
  by (cases "a = b") (auto simp: lane_reference_def Let_def entry_step_def nth_append split: option.splits)

lemma entry_acquire_step: "entry_acquire shared e = Some e' \<Longrightarrow> 0 \<le> readers e \<Longrightarrow> entry_step e e'"
  by (auto simp: entry_acquire_def entry_step_def split: if_splits)

lemma releaseReferenceLocked_step:
  "releaseReferenceLocked k a r = Some r' \<Longrightarrow> b < length (store r) \<Longrightarrow>
   changed (store r' ! b) = changed (store r ! b) \<and> exclusive (store r' ! b) = exclusive (store r ! b) \<and>
   readers (store r' ! b) = readers (store r ! b)"
  by (cases "a = b") (auto simp: releaseReferenceLocked_def Let_def split: if_splits)

lemma lane_release_step:
  assumes "lane_release l r = Some (l', r')" and b: "b < length (store r)"
  shows "entry_step (store r ! b) (store r' ! b)"
proof -
  from assms obtain e where e: "entry_release (lease_shared l) (store r ! lease_entry l) = Some e"
    and r: "releaseReferenceLocked (lease_key l) (lease_entry l) (update_lane (lease_entry l) e r) = Some r'"
    by (auto simp: lane_release_def split: if_splits option.splits)
  from e have "changed e = changed (store r ! lease_entry l) + 1"
    by (auto simp: entry_release_def split: if_splits)
  with releaseReferenceLocked_step [OF r, of b] b show ?thesis
    by (cases "lease_entry l = b") (auto simp: entry_step_def)
qed

lemma lane_tokens_member: "c \<in> set (callers s) \<Longrightarrow> x \<in># caller_tokens c \<Longrightarrow> x \<in># lane_tokens s"
  unfolding lane_tokens_def by (induction "callers s" arbitrary: s rule: list.induct) (force simp: in_set_conv_nth dest: split_list)+

lemma lanes_ok_step:
  assumes ok: "lanes_ok s" and t: "t < length (callers s)"
    and R: "\<And>R. lane_inv (registry s) (caller_tokens (callers s ! t) + R) \<Longrightarrow> lane_inv r' (caller_tokens c' + R)"
    and c: "waits_rightly r' (phase c')" "list_all (\<lambda>l. \<not> lease_released l) (leases c')"
    and step: "\<And>b. b < length (store (registry s)) \<Longrightarrow> entry_step (store (registry s) ! b) (store r' ! b)"
  shows "lanes_ok (set_caller t c' (s\<lparr>registry := r'\<rparr>))"
proof -
  obtain Q where Q: "lane_tokens s = caller_tokens (callers s ! t) + Q"
    and Q': "\<And>c. sum_list (map caller_tokens ((callers s)[t := c])) = caller_tokens c + Q"
    using sum_list_replace [OF t, of caller_tokens] unfolding lane_tokens_def by metis
  have "lane_inv r' (lane_tokens (set_caller t c' (s\<lparr>registry := r'\<rparr>)))"
    using R [of Q] ok Q Q' by (simp add: lanes_ok_def lane_tokens_def set_caller_def)
  moreover have "waits_rightly r' (phase d) \<and> list_all (\<lambda>l. \<not> lease_released l) (leases d)" if "d \<in> set (callers s)" for d
  proof
    have d: "waits_rightly (registry s) (phase d)" "list_all (\<lambda>l. \<not> lease_released l) (leases d)"
      using ok that by (auto simp: lanes_ok_def)
    then show "list_all (\<lambda>l. \<not> lease_released l) (leases d)" by simp
    show "waits_rightly r' (phase d)"
    proof (rule entry_step_waits [OF d(1) step])
      fix k b shared seen assume p: "phase d = Blocked k b shared seen"
      then have "(k, b, Pending) \<in># lane_tokens s" by (intro lane_tokens_member [OF that]) (simp add: caller_tokens_def)
      then have "map_of (entries (registry s)) k = Some b" using ok by (auto simp: lanes_ok_def lane_inv_def)
      then show "b < length (store (registry s))" using lane_inv_entry [of "registry s" "lane_tokens s" k b] ok by (simp add: lanes_ok_def)
    qed
  qed
  ultimately show ?thesis using c by (auto simp: lanes_ok_def set_caller_def dest!: set_update_subset_insert [THEN subsetD])
qed

lemma lane_exec_reference:
  assumes ok: "lanes_ok s" and en: "lane_enabled (Reference t k shared) s"
  shows "\<exists>s'. lane_exec (Reference t k shared) s = Some s' \<and> lanes_ok s'"
proof -
  obtain a r' where r: "lane_reference k (registry s) = (a, r')" by (cases "lane_reference k (registry s)")
  have "lanes_ok (set_caller t ((callers s ! t)\<lparr>phase := Trying k a shared\<rparr>) (s\<lparr>registry := r'\<rparr>))"
    using en ok lane_reference_inv [OF _ r] lane_reference_step [OF r]
    by (intro lanes_ok_step [OF ok]) (auto simp: caller_tokens_def waits_rightly_def lanes_ok_def)
  with r show ?thesis by simp
qed

lemma lane_exec_try:
  assumes ok: "lanes_ok s" and en: "lane_enabled (Try t) s"
  shows "\<exists>s'. lane_exec (Try t) s = Some s' \<and> lanes_ok s'"
proof -
  from en obtain k a shared where t: "t < length (callers s)" "phase (callers s ! t) = Trying k a shared"
    by (auto split: lane_phase.splits)
  let ?e = "store (registry s) ! a"
  have l: "list_all (\<lambda>l. \<not> lease_released l) (leases (callers s ! t))" using ok t by (auto simp: lanes_ok_def)
  show ?thesis
  proof (cases "entry_acquire shared ?e")
    case None
    have "lanes_ok (set_caller t ((callers s ! t)\<lparr>phase := Blocked k a shared (changed ?e)\<rparr>) (s\<lparr>registry := registry s\<rparr>))"
      by (intro lanes_ok_step [OF ok t(1)]) (use t None l in \<open>auto simp: caller_tokens_def waits_rightly_def\<close>)
    then show ?thesis using None t by simp
  next
    case (Some e')
    have "(k, a, Pending) \<in># lane_tokens s" using t by (intro lane_tokens_member [of "callers s ! t"]) (simp_all add: caller_tokens_def)
    then have "map_of (entries (registry s)) k = Some a" using ok by (auto simp: lanes_ok_def lane_inv_def)
    then have "0 \<le> readers ?e" using lane_inv_entry [of "registry s" "lane_tokens s" k a] ok by (simp add: lanes_ok_def lane_entry_ok_def)
    note step = entry_acquire_step [OF Some this]
    have step': "entry_step (store (registry s) ! b) ((store (registry s))[a := e'] ! b)" if "b < length (store (registry s))" for b
      using step that by (cases "a = b") auto
    let ?c = "\<lparr>phase = Ready,
      leases = \<lparr>lease_key = k, lease_entry = a, lease_shared = shared, lease_released = False\<rparr> # leases (callers s ! t)\<rparr>"
    have "lanes_ok (set_caller t ?c (s\<lparr>registry := update_lane a e' (registry s)\<rparr>))"
      by (intro lanes_ok_step [OF ok t(1)])
        (use t Some l entry_acquire_inv [OF _ Some] step' in
          \<open>auto simp: caller_tokens_def waits_rightly_def lease_token_def\<close>)
    then show ?thesis using Some t by simp
  qed
qed

lemma lane_exec_wake:
  assumes ok: "lanes_ok s" and en: "lane_enabled (Wake t) s"
  shows "\<exists>s'. lane_exec (Wake t) s = Some s' \<and> lanes_ok s'"
proof -
  from en obtain k a shared seen where t: "t < length (callers s)" "phase (callers s ! t) = Blocked k a shared seen"
    by (auto split: lane_phase.splits)
  have l: "list_all (\<lambda>l. \<not> lease_released l) (leases (callers s ! t))" using ok t by (auto simp: lanes_ok_def)
  have "lanes_ok (set_caller t ((callers s ! t)\<lparr>phase := Trying k a shared\<rparr>) (s\<lparr>registry := registry s\<rparr>))"
    by (intro lanes_ok_step [OF ok t(1)]) (use t l in \<open>auto simp: caller_tokens_def waits_rightly_def\<close>)
  then show ?thesis using t by simp
qed

lemma lane_exec_cancel:
  assumes ok: "lanes_ok s" and en: "lane_enabled (CancelWait t) s"
  shows "\<exists>s'. lane_exec (CancelWait t) s = Some s' \<and> lanes_ok s'"
proof -
  from en obtain k a shared seen where t: "t < length (callers s)" "phase (callers s ! t) = Blocked k a shared seen"
    by (auto split: lane_phase.splits)
  have l: "list_all (\<lambda>l. \<not> lease_released l) (leases (callers s ! t))" using ok t by (auto simp: lanes_ok_def)
  have "lanes_ok (set_caller t ((callers s ! t)\<lparr>phase := Failed k a\<rparr>) (s\<lparr>registry := registry s\<rparr>))"
    by (intro lanes_ok_step [OF ok t(1)]) (use t l in \<open>auto simp: caller_tokens_def waits_rightly_def\<close>)
  then show ?thesis using t by simp
qed

lemma lane_exec_drop:
  assumes ok: "lanes_ok s" and en: "lane_enabled (DropReference t) s"
  shows "\<exists>s'. lane_exec (DropReference t) s = Some s' \<and> lanes_ok s'"
proof -
  from en obtain k a where t: "t < length (callers s)" "phase (callers s ! t) = Failed k a"
    by (auto split: lane_phase.splits)
  have l: "list_all (\<lambda>l. \<not> lease_released l) (leases (callers s ! t))" using ok t by (auto simp: lanes_ok_def)
  obtain Q where "lane_inv (registry s) (caller_tokens (callers s ! t) + Q)"
    using sum_list_replace [OF t(1), of caller_tokens] ok unfolding lanes_ok_def lane_tokens_def by metis
  then obtain r' where r: "releaseReferenceLocked k a (registry s) = Some r'"
    using releaseReferenceLocked_inv t(2) by (fastforce simp: caller_tokens_def)
  have "lanes_ok (set_caller t ((callers s ! t)\<lparr>phase := Ready\<rparr>) (s\<lparr>registry := r'\<rparr>))"
    by (intro lanes_ok_step [OF ok t(1)])
      (use t l r releaseReferenceLocked_step [OF r] in
        \<open>auto simp: caller_tokens_def waits_rightly_def entry_step_def dest: releaseReferenceLocked_inv\<close>)
  then show ?thesis using t r by simp
qed

lemma lane_exec_release:
  assumes ok: "lanes_ok s" and en: "lane_enabled (ReleaseLane t i) s"
  shows "\<exists>s'. lane_exec (ReleaseLane t i) s = Some s' \<and> lanes_ok s'"
proof -
  let ?c = "callers s ! t" let ?l = "leases (callers s ! t) ! i"
  let ?rest = "take i (leases ?c) @ drop (Suc i) (leases ?c)"
  have t: "t < length (callers s)" "phase ?c = Ready" "i < length (leases ?c)" using en by simp_all
  have l: "list_all (\<lambda>l. \<not> lease_released l) (leases ?c)" using ok t by (auto simp: lanes_ok_def)
  have tok: "caller_tokens ?c = add_mset (lease_token ?l) (mset (map lease_token ?rest))"
    using t by (simp add: caller_tokens_def) (subst id_take_nth_drop [OF t(3)], simp)
  obtain Q where "lane_inv (registry s) (caller_tokens ?c + Q)"
    using sum_list_replace [OF t(1), of caller_tokens] ok unfolding lanes_ok_def lane_tokens_def by metis
  moreover have nr: "\<not> lease_released ?l" using l t(3) by (simp add: list_all_length)
  ultimately obtain l' r' where r: "lane_release ?l (registry s) = Some (l', r')"
    using lane_release_inv [OF _ nr] tok by (fastforce simp: lease_token_def)
  have "lanes_ok (set_caller t (?c\<lparr>leases := ?rest\<rparr>) (s\<lparr>registry := r'\<rparr>))"
  proof (rule lanes_ok_step [OF ok t(1)])
    fix R assume "lane_inv (registry s) (caller_tokens ?c + R)"
    then show "lane_inv r' (caller_tokens (?c\<lparr>leases := ?rest\<rparr>) + R)"
      using lane_release_inv [OF _ nr, of "registry s" "mset (map lease_token ?rest) + R"] r tok t(2)
      by (simp add: lease_token_def caller_tokens_def)
  next
    show "list_all (\<lambda>l. \<not> lease_released l) (leases (?c\<lparr>leases := ?rest\<rparr>))"
      using l by (auto simp: list_all_iff dest: in_set_takeD in_set_dropD)
  qed (use t lane_release_step [OF r] in \<open>auto simp: waits_rightly_def\<close>)
  then show ?thesis using r by (simp add: Let_def)
qed

lemma lane_exec_ok:
  assumes "lanes_ok s" and "lane_enabled act s"
  shows "\<exists>s'. lane_exec act s = Some s' \<and> lanes_ok s'"
  using assms by (cases act) (blast intro: lane_exec_reference lane_exec_try lane_exec_wake lane_exec_cancel lane_exec_drop lane_exec_release)+

lemma sum_list_empty: "sum_list (replicate n {#}) = {#}"
  by (induction n) auto

lemma lanes_ok_initial: "lanes_ok (initial_lanes n)"
  by (auto simp: sum_list_empty lanes_ok_def initial_lanes_def lane_tokens_def caller_tokens_def lane_inv_new waits_rightly_def)

lemma lane_reachable_ok: "lane_reachable s \<Longrightarrow> lanes_ok s"
proof (induction rule: lane_reachable.induct)
  case (lane_step s a s')
  then show ?case using lane_exec_ok [OF lane_step.IH lane_step.hyps(2)] by simp
qed (rule lanes_ok_initial)


section \<open>What the lanes guarantee\<close>

definition all_leases :: "'k lane_system \<Rightarrow> 'k MutationLaneLease list" where
  "all_leases s = concat (map leases (callers s))"

lemma all_leases_tokens: "mset (map lease_token (all_leases s)) \<subseteq># lane_tokens s"
proof -
  have "mset (map lease_token (concat (map leases cs))) \<subseteq># sum_list (map caller_tokens cs)" for cs :: "'a lane_caller list"
    by (induction cs) (auto simp: caller_tokens_def intro: subset_mset.add_increasing)
  then show ?thesis by (simp add: all_leases_def lane_tokens_def)
qed

lemma lane_entry_lease:
  assumes inv: "lane_inv r T" and x: "(k, a, x) \<in># T"
  shows "map_of (entries r) k = Some a" and "lane_entry_ok (store r ! a) k a T"
  using assms lane_inv_entry [OF inv, of k a] by (auto simp: lane_inv_def)

lemma two_leases_shared:
  assumes inv: "lane_inv r T" and two: "{#lease_token l, lease_token l'#} \<subseteq># T" and k: "lease_key l = lease_key l'"
  shows "lease_shared l \<and> lease_shared l'"
proof -
  have in1: "lease_token l \<in># T" "lease_token l' \<in># T" using two by (auto dest: mset_subset_eqD)
  let ?k = "lease_key l'" let ?a = "lease_entry l'"
  have a: "lease_entry l = ?a"
    using in1 k lane_entry_lease(1) [OF inv, of ?k] unfolding lease_token_def by (metis option.inject)
  have ok: "lane_entry_ok (store r ! ?a) ?k ?a T"
    using lane_entry_lease(2) [OF inv] in1 by (auto simp: lease_token_def)
  have cnt: "count {#lease_token l, lease_token l'#} x \<le> count T x" for x using two by (rule mset_subset_eq_count)
  show ?thesis
    using ok a k cnt [of "(?k, ?a, SharedLease)"] cnt [of "(?k, ?a, ExclusiveLease)"]
    by (cases "exclusive (store r ! ?a)") (auto simp: lane_entry_ok_def lease_token_def lease_kind_def split: if_splits)
qed

text \<open>An exclusive lease is the only lease of its key.\<close>

definition compatible :: "'k MutationLaneLease \<Rightarrow> 'k MutationLaneLease \<Rightarrow> bool" where
  "compatible l l' \<longleftrightarrow> (lease_key l = lease_key l' \<longrightarrow> lease_shared l \<and> lease_shared l')"

lemma lanes_ok_compatible:
  assumes "lanes_ok s"
  shows "sorted_wrt compatible (all_leases s)"
proof -
  have inv: "lane_inv (registry s) (lane_tokens s)" using assms by (simp add: lanes_ok_def)
  have "sorted_wrt compatible ls" if "mset (map lease_token ls) \<subseteq># lane_tokens s" for ls
    using that
  proof (induction ls)
    case (Cons l ls)
    have "compatible l l'" if "l' \<in> set ls" for l'
    proof -
      have "{#lease_token l, lease_token l'#} \<subseteq># mset (map lease_token (l # ls))" using that by simp
      then have "{#lease_token l, lease_token l'#} \<subseteq># lane_tokens s" using Cons.prems subset_mset.order_trans by blast
      then show ?thesis using two_leases_shared [OF inv] by (auto simp: compatible_def)
    qed
    moreover have "mset (map lease_token ls) \<subseteq># lane_tokens s"
      using Cons.prems by (simp add: insert_subset_eq_iff subset_mset.order_trans) (metis diff_subset_eq_self subset_mset.order_trans)
    ultimately show ?case using Cons.IH by simp
  qed simp
  with all_leases_tokens show ?thesis by blast
qed

text \<open>C10: In every state that any number of callers can reach by acquiring, waiting, giving up and
  releasing in any order, two leases of the same key are both shared: an exclusive lease is the
  only lease of its key.\<close>

theorem lanes_exclusive:
  assumes "lane_reachable s"
  shows "sorted_wrt (\<lambda>l l'. lease_key l = lease_key l' \<longrightarrow> lease_shared l \<and> lease_shared l') (all_leases s)"
  using lanes_ok_compatible [OF lane_reachable_ok [OF assms]] by (simp add: compatible_def [abs_def])

definition acquires :: "'k lane_phase \<Rightarrow> 'k \<Rightarrow> bool" where
  "acquires p k \<longleftrightarrow> (case p of Ready \<Rightarrow> False | Trying k' _ _ \<Rightarrow> k' = k | Blocked k' _ _ _ \<Rightarrow> k' = k | Failed k' _ \<Rightarrow> k' = k)"

lemma lane_tokens_iff: "(\<exists>a x. (k, a, x) \<in># lane_tokens s) \<longleftrightarrow>
  (\<exists>c \<in> set (callers s). acquires (phase c) k \<or> k \<in> lease_key ` set (leases c))"
proof -
  have one: "(\<exists>a x. (k, a, x) \<in># caller_tokens c) \<longleftrightarrow> acquires (phase c) k \<or> k \<in> lease_key ` set (leases c)" for c
    by (cases "phase c") (auto simp: caller_tokens_def acquires_def lease_token_def)
  have "(\<exists>a x. (k, a, x) \<in># sum_list (map caller_tokens cs)) \<longleftrightarrow> (\<exists>c \<in> set cs. \<exists>a x. (k, a, x) \<in># caller_tokens c)" for cs
    by (induction cs) auto
  then show ?thesis by (simp add: lane_tokens_def one)
qed

lemma lane_entries_iff:
  assumes "lanes_ok s"
  shows "k \<in> fst ` set (entries (registry s)) \<longleftrightarrow>
    (\<exists>c \<in> set (callers s). acquires (phase c) k \<or> k \<in> lease_key ` set (leases c))"
proof -
  have inv: "lane_inv (registry s) (lane_tokens s)" using assms by (simp add: lanes_ok_def)
  have "k \<in> fst ` set (entries (registry s)) \<longleftrightarrow> (\<exists>a x. (k, a, x) \<in># lane_tokens s)"
  proof
    assume "k \<in> fst ` set (entries (registry s))"
    then obtain a where a: "map_of (entries (registry s)) k = Some a" by (metis domIff dom_map_of_conv_image_fst not_None_eq)
    from lane_inv_entry [OF inv a] have "filter_mset (\<lambda>x. fst x = k) (lane_tokens s) \<noteq> {#}"
      by (auto simp: lane_entry_ok_def simp del: filter_mset_eq_mempty_iff)
    then show "\<exists>a x. (k, a, x) \<in># lane_tokens s" by auto
  next
    assume "\<exists>a x. (k, a, x) \<in># lane_tokens s"
    then show "k \<in> fst ` set (entries (registry s))"
      using lane_entry_lease(1) [OF inv] by (metis domI dom_map_of_conv_image_fst)
  qed
  then show ?thesis by (simp add: lane_tokens_iff)
qed

text \<open>C11: No step of a caller panics, and the registry holds an entry for a key exactly as long as some
  caller has a lease of the key or is inside \<open>acquire\<close> for it: nothing leaks and no lane in use is
  deleted.\<close>

theorem lanes_never_panic_nor_leak:
  assumes "lane_reachable s"
  shows "(lane_enabled act s \<longrightarrow> lane_exec act s \<noteq> None) \<and>
    (k \<in> fst ` set (entries (registry s)) \<longleftrightarrow>
      (\<exists>c \<in> set (callers s). acquires (phase c) k \<or> k \<in> lease_key ` set (leases c)))"
proof
  note ok = lane_reachable_ok [OF assms]
  show "lane_enabled act s \<longrightarrow> lane_exec act s \<noteq> None" using lane_exec_ok [OF ok] by fastforce
qed (rule lane_entries_iff [OF lane_reachable_ok [OF assms]])

text \<open>A caller that is blocked and cannot wake up waits for a lease that is held.\<close>

lemma blocked_for_lease:
  assumes ok: "lanes_ok s" and c: "c \<in> set (callers s)" and b: "phase c = Blocked k a shared seen"
    and w: "changed (store (registry s) ! a) = seen"
  shows "\<exists>l \<in> set (all_leases s). lease_key l = k \<and> (lease_shared l \<longrightarrow> \<not> shared)"
proof -
  have inv: "lane_inv (registry s) (lane_tokens s)" using ok by (simp add: lanes_ok_def)
  have n: "entry_acquire shared (store (registry s) ! a) = None" using ok c b w by (auto simp: lanes_ok_def waits_rightly_def)
  have "(k, a, Pending) \<in># lane_tokens s" using c b by (intro lane_tokens_member [OF c]) (simp add: caller_tokens_def)
  note e = lane_entry_lease(2) [OF inv this]
  have lease: "\<exists>l \<in> set (all_leases s). lease_token l = x" if "x \<in># lane_tokens s" "snd (snd x) \<noteq> Pending" for x
  proof -
    have "\<exists>d \<in> set cs. \<exists>l \<in> set (leases d). lease_token l = x" if "x \<in># sum_list (map caller_tokens cs)" for cs
      using that
    proof (induction cs)
      case (Cons d cs)
      then show ?case using \<open>snd (snd x) \<noteq> Pending\<close> by (cases "phase d") (auto simp: caller_tokens_def)
    qed simp
    then show ?thesis using that(1) by (auto simp: lane_tokens_def all_leases_def)
  qed
  show ?thesis
  proof (cases "exclusive (store (registry s) ! a)")
    case True
    then have "(k, a, ExclusiveLease) \<in># lane_tokens s" using e by (auto simp: lane_entry_ok_def simp flip: count_greater_zero_iff)
    from lease [OF this] show ?thesis by (auto simp: lease_token_def lease_kind_def split: if_splits)
  next
    case False
    then have "\<not> shared" "readers (store (registry s) ! a) \<noteq> 0" using n by (auto simp: entry_acquire_def split: if_splits)
    then have "(k, a, SharedLease) \<in># lane_tokens s" using e by (auto simp: lane_entry_ok_def simp flip: count_greater_zero_iff)
    from lease [OF this] \<open>\<not> shared\<close> show ?thesis by (auto simp: lease_token_def lease_kind_def split: if_splits)
  qed
qed

end
