(* ===== verification/Go_Strings.thy ===== *)
theory Go_Strings
  imports Prelude
begin

text \<open>
  The functions of the packages \<open>strings\<close> and \<open>bufio\<close> that the file editing tools use, at
  byte level: prefixes and suffixes, searching and replacing, splitting and joining lines,
  trimming a cut set, and \<open>bufio.Scanner\<close> with its limit on the length of a line.
\<close>

abbreviation nl :: char where "nl \<equiv> CHR 0x0A"
abbreviation cr :: char where "cr \<equiv> CHR 0x0D"
abbreviation tab :: char where "tab \<equiv> CHR 0x09"
abbreviation crlf :: string where "crlf \<equiv> [CHR 0x0D, CHR 0x0A]"


section \<open>Prefixes and suffixes\<close>

definition HasPrefix :: "string \<Rightarrow> string \<Rightarrow> bool" where
  "HasPrefix s p \<longleftrightarrow> (case drop_prefix p s of None \<Rightarrow> False | Some _ \<Rightarrow> True)"

definition TrimPrefix :: "string \<Rightarrow> string \<Rightarrow> string" where
  "TrimPrefix s p = (case drop_prefix p s of None \<Rightarrow> s | Some r \<Rightarrow> r)"

definition HasSuffix :: "string \<Rightarrow> string \<Rightarrow> bool" where
  "HasSuffix s p \<longleftrightarrow> HasPrefix (rev s) (rev p)"

definition TrimSuffix :: "string \<Rightarrow> string \<Rightarrow> string" where
  "TrimSuffix s p = rev (TrimPrefix (rev s) (rev p))"

lemma HasPrefix_iff: "HasPrefix s p \<longleftrightarrow> (\<exists>r. s = p @ r)"
  by (auto simp: HasPrefix_def drop_prefix_Some [symmetric] split: option.splits)

lemma HasSuffix_iff: "HasSuffix s p \<longleftrightarrow> (\<exists>r. s = r @ p)"
  unfolding HasSuffix_def HasPrefix_iff by (metis rev_append rev_rev_ident)

lemma drop_prefix_append [simp]: "drop_prefix p (p @ s) = Some s"
  by (simp add: drop_prefix_Some)

lemma HasPrefix_append [simp]: "HasPrefix (p @ s) p"
  by (auto simp: HasPrefix_iff)

lemma TrimPrefix_append [simp]: "TrimPrefix (p @ s) p = s"
  by (simp add: TrimPrefix_def)

lemma HasPrefix_Nil [simp]: "HasPrefix [] p \<longleftrightarrow> p = []"
  by (auto simp: HasPrefix_iff)

lemma HasPrefix_length: "HasPrefix s p \<Longrightarrow> length p \<le> length s"
  by (auto simp: HasPrefix_iff)

lemma HasPrefix_take: "HasPrefix s p \<longleftrightarrow> take (length p) s = p"
  by (auto simp: HasPrefix_iff) (metis append_take_drop_id)


section \<open>Searching and replacing\<close>

text \<open>\<open>strings.Index\<close>: the first occurrence; \<open>None\<close> stands for \<open>-1\<close>.\<close>

fun Index :: "string \<Rightarrow> string \<Rightarrow> nat option" where
  "Index [] p = (if p = [] then Some 0 else None)"
| "Index (c # s) p = (if HasPrefix (c # s) p then Some 0 else map_option Suc (Index s p))"

definition Contains :: "string \<Rightarrow> string \<Rightarrow> bool" where
  "Contains s p \<longleftrightarrow> (case Index s p of None \<Rightarrow> False | Some _ \<Rightarrow> True)"

lemma Index_Some:
  "Index s p = Some i \<longleftrightarrow>
     i \<le> length s \<and> HasPrefix (drop i s) p \<and> (\<forall>j < i. \<not> HasPrefix (drop j s) p)"
proof (induction s arbitrary: i)
  case Nil
  then show ?case by (auto simp: HasPrefix_iff)
next
  case (Cons c s)
  show ?case
  proof (cases i)
    case 0
    then show ?thesis by auto
  next
    case (Suc k)
    have "(\<forall>j < Suc k. \<not> HasPrefix (drop j (c # s)) p) \<longleftrightarrow>
      \<not> HasPrefix (c # s) p \<and> (\<forall>j < k. \<not> HasPrefix (drop j s) p)"
      by (auto simp: All_less_Suc2)
    with Suc Cons.IH [of k] show ?thesis by auto
  qed
qed

lemma Index_None: "Index s p = None \<longleftrightarrow> (\<forall>j \<le> length s. \<not> HasPrefix (drop j s) p)"
proof (induction s)
  case (Cons c s)
  have "(\<forall>j \<le> Suc (length s). \<not> HasPrefix (drop j (c # s)) p) \<longleftrightarrow>
    \<not> HasPrefix (c # s) p \<and> (\<forall>j \<le> length s. \<not> HasPrefix (drop j s) p)"
    by (metis One_nat_def Suc_le_mono drop0 drop_Suc_Cons le0 not0_implies_Suc)
  with Cons show ?case by auto
qed (auto simp: HasPrefix_iff)

lemma Index_split: "Index s p = Some i \<Longrightarrow> s = take i s @ p @ drop (i + length p) s"
  unfolding Index_Some HasPrefix_take by (metis add.commute append_take_drop_id drop_drop)

lemma Contains_iff: "Contains s p \<longleftrightarrow> (\<exists>u v. s = u @ p @ v)"
proof
  assume "Contains s p"
  then obtain i where "Index s p = Some i" by (auto simp: Contains_def split: option.splits)
  then show "\<exists>u v. s = u @ p @ v" using Index_split by blast
next
  assume "\<exists>u v. s = u @ p @ v"
  then obtain u v where s: "s = u @ p @ v" by blast
  then have "HasPrefix (drop (length u) s) p" and "length u \<le> length s" by simp_all
  then have "Index s p \<noteq> None" unfolding Index_None by blast
  then show "Contains s p" by (auto simp: Contains_def)
qed

text \<open>\<open>strings.ReplaceAll\<close> for a non-empty \<open>old\<close>: every occurrence, left to right, is
  replaced and the search goes on behind it.\<close>

function ReplaceAll :: "string \<Rightarrow> string \<Rightarrow> string \<Rightarrow> string" where
  "ReplaceAll s old new =
     (case s of [] \<Rightarrow> []
      | c # cs \<Rightarrow>
         (if old \<noteq> [] \<and> HasPrefix s old then new @ ReplaceAll (drop (length old) s) old new
          else c # ReplaceAll cs old new))"
  by pat_completeness auto
termination
  by (relation "measure (\<lambda>(s, old, new). length s)") auto

declare ReplaceAll.simps [simp del]

lemma ReplaceAll_Nil [simp]: "ReplaceAll [] old new = []"
  by (simp add: ReplaceAll.simps)

lemma ReplaceAll_hit: "old \<noteq> [] \<Longrightarrow> ReplaceAll (old @ s) old new = new @ ReplaceAll s old new"
  by (subst ReplaceAll.simps) (cases old; simp add: HasPrefix_append [of "_ # _", simplified])

lemma ReplaceAll_miss: "\<not> HasPrefix (c # s) old \<Longrightarrow> ReplaceAll (c # s) old new = c # ReplaceAll s old new"
  by (simp add: ReplaceAll.simps [of "c # s"])

lemma ReplaceAll_skip:
  "\<forall>j < i. \<not> HasPrefix (drop j s) old \<Longrightarrow> i \<le> length s \<Longrightarrow>
   ReplaceAll s old new = take i s @ ReplaceAll (drop i s) old new"
proof (induction i arbitrary: s)
  case (Suc i)
  then obtain c cs where s: "s = c # cs" by (cases s) auto
  have "\<not> HasPrefix (drop j cs) old" if "j < i" for j
    using Suc.prems(1) [rule_format, of "Suc j"] that by (simp add: s)
  moreover have "\<not> HasPrefix s old" using Suc.prems(1) by (metis drop0 zero_less_Suc)
  ultimately show ?case using Suc.IH [of cs] Suc.prems(2) by (simp add: s ReplaceAll_miss)
qed simp

lemma ReplaceAll_Index:
  "old \<noteq> [] \<Longrightarrow>
   ReplaceAll s old new =
     (case Index s old of None \<Rightarrow> s
      | Some i \<Rightarrow> take i s @ new @ ReplaceAll (drop (i + length old) s) old new)"
proof (cases "Index s old")
  case None
  then have "\<forall>j < length s. \<not> HasPrefix (drop j s) old" by (simp add: Index_None)
  then have "ReplaceAll s old new = take (length s) s @ ReplaceAll (drop (length s) s) old new"
    by (rule ReplaceAll_skip) simp
  with None show ?thesis by simp
next
  case (Some i)
  assume "old \<noteq> []"
  have "drop i s = old @ drop (i + length old) s"
    using Some unfolding Index_Some HasPrefix_take by (metis add.commute append_take_drop_id drop_drop)
  moreover have "ReplaceAll s old new = take i s @ ReplaceAll (drop i s) old new"
    using Some unfolding Index_Some by (intro ReplaceAll_skip) auto
  ultimately show ?thesis using Some \<open>old \<noteq> []\<close> by (simp add: ReplaceAll_hit)
qed

lemma ReplaceAll_absent: "\<not> Contains s old \<Longrightarrow> ReplaceAll s old new = s"
proof (cases "old = []")
  case False
  assume "\<not> Contains s old"
  then have "Index s old = None" by (simp add: Contains_def split: option.splits)
  then show ?thesis using ReplaceAll_Index [OF False, of s new] by simp
qed (use append_Nil in \<open>auto simp: Contains_iff\<close>)


section \<open>Lines\<close>

text \<open>\<open>strings.Join\<close>, and \<open>strings.Split\<close> at line feeds.\<close>

fun Join :: "string list \<Rightarrow> string \<Rightarrow> string" where
  "Join [] sep = []"
| "Join [x] sep = x"
| "Join (x # y # ys) sep = x @ sep @ Join (y # ys) sep"

fun SplitLines :: "string \<Rightarrow> string list" where
  "SplitLines [] = [[]]"
| "SplitLines (c # s) =
     (if c = nl then [] # SplitLines s
      else case SplitLines s of [] \<Rightarrow> [[c]] | l # ls \<Rightarrow> (c # l) # ls)"

lemma SplitLines_nonempty [simp]: "SplitLines s \<noteq> []"
  by (cases s) (auto split: list.splits)

lemma Join_Cons: "ls \<noteq> [] \<Longrightarrow> Join (l # ls) sep = l @ sep @ Join ls sep"
  by (cases ls) auto

lemma Join_Cons_char: "Join ((c # l) # ls) sep = c # Join (l # ls) sep"
  by (cases ls) auto

lemma Join_SplitLines [simp]: "Join (SplitLines s) [nl] = s"
  by (induction s) (auto simp: Join_Cons Join_Cons_char split: list.splits)

lemma SplitLines_plain: "nl \<notin> set l \<Longrightarrow> SplitLines l = [l]"
  by (induction l) auto

lemma SplitLines_line: "nl \<notin> set l \<Longrightarrow> SplitLines (l @ nl # s) = l # SplitLines s"
  by (induction l) auto

lemma SplitLines_Join:
  "ls \<noteq> [] \<Longrightarrow> \<forall>l \<in> set ls. nl \<notin> set l \<Longrightarrow> SplitLines (Join ls [nl]) = ls"
proof (induction ls)
  case (Cons l ls)
  then show ?case by (cases ls) (simp_all add: SplitLines_plain SplitLines_line)
qed simp

lemma SplitLines_no_nl: "l \<in> set (SplitLines s) \<Longrightarrow> nl \<notin> set l"
  by (induction s arbitrary: l) (auto split: if_splits list.splits)

text \<open>\<open>strings.TrimRight\<close> and \<open>strings.TrimLeft\<close> for a cut set of ASCII bytes.\<close>

definition TrimRight :: "string \<Rightarrow> string \<Rightarrow> string" where
  "TrimRight s cutset = rev (dropWhile (\<lambda>c. c \<in> set cutset) (rev s))"

definition TrimLeft :: "string \<Rightarrow> string \<Rightarrow> string" where
  "TrimLeft s cutset = dropWhile (\<lambda>c. c \<in> set cutset) s"

text \<open>
  \<open>bufio.Scanner\<close> with its default split function \<open>ScanLines\<close>: the text up to a line feed
  or the end of the input, without one trailing carriage return. A line that does not fit
  into the buffer of \<open>bufio.MaxScanTokenSize\<close> bytes ends the scan.
\<close>

definition MaxScanTokenSize :: int where
  "MaxScanTokenSize = 65536"

definition dropCR :: "string \<Rightarrow> string" where
  "dropCR s = TrimSuffix s [cr]"

function ScanLines :: "string \<Rightarrow> string list" where
  "ScanLines s =
     (if s = [] then []
      else let line = takeWhile (\<lambda>c. c \<noteq> nl) s; rest = drop (length line + 1) s in
        if MaxScanTokenSize \<le> int (length line) then [] else dropCR line # ScanLines rest)"
  by pat_completeness auto
termination
  by (relation "measure length") auto

declare ScanLines.simps [simp del]

lemma ScanLines_Nil [simp]: "ScanLines [] = []"
  by (simp add: ScanLines.simps)

lemma dropCR_plain: "(l = [] \<or> last l \<noteq> cr) \<Longrightarrow> dropCR l = l"
  by (cases l rule: rev_cases) (auto simp: dropCR_def TrimSuffix_def TrimPrefix_def)

lemma ScanLines_last:
  "l \<noteq> [] \<Longrightarrow> nl \<notin> set l \<Longrightarrow> int (length l) < MaxScanTokenSize \<Longrightarrow> ScanLines l = [dropCR l]"
proof -
  assume l: "l \<noteq> []" "nl \<notin> set l" "int (length l) < MaxScanTokenSize"
  then have "takeWhile (\<lambda>c. c \<noteq> nl) l = l" by (auto simp: takeWhile_eq_all_conv)
  with l show ?thesis by (subst ScanLines.simps) (simp add: Let_def del: takeWhile_eq_all_conv)
qed

lemma takeWhile_line: "nl \<notin> set l \<Longrightarrow> takeWhile (\<lambda>c. c \<noteq> nl) (l @ nl # s) = l"
  by (induction l) auto

lemma ScanLines_line:
  "nl \<notin> set l \<Longrightarrow> int (length l) < MaxScanTokenSize \<Longrightarrow> ScanLines (l @ nl # s) = dropCR l # ScanLines s"
  by (subst ScanLines.simps) (simp add: Let_def takeWhile_line)

text \<open>Lines that a scanner reads back as they are.\<close>

definition scannable :: "string \<Rightarrow> bool" where
  "scannable l \<longleftrightarrow> nl \<notin> set l \<and> int (length l) < MaxScanTokenSize \<and> (l = [] \<or> last l \<noteq> cr)"

lemma ScanLines_Join:
  "ls \<noteq> [] \<Longrightarrow> last ls \<noteq> [] \<Longrightarrow> list_all scannable ls \<Longrightarrow> ScanLines (Join ls [nl]) = ls"
proof (induction ls)
  case (Cons l ls)
  then show ?case
    by (cases ls) (simp_all add: scannable_def ScanLines_last ScanLines_line dropCR_plain)
qed simp

end
