(* ===== verification/Task_Mutations.thy ===== *)
theory Task_Mutations
  imports Lane_Registry Go_Strings "HOL-Library.Char_ord" "HOL-Library.List_Lexorder"
begin

text \<open>
  The coordinator of task mutations, \<open>src/server/workflowexecution/task_mutation_coordinator.go\<close>: \<open>Run\<close>
  runs an operation inside the lane of a task, \<open>RunMany\<close> inside the lanes of several tasks, nested
  in the order of their ids.

  A caller of \<open>RunMany\<close> is a job on top of a caller of the lanes. The operation itself is open: it
  runs for some time and returns, with a value or an error. A call of \<open>Run\<close> is the call of
  \<open>RunMany\<close> with one id. An operation that calls \<open>Run\<close> again for a task its context already
  holds does not touch the lanes; calls for other tasks from inside an operation are left out.
\<close>

section \<open>Which lane a call needs\<close>

record activeTaskMutation =
  active_coordinator :: nat
  active_taskID :: string

datatype mutationError = TaskIDRequired | TaskIDRequiredAt nat | TaskIDDuplicated string

text \<open>\<open>Run\<close> up to the acquisition: \<open>Some\<close> lane to acquire, or \<open>None\<close> when the context already holds it.\<close>

definition Run_lane :: "nat \<Rightarrow> activeTaskMutation list \<Rightarrow> string \<Rightarrow> mutationError + string option" where
  "Run_lane c active taskID =
     (if blank taskID then Inl TaskIDRequired
      else if list_ex (\<lambda>m. active_coordinator m = c \<and> active_taskID m = taskID) active then Inr None
      else Inr (Some taskID))"

text \<open>The checks of \<open>RunMany\<close> on the sorted ids; \<open>prev\<close> is the id before.\<close>

fun check_ordered :: "nat \<Rightarrow> string option \<Rightarrow> string list \<Rightarrow> mutationError option" where
  "check_ordered index prev [] = None"
| "check_ordered index prev (taskID # ids) =
     (if blank taskID then Some (TaskIDRequiredAt index)
      else if prev = Some taskID then Some (TaskIDDuplicated taskID)
      else check_ordered (index + 1) (Some taskID) ids)"

definition RunMany_plan :: "string list \<Rightarrow> mutationError + string list" where
  "RunMany_plan taskIDs =
     (let ordered = sort taskIDs in
      case check_ordered 0 None ordered of Some e \<Rightarrow> Inl e | None \<Rightarrow> Inr ordered)"


section \<open>The callers of one coordinator\<close>

text \<open>
  \<open>Acquiring ordered index active\<close>: inside \<open>run(ctx, index)\<close>, with the active mutations of the context.
  \<open>Operating\<close>: the operation runs. \<open>Unwinding\<close>: the deferred releases, innermost first.
\<close>

datatype job = NoJob | Acquiring "string list" nat "activeTaskMutation list" | Operating "string list" | Unwinding

record task_system =
  lanes :: "string lane_system"
  jobs :: "job list"

definition initial_tasks :: "nat \<Rightarrow> task_system" where
  "initial_tasks n = \<lparr>lanes = initial_lanes n, jobs = replicate n NoJob\<rparr>"

datatype task_action =
    CallRunMany nat "string list"
  | EnterRun nat
  | TryLane nat
  | WakeLane nat
  | CancelLane nat
  | FailLane nat
  | StartOperation nat
  | FinishOperation nat
  | UnwindLane nat
  | Return nat

definition task_phase :: "task_system \<Rightarrow> nat \<Rightarrow> string lane_phase" where
  "task_phase s t = phase (callers (lanes s) ! t)"

definition task_leases :: "task_system \<Rightarrow> nat \<Rightarrow> string MutationLaneLease list" where
  "task_leases s t = leases (callers (lanes s) ! t)"

fun task_enabled :: "task_action \<Rightarrow> task_system \<Rightarrow> bool" where
  "task_enabled (CallRunMany t ids) s = (t < length (jobs s) \<and> jobs s ! t = NoJob)"
| "task_enabled (EnterRun t) s =
     (t < length (jobs s) \<and> task_phase s t = Ready \<and> (case jobs s ! t of Acquiring ordered index _ \<Rightarrow> index < length ordered | _ \<Rightarrow> False))"
| "task_enabled (TryLane t) s = (t < length (jobs s) \<and> lane_enabled (Try t) (lanes s))"
| "task_enabled (WakeLane t) s = (t < length (jobs s) \<and> lane_enabled (Wake t) (lanes s))"
| "task_enabled (CancelLane t) s = (t < length (jobs s) \<and> lane_enabled (CancelWait t) (lanes s))"
| "task_enabled (FailLane t) s = (t < length (jobs s) \<and> lane_enabled (DropReference t) (lanes s))"
| "task_enabled (StartOperation t) s =
     (t < length (jobs s) \<and> task_phase s t = Ready \<and> (case jobs s ! t of Acquiring ordered index _ \<Rightarrow> index = length ordered | _ \<Rightarrow> False))"
| "task_enabled (FinishOperation t) s = (t < length (jobs s) \<and> (case jobs s ! t of Operating _ \<Rightarrow> True | _ \<Rightarrow> False))"
| "task_enabled (UnwindLane t) s = (t < length (jobs s) \<and> jobs s ! t = Unwinding \<and> task_leases s t \<noteq> [])"
| "task_enabled (Return t) s = (t < length (jobs s) \<and> jobs s ! t = Unwinding \<and> task_leases s t = [])"

definition set_job :: "nat \<Rightarrow> job \<Rightarrow> task_system \<Rightarrow> task_system" where
  "set_job t j s = s\<lparr>jobs := (jobs s)[t := j]\<rparr>"

definition with_lanes :: "string lane_action \<Rightarrow> (task_system \<Rightarrow> task_system) \<Rightarrow> task_system \<Rightarrow> task_system option" where
  "with_lanes a f s = (case lane_exec a (lanes s) of None \<Rightarrow> None | Some l \<Rightarrow> Some (f (s\<lparr>lanes := l\<rparr>)))"

text \<open>After a successful acquisition the context has one more active mutation.\<close>

definition acquired :: "nat \<Rightarrow> nat \<Rightarrow> task_system \<Rightarrow> task_system" where
  "acquired c t s =
     (case (task_phase s t, jobs s ! t) of
        (Ready, Acquiring ordered index active) \<Rightarrow>
          set_job t (Acquiring ordered (index + 1) (\<lparr>active_coordinator = c, active_taskID = ordered ! index\<rparr> # active)) s
      | _ \<Rightarrow> s)"

fun task_exec :: "nat \<Rightarrow> task_action \<Rightarrow> task_system \<Rightarrow> task_system option" where
  "task_exec c (CallRunMany t ids) s =
     Some (case RunMany_plan ids of Inl e \<Rightarrow> s | Inr ordered \<Rightarrow> set_job t (Acquiring ordered 0 []) s)"
| "task_exec c (EnterRun t) s =
     (case jobs s ! t of
        Acquiring ordered index active \<Rightarrow>
          (case Run_lane c active (ordered ! index) of
             Inl e \<Rightarrow> Some (set_job t Unwinding s)
           | Inr None \<Rightarrow> Some (set_job t (Acquiring ordered (index + 1) active) s)
           | Inr (Some key) \<Rightarrow> with_lanes (Reference t key False) id s)
      | _ \<Rightarrow> Some s)"
| "task_exec c (TryLane t) s = with_lanes (Try t) (acquired c t) s"
| "task_exec c (WakeLane t) s = with_lanes (Wake t) id s"
| "task_exec c (CancelLane t) s = with_lanes (CancelWait t) id s"
| "task_exec c (FailLane t) s = with_lanes (DropReference t) (set_job t Unwinding) s"
| "task_exec c (StartOperation t) s =
     Some (case jobs s ! t of Acquiring ordered _ _ \<Rightarrow> set_job t (Operating ordered) s | _ \<Rightarrow> s)"
| "task_exec c (FinishOperation t) s = Some (set_job t Unwinding s)"
| "task_exec c (UnwindLane t) s = with_lanes (ReleaseLane t 0) id s"
| "task_exec c (Return t) s = Some (set_job t NoJob s)"

inductive task_reachable :: "nat \<Rightarrow> task_system \<Rightarrow> bool" for c where
  task_initial: "task_reachable c (initial_tasks n)"
| task_step: "task_reachable c s \<Longrightarrow> task_enabled a s \<Longrightarrow> task_exec c a s = Some s' \<Longrightarrow> task_reachable c s'"

end
