(* ===== verification/Task_Mutations_Props.thy ===== *)
theory Task_Mutations_Props
  imports Task_Mutations Lane_Props
begin

text \<open>
  Mutations of one task exclude each other, and the callers of a coordinator cannot block each
  other for ever: lanes are taken in the order of the ids, so that a caller only waits for a lane
  above those it holds.
\<close>

section \<open>The plan of a call\<close>

lemma check_ordered_None:
  "check_ordered i prev ids = None \<longleftrightarrow>
   list_all (\<lambda>k. \<not> blank k) ids \<and> (case ids of [] \<Rightarrow> True | k # _ \<Rightarrow> prev \<noteq> Some k) \<and> successively (\<noteq>) ids"
  by (induction i prev ids rule: check_ordered.induct) (auto split: list.splits)

lemma RunMany_plan_Inr:
  "RunMany_plan ids = Inr ordered \<Longrightarrow>
   sorted_wrt (<) ordered \<and> mset ordered = mset ids \<and> list_all (\<lambda>k. \<not> blank k) ordered"
proof -
  assume "RunMany_plan ids = Inr ordered"
  then have o: "ordered = sort ids" "check_ordered 0 None ordered = None"
    by (auto simp: RunMany_plan_def Let_def split: option.splits)
  then have "successively (\<noteq>) ordered" "sorted ordered" by (auto simp: check_ordered_None)
  then have "successively (<) ordered"
    by (induction ordered rule: induct_list012) auto
  then have "sorted_wrt (<) ordered" by (simp add: successively_iff_sorted_wrt_strong)
  with o show ?thesis by (auto simp: check_ordered_None)
qed


section \<open>The invariant\<close>

definition waits_for :: "string \<Rightarrow> string lane_phase \<Rightarrow> bool" where
  "waits_for k p \<longleftrightarrow> (case p of Ready \<Rightarrow> False | Trying k' _ sh \<Rightarrow> k' = k \<and> \<not> sh | Blocked k' _ sh _ \<Rightarrow> k' = k \<and> \<not> sh | Failed k' _ \<Rightarrow> k' = k)"

definition job_ok :: "nat \<Rightarrow> job \<Rightarrow> string lane_caller \<Rightarrow> bool" where
  "job_ok c j d \<longleftrightarrow> list_all (\<lambda>l. \<not> lease_shared l) (leases d) \<and>
     (case j of
        NoJob \<Rightarrow> phase d = Ready \<and> leases d = []
      | Acquiring ordered index active \<Rightarrow>
          index \<le> length ordered \<and> sorted_wrt (<) ordered \<and> list_all (\<lambda>k. \<not> blank k) ordered \<and>
          map lease_key (leases d) = rev (take index ordered) \<and>
          map active_taskID active = rev (take index ordered) \<and>
          (phase d = Ready \<or> index < length ordered \<and> waits_for (ordered ! index) (phase d))
      | Operating ordered \<Rightarrow> phase d = Ready \<and> map lease_key (leases d) = rev ordered
      | Unwinding \<Rightarrow> phase d = Ready)"

definition tasks_ok :: "nat \<Rightarrow> task_system \<Rightarrow> bool" where
  "tasks_ok c s \<longleftrightarrow> length (jobs s) = length (callers (lanes s)) \<and> lanes_ok (lanes s) \<and>
     (\<forall>t < length (jobs s). job_ok c (jobs s ! t) (callers (lanes s) ! t))"

lemma tasks_ok_initial: "tasks_ok c (initial_tasks n)"
  by (simp add: tasks_ok_def initial_tasks_def lanes_ok_initial) (simp add: initial_lanes_def job_ok_def)

lemma tasks_ok_upd:
  assumes ok: "tasks_ok c s" and t: "t < length (jobs s)" and l: "lanes_ok l" "length (callers l) = length (callers (lanes s))"
    and o: "\<And>u. u \<noteq> t \<Longrightarrow> callers l ! u = callers (lanes s) ! u" and j: "job_ok c j (callers l ! t)"
  shows "tasks_ok c (s\<lparr>lanes := l, jobs := (jobs s)[t := j]\<rparr>)"
  using assms by (auto simp: tasks_ok_def nth_list_update)

lemma tasks_ok_job:
  assumes ok: "tasks_ok c s" and t: "t < length (jobs s)" and j: "job_ok c j (callers (lanes s) ! t)"
  shows "tasks_ok c (set_job t j s)"
  using tasks_ok_upd [OF ok t, of "lanes s" j] ok j by (simp add: tasks_ok_def set_job_def)

fun action_caller :: "'k lane_action \<Rightarrow> nat" where
  "action_caller (Reference t _ _) = t"
| "action_caller (Try t) = t"
| "action_caller (Wake t) = t"
| "action_caller (CancelWait t) = t"
| "action_caller (DropReference t) = t"
| "action_caller (ReleaseLane t _) = t"

lemma lane_exec_others:
  "lane_exec a s = Some s' \<Longrightarrow> length (callers s') = length (callers s) \<and>
   (\<forall>u. u \<noteq> action_caller a \<longrightarrow> callers s' ! u = callers s ! u)"
  by (cases a) (auto simp: set_caller_def Let_def split: lane_phase.splits option.splits prod.splits)

text \<open>A step of the lanes by one caller, with the job that goes with it.\<close>

lemma with_lanes_ok:
  assumes ok: "tasks_ok c s" and t: "t < length (jobs s)" "action_caller a = t" and en: "lane_enabled a (lanes s)"
    and job: "\<And>l. lane_exec a (lanes s) = Some l \<Longrightarrow>
      \<exists>j. f (s\<lparr>lanes := l\<rparr>) = s\<lparr>lanes := l, jobs := (jobs s)[t := j]\<rparr> \<and> job_ok c j (callers l ! t)"
  shows "\<exists>s'. with_lanes a f s = Some s' \<and> tasks_ok c s'"
proof -
  have "lanes_ok (lanes s)" using ok by (simp add: tasks_ok_def)
  from lane_exec_ok [OF this en] obtain l where l: "lane_exec a (lanes s) = Some l" "lanes_ok l" by blast
  note o = lane_exec_others [OF l(1)]
  from job [OF l(1)] obtain j where j: "f (s\<lparr>lanes := l\<rparr>) = s\<lparr>lanes := l, jobs := (jobs s)[t := j]\<rparr>" "job_ok c j (callers l ! t)" by blast
  have "tasks_ok c (s\<lparr>lanes := l, jobs := (jobs s)[t := j]\<rparr>)"
    using o t(2) j(2) by (intro tasks_ok_upd [OF ok t(1) l(2)]) auto
  with l(1) j(1) show ?thesis by (simp add: with_lanes_def)
qed

lemma with_lanes_id_ok:
  assumes ok: "tasks_ok c s" and t: "t < length (jobs s)" "action_caller a = t" and en: "lane_enabled a (lanes s)"
    and job: "\<And>l. lane_exec a (lanes s) = Some l \<Longrightarrow> job_ok c (jobs s ! t) (callers l ! t)"
  shows "\<exists>s'. with_lanes a id s = Some s' \<and> tasks_ok c s'"
proof (rule with_lanes_ok [OF ok t en])
  fix l assume "lane_exec a (lanes s) = Some l"
  from job [OF this] show "\<exists>j. id (s\<lparr>lanes := l\<rparr>) = s\<lparr>lanes := l, jobs := (jobs s)[t := j]\<rparr> \<and> job_ok c j (callers l ! t)"
    by (intro exI [of _ "jobs s ! t"]) simp
qed

lemma tasks_okD:
  assumes "tasks_ok c s"
  shows "length (jobs s) = length (callers (lanes s))" and "\<And>t. t < length (jobs s) \<Longrightarrow> job_ok c (jobs s ! t) (callers (lanes s) ! t)"
  using assms by (simp_all add: tasks_ok_def)

lemma task_exec_call:
  assumes ok: "tasks_ok c s" and en: "task_enabled (CallRunMany t ids) s"
  shows "\<exists>s'. task_exec c (CallRunMany t ids) s = Some s' \<and> tasks_ok c s'"
proof -
  note len = tasks_okD(1) [OF ok] and J = tasks_okD(2) [OF ok]
  from en have t: "t < length (jobs s)" "jobs s ! t = NoJob" by simp_all
  show ?thesis
  proof (cases "RunMany_plan ids")
    case (Inr ordered)
    have "tasks_ok c (set_job t (Acquiring ordered 0 []) s)"
      using J [OF t(1)] t(2) RunMany_plan_Inr [OF Inr] by (intro tasks_ok_job [OF ok t(1)]) (auto simp: job_ok_def)
    with Inr show ?thesis by simp
  qed (use ok in simp)
qed

lemma task_exec_enter:
  assumes ok: "tasks_ok c s" and en: "task_enabled (EnterRun t) s"
  shows "\<exists>s'. task_exec c (EnterRun t) s = Some s' \<and> tasks_ok c s'"
proof -
  note len = tasks_okD(1) [OF ok] and J = tasks_okD(2) [OF ok]
  from en obtain ordered index active where t: "t < length (jobs s)" "task_phase s t = Ready"
    and j: "jobs s ! t = Acquiring ordered index active" "index < length ordered" by (auto split: job.splits)
  note K = J [OF t(1), unfolded j(1)]
  have nb: "\<not> blank (ordered ! index)" using K j(2) by (auto simp: job_ok_def list_all_length)
  have "\<not> list_ex (\<lambda>m. active_coordinator m = c \<and> active_taskID m = ordered ! index) active"
  proof
    assume "list_ex (\<lambda>m. active_coordinator m = c \<and> active_taskID m = ordered ! index) active"
    then have "ordered ! index \<in> set (map active_taskID active)" by (auto simp: list_ex_iff intro: rev_image_eqI)
    then have "ordered ! index \<in> set (take index ordered)" using K by (simp add: job_ok_def del: set_map)
    then obtain i where "i < index" "ordered ! i = ordered ! index" using j(2) by (auto simp: in_set_conv_nth)
    then show False using K j(2) sorted_wrt_nth_less [of "(<)" ordered i index] by (auto simp: job_ok_def)
  qed
  then have r: "Run_lane c active (ordered ! index) = Inr (Some (ordered ! index))" using nb by (simp add: Run_lane_def)
  have "\<exists>s'. with_lanes (Reference t (ordered ! index) False) id s = Some s' \<and> tasks_ok c s'"
  proof (rule with_lanes_id_ok [OF ok t(1)])
    show "lane_enabled (Reference t (ordered ! index) False) (lanes s)" using t len by (simp add: task_phase_def)
    fix l assume "lane_exec (Reference t (ordered ! index) False) (lanes s) = Some l"
    then show "job_ok c (jobs s ! t) (callers l ! t)"
      using K j t len by (auto simp: job_ok_def set_caller_def waits_for_def split: prod.splits)
  qed simp
  then show ?thesis using j r by simp
qed

lemma task_exec_try:
  assumes ok: "tasks_ok c s" and en: "task_enabled (TryLane t) s"
  shows "\<exists>s'. task_exec c (TryLane t) s = Some s' \<and> tasks_ok c s'"
proof -
  note len = tasks_okD(1) [OF ok] and J = tasks_okD(2) [OF ok]
  from en have t: "t < length (jobs s)" "lane_enabled (Try t) (lanes s)" by simp_all
  then obtain k a sh where p: "phase (callers (lanes s) ! t) = Trying k a sh" by (auto split: lane_phase.splits)
  note K = J [OF t(1)]
  from K p obtain ordered index active where j: "jobs s ! t = Acquiring ordered index active" "index < length ordered" "k = ordered ! index" "\<not> sh"
    by (cases "jobs s ! t") (auto simp: job_ok_def waits_for_def)
  have "\<exists>s'. with_lanes (Try t) (acquired c t) s = Some s' \<and> tasks_ok c s'"
  proof (rule with_lanes_ok [OF ok t(1) _ t(2)])
    fix l assume l: "lane_exec (Try t) (lanes s) = Some l"
    show "\<exists>j. acquired c t (s\<lparr>lanes := l\<rparr>) = s\<lparr>lanes := l, jobs := (jobs s)[t := j]\<rparr> \<and> job_ok c j (callers l ! t)"
    proof (cases "entry_acquire sh (store (registry (lanes s)) ! a)")
      case None
      then have ph: "callers l ! t = (callers (lanes s) ! t)\<lparr>phase := Blocked k a sh (changed (store (registry (lanes s)) ! a))\<rparr>"
        using l p t len by (auto simp: set_caller_def Let_def)
      have "acquired c t (s\<lparr>lanes := l\<rparr>) = s\<lparr>lanes := l, jobs := (jobs s)[t := jobs s ! t]\<rparr>"
        using ph by (simp add: acquired_def task_phase_def)
      moreover have "job_ok c (jobs s ! t) (callers l ! t)" using K j ph by (simp add: job_ok_def waits_for_def)
      ultimately show ?thesis by blast
    next
      case (Some e)
      then have ph: "callers l ! t = \<lparr>phase = Ready, leases = \<lparr>lease_key = k, lease_entry = a, lease_shared = sh, lease_released = False\<rparr> # leases (callers (lanes s) ! t)\<rparr>"
        using l p t len by (auto simp: set_caller_def Let_def)
      let ?j = "Acquiring ordered (index + 1) (\<lparr>active_coordinator = c, active_taskID = ordered ! index\<rparr> # active)"
      have "acquired c t (s\<lparr>lanes := l\<rparr>) = s\<lparr>lanes := l, jobs := (jobs s)[t := ?j]\<rparr>"
        using ph j by (simp add: acquired_def task_phase_def set_job_def)
      moreover have "job_ok c ?j (callers l ! t)"
        using K j ph by (auto simp: job_ok_def take_Suc_conv_app_nth)
      ultimately show ?thesis by blast
    qed
  qed simp
  then show ?thesis by simp
qed

lemma task_exec_wake:
  assumes ok: "tasks_ok c s" and en: "task_enabled (WakeLane t) s"
  shows "\<exists>s'. task_exec c (WakeLane t) s = Some s' \<and> tasks_ok c s'"
proof -
  note len = tasks_okD(1) [OF ok] and J = tasks_okD(2) [OF ok]
  from en have t: "t < length (jobs s)" "lane_enabled (Wake t) (lanes s)" by simp_all
  note K = J [OF t(1)]
  have "\<exists>s'. with_lanes (Wake t) id s = Some s' \<and> tasks_ok c s'"
  proof (rule with_lanes_id_ok [OF ok t(1) _ t(2)])
    fix l assume l: "lane_exec (Wake t) (lanes s) = Some l"
    then show "job_ok c (jobs s ! t) (callers l ! t)" using K t len
      by (auto simp: job_ok_def waits_for_def set_caller_def split: lane_phase.splits job.splits)
  qed simp
  then show ?thesis by simp
qed

lemma task_exec_cancel:
  assumes ok: "tasks_ok c s" and en: "task_enabled (CancelLane t) s"
  shows "\<exists>s'. task_exec c (CancelLane t) s = Some s' \<and> tasks_ok c s'"
proof -
  note len = tasks_okD(1) [OF ok] and J = tasks_okD(2) [OF ok]
  from en have t: "t < length (jobs s)" "lane_enabled (CancelWait t) (lanes s)" by simp_all
  note K = J [OF t(1)]
  have "\<exists>s'. with_lanes (CancelWait t) id s = Some s' \<and> tasks_ok c s'"
  proof (rule with_lanes_id_ok [OF ok t(1) _ t(2)])
    fix l assume l: "lane_exec (CancelWait t) (lanes s) = Some l"
    then show "job_ok c (jobs s ! t) (callers l ! t)" using K t len
      by (auto simp: job_ok_def waits_for_def set_caller_def split: lane_phase.splits job.splits)
  qed simp
  then show ?thesis by simp
qed

lemma task_exec_fail:
  assumes ok: "tasks_ok c s" and en: "task_enabled (FailLane t) s"
  shows "\<exists>s'. task_exec c (FailLane t) s = Some s' \<and> tasks_ok c s'"
proof -
  note len = tasks_okD(1) [OF ok] and J = tasks_okD(2) [OF ok]
  from en have t: "t < length (jobs s)" "lane_enabled (DropReference t) (lanes s)" by simp_all
  note K = J [OF t(1)]
  have "\<exists>s'. with_lanes (DropReference t) (set_job t Unwinding) s = Some s' \<and> tasks_ok c s'"
  proof (rule with_lanes_ok [OF ok t(1) _ t(2)])
    fix l assume l: "lane_exec (DropReference t) (lanes s) = Some l"
    then have "job_ok c Unwinding (callers l ! t)" using K t len
      by (auto simp: job_ok_def set_caller_def split: lane_phase.splits option.splits)
    then show "\<exists>j. set_job t Unwinding (s\<lparr>lanes := l\<rparr>) = s\<lparr>lanes := l, jobs := (jobs s)[t := j]\<rparr> \<and> job_ok c j (callers l ! t)"
      by (auto simp: set_job_def)
  qed simp
  then show ?thesis by simp
qed

lemma task_exec_start:
  assumes ok: "tasks_ok c s" and en: "task_enabled (StartOperation t) s"
  shows "\<exists>s'. task_exec c (StartOperation t) s = Some s' \<and> tasks_ok c s'"
proof -
  note len = tasks_okD(1) [OF ok] and J = tasks_okD(2) [OF ok]
  from en obtain ordered active where t: "t < length (jobs s)" "task_phase s t = Ready"
    and j: "jobs s ! t = Acquiring ordered (length ordered) active" by (auto split: job.splits)
  have "tasks_ok c (set_job t (Operating ordered) s)"
    using J [OF t(1)] t(2) j by (intro tasks_ok_job [OF ok t(1)]) (simp add: job_ok_def task_phase_def)
  then show ?thesis using j by simp
qed

lemma task_exec_finish:
  assumes ok: "tasks_ok c s" and en: "task_enabled (FinishOperation t) s"
  shows "\<exists>s'. task_exec c (FinishOperation t) s = Some s' \<and> tasks_ok c s'"
proof -
  note len = tasks_okD(1) [OF ok] and J = tasks_okD(2) [OF ok]
  from en obtain ordered where t: "t < length (jobs s)" "jobs s ! t = Operating ordered" by (auto split: job.splits)
  have "tasks_ok c (set_job t Unwinding s)"
    using J [OF t(1)] t(2) by (intro tasks_ok_job [OF ok t(1)]) (simp add: job_ok_def)
  then show ?thesis by simp
qed

lemma task_exec_unwind:
  assumes ok: "tasks_ok c s" and en: "task_enabled (UnwindLane t) s"
  shows "\<exists>s'. task_exec c (UnwindLane t) s = Some s' \<and> tasks_ok c s'"
proof -
  note len = tasks_okD(1) [OF ok] and J = tasks_okD(2) [OF ok]
  from en have t: "t < length (jobs s)" "jobs s ! t = Unwinding" "task_leases s t \<noteq> []" by simp_all
  note K = J [OF t(1)]
  have "\<exists>s'. with_lanes (ReleaseLane t 0) id s = Some s' \<and> tasks_ok c s'"
  proof (rule with_lanes_id_ok [OF ok t(1)])
    show "lane_enabled (ReleaseLane t 0) (lanes s)" using K t len by (simp add: job_ok_def task_leases_def)
    fix l assume l: "lane_exec (ReleaseLane t 0) (lanes s) = Some l"
    then show "job_ok c (jobs s ! t) (callers l ! t)" using K t len
      by (auto simp: job_ok_def set_caller_def Let_def list_all_iff dest!: in_set_dropD split: option.splits)
  qed simp
  then show ?thesis by simp
qed

lemma task_exec_return:
  assumes ok: "tasks_ok c s" and en: "task_enabled (Return t) s"
  shows "\<exists>s'. task_exec c (Return t) s = Some s' \<and> tasks_ok c s'"
proof -
  note len = tasks_okD(1) [OF ok] and J = tasks_okD(2) [OF ok]
  from en have t: "t < length (jobs s)" "jobs s ! t = Unwinding" "task_leases s t = []" by simp_all
  have "tasks_ok c (set_job t NoJob s)"
    using J [OF t(1)] t by (intro tasks_ok_job [OF ok t(1)]) (simp add: job_ok_def task_leases_def)
  then show ?thesis by simp
qed

lemma task_exec_ok:
  assumes "tasks_ok c s" and "task_enabled a s"
  shows "\<exists>s'. task_exec c a s = Some s' \<and> tasks_ok c s'"
  using assms by (cases a) (blast intro: task_exec_call task_exec_enter task_exec_try task_exec_wake task_exec_cancel task_exec_fail task_exec_start task_exec_finish task_exec_unwind task_exec_return)+

lemma task_reachable_ok: "task_reachable c s \<Longrightarrow> tasks_ok c s"
proof (induction rule: task_reachable.induct)
  case (task_step s a s')
  then show ?case using task_exec_ok [OF task_step.IH task_step.hyps(2)] by simp
qed (rule tasks_ok_initial)


section \<open>Mutual exclusion\<close>

lemma sorted_wrt_concat:
  "sorted_wrt P (concat xss) \<Longrightarrow> i < j \<Longrightarrow> j < length xss \<Longrightarrow> x \<in> set (xss ! i) \<Longrightarrow> y \<in> set (xss ! j) \<Longrightarrow> P x y"
proof (induction xss arbitrary: i j)
  case (Cons xs xss)
  then obtain j' where j: "j = Suc j'" by (cases j) auto
  have tl: "sorted_wrt P (concat xss)" "\<forall>a \<in> set xs. \<forall>b \<in> set (concat xss). P a b" using Cons.prems(1) by (auto simp: sorted_wrt_append)
  show ?case
  proof (cases i)
    case 0
    then have "x \<in> set xs" "y \<in> set (concat xss)" using Cons.prems j by auto
    with tl(2) show ?thesis by blast
  next
    case (Suc i')
    then show ?thesis using Cons.IH [OF tl(1), of i' j'] Cons.prems j by simp
  qed
qed simp

lemma leases_disjoint:
  assumes ok: "tasks_ok c s" and t: "t < length (jobs s)" and u: "u < length (jobs s)" and ne: "t \<noteq> u"
    and l: "l \<in> set (leases (callers (lanes s) ! t))" and l': "l' \<in> set (leases (callers (lanes s) ! u))"
  shows "lease_key l \<noteq> lease_key l'"
proof -
  have "sorted_wrt compatible (concat (map leases (callers (lanes s))))"
    using lanes_ok_compatible ok by (auto simp: tasks_ok_def all_leases_def)
  then have "compatible l l' \<or> compatible l' l"
    using sorted_wrt_concat [of compatible "map leases (callers (lanes s))" t u l l']
      sorted_wrt_concat [of compatible "map leases (callers (lanes s))" u t l' l] t u l l' ne tasks_okD(1) [OF ok]
    by (cases "t < u") auto
  moreover have "\<not> lease_shared l" using tasks_okD(2) [OF ok t] l by (auto simp: job_ok_def list_all_iff)
  ultimately show ?thesis by (auto simp: compatible_def)
qed

text \<open>C9: Two operations that run at the same time under one coordinator concern different tasks: in
  every reachable state the ids of two callers whose operations are running are disjoint.\<close>

theorem task_operations_exclusive:
  assumes "task_reachable c s" and "t < length (jobs s)" and "u < length (jobs s)" and "t \<noteq> u"
    and "jobs s ! t = Operating ids" and "jobs s ! u = Operating ids'"
  shows "set ids \<inter> set ids' = {}"
proof -
  note ok = task_reachable_ok [OF assms(1)]
  have "set (map lease_key (leases (callers (lanes s) ! t))) = set ids" "set (map lease_key (leases (callers (lanes s) ! u))) = set ids'"
    using tasks_okD(2) [OF ok assms(2)] tasks_okD(2) [OF ok assms(3)] assms(5,6) by (simp_all add: job_ok_def del: set_map)
  then have k: "set ids = lease_key ` set (leases (callers (lanes s) ! t))" "set ids' = lease_key ` set (leases (callers (lanes s) ! u))" by simp_all
  show ?thesis
  proof (rule equals0I)
    fix x assume "x \<in> set ids \<inter> set ids'"
    then obtain l l' where "l \<in> set (leases (callers (lanes s) ! t))" "l' \<in> set (leases (callers (lanes s) ! u))" "lease_key l = lease_key l'"
      unfolding k by (auto simp: image_iff)
    with leases_disjoint [OF ok assms(2,3,4)] show False by blast
  qed
qed


section \<open>No deadlock\<close>

fun progress_action :: "task_action \<Rightarrow> bool" where
  "progress_action (CallRunMany _ _) = False"
| "progress_action (CancelLane _) = False"
| "progress_action _ = True"

lemma stuck_blocked:
  assumes ok: "tasks_ok c s" and t: "t < length (jobs s)" "jobs s ! t \<noteq> NoJob"
    and stuck: "\<nexists>a. progress_action a \<and> task_enabled a s"
  shows "\<exists>ordered index active a seen. jobs s ! t = Acquiring ordered index active \<and> index < length ordered \<and>
    phase (callers (lanes s) ! t) = Blocked (ordered ! index) a False seen \<and> changed (store (registry (lanes s)) ! a) = seen"
proof -
  note J = tasks_okD(2) [OF ok t(1)] and len = tasks_okD(1) [OF ok]
  have not: "\<not> task_enabled a s" if "progress_action a" for a using stuck that by blast
  have n: "\<not> task_enabled (EnterRun t) s" "\<not> task_enabled (TryLane t) s" "\<not> task_enabled (WakeLane t) s" "\<not> task_enabled (FailLane t) s"
    "\<not> task_enabled (StartOperation t) s" "\<not> task_enabled (FinishOperation t) s" "\<not> task_enabled (UnwindLane t) s" "\<not> task_enabled (Return t) s"
    by (simp_all only: not progress_action.simps not_False_eq_True)
  from n(6-8) t J obtain ordered index active where j: "jobs s ! t = Acquiring ordered index active"
    by (cases "jobs s ! t") auto
  have "phase (callers (lanes s) ! t) \<noteq> Ready" using n(1,5) t j J by (auto simp: task_phase_def job_ok_def)
  then have w: "index < length ordered" "waits_for (ordered ! index) (phase (callers (lanes s) ! t))" using J j by (auto simp: job_ok_def)
  with n(2-4) t len show ?thesis using j
    by (cases "phase (callers (lanes s) ! t)") (auto simp: waits_for_def)
qed

lemma held_below:
  assumes ok: "tasks_ok c s" and v: "v < length (jobs s)" and j: "jobs s ! v = Acquiring ordered index active" "index < length ordered"
    and l: "l \<in> set (leases (callers (lanes s) ! v))"
  shows "lease_key l < ordered ! index"
proof -
  note J = tasks_okD(2) [OF ok v]
  have "lease_key l \<in> set (map lease_key (leases (callers (lanes s) ! v)))" using l by simp
  then have "lease_key l \<in> set (take index ordered)" using J j(1) by (simp add: job_ok_def del: set_map)
  then obtain x where "x < index" "lease_key l = ordered ! x" by (auto simp: in_set_conv_nth)
  then show ?thesis using J j sorted_wrt_nth_less [of "(<)" ordered x index] by (auto simp: job_ok_def)
qed

lemma idle_lanes_empty:
  assumes ok: "tasks_ok c s" and idle: "list_all (\<lambda>j. j = NoJob) (jobs s)"
  shows "entries (registry (lanes s)) = []"
proof -
  have lok: "lanes_ok (lanes s)" using ok by (simp add: tasks_ok_def)
  have "phase d = Ready \<and> leases d = []" if "d \<in> set (callers (lanes s))" for d
  proof -
    from that obtain t where t: "t < length (jobs s)" "d = callers (lanes s) ! t" using tasks_okD(1) [OF ok] by (metis in_set_conv_nth)
    with tasks_okD(2) [OF ok t(1)] idle show ?thesis by (simp add: job_ok_def list_all_length)
  qed
  then have "k \<notin> fst ` set (entries (registry (lanes s)))" for k
    using lane_entries_iff [OF lok, of k] by (auto simp: acquires_def)
  then show ?thesis by (cases "entries (registry (lanes s))") force+
qed

text \<open>C4: The callers of a coordinator never block each other for ever: in a reachable state in which
  no step other than a new call or a cancellation is possible, every call has returned, and then the
  registry of lanes is empty.\<close>

theorem task_no_deadlock:
  assumes "task_reachable c s" and "\<nexists>a. progress_action a \<and> task_enabled a s"
  shows "list_all (\<lambda>j. j = NoJob) (jobs s) \<and> entries (registry (lanes s)) = []"
proof -
  note ok = task_reachable_ok [OF assms(1)]
  have lok: "lanes_ok (lanes s)" using ok by (simp add: tasks_ok_def)
  define W where "W = {ordered ! index | t ordered index active. t < length (jobs s) \<and> jobs s ! t = Acquiring ordered index active}"
  have "W \<subseteq> (\<lambda>t. case jobs s ! t of Acquiring ordered index active \<Rightarrow> ordered ! index | _ \<Rightarrow> []) ` {..<length (jobs s)}"
    unfolding W_def by force
  then have fin: "finite W" by (rule finite_subset) simp
  have idle: "jobs s ! t = NoJob" if t: "t < length (jobs s)" for t
  proof (rule ccontr)
    assume "jobs s ! t \<noteq> NoJob"
    with stuck_blocked [OF ok t _ assms(2)] t have "W \<noteq> {}" unfolding W_def by blast
    then have "Max W \<in> W" using fin by simp
    then obtain u ordered index active where u: "u < length (jobs s)" "jobs s ! u = Acquiring ordered index active" "Max W = ordered ! index"
      unfolding W_def by blast
    from stuck_blocked [OF ok u(1) _ assms(2)] u obtain a seen where b: "phase (callers (lanes s) ! u) = Blocked (Max W) a False seen"
      "changed (store (registry (lanes s)) ! a) = seen" by auto
    have "callers (lanes s) ! u \<in> set (callers (lanes s))" using u(1) tasks_okD(1) [OF ok] by simp
    from blocked_for_lease [OF lok this b] obtain l where l: "l \<in> set (all_leases (lanes s))" "lease_key l = Max W" by blast
    then obtain d where "d \<in> set (callers (lanes s))" "l \<in> set (leases d)" by (auto simp: all_leases_def)
    then obtain v where v: "v < length (jobs s)" "l \<in> set (leases (callers (lanes s) ! v))"
      using tasks_okD(1) [OF ok] by (metis in_set_conv_nth)
    from tasks_okD(2) [OF ok v(1)] v(2) have "jobs s ! v \<noteq> NoJob" by (auto simp: job_ok_def)
    from stuck_blocked [OF ok v(1) this assms(2)] obtain o' i' a' where o: "jobs s ! v = Acquiring o' i' a'" "i' < length o'" by blast
    have "Max W < o' ! i'" using held_below [OF ok v(1) o v(2)] l(2) by simp
    moreover have "o' ! i' \<in> W" unfolding W_def using v(1) o(1) by blast
    ultimately show False using Max_ge [OF fin] by (meson leD)
  qed
  then have all: "list_all (\<lambda>j. j = NoJob) (jobs s)" by (simp add: list_all_length)
  with idle_lanes_empty [OF ok] show ?thesis by simp
qed


section \<open>Every run ends\<close>

text \<open>The steps a caller still has to take, without the rounds of waiting.\<close>

fun phase_cost :: "string lane_phase \<Rightarrow> nat" where
  "phase_cost Ready = 0"
| "phase_cost (Failed _ _) = 2"
| "phase_cost _ = 1"

definition work :: "job \<Rightarrow> string lane_caller \<Rightarrow> nat" where
  "work j d = length (leases d) +
     (case j of
        NoJob \<Rightarrow> 0
      | Acquiring ordered index _ \<Rightarrow> 3 * (length ordered - index) + 3 - phase_cost (phase d)
      | Operating _ \<Rightarrow> 2
      | Unwinding \<Rightarrow> 1)"

text \<open>The rounds of waiting until the next release.\<close>

definition rounds :: "string MutationLaneRegistry \<Rightarrow> string lane_caller \<Rightarrow> nat" where
  "rounds r d =
     (case phase d of
        Trying _ _ _ \<Rightarrow> 1
      | Blocked _ a _ seen \<Rightarrow> (if changed (store r ! a) \<noteq> seen then 2 else 0)
      | _ \<Rightarrow> 0)"

definition total_work :: "task_system \<Rightarrow> nat" where
  "total_work s = (\<Sum>t < length (jobs s). work (jobs s ! t) (callers (lanes s) ! t))"

definition total_rounds :: "task_system \<Rightarrow> nat" where
  "total_rounds s = (\<Sum>t < length (jobs s). rounds (registry (lanes s)) (callers (lanes s) ! t))"

definition is_call :: "task_action \<Rightarrow> bool" where
  "is_call a \<longleftrightarrow> (case a of CallRunMany _ _ \<Rightarrow> True | _ \<Rightarrow> False)"

text \<open>A step concerns one caller, whose work gets less; or it is a round of waiting.\<close>

definition descends :: "nat \<Rightarrow> task_system \<Rightarrow> task_system \<Rightarrow> bool" where
  "descends t s s' \<longleftrightarrow> t < length (jobs s) \<and> length (jobs s') = length (jobs s) \<and>
     (\<forall>u. u \<noteq> t \<longrightarrow> jobs s' ! u = jobs s ! u \<and> callers (lanes s') ! u = callers (lanes s) ! u) \<and>
     (let w = work (jobs s ! t) (callers (lanes s) ! t); w' = work (jobs s' ! t) (callers (lanes s') ! t) in
      w' < w \<or> w' = w \<and> registry (lanes s') = registry (lanes s) \<and>
        rounds (registry (lanes s)) (callers (lanes s') ! t) < rounds (registry (lanes s)) (callers (lanes s) ! t))"

lemma descends_total:
  assumes "descends t s s'"
  shows "(s', s) \<in> measures [total_work, total_rounds]"
proof -
  let ?n = "length (jobs s)"
  have t: "t \<in> {..<?n}" and len: "length (jobs s') = ?n" using assms by (auto simp: descends_def)
  have o: "work (jobs s' ! u) (callers (lanes s') ! u) = work (jobs s ! u) (callers (lanes s) ! u)"
    "rounds r (callers (lanes s') ! u) = rounds r (callers (lanes s) ! u)" if "u \<in> {..<?n} - {t}" for u r
    using assms that by (auto simp: descends_def)
  have w: "total_work s = work (jobs s ! t) (callers (lanes s) ! t) + (\<Sum>u \<in> {..<?n} - {t}. work (jobs s ! u) (callers (lanes s) ! u))"
    "total_work s' = work (jobs s' ! t) (callers (lanes s') ! t) + (\<Sum>u \<in> {..<?n} - {t}. work (jobs s ! u) (callers (lanes s) ! u))"
    using sum.remove [OF _ t, of "\<lambda>u. work (jobs s ! u) (callers (lanes s) ! u)"]
      sum.remove [OF _ t, of "\<lambda>u. work (jobs s' ! u) (callers (lanes s') ! u)"] o(1) len by (simp_all add: total_work_def)
  have r: "total_rounds s = rounds (registry (lanes s)) (callers (lanes s) ! t) + (\<Sum>u \<in> {..<?n} - {t}. rounds (registry (lanes s)) (callers (lanes s) ! u))"
    using sum.remove [OF _ t, of "\<lambda>u. rounds (registry (lanes s)) (callers (lanes s) ! u)"] by (simp add: total_rounds_def)
  have r': "total_rounds s' = rounds (registry (lanes s')) (callers (lanes s') ! t) + (\<Sum>u \<in> {..<?n} - {t}. rounds (registry (lanes s')) (callers (lanes s) ! u))"
    using sum.remove [OF _ t, of "\<lambda>u. rounds (registry (lanes s')) (callers (lanes s') ! u)"] o(2) len by (simp add: total_rounds_def)
  show ?thesis using assms w r r' by (auto simp: descends_def Let_def)
qed

lemma descends_job:
  assumes "t < length (jobs s)" and "work j (callers (lanes s) ! t) < work (jobs s ! t) (callers (lanes s) ! t)"
  shows "descends t s (set_job t j s)"
  using assms by (auto simp: descends_def set_job_def Let_def)

lemma descends_lanes:
  assumes w: "with_lanes a f s = Some s'" and t: "t < length (jobs s)" "action_caller a = t"
    and job: "\<And>l. lane_exec a (lanes s) = Some l \<Longrightarrow>
      \<exists>j. f (s\<lparr>lanes := l\<rparr>) = s\<lparr>lanes := l, jobs := (jobs s)[t := j]\<rparr> \<and>
        (work j (callers l ! t) < work (jobs s ! t) (callers (lanes s) ! t) \<or>
         work j (callers l ! t) = work (jobs s ! t) (callers (lanes s) ! t) \<and> registry l = registry (lanes s) \<and>
         rounds (registry (lanes s)) (callers l ! t) < rounds (registry (lanes s)) (callers (lanes s) ! t))"
  shows "descends t s s'"
proof -
  from w obtain l where l: "lane_exec a (lanes s) = Some l" "s' = f (s\<lparr>lanes := l\<rparr>)"
    by (auto simp: with_lanes_def split: option.splits)
  with lane_exec_others [OF l(1)] job [OF l(1)] t show ?thesis by (auto simp: descends_def Let_def)
qed

lemma descends_lanes_id:
  assumes "with_lanes a id s = Some s'" and t: "t < length (jobs s)" and "action_caller a = t"
    and job: "\<And>l. lane_exec a (lanes s) = Some l \<Longrightarrow>
        work (jobs s ! t) (callers l ! t) < work (jobs s ! t) (callers (lanes s) ! t) \<or>
        work (jobs s ! t) (callers l ! t) = work (jobs s ! t) (callers (lanes s) ! t) \<and> registry l = registry (lanes s) \<and>
        rounds (registry (lanes s)) (callers l ! t) < rounds (registry (lanes s)) (callers (lanes s) ! t)"
  shows "descends t s s'"
  by (rule descends_lanes [OF assms(1-3)], rule exI [of _ "jobs s ! t"]) (use job in simp)

lemma descends_enter:
  assumes ok: "tasks_ok c s" and en: "task_enabled (EnterRun t) s" and ex: "task_exec c (EnterRun t) s = Some s'"
  shows "descends t s s'"
proof -
  from en obtain ordered index active where t: "t < length (jobs s)" "task_phase s t = Ready"
    and j: "jobs s ! t = Acquiring ordered index active" "index < length ordered" by (auto split: job.splits)
  consider e where "Run_lane c active (ordered ! index) = Inl e" | "Run_lane c active (ordered ! index) = Inr None"
    | key where "Run_lane c active (ordered ! index) = Inr (Some key)" by (metis old.sum.exhaust not_None_eq)
  then show ?thesis
  proof cases
    case 1
    then have "s' = set_job t Unwinding s" using ex j by simp
    then show ?thesis using descends_job [OF t(1)] t(2) j by (simp add: work_def task_phase_def)
  next
    case 2
    then have "s' = set_job t (Acquiring ordered (index + 1) active) s" using ex j by simp
    then show ?thesis using descends_job [OF t(1)] t(2) j by (simp add: work_def task_phase_def)
  next
    case 3
    then have "with_lanes (Reference t key False) id s = Some s'" using ex j by simp
    then show ?thesis
      by (rule descends_lanes_id [OF _ t(1)])
        (use t j tasks_okD(1) [OF ok] in \<open>auto simp: work_def set_caller_def task_phase_def split: prod.splits\<close>)
  qed
qed

lemma descends_try:
  assumes ok: "tasks_ok c s" and en: "task_enabled (TryLane t) s" and ex: "task_exec c (TryLane t) s = Some s'"
  shows "descends t s s'"
proof -
  from en have t: "t < length (jobs s)" "lane_enabled (Try t) (lanes s)" by simp_all
  then obtain k a sh where p: "phase (callers (lanes s) ! t) = Trying k a sh" by (auto split: lane_phase.splits)
  from tasks_okD(2) [OF ok t(1)] p obtain ordered index active where j: "jobs s ! t = Acquiring ordered index active" "index < length ordered"
    by (cases "jobs s ! t") (auto simp: job_ok_def waits_for_def)
  from ex have "with_lanes (Try t) (acquired c t) s = Some s'" by simp
  then show ?thesis
  proof (rule descends_lanes [OF _ t(1)])
    fix l assume l: "lane_exec (Try t) (lanes s) = Some l"
    show "\<exists>j. acquired c t (s\<lparr>lanes := l\<rparr>) = s\<lparr>lanes := l, jobs := (jobs s)[t := j]\<rparr> \<and>
        (work j (callers l ! t) < work (jobs s ! t) (callers (lanes s) ! t) \<or>
         work j (callers l ! t) = work (jobs s ! t) (callers (lanes s) ! t) \<and> registry l = registry (lanes s) \<and>
         rounds (registry (lanes s)) (callers l ! t) < rounds (registry (lanes s)) (callers (lanes s) ! t))"
    proof (cases "entry_acquire sh (store (registry (lanes s)) ! a)")
      case None
      then have "l = set_caller t ((callers (lanes s) ! t)\<lparr>phase := Blocked k a sh (changed (store (registry (lanes s)) ! a))\<rparr>) (lanes s)"
        using l p by (simp add: Let_def)
      then show ?thesis using p t tasks_okD(1) [OF ok]
        by (intro exI [of _ "jobs s ! t"] conjI) (simp add: acquired_def task_phase_def set_caller_def, simp add: work_def rounds_def set_caller_def j)
    next
      case (Some e)
      then have "callers l ! t = \<lparr>phase = Ready, leases = \<lparr>lease_key = k, lease_entry = a, lease_shared = sh, lease_released = False\<rparr> # leases (callers (lanes s) ! t)\<rparr>"
        using l p t tasks_okD(1) [OF ok] by (auto simp: set_caller_def Let_def)
      then show ?thesis using p t j
        by (intro exI [of _ "Acquiring ordered (index + 1) (\<lparr>active_coordinator = c, active_taskID = ordered ! index\<rparr> # active)"])
          (rule conjI, simp add: acquired_def task_phase_def set_job_def, rule disjI1, simp add: work_def; linarith)
    qed
  qed simp
qed

lemma descends_wait:
  assumes ok: "tasks_ok c s" and en: "task_enabled a s" and ex: "task_exec c a s = Some s'"
    and a: "a \<in> {WakeLane t, CancelLane t, FailLane t}"
  shows "descends t s s'"
proof -
  from en a have t: "t < length (jobs s)" by auto
  note J = tasks_okD(2) [OF ok t] and len = tasks_okD(1) [OF ok]
  have p: "phase (callers (lanes s) ! t) \<noteq> Ready" using en a by auto
  then obtain ordered index active where j: "jobs s ! t = Acquiring ordered index active" "index < length ordered"
    using J by (cases "jobs s ! t") (auto simp: job_ok_def)
  from a consider "a = WakeLane t" | "a = CancelLane t" | "a = FailLane t" by blast
  then show ?thesis
  proof cases
    case 1
    then have "with_lanes (Wake t) id s = Some s'" using ex by simp
    then show ?thesis
      by (rule descends_lanes_id [OF _ t])
        (use en 1 t len j in \<open>auto simp: work_def rounds_def set_caller_def split: lane_phase.splits\<close>)
  next
    case 2
    then have "with_lanes (CancelWait t) id s = Some s'" using ex by simp
    then show ?thesis
      by (rule descends_lanes_id [OF _ t])
        (use en 2 t len j in \<open>auto simp: work_def set_caller_def split: lane_phase.splits\<close>)
  next
    case 3
    then have "with_lanes (DropReference t) (set_job t Unwinding) s = Some s'" using ex by simp
    then show ?thesis
      by (rule descends_lanes [OF _ t], simp, intro exI [of _ Unwinding])
        (use en 3 t len j in \<open>auto simp: work_def set_caller_def set_job_def split: lane_phase.splits option.splits\<close>)
  qed
qed

lemma task_exec_descends:
  assumes ok: "tasks_ok c s" and en: "task_enabled a s" and ex: "task_exec c a s = Some s'" and n: "\<not> is_call a"
  shows "\<exists>t. descends t s s'"
proof (cases a)
  case (StartOperation t)
  then have "t < length (jobs s)" "s' = (case jobs s ! t of Acquiring ordered _ _ \<Rightarrow> set_job t (Operating ordered) s | _ \<Rightarrow> s)"
    "task_phase s t = Ready" "\<exists>ordered index active. jobs s ! t = Acquiring ordered index active"
    using en ex by (auto split: job.splits)
  then show ?thesis using descends_job [of t s] by (intro exI [of _ t]) (auto simp: work_def task_phase_def)
next
  case (FinishOperation t)
  then show ?thesis using en ex descends_job [of t s Unwinding] by (intro exI [of _ t]) (auto simp: work_def split: job.splits)
next
  case (UnwindLane t)
  then have t: "t < length (jobs s)" "jobs s ! t = Unwinding" "leases (callers (lanes s) ! t) \<noteq> []" and
    w: "with_lanes (ReleaseLane t 0) id s = Some s'" using en ex by (simp_all add: task_leases_def)
  from w have "descends t s s'"
    by (rule descends_lanes_id [OF _ t(1)])
      (use t tasks_okD(1) [OF ok] in \<open>auto simp: work_def set_caller_def Let_def split: option.splits\<close>)
  then show ?thesis ..
next
  case (Return t)
  then show ?thesis using en ex descends_job [of t s NoJob] by (intro exI [of _ t]) (auto simp: work_def)
next
  case (EnterRun t)
  then show ?thesis using descends_enter [OF ok] en ex by blast
next
  case (TryLane t)
  then show ?thesis using descends_try [OF ok] en ex by blast
next
  case (WakeLane t)
  then show ?thesis using descends_wait [OF ok en ex, of t] by blast
next
  case (CancelLane t)
  then show ?thesis using descends_wait [OF ok en ex, of t] by blast
next
  case (FailLane t)
  then show ?thesis using descends_wait [OF ok en ex, of t] by blast
qed (use n in \<open>simp add: is_call_def\<close>)

text \<open>C5: Without new calls every run of the callers of a coordinator ends, whatever the order of their
  steps: the steps from reachable states are well-founded. In particular nobody waits for ever in
  the loop of \<open>acquire\<close>.\<close>

theorem task_runs_end:
  "wf {(s', s). task_reachable c s \<and> (\<exists>a. \<not> is_call a \<and> task_enabled a s \<and> task_exec c a s = Some s')}"
proof (rule wf_subset [OF wf_measures])
  show "{(s', s). task_reachable c s \<and> (\<exists>a. \<not> is_call a \<and> task_enabled a s \<and> task_exec c a s = Some s')}
      \<subseteq> measures [total_work, total_rounds]"
    using task_exec_descends [OF task_reachable_ok] descends_total by blast
qed

end
