(* ===== verification/Lane_Examples.thy ===== *)
theory Lane_Examples
  imports Task_Mutations_Props
begin

text \<open>The theorems on the lanes and the coordinator at concrete runs.\<close>

section \<open>Runs\<close>

fun lane_run :: "'k lane_action list \<Rightarrow> 'k lane_system \<Rightarrow> 'k lane_system option" where
  "lane_run [] s = Some s"
| "lane_run (a # as) s =
     (if lane_enabled a s then (case lane_exec a s of None \<Rightarrow> None | Some s' \<Rightarrow> lane_run as s') else None)"

lemma lane_run_reachable: "lane_run as s = Some s' \<Longrightarrow> lane_reachable s \<Longrightarrow> lane_reachable s'"
  by (induction as arbitrary: s) (auto split: if_splits option.splits intro: lane_step)

fun task_run :: "nat \<Rightarrow> task_action list \<Rightarrow> task_system \<Rightarrow> task_system option" where
  "task_run c [] s = Some s"
| "task_run c (a # as) s =
     (if task_enabled a s then (case task_exec c a s of None \<Rightarrow> None | Some s' \<Rightarrow> task_run c as s') else None)"

lemma task_run_reachable: "task_run c as s = Some s' \<Longrightarrow> task_reachable c s \<Longrightarrow> task_reachable c s'"
  by (induction as arbitrary: s) (auto split: if_splits option.splits intro: task_step)

text \<open>Two callers share a lane, a third one waits for it.\<close>

definition shared_actions :: "string lane_action list" where
  "shared_actions =
     [Reference 0 ''a'' True, Reference 2 ''a'' False, Try 0, Try 2, Reference 1 ''a'' True, Try 1]"

definition shared_state :: "string lane_system" where
  "shared_state = the (lane_run shared_actions (initial_lanes 3))"

lemma shared_state_reachable: "lane_reachable shared_state"
proof (rule lane_run_reachable [OF _ lane_initial])
  have "lane_run shared_actions (initial_lanes 3) \<noteq> None" by code_simp
  then show "lane_run shared_actions (initial_lanes 3) = Some shared_state" unfolding shared_state_def by simp
qed

text \<open>Two callers mutate different tasks at the same time, a third one waits for both; then all finish.\<close>

definition start_actions :: "task_action list" where
  "start_actions =
     [CallRunMany 0 [''b'', ''a''], CallRunMany 1 [''c''], CallRunMany 2 [''c'', ''a''],
      EnterRun 0, EnterRun 1, TryLane 1, TryLane 0, EnterRun 2, TryLane 2, EnterRun 0, TryLane 0,
      StartOperation 0, StartOperation 1]"

definition finish_actions :: "task_action list" where
  "finish_actions =
     [FinishOperation 0, UnwindLane 0, UnwindLane 0, Return 0, WakeLane 2, TryLane 2, EnterRun 2, TryLane 2,
      FinishOperation 1, UnwindLane 1, Return 1, WakeLane 2, TryLane 2, StartOperation 2, FinishOperation 2,
      UnwindLane 2, UnwindLane 2, Return 2]"

definition operating_state :: task_system where
  "operating_state = the (task_run 0 start_actions (initial_tasks 3))"

definition finished_state :: task_system where
  "finished_state = the (task_run 0 (start_actions @ finish_actions) (initial_tasks 3))"

lemma operating_state_reachable: "task_reachable 0 operating_state"
proof (rule task_run_reachable [OF _ task_initial])
  have "task_run 0 start_actions (initial_tasks 3) \<noteq> None" by code_simp
  then show "task_run 0 start_actions (initial_tasks 3) = Some operating_state" unfolding operating_state_def by simp
qed

lemma finished_state_reachable: "task_reachable 0 finished_state"
proof (rule task_run_reachable [OF _ task_initial])
  have "task_run 0 (start_actions @ finish_actions) (initial_tasks 3) \<noteq> None" by code_simp
  then show "task_run 0 (start_actions @ finish_actions) (initial_tasks 3) = Some finished_state" unfolding finished_state_def by simp
qed


section \<open>The theorems at these runs\<close>

theorem lanes_exclusive_sample:
  "map lease_key (all_leases shared_state) = [''a'', ''a''] \<and>
   lease_shared (all_leases shared_state ! 0) \<and> lease_shared (all_leases shared_state ! 1)"
proof -
  have k: "map lease_key (all_leases shared_state) = [''a'', ''a'']" by code_simp
  then obtain l l' where l: "all_leases shared_state = [l, l']" by (auto simp: map_eq_Cons_conv)
  with lanes_exclusive [OF shared_state_reachable] k show ?thesis by simp
qed

theorem lanes_never_panic_nor_leak_sample:
  "lane_exec (ReleaseLane 0 0) shared_state \<noteq> None \<and>
   (''a'' \<in> fst ` set (entries (registry shared_state)) \<longleftrightarrow>
    (\<exists>c \<in> set (callers shared_state). acquires (phase c) ''a'' \<or> ''a'' \<in> lease_key ` set (leases c)))"
proof -
  have "lane_enabled (ReleaseLane 0 0) shared_state" by code_simp
  with lanes_never_panic_nor_leak [OF shared_state_reachable, of "ReleaseLane 0 0" "''a''"] show ?thesis by simp
qed

theorem task_operations_exclusive_sample: "set [''a'', ''b''] \<inter> set [''c''] = {}"
proof (rule task_operations_exclusive [OF operating_state_reachable, of 0 1])
  show "(0 :: nat) < length (jobs operating_state)" "(1 :: nat) < length (jobs operating_state)" by code_simp+
  show "jobs operating_state ! 0 = Operating [''a'', ''b'']" "jobs operating_state ! 1 = Operating [''c'']" by code_simp+
qed simp

theorem task_no_deadlock_sample:
  "list_all (\<lambda>j. j = NoJob) (jobs finished_state) \<and> entries (registry (lanes finished_state)) = []"
proof (rule task_no_deadlock [OF finished_state_reachable])
  have j: "jobs finished_state = [NoJob, NoJob, NoJob]" by code_simp
  have p: "map phase (callers (lanes finished_state)) = [Ready, Ready, Ready]" by code_simp
  have ph: "phase (callers (lanes finished_state) ! t) = Ready" if "t < 3" for t
  proof -
    have "map phase (callers (lanes finished_state)) ! t = Ready" using that unfolding p by (auto simp: less_Suc_eq numeral_3_eq_3)
    then show ?thesis using that arg_cong [OF p, of length] by (simp add: nth_map)
  qed
  have jt: "jobs finished_state ! t = NoJob" if "t < 3" for t
    using that unfolding j by (auto simp: less_Suc_eq numeral_3_eq_3)
  show "\<nexists>a. progress_action a \<and> task_enabled a finished_state"
  proof
    assume "\<exists>a. progress_action a \<and> task_enabled a finished_state"
    then obtain a where a: "progress_action a" "task_enabled a finished_state" by blast
    have len: "length (jobs finished_state) = 3" by (simp add: j)
    from a show False
      by (cases a) (auto simp: len ph jt)
  qed
qed

end
