(* ===== verification/Os_Files.thy ===== *)
theory Os_Files
  imports Go_Strings "HOL-Library.Char_ord" "HOL-Library.List_Lexorder"
begin

text \<open>
  The part of the package \<open>os\<close> that the file editing tools call, over a file tree. A path is
  the list of the components of a clean absolute path without symbolic links, which is what
  the tools obtain from path resolution. Every call may fail for a reason outside of the
  model (permissions, a full disk): the list \<open>faults\<close> says for each call, in order, whether it
  does. A failed call changes nothing, except that a failed write leaves a truncated file
  and \<open>MkdirAll\<close> keeps the directories it has made. \<open>randoms\<close> are the random parts of the names
  that \<open>os.CreateTemp\<close> tries.
\<close>

type_synonym path = "string list"
type_synonym mode = "9 word"

datatype node = Dir | File mode string | Special

datatype oserr = ErrNotExist | ErrOther

record world =
  fs :: "path \<Rightarrow> node option"
  faults :: "bool list"
  umask :: mode
  randoms :: "string list"

definition path_text :: "path \<Rightarrow> string" where
  "path_text p = concat (map (\<lambda>c. CHR ''/'' # c) p)"


section \<open>Looking up a path\<close>

datatype lookup = Found node | NotExist | NotDir

fun walk :: "(path \<Rightarrow> node option) \<Rightarrow> path \<Rightarrow> path \<Rightarrow> lookup" where
  "walk f done [] = (case f done of None \<Rightarrow> NotExist | Some n \<Rightarrow> Found n)"
| "walk f done (c # p) =
     (case f done of None \<Rightarrow> NotExist | Some Dir \<Rightarrow> walk f (done @ [c]) p | Some _ \<Rightarrow> NotDir)"

definition look :: "(path \<Rightarrow> node option) \<Rightarrow> path \<Rightarrow> lookup" where
  "look f p = walk f [] p"

text \<open>A tree: every existing path lies in an existing directory.\<close>

definition tree :: "(path \<Rightarrow> node option) \<Rightarrow> bool" where
  "tree f \<longleftrightarrow> f [] = Some Dir \<and> (\<forall>p c. f (p @ [c]) \<noteq> None \<longrightarrow> f p = Some Dir)"

definition is_dir :: "(path \<Rightarrow> node option) \<Rightarrow> path \<Rightarrow> bool" where
  "is_dir f p \<longleftrightarrow> f p = Some Dir"

definition data_at :: "(path \<Rightarrow> node option) \<Rightarrow> path \<Rightarrow> string option" where
  "data_at f p = (case f p of Some (File m d) \<Rightarrow> Some d | _ \<Rightarrow> None)"

lemma data_at_upd [simp]:
  "data_at (f(p := None)) = (data_at f)(p := None)" "data_at (f(p := Some (File m d))) = (data_at f)(p := Some d)"
  by (auto simp: data_at_def fun_eq_iff)

lemma tree_prefix: "tree f \<Longrightarrow> f (p @ q) \<noteq> None \<Longrightarrow> q \<noteq> [] \<Longrightarrow> f p = Some Dir"
proof (induction q rule: rev_induct)
  case (snoc c q)
  then have "f (p @ q) = Some Dir" unfolding tree_def by (metis append.assoc)
  with snoc show ?case by (cases "q = []") auto
qed simp

lemma walk_tree:
  "tree f \<Longrightarrow> walk f q p = (case f (q @ p) of Some n \<Rightarrow> Found n | None \<Rightarrow> walk f q p)"
proof (induction p arbitrary: q)
  case (Cons c p)
  show ?case
  proof (cases "f (q @ c # p)")
    case (Some n)
    then have "f q = Some Dir" using tree_prefix [OF Cons.prems, of q "c # p"] by simp
    with Cons.IH [OF Cons.prems, of "q @ [c]"] Some show ?thesis by simp
  qed simp
qed (simp split: option.splits)

lemma look_Some: "tree f \<Longrightarrow> f p = Some n \<Longrightarrow> look f p = Found n"
  using walk_tree [of f "[]" p] by (simp add: look_def)

lemma walk_Found: "walk f q p = Found n \<Longrightarrow> f (q @ p) = Some n"
  by (induction p arbitrary: q) (fastforce split: option.splits node.splits)+

lemma look_Found: "look f p = Found n \<Longrightarrow> f p = Some n"
  using walk_Found [of f "[]" p] by (simp add: look_def)

lemma look_iff: "tree f \<Longrightarrow> look f p = Found n \<longleftrightarrow> f p = Some n"
  using look_Some look_Found by blast


section \<open>The calls\<close>

definition fault :: "world \<Rightarrow> bool \<times> world" where
  "fault w = (case faults w of [] \<Rightarrow> (False, w) | b # bs \<Rightarrow> (b, w\<lparr>faults := bs\<rparr>))"

definition os_Stat :: "path \<Rightarrow> world \<Rightarrow> (oserr + node) \<times> world" where
  "os_Stat p w =
     (case fault w of
        (True, w1) \<Rightarrow> (Inl ErrOther, w1)
      | (False, w1) \<Rightarrow>
         (case look (fs w1) p of
            Found n \<Rightarrow> (Inr n, w1) | NotExist \<Rightarrow> (Inl ErrNotExist, w1) | NotDir \<Rightarrow> (Inl ErrOther, w1)))"

definition os_ReadFile :: "path \<Rightarrow> world \<Rightarrow> (oserr + string) \<times> world" where
  "os_ReadFile p w =
     (case fault w of
        (True, w1) \<Rightarrow> (Inl ErrOther, w1)
      | (False, w1) \<Rightarrow>
         (case look (fs w1) p of
            Found (File m d) \<Rightarrow> (Inr d, w1) | NotExist \<Rightarrow> (Inl ErrNotExist, w1) | _ \<Rightarrow> (Inl ErrOther, w1)))"

text \<open>\<open>os.Remove\<close> of a file. The tools remove what a snapshot has shown to be a regular file,
  or a file they have created; the removal of an empty directory is not modelled.\<close>

definition os_Remove :: "path \<Rightarrow> world \<Rightarrow> (oserr + unit) \<times> world" where
  "os_Remove p w =
     (case fault w of
        (True, w1) \<Rightarrow> (Inl ErrOther, w1)
      | (False, w1) \<Rightarrow>
         (case look (fs w1) p of
            Found Dir \<Rightarrow> (Inl ErrOther, w1)
          | Found _ \<Rightarrow> (Inr (), w1\<lparr>fs := (fs w1)(p := None)\<rparr>)
          | NotExist \<Rightarrow> (Inl ErrNotExist, w1)
          | NotDir \<Rightarrow> (Inl ErrOther, w1)))"

fun make_dirs :: "path \<Rightarrow> path \<Rightarrow> world \<Rightarrow> (oserr + unit) \<times> world" where
  "make_dirs done [] w = (Inr (), w)"
| "make_dirs done (c # p) w =
     (case fs w (done @ [c]) of
        Some Dir \<Rightarrow> make_dirs (done @ [c]) p w
      | Some _ \<Rightarrow> (Inl ErrOther, w)
      | None \<Rightarrow>
         (case fault w of
            (True, w1) \<Rightarrow> (Inl ErrOther, w1)
          | (False, w1) \<Rightarrow> make_dirs (done @ [c]) p (w1\<lparr>fs := (fs w1)(done @ [c] := Some Dir)\<rparr>)))"

definition os_MkdirAll :: "path \<Rightarrow> world \<Rightarrow> (oserr + unit) \<times> world" where
  "os_MkdirAll p w = make_dirs [] p w"

definition os_Rename :: "path \<Rightarrow> path \<Rightarrow> world \<Rightarrow> (oserr + unit) \<times> world" where
  "os_Rename old new w =
     (case fault w of
        (True, w1) \<Rightarrow> (Inl ErrOther, w1)
      | (False, w1) \<Rightarrow>
         (case look (fs w1) old of
            Found (File m d) \<Rightarrow>
              (if new = [] \<or> look (fs w1) (butlast new) \<noteq> Found Dir \<or> fs w1 new = Some Dir
               then (Inl ErrOther, w1)
               else (Inr (), w1\<lparr>fs := (fs w1)(old := None, new := Some (File m d))\<rparr>))
          | NotExist \<Rightarrow> (Inl ErrNotExist, w1)
          | _ \<Rightarrow> (Inl ErrOther, w1)))"

text \<open>\<open>os.WriteFile\<close>: the permissions of a new file are reduced by the mask of the process.\<close>

definition os_WriteFile :: "path \<Rightarrow> string \<Rightarrow> mode \<Rightarrow> world \<Rightarrow> (oserr + unit) \<times> world" where
  "os_WriteFile p d m w =
     (case fault w of
        (True, w1) \<Rightarrow> (Inl ErrOther, w1)
      | (False, w1) \<Rightarrow>
         (if p = [] \<or> look (fs w1) (butlast p) \<noteq> Found Dir then (Inl ErrOther, w1)
          else
            (case (case fs w1 p of None \<Rightarrow> Some (and m (not (umask w1))) | Some (File m' d') \<Rightarrow> Some m' | Some _ \<Rightarrow> None) of
               None \<Rightarrow> (Inl ErrOther, w1)
             | Some m1 \<Rightarrow>
                (case fault w1 of
                   (True, w2) \<Rightarrow> (Inl ErrOther, w2\<lparr>fs := (fs w2)(p := Some (File m1 []))\<rparr>)
                 | (False, w2) \<Rightarrow> (Inr (), w2\<lparr>fs := (fs w2)(p := Some (File m1 d))\<rparr>)))))"

text \<open>\<open>os.CreateTemp\<close> with a pattern that ends in \<open>*\<close>: an empty file with the first name that
  is not in use. \<open>file.Write\<close> and \<open>file.Chmod\<close> act on the file just created.\<close>

fun temp_name :: "(path \<Rightarrow> node option) \<Rightarrow> path \<Rightarrow> string \<Rightarrow> string list \<Rightarrow> (path \<times> string list) option" where
  "temp_name f dir prefix [] = None"
| "temp_name f dir prefix (r # rs) =
     (if f (dir @ [prefix @ r]) = None then Some (dir @ [prefix @ r], rs) else temp_name f dir prefix rs)"

definition os_CreateTemp :: "path \<Rightarrow> string \<Rightarrow> world \<Rightarrow> (oserr + path) \<times> world" where
  "os_CreateTemp dir prefix w =
     (case fault w of
        (True, w1) \<Rightarrow> (Inl ErrOther, w1)
      | (False, w1) \<Rightarrow>
         (if look (fs w1) dir \<noteq> Found Dir then (Inl ErrOther, w1)
          else case temp_name (fs w1) dir prefix (randoms w1) of
            None \<Rightarrow> (Inl ErrOther, w1)
          | Some (p, rs) \<Rightarrow> (Inr p, w1\<lparr>fs := (fs w1)(p := Some (File 0x180 [])), randoms := rs\<rparr>)))"

definition file_Write :: "path \<Rightarrow> string \<Rightarrow> world \<Rightarrow> (oserr + unit) \<times> world" where
  "file_Write p d w =
     (case fault w of
        (True, w1) \<Rightarrow> (Inl ErrOther, w1)
      | (False, w1) \<Rightarrow>
         (case fs w1 p of
            Some (File m _) \<Rightarrow> (Inr (), w1\<lparr>fs := (fs w1)(p := Some (File m d))\<rparr>)
          | _ \<Rightarrow> (Inr (), w1)))"

definition file_Chmod :: "path \<Rightarrow> mode \<Rightarrow> world \<Rightarrow> (oserr + unit) \<times> world" where
  "file_Chmod p m w =
     (case fault w of
        (True, w1) \<Rightarrow> (Inl ErrOther, w1)
      | (False, w1) \<Rightarrow>
         (case fs w1 p of
            Some (File _ d) \<Rightarrow> (Inr (), w1\<lparr>fs := (fs w1)(p := Some (File m d))\<rparr>)
          | _ \<Rightarrow> (Inr (), w1)))"

section \<open>What the calls do to the tree\<close>

lemma fault_same: "fault w = (b, w1) \<Longrightarrow> fs w1 = fs w \<and> umask w1 = umask w \<and> randoms w1 = randoms w"
  by (auto simp: fault_def split: list.splits)

lemma fs_fault [simp]: "fs (snd (fault w)) = fs w"
  by (auto simp: fault_def split: list.splits)

lemma tree_child: "tree f \<Longrightarrow> p \<noteq> [] \<Longrightarrow> f p \<noteq> None \<Longrightarrow> f (butlast p) = Some Dir"
  unfolding tree_def by (metis append_butlast_last_id)

lemma tree_remove: "tree f \<Longrightarrow> f p \<noteq> Some Dir \<Longrightarrow> tree (f(p := None))"
  unfolding tree_def by (auto; metis not_None_eq)

lemma tree_add: "tree f \<Longrightarrow> p \<noteq> [] \<Longrightarrow> f (butlast p) = Some Dir \<Longrightarrow> f p \<noteq> Some Dir \<Longrightarrow> tree (f(p := Some n))"
  by (auto simp: tree_def)

lemma os_Stat_cases:
  assumes "os_Stat p w = (r, w1)"
  shows "fs w1 = fs w" and "r = Inr n \<Longrightarrow> fs w p = Some n" and "tree (fs w) \<Longrightarrow> r = Inl ErrNotExist \<Longrightarrow> fs w p = None"
  using assms fault_same look_iff [of "fs w" p]
  by (auto simp: os_Stat_def dest: look_Found split: prod.splits bool.splits lookup.splits)

lemma os_ReadFile_cases:
  assumes "os_ReadFile p w = (r, w1)"
  shows "fs w1 = fs w" and "r = Inr d \<Longrightarrow> \<exists>m. fs w p = Some (File m d)"
  using assms fault_same
  by (auto simp: os_ReadFile_def dest: look_Found split: prod.splits bool.splits lookup.splits node.splits)

lemma os_Remove_cases:
  assumes "os_Remove p w = (r, w1)"
  shows "r = Inr () \<Longrightarrow> fs w1 = (fs w)(p := None) \<and> fs w p \<noteq> None \<and> fs w p \<noteq> Some Dir"
    and "r = Inl e \<Longrightarrow> fs w1 = fs w" and "tree (fs w) \<Longrightarrow> r = Inl ErrNotExist \<Longrightarrow> fs w p = None"
  using assms fault_same look_iff [of "fs w" p]
  by (auto simp: os_Remove_def dest: look_Found split: prod.splits bool.splits lookup.splits node.splits)

text \<open>A tree with more directories.\<close>

definition dirs_added :: "(path \<Rightarrow> node option) \<Rightarrow> (path \<Rightarrow> node option) \<Rightarrow> bool" where
  "dirs_added f g \<longleftrightarrow> (\<forall>q. g q = f q \<or> f q = None \<and> g q = Some Dir)"

lemma dirs_added_data: "dirs_added f g \<Longrightarrow> data_at g p = data_at f p"
  unfolding dirs_added_def data_at_def by (metis node.simps(8) option.simps(4,5))

lemma dirs_added_refl [simp]: "dirs_added f f"
  by (simp add: dirs_added_def)

lemma dirs_added_trans: "dirs_added f g \<Longrightarrow> dirs_added g h \<Longrightarrow> dirs_added f h"
  unfolding dirs_added_def by metis

lemma make_dirs_ok:
  "make_dirs q p w = (r, w1) \<Longrightarrow> tree (fs w) \<Longrightarrow> fs w q = Some Dir \<Longrightarrow>
   tree (fs w1) \<and> dirs_added (fs w) (fs w1) \<and> (r = Inr () \<longrightarrow> fs w1 (q @ p) = Some Dir)"
proof (induction p arbitrary: q w)
  case (Cons c p)
  show ?case
  proof (cases "fs w (q @ [c])")
    case None
    show ?thesis
    proof (cases "fault w")
      case (Pair b w0)
      have same: "fs w0 = fs w" using fault_same [OF Pair] by simp
      let ?w = "w0\<lparr>fs := (fs w0)(q @ [c] := Some Dir)\<rparr>"
      have t: "tree (fs ?w)" using tree_add [OF Cons.prems(2), of "q @ [c]"] Cons.prems(3) None same by simp
      have d: "dirs_added (fs w) (fs ?w)" using None same by (simp add: dirs_added_def)
      show ?thesis
      proof (cases b)
        case True
        with None Pair Cons.prems same show ?thesis by auto
      next
        case False
        have rec: "make_dirs (q @ [c]) p ?w = (r, w1)" using Cons.prems(1) None Pair False by simp
        have "tree (fs w1) \<and> dirs_added (fs ?w) (fs w1) \<and> (r = Inr () \<longrightarrow> fs w1 ((q @ [c]) @ p) = Some Dir)"
          by (rule Cons.IH [OF rec t]) simp
        with d show ?thesis using dirs_added_trans by auto
      qed
    qed
  next
    case (Some n)
    then show ?thesis using Cons.prems Cons.IH [of "q @ [c]" w] by (cases n) auto
  qed
qed auto

lemma os_MkdirAll_ok:
  "os_MkdirAll p w = (r, w1) \<Longrightarrow> tree (fs w) \<Longrightarrow>
   tree (fs w1) \<and> dirs_added (fs w) (fs w1) \<and> (r = Inr () \<longrightarrow> fs w1 p = Some Dir)"
  unfolding os_MkdirAll_def by (drule make_dirs_ok) (auto simp: tree_def)

lemma os_Rename_cases:
  assumes "os_Rename old new w = (r, w1)"
  shows "r = Inl e \<Longrightarrow> fs w1 = fs w"
    and "r = Inr () \<Longrightarrow> \<exists>m d. fs w old = Some (File m d) \<and> new \<noteq> [] \<and> fs w (butlast new) = Some Dir \<and>
      fs w new \<noteq> Some Dir \<and> fs w1 = (fs w)(old := None, new := Some (File m d))"
  using assms fault_same
  by (auto simp: os_Rename_def split: prod.splits bool.splits lookup.splits node.splits if_splits)
    (blast dest: look_Found)

lemma os_WriteFile_ok:
  assumes "os_WriteFile p d m w = (Inr (), w1)"
  shows "\<exists>m'. p \<noteq> [] \<and> fs w (butlast p) = Some Dir \<and> fs w p \<noteq> Some Dir \<and>
      fs w1 = (fs w)(p := Some (File m' d))"
  using assms fault_same
  by (fastforce simp: os_WriteFile_def dest: look_Found split: prod.splits bool.splits lookup.splits node.splits if_splits option.splits)

lemma tree_rename:
  assumes "tree f" and "f old = Some (File m d)" and "new \<noteq> []" and "f (butlast new) = Some Dir" and "f new \<noteq> Some Dir"
  shows "tree (f(old := None, new := Some (File m d)))"
proof (rule tree_add)
  show "tree (f(old := None))" using assms by (intro tree_remove) auto
qed (use assms in auto)

lemma temp_name_fresh:
  "temp_name f dir prefix rs = Some (p, rs') \<Longrightarrow> f p = None \<and> (\<exists>r. p = dir @ [prefix @ r])"
  by (induction rs) (auto split: if_splits)

lemma os_CreateTemp_ok:
  assumes "os_CreateTemp dir prefix w = (r, w1)"
  shows "r = Inl e \<Longrightarrow> fs w1 = fs w"
    and "r = Inr p \<Longrightarrow> fs w p = None \<and> (\<exists>x. p = dir @ [prefix @ x]) \<and> fs w dir = Some Dir \<and>
      fs w1 = (fs w)(p := Some (File 0x180 []))"
  using assms fault_same
  by (auto simp: os_CreateTemp_def dest: look_Found temp_name_fresh split: prod.splits bool.splits if_splits option.splits)

end
