(* ===== verification/Patch_Format_Props.thy ===== *)
theory Patch_Format_Props
  imports Patch_Format
begin

text \<open>
  What the patch parser promises: the documents it accepts are well formed, and a printed
  document is read back as it was.
\<close>

section \<open>Trimmed marker lines\<close>

text \<open>A path as a marker line carries it: not empty and without trailing white space.\<close>

definition wf_path :: "string \<Rightarrow> bool" where
  "wf_path p \<longleftrightarrow> p \<noteq> [] \<and> trim_right space_encodings p = p"

lemma trim_right_fixpoint_iff:
  "trim_right es s = s \<longleftrightarrow> strip_one (map rev es) (rev s) = None"
  unfolding trim_right_def by (metis rev_rev_ident trim_left_None trim_left_fixpoint)

lemma wf_path_append_tail:
  assumes "trim_right space_encodings (m @ p) = m @ p" and "p \<noteq> []"
  shows "wf_path p"
proof -
  have "strip_one (map rev space_encodings) (rev p @ rev m) = None"
    using assms(1) by (simp add: trim_right_fixpoint_iff)
  then have "strip_one (map rev space_encodings) (rev p) = None" by (rule strip_one_None_prefix)
  with assms(2) show ?thesis by (simp add: wf_path_def trim_right_fixpoint_iff)
qed

lemma no_inner_blank: "e \<in> set space_encodings \<Longrightarrow> e = [CHR 0x20] \<or> CHR 0x20 \<notin> set e"
  by (simp add: space_encodings_def) (elim disjE; simp)

lemma trim_right_marker:
  assumes "wf_path p"
  shows "trim_right space_encodings (m @ CHR 0x20 # p) = m @ CHR 0x20 # p"
proof -
  let ?R = "map rev space_encodings"
  have p: "p \<noteq> []" "strip_one ?R (rev p) = None"
    using assms by (simp_all add: wf_path_def trim_right_fixpoint_iff)
  have "rev p @ CHR 0x20 # rev m \<noteq> rev e @ r" if e: "e \<in> set space_encodings" "e \<noteq> []" for e r
  proof
    assume eq: "rev p @ CHR 0x20 # rev m = rev e @ r"
    have np: "rev p \<noteq> rev e @ r'" for r'
      using p(2) e unfolding strip_one_None by auto
    from eq obtain us where "rev p = rev e @ us \<and> us @ CHR 0x20 # rev m = r \<or>
        rev p @ us = rev e \<and> CHR 0x20 # rev m = us @ r"
      by (auto simp: append_eq_append_conv2)
    with np obtain v where v: "rev e = rev p @ CHR 0x20 # v"
      by (metis append.right_neutral append_eq_Cons_conv self_append_conv)
    then have "CHR 0x20 \<in> set e" by (metis in_set_conv_decomp set_rev)
    with no_inner_blank [OF e(1)] have "e = [CHR 0x20]" by blast
    with v p(1) show False by (simp add: Cons_eq_append_conv)
  qed
  then have "strip_one ?R (rev (m @ CHR 0x20 # p)) = None"
    unfolding strip_one_None by auto
  then show ?thesis by (simp add: trim_right_fixpoint_iff)
qed

lemma trim_left_visible: "visible c \<Longrightarrow> trim_left space_encodings (c # s) = c # s"
  using no_visible_encoding_ends
  by (intro trim_left_fixpoint strip_one_visible) (auto simp: list_all_iff)

lemma TrimSpace_marker:
  assumes "wf_path p" and "visible c"
  shows "TrimSpace (c # m @ CHR 0x20 # p) = c # m @ CHR 0x20 # p"
  using trim_right_marker [OF assms(1), of "c # m"] assms(2)
  by (simp add: TrimSpace_def trim_left_visible)

lemma TrimSpace_right_trimmed: "trim_right space_encodings (TrimSpace s) = TrimSpace s"
  unfolding TrimSpace_def by (simp add: trim_right_def trim_left_None trim_left_fixpoint)

lemma wf_path_TrimPrefix:
  assumes "HasPrefix (TrimSpace s) (m @ [CHR 0x20])"
  shows "wf_path (TrimPrefix (TrimSpace s) (m @ [CHR 0x20]))"
proof -
  obtain p where p: "TrimSpace s = (m @ [CHR 0x20]) @ p" using assms by (auto simp: HasPrefix_iff)
  have t: "trim_right space_encodings ((m @ [CHR 0x20]) @ p) = (m @ [CHR 0x20]) @ p"
    using TrimSpace_right_trimmed [of s] p by simp
  have "p \<noteq> []"
  proof
    assume "p = []"
    with t have "strip_one (map rev space_encodings) (CHR 0x20 # rev m) = None"
      by (simp add: trim_right_fixpoint_iff)
    then show False by (simp add: space_encodings_def)
  qed
  with t have "wf_path p" by (rule wf_path_append_tail)
  then show ?thesis unfolding p TrimPrefix_append .
qed

section \<open>Well-formed documents\<close>

definition change_text :: "ChangeLine \<Rightarrow> string" where
  "change_text c = (if EndOfFile c then ''*** End of File'' else Kind c # Content c)"

definition wf_change :: "ChangeLine \<Rightarrow> bool" where
  "wf_change c \<longleftrightarrow>
     c = end_of_file_line \<or>
     \<not> EndOfFile c \<and> Kind c \<in> {CHR '' '', CHR ''+'', CHR ''-'', CHR ''@''} \<and>
     TrimSpace (Kind c # Content c) \<noteq> ''*** End of File''"

fun wf_hunk :: "Hunk \<Rightarrow> bool" where
  "wf_hunk (AddFile p content) \<longleftrightarrow> wf_path p \<and> content \<noteq> []"
| "wf_hunk (DeleteFile p) \<longleftrightarrow> wf_path p"
| "wf_hunk (UpdateFile p m changes) \<longleftrightarrow>
     wf_path p \<and> (m = [] \<or> wf_path m) \<and> list_all wf_change changes \<and>
     (m \<noteq> [] \<or> changes \<noteq> [] \<and> \<not> HasPrefix (TrimSpace (change_text (hd changes))) ''*** Move to: '')"

lemma trim_left_Nil: "trim_left es s = [] \<Longrightarrow> s = [] \<or> (\<exists>e \<in> set es. e \<noteq> [] \<and> (\<exists>u. s = u @ e))"
proof (induction es s rule: trim_left.induct)
  case (1 es s)
  show ?case
  proof (cases "strip_one es s")
    case None
    with 1(2) show ?thesis by (simp add: trim_left.simps [of es s])
  next
    case (Some r)
    then obtain e where e: "e \<in> set es" "e \<noteq> []" "s = e @ r" using strip_one_Some by blast
    have "trim_left es r = []" using 1(2) Some by (simp add: trim_left.simps [of es s])
    with 1(1) [OF Some] consider "r = []" | e' u where "e' \<in> set es" "e' \<noteq> []" "r = u @ e'" by blast
    then show ?thesis
    proof cases
      case 1
      with e show ?thesis by auto
    next
      case 2
      with e show ?thesis by (metis append.assoc)
    qed
  qed
qed

lemma wf_path_not_blank: "wf_path p \<Longrightarrow> TrimSpace p \<noteq> []"
proof
  assume wf: "wf_path p" and "TrimSpace p = []"
  let ?l = "trim_left space_encodings p"
  have none: "rev p \<noteq> rev e @ r" if "e \<in> set space_encodings" "e \<noteq> []" for e r
    using wf that unfolding wf_path_def trim_right_fixpoint_iff strip_one_None by auto
  have tail: "\<not> (\<exists>u. p = u @ e)" if "e \<in> set space_encodings" "e \<noteq> []" for e
    using none [OF that] by (metis rev_append)
  obtain q where q: "p = q @ ?l" using trim_left_suffix by blast
  have "?l \<noteq> []" using trim_left_Nil [of space_encodings p] tail wf by (auto simp: wf_path_def)
  moreover have "trim_left (map rev space_encodings) (rev ?l) = []"
    using \<open>TrimSpace p = []\<close> by (simp add: TrimSpace_def trim_right_def)
  then have "strip_one (map rev space_encodings) (rev ?l) \<noteq> None"
    using \<open>?l \<noteq> []\<close> trim_left_fixpoint by fastforce
  then obtain e r where "e \<in> set space_encodings" "e \<noteq> []" "rev ?l = rev e @ r"
    using strip_one_Some by fastforce
  moreover from this(3) have "p = (q @ rev r) @ e" using q by (metis append.assoc rev_append rev_rev_ident)
  ultimately show False using tail by blast
qed

lemma parse_add_content: "parse_add s c = Inr (c', s') \<Longrightarrow> c \<noteq> [] \<Longrightarrow> c' \<noteq> []"
  by (induction s arbitrary: c) (fastforce split: if_splits)+

lemma parse_changes_wf:
  "parse_changes s c = Inr (c', s') \<Longrightarrow> list_all wf_change c \<Longrightarrow> list_all wf_change c'"
proof (induction s arbitrary: c)
  case (Cons n s)
  show ?case
  proof (cases "TrimSpace n = ''*** End of File''")
    case True
    with Cons.prems Cons.IH show ?thesis by (auto simp: wf_change_def)
  next
    case False
    show ?thesis
    proof (cases n)
      case Nil
      have "wf_change \<lparr>Kind = CHR '' '', Content = [], EndOfFile = False\<rparr>"
        by (simp add: wf_change_def go_string_eval)
      with Nil False Cons.prems Cons.IH show ?thesis by auto
    next
      case (Cons p content)
      have "wf_change \<lparr>Kind = p, Content = content, EndOfFile = False\<rparr>"
        if "p \<in> {CHR '' '', CHR ''+'', CHR ''-'', CHR ''@''}"
        using that False Cons by (simp add: wf_change_def)
      with Cons False Cons.prems Cons.IH show ?thesis by (fastforce split: if_splits)
    qed
  qed
qed simp

lemma parse_changes_prefix: "parse_changes s c = Inr (c', s') \<Longrightarrow> \<exists>d. c' = c @ d"
  by (induction s arbitrary: c) (fastforce split: if_splits list.splits)+

lemma change_text_trim:
  assumes "parse_changes (n # s) [] = Inr (c', s')" and "c' \<noteq> []"
  shows "TrimSpace (change_text (hd c')) = TrimSpace n"
proof (cases "TrimSpace n = ''*** End of File''")
  case True
  with assms obtain d where "c' = end_of_file_line # d" using parse_changes_prefix by fastforce
  then show ?thesis using True by (simp add: change_text_def end_of_file_line_def)
next
  case False
  show ?thesis
  proof (cases n)
    case Nil
    with False assms obtain d where "c' = \<lparr>Kind = CHR '' '', Content = [], EndOfFile = False\<rparr> # d"
      using parse_changes_prefix by fastforce
    then show ?thesis using Nil by (simp add: change_text_def go_string_eval)
  next
    case (Cons p content)
    with False assms obtain d where "c' = \<lparr>Kind = p, Content = content, EndOfFile = False\<rparr> # d"
      using parse_changes_prefix by (fastforce split: if_splits)
    then show ?thesis using Cons by (simp add: change_text_def)
  qed
qed

lemma parse_update_wf:
  assumes m: "parse_move s = (m, s1)" and c: "parse_changes s1 [] = Inr (changes, s')"
    and "\<not> (changes = [] \<and> blank m)" and "wf_path p"
  shows "wf_hunk (UpdateFile p m changes)"
proof -
  have "m = [] \<or> wf_path m"
    using m wf_path_TrimPrefix [where m = "''*** Move to:''"]
    by (auto simp: parse_move_def split: list.splits if_splits)
  moreover have "\<not> HasPrefix (TrimSpace (change_text (hd changes))) ''*** Move to: ''"
    if "m = []" and "changes \<noteq> []"
  proof -
    have "s1 \<noteq> []" using c that(2) by auto
    then obtain n s2 where s1: "s1 = n # s2" by (cases s1) auto
    have "TrimPrefix (TrimSpace x) ''*** Move to: '' \<noteq> []" if "HasPrefix (TrimSpace x) ''*** Move to: ''" for x
      using that wf_path_TrimPrefix [where m = "''*** Move to:''" and s = x] by (auto simp: wf_path_def)
    then have "\<not> HasPrefix (TrimSpace n) ''*** Move to: ''"
      using m that(1) s1
      by (auto simp: parse_move_def split: list.splits if_splits)
    then show ?thesis using change_text_trim [OF c [unfolded s1] that(2)] by simp
  qed
  moreover have "list_all wf_change changes" using parse_changes_wf [OF c] by simp
  ultimately show ?thesis using assms(3,4) by auto
qed

lemma parse_blocks_wf:
  "parse_blocks s hunks = Inr hunks' \<Longrightarrow> list_all wf_hunk hunks \<Longrightarrow> list_all wf_hunk hunks'"
proof (induction s arbitrary: hunks rule: length_induct)
  case (1 s)
  show ?case
  proof (cases s)
    case Nil
    with 1 show ?thesis by (simp add: parse_blocks.simps)
  next
    case (Cons raw s1)
    note IH = 1(1) [rule_format]
    note wf = wf_path_TrimPrefix [where s = raw]
    note r = 1(2) [unfolded Cons parse_blocks.simps Let_def]
    let ?line = "TrimSpace raw"
    consider (e) "?line = ''*** End Patch''"
      | (a) "?line \<noteq> ''*** End Patch''" "HasPrefix ?line ''*** Add File: ''"
      | (d) "?line \<noteq> ''*** End Patch''" "\<not> HasPrefix ?line ''*** Add File: ''"
          "HasPrefix ?line ''*** Delete File: ''"
      | (u) "?line \<noteq> ''*** End Patch''" "\<not> HasPrefix ?line ''*** Add File: ''"
          "\<not> HasPrefix ?line ''*** Delete File: ''" "HasPrefix ?line ''*** Update File: ''"
      using r by (auto split: if_splits)
    then show ?thesis
    proof cases
      case e
      with r 1(3) show ?thesis by (simp split: if_splits)
    next
      case a
      have p: "wf_path (TrimPrefix ?line ''*** Add File: '')"
        using wf [of "''*** Add File:''"] a(2) by simp
      from r a obtain c s2 where ps: "parse_add s1 [] = Inr (c, s2)" "c \<noteq> []"
        and rest: "parse_blocks s2 (hunks @ [AddFile (TrimPrefix ?line ''*** Add File: '') c]) = Inr hunks'"
        by (auto split: sum.splits if_splits)
      show ?thesis
        by (rule IH [OF _ rest]) (use p ps 1(3) parse_add_length [OF ps(1)] Cons in auto)
    next
      case d
      have p: "wf_path (TrimPrefix ?line ''*** Delete File: '')"
        using wf [of "''*** Delete File:''"] d(3) by simp
      from r d have rest: "parse_blocks s1 (hunks @ [DeleteFile (TrimPrefix ?line ''*** Delete File: '')]) = Inr hunks'"
        by simp
      show ?thesis by (rule IH [OF _ rest]) (use p 1(3) Cons in auto)
    next
      case u
      have p: "wf_path (TrimPrefix ?line ''*** Update File: '')"
        using wf [of "''*** Update File:''"] u(4) by simp
      from r u obtain m s2 c s3 where ps: "parse_move s1 = (m, s2)" "parse_changes s2 [] = Inr (c, s3)"
          "\<not> (c = [] \<and> blank m)"
        and rest: "parse_blocks s3 (hunks @ [UpdateFile (TrimPrefix ?line ''*** Update File: '') m c]) = Inr hunks'"
        by (auto split: sum.splits if_splits prod.splits)
      show ?thesis
        by (rule IH [OF _ rest])
          (use parse_update_wf [OF ps p] 1(3) parse_update_length [OF ps(1) [symmetric] ps(2)] Cons in auto)
    qed
  qed
qed

text \<open>C23: Every document that \<open>Parse\<close> returns is well-formed: paths are not empty and have no trailing white space, an
  added file has lines, and an update has a destination or changes, whose lines have one of the four
  prefixes.\<close>

theorem Parse_wf: "Parse src = Inr doc \<Longrightarrow> list_all wf_hunk (Hunks doc)"
  by (auto simp: Parse_def dest: parse_blocks_wf split: list.splits if_splits sum.splits)

section \<open>Printing a document\<close>

fun hunk_lines :: "Hunk \<Rightarrow> string list" where
  "hunk_lines (AddFile p content) = (''*** Add File: '' @ p) # map ((#) CHR ''+'') content"
| "hunk_lines (DeleteFile p) = [''*** Delete File: '' @ p]"
| "hunk_lines (UpdateFile p m changes) =
     (''*** Update File: '' @ p) # (if m = [] then [] else [''*** Move to: '' @ m]) @ map change_text changes"

definition document_lines :: "Document \<Rightarrow> string list" where
  "document_lines doc = ''*** Begin Patch'' # concat (map hunk_lines (Hunks doc)) @ [''*** End Patch'']"

definition print_document :: "Document \<Rightarrow> string" where
  "print_document doc = Join (document_lines doc) [nl]"

text \<open>The lines that end an add or update block.\<close>

definition marker_line :: "string \<Rightarrow> bool" where
  "marker_line n \<longleftrightarrow> HasPrefix n ''*** '' \<and> TrimSpace n \<noteq> ''*** End of File''"

lemma TrimSpace_markers [simp]:
  assumes "wf_path p"
  shows "TrimSpace (CHR ''*'' # CHR ''*'' # CHR ''*'' # CHR '' '' # CHR ''A'' # CHR ''d'' # CHR ''d'' # CHR '' '' # CHR ''F'' # CHR ''i'' # CHR ''l'' # CHR ''e'' # CHR '':'' # CHR '' '' # p) = ''*** Add File: '' @ p"
    and "TrimSpace (CHR ''*'' # CHR ''*'' # CHR ''*'' # CHR '' '' # CHR ''D'' # CHR ''e'' # CHR ''l'' # CHR ''e'' # CHR ''t'' # CHR ''e'' # CHR '' '' # CHR ''F'' # CHR ''i'' # CHR ''l'' # CHR ''e'' # CHR '':'' # CHR '' '' # p) = ''*** Delete File: '' @ p"
    and "TrimSpace (CHR ''*'' # CHR ''*'' # CHR ''*'' # CHR '' '' # CHR ''U'' # CHR ''p'' # CHR ''d'' # CHR ''a'' # CHR ''t'' # CHR ''e'' # CHR '' '' # CHR ''F'' # CHR ''i'' # CHR ''l'' # CHR ''e'' # CHR '':'' # CHR '' '' # p) = ''*** Update File: '' @ p"
    and "TrimSpace (CHR ''*'' # CHR ''*'' # CHR ''*'' # CHR '' '' # CHR ''M'' # CHR ''o'' # CHR ''v'' # CHR ''e'' # CHR '' '' # CHR ''t'' # CHR ''o'' # CHR '':'' # CHR '' '' # p) = ''*** Move to: '' @ p"
  using TrimSpace_marker [OF assms, of "CHR ''*''" "''** Add File:''"]
    TrimSpace_marker [OF assms, of "CHR ''*''" "''** Delete File:''"]
    TrimSpace_marker [OF assms, of "CHR ''*''" "''** Update File:''"]
    TrimSpace_marker [OF assms, of "CHR ''*''" "''** Move to:''"]
  by (simp_all add: visible_def)

lemma TrimSpace_End [simp]: "TrimSpace ''*** End Patch'' = ''*** End Patch''"
  by (rule TrimSpace_visible) (simp_all add: visible_def)

lemma marker_line_hunk: "wf_hunk h \<Longrightarrow> marker_line (hd (hunk_lines h @ s))"
  by (cases h) (simp_all add: marker_line_def HasPrefix_def)

lemma marker_line_End: "marker_line ''*** End Patch''"
  by (simp add: marker_line_def HasPrefix_def)

lemma parse_add_print:
  "marker_line n \<Longrightarrow> parse_add (map ((#) CHR ''+'') content @ n # s) acc = Inr (acc @ content, n # s)"
  by (induction content arbitrary: acc) (simp_all add: marker_line_def HasPrefix_def TrimPrefix_def)

lemma parse_changes_print:
  "marker_line n \<Longrightarrow> list_all wf_change changes \<Longrightarrow>
   parse_changes (map change_text changes @ n # s) acc = Inr (acc @ changes, n # s)"
proof (induction changes arbitrary: acc)
  case Nil
  then show ?case by (simp add: marker_line_def)
next
  case (Cons c cs)
  show ?case
  proof (cases "c = end_of_file_line")
    case True
    have "TrimSpace ''*** End of File'' = ''*** End of File''"
      by (rule TrimSpace_visible) (simp_all add: visible_def)
    with True Cons show ?thesis by (simp add: change_text_def end_of_file_line_def)
  next
    case False
    with Cons.prems have c: "\<not> EndOfFile c" "Kind c \<in> {CHR '' '', CHR ''+'', CHR ''-'', CHR ''@''}"
      "TrimSpace (Kind c # Content c) \<noteq> ''*** End of File''"
      by (auto simp: wf_change_def)
    have "c = \<lparr>Kind = Kind c, Content = Content c, EndOfFile = False\<rparr>" using c(1) by simp
    moreover have "\<not> HasPrefix (Kind c # Content c) ''*** ''" using c(2) by (auto simp: HasPrefix_def)
    ultimately show ?thesis using Cons c by (simp add: change_text_def)
  qed
qed

lemma parse_blocks_hunk:
  assumes "wf_hunk h" and n: "marker_line n"
  shows "parse_blocks (hunk_lines h @ n # s) hunks = parse_blocks (n # s) (hunks @ [h])"
proof (cases h)
  case (AddFile p content)
  with assms parse_add_print [OF n, of content s "[]"] show ?thesis
    by (simp add: parse_blocks.simps(2) [of "_ # _"] Let_def HasPrefix_def TrimPrefix_def)
next
  case (DeleteFile p)
  with assms show ?thesis
    by (simp add: parse_blocks.simps(2) [of "_ # _"] Let_def HasPrefix_def TrimPrefix_def)
next
  case (UpdateFile p m changes)
  have wf: "wf_path p" "m = [] \<or> wf_path m" "list_all wf_change changes"
    "m \<noteq> [] \<or> changes \<noteq> [] \<and> \<not> HasPrefix (TrimSpace (change_text (hd changes))) ''*** Move to: ''"
    using assms(1) UpdateFile by auto
  have mv: "parse_move ((if m = [] then [] else [''*** Move to: '' @ m]) @ map change_text changes @ n # s) =
      (m, map change_text changes @ n # s)"
  proof (cases "m = []")
    case True
    then show ?thesis using wf(4) by (cases changes) (auto simp: parse_move_def)
  next
    case False
    then show ?thesis using wf(2) by (simp add: parse_move_def HasPrefix_def TrimPrefix_def)
  qed
  have ne: "\<not> (changes = [] \<and> blank m)" using wf(2,4) wf_path_not_blank by blast
  have "hunk_lines h @ n # s = (''*** Update File: '' @ p) #
      (if m = [] then [] else [''*** Move to: '' @ m]) @ map change_text changes @ n # s"
    using UpdateFile by simp
  then show ?thesis
    using UpdateFile wf mv ne parse_changes_print [OF n wf(3), of s "[]"]
    by (simp add: parse_blocks.simps(2) [of "_ # _"] Let_def HasPrefix_def TrimPrefix_def del: if_split) blast
qed

lemma parse_blocks_print:
  "list_all wf_hunk hs \<Longrightarrow>
   parse_blocks (concat (map hunk_lines hs) @ [''*** End Patch'']) hunks = Inr (hunks @ hs)"
proof (induction hs arbitrary: hunks)
  case Nil
  then show ?case by (simp add: parse_blocks.simps Let_def)
next
  case (Cons h hs)
  obtain n s where n: "concat (map hunk_lines hs) @ [''*** End Patch''] = n # s" "marker_line n"
  proof (cases hs)
    case Nil
    then show ?thesis using that marker_line_End by simp
  next
    case (Cons h' hs')
    moreover obtain l ls where "hunk_lines h' = l # ls" by (cases h') auto
    ultimately show ?thesis
      using that [of l] marker_line_hunk [of h' "[]"] Cons.prems \<open>list_all wf_hunk (h # hs)\<close> by auto
  qed
  then show ?case using Cons parse_blocks_hunk [of h n s hunks] by simp
qed

lemma crlf_line:
  "\<exists>l \<in> set (SplitLines (u @ cr # nl # v)). l \<noteq> [] \<and> last l = cr"
proof (induction u)
  case (Cons c u)
  then obtain l where l: "l \<in> set (SplitLines (u @ cr # nl # v))" "l \<noteq> []" "last l = cr" by blast
  show ?case
  proof (cases "c = nl")
    case False
    obtain k ks where k: "SplitLines (u @ cr # nl # v) = k # ks"
      by (cases "SplitLines (u @ cr # nl # v)") auto
    with l False show ?thesis by (cases "l = k") auto
  qed (use l in auto)
qed (auto split: list.splits)

lemma no_crlf_Join: "ls \<noteq> [] \<Longrightarrow> list_all scannable ls \<Longrightarrow> \<not> Contains (Join ls [nl]) crlf"
proof
  assume ls: "ls \<noteq> []" "list_all scannable ls" and "Contains (Join ls [nl]) crlf"
  then obtain u v where uv: "Join ls [nl] = u @ cr # nl # v" by (auto simp: Contains_iff)
  have "SplitLines (Join ls [nl]) = ls"
    using ls by (intro SplitLines_Join) (auto simp: list_all_iff scannable_def)
  then show False using crlf_line [of u v] ls(2) uv by (auto simp: list_all_iff scannable_def)
qed

lemma last_Join: "ls \<noteq> [] \<Longrightarrow> last ls \<noteq> [] \<Longrightarrow> Join ls sep \<noteq> [] \<and> last (Join ls sep) = last (last ls)"
proof (induction ls)
  case (Cons l ls)
  then show ?case by (cases ls) simp_all
qed simp

text \<open>C20: Printing a well-formed document in the patch format and parsing it returns the document, when
  its lines can be scanned (shorter than the scanner's limit and without line ends inside).\<close>

theorem Parse_print:
  assumes "list_all wf_hunk (Hunks doc)" and "list_all scannable (document_lines doc)"
  shows "Parse (print_document doc) = Inr doc"
proof -
  let ?ls = "document_lines doc" and ?body = "concat (map hunk_lines (Hunks doc)) @ [''*** End Patch'']"
  have ls: "?ls = ''*** Begin Patch'' # ?body" and ne: "?ls \<noteq> []" "last ?ls = ''*** End Patch''"
    by (simp_all add: document_lines_def)
  have hd: "hd (print_document doc) = CHR ''*''"
    by (simp add: print_document_def ls Join_Cons)
  have "print_document doc \<noteq> [] \<and> last (print_document doc) = CHR ''h''"
    using last_Join [of ?ls "[nl]"] ne by (simp add: print_document_def)
  then have "TrimSpace (print_document doc) = print_document doc"
    using hd by (intro TrimSpace_visible) (simp_all add: visible_def)
  then have "splitRawLines (TrimSpace (print_document doc)) = ?ls"
    using no_crlf_Join [OF ne(1) assms(2)] ScanLines_Join [OF ne(1) _ assms(2)] ne(2)
    by (simp add: splitRawLines_def print_document_def ReplaceAll_absent)
  then have "patchBodyLines (print_document doc) = ?ls"
    by (simp add: patchBodyLines_def Let_def ls)
  moreover have "TrimSpace ''*** Begin Patch'' = ''*** Begin Patch''"
    by (rule TrimSpace_visible) (simp_all add: visible_def)
  ultimately show ?thesis
    using parse_blocks_print [OF assms(1), of "[]"] by (simp add: Parse_def ls)
qed

end
