(* ===== verification/Patch_Apply.thy ===== *)
theory Patch_Apply
  imports Patch_Format
begin

text \<open>
  The edit algorithm of the patch tool, \<open>src/server/tools/patch/tool_apply.go\<close>: change lines
  are grouped into hunks, the header of a hunk is parsed, the place of the hunk is searched
  in the current lines, and the hunk is applied there. Go's \<open>int\<close> is 64 bits wide; the
  positions that depend on the numbers of a header are wrapped with \<open>wrap64\<close>.
\<close>

section \<open>Failures\<close>

datatype failureKind =
    MalformedSyntax | ContentMismatch | OutOfBounds | NoPermission | UserDenied
  | ApprovalFailed | TargetMissing | TargetExists | Internal

text \<open>The texts of the reasons, with the values they quote.\<close>

datatype reason =
    HunkHeaderWithoutChanges
  | UnknownChangePrefix char
  | InvalidHunkHeader string
  | InvalidHunkNumber string string
  | ReferencesLine int nat
  | NoMatchNearby
  | ContextNotFound string
  | NoMatch
  | InvalidHunkStart int
  | ExpectedContextLine string
  | ExpectedDeletedLine string
  | HeaderCountMismatch nat int int nat nat
  | InHunk nat reason
  | PatchReason string

record failure =
  failure_Kind :: failureKind
  failure_Path :: string
  failure_Line :: int
  failure_NearLine :: bool
  failure_Reason :: reason

definition malformedFailure :: "reason \<Rightarrow> failure" where
  "malformedFailure r =
     \<lparr>failure_Kind = MalformedSyntax, failure_Path = [], failure_Line = 0, failure_NearLine = False, failure_Reason = r\<rparr>"

definition contentMismatchFailure :: "int \<Rightarrow> bool \<Rightarrow> reason \<Rightarrow> failure" where
  "contentMismatchFailure line near r =
     \<lparr>failure_Kind = ContentMismatch, failure_Path = [], failure_Line = line, failure_NearLine = near, failure_Reason = r\<rparr>"

definition outOfBoundsFailure :: "int \<Rightarrow> reason \<Rightarrow> failure" where
  "outOfBoundsFailure line r =
     \<lparr>failure_Kind = OutOfBounds, failure_Path = [], failure_Line = line, failure_NearLine = False, failure_Reason = r\<rparr>"

definition attachFailureReasonContext :: "nat \<Rightarrow> failure \<Rightarrow> failure" where
  "attachFailureReasonContext hunk f = f\<lparr>failure_Reason := InHunk hunk (failure_Reason f)\<rparr>"

definition attachFailurePath :: "failure \<Rightarrow> string \<Rightarrow> failure" where
  "attachFailurePath f path = (if \<not> blank (failure_Path f) then f else f\<lparr>failure_Path := path\<rparr>)"


section \<open>Lines of a file\<close>

definition splitLines :: "string \<Rightarrow> string list" where
  "splitLines s =
     (let s = TrimSuffix (ReplaceAll s crlf [nl]) [nl] in if s = [] then [] else SplitLines s)"

definition logicalLineCount :: "string \<Rightarrow> nat" where
  "logicalLineCount data =
     (if data = [] then 0
      else 1 + length (filter (\<lambda>i. data ! i = nl) [0..<length data - 1]))"


section \<open>Hunk headers\<close>

record hunkHeader =
  hasPosition :: bool
  header_context :: string
  oldStart :: int
  header_oldCount :: int
  newStart :: int
  header_newCount :: int

definition no_header :: hunkHeader where
  "no_header = \<lparr>hasPosition = False, header_context = [], oldStart = 0, header_oldCount = 0, newStart = 0, header_newCount = 0\<rparr>"

definition MaxInt :: int where
  "MaxInt = 2 ^ 63 - 1"

definition wrap64 :: "int \<Rightarrow> int" where
  "wrap64 x = (x + 2 ^ 63) mod 2 ^ 64 - 2 ^ 63"

definition isASCIIDigit :: "char \<Rightarrow> bool" where
  "isASCIIDigit c \<longleftrightarrow> (of_char CHR ''0'' :: nat) \<le> of_char c \<and> of_char c \<le> (of_char CHR ''9'' :: nat)"

definition digit_value :: "char \<Rightarrow> int" where
  "digit_value c = int (of_char c) - int (of_char CHR ''0'')"

text \<open>The parser of a header is the rest of the line behind its index. \<open>consume\<close> returns the
  new rest when the next byte is the expected one.\<close>

fun consume :: "string \<Rightarrow> char \<Rightarrow> string option" where
  "consume [] c = None"
| "consume (d # s) c = (if d = c then Some s else None)"

fun consume_all :: "string \<Rightarrow> string \<Rightarrow> string option" where
  "consume_all s [] = Some s"
| "consume_all s (c # cs) = (case consume s c of None \<Rightarrow> None | Some s' \<Rightarrow> consume_all s' cs)"

text \<open>The loop of \<open>decimal\<close>; \<open>None\<close> is the rejection of a number above \<open>math.MaxInt\<close>.\<close>

fun decimal_loop :: "int \<Rightarrow> string \<Rightarrow> (int \<times> string) option" where
  "decimal_loop v [] = Some (v, [])"
| "decimal_loop v (c # s) =
     (if \<not> isASCIIDigit c then Some (v, c # s)
      else if (MaxInt - digit_value c) div 10 < v then None
      else decimal_loop (v * 10 + digit_value c) s)"

definition decimal :: "string \<Rightarrow> string \<Rightarrow> string \<Rightarrow> failure + int \<times> string" where
  "decimal line label s =
     (if s = [] \<or> \<not> isASCIIDigit (hd s) then Inl (malformedFailure (InvalidHunkNumber label line))
      else case decimal_loop 0 s of
        None \<Rightarrow> Inl (malformedFailure (InvalidHunkNumber label line))
      | Some r \<Rightarrow> Inr r)"

text \<open>A number with an optional count behind a comma; the count is one by default.\<close>

definition decimal_range :: "string \<Rightarrow> string \<Rightarrow> string \<Rightarrow> string \<Rightarrow> failure + int \<times> int \<times> string" where
  "decimal_range line start_label count_label s =
     (case decimal line start_label s of
        Inl e \<Rightarrow> Inl e
      | Inr (start, s1) \<Rightarrow>
         (case consume s1 CHR '','' of
            None \<Rightarrow> Inr (start, 1, s1)
          | Some s2 \<Rightarrow>
             (case decimal line count_label s2 of
                Inl e \<Rightarrow> Inl e
              | Inr (n, s3) \<Rightarrow> Inr (start, n, s3))))"

definition parsePositionedHunkHeader :: "string \<Rightarrow> failure + hunkHeader" where
  "parsePositionedHunkHeader line =
     (let invalid = Inl (malformedFailure (InvalidHunkHeader line)) in
      case consume_all line ''@@ -'' of
        None \<Rightarrow> invalid
      | Some s1 \<Rightarrow>
         (case decimal_range line ''old start'' ''old count'' s1 of
            Inl e \<Rightarrow> Inl e
          | Inr (old_start, old_count, s2) \<Rightarrow>
             (case consume_all s2 '' +'' of
                None \<Rightarrow> invalid
              | Some s3 \<Rightarrow>
                 (case decimal_range line ''new start'' ''new count'' s3 of
                    Inl e \<Rightarrow> Inl e
                  | Inr (new_start, new_count, s4) \<Rightarrow>
                     (case consume_all s4 '' @@'' of
                        None \<Rightarrow> invalid
                      | Some s5 \<Rightarrow>
                         (if s5 \<noteq> [] \<and> consume s5 CHR '' '' = None then invalid
                          else Inr \<lparr>hasPosition = True, header_context = [], oldStart = old_start,
                            header_oldCount = old_count, newStart = new_start, header_newCount = new_count\<rparr>))))))"

definition isPositionedHunkHeader :: "string \<Rightarrow> bool" where
  "isPositionedHunkHeader line \<longleftrightarrow> take 4 line = ''@@ -''"

definition isContextHunkHeader :: "string \<Rightarrow> bool" where
  "isContextHunkHeader line \<longleftrightarrow> take 3 line = ''@@ ''"

definition parseHunkHeader :: "string \<Rightarrow> failure + hunkHeader" where
  "parseHunkHeader line =
     (let line = TrimSpace line in
      if line = ''@@'' then Inr no_header
      else if isPositionedHunkHeader line then parsePositionedHunkHeader line
      else if isContextHunkHeader line then Inr (no_header\<lparr>header_context := drop 3 line\<rparr>)
      else Inl (malformedFailure (InvalidHunkHeader line)))"


section \<open>Grouping the changes\<close>

record editHunk =
  hunk_header :: hunkHeader
  hunk_changes :: "ChangeLine list"
  hunk_endOfFile :: bool

definition empty_hunk :: editHunk where
  "empty_hunk = \<lparr>hunk_header = no_header, hunk_changes = [], hunk_endOfFile = False\<rparr>"

text \<open>The closure \<open>flush\<close> of \<open>parseEditHunks\<close>, on the hunks collected so far and the current one.\<close>

definition flush :: "editHunk list \<Rightarrow> editHunk \<Rightarrow> failure + editHunk list \<times> editHunk" where
  "flush hunks current =
     (if hunk_changes current = [] then
        (if hunk_endOfFile current then Inr (hunks @ [current], empty_hunk)
         else if hasPosition (hunk_header current) then Inl (malformedFailure HunkHeaderWithoutChanges)
         else Inr (hunks, current))
      else Inr (hunks @ [current], empty_hunk))"

fun group_changes :: "ChangeLine list \<Rightarrow> editHunk list \<Rightarrow> editHunk \<Rightarrow> failure + editHunk list" where
  "group_changes [] hunks current =
     (case flush hunks current of Inl e \<Rightarrow> Inl e | Inr (hunks', _) \<Rightarrow> Inr hunks')"
| "group_changes (ch # chs) hunks current =
     (if EndOfFile ch then group_changes chs hunks (current\<lparr>hunk_endOfFile := True\<rparr>)
      else if Kind ch = CHR ''@'' then
        (case flush hunks current of
           Inl e \<Rightarrow> Inl e
         | Inr (hunks', current') \<Rightarrow>
            (case parseHunkHeader (CHR ''@'' # Content ch) of
               Inl e \<Rightarrow> Inl e
             | Inr header \<Rightarrow> group_changes chs hunks' (current'\<lparr>hunk_header := header\<rparr>)))
      else if Kind ch \<in> {CHR '' '', CHR ''+'', CHR ''-''} then
        group_changes chs hunks (current\<lparr>hunk_changes := hunk_changes current @ [ch]\<rparr>)
      else Inl (malformedFailure (UnknownChangePrefix (Kind ch))))"

definition parseEditHunks :: "ChangeLine list \<Rightarrow> failure + editHunk list" where
  "parseEditHunks changes = (if changes = [] then Inr [] else group_changes changes [] empty_hunk)"


section \<open>Applying a hunk\<close>

text \<open>The loop of \<open>applyHunkAt\<close> over the changes: the cursor into the lines, the output and
  the counts of old and new lines.\<close>

fun apply_changes ::
  "string list \<Rightarrow> ChangeLine list \<Rightarrow> nat \<Rightarrow> string list \<Rightarrow> nat \<Rightarrow> nat \<Rightarrow> failure + string list \<times> nat \<times> nat" where
  "apply_changes lines [] cursor out oldCount newCount = Inr (out @ drop cursor lines, oldCount, newCount)"
| "apply_changes lines (ch # chs) cursor out oldCount newCount =
     (if Kind ch = CHR '' '' then
        (if length lines \<le> cursor \<or> lines ! cursor \<noteq> Content ch
         then Inl (contentMismatchFailure (int cursor + 1) False (ExpectedContextLine (Content ch)))
         else apply_changes lines chs (cursor + 1) (out @ [lines ! cursor]) (oldCount + 1) (newCount + 1))
      else if Kind ch = CHR ''-'' then
        (if length lines \<le> cursor \<or> lines ! cursor \<noteq> Content ch
         then Inl (contentMismatchFailure (int cursor + 1) False (ExpectedDeletedLine (Content ch)))
         else apply_changes lines chs (cursor + 1) out (oldCount + 1) newCount)
      else if Kind ch = CHR ''+'' then
        apply_changes lines chs cursor (out @ [Content ch]) oldCount (newCount + 1)
      else Inl (malformedFailure (UnknownChangePrefix (Kind ch))))"

definition applyHunkAt :: "string list \<Rightarrow> ChangeLine list \<Rightarrow> int \<Rightarrow> failure + string list \<times> nat \<times> nat" where
  "applyHunkAt lines changes start =
     (if start < 0 \<or> int (length lines) < start
      then Inl (outOfBoundsFailure (start + 1) (InvalidHunkStart start))
      else apply_changes lines changes (nat start) (take (nat start) lines) 0 0)"


section \<open>Finding the place of a hunk\<close>

definition hunkMaxFuzz :: int where
  "hunkMaxFuzz = 8"

definition lineMatches :: "string \<Rightarrow> string \<Rightarrow> bool" where
  "lineMatches actual expected \<longleftrightarrow>
     actual = expected \<or> TrimRight actual [CHR '' '', tab] = TrimRight expected [CHR '' '', tab] \<or>
     TrimSpace actual = TrimSpace expected"

definition oldLineCount :: "ChangeLine list \<Rightarrow> nat" where
  "oldLineCount changes = length (filter (\<lambda>ch. Kind ch \<in> {CHR '' '', CHR ''-''}) changes)"

definition matchAt :: "string list \<Rightarrow> ChangeLine list \<Rightarrow> int \<Rightarrow> bool" where
  "matchAt lines changes start = (case applyHunkAt lines changes start of Inl _ \<Rightarrow> False | Inr _ \<Rightarrow> True)"

text \<open>The candidates around an expected position, in the order they are tried.\<close>

definition fuzz_candidates :: "int \<Rightarrow> int list" where
  "fuzz_candidates expected =
     expected # concat (map (\<lambda>fuzz. [wrap64 (expected - fuzz), wrap64 (expected + fuzz)]) [1..hunkMaxFuzz])"

text \<open>The two search loops of a hunk without a position: the candidates from a start line on,
  and the start lines that match the context of the header.\<close>

definition search_from :: "string list \<Rightarrow> ChangeLine list \<Rightarrow> bool \<Rightarrow> nat \<Rightarrow> nat option" where
  "search_from lines changes endOfFile start =
     List.find (\<lambda>candidate.
         \<not> (endOfFile \<and> candidate + oldLineCount changes \<noteq> length lines) \<and> matchAt lines changes (int candidate))
       [start..<length lines + 1]"

fun context_search ::
  "string list \<Rightarrow> ChangeLine list \<Rightarrow> string \<Rightarrow> bool \<Rightarrow> nat list \<Rightarrow> nat option" where
  "context_search lines changes context endOfFile [] = None"
| "context_search lines changes context endOfFile (start # starts) =
     (case (if lineMatches (lines ! start) context then search_from lines changes endOfFile (start + 1) else None) of
        Some candidate \<Rightarrow> Some candidate
      | None \<Rightarrow> context_search lines changes context endOfFile starts)"

definition findHunkAnchor ::
  "string list \<Rightarrow> ChangeLine list \<Rightarrow> int \<Rightarrow> int \<Rightarrow> bool \<Rightarrow> string \<Rightarrow> bool \<Rightarrow> failure + int" where
  "findHunkAnchor lines changes expected floor anchored context endOfFile =
     (let maxStart = int (length lines);
          floor = (if floor < 0 then 0 else floor);
          floor = (if maxStart < floor then maxStart else floor) in
      if anchored then
        (if maxStart < expected
         then Inl (outOfBoundsFailure (wrap64 (expected + 1)) (ReferencesLine (wrap64 (expected + 1)) (length lines)))
         else case List.find (\<lambda>c. floor \<le> c \<and> c \<le> maxStart \<and> matchAt lines changes c) (fuzz_candidates expected) of
           Some c \<Rightarrow> Inr c
         | None \<Rightarrow> Inl (contentMismatchFailure (wrap64 (expected + 1)) True NoMatchNearby))
      else if \<not> blank context then
        (case context_search lines changes context endOfFile [nat floor..<length lines] of
           Some c \<Rightarrow> Inr (int c)
         | None \<Rightarrow> Inl (contentMismatchFailure 0 False (ContextNotFound context)))
      else
        (case search_from lines changes endOfFile (nat floor) of
           Some c \<Rightarrow> Inr (int c)
         | None \<Rightarrow> Inl (contentMismatchFailure 0 False NoMatch)))"


section \<open>Applying an edit\<close>

text \<open>The loop of \<open>applyEdit\<close> over the hunks, on the current lines, the offset the earlier
  hunks have added and the line behind the last change.\<close>

fun apply_hunks :: "nat \<Rightarrow> editHunk list \<Rightarrow> string list \<Rightarrow> int \<Rightarrow> int \<Rightarrow> failure + string list" where
  "apply_hunks idx [] current cumulativeOffset searchFloor = Inr current"
| "apply_hunks idx (h # hs) current cumulativeOffset searchFloor =
     (let header = hunk_header h;
          expected = (if hasPosition header then wrap64 (oldStart header - 1 + cumulativeOffset) else -1) in
      case findHunkAnchor current (hunk_changes h) expected searchFloor (hasPosition header)
             (header_context header) (hunk_endOfFile h) of
        Inl e \<Rightarrow> Inl (attachFailureReasonContext (idx + 1) e)
      | Inr anchor \<Rightarrow>
         (case applyHunkAt current (hunk_changes h) anchor of
            Inl e \<Rightarrow> Inl (attachFailureReasonContext (idx + 1) e)
          | Inr (next, oldCount, newCount) \<Rightarrow>
             (if hasPosition header \<and>
                 (int oldCount \<noteq> header_oldCount header \<or> int newCount \<noteq> header_newCount header)
              then Inl (malformedFailure (HeaderCountMismatch (idx + 1) (header_oldCount header)
                     (header_newCount header) oldCount newCount))
              else apply_hunks (idx + 1) hs next (cumulativeOffset + (int newCount - int oldCount))
                     (anchor + int newCount))))"

definition applyEdit :: "string list \<Rightarrow> ChangeLine list \<Rightarrow> failure + string list" where
  "applyEdit original changes =
     (case parseEditHunks changes of
        Inl e \<Rightarrow> Inl e
      | Inr hunks \<Rightarrow> apply_hunks 0 hunks original 0 0)"

end
