(* ===== verification/Patch_Apply_Props.thy ===== *)
theory Patch_Apply_Props
  imports Patch_Apply
begin

text \<open>
  Correctness of the patch edit algorithm. The relation \<open>edits\<close> is the abstract
  specification of what an edit does to a file: from left to right it replaces the old
  lines of each hunk by its new lines and leaves the lines between the hunks as they are.
  \<open>applyEdit\<close> refines it, and a patch whose headers give the exact positions is applied.
\<close>

section \<open>Decimal numbers of a header\<close>

definition digits_value :: "string \<Rightarrow> int" where
  "digits_value s = foldl (\<lambda>v c. v * 10 + digit_value c) 0 s"

lemma digit_bounds: "isASCIIDigit c \<Longrightarrow> 0 \<le> digit_value c \<and> digit_value c \<le> 9"
  by (auto simp: isASCIIDigit_def digit_value_def)

lemma foldl_digits_ge:
  "0 \<le> v \<Longrightarrow> list_all isASCIIDigit ds \<Longrightarrow> v \<le> foldl (\<lambda>v c. v * 10 + digit_value c) v ds"
proof (induction ds arbitrary: v)
  case (Cons c ds)
  then have "0 \<le> digit_value c" using digit_bounds by simp
  then have "v \<le> v * 10 + digit_value c" using Cons.prems(1) by simp
  also have "\<dots> \<le> foldl (\<lambda>v c. v * 10 + digit_value c) (v * 10 + digit_value c) ds"
    using Cons \<open>0 \<le> digit_value c\<close> by simp
  finally show ?case by simp
qed simp

lemma decimal_loop_digits:
  assumes "0 \<le> v" and "list_all isASCIIDigit ds" and "s = [] \<or> \<not> isASCIIDigit (hd s)" and "v \<le> MaxInt"
  shows "decimal_loop v (ds @ s) =
    (let n = foldl (\<lambda>v c. v * 10 + digit_value c) v ds in if n \<le> MaxInt then Some (n, s) else None)"
  using assms(1,2,4)
proof (induction ds arbitrary: v)
  case Nil
  with assms(3) show ?case by (cases s) simp_all
next
  case (Cons c ds)
  have d: "0 \<le> digit_value c" "digit_value c \<le> 9" "isASCIIDigit c"
    using Cons.prems(2) digit_bounds by simp_all
  have guard: "(MaxInt - digit_value c) div 10 < v \<longleftrightarrow> MaxInt < v * 10 + digit_value c" by linarith
  show ?case
  proof (cases "MaxInt < v * 10 + digit_value c")
    case True
    have "v * 10 + digit_value c \<le> foldl (\<lambda>v c. v * 10 + digit_value c) (v * 10 + digit_value c) ds"
      using Cons.prems d by (intro foldl_digits_ge) simp_all
    with True guard d show ?thesis by (simp add: Let_def)
  next
    case False
    with guard d Cons show ?thesis by (simp add: Let_def)
  qed
qed

text \<open>C21: The numbers of a hunk header are read exactly: a run of digits that ends there has its decimal
  value if that fits a 64-bit integer, and is rejected otherwise; no value wraps around.\<close>

theorem decimal_exact:
  assumes "ds \<noteq> []" and "list_all isASCIIDigit ds" and "s = [] \<or> \<not> isASCIIDigit (hd s)"
  shows "decimal line label (ds @ s) =
    (if digits_value ds \<le> MaxInt then Inr (digits_value ds, s)
     else Inl (malformedFailure (InvalidHunkNumber label line)))"
proof -
  have "isASCIIDigit (hd (ds @ s))" using assms(1,2) by (cases ds) simp_all
  moreover have "decimal_loop 0 (ds @ s) = (if digits_value ds \<le> MaxInt then Some (digits_value ds, s) else None)"
    using decimal_loop_digits [OF _ assms(2,3), of 0] by (simp add: MaxInt_def digits_value_def Let_def)
  ultimately show ?thesis using assms(1) by (simp add: decimal_def)
qed


section \<open>Applying one hunk\<close>

definition old_lines :: "ChangeLine list \<Rightarrow> string list" where
  "old_lines changes = map Content (filter (\<lambda>ch. Kind ch \<in> {CHR '' '', CHR ''-''}) changes)"

definition new_lines :: "ChangeLine list \<Rightarrow> string list" where
  "new_lines changes = map Content (filter (\<lambda>ch. Kind ch \<in> {CHR '' '', CHR ''+''}) changes)"

abbreviation edit_lines :: "ChangeLine list \<Rightarrow> bool" where
  "edit_lines changes \<equiv> list_all (\<lambda>ch. Kind ch \<in> {CHR '' '', CHR ''+'', CHR ''-''}) changes"

lemma apply_changes_iff:
  "apply_changes lines changes cursor out oc nc = Inr (res, oc', nc') \<longleftrightarrow>
     edit_lines changes \<and> (\<exists>rest. drop cursor lines = old_lines changes @ rest \<and>
       res = out @ new_lines changes @ rest) \<and>
     oc' = oc + length (old_lines changes) \<and> nc' = nc + length (new_lines changes)"
proof (induction changes arbitrary: cursor out oc nc)
  case Nil
  then show ?case by (auto simp: old_lines_def new_lines_def)
next
  case (Cons ch chs)
  have hit: "(\<exists>rest. drop cursor lines = Content ch # xs @ rest \<and> P rest) \<longleftrightarrow>
      \<not> (length lines \<le> cursor \<or> lines ! cursor \<noteq> Content ch) \<and>
      (\<exists>rest. drop (cursor + 1) lines = xs @ rest \<and> P rest)" for xs P
    by (cases "cursor < length lines") (auto simp: Cons_nth_drop_Suc [symmetric])
  consider "Kind ch = CHR '' ''" | "Kind ch = CHR ''-''" | "Kind ch = CHR ''+''"
    | "Kind ch \<notin> {CHR '' '', CHR ''+'', CHR ''-''}" by auto
  then show ?case
  proof cases
    case 1
    then show ?thesis using Cons.IH [of "cursor + 1" "out @ [lines ! cursor]" "oc + 1" "nc + 1"]
      by (auto simp: old_lines_def new_lines_def hit)
  next
    case 2
    then show ?thesis using Cons.IH [of "cursor + 1" out "oc + 1" nc]
      by (auto simp: old_lines_def new_lines_def hit)
  next
    case 3
    then show ?thesis using Cons.IH [of cursor "out @ [Content ch]" oc "nc + 1"]
      by (auto simp: old_lines_def new_lines_def)
  next
    case 4
    then show ?thesis by auto
  qed
qed

lemma applyHunkAt_iff:
  "applyHunkAt lines changes start = Inr (res, oc, nc) \<longleftrightarrow>
     0 \<le> start \<and> start \<le> int (length lines) \<and> edit_lines changes \<and>
     (\<exists>rest. drop (nat start) lines = old_lines changes @ rest \<and>
        res = take (nat start) lines @ new_lines changes @ rest) \<and>
     oc = length (old_lines changes) \<and> nc = length (new_lines changes)"
  by (auto simp: applyHunkAt_def apply_changes_iff)

lemma matchAt_iff:
  "matchAt lines changes start \<longleftrightarrow>
     0 \<le> start \<and> start \<le> int (length lines) \<and> edit_lines changes \<and>
     (\<exists>rest. drop (nat start) lines = old_lines changes @ rest)"
proof -
  have "matchAt lines changes start \<longleftrightarrow> (\<exists>res oc nc. applyHunkAt lines changes start = Inr (res, oc, nc))"
    unfolding matchAt_def by (cases "applyHunkAt lines changes start") auto
  then show ?thesis unfolding applyHunkAt_iff by blast
qed

section \<open>Where a hunk is applied\<close>

text \<open>The place of a hunk, behind the unchanged lines \<open>gap\<close>, at line \<open>pos\<close> (from zero) of a
  file of \<open>n\<close> lines: within the fuzz of a given position and with the given counts; at
  the end of the file when the hunk is so marked; behind a line that matches the context.\<close>

definition hunk_placed :: "editHunk \<Rightarrow> string list \<Rightarrow> nat \<Rightarrow> nat \<Rightarrow> bool" where
  "hunk_placed h gap pos n \<longleftrightarrow>
     (let header = hunk_header h; old = old_lines (hunk_changes h); new = new_lines (hunk_changes h) in
      if hasPosition header then
        \<bar>int pos - (oldStart header - 1)\<bar> \<le> hunkMaxFuzz \<and>
        int (length old) = header_oldCount header \<and> int (length new) = header_newCount header
      else
        (hunk_endOfFile h \<longrightarrow> pos + length old = n) \<and>
        (\<not> blank (header_context header) \<longrightarrow> (\<exists>l \<in> set gap. lineMatches l (header_context header))))"

text \<open>\<open>edits n xs hs ys\<close>: the lines \<open>xs\<close>, which start at line \<open>n\<close> of the file, become \<open>ys\<close>.\<close>

inductive edits :: "nat \<Rightarrow> string list \<Rightarrow> editHunk list \<Rightarrow> string list \<Rightarrow> bool" where
  edits_rest: "edits n xs [] xs"
| edits_hunk:
    "edit_lines (hunk_changes h) \<Longrightarrow>
     hunk_placed h gap (n + length gap) (n + length gap + length (old_lines (hunk_changes h)) + length rest) \<Longrightarrow>
     edits (n + length gap + length (old_lines (hunk_changes h))) rest hs ys \<Longrightarrow>
     edits n (gap @ old_lines (hunk_changes h) @ rest) (h # hs) (gap @ new_lines (hunk_changes h) @ ys)"

inductive_cases edits_NilE: "edits n xs [] ys"
inductive_cases edits_ConsE: "edits n xs (h # hs) ys"

lemma search_from_Some:
  "search_from lines changes eof start = Some c \<Longrightarrow>
   start \<le> c \<and> matchAt lines changes (int c) \<and> (eof \<longrightarrow> c + length (old_lines changes) = length lines)"
  by (auto simp: search_from_def find_Some_iff oldLineCount_def old_lines_def simp del: upt_Suc)

lemma context_search_Some:
  "context_search lines changes ctx eof starts = Some c \<Longrightarrow>
   \<exists>i \<in> set starts. i < c \<and> lineMatches (lines ! i) ctx \<and> matchAt lines changes (int c) \<and>
     (eof \<longrightarrow> c + length (old_lines changes) = length lines)"
proof (induction starts)
  case (Cons start starts)
  show ?case
  proof (cases "lineMatches (lines ! start) ctx")
    case True
    show ?thesis
    proof (cases "search_from lines changes eof (start + 1)")
      case None
      with True Cons show ?thesis by auto
    next
      case (Some d)
      with True Cons.prems search_from_Some [OF Some] show ?thesis by auto
    qed
  next
    case False
    with Cons show ?thesis by auto
  qed
qed simp

lemma findHunkAnchor_sound:
  assumes "findHunkAnchor lines changes expected (int floor) anchored ctx eof = Inr a"
    and "floor \<le> length lines"
  shows "int floor \<le> a" and "matchAt lines changes a"
    and "anchored \<Longrightarrow> a \<in> set (fuzz_candidates expected)"
    and "\<not> anchored \<Longrightarrow> eof \<Longrightarrow> nat a + length (old_lines changes) = length lines"
    and "\<not> anchored \<Longrightarrow> \<not> blank ctx \<Longrightarrow> \<exists>i. floor \<le> i \<and> int i < a \<and> lineMatches (lines ! i) ctx"
proof -
  have *: "int floor \<le> a \<and> matchAt lines changes a \<and> (anchored \<longrightarrow> a \<in> set (fuzz_candidates expected)) \<and>
    (\<not> anchored \<longrightarrow> eof \<longrightarrow> nat a + length (old_lines changes) = length lines) \<and>
    (\<not> anchored \<longrightarrow> \<not> blank ctx \<longrightarrow> (\<exists>i. floor \<le> i \<and> int i < a \<and> lineMatches (lines ! i) ctx))"
  proof (cases anchored)
    case True
    with assms show ?thesis
      by (auto simp: findHunkAnchor_def Let_def find_Some_iff split: if_splits option.splits)
  next
    case na: False
    show ?thesis
    proof (cases "blank ctx")
      case True
      with assms na show ?thesis
        by (auto simp: findHunkAnchor_def Let_def dest!: search_from_Some split: if_splits option.splits)
    next
      case False
      with assms na show ?thesis
        by (auto simp: findHunkAnchor_def Let_def dest!: context_search_Some split: if_splits option.splits)
    qed
  qed
  then show "int floor \<le> a" and "matchAt lines changes a"
    and "anchored \<Longrightarrow> a \<in> set (fuzz_candidates expected)"
    and "\<not> anchored \<Longrightarrow> eof \<Longrightarrow> nat a + length (old_lines changes) = length lines"
    and "\<not> anchored \<Longrightarrow> \<not> blank ctx \<Longrightarrow> \<exists>i. floor \<le> i \<and> int i < a \<and> lineMatches (lines ! i) ctx"
    by blast+
qed

lemma wrap64_dvd: "(2 ^ 64 :: int) dvd wrap64 x - x"
proof -
  have "wrap64 x - x = - (2 ^ 64 * ((x + 2 ^ 63) div 2 ^ 64))"
    by (simp add: wrap64_def minus_mult_div_eq_mod [symmetric])
  then show ?thesis by simp
qed

lemma wrap64_id: "- (2 ^ 63) \<le> x \<Longrightarrow> x < 2 ^ 63 \<Longrightarrow> wrap64 x = x"
  by (simp add: wrap64_def)

lemma fuzz_candidates_near:
  assumes "a \<in> set (fuzz_candidates (wrap64 e))" and "0 \<le> a" and "a \<le> 2 ^ 61" and "\<bar>e\<bar> \<le> 2 ^ 63 + 2 ^ 61"
  shows "\<bar>a - e\<bar> \<le> hunkMaxFuzz"
proof -
  obtain d where d: "\<bar>d\<bar> \<le> 8" "a = wrap64 (wrap64 e + d) \<or> a = wrap64 e + d"
    using assms(1) by (auto simp: fuzz_candidates_def hunkMaxFuzz_def) (smt (verit) diff_conv_add_uminus)+
  have "(2 ^ 64 :: int) dvd (a - (wrap64 e + d)) + (wrap64 e - e)"
  proof (rule dvd_add)
    show "(2 ^ 64 :: int) dvd a - (wrap64 e + d)" using d(2) wrap64_dvd [of "wrap64 e + d"] by auto
  qed (rule wrap64_dvd)
  then have dvd: "(2 ^ 64 :: int) dvd a - (e + d)" by (simp add: algebra_simps)
  have "\<bar>a - (e + d)\<bar> < 2 ^ 64" using assms(2-4) d(1) by auto
  then have "a - (e + d) = 0" using dvd zdvd_imp_le by fastforce
  then show ?thesis using d(1) by (simp add: hunkMaxFuzz_def)
qed

section \<open>The edit refines the specification\<close>

lemma decimal_loop_range: "decimal_loop v s = Some (n, r) \<Longrightarrow> 0 \<le> v \<Longrightarrow> v \<le> MaxInt \<Longrightarrow> 0 \<le> n \<and> n \<le> MaxInt"
proof (induction v s rule: decimal_loop.induct)
  case (2 v c s)
  show ?case
  proof (cases "isASCIIDigit c")
    case True
    with digit_bounds [OF True] 2 show ?thesis by (auto split: if_splits)
  qed (use 2 in auto)
qed simp

lemma decimal_range_bounds:
  "decimal_range line l1 l2 s = Inr (n, c, r) \<Longrightarrow> 0 \<le> n \<and> n \<le> MaxInt"
  by (auto simp: decimal_range_def decimal_def MaxInt_def
      dest!: decimal_loop_range split: sum.splits option.splits if_splits)

lemma parseHunkHeader_range:
  "parseHunkHeader line = Inr h \<Longrightarrow> 0 \<le> oldStart h \<and> oldStart h \<le> MaxInt"
  by (auto simp: parseHunkHeader_def parsePositionedHunkHeader_def Let_def no_header_def MaxInt_def
      dest!: decimal_range_bounds split: if_splits sum.splits option.splits)

definition hunk_ranged :: "editHunk \<Rightarrow> bool" where
  "hunk_ranged h \<longleftrightarrow> 0 \<le> oldStart (hunk_header h) \<and> oldStart (hunk_header h) \<le> MaxInt"

abbreviation change_count :: "editHunk list \<Rightarrow> nat" where
  "change_count hs \<equiv> sum_list (map (\<lambda>h. length (hunk_changes h)) hs)"

lemma hunk_ranged_empty [simp]: "hunk_ranged empty_hunk"
  by (simp add: hunk_ranged_def empty_hunk_def no_header_def MaxInt_def)

lemma flush_ok:
  assumes "flush hunks current = Inr (hunks', current')"
    and "list_all hunk_ranged hunks" and "hunk_ranged current"
  shows "list_all hunk_ranged hunks' \<and> hunk_ranged current' \<and>
    change_count hunks' + length (hunk_changes current') = change_count hunks + length (hunk_changes current)"
  using assms by (auto simp: flush_def empty_hunk_def hunk_ranged_def no_header_def MaxInt_def split: if_splits)

lemma group_changes_ok:
  "group_changes chs hunks current = Inr hs \<Longrightarrow> list_all hunk_ranged hunks \<Longrightarrow> hunk_ranged current \<Longrightarrow>
   list_all hunk_ranged hs \<and> change_count hs \<le> change_count hunks + length (hunk_changes current) + length chs"
proof (induction chs arbitrary: hunks current)
  case Nil
  then obtain current' where "flush hunks current = Inr (hs, current')" by (auto split: sum.splits)
  from flush_ok [OF this Nil(2,3)] show ?case by auto
next
  case (Cons ch chs)
  show ?case
  proof (cases "EndOfFile ch")
    case True
    with Cons.prems Cons.IH [of hunks "current\<lparr>hunk_endOfFile := True\<rparr>"] show ?thesis
      by (simp add: hunk_ranged_def)
  next
    case ne: False
    show ?thesis
    proof (cases "Kind ch = CHR ''@''")
      case True
      with Cons.prems ne obtain hunks' current' header where
        f: "flush hunks current = Inr (hunks', current')"
        and h: "parseHunkHeader (CHR ''@'' # Content ch) = Inr header"
        and r: "group_changes chs hunks' (current'\<lparr>hunk_header := header\<rparr>) = Inr hs"
        by (auto split: sum.splits)
      have "hunk_ranged (current'\<lparr>hunk_header := header\<rparr>)"
        using parseHunkHeader_range [OF h] by (simp add: hunk_ranged_def)
      with Cons.IH [OF r] flush_ok [OF f Cons.prems(2,3)] show ?thesis by simp
    next
      case False
      with Cons.prems ne Cons.IH [of hunks "current\<lparr>hunk_changes := hunk_changes current @ [ch]\<rparr>"]
      show ?thesis by (simp add: hunk_ranged_def split: if_splits)
    qed
  qed
qed

lemma parseEditHunks_ok:
  "parseEditHunks changes = Inr hs \<Longrightarrow> list_all hunk_ranged hs \<and> change_count hs \<le> length changes"
  using group_changes_ok [of changes "[]" empty_hunk hs]
  by (auto simp: parseEditHunks_def empty_hunk_def [THEN arg_cong, of hunk_changes] split: if_splits)

lemma length_new_lines: "length (new_lines changes) \<le> length changes"
  by (simp add: new_lines_def)

lemma apply_hunks_edits:
  assumes "apply_hunks idx hs (done @ todo) (int (length done) - int n) (int (length done)) = Inr res"
    and "list_all hunk_ranged hs"
    and "length done + length todo + change_count hs \<le> 2 ^ 61" and "n + length todo \<le> 2 ^ 61"
  shows "\<exists>ys. res = done @ ys \<and> edits n todo hs ys"
  using assms
proof (induction hs arbitrary: idx "done" todo n)
  case Nil
  then show ?case by (auto intro: edits_rest)
next
  case (Cons h hs)
  let ?old = "old_lines (hunk_changes h)" and ?new = "new_lines (hunk_changes h)" and ?H = "hunk_header h"
  let ?e = "oldStart ?H - 1 + (int (length done) - int n)"
  from Cons.prems(1) obtain a nxt oc nc where
    anchor: "findHunkAnchor (done @ todo) (hunk_changes h) (if hasPosition ?H then wrap64 ?e else -1)
      (int (length done)) (hasPosition ?H) (header_context ?H) (hunk_endOfFile h) = Inr a"
    and app: "applyHunkAt (done @ todo) (hunk_changes h) a = Inr (nxt, oc, nc)"
    and counts: "hasPosition ?H \<longrightarrow> int oc = header_oldCount ?H \<and> int nc = header_newCount ?H"
    and rec: "apply_hunks (idx + 1) hs nxt (int (length done) - int n + (int nc - int oc)) (a + int nc) = Inr res"
    by (auto simp: Let_def split: sum.splits if_splits)
  have le: "length done \<le> length (done @ todo)" by simp
  note place = findHunkAnchor_sound [OF anchor le]
  from app obtain rest where a: "0 \<le> a" "a \<le> int (length (done @ todo))"
    and el: "edit_lines (hunk_changes h)" and rest: "drop (nat a) (done @ todo) = ?old @ rest"
    and nxt: "nxt = take (nat a) (done @ todo) @ ?new @ rest" and oc: "oc = length ?old" and nc: "nc = length ?new"
    unfolding applyHunkAt_iff by blast
  define gap where "gap = take (nat a - length done) todo"
  have ad: "nat a = length done + length gap" using place(1) a by (auto simp: gap_def)
  then have ai: "a = int (length done) + int (length gap)" using a(1) by simp
  have tk: "take (nat a) (done @ todo) = done @ gap" using place(1) by (simp add: gap_def)
  have "done @ todo = (done @ gap) @ ?old @ rest" using tk rest append_take_drop_id [of "nat a" "done @ todo"] by simp
  then have todo: "todo = gap @ ?old @ rest" by simp
  have placed: "hunk_placed h gap (n + length gap) (n + length gap + length ?old + length rest)"
  proof (cases "hasPosition ?H")
    case True
    have "\<bar>a - ?e\<bar> \<le> hunkMaxFuzz"
    proof (rule fuzz_candidates_near)
      show "a \<in> set (fuzz_candidates (wrap64 ?e))" using place(3) True by simp
      show "a \<le> 2 ^ 61" using a Cons.prems(3) by simp
      show "\<bar>?e\<bar> \<le> 2 ^ 63 + 2 ^ 61"
        using Cons.prems(2-4) by (auto simp: hunk_ranged_def MaxInt_def)
    qed (rule a(1))
    then have "\<bar>int (n + length gap) - (oldStart ?H - 1)\<bar> \<le> hunkMaxFuzz" using ad a(1) by (simp add: algebra_simps)
    with True counts oc nc show ?thesis by (simp add: hunk_placed_def Let_def)
  next
    case False
    have "n + length gap + length ?old = n + length gap + length ?old + length rest" if "hunk_endOfFile h"
      using place(4) [OF False that] ad todo by simp
    moreover have "\<exists>l \<in> set gap. lineMatches l (header_context ?H)" if ctx: "\<not> blank (header_context ?H)"
    proof -
      obtain i where i: "length done \<le> i" "int i < a" "lineMatches ((done @ todo) ! i) (header_context ?H)"
        using place(5) [OF False ctx] by blast
      then have "i - length done < length gap" using ad by simp
      moreover have "(done @ todo) ! i = gap ! (i - length done)"
        using i(1) calculation by (simp add: nth_append todo)
      ultimately show ?thesis using i(3) by (metis nth_mem)
    qed
    ultimately show ?thesis using False by (simp add: hunk_placed_def Let_def)
  qed
  have "apply_hunks (idx + 1) hs ((done @ gap @ ?new) @ rest)
      (int (length (done @ gap @ ?new)) - int (n + length gap + length ?old))
      (int (length (done @ gap @ ?new))) = Inr res"
    using rec nxt tk oc nc by (simp add: ai algebra_simps)
  from Cons.IH [OF this] obtain ys where "res = (done @ gap @ ?new) @ ys" "edits (n + length gap + length ?old) rest hs ys"
    using Cons.prems(2-4) length_new_lines [of "hunk_changes h"] todo by auto
  then show ?case using edits_hunk [OF el placed] todo by auto
qed

text \<open>C12: A successful application of changes is one of the edits that the hunks allow: the hunks follow
  each other, between them the lines of the file are kept, at each hunk its old lines stand in the
  file and are replaced by its new lines, each hunk lies where its header, its context or the end
  of the file says, and the counts of a header are those of its lines.\<close>

theorem applyEdit_edits:
  assumes "applyEdit original changes = Inr result" and "length original + length changes \<le> 2 ^ 61"
  shows "\<exists>hunks. parseEditHunks changes = Inr hunks \<and> edits 0 original hunks result"
proof -
  obtain hunks where h: "parseEditHunks changes = Inr hunks"
    and r: "apply_hunks 0 hunks ([] @ original) (int (length ([] :: string list)) - int 0) (int (length ([] :: string list))) = Inr result"
    using assms(1) by (auto simp: applyEdit_def split: sum.splits)
  have "\<exists>ys. result = [] @ ys \<and> edits 0 original hunks ys"
    by (rule apply_hunks_edits [OF r]) (use parseEditHunks_ok [OF h] assms(2) in auto)
  with h show ?thesis by auto
qed

section \<open>Unified diffs are applied\<close>

text \<open>The decimal notation of a number, and the header and the changes of the hunks of a
  unified diff. A diff is a list of regions: the unchanged lines before a hunk, and its changes.\<close>

fun decimal_text :: "nat \<Rightarrow> string" where
  "decimal_text n =
     (if n < 10 then [char_of (48 + n)] else decimal_text (n div 10) @ [char_of (48 + n mod 10)])"

declare decimal_text.simps [simp del]

definition range_text :: "nat \<Rightarrow> nat \<Rightarrow> string" where
  "range_text start n = decimal_text start @ '','' @ decimal_text n"

definition header_line :: "nat \<Rightarrow> nat \<Rightarrow> nat \<Rightarrow> nat \<Rightarrow> ChangeLine" where
  "header_line old_start old_count new_start new_count =
     \<lparr>Kind = CHR ''@'',
      Content = ''@ -'' @ range_text old_start old_count @ '' +'' @ range_text new_start new_count @ '' @@'',
      EndOfFile = False\<rparr>"

fun unified_diff :: "nat \<Rightarrow> nat \<Rightarrow> (string list \<times> ChangeLine list) list \<Rightarrow> ChangeLine list" where
  "unified_diff n m [] = []"
| "unified_diff n m ((gap, changes) # regions) =
     (let old = length (old_lines changes); new = length (new_lines changes) in
      header_line (n + length gap + 1) old (m + length gap + 1) new # changes @
      unified_diff (n + length gap + old) (m + length gap + new) regions)"

fun old_text :: "(string list \<times> ChangeLine list) list \<Rightarrow> string list \<Rightarrow> string list" where
  "old_text [] rest = rest"
| "old_text ((gap, changes) # regions) rest = gap @ old_lines changes @ old_text regions rest"

fun new_text :: "(string list \<times> ChangeLine list) list \<Rightarrow> string list \<Rightarrow> string list" where
  "new_text [] rest = rest"
| "new_text ((gap, changes) # regions) rest = gap @ new_lines changes @ new_text regions rest"

text \<open>A hunk of a unified diff changes at least one line of the old text.\<close>

definition diff_region :: "string list \<times> ChangeLine list \<Rightarrow> bool" where
  "diff_region r \<longleftrightarrow>
     old_lines (snd r) \<noteq> [] \<and> edit_lines (snd r) \<and> list_all (\<lambda>ch. \<not> EndOfFile ch) (snd r)"

lemma digit_char: "n < 10 \<Longrightarrow> isASCIIDigit (char_of (48 + n)) \<and> digit_value (char_of (48 + n)) = int n"
  by (simp add: isASCIIDigit_def digit_value_def)

lemma decimal_text_ok:
  "decimal_text n \<noteq> [] \<and> list_all isASCIIDigit (decimal_text n) \<and> digits_value (decimal_text n) = int n"
proof (induction n rule: decimal_text.induct)
  case (1 n)
  show ?case
  proof (cases "n < 10")
    case True
    then show ?thesis using digit_char [of n] by (subst (1 2 3) decimal_text.simps) (simp add: digits_value_def)
  next
    case False
    have "int n = int (n div 10) * 10 + int (n mod 10)" by presburger
    then show ?thesis
      using False 1 digit_char [of "n mod 10"] by (subst (1 2 3) decimal_text.simps) (simp add: digits_value_def)
  qed
qed

lemma decimal_decimal_text:
  "s = [] \<or> \<not> isASCIIDigit (hd s) \<Longrightarrow> int n \<le> MaxInt \<Longrightarrow> decimal line label (decimal_text n @ s) = Inr (int n, s)"
  using decimal_text_ok [of n] decimal_exact by auto

lemma decimal_range_text:
  assumes "s = [] \<or> \<not> isASCIIDigit (hd s)" and "int a \<le> MaxInt" and "int b \<le> MaxInt"
  shows "decimal_range line l1 l2 (range_text a b @ s) = Inr (int a, int b, s)"
proof -
  have "decimal line l1 (decimal_text a @ CHR '','' # decimal_text b @ s) = Inr (int a, CHR '','' # decimal_text b @ s)"
    by (rule decimal_decimal_text) (use assms in \<open>auto simp: isASCIIDigit_def\<close>)
  moreover have "decimal line l2 (decimal_text b @ s) = Inr (int b, s)"
    by (rule decimal_decimal_text) (use assms in auto)
  ultimately show ?thesis by (simp add: decimal_range_def range_text_def)
qed

lemma parse_header_line:
  assumes "int a \<le> MaxInt" and "int b \<le> MaxInt" and "int c \<le> MaxInt" and "int d \<le> MaxInt"
  shows "parseHunkHeader (CHR ''@'' # Content (header_line a b c d)) =
    Inr \<lparr>hasPosition = True, header_context = [], oldStart = int a, header_oldCount = int b,
      newStart = int c, header_newCount = int d\<rparr>"
proof -
  let ?line = "CHR ''@'' # Content (header_line a b c d)"
  have "TrimSpace ?line = ?line"
    by (rule TrimSpace_visible) (simp_all add: header_line_def visible_def)
  moreover have "consume_all ?line ''@@ -'' =
      Some (range_text a b @ '' +'' @ range_text c d @ '' @@'')"
    by (simp add: header_line_def)
  moreover have "decimal_range ?line l1 l2 (range_text a b @ '' +'' @ range_text c d @ '' @@'') =
      Inr (int a, int b, '' +'' @ range_text c d @ '' @@'')" for l1 l2
    by (rule decimal_range_text) (use assms in \<open>auto simp: isASCIIDigit_def\<close>)
  moreover have "decimal_range ?line l1 l2 (range_text c d @ '' @@'') = Inr (int c, int d, '' @@'')" for l1 l2
    by (rule decimal_range_text) (use assms in \<open>auto simp: isASCIIDigit_def\<close>)
  moreover have "isPositionedHunkHeader ?line" "?line \<noteq> ''@@''"
    by (simp_all add: isPositionedHunkHeader_def header_line_def)
  ultimately show ?thesis by (simp add: parseHunkHeader_def parsePositionedHunkHeader_def Let_def)
qed

text \<open>The hunks of a unified diff.\<close>

fun diff_hunks :: "nat \<Rightarrow> nat \<Rightarrow> (string list \<times> ChangeLine list) list \<Rightarrow> editHunk list" where
  "diff_hunks n m [] = []"
| "diff_hunks n m ((gap, changes) # regions) =
     (let old = length (old_lines changes); new = length (new_lines changes) in
      \<lparr>hunk_header = \<lparr>hasPosition = True, header_context = [], oldStart = int (n + length gap + 1),
         header_oldCount = int old, newStart = int (m + length gap + 1), header_newCount = int new\<rparr>,
       hunk_changes = changes, hunk_endOfFile = False\<rparr> #
      diff_hunks (n + length gap + old) (m + length gap + new) regions)"

lemma group_changes_lines:
  "edit_lines changes \<Longrightarrow> list_all (\<lambda>ch. \<not> EndOfFile ch) changes \<Longrightarrow>
   group_changes (changes @ chs) hunks current =
     group_changes chs hunks (current\<lparr>hunk_changes := hunk_changes current @ changes\<rparr>)"
proof (induction changes arbitrary: current)
  case (Cons ch changes)
  then have "Kind ch \<noteq> CHR ''@''" by auto
  with Cons show ?case by auto
qed simp

lemma group_unified_diff:
  assumes "list_all diff_region regions"
    and "n + length (old_text regions []) < 2 ^ 62" and "m + length (new_text regions []) < 2 ^ 62"
    and "flush hunks current = Inr (hunks', empty_hunk)"
  shows "group_changes (unified_diff n m regions) hunks current = Inr (hunks' @ diff_hunks n m regions)"
  using assms
proof (induction regions arbitrary: n m hunks current hunks')
  case (Cons r regions)
  obtain gap changes where r: "r = (gap, changes)" by (cases r)
  let ?old = "length (old_lines changes)" and ?new = "length (new_lines changes)"
  let ?h = "\<lparr>hasPosition = True, header_context = [], oldStart = int (n + length gap + 1),
    header_oldCount = int ?old, newStart = int (m + length gap + 1), header_newCount = int ?new\<rparr>"
  let ?cur = "\<lparr>hunk_header = ?h, hunk_changes = changes, hunk_endOfFile = False\<rparr>"
  have region: "changes \<noteq> []" "edit_lines changes" "list_all (\<lambda>ch. \<not> EndOfFile ch) changes"
    using Cons.prems(1) by (auto simp: r diff_region_def old_lines_def)
  have bounds: "n + length gap + ?old + length (old_text regions []) < 2 ^ 62"
    "m + length gap + ?new + length (new_text regions []) < 2 ^ 62"
    using Cons.prems(2,3) by (auto simp: r)
  have hdr: "parseHunkHeader (CHR ''@'' # Content (header_line (n + length gap + 1) ?old (m + length gap + 1) ?new)) = Inr ?h"
    by (rule parse_header_line) (use bounds in \<open>auto simp: MaxInt_def\<close>)
  have fl: "flush hunks' ?cur = Inr (hunks' @ [?cur], empty_hunk)" using region(1) by (simp add: flush_def)
  have IH: "group_changes (unified_diff (n + length gap + ?old) (m + length gap + ?new) regions) hunks' ?cur =
      Inr ((hunks' @ [?cur]) @ diff_hunks (n + length gap + ?old) (m + length gap + ?new) regions)"
    by (rule Cons.IH [OF _ _ _ fl]) (use Cons.prems(1) bounds in auto)
  have "empty_hunk\<lparr>hunk_header := ?h, hunk_changes := hunk_changes (empty_hunk\<lparr>hunk_header := ?h\<rparr>) @ changes\<rparr> = ?cur"
    by (simp add: empty_hunk_def)
  with IH hdr Cons.prems(4) group_changes_lines [OF region(2,3)] show ?case
    by (simp add: r Let_def header_line_def)
qed simp

lemma findHunkAnchor_exact:
  assumes "matchAt lines changes e" and "floor \<le> e" and "0 \<le> floor"
  shows "findHunkAnchor lines changes e floor True ctx eof = Inr e"
proof -
  have "e \<le> int (length lines)" using assms(1) by (simp add: matchAt_iff)
  with assms show ?thesis by (simp add: findHunkAnchor_def fuzz_candidates_def Let_def)
qed

lemma apply_diff_hunks:
  assumes "list_all diff_region regions"
    and "length done + length (new_text regions rest) < 2 ^ 62" and "n + length (old_text regions rest) < 2 ^ 62"
  shows "apply_hunks idx (diff_hunks n (length done) regions) (done @ old_text regions rest)
    (int (length done) - int n) (int (length done)) = Inr (done @ new_text regions rest)"
  using assms
proof (induction regions arbitrary: idx "done" n)
  case (Cons r regions)
  obtain gap changes where r: "r = (gap, changes)" by (cases r)
  let ?tail = "old_text regions rest" and ?old = "old_lines changes" and ?new = "new_lines changes"
  let ?cur = "done @ gap @ ?old @ ?tail" and ?a = "int (length (done @ gap))"
  have el: "edit_lines changes" using Cons.prems(1) by (simp add: r diff_region_def)
  have app: "applyHunkAt ?cur changes ?a = Inr ((done @ gap @ ?new) @ ?tail, length ?old, length ?new)"
    unfolding applyHunkAt_iff using el by simp
  then have m: "matchAt ?cur changes ?a" by (simp add: matchAt_def)
  have e: "wrap64 (int (n + length gap + 1) - 1 + (int (length done) - int n)) = ?a"
    using Cons.prems(2) by (subst wrap64_id) (auto simp: r)
  have anchor: "findHunkAnchor ?cur changes ?a (int (length done)) True [] False = Inr ?a"
    by (rule findHunkAnchor_exact [OF m]) simp_all
  have IH: "apply_hunks (idx + 1) (diff_hunks (n + length gap + length ?old) (length (done @ gap @ ?new)) regions)
      ((done @ gap @ ?new) @ ?tail) (int (length (done @ gap @ ?new)) - int (n + length gap + length ?old))
      (int (length (done @ gap @ ?new))) = Inr ((done @ gap @ ?new) @ new_text regions rest)"
    by (rule Cons.IH) (use Cons.prems in \<open>auto simp: r\<close>)
  have off: "int (length done) - int n + (int (length ?new) - int (length ?old)) =
      int (length (done @ gap @ ?new)) - int (n + length gap + length ?old)"
    and fl: "?a + int (length ?new) = int (length (done @ gap @ ?new))"
    and ln: "length done + length gap + length ?new = length (done @ gap @ ?new)" by simp_all
  have "diff_hunks n (length done) (r # regions) =
      \<lparr>hunk_header = \<lparr>hasPosition = True, header_context = [], oldStart = int (n + length gap + 1),
         header_oldCount = int (length ?old), newStart = int (length done + length gap + 1), header_newCount = int (length ?new)\<rparr>,
       hunk_changes = changes, hunk_endOfFile = False\<rparr> #
      diff_hunks (n + length gap + length ?old) (length (done @ gap @ ?new)) regions"
    by (simp add: r Let_def add.assoc)
  then have "apply_hunks idx (diff_hunks n (length done) (r # regions)) ?cur (int (length done) - int n) (int (length done)) =
      apply_hunks (idx + 1) (diff_hunks (n + length gap + length ?old) (length (done @ gap @ ?new)) regions)
      ((done @ gap @ ?new) @ ?tail) (int (length (done @ gap @ ?new)) - int (n + length gap + length ?old))
      (int (length (done @ gap @ ?new)))"
    unfolding off [symmetric] fl [symmetric]
    by (simp only: apply_hunks.simps Let_def editHunk.simps hunkHeader.simps if_True e anchor app sum.case prod.case) (simp add: algebra_simps)
  with IH show ?case by (simp add: r)
qed simp

text \<open>C19: A diff whose headers give the first line of each hunk (from one, in the old text) and its counts
  always applies, and turns the old text into exactly the new text.\<close>

theorem applyEdit_unified_diff:
  assumes "list_all diff_region regions"
    and "length (old_text regions rest) < 2 ^ 62" and "length (new_text regions rest) < 2 ^ 62"
  shows "applyEdit (old_text regions rest) (unified_diff 0 0 regions) = Inr (new_text regions rest)"
proof -
  have sz: "length (old_text regions []) \<le> length (old_text regions rest)"
    "length (new_text regions []) \<le> length (new_text regions rest)"
    by (induction regions) auto
  have "group_changes (unified_diff 0 0 regions) [] empty_hunk = Inr ([] @ diff_hunks 0 0 regions)"
    by (rule group_unified_diff) (use assms sz in \<open>auto simp: flush_def empty_hunk_def no_header_def\<close>)
  then have "parseEditHunks (unified_diff 0 0 regions) = Inr (diff_hunks 0 0 regions)"
    by (cases regions) (auto simp: parseEditHunks_def Let_def)
  then show ?thesis
    using apply_diff_hunks [OF assms(1), of "[]" rest 0 0] assms(2,3) by (simp add: applyEdit_def)
qed

end
