(* ===== verification/Patch_Commit.thy ===== *)
theory Patch_Commit
  imports Patch_Apply Os_Files
begin

text \<open>
  The patch tool behind the parser: the pending file states and deletions
  (\<open>src/server/tools/patch/tool_state.go\<close>), staging and committing them with a roll-back
  (\<open>tool_commit.go\<close>), and \<open>apply\<close> of \<open>tool.go\<close>.

  The file access policy is a parameter: \<open>resolve\<close> stands for \<open>Tool.resolvePath\<close> (the
  resolution of a requested path and its authorization) and \<open>validate\<close> for
  \<open>revalidateCommitPath\<close>. Both may depend on the current file tree.
\<close>

type_synonym resolver = "(path \<Rightarrow> node option) \<Rightarrow> string \<Rightarrow> bool \<Rightarrow> failure + path"
type_synonym validator = "(path \<Rightarrow> node option) \<Rightarrow> path \<Rightarrow> bool"


section \<open>Snapshots\<close>

record fileSnapshot =
  snap_Exists :: bool
  snap_Mode :: mode
  snap_Data :: string

definition no_snapshot :: fileSnapshot where
  "no_snapshot = \<lparr>snap_Exists = False, snap_Mode = 0, snap_Data = []\<rparr>"

definition captureSnapshot :: "path \<Rightarrow> world \<Rightarrow> (oserr + fileSnapshot) \<times> world" where
  "captureSnapshot p w =
     (case os_Stat p w of
        (Inl ErrNotExist, w1) \<Rightarrow> (Inr no_snapshot, w1)
      | (Inl ErrOther, w1) \<Rightarrow> (Inl ErrOther, w1)
      | (Inr (File m _), w1) \<Rightarrow>
         (case os_ReadFile p w1 of
            (Inl e, w2) \<Rightarrow> (Inl e, w2)
          | (Inr d, w2) \<Rightarrow> (Inr \<lparr>snap_Exists = True, snap_Mode = m, snap_Data = d\<rparr>, w2))
      | (Inr _, w1) \<Rightarrow> (Inl ErrOther, w1))"

definition rollback_tmp :: "path \<Rightarrow> path" where
  "rollback_tmp p = (if p = [] then [''.kent.rollback.tmp''] else butlast p @ [last p @ ''.kent.rollback.tmp''])"

definition restoreSnapshot :: "path \<Rightarrow> fileSnapshot \<Rightarrow> world \<Rightarrow> (oserr + unit) \<times> world" where
  "restoreSnapshot p snap w =
     (if \<not> snap_Exists snap then
        (case os_Remove p w of
           (Inl ErrOther, w1) \<Rightarrow> (Inl ErrOther, w1)
         | (_, w1) \<Rightarrow> (Inr (), w1))
      else
        (case os_MkdirAll (butlast p) w of
           (Inl e, w1) \<Rightarrow> (Inl e, w1)
         | (Inr _, w1) \<Rightarrow>
            (case os_WriteFile (rollback_tmp p) (snap_Data snap) (snap_Mode snap) w1 of
               (Inl e, w2) \<Rightarrow> (Inl e, w2)
             | (Inr _, w2) \<Rightarrow>
                (case os_Rename (rollback_tmp p) p w2 of
                   (Inl e, w3) \<Rightarrow> (Inl e, snd (os_Remove (rollback_tmp p) w3))
                 | (Inr _, w3) \<Rightarrow> (Inr (), w3)))))"


section \<open>Committing\<close>

record patchFileState =
  st_Exists :: bool
  st_Content :: "string list"
  st_Mode :: mode
  st_NewPath :: path
  st_Original :: path
  st_StagedPath :: "path option"

record WholeFileDeletionFact =
  fact_FirstOperation :: nat
  fact_OperationIDs :: "nat list"
  fact_Removed :: nat

datatype label = DeleteTarget | MovedSource

datatype commitCause =
    AccessDenied path
  | SnapshotFailed label path
  | RemoveFailed label path
  | ParentDirFailed path
  | TargetSnapshotFailed path
  | CommitWriteFailed path

datatype rollbackCause =
    RollbackDenied path
  | RestoreFailed path

text \<open>The error of a commit: the primary error, joined with the errors of the roll-back.\<close>

datatype commitError = CommitError commitCause "rollbackCause list"

record commit =
  committed :: "(path \<times> fileSnapshot) list"
  removed :: "(path \<times> fileSnapshot) list"
  removedPaths :: "path list"

definition new_commit :: commit where
  "new_commit = \<lparr>committed = [], removed = [], removedPaths = []\<rparr>"

fun restore_entries :: "validator \<Rightarrow> (path \<times> fileSnapshot) list \<Rightarrow> world \<Rightarrow> rollbackCause list \<times> world" where
  "restore_entries validate [] w = ([], w)"
| "restore_entries validate ((p, prior) # entries) w =
     (if \<not> validate (fs w) p then
        (case restore_entries validate entries w of (errs, w') \<Rightarrow> (RollbackDenied p # errs, w'))
      else
        (case restoreSnapshot p prior w of
           (Inl e, w1) \<Rightarrow> (case restore_entries validate entries w1 of (errs, w') \<Rightarrow> (RestoreFailed p # errs, w'))
         | (Inr _, w1) \<Rightarrow> restore_entries validate entries w1))"

definition rollback :: "validator \<Rightarrow> commit \<Rightarrow> world \<Rightarrow> rollbackCause list \<times> world" where
  "rollback validate c w =
     (case restore_entries validate (rev (committed c)) w of
        (errs1, w1) \<Rightarrow>
         (case restore_entries validate (rev (removed c)) w1 of (errs2, w2) \<Rightarrow> (errs1 @ errs2, w2)))"

definition rollbackAfterFailure :: "validator \<Rightarrow> commit \<Rightarrow> commitCause \<Rightarrow> world \<Rightarrow> (commitError + 'a) \<times> world" where
  "rollbackAfterFailure validate c primary w =
     (case rollback validate c w of (errs, w') \<Rightarrow> (Inl (CommitError primary errs), w'))"

definition removePath ::
  "validator \<Rightarrow> path \<Rightarrow> label \<Rightarrow> commit \<Rightarrow> world \<Rightarrow> (commitError + fileSnapshot \<times> commit) \<times> world" where
  "removePath validate p label c w =
     (if p \<in> set (removedPaths c) then (Inr (no_snapshot, c), w)
      else if \<not> validate (fs w) p then rollbackAfterFailure validate c (AccessDenied p) w
      else case captureSnapshot p w of
        (Inl e, w1) \<Rightarrow> rollbackAfterFailure validate c (SnapshotFailed label p) w1
      | (Inr prior, w1) \<Rightarrow>
         (let c1 = c\<lparr>removedPaths := p # removedPaths c\<rparr> in
          if \<not> snap_Exists prior then (Inr (prior, c1), w1)
          else if \<not> validate (fs w1) p then rollbackAfterFailure validate c1 (AccessDenied p) w1
          else case os_Remove p w1 of
            (Inl e, w2) \<Rightarrow> rollbackAfterFailure validate c1 (RemoveFailed label p) w2
          | (Inr _, w2) \<Rightarrow> (Inr (prior, c1\<lparr>removed := removed c1 @ [(p, prior)]\<rparr>), w2)))"

fun commit_deletes ::
  "validator \<Rightarrow> (path, nat list) gomap \<Rightarrow> path list \<Rightarrow> commit \<Rightarrow> WholeFileDeletionFact list \<Rightarrow> world \<Rightarrow>
   (commitError + commit \<times> WholeFileDeletionFact list) \<times> world" where
  "commit_deletes validate targets [] c facts w = (Inr (c, facts), w)"
| "commit_deletes validate targets (p # ps) c facts w =
     (case removePath validate p DeleteTarget c w of
        (Inl e, w1) \<Rightarrow> (Inl e, w1)
      | (Inr (prior, c1), w1) \<Rightarrow>
         (let ids = mget_list targets p;
              facts1 = (if snap_Exists prior \<and> ids \<noteq> []
                        then facts @ [\<lparr>fact_FirstOperation = hd ids, fact_OperationIDs = ids,
                                       fact_Removed = logicalLineCount (snap_Data prior)\<rparr>]
                        else facts) in
          commit_deletes validate targets ps c1 facts1 w1))"

fun commit_moves :: "validator \<Rightarrow> patchFileState list \<Rightarrow> commit \<Rightarrow> world \<Rightarrow> (commitError + commit) \<times> world" where
  "commit_moves validate [] c w = (Inr c, w)"
| "commit_moves validate (s # ss) c w =
     (if st_NewPath s = st_Original s then commit_moves validate ss c w
      else case removePath validate (st_Original s) MovedSource c w of
        (Inl e, w1) \<Rightarrow> (Inl e, w1)
      | (Inr (_, c1), w1) \<Rightarrow> commit_moves validate ss c1 w1)"

definition commit_write :: "validator \<Rightarrow> patchFileState \<Rightarrow> commit \<Rightarrow> world \<Rightarrow> (commitError + commit) \<times> world" where
  "commit_write validate s c w =
     (let p = st_NewPath s in
      if \<not> validate (fs w) p then rollbackAfterFailure validate c (AccessDenied p) w
      else case os_MkdirAll (butlast p) w of
        (Inl e, w1) \<Rightarrow> rollbackAfterFailure validate c (ParentDirFailed p) w1
      | (Inr _, w1) \<Rightarrow>
         (if \<not> validate (fs w1) p then rollbackAfterFailure validate c (AccessDenied p) w1
          else case captureSnapshot p w1 of
            (Inl e, w2) \<Rightarrow> rollbackAfterFailure validate c (TargetSnapshotFailed p) w2
          | (Inr prior, w2) \<Rightarrow>
             (if \<not> validate (fs w2) p then rollbackAfterFailure validate c (AccessDenied p) w2
              else case (case st_StagedPath s of None \<Rightarrow> (Inl ErrNotExist, w2) | Some q \<Rightarrow> os_Rename q p w2) of
                (Inl e, w3) \<Rightarrow> rollbackAfterFailure validate c (CommitWriteFailed p) w3
              | (Inr _, w3) \<Rightarrow> (Inr (c\<lparr>committed := committed c @ [(p, prior)]\<rparr>), w3))))"

fun commit_writes :: "validator \<Rightarrow> patchFileState list \<Rightarrow> commit \<Rightarrow> world \<Rightarrow> (commitError + commit) \<times> world" where
  "commit_writes validate [] c w = (Inr c, w)"
| "commit_writes validate (s # ss) c w =
     (case commit_write validate s c w of
        (Inl e, w1) \<Rightarrow> (Inl e, w1)
      | (Inr c1, w1) \<Rightarrow> commit_writes validate ss c1 w1)"

definition commitStagedFiles ::
  "validator \<Rightarrow> patchFileState list \<Rightarrow> (path, nat list) gomap \<Rightarrow> world \<Rightarrow>
   (commitError + WholeFileDeletionFact list) \<times> world" where
  "commitStagedFiles validate states targets w =
     (case commit_deletes validate targets (sort_key path_text (mkeys targets)) new_commit [] w of
        (Inl e, w1) \<Rightarrow> (Inl e, w1)
      | (Inr (c1, facts), w1) \<Rightarrow>
         (case commit_moves validate states c1 w1 of
            (Inl e, w2) \<Rightarrow> (Inl e, w2)
          | (Inr c2, w2) \<Rightarrow>
             (case commit_writes validate states c2 w2 of
                (Inl e, w3) \<Rightarrow> (Inl e, w3)
              | (Inr _, w3) \<Rightarrow> (Inr (sort_key fact_FirstOperation facts), w3))))"

section \<open>Staging\<close>

function nearestExistingDirectory :: "path \<Rightarrow> world \<Rightarrow> (oserr + path) \<times> world" where
  "nearestExistingDirectory current w =
     (case os_Stat current w of
        (Inr Dir, w1) \<Rightarrow> (Inr current, w1)
      | (Inl ErrOther, w1) \<Rightarrow> (Inl ErrOther, w1)
      | (_, w1) \<Rightarrow>
         (if current = [] then (Inl ErrOther, w1) else nearestExistingDirectory (butlast current) w1))"
  by pat_completeness auto
termination
  by (relation "measure (\<lambda>(p, w). length p)") auto

declare nearestExistingDirectory.simps [simp del]

definition stage_prefix :: "path \<Rightarrow> string" where
  "stage_prefix p =
     (let base = (if p = [] then [] else TrimSpace (last p)) in
      if base = [] \<or> base = ''.'' then ''.kent-patch-'' else ''.kent-patch-'' @ base @ ''-'')"

definition createStagedFile :: "path \<Rightarrow> string \<Rightarrow> mode \<Rightarrow> world \<Rightarrow> (oserr + path) \<times> world" where
  "createStagedFile target text m w =
     (case nearestExistingDirectory (butlast target) w of
        (Inl e, w1) \<Rightarrow> (Inl e, w1)
      | (Inr dir, w1) \<Rightarrow>
         (case os_CreateTemp dir (stage_prefix target) w1 of
            (Inl e, w2) \<Rightarrow> (Inl e, w2)
          | (Inr p, w2) \<Rightarrow>
             (case file_Write p text w2 of
                (Inl e, w3) \<Rightarrow> (Inl e, snd (os_Remove p w3))
              | (Inr _, w3) \<Rightarrow>
                 (case file_Chmod p m w3 of
                    (Inl e, w4) \<Rightarrow> (Inl e, snd (os_Remove p w4))
                  | (Inr _, w4) \<Rightarrow>
                     (case fault w4 of
                        (True, w5) \<Rightarrow> (Inl ErrOther, snd (os_Remove p w5))
                      | (False, w5) \<Rightarrow> (Inr p, w5))))))"

definition sortedCommitStates :: "(path, patchFileState) gomap \<Rightarrow> patchFileState list" where
  "sortedCommitStates state = sort_key (\<lambda>s. path_text (st_NewPath s)) (map snd state)"

fun cleanupStagedFiles :: "patchFileState list \<Rightarrow> world \<Rightarrow> world" where
  "cleanupStagedFiles [] w = w"
| "cleanupStagedFiles (s # ss) w =
     (case st_StagedPath s of
        None \<Rightarrow> cleanupStagedFiles ss w
      | Some p \<Rightarrow> cleanupStagedFiles ss (snd (os_Remove p w)))"

text \<open>The text of a file with the given lines.\<close>

definition commit_text :: "string list \<Rightarrow> string" where
  "commit_text lines =
     (let text = Join lines [nl] in
      if lines \<noteq> [] \<and> \<not> HasSuffix text [nl] then text @ [nl] else text)"

definition internalFailure :: "path \<Rightarrow> string \<Rightarrow> failure" where
  "internalFailure p r =
     \<lparr>failure_Kind = Internal, failure_Path = path_text p, failure_Line = 0, failure_NearLine = False, failure_Reason = PatchReason r\<rparr>"

datatype applyError = PatchFailure failure | CommitFailure commitError

text \<open>The loop of \<open>prepareCommitStates\<close>: the states staged so far and those to come.\<close>

fun prepare_states ::
  "validator \<Rightarrow> patchFileState list \<Rightarrow> patchFileState list \<Rightarrow> world \<Rightarrow> (applyError + patchFileState list) \<times> world" where
  "prepare_states validate staged [] w = (Inr staged, w)"
| "prepare_states validate staged (s # ss) w =
     (if \<not> validate (fs w) (st_NewPath s)
      then (Inl (CommitFailure (CommitError (AccessDenied (st_NewPath s)) [])), cleanupStagedFiles (staged @ s # ss) w)
      else case createStagedFile (st_NewPath s) (commit_text (st_Content s)) (st_Mode s) w of
        (Inl e, w1) \<Rightarrow>
          (Inl (PatchFailure (internalFailure (st_NewPath s) ''stage write failed'')), cleanupStagedFiles (staged @ s # ss) w1)
      | (Inr p, w1) \<Rightarrow> prepare_states validate (staged @ [s\<lparr>st_StagedPath := Some p\<rparr>]) ss w1)"

definition prepareCommitStates ::
  "validator \<Rightarrow> (path, patchFileState) gomap \<Rightarrow> world \<Rightarrow> (applyError + patchFileState list) \<times> world" where
  "prepareCommitStates validate state w = prepare_states validate [] (sortedCommitStates state) w"


section \<open>The pending changes of a patch\<close>

record applyState =
  state :: "(path, patchFileState) gomap"
  deleteTargets :: "(path, nat list) gomap"

definition newApplyState :: applyState where
  "newApplyState = \<lparr>state = [], deleteTargets = []\<rparr>"

definition hasDeletedAncestor :: "applyState \<Rightarrow> path \<Rightarrow> bool" where
  "hasDeletedAncestor s p = list_ex (\<lambda>i. mhas (deleteTargets s) (take i p)) (rev [0..<length p])"

definition path_failure :: "failureKind \<Rightarrow> string \<Rightarrow> string \<Rightarrow> failure" where
  "path_failure k p r =
     \<lparr>failure_Kind = k, failure_Path = p, failure_Line = 0, failure_NearLine = False, failure_Reason = PatchReason r\<rparr>"

text \<open>The check of \<open>addFile\<close> and \<open>updateFile\<close> that a target can be created: it does not exist, or a
  deletion earlier in the patch makes room for it.\<close>

definition check_target :: "applyState \<Rightarrow> path \<Rightarrow> string \<Rightarrow> string \<Rightarrow> string \<Rightarrow> world \<Rightarrow> failure option \<times> world" where
  "check_target s target requested exists_reason stat_reason w =
     (let allowReplacement = mhas (deleteTargets s) target; allowBlockedAncestor = hasDeletedAncestor s target in
      case os_Stat target w of
        (Inr _, w1) \<Rightarrow> (if \<not> allowReplacement then Some (path_failure TargetExists requested exists_reason) else None, w1)
      | (Inl ErrNotExist, w1) \<Rightarrow> (None, w1)
      | (Inl ErrOther, w1) \<Rightarrow>
          (if \<not> allowReplacement \<and> \<not> allowBlockedAncestor then Some (path_failure Internal requested stat_reason) else None, w1))"

definition addFile :: "resolver \<Rightarrow> string \<Rightarrow> string list \<Rightarrow> applyState \<Rightarrow> world \<Rightarrow> (failure + applyState) \<times> world" where
  "addFile resolve p content s w =
     (case resolve (fs w) p False of
        Inl e \<Rightarrow> (Inl e, w)
      | Inr target \<Rightarrow>
         (if mhas (state s) target
          then (Inl (path_failure TargetExists p ''patch already referenced this path earlier in the same patch''), w)
          else case check_target s target p ''cannot add a file over an existing path'' ''stat add target failed'' w of
            (Some e, w1) \<Rightarrow> (Inl e, w1)
          | (None, w1) \<Rightarrow>
             (Inr (s\<lparr>state := AList.update target
                \<lparr>st_Exists = True, st_Content = content, st_Mode = 0x1A4, st_NewPath = target,
                 st_Original = target, st_StagedPath = None\<rparr> (state s)\<rparr>), w1)))"

definition deleteFile :: "resolver \<Rightarrow> string \<Rightarrow> nat \<Rightarrow> applyState \<Rightarrow> world \<Rightarrow> (failure + applyState) \<times> world" where
  "deleteFile resolve p operationID s w =
     (case resolve (fs w) p True of
        Inl e \<Rightarrow> (Inl e, w)
      | Inr target \<Rightarrow>
         (if mhas (state s) target then (Inl (path_failure MalformedSyntax [] (''delete target already referenced: '' @ p)), w)
          else case captureSnapshot target w of
            (Inl e, w1) \<Rightarrow> (Inl (path_failure Internal p ''stat delete target failed''), w1)
          | (Inr snap, w1) \<Rightarrow>
             (if \<not> snap_Exists snap
              then (Inl (path_failure TargetMissing p ''cannot delete a file that does not exist''), w1)
              else (Inr (s\<lparr>deleteTargets := mappend target operationID (deleteTargets s)\<rparr>), w1))))"

definition getState :: "resolver \<Rightarrow> string \<Rightarrow> applyState \<Rightarrow> world \<Rightarrow> (failure + patchFileState \<times> applyState) \<times> world" where
  "getState resolve p s w =
     (case resolve (fs w) p False of
        Inl e \<Rightarrow> (Inl e, w)
      | Inr resolved \<Rightarrow>
         (case map_of (state s) resolved of
            Some existing \<Rightarrow> (Inr (existing, s), w)
          | None \<Rightarrow>
             (case captureSnapshot resolved w of
                (Inl e, w1) \<Rightarrow> (Inl (path_failure Internal p ''read file failed''), w1)
              | (Inr snap, w1) \<Rightarrow>
                 (let base = \<lparr>st_Exists = False, st_Content = [], st_Mode = 0x1A4, st_NewPath = resolved,
                             st_Original = resolved, st_StagedPath = None\<rparr>;
                      fileState = (if snap_Exists snap
                        then base\<lparr>st_Exists := True, st_Content := splitLines (snap_Data snap), st_Mode := snap_Mode snap\<rparr>
                        else base) in
                  (Inr (fileState, s\<lparr>state := AList.update resolved fileState (state s)\<rparr>), w1)))))"

definition updateFile ::
  "resolver \<Rightarrow> string \<Rightarrow> string \<Rightarrow> ChangeLine list \<Rightarrow> applyState \<Rightarrow> world \<Rightarrow> (failure + applyState) \<times> world" where
  "updateFile resolve p moveTo changes s w =
     (case resolve (fs w) p False of
        Inl e \<Rightarrow> (Inl e, w)
      | Inr resolved \<Rightarrow>
         (if mhas (deleteTargets s) resolved
          then (Inl (path_failure MalformedSyntax [] (''update target already marked for deletion: '' @ p)), w)
          else case getState resolve p s w of
            (Inl e, w1) \<Rightarrow> (Inl e, w1)
          | (Inr (fileState, s1), w1) \<Rightarrow>
             (if \<not> st_Exists fileState
              then (Inl (path_failure TargetMissing p ''cannot update a file that does not exist''), w1)
              else case applyEdit (st_Content fileState) changes of
                Inl e \<Rightarrow> (Inl (attachFailurePath e p), w1)
              | Inr updated \<Rightarrow>
                 (let fileState1 = fileState\<lparr>st_Content := updated\<rparr>;
                      s2 = s1\<lparr>state := AList.update (st_NewPath fileState) fileState1 (state s1)\<rparr> in
                  if blank moveTo then (Inr s2, w1)
                  else case resolve (fs w1) moveTo False of
                    Inl e \<Rightarrow> (Inl e, w1)
                  | Inr moveTarget \<Rightarrow>
                     (if moveTarget = st_Original fileState1 then (Inr s2, w1)
                      else if mhas (state s2) moveTarget
                      then (Inl (path_failure TargetExists moveTo
                             ''patch already referenced the move destination earlier in the same patch''), w1)
                      else case check_target s2 moveTarget moveTo ''cannot move onto an existing path''
                                  ''stat move target failed'' w1 of
                        (Some e, w2) \<Rightarrow> (Inl e, w2)
                      | (None, w2) \<Rightarrow>
                         (Inr (s2\<lparr>state := AList.update moveTarget (fileState1\<lparr>st_NewPath := moveTarget\<rparr>)
                            (AList.delete (st_NewPath fileState1) (state s2))\<rparr>), w2))))))"

fun apply_patch_hunks :: "resolver \<Rightarrow> nat \<Rightarrow> Hunk list \<Rightarrow> applyState \<Rightarrow> world \<Rightarrow> (failure + applyState) \<times> world" where
  "apply_patch_hunks resolve ordinal [] s w = (Inr s, w)"
| "apply_patch_hunks resolve ordinal (h # hs) s w =
     (case (case h of
              AddFile p content \<Rightarrow> addFile resolve p content s w
            | DeleteFile p \<Rightarrow> deleteFile resolve p ordinal s w
            | UpdateFile p moveTo changes \<Rightarrow> updateFile resolve p moveTo changes s w) of
        (Inl e, w1) \<Rightarrow> (Inl e, w1)
      | (Inr s1, w1) \<Rightarrow> apply_patch_hunks resolve (ordinal + 1) hs s1 w1)"

definition apply_document ::
  "resolver \<Rightarrow> validator \<Rightarrow> Document \<Rightarrow> world \<Rightarrow> (applyError + WholeFileDeletionFact list) \<times> world" where
  "apply_document resolve validate doc w =
     (case apply_patch_hunks resolve 0 (Hunks doc) newApplyState w of
        (Inl e, w1) \<Rightarrow> (Inl (PatchFailure e), w1)
      | (Inr s, w1) \<Rightarrow>
         (case prepareCommitStates validate (state s) w1 of
            (Inl e, w2) \<Rightarrow> (Inl e, w2)
          | (Inr states, w2) \<Rightarrow>
             (case commitStagedFiles validate states (deleteTargets s) w2 of
                (Inl e, w3) \<Rightarrow> (Inl (CommitFailure e), cleanupStagedFiles states w3)
              | (Inr facts, w3) \<Rightarrow> (Inr facts, cleanupStagedFiles states w3))))"

section \<open>A call of the tool\<close>

text \<open>The results of \<open>Call\<close> on the decoded input. The summary says that a content mismatch has
  been reported.\<close>

datatype callResult =
    PatchRequired
  | MalformedPatch ParseError
  | NoFilesModified
  | PatchError applyError bool
  | PatchOk nat "WholeFileDeletionFact list"

definition mismatch_summary :: "applyError \<Rightarrow> bool" where
  "mismatch_summary e = (case e of PatchFailure f \<Rightarrow> failure_Kind f = ContentMismatch | CommitFailure _ \<Rightarrow> False)"

definition Patch_Call :: "resolver \<Rightarrow> validator \<Rightarrow> string \<Rightarrow> world \<Rightarrow> callResult \<times> world" where
  "Patch_Call resolve validate patch w =
     (if blank patch then (PatchRequired, w)
      else case Parse patch of
        Inl e \<Rightarrow> (MalformedPatch e, w)
      | Inr doc \<Rightarrow>
         (if Hunks doc = [] then (NoFilesModified, w)
          else case apply_document resolve validate doc w of
            (Inl e, w1) \<Rightarrow> (PatchError e (mismatch_summary e), w1)
          | (Inr facts, w1) \<Rightarrow> (PatchOk (length (Hunks doc)) facts, w1)))"

end
