(* ===== verification/Patch_Commit_Props.thy ===== *)
theory Patch_Commit_Props
  imports Patch_Commit
begin

text \<open>
  A patch is all or nothing: when applying it fails and the roll-back reports no error,
  every file has the content it had before; when it succeeds, the files are exactly those of
  the pending state. The files the tool creates for itself (staged files and temporary files
  of the roll-back) have reserved names and are left out of both statements.
\<close>

section \<open>Reserved names\<close>

definition reserved :: "path \<Rightarrow> bool" where
  "reserved p \<longleftrightarrow> p \<noteq> [] \<and> (HasPrefix (last p) ''.kent-patch-'' \<or> HasSuffix (last p) ''.kent.rollback.tmp'')"

lemma reserved_tmp: "reserved (rollback_tmp p)"
  by (auto simp: reserved_def rollback_tmp_def HasSuffix_iff)

lemma reserved_stage: "reserved (dir @ [stage_prefix p @ r])"
  by (auto simp: reserved_def stage_prefix_def Let_def HasPrefix_iff)

definition same_files :: "(path \<Rightarrow> string option) \<Rightarrow> (path \<Rightarrow> string option) \<Rightarrow> bool" where
  "same_files D E \<longleftrightarrow> (\<forall>p. \<not> reserved p \<longrightarrow> D p = E p)"

lemma same_files_refl [simp]: "same_files D D"
  by (simp add: same_files_def)

lemma same_files_trans: "same_files D E \<Longrightarrow> same_files E F \<Longrightarrow> same_files D F"
  by (simp add: same_files_def)


section \<open>Snapshots\<close>

definition snap_content :: "fileSnapshot \<Rightarrow> string option" where
  "snap_content snap = (if snap_Exists snap then Some (snap_Data snap) else None)"

lemma captureSnapshot_ok:
  assumes "captureSnapshot p w = (r, w1)"
  shows "fs w1 = fs w" and "tree (fs w) \<Longrightarrow> r = Inr snap \<Longrightarrow> snap_content snap = data_at (fs w) p"
proof -
  show "fs w1 = fs w"
    using assms os_Stat_cases(1) os_ReadFile_cases(1)
    by (fastforce simp: captureSnapshot_def split: prod.splits sum.splits oserr.splits node.splits)
  assume t: "tree (fs w)" and r: "r = Inr snap"
  obtain r0 w0 where st: "os_Stat p w = (r0, w0)" by (cases "os_Stat p w")
  note s = os_Stat_cases [OF st]
  show "snap_content snap = data_at (fs w) p"
  proof (cases r0)
    case (Inl e)
    then show ?thesis
      using assms r s(3) [OF t] st
      by (cases e) (auto simp: captureSnapshot_def no_snapshot_def snap_content_def data_at_def)
  next
    case (Inr n)
    then obtain m d where n: "n = File m d"
      using assms r st by (cases n) (auto simp: captureSnapshot_def)
    obtain r1 w2 where rd: "os_ReadFile p w0 = (r1, w2)" by (cases "os_ReadFile p w0")
    with assms r st Inr n obtain d' where d': "r1 = Inr d'" "snap = \<lparr>snap_Exists = True, snap_Mode = m, snap_Data = d'\<rparr>"
      by (cases r1) (auto simp: captureSnapshot_def)
    from os_ReadFile_cases(2) [OF rd d'(1)] s(1) obtain m' where "fs w p = Some (File m' d')" by auto
    with d'(2) show ?thesis by (simp add: snap_content_def data_at_def)
  qed
qed

lemma restoreSnapshot_ok:
  assumes r: "restoreSnapshot p snap w = (Inr (), w1)" and t: "tree (fs w)" and p: "\<not> reserved p"
  shows "tree (fs w1)" and "same_files (data_at (fs w1)) ((data_at (fs w))(p := snap_content snap))"
proof -
  have "tree (fs w1) \<and> same_files (data_at (fs w1)) ((data_at (fs w))(p := snap_content snap))"
  proof (cases "snap_Exists snap")
    case False
    obtain r0 w0 where rm: "os_Remove p w = (r0, w0)" by (cases "os_Remove p w")
    note c = os_Remove_cases [OF rm]
    show ?thesis
    proof (cases r0)
      case (Inl e)
      with r rm False have e: "e = ErrNotExist" "w1 = w0"
        by (cases e; simp add: restoreSnapshot_def)+
      with c(2,3) Inl t have "fs w1 = fs w" "fs w p = None" by auto
      with t False show ?thesis by (simp add: same_files_def snap_content_def data_at_def)
    next
      case (Inr u)
      with r rm False have "w1 = w0" by (simp add: restoreSnapshot_def)
      with c(1) Inr have "fs w1 = (fs w)(p := None)" "fs w p \<noteq> Some Dir" by auto
      with t False show ?thesis by (simp add: tree_remove same_files_def snap_content_def)
    qed
  next
    case True
    let ?t = "rollback_tmp p"
    obtain r0 w0 where mk: "os_MkdirAll (butlast p) w = (r0, w0)" by (cases "os_MkdirAll (butlast p) w")
    with r True obtain u w2 where wr: "os_WriteFile ?t (snap_Data snap) (snap_Mode snap) w0 = (Inr (), w2)"
      and mv: "os_Rename ?t p w2 = (Inr (), w1)"
      by (auto simp: restoreSnapshot_def split: sum.splits prod.splits)
    have t0: "tree (fs w0)" "dirs_added (fs w) (fs w0)" using os_MkdirAll_ok [OF mk t] by simp_all
    obtain m where w: "?t \<noteq> []" "fs w0 (butlast ?t) = Some Dir" "fs w0 ?t \<noteq> Some Dir"
        "fs w2 = (fs w0)(?t := Some (File m (snap_Data snap)))"
      using os_WriteFile_ok [OF wr] by blast
    have t2: "tree (fs w2)" unfolding w(4) by (rule tree_add) (use t0 w in auto)
    from os_Rename_cases(2) [OF mv] obtain m' d where m: "fs w2 ?t = Some (File m' d)" "p \<noteq> []"
        "fs w2 (butlast p) = Some Dir" "fs w2 p \<noteq> Some Dir" "fs w1 = (fs w2)(?t := None, p := Some (File m' d))"
      by blast
    have "tree (fs w1)" unfolding m(5) by (rule tree_rename) (use t2 m in auto)
    moreover have d: "d = snap_Data snap" using m(1) w(4) by simp
    ultimately show ?thesis
      using True dirs_added_data [OF t0(2)] reserved_tmp [of p]
      by (auto simp: m(5) w(4) same_files_def snap_content_def)
  qed
  then show "tree (fs w1)" and "same_files (data_at (fs w1)) ((data_at (fs w))(p := snap_content snap))"
    by blast+
qed


section \<open>The roll-back undoes the journal\<close>

fun undo :: "(path \<times> fileSnapshot) list \<Rightarrow> (path \<Rightarrow> string option) \<Rightarrow> path \<Rightarrow> string option" where
  "undo [] D = D"
| "undo ((p, before) # entries) D = undo entries (D(p := snap_content before))"

lemma undo_append: "undo (es @ es') D = undo es' (undo es D)"
  by (induction es arbitrary: D) auto

lemma undo_cong: "D p = E p \<Longrightarrow> undo es D p = undo es E p"
proof (induction es arbitrary: D E)
  case (Cons e es)
  obtain q b where e: "e = (q, b)" by (cases e)
  show ?case unfolding e undo.simps by (rule Cons.IH) (simp add: Cons.prems)
qed simp

lemma same_files_undo: "same_files D E \<Longrightarrow> same_files (undo es D) (undo es E)"
  by (auto simp: same_files_def intro: undo_cong)

lemma restore_entries_ok:
  "restore_entries validate es w = ([], w1) \<Longrightarrow> tree (fs w) \<Longrightarrow> list_all (\<lambda>(p, b). \<not> reserved p) es \<Longrightarrow>
   tree (fs w1) \<and> same_files (data_at (fs w1)) (undo es (data_at (fs w)))"
proof (induction es arbitrary: w)
  case (Cons e es)
  obtain p b where e: "e = (p, b)" by (cases e)
  obtain w0 where r: "restoreSnapshot p b w = (Inr (), w0)" and rest: "restore_entries validate es w0 = ([], w1)"
    using Cons.prems(1) by (auto simp: e split: if_splits prod.splits sum.splits)
  note s = restoreSnapshot_ok [OF r Cons.prems(2)]
  have p: "\<not> reserved p" using Cons.prems(3) by (simp add: e)
  have "tree (fs w1) \<and> same_files (data_at (fs w1)) (undo es (data_at (fs w0)))"
    by (rule Cons.IH [OF rest s(1) [OF p]]) (use Cons.prems(3) in simp)
  then show ?case using same_files_trans same_files_undo [OF s(2) [OF p], of es] by (auto simp: e)
qed simp

text \<open>What holds between the steps of a commit: undoing the journal gives the original content.\<close>

definition journal :: "commit \<Rightarrow> (path \<times> fileSnapshot) list" where
  "journal c = removed c @ committed c"

definition commit_inv :: "(path \<Rightarrow> string option) \<Rightarrow> commit \<Rightarrow> world \<Rightarrow> bool" where
  "commit_inv D0 c w \<longleftrightarrow>
     tree (fs w) \<and> list_all (\<lambda>(p, b). \<not> reserved p) (journal c) \<and>
     same_files (undo (rev (journal c)) (data_at (fs w))) D0"

lemma rollback_ok:
  assumes "rollback validate c w = ([], w')" and "commit_inv D0 c w"
  shows "tree (fs w')" and "same_files (data_at (fs w')) D0"
proof -
  obtain w1 where 1: "restore_entries validate (rev (committed c)) w = ([], w1)"
    and 2: "restore_entries validate (rev (removed c)) w1 = ([], w')"
    using assms(1) by (auto simp: rollback_def split: prod.splits)
  have inv: "tree (fs w)" "list_all (\<lambda>(p, b). \<not> reserved p) (rev (committed c))"
      "list_all (\<lambda>(p, b). \<not> reserved p) (rev (removed c))"
    using assms(2) by (auto simp: commit_inv_def journal_def list_all_iff)
  have s1: "tree (fs w1)" "same_files (data_at (fs w1)) (undo (rev (committed c)) (data_at (fs w)))"
    using restore_entries_ok [OF 1 inv(1,2)] by simp_all
  have s2: "tree (fs w')" "same_files (data_at (fs w')) (undo (rev (removed c)) (data_at (fs w1)))"
    using restore_entries_ok [OF 2 s1(1) inv(3)] by simp_all
  show "tree (fs w')" by (rule s2(1))
  show "same_files (data_at (fs w')) D0"
    using s2(2) same_files_undo [OF s1(2), of "rev (removed c)"] assms(2) same_files_trans
    by (fastforce simp: commit_inv_def journal_def undo_append)
qed

lemma rollbackAfterFailure_ok:
  assumes "rollbackAfterFailure validate c primary w = (Inl (CommitError cause []), w')" and "commit_inv D0 c w"
  shows "tree (fs w') \<and> same_files (data_at (fs w')) D0"
  using assms rollback_ok [of validate c w w' D0]
  by (auto simp: rollbackAfterFailure_def split: prod.splits)

section \<open>The steps of a commit\<close>

lemma commit_inv_dirs:
  assumes "commit_inv D0 c w" and "tree (fs w1)" and "dirs_added (fs w) (fs w1)" and "journal c1 = journal c"
  shows "commit_inv D0 c1 w1"
proof -
  have "data_at (fs w1) = data_at (fs w)" using dirs_added_data [OF assms(3)] by auto
  with assms show ?thesis by (simp add: commit_inv_def)
qed

lemma commit_inv_same: "commit_inv D0 c w \<Longrightarrow> fs w1 = fs w \<Longrightarrow> journal c1 = journal c \<Longrightarrow> commit_inv D0 c1 w1"
  by (rule commit_inv_dirs) (auto simp: commit_inv_def)

text \<open>Undoing a step whose journal entry holds the content before it.\<close>

lemma commit_inv_step:
  assumes "commit_inv D0 c w" and "tree (fs w1)" and "\<not> reserved p"
    and "snap_content before = data_at (fs w) p"
    and "\<And>q. \<not> reserved q \<Longrightarrow> q \<noteq> p \<Longrightarrow> data_at (fs w1) q = data_at (fs w) q"
    and "journal c1 = journal c @ [(p, before)]"
  shows "commit_inv D0 c1 w1"
proof -
  have "same_files ((data_at (fs w1))(p := snap_content before)) (data_at (fs w))"
    using assms(4,5) by (auto simp: same_files_def)
  from same_files_undo [OF this, of "rev (journal c)"] assms show ?thesis
    using same_files_trans by (fastforce simp: commit_inv_def)
qed

text \<open>The file tree after the removals so far: the removed paths are gone, every other path
  is as it was.\<close>

definition removed_tree :: "(path \<Rightarrow> node option) \<Rightarrow> commit \<Rightarrow> world \<Rightarrow> bool" where
  "removed_tree f0 c w \<longleftrightarrow> committed c = [] \<and> fs w = (\<lambda>q. if q \<in> set (removedPaths c) then None else f0 q)"

lemma removePath_ok:
  assumes r: "removePath validate p l c w = (r, w1)" and inv: "commit_inv D0 c w" and p: "\<not> reserved p"
    and rt: "removed_tree f0 c w"
  shows "r = Inl (CommitError cause []) \<Longrightarrow> tree (fs w1) \<and> same_files (data_at (fs w1)) D0"
    and "r = Inr (before, c1) \<Longrightarrow> commit_inv D0 c1 w1 \<and> removed_tree f0 c1 w1 \<and>
      set (removedPaths c1) = insert p (set (removedPaths c))"
proof -
  have t: "tree (fs w)" using inv by (simp add: commit_inv_def)
  obtain r1 w2 where cs: "captureSnapshot p w = (r1, w2)" by (cases "captureSnapshot p w")
  have f2: "fs w2 = fs w" using captureSnapshot_ok(1) [OF cs] .
  obtain r2 w3 where rm: "os_Remove p w2 = (r2, w3)" by (cases "os_Remove p w2")
  note rmc = os_Remove_cases [OF rm]
  let ?c1 = "c\<lparr>removedPaths := p # removedPaths c\<rparr>"
  have fail: "tree (fs w1) \<and> same_files (data_at (fs w1)) D0"
    if "rollbackAfterFailure validate c' primary w' = (Inl (CommitError cause []), w1)"
      and "journal c' = journal c" and "fs w' = fs w" for c' primary w'
    by (rule rollbackAfterFailure_ok [OF that(1)]) (rule commit_inv_same [OF inv that(3,2)])
  have j: "journal ?c1 = journal c" by (simp add: journal_def)
  have f3: "fs w3 = fs w" if "r2 = Inl e" for e using rmc(2) [OF that] f2 by simp
  show "tree (fs w1) \<and> same_files (data_at (fs w1)) D0" if "r = Inl (CommitError cause [])"
    using r [unfolded that removePath_def cs rm Let_def prod.case] fail j f2 f3
    by (auto split: if_splits sum.splits simp: rm)
  assume r': "r = Inr (before, c1)"
  show "commit_inv D0 c1 w1 \<and> removed_tree f0 c1 w1 \<and> set (removedPaths c1) = insert p (set (removedPaths c))"
  proof (cases "p \<in> set (removedPaths c)")
    case True
    with r r' inv rt show ?thesis by (auto simp: removePath_def)
  next
    case False
    with r r' cs obtain b where b: "r1 = Inr b"
      by (auto simp: removePath_def rollbackAfterFailure_def split: if_splits sum.splits prod.splits)
    note content = captureSnapshot_ok(2) [OF cs t b]
    show ?thesis
    proof (cases "snap_Exists b")
      case ne: False
      with r r' cs b False have "c1 = ?c1" "w1 = w2"
        by (auto simp: removePath_def rollbackAfterFailure_def split: if_splits prod.splits)
      moreover have "fs w p = None"
      proof -
        obtain r0 w0 where st: "os_Stat p w = (r0, w0)" by (cases "os_Stat p w")
        with cs b ne have "r0 = Inl ErrNotExist"
          by (auto simp: captureSnapshot_def split: sum.splits oserr.splits node.splits prod.splits)
        then show ?thesis using os_Stat_cases(3) [OF st t] by simp
      qed
      ultimately show ?thesis
        using commit_inv_same [OF inv f2 j] rt f2 by (auto simp: removed_tree_def fun_eq_iff)
    next
      case True
      with r r' cs b False rm obtain u where u: "r2 = Inr u" "w1 = w3" "c1 = ?c1\<lparr>removed := removed c @ [(p, b)]\<rparr>"
        by (auto simp: removePath_def rollbackAfterFailure_def Let_def split: if_splits sum.splits prod.splits)
      have f1: "fs w1 = (fs w)(p := None)" "fs w p \<noteq> Some Dir" using rmc(1) u f2 by auto
      have "commit_inv D0 c1 w1"
      proof (rule commit_inv_step [OF inv _ p content])
        show "tree (fs w1)" using tree_remove [OF t f1(2)] f1(1) by simp
        show "journal c1 = journal c @ [(p, b)]" using rt by (simp add: u(3) journal_def removed_tree_def)
      qed (simp add: f1)
      then show ?thesis using rt f1(1) u(3) by (auto simp: removed_tree_def fun_eq_iff)
    qed
  qed
qed

lemma commit_deletes_ok:
  assumes "commit_deletes validate targets ps c facts w = (r, w1)" and "commit_inv D0 c w" and "removed_tree f0 c w"
    and "list_all (\<lambda>p. \<not> reserved p) ps"
  shows "r = Inl (CommitError cause []) \<longrightarrow> tree (fs w1) \<and> same_files (data_at (fs w1)) D0"
    and "r = Inr (c1, facts') \<longrightarrow> commit_inv D0 c1 w1 \<and> removed_tree f0 c1 w1 \<and>
      set (removedPaths c1) = set ps \<union> set (removedPaths c)"
proof -
  have "(r = Inl (CommitError cause []) \<longrightarrow> tree (fs w1) \<and> same_files (data_at (fs w1)) D0) \<and>
    (r = Inr (c1, facts') \<longrightarrow> commit_inv D0 c1 w1 \<and> removed_tree f0 c1 w1 \<and>
      set (removedPaths c1) = set ps \<union> set (removedPaths c))"
    using assms
  proof (induction ps arbitrary: c facts w)
    case (Cons p ps)
    have p: "\<not> reserved p" using Cons.prems(4) by simp
    obtain r0 w0 where rp: "removePath validate p DeleteTarget c w = (r0, w0)"
      by (cases "removePath validate p DeleteTarget c w")
    note ok = removePath_ok [OF rp Cons.prems(2) p Cons.prems(3)]
    show ?case
    proof (cases r0)
      case (Inl e)
      with Cons.prems(1) rp ok(1) show ?thesis by auto
    next
      case (Inr bc)
      obtain b c0 where bc: "bc = (b, c0)" by (cases bc)
      with ok(2) Inr have o: "commit_inv D0 c0 w0" "removed_tree f0 c0 w0"
          "set (removedPaths c0) = insert p (set (removedPaths c))" by auto
      from Cons.prems(1) rp Inr bc obtain facts0 where
        rest: "commit_deletes validate targets ps c0 facts0 w0 = (r, w1)" by (auto simp: Let_def)
      from Cons.IH [OF rest o(1,2)] Cons.prems(4) o(3) show ?thesis by auto
    qed
  qed auto
  then show "r = Inl (CommitError cause []) \<longrightarrow> tree (fs w1) \<and> same_files (data_at (fs w1)) D0"
    and "r = Inr (c1, facts') \<longrightarrow> commit_inv D0 c1 w1 \<and> removed_tree f0 c1 w1 \<and>
      set (removedPaths c1) = set ps \<union> set (removedPaths c)"
    by blast+
qed

definition moved_sources :: "patchFileState list \<Rightarrow> path set" where
  "moved_sources states = st_Original ` {s \<in> set states. st_NewPath s \<noteq> st_Original s}"

lemma moved_sources_Cons:
  "moved_sources (s # ss) = (if st_NewPath s = st_Original s then {} else {st_Original s}) \<union> moved_sources ss"
  by (auto simp: moved_sources_def)

lemma commit_moves_ok:
  "commit_moves validate ss c w = (r, w1) \<Longrightarrow> commit_inv D0 c w \<Longrightarrow> removed_tree f0 c w \<Longrightarrow>
   list_all (\<lambda>s. \<not> reserved (st_Original s)) ss \<Longrightarrow>
   (r = Inl (CommitError cause []) \<longrightarrow> tree (fs w1) \<and> same_files (data_at (fs w1)) D0) \<and>
   (r = Inr c1 \<longrightarrow> commit_inv D0 c1 w1 \<and> removed_tree f0 c1 w1 \<and>
      set (removedPaths c1) = moved_sources ss \<union> set (removedPaths c))"
proof (induction ss arbitrary: c w)
  case Nil
  then show ?case by (auto simp: moved_sources_def)
next
  case (Cons s ss)
  show ?case
  proof (cases "st_NewPath s = st_Original s")
    case True
    with Cons show ?thesis by (simp add: moved_sources_Cons)
  next
    case False
    have p: "\<not> reserved (st_Original s)" using Cons.prems(4) by simp
    obtain r0 w0 where rp: "removePath validate (st_Original s) MovedSource c w = (r0, w0)"
      by (cases "removePath validate (st_Original s) MovedSource c w")
    note ok = removePath_ok [OF rp Cons.prems(2) p Cons.prems(3)]
    show ?thesis
    proof (cases r0)
      case (Inl e)
      with Cons.prems(1) rp ok(1) False show ?thesis by auto
    next
      case (Inr bc)
      obtain b c0 where bc: "bc = (b, c0)" by (cases bc)
      with ok(2) Inr have o: "commit_inv D0 c0 w0" "removed_tree f0 c0 w0"
          "set (removedPaths c0) = insert (st_Original s) (set (removedPaths c))" by auto
      from Cons.prems(1) rp Inr bc False have rest: "commit_moves validate ss c0 w0 = (r, w1)" by simp
      from Cons.IH [OF rest o(1,2)] Cons.prems(4) o(3) False show ?thesis by (auto simp: moved_sources_Cons)
    qed
  qed
qed

text \<open>A successful write moves the staged file to its place.\<close>

lemma commit_write_ok:
  assumes r: "commit_write validate s c w = (r, w1)" and inv: "commit_inv D0 c w"
    and p: "\<not> reserved (st_NewPath s)" and q: "\<forall>q. st_StagedPath s = Some q \<longrightarrow> reserved q"
  shows "r = Inl (CommitError cause []) \<longrightarrow> tree (fs w1) \<and> same_files (data_at (fs w1)) D0"
    and "r = Inr c1 \<longrightarrow> commit_inv D0 c1 w1 \<and>
      (\<exists>q m d. st_StagedPath s = Some q \<and> fs w q = Some (File m d) \<and>
        fs w1 (st_NewPath s) = Some (File m d) \<and>
        (\<forall>x. x \<noteq> q \<longrightarrow> x \<noteq> st_NewPath s \<longrightarrow> fs w1 x = fs w x \<or> fs w x = None \<and> fs w1 x = Some Dir))"
proof -
  let ?p = "st_NewPath s"
  have t: "tree (fs w)" using inv by (simp add: commit_inv_def)
  obtain r0 w0 where mk: "os_MkdirAll (butlast ?p) w = (r0, w0)" by (cases "os_MkdirAll (butlast ?p) w")
  have t0: "tree (fs w0)" and d0: "dirs_added (fs w) (fs w0)" using os_MkdirAll_ok [OF mk t] by simp_all
  obtain r2 w2 where cs: "captureSnapshot ?p w0 = (r2, w2)" by (cases "captureSnapshot ?p w0")
  have f2: "fs w2 = fs w0" using captureSnapshot_ok(1) [OF cs] .
  define mv where "mv = (case st_StagedPath s of None \<Rightarrow> (Inl ErrNotExist, w2) | Some q \<Rightarrow> os_Rename q ?p w2)"
  obtain r3 w3 where mv3: "mv = (r3, w3)" by (cases mv)
  have f3: "fs w3 = fs w0" if "r3 = Inl e" for e
    using mv3 that f2 os_Rename_cases(1) unfolding mv_def by (auto split: option.splits)
  note unf = r [unfolded commit_write_def Let_def mv_def [symmetric] mk prod.case cs mv3]
  have fail: "tree (fs w1) \<and> same_files (data_at (fs w1)) D0"
    if "rollbackAfterFailure validate c primary w' = (Inl (CommitError cause []), w1)"
      and "fs w' = fs w \<or> fs w' = fs w0" for primary w'
  proof (rule rollbackAfterFailure_ok [OF that(1)])
    show "commit_inv D0 c w'" using that(2) commit_inv_same [OF inv] commit_inv_dirs [OF inv, of w'] t0 d0 by auto
  qed
  show "r = Inl (CommitError cause []) \<longrightarrow> tree (fs w1) \<and> same_files (data_at (fs w1)) D0"
    using unf fail f2 f3 by (auto split: if_splits sum.splits)
  show "r = Inr c1 \<longrightarrow> commit_inv D0 c1 w1 \<and>
      (\<exists>q m d. st_StagedPath s = Some q \<and> fs w q = Some (File m d) \<and>
        fs w1 ?p = Some (File m d) \<and>
        (\<forall>x. x \<noteq> q \<longrightarrow> x \<noteq> ?p \<longrightarrow> fs w1 x = fs w x \<or> fs w x = None \<and> fs w1 x = Some Dir))"
  proof
    assume r': "r = Inr c1"
    from unf r' obtain before where b: "r2 = Inr before" and u3: "r3 = Inr ()" and w1: "w1 = w3"
      and c1: "c1 = c\<lparr>committed := committed c @ [(?p, before)]\<rparr>"
      by (auto simp: rollbackAfterFailure_def split: if_splits sum.splits prod.splits)
    from mv3 u3 obtain q where sq: "st_StagedPath s = Some q" and rn: "os_Rename q ?p w2 = (Inr (), w3)"
      by (auto simp: mv_def split: option.splits)
    from os_Rename_cases(2) [OF rn] obtain m d where
      rn': "fs w2 q = Some (File m d)" "?p \<noteq> []" "fs w2 (butlast ?p) = Some Dir" "fs w2 ?p \<noteq> Some Dir"
        "fs w3 = (fs w2)(q := None, ?p := Some (File m d))" by blast
    have rq: "reserved q" using q sq by simp
    have "tree (fs w1)" unfolding w1 rn'(5) by (rule tree_rename) (use t0 f2 rn' in auto)
    moreover have content: "snap_content before = data_at (fs w) ?p"
      using captureSnapshot_ok(2) [OF cs t0 b] dirs_added_data [OF d0] by simp
    ultimately have "commit_inv D0 c1 w1"
      by (rule commit_inv_step [OF inv _ p])
        (use rn'(5) f2 w1 rq c1 dirs_added_data [OF d0] in \<open>auto simp: journal_def\<close>)
    moreover have "fs w q = Some (File m d)" using rn'(1) f2 d0 by (auto simp: dirs_added_def) (metis node.distinct(1) option.inject)
    ultimately show "commit_inv D0 c1 w1 \<and>
      (\<exists>q m d. st_StagedPath s = Some q \<and> fs w q = Some (File m d) \<and>
        fs w1 ?p = Some (File m d) \<and>
        (\<forall>x. x \<noteq> q \<longrightarrow> x \<noteq> ?p \<longrightarrow> fs w1 x = fs w x \<or> fs w x = None \<and> fs w1 x = Some Dir))"
      using sq rn'(5) w1 f2 d0 by (auto simp: dirs_added_def)
  qed
qed

definition stageable :: "patchFileState \<Rightarrow> bool" where
  "stageable s \<longleftrightarrow> \<not> reserved (st_NewPath s) \<and> \<not> reserved (st_Original s) \<and>
     (\<forall>q. st_StagedPath s = Some q \<longrightarrow> reserved q)"

definition files_kept :: "path set \<Rightarrow> (path \<Rightarrow> node option) \<Rightarrow> (path \<Rightarrow> node option) \<Rightarrow> bool" where
  "files_kept X f g \<longleftrightarrow> (\<forall>x. \<not> reserved x \<longrightarrow> x \<notin> X \<longrightarrow> g x = f x \<or> f x = None \<and> g x = Some Dir)"

lemma files_kept_data: "files_kept X f g \<Longrightarrow> \<not> reserved x \<Longrightarrow> x \<notin> X \<Longrightarrow> data_at g x = data_at f x"
  by (auto simp: files_kept_def data_at_def)

lemma commit_writes_fail:
  "commit_writes validate ss c w = (Inl (CommitError cause []), w1) \<Longrightarrow> commit_inv D0 c w \<Longrightarrow>
   list_all stageable ss \<Longrightarrow> tree (fs w1) \<and> same_files (data_at (fs w1)) D0"
proof (induction ss arbitrary: c w)
  case (Cons s ss)
  obtain r0 w0 where cw: "commit_write validate s c w = (r0, w0)" by (cases "commit_write validate s c w")
  have s: "\<not> reserved (st_NewPath s)" "\<forall>q. st_StagedPath s = Some q \<longrightarrow> reserved q"
    using Cons.prems(3) by (auto simp: stageable_def)
  note ok = commit_write_ok [OF cw Cons.prems(2) s]
  show ?case
  proof (cases r0)
    case (Inl e)
    with Cons.prems(1) cw ok(1) show ?thesis by auto
  next
    case (Inr c0)
    with Cons.prems cw ok(2) Cons.IH [of c0 w0] show ?thesis by auto
  qed
qed simp

lemma commit_writes_success:
  "commit_writes validate ss c w = (Inr c1, w1) \<Longrightarrow> commit_inv D0 c w \<Longrightarrow> list_all stageable ss \<Longrightarrow>
   distinct (map st_StagedPath ss) \<Longrightarrow> distinct (map st_NewPath ss) \<Longrightarrow>
   (\<forall>s \<in> set ss. \<exists>q m d. st_StagedPath s = Some q \<and> fs w q = Some (File m d) \<and>
      fs w1 (st_NewPath s) = Some (File m d)) \<and>
   files_kept (st_NewPath ` set ss) (fs w) (fs w1) \<and> tree (fs w1)"
proof (induction ss arbitrary: c w)
  case Nil
  then show ?case by (auto simp: files_kept_def commit_inv_def)
next
  case (Cons s ss)
  obtain r0 w0 where cw: "commit_write validate s c w = (r0, w0)" by (cases "commit_write validate s c w")
  have s: "\<not> reserved (st_NewPath s)" "\<forall>q. st_StagedPath s = Some q \<longrightarrow> reserved q"
    using Cons.prems(3) by (auto simp: stageable_def)
  from Cons.prems(1) cw obtain c0 where c0: "r0 = Inr c0" and rest: "commit_writes validate ss c0 w0 = (Inr c1, w1)"
    by (auto split: sum.splits)
  from commit_write_ok(2) [OF cw Cons.prems(2) s, where ?c1.0 = c0] c0 obtain q m d where
    inv: "commit_inv D0 c0 w0" and q: "st_StagedPath s = Some q" "fs w q = Some (File m d)"
      "fs w0 (st_NewPath s) = Some (File m d)"
    and frame: "\<And>x. x \<noteq> q \<Longrightarrow> x \<noteq> st_NewPath s \<Longrightarrow> fs w0 x = fs w x \<or> fs w x = None \<and> fs w0 x = Some Dir"
    by auto
  have IH: "\<And>s'. s' \<in> set ss \<Longrightarrow> \<exists>q m d. st_StagedPath s' = Some q \<and> fs w0 q = Some (File m d) \<and>
        fs w1 (st_NewPath s') = Some (File m d)"
    and kept: "files_kept (st_NewPath ` set ss) (fs w0) (fs w1)" and t: "tree (fs w1)"
    using Cons.IH [OF rest inv] Cons.prems(3-5) by auto
  have first: "fs w1 (st_NewPath s) = Some (File m d)"
    using kept q(3) s(1) Cons.prems(5) by (auto simp: files_kept_def)
  have others: "\<exists>q m d. st_StagedPath s' = Some q \<and> fs w q = Some (File m d) \<and> fs w1 (st_NewPath s') = Some (File m d)"
    if s': "s' \<in> set ss" for s'
  proof -
    from IH [OF s'] obtain q' m' d' where q': "st_StagedPath s' = Some q'" "fs w0 q' = Some (File m' d')"
        "fs w1 (st_NewPath s') = Some (File m' d')" by blast
    have "reserved q'" using Cons.prems(3) s' q'(1) by (auto simp: stageable_def list_all_iff)
    then have "q' \<noteq> st_NewPath s" using s(1) by auto
    moreover have "q' \<noteq> q" using Cons.prems(4) s' q(1) q'(1) by (force simp: image_iff)
    ultimately have "fs w q' = Some (File m' d')" using frame [of q'] q'(2) by auto
    with q' show ?thesis by blast
  qed
  have rq: "reserved q" using s(2) q(1) by simp
  have "files_kept (st_NewPath ` set (s # ss)) (fs w) (fs w1)"
    unfolding files_kept_def
  proof (intro allI impI)
    fix x assume x: "\<not> reserved x" "x \<notin> st_NewPath ` set (s # ss)"
    then have "x \<noteq> q" "x \<noteq> st_NewPath s" using rq by auto
    then have "fs w0 x = fs w x \<or> fs w x = None \<and> fs w0 x = Some Dir" by (rule frame)
    moreover have "fs w1 x = fs w0 x \<or> fs w0 x = None \<and> fs w1 x = Some Dir"
      using kept x by (auto simp: files_kept_def)
    ultimately show "fs w1 x = fs w x \<or> fs w x = None \<and> fs w1 x = Some Dir" by auto
  qed
  with first others q t show ?case by auto
qed

lemma commit_start: "tree (fs w) \<Longrightarrow> commit_inv (data_at (fs w)) new_commit w \<and> removed_tree (fs w) new_commit w"
  by (simp add: commit_inv_def new_commit_def journal_def removed_tree_def)

lemma commit_failure_restores:
  assumes r: "commitStagedFiles validate states targets w = (Inl (CommitError cause []), w')"
    and t: "tree (fs w)" and st: "list_all stageable states" and tg: "list_all (\<lambda>p. \<not> reserved p) (mkeys targets)"
  shows "tree (fs w') \<and> same_files (data_at (fs w')) (data_at (fs w))"
proof -
  let ?ps = "sort_key path_text (mkeys targets)"
  have ps: "list_all (\<lambda>p. \<not> reserved p) ?ps" and os: "list_all (\<lambda>s. \<not> reserved (st_Original s)) states"
    using tg st by (auto simp: list_all_iff stageable_def)
  obtain r1 w1 where d: "commit_deletes validate targets ?ps new_commit [] w = (r1, w1)"
    by (cases "commit_deletes validate targets ?ps new_commit [] w")
  note dok = commit_deletes_ok [OF d conjunct1 [OF commit_start [OF t]] conjunct2 [OF commit_start [OF t]] ps]
  show ?thesis
  proof (cases r1)
    case (Inl e)
    with r d dok(1) show ?thesis by (simp add: commitStagedFiles_def)
  next
    case (Inr cf)
    obtain c1 facts where cf: "cf = (c1, facts)" by (cases cf)
    have i1: "commit_inv (data_at (fs w)) c1 w1" "removed_tree (fs w) c1 w1" using dok(2) Inr cf by auto
    obtain r2 w2 where m: "commit_moves validate states c1 w1 = (r2, w2)" by (cases "commit_moves validate states c1 w1")
    note mok = commit_moves_ok [OF m i1 os]
    show ?thesis
    proof (cases r2)
      case e: (Inl e)
      with r d m mok Inr cf show ?thesis by (simp add: commitStagedFiles_def)
    next
      case c2: (Inr c2)
      obtain r3 w3 where wr: "commit_writes validate states c2 w2 = (r3, w3)" by (cases "commit_writes validate states c2 w2")
      with r d m Inr cf c2 have "r3 = Inl (CommitError cause [])" "w3 = w'"
        by (auto simp: commitStagedFiles_def split: sum.splits)
      then show ?thesis
        using commit_writes_fail [where c = c2 and w = w2, OF _ _ st] wr
          commit_moves_ok [OF m i1 os, where ?c1.0 = c2] c2 by auto
    qed
  qed
qed

lemma commit_success:
  assumes r: "commitStagedFiles validate states targets w = (Inr facts, w')"
    and t: "tree (fs w)" and st: "list_all stageable states" and tg: "list_all (\<lambda>p. \<not> reserved p) (mkeys targets)"
    and ds: "distinct (map st_StagedPath states)" "distinct (map st_NewPath states)"
  shows "\<forall>s \<in> set states. \<exists>q. st_StagedPath s = Some q \<and> fs w' (st_NewPath s) = fs w q \<and> (\<exists>m d. fs w q = Some (File m d))"
    and "\<And>x. \<not> reserved x \<Longrightarrow> x \<notin> st_NewPath ` set states \<Longrightarrow>
      data_at (fs w') x = (if x \<in> set (mkeys targets) \<union> moved_sources states then None else data_at (fs w) x)"
    and "tree (fs w')"
proof -
  let ?ps = "sort_key path_text (mkeys targets)"
  have ps: "list_all (\<lambda>p. \<not> reserved p) ?ps" and os: "list_all (\<lambda>s. \<not> reserved (st_Original s)) states"
    using tg st by (auto simp: list_all_iff stageable_def)
  from r obtain c1 f1 w1 c2 w2 c3 where d: "commit_deletes validate targets ?ps new_commit [] w = (Inr (c1, f1), w1)"
    and m: "commit_moves validate states c1 w1 = (Inr c2, w2)" and wr: "commit_writes validate states c2 w2 = (Inr c3, w')"
    by (auto simp: commitStagedFiles_def split: sum.splits prod.splits)
  have i1: "commit_inv (data_at (fs w)) c1 w1" "removed_tree (fs w) c1 w1" "set (removedPaths c1) = set (mkeys targets)"
    using commit_deletes_ok(2) [OF d conjunct1 [OF commit_start [OF t]] conjunct2 [OF commit_start [OF t]] ps,
      where ?c1.0 = c1 and facts' = f1] by (auto simp: new_commit_def)
  have i2: "commit_inv (data_at (fs w)) c2 w2" "removed_tree (fs w) c2 w2"
      "set (removedPaths c2) = moved_sources states \<union> set (mkeys targets)"
    using commit_moves_ok [OF m i1(1,2) os, where ?c1.0 = c2] i1(3) by auto
  note wk = commit_writes_success [OF wr i2(1) st ds]
  have gone: "\<not> reserved x" if "x \<in> set (removedPaths c2)" for x
    using that i2(3) tg os by (auto simp: moved_sources_def list_all_iff)
  show "\<forall>s \<in> set states. \<exists>q. st_StagedPath s = Some q \<and> fs w' (st_NewPath s) = fs w q \<and> (\<exists>m d. fs w q = Some (File m d))"
  proof
    fix s assume s: "s \<in> set states"
    then obtain q m d where q: "st_StagedPath s = Some q" "fs w2 q = Some (File m d)" "fs w' (st_NewPath s) = Some (File m d)"
      using wk by blast
    have "fs w q = Some (File m d)" using q(2) i2(2) by (auto simp: removed_tree_def split: if_splits)
    with q show "\<exists>q. st_StagedPath s = Some q \<and> fs w' (st_NewPath s) = fs w q \<and> (\<exists>m d. fs w q = Some (File m d))" by auto
  qed
  show "data_at (fs w') x = (if x \<in> set (mkeys targets) \<union> moved_sources states then None else data_at (fs w) x)"
    if x: "\<not> reserved x" "x \<notin> st_NewPath ` set states" for x
  proof -
    have "data_at (fs w') x = data_at (fs w2) x" using wk files_kept_data [OF _ x] by blast
    also have "\<dots> = (if x \<in> set (removedPaths c2) then None else data_at (fs w) x)"
      using i2(2) by (simp add: removed_tree_def data_at_def)
    finally show ?thesis using i2(3) by auto
  qed
  show "tree (fs w')" using wk by blast
qed

end
