(* ===== verification/Patch_Props.thy ===== *)
theory Patch_Props
  imports Patch_Commit_Props Patch_Apply_Props Patch_Format_Props
begin

text \<open>
  The patch tool as a whole: from the hunks of a document over the pending state and the
  staged files to the committed file tree.
\<close>

section \<open>The pending state\<close>

definition wf_file_state :: "path \<Rightarrow> patchFileState \<Rightarrow> bool" where
  "wf_file_state k st \<longleftrightarrow>
     st_NewPath st = k \<and> \<not> reserved k \<and> \<not> reserved (st_Original st) \<and> st_StagedPath st = None"

definition wf_state :: "applyState \<Rightarrow> bool" where
  "wf_state s \<longleftrightarrow>
     distinct (mkeys (state s)) \<and> (\<forall>k st. map_of (state s) k = Some st \<longrightarrow> wf_file_state k st) \<and>
     (\<forall>p. mhas (deleteTargets s) p \<longrightarrow> \<not> reserved p)"

text \<open>The paths that a patch names, and that they are not names which the tool reserves for its own
  files.\<close>

fun hunk_paths :: "Hunk \<Rightarrow> string list" where
  "hunk_paths (AddFile p _) = [p]"
| "hunk_paths (DeleteFile p) = [p]"
| "hunk_paths (UpdateFile p moveTo _) = [p, moveTo]"

definition document_paths :: "Document \<Rightarrow> string list" where
  "document_paths doc = concat (map hunk_paths (Hunks doc))"

definition unreserved :: "resolver \<Rightarrow> string list \<Rightarrow> bool" where
  "unreserved resolve ps \<longleftrightarrow> (\<forall>p \<in> set ps. \<forall>f b q. resolve f p b = Inr q \<longrightarrow> \<not> reserved q)"

lemma unreservedD: "unreserved resolve ps \<Longrightarrow> p \<in> set ps \<Longrightarrow> resolve f p b = Inr q \<Longrightarrow> \<not> reserved q"
  by (auto simp: unreserved_def)

lemma wf_state_update:
  "wf_state s \<Longrightarrow> wf_file_state k st \<Longrightarrow> wf_state (s\<lparr>state := AList.update k st (state s)\<rparr>)"
  by (auto simp: wf_state_def distinct_update)

lemma wf_state_move:
  "wf_state s \<Longrightarrow> wf_file_state k st \<Longrightarrow> wf_state (s\<lparr>state := AList.update k st (AList.delete k' (state s))\<rparr>)"
  by (auto simp: wf_state_def distinct_update distinct_delete delete_conv' split: if_splits)

lemma wf_state_delete:
  "wf_state s \<Longrightarrow> \<not> reserved p \<Longrightarrow> wf_state (s\<lparr>deleteTargets := mappend p i (deleteTargets s)\<rparr>)"
  by (auto simp: wf_state_def mappend_def)

lemma check_target_fs: "check_target s p q r1 r2 w = (e, w1) \<Longrightarrow> fs w1 = fs w"
  using os_Stat_cases(1) [of p w]
  by (auto simp: check_target_def Let_def split: prod.splits sum.splits oserr.splits)

lemma addFile_ok:
  assumes "addFile resolve p content s w = (r, w1)" and "unreserved resolve [p]" and "wf_state s"
  shows "fs w1 = fs w" and "r = Inr s1 \<Longrightarrow> wf_state s1"
proof -
  have "fs w1 = fs w \<and> (r = Inr s1 \<longrightarrow> wf_state s1)"
  proof (cases "resolve (fs w) p False")
    case (Inl e)
    with assms show ?thesis by (auto simp: addFile_def)
  next
    case (Inr t)
    have wf: "wf_file_state t \<lparr>st_Exists = True, st_Content = content, st_Mode = 0x1A4, st_NewPath = t,
        st_Original = t, st_StagedPath = None\<rparr>"
      using unreservedD [OF assms(2) _ Inr] by (simp add: wf_file_state_def)
    show ?thesis
      using assms(1) Inr check_target_fs wf_state_update [OF assms(3) wf]
      by (auto simp: addFile_def split: if_splits prod.splits option.splits)
  qed
  then show "fs w1 = fs w" and "r = Inr s1 \<Longrightarrow> wf_state s1" by auto
qed

lemma deleteFile_ok:
  assumes "deleteFile resolve p i s w = (r, w1)" and "unreserved resolve [p]" and "wf_state s"
  shows "fs w1 = fs w" and "r = Inr s1 \<Longrightarrow> wf_state s1"
  using assms captureSnapshot_ok(1) wf_state_delete [OF assms(3)] unreservedD [OF assms(2)]
  by (auto simp: deleteFile_def split: sum.splits prod.splits if_splits)

lemma getState_ok:
  assumes "getState resolve p s w = (r, w1)" and "unreserved resolve [p]" and "wf_state s"
  shows "fs w1 = fs w" and "r = Inr (st, s1) \<Longrightarrow> wf_state s1 \<and> wf_file_state (st_NewPath st) st"
proof -
  have "fs w1 = fs w \<and> (r = Inr (st, s1) \<longrightarrow> wf_state s1 \<and> wf_file_state (st_NewPath st) st)"
  proof (cases "resolve (fs w) p False")
    case (Inl e)
    with assms show ?thesis by (auto simp: getState_def)
  next
    case (Inr t)
    have nr: "\<not> reserved t" using unreservedD [OF assms(2) _ Inr] by simp
    show ?thesis
    proof (cases "map_of (state s) t")
      case (Some st0)
      then have "wf_file_state t st0" using assms(3) by (auto simp: wf_state_def)
      with assms Inr Some show ?thesis by (auto simp: getState_def wf_file_state_def)
    next
      case None
      have wf: "wf_file_state t st0 \<Longrightarrow> wf_state (s\<lparr>state := AList.update t st0 (state s)\<rparr>)" for st0
        by (rule wf_state_update [OF assms(3)])
      show ?thesis
        using assms(1) Inr None nr captureSnapshot_ok(1) wf
        by (auto simp: getState_def Let_def wf_file_state_def split: prod.splits sum.splits if_splits)
    qed
  qed
  then show "fs w1 = fs w" and "r = Inr (st, s1) \<Longrightarrow> wf_state s1 \<and> wf_file_state (st_NewPath st) st" by auto
qed

lemma updateFile_ok:
  assumes u: "updateFile resolve p moveTo changes s w = (r, w1)" and rok: "unreserved resolve [p, moveTo]" and wf: "wf_state s"
  shows "fs w1 = fs w" and "r = Inr s1 \<Longrightarrow> wf_state s1"
proof -
  have "fs w1 = fs w \<and> (r = Inr s1 \<longrightarrow> wf_state s1)"
  proof (cases "resolve (fs w) p False")
    case (Inl e)
    with u show ?thesis by (auto simp: updateFile_def)
  next
    case t: (Inr t)
    obtain r0 w0 where g: "getState resolve p s w = (r0, w0)" by (cases "getState resolve p s w")
    have rp: "unreserved resolve [p]" using rok by (simp add: unreserved_def)
    have f0: "fs w0 = fs w" by (rule getState_ok(1) [OF g rp wf])
    show ?thesis
    proof (cases r0)
      case (Inl e)
      with u t g f0 show ?thesis by (auto simp: updateFile_def split: if_splits)
    next
      case (Inr sts)
      obtain st s0 where sts: "sts = (st, s0)" by (cases sts)
      have wf0: "wf_state s0" "wf_file_state (st_NewPath st) st" using getState_ok(2) [OF g rp wf] Inr sts by auto
      have wf2: "wf_state (s0\<lparr>state := AList.update (st_NewPath st) (st\<lparr>st_Content := upd\<rparr>) (state s0)\<rparr>)" for upd
        by (rule wf_state_update [OF wf0(1)]) (use wf0(2) in \<open>simp add: wf_file_state_def\<close>)
      have mv: "wf_file_state q (st\<lparr>st_Content := upd, st_NewPath := q\<rparr>)" if "resolve (fs w0) moveTo False = Inr q" for q upd
        using wf0(2) unreservedD [OF rok _ that] by (simp add: wf_file_state_def)
      show ?thesis
        using u t g Inr sts f0 wf2 wf_state_move [OF wf2 mv] check_target_fs
        by (auto simp: updateFile_def Let_def split: if_splits sum.splits prod.splits option.splits)
    qed
  qed
  then show "fs w1 = fs w" and "r = Inr s1 \<Longrightarrow> wf_state s1" by auto
qed

lemma apply_patch_hunks_ok:
  "apply_patch_hunks resolve i hs s w = (r, w1) \<Longrightarrow> unreserved resolve (concat (map hunk_paths hs)) \<Longrightarrow> wf_state s \<Longrightarrow>
   fs w1 = fs w \<and> (r = Inr s1 \<longrightarrow> wf_state s1)"
proof (induction hs arbitrary: i s w)
  case (Cons h hs)
  define step where "step = (case h of
      AddFile p content \<Rightarrow> addFile resolve p content s w
    | DeleteFile p \<Rightarrow> deleteFile resolve p i s w
    | UpdateFile p moveTo changes \<Rightarrow> updateFile resolve p moveTo changes s w)"
  obtain r0 w0 where st: "step = (r0, w0)" by (cases step)
  have ok: "fs w0 = fs w \<and> (\<forall>s0. r0 = Inr s0 \<longrightarrow> wf_state s0)"
    using st Cons.prems(2) addFile_ok [OF _ _ Cons.prems(3)] deleteFile_ok [OF _ _ Cons.prems(3)] updateFile_ok [OF _ _ Cons.prems(3)]
    unfolding step_def by (cases h) (auto simp: unreserved_def)
  have tail: "unreserved resolve (concat (map hunk_paths hs))" using Cons.prems(2) by (auto simp: unreserved_def)
  have "apply_patch_hunks resolve i (h # hs) s w =
      (case step of (Inl e, w1) \<Rightarrow> (Inl e, w1) | (Inr s1, w1) \<Rightarrow> apply_patch_hunks resolve (i + 1) hs s1 w1)"
    by (simp add: step_def)
  with Cons.prems(1) st ok Cons.IH [OF _ tail] show ?case by (auto split: sum.splits)
qed auto

lemma wf_state_new: "wf_state newApplyState"
  by (simp add: wf_state_def newApplyState_def)


section \<open>Staging\<close>

text \<open>The tool's own files may change, every other path stays.\<close>

definition own_changes :: "(path \<Rightarrow> node option) \<Rightarrow> (path \<Rightarrow> node option) \<Rightarrow> bool" where
  "own_changes f g \<longleftrightarrow> (\<forall>x. \<not> reserved x \<longrightarrow> g x = f x)"

lemma own_changes_refl [simp]: "own_changes f f"
  by (simp add: own_changes_def)

lemma own_changes_trans: "own_changes f g \<Longrightarrow> own_changes g h \<Longrightarrow> own_changes f h"
  by (simp add: own_changes_def)

lemma own_changes_upd: "reserved p \<Longrightarrow> own_changes f (f(p := n))"
  by (auto simp: own_changes_def)

lemma own_changes_data: "own_changes f g \<Longrightarrow> same_files (data_at g) (data_at f)"
  by (simp add: own_changes_def same_files_def data_at_def)

lemma remove_own:
  assumes "tree (fs w)" and "reserved p"
  shows "tree (fs (snd (os_Remove p w))) \<and> own_changes (fs w) (fs (snd (os_Remove p w))) \<and>
    (\<forall>x. x \<noteq> p \<longrightarrow> fs (snd (os_Remove p w)) x = fs w x)"
proof -
  obtain r w1 where rm: "os_Remove p w = (r, w1)" by (cases "os_Remove p w")
  show ?thesis
    using os_Remove_cases [OF rm] assms tree_remove own_changes_upd rm by (cases r) auto
qed

lemma cleanup_own:
  "tree (fs w) \<Longrightarrow> list_all stageable ss \<Longrightarrow>
   tree (fs (cleanupStagedFiles ss w)) \<and> own_changes (fs w) (fs (cleanupStagedFiles ss w))"
proof (induction ss arbitrary: w)
  case (Cons s ss)
  show ?case
  proof (cases "st_StagedPath s")
    case None
    with Cons show ?thesis by simp
  next
    case (Some p)
    with Cons.prems(2) have "reserved p" by (simp add: stageable_def)
    note r = remove_own [OF Cons.prems(1) this]
    have "tree (fs (cleanupStagedFiles ss (snd (os_Remove p w)))) \<and>
      own_changes (fs (snd (os_Remove p w))) (fs (cleanupStagedFiles ss (snd (os_Remove p w))))"
      by (rule Cons.IH) (use r Cons.prems(2) in auto)
    with r Some own_changes_trans show ?thesis by auto
  qed
qed simp

lemma nearestExistingDirectory_fs:
  "nearestExistingDirectory p w = (r, w1) \<Longrightarrow> fs w1 = fs w"
proof (induction "length p" arbitrary: p w)
  case (0 p w)
  then have "p = []" by simp
  with 0(2) os_Stat_cases(1) [of p w] show ?case
    by (subst (asm) nearestExistingDirectory.simps)
      (auto split: prod.splits sum.splits oserr.splits node.splits)
next
  case (Suc n p w)
  obtain r0 w0 where st: "os_Stat p w = (r0, w0)" by (cases "os_Stat p w")
  have f: "fs w0 = fs w" by (rule os_Stat_cases(1) [OF st])
  have IH: "nearestExistingDirectory (butlast p) w0 = (r, w1) \<Longrightarrow> fs w1 = fs w0"
    by (rule Suc.hyps(1)) (use Suc.hyps(2) in simp_all)
  have "p \<noteq> []" using Suc.hyps(2) by auto
  with Suc.prems st f IH show ?case
    by (subst (asm) (1) nearestExistingDirectory.simps)
      (auto split: prod.splits sum.splits oserr.splits node.splits)
qed

lemma file_ops_fs:
  assumes "fs w p = Some (File m0 d0)"
  shows "file_Write p d w = (r, w1) \<Longrightarrow> (r = Inr () \<and> fs w1 = (fs w)(p := Some (File m0 d))) \<or> (\<exists>e. r = Inl e \<and> fs w1 = fs w)"
    and "file_Chmod p m w = (r, w1) \<Longrightarrow> (r = Inr () \<and> fs w1 = (fs w)(p := Some (File m d0))) \<or> (\<exists>e. r = Inl e \<and> fs w1 = fs w)"
  using assms fault_same
  by (auto simp: file_Write_def file_Chmod_def split: prod.splits bool.splits option.splits node.splits)

lemma createStagedFile_ok:
  assumes r: "createStagedFile target text m w = (r, w1)" and t: "tree (fs w)"
  shows "tree (fs w1)" and "own_changes (fs w) (fs w1)"
    and "\<And>p. r = Inr p \<Longrightarrow> reserved p \<and> fs w p = None \<and> fs w1 = (fs w)(p := Some (File m text))"
proof -
  let ?goal = "\<lambda>r w1. tree (fs w1) \<and> own_changes (fs w) (fs w1) \<and>
    (\<forall>p. r = Inr p \<longrightarrow> reserved p \<and> fs w p = None \<and> fs w1 = (fs w)(p := Some (File m text)))"
  obtain r1 w2 where nd: "nearestExistingDirectory (butlast target) w = (r1, w2)"
    by (cases "nearestExistingDirectory (butlast target) w")
  have f2: "fs w2 = fs w" by (rule nearestExistingDirectory_fs [OF nd])
  have "?goal r w1"
  proof (cases r1)
    case (Inl e)
    with r nd f2 t show ?thesis by (auto simp: createStagedFile_def)
  next
    case dir: (Inr dir)
    obtain r2 w3 where ct: "os_CreateTemp dir (stage_prefix target) w2 = (r2, w3)"
      by (cases "os_CreateTemp dir (stage_prefix target) w2")
    show ?thesis
    proof (cases r2)
      case (Inl e)
      with r nd f2 t dir ct os_CreateTemp_ok(1) [OF ct Inl] show ?thesis by (auto simp: createStagedFile_def)
    next
      case p: (Inr p)
      obtain x where x: "p = dir @ [stage_prefix target @ x]" and fresh: "fs w p = None" "fs w dir = Some Dir"
        and f3: "fs w3 = (fs w)(p := Some (File 0x180 []))"
        using os_CreateTemp_ok(2) [OF ct p] f2 by auto
      have rp: "reserved p" using x reserved_stage by simp
      have tp: "tree ((fs w)(p := Some n))" for n
        by (rule tree_add) (use t fresh x in \<open>auto simp: tree_def\<close>)
      have goal: "?goal (Inl e) (snd (os_Remove p w'))" if "fs w' = (fs w)(p := Some n)" for w' n e
        using remove_own [of w' p] that tp rp own_changes_trans [OF own_changes_upd [OF rp]] by auto
      obtain r4 w4 where fw: "file_Write p text w3 = (r4, w4)" by (cases "file_Write p text w3")
      note wo = file_ops_fs(1) [OF _ fw, where ?m0.0 = "0x180" and ?d0.0 = "[]"]
      show ?thesis
      proof (cases r4)
        case (Inl e)
        with wo f3 have "fs w4 = (fs w)(p := Some (File 0x180 []))" by auto
        with goal [of w4 "File 0x180 []" e] r nd dir ct p fw Inl show ?thesis by (auto simp: createStagedFile_def)
      next
        case w4: (Inr u)
        with wo f3 have f4: "fs w4 = (fs w)(p := Some (File 0x180 text))" by auto
        obtain r5 w5 where fc: "file_Chmod p m w4 = (r5, w5)" by (cases "file_Chmod p m w4")
        note co = file_ops_fs(2) [OF _ fc, where ?m0.0 = "0x180" and ?d0.0 = "text"]
        show ?thesis
        proof (cases r5)
          case (Inl e)
          with co f4 have "fs w5 = (fs w)(p := Some (File 0x180 text))" by auto
          with goal [of w5 "File 0x180 text" e] r nd dir ct p fw w4 fc Inl show ?thesis by (auto simp: createStagedFile_def)
        next
          case w5: (Inr u')
          with co f4 have f5: "fs w5 = (fs w)(p := Some (File m text))" by auto
          obtain b w6 where ff: "fault w5 = (b, w6)" by (cases "fault w5")
          have f6: "fs w6 = (fs w)(p := Some (File m text))" using fault_same [OF ff] f5 by simp
          show ?thesis
          proof (cases b)
            case True
            with goal [of w6 "File m text" ErrOther] f6 r nd dir ct p fw w4 fc w5 ff show ?thesis
              by (auto simp: createStagedFile_def)
          next
            case False
            with f6 r nd dir ct p fw w4 fc w5 ff rp fresh tp own_changes_upd [OF rp] show ?thesis
              by (auto simp: createStagedFile_def)
          qed
        qed
      qed
    qed
  qed
  then show "tree (fs w1)" and "own_changes (fs w) (fs w1)"
    and "\<And>p. r = Inr p \<Longrightarrow> reserved p \<and> fs w p = None \<and> fs w1 = (fs w)(p := Some (File m text))"
    by blast+
qed

text \<open>The states that have their staged file.\<close>

definition staged_ok :: "(path \<Rightarrow> node option) \<Rightarrow> patchFileState \<Rightarrow> bool" where
  "staged_ok f s \<longleftrightarrow> (\<exists>q. st_StagedPath s = Some q \<and> reserved q \<and>
     f q = Some (File (st_Mode s) (commit_text (st_Content s))))"

lemma prepare_states_ok:
  assumes "prepare_states validate staged ss w = (r, w1)" and "tree (fs w)"
    and "list_all stageable staged" and "list_all stageable ss"
    and "list_all (staged_ok (fs w)) staged" and "distinct (map st_StagedPath staged)"
  shows "tree (fs w1) \<and> own_changes (fs w) (fs w1) \<and>
    (r = Inr states \<longrightarrow> list_all stageable states \<and> list_all (staged_ok (fs w1)) states \<and>
       distinct (map st_StagedPath states) \<and>
       map (\<lambda>s. s\<lparr>st_StagedPath := None\<rparr>) states = map (\<lambda>s. s\<lparr>st_StagedPath := None\<rparr>) (staged @ ss))"
  using assms
proof (induction ss arbitrary: staged w)
  case Nil
  then show ?case by auto
next
  case (Cons s ss)
  have st: "list_all stageable (staged @ s # ss)" using Cons.prems(3,4) by simp
  show ?case
  proof (cases "validate (fs w) (st_NewPath s)")
    case False
    with Cons.prems(1) have "r = Inl (CommitFailure (CommitError (AccessDenied (st_NewPath s)) []))"
        "w1 = cleanupStagedFiles (staged @ s # ss) w" by auto
    with cleanup_own [OF Cons.prems(2) st] show ?thesis by simp
  next
    case v: True
    obtain r0 w0 where cf: "createStagedFile (st_NewPath s) (commit_text (st_Content s)) (st_Mode s) w = (r0, w0)"
      by (cases "createStagedFile (st_NewPath s) (commit_text (st_Content s)) (st_Mode s) w")
    note c = createStagedFile_ok [OF cf Cons.prems(2)]
    show ?thesis
    proof (cases r0)
      case (Inl e)
      with Cons.prems(1) v cf have "w1 = cleanupStagedFiles (staged @ s # ss) w0" "\<exists>e'. r = Inl e'" by auto
      with cleanup_own [OF c(1) st] own_changes_trans [OF c(2)] show ?thesis by auto
    next
      case p: (Inr p)
      let ?s = "s\<lparr>st_StagedPath := Some p\<rparr>"
      have f: "reserved p" "fs w p = None" "fs w0 = (fs w)(p := Some (File (st_Mode s) (commit_text (st_Content s))))"
        using c(3) [OF p] by auto
      have rest: "prepare_states validate (staged @ [?s]) ss w0 = (r, w1)" using Cons.prems(1) v cf p by simp
      have fresh: "st_StagedPath x \<noteq> Some p" if "x \<in> set staged" for x
        using Cons.prems(5) that f(2) by (auto simp: list_all_iff staged_ok_def)
      have so: "list_all (staged_ok (fs w0)) (staged @ [?s])"
        using Cons.prems(5) fresh f by (fastforce simp: list_all_iff staged_ok_def)
      have distinct: "Some p \<notin> st_StagedPath ` set staged" using fresh by fastforce
      have "tree (fs w1) \<and> own_changes (fs w0) (fs w1) \<and>
        (r = Inr states \<longrightarrow> list_all stageable states \<and> list_all (staged_ok (fs w1)) states \<and>
           distinct (map st_StagedPath states) \<and>
           map (\<lambda>s. s\<lparr>st_StagedPath := None\<rparr>) states = map (\<lambda>s. s\<lparr>st_StagedPath := None\<rparr>) ((staged @ [?s]) @ ss))"
        by (rule Cons.IH [OF rest c(1) _ _ so])
          (use Cons.prems(3,4,6) f(1) distinct in \<open>auto simp: stageable_def\<close>)
      then show ?thesis using own_changes_trans [OF c(2)] by auto
    qed
  qed
qed

section \<open>All or nothing\<close>

lemma wf_state_targets: "wf_state s \<Longrightarrow> list_all (\<lambda>p. \<not> reserved p) (mkeys (deleteTargets s))"
  unfolding wf_state_def list_all_iff using mhas_iff by metis

lemma stageable_states:
  assumes "wf_state s"
  shows "list_all stageable (sortedCommitStates (state s))" and "distinct (map st_NewPath (sortedCommitStates (state s)))"
    and "set (sortedCommitStates (state s)) = ran (map_of (state s))"
proof -
  have wf: "wf_file_state k st" if "(k, st) \<in> set (state s)" for k st
    using assms that by (auto simp: wf_state_def)
  have d: "distinct (mkeys (state s))" using assms by (simp add: wf_state_def)
  show "list_all stageable (sortedCommitStates (state s))"
    using wf by (auto simp: sortedCommitStates_def list_all_iff stageable_def wf_file_state_def)
  have "map st_NewPath (map snd (state s)) = mkeys (state s)"
    using wf by (auto simp: wf_file_state_def)
  then have "distinct (map st_NewPath (map snd (state s)))" using d by metis
  moreover have "mset (map st_NewPath (sortedCommitStates (state s))) = mset (map st_NewPath (map snd (state s)))"
    by (simp add: sortedCommitStates_def multiset.map_comp)
  ultimately show "distinct (map st_NewPath (sortedCommitStates (state s)))"
    using mset_eq_imp_distinct_iff by blast
  show "set (sortedCommitStates (state s)) = ran (map_of (state s))"
    using ran_distinct [OF d] by (simp add: sortedCommitStates_def)
qed

definition rollback_clean :: "applyError \<Rightarrow> bool" where
  "rollback_clean e = (case e of PatchFailure _ \<Rightarrow> True | CommitFailure (CommitError _ errs) \<Rightarrow> errs = [])"

lemma apply_failure_restores:
  assumes r: "apply_document resolve validate doc w = (Inl e, w')" and "rollback_clean e"
    and t: "tree (fs w)" and rok: "unreserved resolve (document_paths doc)" and p: "\<not> reserved p"
  shows "data_at (fs w') p = data_at (fs w) p"
proof -
  obtain r1 w1 where h: "apply_patch_hunks resolve 0 (Hunks doc) newApplyState w = (r1, w1)"
    by (cases "apply_patch_hunks resolve 0 (Hunks doc) newApplyState w")
  note ho = apply_patch_hunks_ok [OF h rok [unfolded document_paths_def] wf_state_new]
  have "same_files (data_at (fs w')) (data_at (fs w))"
  proof (cases r1)
    case (Inl f)
    with r h ho show ?thesis by (auto simp: apply_document_def)
  next
    case s: (Inr s)
    with ho have wf: "wf_state s" and f1: "fs w1 = fs w" by auto
    obtain r2 w2 where pr: "prepareCommitStates validate (state s) w1 = (r2, w2)"
      by (cases "prepareCommitStates validate (state s) w1")
    have po: "tree (fs w2)" "own_changes (fs w1) (fs w2)"
      and ps: "\<And>states. r2 = Inr states \<Longrightarrow> list_all stageable states"
      using prepare_states_ok [OF pr [unfolded prepareCommitStates_def]] t f1 stageable_states(1) [OF wf] by auto
    note same2 = own_changes_data [OF po(2), unfolded f1]
    show ?thesis
    proof (cases r2)
      case (Inl f)
      with r h s pr same2 show ?thesis by (auto simp: apply_document_def)
    next
      case states: (Inr states)
      obtain r3 w3 where cm: "commitStagedFiles validate states (deleteTargets s) w2 = (r3, w3)"
        by (cases "commitStagedFiles validate states (deleteTargets s) w2")
      with r h s pr states obtain ce where ce: "r3 = Inl ce" "e = CommitFailure ce" "w' = cleanupStagedFiles states w3"
        by (auto simp: apply_document_def split: sum.splits)
      then obtain cause where "ce = CommitError cause []"
        using assms(2) by (cases ce) (auto simp: rollback_clean_def)
      with cm ce have "commitStagedFiles validate states (deleteTargets s) w2 = (Inl (CommitError cause []), w3)" by simp
      moreover have "list_all (\<lambda>p. \<not> reserved p) (mkeys (deleteTargets s))"
        by (rule wf_state_targets [OF wf])
      ultimately have c3: "tree (fs w3) \<and> same_files (data_at (fs w3)) (data_at (fs w2))"
        by (intro commit_failure_restores [OF _ po(1) ps [OF states]])
      then have "own_changes (fs w3) (fs w')" using cleanup_own [OF _ ps [OF states]] ce(3) by auto
      then show ?thesis using c3 same2 own_changes_data same_files_trans by blast
    qed
  qed
  with p show ?thesis by (simp add: same_files_def)
qed

text \<open>Staging changes no field of a state but its staged path.\<close>

lemma unstage_fields:
  assumes "map (\<lambda>s. s\<lparr>st_StagedPath := None\<rparr>) xs = map (\<lambda>s. s\<lparr>st_StagedPath := None\<rparr>) ys"
    and "\<And>s. f (s\<lparr>st_StagedPath := None\<rparr>) = f s"
  shows "map f xs = map f ys"
proof -
  have "map f (map (\<lambda>s. s\<lparr>st_StagedPath := None\<rparr>) xs) = map f (map (\<lambda>s. s\<lparr>st_StagedPath := None\<rparr>) ys)"
    by (simp only: assms(1))
  then show ?thesis by (simp add: comp_def assms(2))
qed

lemma unstage_moved:
  assumes "map (\<lambda>s. s\<lparr>st_StagedPath := None\<rparr>) xs = map (\<lambda>s. s\<lparr>st_StagedPath := None\<rparr>) ys"
  shows "moved_sources xs = moved_sources ys"
proof -
  have m: "moved_sources zs = set (map snd (filter (\<lambda>(new, old). new \<noteq> old) (map (\<lambda>s. (st_NewPath s, st_Original s)) zs)))" for zs
    by (force simp: moved_sources_def)
  show ?thesis unfolding m using unstage_fields [OF assms, of "\<lambda>s. (st_NewPath s, st_Original s)"] by simp
qed

lemma unstage_member:
  assumes "map (\<lambda>s. s\<lparr>st_StagedPath := None\<rparr>) xs = map (\<lambda>s. s\<lparr>st_StagedPath := None\<rparr>) ys" and "y \<in> set ys"
  shows "\<exists>x \<in> set xs. st_NewPath x = st_NewPath y \<and> st_Mode x = st_Mode y \<and> st_Content x = st_Content y"
proof -
  let ?f = "\<lambda>s. (st_NewPath s, st_Mode s, st_Content s)"
  have "set (map ?f xs) = set (map ?f ys)" using unstage_fields [OF assms(1), of ?f] by simp
  then have "?f y \<in> ?f ` set xs" using assms(2) by simp
  then show ?thesis by auto
qed

text \<open>C13: When a patch is applied successfully, the files are exactly those of the pending state that its
  hunks build up: a pending file has its lines and its mode; a deleted file or the source of a move
  is gone; every other file is unchanged. Names that the tool reserves for itself are left out.\<close>

theorem patch_success:
  assumes r: "apply_document resolve validate doc w = (Inr facts, w')"
    and t: "tree (fs w)" and rok: "unreserved resolve (document_paths doc)"
  shows "\<exists>s w1. apply_patch_hunks resolve 0 (Hunks doc) newApplyState w = (Inr s, w1) \<and>
    (\<forall>x. \<not> reserved x \<longrightarrow>
       (case map_of (state s) x of
          Some st \<Rightarrow> fs w' x = Some (File (st_Mode st) (commit_text (st_Content st)))
        | None \<Rightarrow> data_at (fs w') x =
            (if mhas (deleteTargets s) x \<or> (\<exists>st \<in> ran (map_of (state s)). st_NewPath st \<noteq> st_Original st \<and> st_Original st = x)
             then None else data_at (fs w) x)))"
proof -
  from r obtain s w1 states w2 w3 where h: "apply_patch_hunks resolve 0 (Hunks doc) newApplyState w = (Inr s, w1)"
    and pr: "prepareCommitStates validate (state s) w1 = (Inr states, w2)"
    and cm: "commitStagedFiles validate states (deleteTargets s) w2 = (Inr facts, w3)"
    and w': "w' = cleanupStagedFiles states w3"
    by (auto simp: apply_document_def split: sum.splits prod.splits)
  have wf: "wf_state s" and f1: "fs w1 = fs w" using apply_patch_hunks_ok [OF h rok [unfolded document_paths_def] wf_state_new] by auto
  note ss = stageable_states [OF wf]
  have t1: "tree (fs w1)" using t f1 by simp
  have po: "tree (fs w2)" "own_changes (fs w) (fs w2)" "list_all stageable states" "list_all (staged_ok (fs w2)) states"
      "distinct (map st_StagedPath states)"
      "map (\<lambda>s. s\<lparr>st_StagedPath := None\<rparr>) states = map (\<lambda>s. s\<lparr>st_StagedPath := None\<rparr>) (sortedCommitStates (state s))"
    using prepare_states_ok [OF pr [unfolded prepareCommitStates_def] t1 _ ss(1), where states = states] f1 by auto
  have tg: "list_all (\<lambda>p. \<not> reserved p) (mkeys (deleteTargets s))"
    by (rule wf_state_targets [OF wf])
  have np: "distinct (map st_NewPath states)" "st_NewPath ` set states = st_NewPath ` ran (map_of (state s))"
    using unstage_fields [OF po(6), of st_NewPath] ss(2,3) by (simp_all add: list.set_map [symmetric])
  note cs = commit_success [OF cm po(1,3) tg po(5) np(1)]
  have moved: "moved_sources states = {x. \<exists>st \<in> ran (map_of (state s)). st_NewPath st \<noteq> st_Original st \<and> st_Original st = x}"
    using unstage_moved [OF po(6)] ss(3) by (auto simp: moved_sources_def)
  have wf3: "own_changes (fs w3) (fs w')" using cleanup_own [OF cs(3) po(3)] w' by simp
  have "case map_of (state s) x of
          Some st \<Rightarrow> fs w' x = Some (File (st_Mode st) (commit_text (st_Content st)))
        | None \<Rightarrow> data_at (fs w') x =
            (if mhas (deleteTargets s) x \<or> (\<exists>st \<in> ran (map_of (state s)). st_NewPath st \<noteq> st_Original st \<and> st_Original st = x)
             then None else data_at (fs w) x)" if x: "\<not> reserved x" for x
  proof (cases "map_of (state s) x")
    case (Some st)
    then have k: "st_NewPath st = x" "st \<in> set (sortedCommitStates (state s))"
      using wf ss(3) by (auto simp: wf_state_def wf_file_state_def ranI)
    obtain st' where st': "st' \<in> set states" and eq: "st_NewPath st' = x" "st_Mode st' = st_Mode st" "st_Content st' = st_Content st"
      using unstage_member [OF po(6) k(2)] k(1) by auto
    obtain q where "st_StagedPath st' = Some q" "fs w3 x = fs w2 q" using cs(1) st' eq(1) by blast
    moreover have "fs w2 q = Some (File (st_Mode st) (commit_text (st_Content st)))"
      using po(4) st' calculation(1) eq by (auto simp: list_all_iff staged_ok_def)
    ultimately show ?thesis using Some wf3 x by (simp add: own_changes_def)
  next
    case None
    then have "x \<notin> st_NewPath ` set states"
      using np(2) wf by (auto simp: wf_state_def wf_file_state_def ran_def)
    from cs(2) [OF x this] have "data_at (fs w3) x =
        (if x \<in> set (mkeys (deleteTargets s)) \<union> moved_sources states then None else data_at (fs w2) x)" .
    moreover have "data_at (fs w2) x = data_at (fs w) x" "data_at (fs w') x = data_at (fs w3) x"
      using own_changes_data [OF po(2)] own_changes_data [OF wf3] x by (simp_all add: same_files_def)
    ultimately show ?thesis using None by (simp only: moved mhas_iff option.case Un_iff mem_Collect_eq)
  qed
  with h show ?thesis by blast
qed

section \<open>The text of a file\<close>

text \<open>The lines of a written file are read back, unless the last line is blank.\<close>

lemma commit_text_roundtrip:
  assumes "list_all (\<lambda>l. nl \<notin> set l \<and> cr \<notin> set l) lines" and "lines \<noteq> []" and "last lines \<noteq> []"
  shows "splitLines (commit_text lines) = lines"
proof -
  have nl: "\<forall>l \<in> set lines. nl \<notin> set l" using assms(1) by (simp add: list_all_iff)
  have "last (Join lines [nl]) = last (last lines)" "Join lines [nl] \<noteq> []"
    using last_Join [OF assms(2,3)] by simp_all
  moreover have "last (last lines) \<noteq> nl" using assms nl by (metis last_in_set)
  ultimately have written: "commit_text lines = Join lines [nl] @ [nl]"
    using assms(2) by (auto simp: commit_text_def Let_def HasSuffix_iff)
  have "set (Join ls [nl]) \<subseteq> \<Union> (set ` set ls) \<union> {nl}" for ls
    by (induction ls "[nl]" rule: Join.induct) auto
  then have "cr \<notin> set (Join lines [nl] @ [nl])" using assms(1) by (fastforce simp: list_all_iff)
  then have "\<not> Contains (Join lines [nl] @ [nl]) crlf"
    unfolding Contains_iff by (metis in_set_conv_decomp append_Cons)
  then have "ReplaceAll (commit_text lines) crlf [nl] = Join lines [nl] @ [nl]"
    using written by (simp add: ReplaceAll_absent)
  moreover have "TrimSuffix (Join lines [nl] @ [nl]) [nl] = Join lines [nl]"
    by (simp add: TrimSuffix_def TrimPrefix_def)
  ultimately show ?thesis
    using SplitLines_Join [OF assms(2) nl] \<open>Join lines [nl] \<noteq> []\<close> by (simp add: splitLines_def Let_def)
qed


section \<open>A call of the tool\<close>

definition call_failed :: "callResult \<Rightarrow> bool" where
  "call_failed r = (case r of PatchOk _ _ \<Rightarrow> False | PatchError e _ \<Rightarrow> rollback_clean e | _ \<Rightarrow> True)"

text \<open>The paths of a patch that can be parsed.\<close>

definition patch_paths :: "string \<Rightarrow> string list" where
  "patch_paths patch = (case Parse patch of Inl _ \<Rightarrow> [] | Inr doc \<Rightarrow> document_paths doc)"


end
