(* ===== verification/Patch_Examples.thy ===== *)
theory Patch_Examples
  imports Patch_Props
begin

text \<open>
  The theorems on the patch tool at concrete inputs, and runs of the tool that show where it
  departs from what it means to do.
\<close>

section \<open>A small file tree and its patches\<close>

fun components :: "string \<Rightarrow> string \<Rightarrow> path" where
  "components [] c = [c]"
| "components (d # s) c = (if d = CHR ''/'' then c # components s [] else components s (c @ [d]))"

definition sample_resolve :: resolver where
  "sample_resolve f p b =
     Inr (components p [])"

definition allow :: validator where
  "allow f p = True"

definition minus_line :: "string \<Rightarrow> ChangeLine" where
  "minus_line s = \<lparr>Kind = CHR ''-'', Content = s, EndOfFile = False\<rparr>"

definition plus_line :: "string \<Rightarrow> ChangeLine" where
  "plus_line s = \<lparr>Kind = CHR ''+'', Content = s, EndOfFile = False\<rparr>"

definition context_line :: "string \<Rightarrow> ChangeLine" where
  "context_line s = \<lparr>Kind = CHR '' '', Content = s, EndOfFile = False\<rparr>"

definition sample_world :: "bool list \<Rightarrow> world" where
  "sample_world flt =
     \<lparr>fs = [[] \<mapsto> Dir, [''a''] \<mapsto> File 0x1B4 (''one'' @ [nl]), [''b''] \<mapsto> File 0x1A4 (''x'' @ [nl] @ ''y'' @ [nl, nl])],
      faults = flt, umask = 0x12, randoms = [''1'', ''2'', ''3'']\<rparr>"

definition sample_doc :: Document where
  "sample_doc = \<lparr>Hunks = [DeleteFile ''a'', UpdateFile ''b'' [] [minus_line ''x'', plus_line ''z'', context_line ''y'']]\<rparr>"

text \<open>The write of \<open>b\<close> fails after \<open>a\<close> has been removed.\<close>

definition failing_run :: "callResult \<times> world" where
  "failing_run = Patch_Call sample_resolve allow (print_document sample_doc) (sample_world (replicate 14 False @ [True]))"

definition good_run :: "(applyError + WholeFileDeletionFact list) \<times> world" where
  "good_run = apply_document sample_resolve allow sample_doc (sample_world [])"

lemma sample_tree: "tree (fs (sample_world flt))"
  by (auto simp: tree_def sample_world_def)

lemma sample_unreserved: "unreserved sample_resolve ps \<longleftrightarrow> list_all (\<lambda>p. \<not> reserved (components p [])) ps"
  by (auto simp: unreserved_def sample_resolve_def list_all_iff)


section \<open>The theorems at concrete inputs\<close>

theorem Parse_print_sample: "Parse (print_document sample_doc) = Inr sample_doc"
proof (rule Parse_print)
  show "list_all wf_hunk (Hunks sample_doc)" by code_simp
  show "list_all scannable (document_lines sample_doc)" by code_simp
qed

definition sample_patch :: string where
  "sample_patch = Join [''*** Begin Patch'', ''*** Add File: a'', ''+one'', ''*** End Patch''] [nl]"

theorem Parse_wf_sample:
  "Parse sample_patch = Inr \<lparr>Hunks = [AddFile ''a'' [''one'']]\<rparr> \<and> list_all wf_hunk [AddFile ''a'' [''one'']]"
proof -
  have p: "Parse sample_patch = Inr \<lparr>Hunks = [AddFile ''a'' [''one'']]\<rparr>" by code_simp
  with Parse_wf [OF p] show ?thesis by simp
qed

theorem decimal_exact_sample:
  "decimal [] [] (''9223372036854775807'' @ '' x'') = Inr (9223372036854775807, '' x'') \<and>
   decimal [] [] (''9223372036854775808'' @ []) = Inl (malformedFailure (InvalidHunkNumber [] []))"
proof -
  have 1: "list_all isASCIIDigit ''9223372036854775807''" "list_all isASCIIDigit ''9223372036854775808''" by code_simp+
  have 2: "digits_value ''9223372036854775807'' = 9223372036854775807" "digits_value ''9223372036854775808'' = 9223372036854775808"
    by code_simp+
  have 3: "\<not> isASCIIDigit (hd '' x'')" by code_simp
  show ?thesis
    using decimal_exact [OF _ 1(1), of "'' x''" "[]" "[]"] decimal_exact [OF _ 1(2), of "[]" "[]" "[]"] 2 3
    by (simp add: MaxInt_def)
qed

definition edit_sample :: "ChangeLine list" where
  "edit_sample = [header_line 2 2 2 1, context_line ''b'', minus_line ''c'', \<lparr>Kind = CHR ''@'', Content = ''@'', EndOfFile = False\<rparr>,
     minus_line ''f'', plus_line ''F'']"

theorem applyEdit_edits_sample:
  "\<exists>hunks. parseEditHunks edit_sample = Inr hunks \<and>
     edits 0 [''a'', ''b'', ''c'', ''d'', ''e'', ''f''] hunks [''a'', ''b'', ''d'', ''e'', ''F'']"
proof (rule applyEdit_edits)
  show "applyEdit [''a'', ''b'', ''c'', ''d'', ''e'', ''f''] edit_sample = Inr [''a'', ''b'', ''d'', ''e'', ''F'']"
    by code_simp
  show "length [''a'', ''b'', ''c'', ''d'', ''e'', ''f''] + length edit_sample \<le> 2 ^ 61"
    by (simp add: edit_sample_def)
qed

definition diff_sample :: "(string list \<times> ChangeLine list) list" where
  "diff_sample = [([''a''], [context_line ''b'', minus_line ''c'']), ([''d'', ''e''], [minus_line ''f'', plus_line ''F''])]"

theorem applyEdit_unified_diff_sample:
  "applyEdit (old_text diff_sample [''g'']) (unified_diff 0 0 diff_sample) = Inr (new_text diff_sample [''g'']) \<and>
   old_text diff_sample [''g''] = [''a'', ''b'', ''c'', ''d'', ''e'', ''f'', ''g''] \<and>
   new_text diff_sample [''g''] = [''a'', ''b'', ''d'', ''e'', ''F'', ''g'']"
proof -
  have t: "old_text diff_sample [''g''] = [''a'', ''b'', ''c'', ''d'', ''e'', ''f'', ''g'']"
      "new_text diff_sample [''g''] = [''a'', ''b'', ''d'', ''e'', ''F'', ''g'']" by code_simp+
  have d: "list_all diff_region diff_sample" by code_simp
  show ?thesis using applyEdit_unified_diff [OF d, of "[''g'']"] t by simp
qed


theorem patch_success_sample:
  "\<exists>s w1. apply_patch_hunks sample_resolve 0 (Hunks sample_doc) newApplyState (sample_world []) = (Inr s, w1) \<and>
     mhas (deleteTargets s) [''a''] \<and> map_of (state s) [''a''] = None \<and> data_at (fs (snd good_run)) [''a''] = None"
proof -
  have "fst good_run = Inr [\<lparr>fact_FirstOperation = 0, fact_OperationIDs = [0], fact_Removed = 1\<rparr>]" by code_simp
  then have r: "apply_document sample_resolve allow sample_doc (sample_world []) =
      (Inr [\<lparr>fact_FirstOperation = 0, fact_OperationIDs = [0], fact_Removed = 1\<rparr>], snd good_run)"
    unfolding good_run_def by (metis prod.collapse)
  have u: "unreserved sample_resolve (document_paths sample_doc)" unfolding sample_unreserved by code_simp
  obtain s w1 where h: "apply_patch_hunks sample_resolve 0 (Hunks sample_doc) newApplyState (sample_world []) = (Inr s, w1)"
    and x: "\<And>x. \<not> reserved x \<Longrightarrow> (case map_of (state s) x of
          Some st \<Rightarrow> fs (snd good_run) x = Some (File (st_Mode st) (commit_text (st_Content st)))
        | None \<Rightarrow> data_at (fs (snd good_run)) x =
            (if mhas (deleteTargets s) x \<or> (\<exists>st \<in> ran (map_of (state s)). st_NewPath st \<noteq> st_Original st \<and> st_Original st = x)
             then None else data_at (fs (sample_world [])) x))"
    using patch_success [OF r sample_tree u] by auto
  have n: "\<not> reserved [''a'']" by code_simp
  have s: "(case fst (apply_patch_hunks sample_resolve 0 (Hunks sample_doc) newApplyState (sample_world [])) of
      Inl _ \<Rightarrow> False | Inr s \<Rightarrow> mhas (deleteTargets s) [''a''] \<and> map_of (state s) [''a''] = None)"
    by code_simp
  then have "mhas (deleteTargets s) [''a''] \<and> map_of (state s) [''a''] = None" using h by simp
  with h x [OF n] show ?thesis by auto
qed

section \<open>Where the tool departs from its purpose\<close>

text \<open>An update that does not touch the end of a file still drops a blank last line: the lines
  \<open>x\<close>, \<open>y\<close> and an empty line are written back as \<open>z\<close> and \<open>y\<close>.\<close>

theorem patch_drops_trailing_blank_line:
  "fs (sample_world []) [''b''] = Some (File 0x1A4 (''x'' @ [nl] @ ''y'' @ [nl, nl])) \<and>
   fs (snd good_run) [''b''] = Some (File 0x1A4 (''z'' @ [nl] @ ''y'' @ [nl]))"
  by (rule conjI) code_simp+

text \<open>A file that the patch replaces by a directory is lost when a later write fails: the
  roll-back cannot rename the restored file over the directory that the commit has made.\<close>

definition replacing_doc :: Document where
  "replacing_doc = \<lparr>Hunks = [DeleteFile ''a'', AddFile ''a/c'' [''two''], UpdateFile ''b'' [] [minus_line ''x'']]\<rparr>"

definition losing_run :: "(applyError + WholeFileDeletionFact list) \<times> world" where
  "losing_run = apply_document sample_resolve allow replacing_doc (sample_world (replicate 24 False @ [True]))"

theorem rollback_loses_replaced_file:
  "fst losing_run = Inl (CommitFailure (CommitError (CommitWriteFailed [''b'']) [RestoreFailed [''a'']])) \<and>
   fs (snd losing_run) [''a''] = Some Dir"
  by (rule conjI) code_simp+

text \<open>The roll-back restores the content of a file but not all of its permissions: the mode
  is reduced by the mask of the process.\<close>

theorem rollback_masks_permissions:
  "fs (sample_world []) [''a''] = Some (File 0x1B4 (''one'' @ [nl])) \<and>
   fs (snd failing_run) [''a''] = Some (File 0x1A4 (''one'' @ [nl]))"
  by (rule conjI) code_simp+

text \<open>In a unified diff a header without old lines names the line before the insertion; the tool
  inserts before that line.\<close>

theorem insertion_header_off_by_one:
  "applyEdit [''a'', ''b'', ''c''] [header_line 2 0 3 1, plus_line ''new''] = Inr [''a'', ''new'', ''b'', ''c'']"
  by code_simp

text \<open>A file can be added below a deleted file, but only directly below it.\<close>

definition nested_doc :: "string \<Rightarrow> Document" where
  "nested_doc p = \<lparr>Hunks = [DeleteFile ''a'', AddFile p [''two'']]\<rparr>"

theorem nested_add_below_deleted_file:
  "fs (snd (apply_document sample_resolve allow (nested_doc ''a/c'') (sample_world []))) [''a'', ''c''] =
     Some (File 0x1A4 (''two'' @ [nl])) \<and>
   fst (apply_document sample_resolve allow (nested_doc ''a/c/d'') (sample_world [])) =
     Inl (PatchFailure (internalFailure [''a'', ''c'', ''d''] ''stage write failed''))"
  by (rule conjI) code_simp+

end
