(* ===== verification/Edit_Match.thy ===== *)
theory Edit_Match
  imports Go_Strings
begin

text \<open>
  The matcher of the edit tool, \<open>src/server/tools/edit/matcher.go\<close>, and the functions of the
  packages \<open>strings\<close>, \<open>strconv\<close> and \<open>unicode/utf8\<close> that only it uses. The Unicode tables of
  letters and digits are a parameter (\<open>word_rune\<close>).
\<close>

section \<open>Library functions\<close>

text \<open>\<open>strings.Fields\<close>: the maximal runs without white space.\<close>

function fields_loop :: "string \<Rightarrow> string \<Rightarrow> string list" where
  "fields_loop cur s =
     (case s of [] \<Rightarrow> (if cur = [] then [] else [cur])
      | c # cs \<Rightarrow>
         (case strip_one space_encodings s of
            Some r \<Rightarrow> (if cur = [] then fields_loop [] r else cur # fields_loop [] r)
          | None \<Rightarrow> fields_loop (cur @ [c]) cs))"
  by pat_completeness auto
termination
  by (relation "measure (\<lambda>(cur, s). length s)") (auto dest: strip_one_length)

declare fields_loop.simps [simp del]

definition Fields :: "string \<Rightarrow> string list" where
  "Fields s = fields_loop [] s"

text \<open>\<open>strings.NewReplacer\<close> for pairs none of which starts with another.\<close>

function Replacer :: "(string \<times> string) list \<Rightarrow> string \<Rightarrow> string" where
  "Replacer pairs s =
     (case s of [] \<Rightarrow> []
      | c # cs \<Rightarrow>
         (case List.find (\<lambda>(old, new). old \<noteq> [] \<and> HasPrefix s old) pairs of
            None \<Rightarrow> c # Replacer pairs cs
          | Some (old, new) \<Rightarrow> new @ Replacer pairs (drop (length old) s)))"
  by pat_completeness auto
termination
  by (relation "measure (\<lambda>(pairs, s). length s)") (auto dest: find_Some_iff [THEN iffD1])

declare Replacer.simps [simp del]

text \<open>The runes of a string as \<open>range\<close> yields them: an invalid byte is the replacement
  character, which is written back as its three bytes.\<close>

definition rune_error :: string where
  "rune_error = [CHR 0xEF, CHR 0xBF, CHR 0xBD]"

definition invalid_rune :: "string \<Rightarrow> bool" where
  "invalid_rune s \<longleftrightarrow> s \<noteq> [] \<and> rune_width s = 1 \<and> 0x80 \<le> (of_char (hd s) :: nat)"

lemma drop_rune_shorter: "s \<noteq> [] \<Longrightarrow> length (drop (rune_width s) s) < length s"
  using rune_width_bounds [of s] by (cases s) simp_all

function runes :: "string \<Rightarrow> string list" where
  "runes s =
     (if s = [] then []
      else (if invalid_rune s then rune_error else take (rune_width s) s) # runes (drop (rune_width s) s))"
  by pat_completeness auto
termination
  by (relation "measure length") (auto dest: drop_rune_shorter simp del: length_drop)

declare runes.simps [simp del]

function utf8_Valid :: "string \<Rightarrow> bool" where
  "utf8_Valid s = (if s = [] then True else if invalid_rune s then False else utf8_Valid (drop (rune_width s) s))"
  by pat_completeness auto
termination
  by (relation "measure length") (auto dest: drop_rune_shorter simp del: length_drop)

declare utf8_Valid.simps [simp del]

text \<open>\<open>utf8.AppendRune\<close> for a valid code point.\<close>

definition encode_rune :: "nat \<Rightarrow> string" where
  "encode_rune r =
     (if r < 0x80 then [char_of r]
      else if r < 0x800 then [char_of (0xC0 + r div 64), char_of (0x80 + r mod 64)]
      else if r < 0x10000 then
        [char_of (0xE0 + r div 4096), char_of (0x80 + r div 64 mod 64), char_of (0x80 + r mod 64)]
      else
        [char_of (0xF0 + r div 262144), char_of (0x80 + r div 4096 mod 64),
         char_of (0x80 + r div 64 mod 64), char_of (0x80 + r mod 64)])"

definition hex_digit :: "char \<Rightarrow> nat option" where
  "hex_digit c =
     (let n = of_char c :: nat in
      if 48 \<le> n \<and> n \<le> 57 then Some (n - 48)
      else if 97 \<le> n \<and> n \<le> 102 then Some (n - 87)
      else if 65 \<le> n \<and> n \<le> 70 then Some (n - 55)
      else None)"

fun hex_value :: "nat \<Rightarrow> string \<Rightarrow> nat option" where
  "hex_value v [] = Some v"
| "hex_value v (c # cs) = (case hex_digit c of None \<Rightarrow> None | Some d \<Rightarrow> hex_value (v * 16 + d) cs)"

definition octal_digit :: "char \<Rightarrow> nat option" where
  "octal_digit c = (let n = of_char c :: nat in if 48 \<le> n \<and> n \<le> 55 then Some (n - 48) else None)"

text \<open>\<open>strconv.UnquoteChar\<close> behind a backslash, inside double quotes: the bytes of the
  character and the number of bytes consumed.\<close>

definition unquote_hex :: "nat \<Rightarrow> bool \<Rightarrow> string \<Rightarrow> (string \<times> nat) option" where
  "unquote_hex n is_byte s =
     (if length s < n then None
      else case hex_value 0 (take n s) of
        None \<Rightarrow> None
      | Some v \<Rightarrow>
         (if is_byte then Some ([char_of v], n)
          else if v \<le> 0x10FFFF \<and> \<not> (0xD800 \<le> v \<and> v \<le> 0xDFFF) then Some (encode_rune v, n)
          else None))"

definition simple_escape :: "char \<Rightarrow> char option" where
  "simple_escape c =
     map_of [(CHR ''a'', CHR 0x07), (CHR ''b'', CHR 0x08), (CHR ''f'', CHR 0x0C), (CHR ''n'', nl),
       (CHR ''r'', cr), (CHR ''t'', tab), (CHR ''v'', CHR 0x0B), (CHR 0x5C, CHR 0x5C), (CHR 0x22, CHR 0x22)] c"

definition unquote_escape :: "string \<Rightarrow> (string \<times> nat) option" where
  "unquote_escape s =
     (case s of [] \<Rightarrow> None
      | c # cs \<Rightarrow>
         (case simple_escape c of
            Some d \<Rightarrow> Some ([d], 1)
          | None \<Rightarrow>
             (if c = CHR ''x'' then map_option (\<lambda>(b, n). (b, n + 1)) (unquote_hex 2 True cs)
              else if c = CHR ''u'' then map_option (\<lambda>(b, n). (b, n + 1)) (unquote_hex 4 False cs)
              else if c = CHR ''U'' then map_option (\<lambda>(b, n). (b, n + 1)) (unquote_hex 8 False cs)
              else case map octal_digit (take 3 s) of
                [Some d0, Some d1, Some d2] \<Rightarrow>
                  (let v = (d0 * 8 + d1) * 8 + d2 in if v \<le> 255 then Some ([char_of v], 3) else None)
              | _ \<Rightarrow> None)))"

lemma unquote_escape_consumes: "unquote_escape s = Some (b, n) \<Longrightarrow> 1 \<le> n \<and> s \<noteq> []"
  by (auto simp: unquote_escape_def Let_def split: list.splits option.splits if_splits)

text \<open>\<open>strconv.Unquote\<close> of a text behind its opening double quote.\<close>

function unquote_loop :: "string \<Rightarrow> string \<Rightarrow> string option" where
  "unquote_loop out s =
     (case s of [] \<Rightarrow> None
      | c # cs \<Rightarrow>
         (if c = CHR 0x22 then (if cs = [] then Some out else None)
          else if c = nl then None
          else if c = CHR 0x5C then
            (case unquote_escape cs of
               None \<Rightarrow> None
             | Some (b, n) \<Rightarrow> unquote_loop (out @ b) (drop n cs))
          else
            unquote_loop (out @ (if invalid_rune s then rune_error else take (rune_width s) s)) (drop (rune_width s) s)))"
  by pat_completeness auto
termination
proof (relation "measure (\<lambda>(out, s). length s)", goal_cases)
  case (3 out s c cs)
  then show ?case using rune_width_bounds [of s] by auto
qed (auto dest: unquote_escape_consumes)

declare unquote_loop.simps [simp del]

definition Unquote :: "string \<Rightarrow> string option" where
  "Unquote s = (case s of c # cs \<Rightarrow> if c = CHR 0x22 then unquote_loop [] cs else None | [] \<Rightarrow> None)"

section \<open>Lines with their ranges\<close>

record rangeMatch =
  match_start :: nat
  match_end :: nat
  match_actual :: string
  quoteNormalized :: bool

record lineSpan =
  span_text :: string
  span_start :: nat
  span_end :: nat

text \<open>\<open>s[i:j]\<close> of a string.\<close>

definition go_slice :: "string \<Rightarrow> nat \<Rightarrow> nat \<Rightarrow> string" where
  "go_slice s i j = take (j - i) (drop i s)"

text \<open>The loop of \<open>lineSpans\<close> over the rest of the text that starts at \<open>start\<close>.\<close>

function line_spans_from :: "nat \<Rightarrow> string \<Rightarrow> lineSpan list" where
  "line_spans_from start s =
     (if s = [] then []
      else let line = takeWhile (\<lambda>c. c \<noteq> nl) s;
               width = (if length line < length s then length line + 1 else length line) in
        \<lparr>span_text = TrimSuffix line [cr], span_start = start, span_end = start + width\<rparr> #
        line_spans_from (start + width) (drop width s))"
  by pat_completeness auto
termination
proof (relation "measure (\<lambda>(start, s). length s)", goal_cases)
  case (2 start s line width)
  then have "0 < width" by (cases "line = []") auto
  with 2(1) show ?case by (cases s) simp_all
qed simp

declare line_spans_from.simps [simp del]

definition lineSpans :: "string \<Rightarrow> lineSpan list" where
  "lineSpans s = line_spans_from 0 s"

definition sliceText :: "lineSpan list \<Rightarrow> string" where
  "sliceText lines = Join (map span_text lines) [nl]"

definition nonEmptyLines :: "string \<Rightarrow> string list" where
  "nonEmptyLines s = filter (\<lambda>l. \<not> blank l) (map span_text (lineSpans s))"

definition normalizeWhitespace :: "string \<Rightarrow> string" where
  "normalizeWhitespace s = Join (Fields s) '' ''"

definition normalizedNonEmptyLines :: "string \<Rightarrow> string list" where
  "normalizedNonEmptyLines s = filter (\<lambda>l. l \<noteq> []) (map normalizeWhitespace (nonEmptyLines s))"

definition line_indent :: "string \<Rightarrow> nat" where
  "line_indent l = length l - length (TrimLeft l [CHR '' '', tab])"

definition min_indent :: "string list \<Rightarrow> nat option" where
  "min_indent lines =
     fold (\<lambda>l m. if blank l then m
                 else case m of None \<Rightarrow> Some (line_indent l) | Some k \<Rightarrow> Some (if line_indent l < k then line_indent l else k))
       lines None"

definition stripCommonIndent :: "string \<Rightarrow> string" where
  "stripCommonIndent s =
     (let lines = SplitLines (ReplaceAll s crlf [nl]);
          indent = (case min_indent lines of None \<Rightarrow> 0 | Some k \<Rightarrow> k) in
      if indent = 0 then TrimSpace (Join lines [nl])
      else TrimSpace (Join (map (\<lambda>l. if indent \<le> length l then drop indent l else l) lines) [nl]))"


section \<open>The matching strategies\<close>

text \<open>The non-overlapping occurrences of a candidate, from \<open>start\<close> on.\<close>

function occurrences :: "string \<Rightarrow> string \<Rightarrow> nat \<Rightarrow> nat list" where
  "occurrences content candidate start =
     (if candidate = [] then []
      else case Index (drop start content) candidate of
        None \<Rightarrow> []
      | Some i \<Rightarrow> (start + i) # occurrences content candidate (start + i + max 1 (length candidate)))"
  by pat_completeness auto
termination
proof (relation "measure (\<lambda>(content, candidate, start). length content - start)", goal_cases)
  case (2 content candidate start i)
  then have "HasPrefix (drop i (drop start content)) candidate" by (simp add: Index_Some)
  then have "length candidate \<le> length content - (start + i)" using HasPrefix_length by fastforce
  moreover have "0 < length candidate" using 2(1) by simp
  ultimately have "length content - (start + i + max 1 (length candidate)) < length content - start"
    by (simp only: max_def split: if_split) linarith
  then show ?case by simp
qed simp

declare occurrences.simps [simp del]

definition exact_range :: "string \<Rightarrow> nat \<Rightarrow> rangeMatch" where
  "exact_range candidate i =
     \<lparr>match_start = i, match_end = i + length candidate, match_actual = candidate, quoteNormalized = False\<rparr>"

definition add_range :: "rangeMatch \<Rightarrow> rangeMatch list \<Rightarrow> rangeMatch list" where
  "add_range m out =
     (if list_ex (\<lambda>m'. match_start m' = match_start m \<and> match_end m' = match_end m) out then out else out @ [m])"

definition exactOccurrences :: "string \<Rightarrow> string \<Rightarrow> bool \<Rightarrow> rangeMatch list" where
  "exactOccurrences content needle convertLineEndings =
     (let candidates =
        (if convertLineEndings then
           [needle] @ (if Contains content crlf then [ReplaceAll needle [nl] crlf] else []) @ [ReplaceAll needle crlf [nl]]
         else [needle]) in
      fold (\<lambda>candidate out. fold (\<lambda>i. add_range (exact_range candidate i)) (occurrences content candidate 0) out)
        candidates [])"

definition window_range :: "string \<Rightarrow> lineSpan list \<Rightarrow> rangeMatch" where
  "window_range content window =
     (let start = span_start (hd window); fin = span_end (last window) in
      \<lparr>match_start = start, match_end = fin, match_actual = go_slice content start fin, quoteNormalized = False\<rparr>)"

definition lineWindowMatches :: "string \<Rightarrow> string \<Rightarrow> (lineSpan list \<Rightarrow> bool) \<Rightarrow> rangeMatch list" where
  "lineWindowMatches content old p =
     (let lines = lineSpans content; n = length (lineSpans old) in
      if n = 0 \<or> length lines < n then []
      else map (window_range content)
             (filter p (map (\<lambda>i. take n (drop i lines)) [0..<length lines - n + 1])))"

definition trailingSpaceMatches :: "string \<Rightarrow> string \<Rightarrow> rangeMatch list" where
  "trailingSpaceMatches content old =
     lineWindowMatches content old
       (\<lambda>window. TrimRight (sliceText window) [CHR '' '', tab] = TrimRight old [CHR '' '', tab])"

definition blockAnchorMatches :: "string \<Rightarrow> string \<Rightarrow> rangeMatch list" where
  "blockAnchorMatches content old =
     (let expected = nonEmptyLines old in
      if length expected < 2 then []
      else lineWindowMatches content old
        (\<lambda>window. TrimSpace (span_text (hd window)) = TrimSpace (hd expected) \<and>
                  TrimSpace (span_text (last window)) = TrimSpace (last expected)))"

definition normalizedLineWindowMatches :: "string \<Rightarrow> string \<Rightarrow> (string \<Rightarrow> string) \<Rightarrow> rangeMatch list" where
  "normalizedLineWindowMatches content old norm =
     lineWindowMatches content old (\<lambda>window. norm (sliceText window) = norm old)"

definition normalizeQuotes :: "string \<Rightarrow> string" where
  "normalizeQuotes s =
     Replacer
       [([CHR 0xE2, CHR 0x80, CHR 0x9C], [CHR 0x22]), ([CHR 0xE2, CHR 0x80, CHR 0x9D], [CHR 0x22]),
        ([CHR 0xE2, CHR 0x80, CHR 0x9E], [CHR 0x22]), ([CHR 0xC2, CHR 0xAB], [CHR 0x22]),
        ([CHR 0xC2, CHR 0xBB], [CHR 0x22]), ([CHR 0xE2, CHR 0x80, CHR 0x98], [CHR 0x27]),
        ([CHR 0xE2, CHR 0x80, CHR 0x99], [CHR 0x27]), ([CHR 0xE2, CHR 0x80, CHR 0x9A], [CHR 0x27])] s"

definition quoteNormalizedMatches :: "string \<Rightarrow> string \<Rightarrow> rangeMatch list" where
  "quoteNormalizedMatches content old =
     (let needle = normalizeQuotes old in
      if needle = old then []
      else map (\<lambda>m. m\<lparr>quoteNormalized := True\<rparr>)
        (lineWindowMatches content old (\<lambda>window. normalizeQuotes (sliceText window) = needle)))"

definition escapedStringMatches :: "string \<Rightarrow> string \<Rightarrow> rangeMatch list" where
  "escapedStringMatches content old =
     (case Unquote ([CHR 0x22] @ ReplaceAll old [CHR 0x22] [CHR 0x5C, CHR 0x22] @ [CHR 0x22]) of
        None \<Rightarrow> []
      | Some unquoted \<Rightarrow> (if unquoted = old then [] else exactOccurrences content unquoted True))"

definition trimmedBoundaryMatches :: "string \<Rightarrow> string \<Rightarrow> rangeMatch list" where
  "trimmedBoundaryMatches content old =
     (let trimmed = TrimSpace old in
      if trimmed = [] \<or> trimmed = old then [] else exactOccurrences content trimmed True)"

definition contextAwareMatches :: "string \<Rightarrow> string \<Rightarrow> rangeMatch list" where
  "contextAwareMatches content old =
     (let expected = normalizedNonEmptyLines old in
      if length expected < 3 then []
      else lineWindowMatches content old (\<lambda>window. normalizedNonEmptyLines (sliceText window) = expected))"

definition uniqueRanges :: "rangeMatch list \<Rightarrow> rangeMatch list" where
  "uniqueRanges matches = sort_key match_start (fold add_range matches [])"

fun first_matches :: "(string \<Rightarrow> string \<Rightarrow> rangeMatch list) list \<Rightarrow> string \<Rightarrow> string \<Rightarrow> rangeMatch list" where
  "first_matches [] content old = exactOccurrences content old True"
| "first_matches (strategy # strategies) content old =
     (let matches = uniqueRanges (strategy content old) in
      if matches \<noteq> [] then matches else first_matches strategies content old)"

definition findMatches :: "string \<Rightarrow> string \<Rightarrow> rangeMatch list" where
  "findMatches content old =
     (let matches = exactOccurrences content old False in
      if matches \<noteq> [] then matches
      else first_matches
        [trailingSpaceMatches, blockAnchorMatches,
         \<lambda>content old. normalizedLineWindowMatches content old normalizeWhitespace,
         \<lambda>content old. normalizedLineWindowMatches content old stripCommonIndent,
         quoteNormalizedMatches, escapedStringMatches, trimmedBoundaryMatches, contextAwareMatches]
        content old)"


section \<open>The replacement\<close>

record EditInput =
  Path :: string
  OldString :: string
  NewString :: string
  input_ReplaceAll :: bool

datatype matchError = NoOccurrence | ManyOccurrences nat

record replacementSelection =
  selected :: "rangeMatch list"
  newText :: string

definition convertReplacementLineEndings :: "string \<Rightarrow> string \<Rightarrow> string" where
  "convertReplacementLineEndings s ending =
     (if ending \<noteq> crlf then ReplaceAll s crlf [nl]
      else ReplaceAll (ReplaceAll s crlf [nl]) [nl] crlf)"

definition extend_deletion :: "string \<Rightarrow> rangeMatch \<Rightarrow> rangeMatch" where
  "extend_deletion content m =
     (if HasSuffix (match_actual m) [nl] \<or> length content \<le> match_end m then m
      else if HasPrefix (drop (match_end m) content) crlf
      then m\<lparr>match_end := match_end m + 2, match_actual := match_actual m @ crlf\<rparr>
      else if content ! match_end m = nl
      then m\<lparr>match_end := match_end m + 1, match_actual := match_actual m @ [nl]\<rparr>
      else m)"

definition extendDeletionNewline :: "string \<Rightarrow> rangeMatch list \<Rightarrow> rangeMatch list" where
  "extendDeletionNewline content matches = map (extend_deletion content) matches"

definition curly_quotes :: "string list" where
  "curly_quotes =
     [[CHR 0xE2, CHR 0x80, CHR 0x9C], [CHR 0xE2, CHR 0x80, CHR 0x9D],
      [CHR 0xE2, CHR 0x80, CHR 0x98], [CHR 0xE2, CHR 0x80, CHR 0x99]]"

definition isOpeningSingleQuote :: "string option \<Rightarrow> bool" where
  "isOpeningSingleQuote prev =
     (case prev of None \<Rightarrow> True
      | Some r \<Rightarrow> r \<in> set space_encodings \<or> r \<in> {''('', ''['', ''{'', ''<''})"

text \<open>The loop of \<open>preserveCurlyQuotes\<close> over the runes of the replacement.\<close>

fun curly_loop :: "(string \<Rightarrow> bool) \<Rightarrow> bool \<Rightarrow> string option \<Rightarrow> string list \<Rightarrow> string" where
  "curly_loop word_rune inWord prev [] = []"
| "curly_loop word_rune inWord prev (r # rs) =
     (if r = [CHR 0x22] then
        (if inWord then [CHR 0xE2, CHR 0x80, CHR 0x9D] else [CHR 0xE2, CHR 0x80, CHR 0x9C]) @
        curly_loop word_rune (\<not> inWord) (Some r) rs
      else if r = [CHR 0x27] then
        (if isOpeningSingleQuote prev then [CHR 0xE2, CHR 0x80, CHR 0x98] else [CHR 0xE2, CHR 0x80, CHR 0x99]) @
        curly_loop word_rune False (Some r) rs
      else r @ curly_loop word_rune
        (if word_rune r then True else if r \<in> set space_encodings then False else inWord) (Some r) rs)"

definition preserveCurlyQuotes :: "(string \<Rightarrow> bool) \<Rightarrow> string \<Rightarrow> string \<Rightarrow> string" where
  "preserveCurlyQuotes word_rune actual replacement =
     (if \<not> list_ex (Contains actual) curly_quotes then replacement
      else curly_loop word_rune False None (runes replacement))"

definition selectReplacement :: "(string \<Rightarrow> bool) \<Rightarrow> string \<Rightarrow> EditInput \<Rightarrow> matchError + replacementSelection" where
  "selectReplacement word_rune content inp =
     (let matches = findMatches content (OldString inp) in
      if matches = [] then Inl NoOccurrence
      else if \<not> input_ReplaceAll inp \<and> length matches \<noteq> 1 then Inl (ManyOccurrences (length matches))
      else
        (let actual = match_actual (hd matches);
             sel = (if input_ReplaceAll inp then exactOccurrences content actual False else matches);
             ending = (if Contains actual crlf then crlf else [nl]);
             converted = convertReplacementLineEndings (NewString inp) ending;
             new = (if quoteNormalized (hd matches) then preserveCurlyQuotes word_rune actual converted else converted) in
         Inr \<lparr>selected = (if new = [] then extendDeletionNewline content sel else sel), newText = new\<rparr>))"

text \<open>The loop of \<open>applyReplacement\<close>; \<open>None\<close> is the panic of a go_slice that is out of range.\<close>

fun replace_ranges :: "string \<Rightarrow> rangeMatch list \<Rightarrow> string \<Rightarrow> string option" where
  "replace_ranges new [] out = Some out"
| "replace_ranges new (m # ms) out =
     (if length out < match_start m \<or> length out < match_end m then None
      else replace_ranges new ms (take (match_start m) out @ new @ drop (match_end m) out))"

definition applyReplacement :: "string \<Rightarrow> replacementSelection \<Rightarrow> string option" where
  "applyReplacement content selection =
     replace_ranges (newText selection) (sort_key (\<lambda>m. - int (match_start m)) (selected selection)) content"

end
