(* ===== verification/Edit_Props.thy ===== *)
theory Edit_Props
  imports Edit_Match
begin

text \<open>
  Correctness of the edit tool's matcher: every match is a range of the content that holds
  the matched text, and the replacement of a selection is the replacement of the one range,
  or of every occurrence of the matched text.
\<close>

section \<open>Occurrences\<close>

lemma occurrences_bounds:
  "i \<in> set (occurrences content c start) \<Longrightarrow> start \<le> i \<and> HasPrefix (drop i content) c \<and> c \<noteq> []"
proof (induction content c start rule: occurrences.induct)
  case (1 content c start)
  show ?case
  proof (cases "c = []")
    case True
    with 1 show ?thesis by (simp add: occurrences.simps)
  next
    case False
    with 1(2) obtain k where k: "Index (drop start content) c = Some k"
      by (cases "Index (drop start content) c") (auto simp: occurrences.simps [of content c start])
    have h: "HasPrefix (drop (start + k) content) c" using k by (simp add: Index_Some add.commute)
    from 1(2) k False consider "i = start + k" | "i \<in> set (occurrences content c (start + k + max 1 (length c)))"
      by (subst (asm) occurrences.simps) auto
    then show ?thesis
    proof cases
      case 1
      with h False show ?thesis by simp
    next
      case 2
      from "1.IH" [OF False k 2] show ?thesis by simp
    qed
  qed
qed

lemma occurrences_apart:
  "sorted_wrt (\<lambda>i j. i + length c \<le> j) (occurrences content c start)"
proof (induction content c start rule: occurrences.induct)
  case (1 content c start)
  show ?case
  proof (cases "c = []")
    case True
    then show ?thesis by (simp add: occurrences.simps)
  next
    case False
    show ?thesis
    proof (cases "Index (drop start content) c")
      case None
      with False show ?thesis by (simp add: occurrences.simps [of content c start])
    next
      case (Some k)
      have "start + k + length c \<le> j" if "j \<in> set (occurrences content c (start + k + max 1 (length c)))" for j
        using occurrences_bounds [OF that] by (cases c) simp_all
      with 1 [OF False Some] Some False show ?thesis by (simp add: occurrences.simps [of content c start])
    qed
  qed
qed

lemma HasPrefix_drop_bound: "HasPrefix (drop i s) c \<Longrightarrow> c \<noteq> [] \<Longrightarrow> i + length c \<le> length s"
  using HasPrefix_length [of "drop i s" c] by (cases c) auto

text \<open>A range of the content with the text it holds.\<close>

definition range_ok :: "string \<Rightarrow> rangeMatch \<Rightarrow> bool" where
  "range_ok content m \<longleftrightarrow>
     match_start m < match_end m \<and> match_end m \<le> length content \<and>
     match_actual m = go_slice content (match_start m) (match_end m)"

lemma exact_range_ok: "i \<in> set (occurrences content c start) \<Longrightarrow> range_ok content (exact_range c i)"
  using occurrences_bounds [of i content c start] HasPrefix_drop_bound [of i content c]
  by (auto simp: range_ok_def exact_range_def go_slice_def HasPrefix_take)

lemma add_range_ok: "range_ok content m \<Longrightarrow> list_all (range_ok content) out \<Longrightarrow> list_all (range_ok content) (add_range m out)"
  by (simp add: add_range_def)

lemma fold_add_range_ok:
  "list_all (range_ok content) ms \<Longrightarrow> list_all (range_ok content) out \<Longrightarrow> list_all (range_ok content) (fold add_range ms out)"
  by (induction ms arbitrary: out) (auto simp: add_range_ok)

lemma fold_exact_ok:
  "list_all (range_ok content) out \<Longrightarrow>
   list_all (range_ok content) (fold (\<lambda>i. add_range (exact_range c i)) (occurrences content c 0) out)"
  using fold_add_range_ok [of content "map (exact_range c) (occurrences content c 0)" out]
  by (auto simp: fold_map comp_def list_all_iff exact_range_ok)

lemma exactOccurrences_ok: "list_all (range_ok content) (exactOccurrences content needle conv)"
proof -
  have "list_all (range_ok content) (fold (\<lambda>c out. fold (\<lambda>i. add_range (exact_range c i)) (occurrences content c 0) out) cs out)"
    if "list_all (range_ok content) out" for cs out
    using that by (induction cs arbitrary: out) (simp_all add: fold_exact_ok)
  then show ?thesis unfolding exactOccurrences_def Let_def by simp
qed

lemma fold_add_range_distinct:
  "distinct (map match_start (out @ ms)) \<Longrightarrow> fold add_range ms out = out @ ms"
proof (induction ms arbitrary: out)
  case (Cons m ms)
  then have "add_range m out = out @ [m]" by (auto simp: add_range_def list_ex_iff) (metis image_eqI)
  with Cons show ?case by simp
qed simp

lemma occurrences_sorted: "sorted_wrt (<) (occurrences content c start)"
proof (rule sorted_wrt_mono_rel [OF _ occurrences_apart [of c content start]])
  fix i j assume "i \<in> set (occurrences content c start)" and "i + length c \<le> j"
  with occurrences_bounds [of i content c start] show "i < j" by (cases c) auto
qed

lemma exactOccurrences_plain:
  "exactOccurrences content c False = map (exact_range c) (occurrences content c 0)"
proof -
  have "distinct (map match_start (map (exact_range c) (occurrences content c 0)))"
    using occurrences_sorted [of content c 0] strict_sorted_iff [of "occurrences content c 0"]
    by (simp add: comp_def exact_range_def)
  then show ?thesis
    using fold_add_range_distinct [of "[]" "map (exact_range c) (occurrences content c 0)"]
    by (simp add: exactOccurrences_def Let_def fold_map comp_def)
qed

section \<open>Windows of lines\<close>

lemma line_spans_bounds:
  "sorted_wrt (\<lambda>a b. span_end a \<le> span_start b) (line_spans_from start s) \<and>
   list_all (\<lambda>l. start \<le> span_start l \<and> span_start l < span_end l \<and> span_end l \<le> start + length s) (line_spans_from start s)"
proof (induction start s rule: line_spans_from.induct)
  case (1 start s)
  show ?case
  proof (cases "s = []")
    case True
    then show ?thesis by (simp add: line_spans_from.simps)
  next
    case False
    define line where "line = takeWhile (\<lambda>c. c \<noteq> nl) s"
    define width where "width = (if length line < length s then length line + 1 else length line)"
    have "length line \<le> length s" by (simp add: line_def length_takeWhile_le)
    then have w: "0 < width" "width \<le> length s" using False by (auto simp: width_def)
    have "line_spans_from start s =
        \<lparr>span_text = TrimSuffix line [cr], span_start = start, span_end = start + width\<rparr> #
        line_spans_from (start + width) (drop width s)"
      using False by (subst line_spans_from.simps) (simp add: Let_def line_def width_def)
    moreover have "sorted_wrt (\<lambda>a b. span_end a \<le> span_start b) (line_spans_from (start + width) (drop width s)) \<and>
      list_all (\<lambda>l. start + width \<le> span_start l \<and> span_start l < span_end l \<and>
        span_end l \<le> start + width + length (drop width s)) (line_spans_from (start + width) (drop width s))"
      by (rule 1 [OF False line_def width_def])
    ultimately show ?thesis using w by (auto simp: list_all_iff)
  qed
qed

lemma window_range_ok:
  assumes "i + n \<le> length (lineSpans content)" and "0 < n"
  shows "range_ok content (window_range content (take n (drop i (lineSpans content))))"
proof -
  let ?L = "lineSpans content" and ?W = "take n (drop i (lineSpans content))"
  have sw: "sorted_wrt (\<lambda>a b. span_end a \<le> span_start b) ?L"
    and b: "\<And>l. l \<in> set ?L \<Longrightarrow> span_start l < span_end l \<and> span_end l \<le> length content"
    using line_spans_bounds [of 0 content] by (auto simp: lineSpans_def list_all_iff)
  have ne: "?W \<noteq> []" using assms by auto
  have sub: "set ?W \<subseteq> set ?L" using set_take_subset [of n "drop i ?L"] set_drop_subset [of i ?L] by blast
  have sW: "sorted_wrt (\<lambda>a b. span_end a \<le> span_start b) ?W" using sw by (intro sorted_wrt_take sorted_wrt_drop)
  have hl: "hd ?W \<in> set ?L" "last ?W \<in> set ?L" using sub ne hd_in_set last_in_set by blast+
  have "span_start (hd ?W) < span_end (last ?W)"
  proof (cases "tl ?W")
    case Nil
    then have "last ?W = hd ?W" using ne by (metis last_ConsL list.collapse)
    then show ?thesis using b [OF hl(1)] by simp
  next
    case (Cons x xs)
    then have "last ?W \<in> set (tl ?W)" using ne by (metis last_ConsR last_in_set list.collapse list.distinct(1))
    then have "span_end (hd ?W) \<le> span_start (last ?W)" using sW ne by (metis list.collapse sorted_wrt.simps(2))
    then show ?thesis using b [OF hl(1)] b [OF hl(2)] by linarith
  qed
  then show ?thesis using b [OF hl(2)] by (simp add: range_ok_def window_range_def Let_def)
qed

lemma lineWindowMatches_ok: "list_all (range_ok content) (lineWindowMatches content old p)"
proof -
  have "range_ok content (window_range content (take n (drop i (lineSpans content))))"
    if "\<not> (n = 0 \<or> length (lineSpans content) < n)" "i \<in> set [0..<length (lineSpans content) - n + 1]" for n i
    by (rule window_range_ok) (use that in auto)
  then show ?thesis unfolding lineWindowMatches_def Let_def by (auto simp: list_all_iff simp del: upt_Suc)
qed

section \<open>Every strategy\<close>

lemma uniqueRanges_ok: "list_all (range_ok content) ms \<Longrightarrow> list_all (range_ok content) (uniqueRanges ms)"
  using fold_add_range_ok [of content ms "[]"] by (simp add: uniqueRanges_def list_all_iff)

lemma range_ok_quoteNormalized [simp]: "range_ok content (m\<lparr>quoteNormalized := b\<rparr>) = range_ok content m"
  by (simp add: range_ok_def)

lemma strategies_ok:
  "list_all (range_ok content) (trailingSpaceMatches content old)"
  "list_all (range_ok content) (blockAnchorMatches content old)"
  "list_all (range_ok content) (normalizedLineWindowMatches content old norm)"
  "list_all (range_ok content) (quoteNormalizedMatches content old)"
  "list_all (range_ok content) (escapedStringMatches content old)"
  "list_all (range_ok content) (trimmedBoundaryMatches content old)"
  "list_all (range_ok content) (contextAwareMatches content old)"
  using lineWindowMatches_ok [of content old] exactOccurrences_ok [of content]
  by (auto simp: trailingSpaceMatches_def blockAnchorMatches_def normalizedLineWindowMatches_def
      quoteNormalizedMatches_def escapedStringMatches_def trimmedBoundaryMatches_def contextAwareMatches_def
      Let_def list_all_iff split: option.splits)

lemma first_matches_ok:
  "list_all (\<lambda>strategy. list_all (range_ok content) (strategy content old)) strategies \<Longrightarrow>
   list_all (range_ok content) (first_matches strategies content old)"
  by (induction strategies) (simp_all add: Let_def exactOccurrences_ok uniqueRanges_ok)

lemma findMatches_ok: "m \<in> set (findMatches content old) \<Longrightarrow> range_ok content m"
proof -
  have "list_all (range_ok content) (findMatches content old)"
    unfolding findMatches_def Let_def by (simp add: exactOccurrences_ok first_matches_ok strategies_ok del: first_matches.simps)
  then show "m \<in> set (findMatches content old) \<Longrightarrow> range_ok content m" by (simp add: list_all_iff)
qed

section \<open>Replacing\<close>

lemma replace_ranges_append:
  "replace_ranges new (ms @ ms') out = (case replace_ranges new ms out of None \<Rightarrow> None | Some out' \<Rightarrow> replace_ranges new ms' out')"
  by (induction ms arbitrary: out) auto

lemma replace_occurrences:
  "c \<noteq> [] \<Longrightarrow> start \<le> length content \<Longrightarrow>
   replace_ranges new (rev (map (exact_range c) (occurrences content c start))) content =
     Some (take start content @ ReplaceAll (drop start content) c new)"
proof (induction content c start rule: occurrences.induct)
  case (1 content c start)
  show ?case
  proof (cases "Index (drop start content) c")
    case None
    with 1 show ?thesis by (simp add: occurrences.simps [of content c start] ReplaceAll_Index)
  next
    case (Some k)
    let ?i = "start + k" and ?j = "start + k + length c"
    have h: "HasPrefix (drop ?i content) c" using Some by (simp add: Index_Some add.commute)
    have j: "?j \<le> length content" using HasPrefix_drop_bound [OF h 1(2)] by simp
    have m: "start + k + max 1 (length c) = ?j" using 1(2) by (cases c) auto
    have IH: "replace_ranges new (rev (map (exact_range c) (occurrences content c ?j))) content =
        Some (take ?j content @ ReplaceAll (drop ?j content) c new)"
      using 1(1) [OF 1(2) Some] 1(2) j m by simp
    have occ: "occurrences content c start = ?i # occurrences content c ?j"
      using 1(2) Some m by (simp add: occurrences.simps [of content c start])
    have "take ?i content = take start content @ take k (drop start content)" by (simp add: take_add)
    moreover have "replace_ranges new [exact_range c ?i] (take ?j content @ R) = Some (take ?i content @ new @ R)" for R
      using j by (simp add: exact_range_def)
    moreover have "drop (k + length c) (drop start content) = drop ?j content" by (simp add: ac_simps)
    ultimately show ?thesis
      using IH Some 1(2) by (simp add: occ replace_ranges_append ReplaceAll_Index [of c "drop start content"])
  qed
qed

lemma applyReplacement_all:
  assumes "c \<noteq> []"
  shows "applyReplacement content \<lparr>selected = exactOccurrences content c False, newText = new\<rparr> = Some (ReplaceAll content c new)"
proof -
  let ?occ = "occurrences content c 0" and ?ms = "map (exact_range c) (occurrences content c 0)"
  have so: "sorted_wrt (<) ?occ" by (rule occurrences_sorted)
  have "sort_key (\<lambda>m. - int (match_start m)) ?ms = rev ?ms"
  proof (rule sort_key_inj_key_eq)
    show "mset ?ms = mset (rev ?ms)" by simp
    show "inj_on (\<lambda>m. - int (match_start m)) (set ?ms)" by (auto simp: inj_on_def exact_range_def)
    have "sorted (rev (map (\<lambda>i. - int i) ?occ))"
      using so by (simp add: sorted_wrt_rev sorted_wrt_map strict_sorted_iff)
    then show "sorted (map (\<lambda>m. - int (match_start m)) (rev ?ms))" by (simp add: exact_range_def rev_map comp_def)
  qed
  then show ?thesis
    using replace_occurrences [OF assms, of 0 content new] by (simp add: applyReplacement_def exactOccurrences_plain)
qed

lemma applyReplacement_one:
  assumes "range_ok content m"
  shows "applyReplacement content \<lparr>selected = [m], newText = new\<rparr> =
      Some (take (match_start m) content @ new @ drop (match_end m) content)"
    and "content = take (match_start m) content @ match_actual m @ drop (match_end m) content"
proof -
  have b: "match_start m < match_end m" "match_end m \<le> length content"
    "match_actual m = take (match_end m - match_start m) (drop (match_start m) content)"
    using assms by (auto simp: range_ok_def go_slice_def)
  show "applyReplacement content \<lparr>selected = [m], newText = new\<rparr> =
      Some (take (match_start m) content @ new @ drop (match_end m) content)"
    using b by (simp add: applyReplacement_def)
  have "drop (match_start m) content = match_actual m @ drop (match_end m) content"
    using b by (metis append_take_drop_id drop_drop le_add_diff_inverse2 less_imp_le)
  then show "content = take (match_start m) content @ match_actual m @ drop (match_end m) content"
    by (metis append_take_drop_id)
qed

text \<open>The text that a selection replaces: the text asked for when it occurs, and otherwise the
  text of a fuzzy match.\<close>

lemma hd_findMatches_exact:
  assumes "Contains content old" and "old \<noteq> []"
  shows "findMatches content old = exactOccurrences content old False"
    and "match_actual (hd (findMatches content old)) = old"
proof -
  obtain i where i: "Index (drop 0 content) old = Some i" using assms(1) by (auto simp: Contains_def split: option.splits)
  then have "occurrences content old 0 \<noteq> []" using assms(2) by (simp add: occurrences.simps [of content old 0])
  then have ne: "exactOccurrences content old False \<noteq> []" by (simp add: exactOccurrences_plain)
  then show f: "findMatches content old = exactOccurrences content old False" by (simp add: findMatches_def Let_def)
  then show "match_actual (hd (findMatches content old)) = old"
    using ne by (simp add: exactOccurrences_plain) (cases "occurrences content old 0"; simp add: exact_range_def)
qed

lemma findMatches_exact_unique:
  assumes m: "findMatches content old = [m]" and c: "Contains content old" and old: "old \<noteq> []"
  shows "Index content old = Some (match_start m)" and "\<not> Contains (drop (match_end m) content) old" and "\<not> quoteNormalized m"
proof -
  have e: "map (exact_range old) (occurrences content old 0) = [m]"
    using m hd_findMatches_exact(1) [OF c old] by (simp add: exactOccurrences_plain)
  then obtain i where o: "occurrences content old 0 = [i]" "m = exact_range old i" by auto
  obtain j where j: "Index content old = Some j" using c by (auto simp: Contains_def split: option.splits)
  have "occurrences content old 0 = j # occurrences content old (j + max 1 (length old))"
    using j old by (subst occurrences.simps) simp
  then have "[i] = j # occurrences content old (j + max 1 (length old))" using o(1) by (rule subst [rotated])
  then have ij: "i = j" and rest: "occurrences content old (j + max 1 (length old)) = []" by (metis list.inject)+
  have "max 1 (length old) = length old" using old by (cases old) auto
  with rest have "Index (drop (j + length old) content) old = None"
    using old by (subst (asm) occurrences.simps) (auto split: option.splits)
  then show "\<not> Contains (drop (match_end m) content) old" using o(2) ij by (simp add: Contains_def exact_range_def)
  show "Index content old = Some (match_start m)" "\<not> quoteNormalized m" using o(2) ij j by (simp_all add: exact_range_def)
qed

text \<open>The text that replaces the matched text \<open>actual\<close>, up to the style of its quotes.\<close>

definition replacement :: "EditInput \<Rightarrow> string \<Rightarrow> string" where
  "replacement inp actual = convertReplacementLineEndings (NewString inp) (if Contains actual crlf then crlf else [nl])"

lemma select_newText:
  assumes sel: "selectReplacement word_rune content inp = Inr sel" and old: "OldString inp \<noteq> []"
  defines "actual \<equiv> match_actual (hd (findMatches content (OldString inp)))"
  shows "newText sel \<in> {replacement inp actual, preserveCurlyQuotes word_rune actual (replacement inp actual)}"
    and "Contains content (OldString inp) \<Longrightarrow> newText sel = replacement inp (OldString inp)"
proof -
  show "newText sel \<in> {replacement inp actual, preserveCurlyQuotes word_rune actual (replacement inp actual)}"
    using sel by (auto simp: selectReplacement_def Let_def replacement_def actual_def split: if_splits)
  assume c: "Contains content (OldString inp)"
  note h = hd_findMatches_exact [OF c old]
  have "\<not> quoteNormalized (hd (findMatches content (OldString inp)))"
    using sel h(1) by (auto simp: selectReplacement_def Let_def exactOccurrences_plain exact_range_def hd_map split: if_splits)
  with sel h(2) show "newText sel = replacement inp (OldString inp)"
    by (auto simp: selectReplacement_def Let_def replacement_def split: if_splits)
qed

lemma select_replaces:
  assumes sel: "selectReplacement word_rune content inp = Inr sel" and new: "newText sel \<noteq> []"
    and old: "OldString inp \<noteq> []"
  shows "\<exists>actual. actual \<noteq> [] \<and> Contains content actual \<and>
    newText sel \<in> {replacement inp actual, preserveCurlyQuotes word_rune actual (replacement inp actual)} \<and>
    (Contains content (OldString inp) \<longrightarrow> actual = OldString inp \<and> newText sel = replacement inp actual) \<and>
    (if input_ReplaceAll inp then applyReplacement content sel = Some (ReplaceAll content actual (newText sel))
     else \<exists>u v. content = u @ actual @ v \<and> applyReplacement content sel = Some (u @ newText sel @ v) \<and>
       (Contains content (OldString inp) \<longrightarrow> Index content actual = Some (length u) \<and> \<not> Contains v actual))"
proof -
  let ?M = "findMatches content (OldString inp)"
  define m where "m = hd ?M"
  have ne: "?M \<noteq> []" using sel by (auto simp: selectReplacement_def Let_def)
  then have ok: "range_ok content m" unfolding m_def using hd_in_set findMatches_ok by blast
  have one: "?M = [m]" if "\<not> input_ReplaceAll inp"
  proof -
    have "length ?M = 1" using sel that ne by (auto simp: selectReplacement_def Let_def split: if_splits)
    then show ?thesis by (cases ?M) (auto simp: m_def)
  qed
  have s: "selected sel = (if input_ReplaceAll inp then exactOccurrences content (match_actual m) False else [m])"
    using sel ne new one by (auto simp: selectReplacement_def Let_def m_def split: if_splits)
  have eta: "sel = \<lparr>selected = selected sel, newText = newText sel\<rparr>" by simp
  have a: "match_actual m \<noteq> []" using ok by (auto simp: range_ok_def go_slice_def)
  note split = applyReplacement_one [OF ok]
  have "Contains content (match_actual m)" using split(2) by (auto simp: Contains_iff)
  moreover have exact: "match_actual m = OldString inp \<and> newText sel = replacement inp (match_actual m)" if "Contains content (OldString inp)"
    using hd_findMatches_exact(2) [OF that old] select_newText(2) [OF sel old that] by (simp add: m_def)
  moreover have "applyReplacement content sel = Some (ReplaceAll content (match_actual m) (newText sel))" if "input_ReplaceAll inp"
    using applyReplacement_all [OF a, of content "newText sel"] s that by (subst eta) simp
  moreover have "\<exists>u v. content = u @ match_actual m @ v \<and> applyReplacement content sel = Some (u @ newText sel @ v) \<and>
      (Contains content (OldString inp) \<longrightarrow> Index content (match_actual m) = Some (length u) \<and> \<not> Contains v (match_actual m))"
    if r: "\<not> input_ReplaceAll inp"
  proof (intro exI conjI impI)
    show "content = take (match_start m) content @ match_actual m @ drop (match_end m) content" using split(2) .
    show "applyReplacement content sel = Some (take (match_start m) content @ newText sel @ drop (match_end m) content)"
      using split(1) [of "newText sel"] s r by (subst eta) simp
    assume c: "Contains content (OldString inp)"
    note u = findMatches_exact_unique [OF one [OF r] c old]
    have "match_start m \<le> length content" using ok by (auto simp: range_ok_def go_slice_def)
    then show "Index content (match_actual m) = Some (length (take (match_start m) content))" using u(1) exact [OF c] by simp
    show "\<not> Contains (drop (match_end m) content) (match_actual m)" using u(2) exact [OF c] by simp
  qed
  moreover have "newText sel \<in> {replacement inp (match_actual m), preserveCurlyQuotes word_rune (match_actual m) (replacement inp (match_actual m))}"
    using select_newText(1) [OF sel old] by (simp add: m_def)
  ultimately show ?thesis using a by (intro exI [of _ "match_actual m"]) (simp only: if_split simp_thms, blast)
qed

text \<open>A deletion also takes the line end behind the matched text.\<close>

lemma extend_deletion_ok:
  assumes "range_ok content m"
  shows "range_ok content (extend_deletion content m)"
    and "\<exists>e \<in> {[], [nl], crlf}. match_actual (extend_deletion content m) = match_actual m @ e"
    and "match_start (extend_deletion content m) = match_start m"
proof -
  have b: "match_start m < match_end m" "match_end m \<le> length content"
    "match_actual m = take (match_end m - match_start m) (drop (match_start m) content)"
    using assms by (auto simp: range_ok_def go_slice_def)
  have grow: "match_actual m @ e = take (match_end m + length e - match_start m) (drop (match_start m) content)"
    if "take (length e) (drop (match_end m) content) = e" for e
  proof -
    have "match_end m + length e - match_start m = (match_end m - match_start m) + length e" using b(1) by simp
    moreover have "drop (match_end m - match_start m) (drop (match_start m) content) = drop (match_end m) content"
      using b(1) by simp
    ultimately show ?thesis using b(3) that by (simp add: take_add)
  qed
  have len: "length e \<le> length content - match_end m" if "take (length e) (drop (match_end m) content) = e" for e
    using that by (metis length_drop length_take min.cobounded1)
  have nlp: "take (length [nl]) (drop (match_end m) content) = [nl]" if "content ! match_end m = nl" "match_end m < length content"
    using that by (simp add: Cons_nth_drop_Suc [symmetric])
  show "range_ok content (extend_deletion content m)"
    using b grow [of crlf] grow [of "[nl]"] len [of crlf] nlp assms
    by (auto simp: extend_deletion_def range_ok_def go_slice_def HasPrefix_take)
  show "\<exists>e \<in> {[], [nl], crlf}. match_actual (extend_deletion content m) = match_actual m @ e"
    by (auto simp: extend_deletion_def)
  show "match_start (extend_deletion content m) = match_start m" by (simp add: extend_deletion_def)
qed

lemma select_deletes:
  assumes sel: "selectReplacement word_rune content inp = Inr sel" and new: "newText sel = []"
    and one: "\<not> input_ReplaceAll inp"
  shows "\<exists>u actual e v. content = u @ actual @ e @ v \<and> actual \<noteq> [] \<and> e \<in> {[], [nl], crlf} \<and>
    applyReplacement content sel = Some (u @ v)"
proof -
  let ?M = "findMatches content (OldString inp)"
  define m where "m = hd ?M"
  have ne: "?M \<noteq> []" using sel by (auto simp: selectReplacement_def Let_def)
  then have ok: "range_ok content m" unfolding m_def using hd_in_set findMatches_ok by blast
  have "length ?M = 1" using sel one ne by (auto simp: selectReplacement_def Let_def split: if_splits)
  then have M: "?M = [m]" by (cases ?M) (auto simp: m_def)
  have s: "selected sel = [extend_deletion content m]"
    using sel ne new one M by (auto simp: selectReplacement_def Let_def extendDeletionNewline_def split: if_splits)
  have eta: "sel = \<lparr>selected = selected sel, newText = newText sel\<rparr>" by simp
  note e = extend_deletion_ok [OF ok]
  obtain x where x: "x \<in> {[], [nl], crlf}" "match_actual (extend_deletion content m) = match_actual m @ x" using e(2) by blast
  have "match_actual m \<noteq> []" using ok by (auto simp: range_ok_def go_slice_def)
  moreover have "applyReplacement content sel =
      Some (take (match_start m) content @ drop (match_end (extend_deletion content m)) content)"
    using applyReplacement_one(1) [OF e(1), of "[]"] e(3) s new by (subst eta) simp
  moreover have "content = take (match_start m) content @ match_actual m @ x @ drop (match_end (extend_deletion content m)) content"
    using applyReplacement_one(2) [OF e(1)] e(3) x(2) by simp
  ultimately show ?thesis using x(1) by blast
qed

end
