(* ===== verification/Edit_Tool.thy ===== *)
theory Edit_Tool
  imports Edit_Match Os_Files
begin

text \<open>
  The edit tool, \<open>src/server/tools/edit/tool.go\<close>: decoding and rejecting binary content, the
  edit of an existing file, the creation of a file and the atomic write of the result.

  The file access policy is a parameter: \<open>resolve\<close> stands for \<open>Tool.resolvePath\<close> (the resolved
  path and whether the request went through a symbolic link) and \<open>validate\<close> for
  \<open>validateManagedWorktreeMutation\<close>. Modification times are not part of the file tree, and nothing
  else changes it during a call; the cancellation of a call is left out. \<open>EditPanics\<close> is the panic
  of a slice that is out of range.
\<close>

section \<open>Text files\<close>

datatype editError =
    PathRequired
  | SameStrings
  | TooLarge
  | BinaryExtension
  | BinaryFile
  | InvalidUTF8
  | MixedLineEndings
  | TargetHasText
  | MatchFailed matchError
  | NoChanges
  | NotResolved
  | MutationDenied
  | IsDirectory
  | NotRegular
  | StatFailed
  | ReadFailed
  | TargetChanged
  | TargetAppeared
  | CreateParentFailed
  | StageFailed
  | CommitFailed

definition maxEditableBytes :: int where
  "maxEditableBytes = 100 * 1024 * 1024"

definition utf8BOM :: string where
  "utf8BOM = [CHR 0xEF, CHR 0xBB, CHR 0xBF]"

definition control_byte :: "char \<Rightarrow> bool" where
  "control_byte b \<longleftrightarrow> (of_char b :: nat) < 0x20 \<and> b \<notin> {tab, nl, cr}"

definition rejectBinaryBytes :: "string \<Rightarrow> editError option" where
  "rejectBinaryBytes d =
     (if list_ex (\<lambda>b. b = CHR 0x00) d then Some BinaryFile
      else if \<not> utf8_Valid d then Some InvalidUTF8
      else if list_ex control_byte (take 8192 d) then Some BinaryFile
      else None)"

definition decodeText :: "string \<Rightarrow> editError + string \<times> bool" where
  "decodeText d =
     (let bom = HasPrefix d utf8BOM; d' = (if bom then drop (length utf8BOM) d else d) in
      if maxEditableBytes < int (length d') then Inl TooLarge
      else case rejectBinaryBytes d' of Some e \<Rightarrow> Inl e | None \<Rightarrow> Inr (d', bom))"

text \<open>\<open>filepath.Ext\<close>: the suffix from the last dot of the last path element.\<close>

definition file_ext :: "string \<Rightarrow> string" where
  "file_ext p =
     (let base = rev (takeWhile (\<lambda>c. c \<noteq> CHR ''/'') (rev p)) in
      if CHR ''.'' \<in> set base then CHR ''.'' # rev (takeWhile (\<lambda>c. c \<noteq> CHR ''.'') (rev base)) else [])"

definition binary_extensions :: "string list" where
  "binary_extensions =
     [''.png'', ''.jpg'', ''.jpeg'', ''.gif'', ''.webp'', ''.ico'', ''.bmp'', ''.tiff'', ''.pdf'', ''.zip'', ''.gz'',
      ''.tgz'', ''.xz'', ''.bz2'', ''.7z'', ''.rar'', ''.tar'', ''.mp3'', ''.mp4'', ''.mov'', ''.avi'', ''.mkv'', ''.exe'',
      ''.dll'', ''.dylib'', ''.so'', ''.a'', ''.o'', ''.class'', ''.jar'', ''.wasm'', ''.woff'', ''.woff2'', ''.ttf'',
      ''.otf'', ''.sqlite'', ''.sqlite3'', ''.db'']"

definition rejectBinaryExtension :: "string \<Rightarrow> editError option" where
  "rejectBinaryExtension p = (if ToLower (file_ext p) \<in> set binary_extensions then Some BinaryExtension else None)"

definition hasMixedLineEndings :: "string \<Rightarrow> bool" where
  "hasMixedLineEndings s =
     (let withoutCRLF = ReplaceAll s crlf [];
          styles = (if Contains s crlf then 1 else 0) + (if Contains withoutCRLF [nl] then 1 else 0) +
            (if Contains withoutCRLF [cr] then 1 else (0 :: nat)) in
      1 < styles)"


section \<open>The atomic write\<close>

text \<open>The check that the file is still what it was: \<open>before\<close> is what \<open>os.Stat\<close> has found, if anything.\<close>

definition check_unchanged :: "path \<Rightarrow> (mode \<times> string) option \<Rightarrow> world \<Rightarrow> editError option \<times> world" where
  "check_unchanged p info w =
     (case (info, os_Stat p w) of
        (Some (m, d), Inr (File m' d'), w1) \<Rightarrow>
          (if length d' \<noteq> length d \<or> m' \<noteq> m then Some TargetChanged else None, w1)
      | (Some _, _, w1) \<Rightarrow> (Some TargetChanged, w1)
      | (None, Inr _, w1) \<Rightarrow> (Some TargetAppeared, w1)
      | (None, Inl ErrNotExist, w1) \<Rightarrow> (None, w1)
      | (None, Inl ErrOther, w1) \<Rightarrow> (Some StatFailed, w1))"

text \<open>Filling the temporary file and moving it to the target.\<close>

definition write_and_rename ::
  "((path \<Rightarrow> node option) \<Rightarrow> path \<Rightarrow> bool) \<Rightarrow> path \<Rightarrow> path \<Rightarrow> string \<Rightarrow> mode \<Rightarrow> world \<Rightarrow> editError option \<times> world" where
  "write_and_rename validate p tmp d m w =
     (case file_Write tmp d w of
        (Inl e, w1) \<Rightarrow> (Some StageFailed, w1)
      | (Inr _, w1) \<Rightarrow>
         (case file_Chmod tmp m w1 of
            (Inl e, w2) \<Rightarrow> (Some StageFailed, w2)
          | (Inr _, w2) \<Rightarrow>
             (case fault w2 of
                (True, w3) \<Rightarrow> (Some StageFailed, w3)
              | (False, w3) \<Rightarrow>
                 (case fault w3 of
                    (True, w4) \<Rightarrow> (Some StageFailed, w4)
                  | (False, w4) \<Rightarrow>
                     (if \<not> validate (fs w4) p then (Some MutationDenied, w4)
                      else case os_Rename tmp p w4 of
                        (Inl e, w5) \<Rightarrow> (Some CommitFailed, w5)
                      | (Inr _, w5) \<Rightarrow> (None, w5))))))"

definition edit_prefix :: "path \<Rightarrow> string" where
  "edit_prefix p = ''.kent-edit-'' @ (if p = [] then ''/'' else last p) @ ''-''"

definition writeAtomicallyIfUnchanged ::
  "((path \<Rightarrow> node option) \<Rightarrow> path \<Rightarrow> bool) \<Rightarrow> path \<Rightarrow> string \<Rightarrow> (mode \<times> string) option \<Rightarrow> world \<Rightarrow> editError option \<times> world" where
  "writeAtomicallyIfUnchanged validate p d info w =
     (if \<not> validate (fs w) p then (Some MutationDenied, w)
      else case check_unchanged p info w of
        (Some e, w1) \<Rightarrow> (Some e, w1)
      | (None, w1) \<Rightarrow>
         (case os_MkdirAll (butlast p) w1 of
            (Inl e, w2) \<Rightarrow> (Some CreateParentFailed, w2)
          | (Inr _, w2) \<Rightarrow>
             (if \<not> validate (fs w2) p then (Some MutationDenied, w2)
              else case os_CreateTemp (butlast p) (edit_prefix p) w2 of
                (Inl e, w3) \<Rightarrow> (Some StageFailed, w3)
              | (Inr tmp, w3) \<Rightarrow>
                 (case write_and_rename validate p tmp d (case info of None \<Rightarrow> 0x1A4 | Some (m, _) \<Rightarrow> m) w3 of
                    (r, w4) \<Rightarrow> (r, snd (os_Remove tmp w4))))))"


section \<open>Editing and creating\<close>

datatype editOutcome = EditFailed editError | EditPanics | Edited string

text \<open>The new bytes of a file with the bytes \<open>original\<close>.\<close>

definition edit_text :: "(string \<Rightarrow> bool) \<Rightarrow> EditInput \<Rightarrow> string \<Rightarrow> editOutcome" where
  "edit_text word_rune inp original =
     (case decodeText original of
        Inl e \<Rightarrow> EditFailed e
      | Inr (content, bom) \<Rightarrow>
         (case selectReplacement word_rune content inp of
            Inl e \<Rightarrow> EditFailed (MatchFailed e)
          | Inr selection \<Rightarrow>
             (case applyReplacement content selection of
                None \<Rightarrow> EditPanics
              | Some updated \<Rightarrow>
                 (let next = (if bom then utf8BOM @ updated else updated) in
                  if next = original then EditFailed NoChanges
                  else if maxEditableBytes < int (length next) then EditFailed TooLarge
                  else Edited next))))"

datatype callOutcome = CallFailed editError | CallPanics | CallOk bool

definition write_outcome :: "bool \<Rightarrow> editError option \<times> world \<Rightarrow> callOutcome \<times> world" where
  "write_outcome symlink r = ((case fst r of None \<Rightarrow> CallOk symlink | Some e \<Rightarrow> CallFailed e), snd r)"

text \<open>\<open>create\<close>: \<open>info\<close> is the result of \<open>os.Stat\<close>.\<close>

definition create_file ::
  "((path \<Rightarrow> node option) \<Rightarrow> path \<Rightarrow> bool) \<Rightarrow> path \<Rightarrow> bool \<Rightarrow> string \<Rightarrow> oserr + node \<Rightarrow> world \<Rightarrow> callOutcome \<times> world" where
  "create_file validate p symlink new info w =
     (if maxEditableBytes < int (length new) then (CallFailed TooLarge, w)
      else case rejectBinaryExtension (path_text p) of
        Some e \<Rightarrow> (CallFailed e, w)
      | None \<Rightarrow>
         (if hasMixedLineEndings new then (CallFailed MixedLineEndings, w)
          else case rejectBinaryBytes new of
            Some e \<Rightarrow> (CallFailed e, w)
          | None \<Rightarrow>
             (case info of
                Inl ErrNotExist \<Rightarrow> write_outcome symlink (writeAtomicallyIfUnchanged validate p new None w)
              | Inl ErrOther \<Rightarrow> (CallFailed StatFailed, w)
              | Inr Dir \<Rightarrow> (CallFailed IsDirectory, w)
              | Inr Special \<Rightarrow> (CallFailed NotRegular, w)
              | Inr (File m d) \<Rightarrow>
                 (if maxEditableBytes < int (length d) then (CallFailed TooLarge, w)
                  else case os_ReadFile p w of
                    (Inl e, w1) \<Rightarrow> (CallFailed ReadFailed, w1)
                  | (Inr existing, w1) \<Rightarrow>
                     (case decodeText existing of
                        Inl e \<Rightarrow> (CallFailed e, w1)
                      | Inr (content, bom) \<Rightarrow>
                         (if \<not> blank content then (CallFailed TargetHasText, w1)
                          else write_outcome symlink (writeAtomicallyIfUnchanged validate p
                            (if bom \<and> \<not> HasPrefix new utf8BOM then utf8BOM @ new else new) (Some (m, d)) w1)))))))"

text \<open>\<open>apply\<close> for an edit of an existing file.\<close>

definition edit_file ::
  "(string \<Rightarrow> bool) \<Rightarrow> ((path \<Rightarrow> node option) \<Rightarrow> path \<Rightarrow> bool) \<Rightarrow> path \<Rightarrow> bool \<Rightarrow> EditInput \<Rightarrow> oserr + node \<Rightarrow> world \<Rightarrow>
   callOutcome \<times> world" where
  "edit_file word_rune validate p symlink inp info w =
     (case info of
        Inl ErrNotExist \<Rightarrow> (CallFailed (MatchFailed NoOccurrence), w)
      | Inl ErrOther \<Rightarrow> (CallFailed StatFailed, w)
      | Inr Dir \<Rightarrow> (CallFailed IsDirectory, w)
      | Inr Special \<Rightarrow> (CallFailed NotRegular, w)
      | Inr (File m d) \<Rightarrow>
         (if maxEditableBytes < int (length d) then (CallFailed TooLarge, w)
          else case rejectBinaryExtension (path_text p) of
            Some e \<Rightarrow> (CallFailed e, w)
          | None \<Rightarrow>
             (case os_ReadFile p w of
                (Inl e, w1) \<Rightarrow> (CallFailed ReadFailed, w1)
              | (Inr original, w1) \<Rightarrow>
                 (case edit_text word_rune inp original of
                    EditFailed e \<Rightarrow> (CallFailed e, w1)
                  | EditPanics \<Rightarrow> (CallPanics, w1)
                  | Edited next \<Rightarrow> write_outcome symlink (writeAtomicallyIfUnchanged validate p next (Some (m, d)) w1)))))"

definition edit_apply ::
  "(string \<Rightarrow> bool) \<Rightarrow> ((path \<Rightarrow> node option) \<Rightarrow> path \<Rightarrow> bool) \<Rightarrow> path \<Rightarrow> bool \<Rightarrow> EditInput \<Rightarrow> world \<Rightarrow> callOutcome \<times> world" where
  "edit_apply word_rune validate p symlink inp w =
     (if \<not> validate (fs w) p then (CallFailed MutationDenied, w)
      else case os_Stat p w of
        (Inr Dir, w1) \<Rightarrow> (CallFailed IsDirectory, w1)
      | (info, w1) \<Rightarrow>
         (if OldString inp = [] then create_file validate p symlink (NewString inp) info w1
          else edit_file word_rune validate p symlink inp info w1))"

text \<open>\<open>Call\<close> on the decoded input.\<close>

definition Edit_Call ::
  "(string \<Rightarrow> bool) \<Rightarrow> ((path \<Rightarrow> node option) \<Rightarrow> string \<Rightarrow> (path \<times> bool) option) \<Rightarrow>
   ((path \<Rightarrow> node option) \<Rightarrow> path \<Rightarrow> bool) \<Rightarrow> EditInput \<Rightarrow> world \<Rightarrow> callOutcome \<times> world" where
  "Edit_Call word_rune resolve validate inp w =
     (if blank (Path inp) then (CallFailed PathRequired, w)
      else if OldString inp = NewString inp then (CallFailed SameStrings, w)
      else case resolve (fs w) (Path inp) of
        None \<Rightarrow> (CallFailed NotResolved, w)
      | Some (p, symlink) \<Rightarrow> edit_apply word_rune validate p symlink inp w)"

end
