(* ===== verification/Edit_Tool_Props.thy ===== *)
theory Edit_Tool_Props
  imports Edit_Tool Edit_Props
begin

text \<open>
  What a call of the edit tool does to the file tree and to the text of the file.
\<close>

section \<open>The atomic write\<close>

definition edit_temp :: "path \<Rightarrow> bool" where
  "edit_temp p \<longleftrightarrow> p \<noteq> [] \<and> HasPrefix (last p) ''.kent-edit-''"

lemma file_Write_cases:
  assumes "file_Write p d w = (r, w1)" and "fs w p = Some (File m d0)"
  shows "r = Inl e \<Longrightarrow> fs w1 = fs w" and "r = Inr () \<Longrightarrow> fs w1 = (fs w)(p := Some (File m d))"
  using assms fault_same by (auto simp: file_Write_def split: prod.splits bool.splits)

lemma file_Chmod_cases:
  assumes "file_Chmod p m w = (r, w1)" and "fs w p = Some (File m0 d)"
  shows "r = Inl e \<Longrightarrow> fs w1 = fs w" and "r = Inr () \<Longrightarrow> fs w1 = (fs w)(p := Some (File m d))"
  using assms fault_same by (auto simp: file_Chmod_def split: prod.splits bool.splits)

text \<open>Until the rename only the temporary file is touched.\<close>

lemma write_and_rename_cases:
  assumes w: "write_and_rename validate p tmp d m w = (r, w1)" and t: "fs w tmp = Some (File m0 d0)" and ne: "p \<noteq> tmp"
  shows "r = None \<Longrightarrow> p \<noteq> [] \<and> fs w (butlast p) = Some Dir \<and> fs w p \<noteq> Some Dir \<and>
      fs w1 = (fs w)(tmp := None, p := Some (File m d))"
    and "r \<noteq> None \<Longrightarrow> \<exists>m' d'. fs w1 = (fs w)(tmp := Some (File m' d'))"
proof -
  obtain ra wa where a: "file_Write tmp d w = (ra, wa)" by (cases "file_Write tmp d w")
  note fa = file_Write_cases [OF a t]
  obtain rb wb where b: "file_Chmod tmp m wa = (rb, wb)" by (cases "file_Chmod tmp m wa")
  obtain x wc where c: "fault wb = (x, wc)" by (cases "fault wb")
  obtain y wd where e: "fault wc = (y, wd)" by (cases "fault wc")
  obtain rf wf where f: "os_Rename tmp p wd = (rf, wf)" by (cases "os_Rename tmp p wd")
  have same: "fs wd = fs wb" "fs wc = fs wb" using fault_same [OF c] fault_same [OF e] by simp_all
  have self: "fs w = (fs w)(tmp := Some (File m0 d0))" using t by auto
  have "(r = None \<longrightarrow> p \<noteq> [] \<and> fs w (butlast p) = Some Dir \<and> fs w p \<noteq> Some Dir \<and>
      fs w1 = (fs w)(tmp := None, p := Some (File m d))) \<and>
    (r \<noteq> None \<longrightarrow> (\<exists>m' d'. fs w1 = (fs w)(tmp := Some (File m' d'))))"
  proof (cases ra)
    case (Inl er)
    then have "fs w1 = fs w" "r \<noteq> None" using w a fa(1) by (auto simp: write_and_rename_def)
    with self show ?thesis by metis
  next
    case (Inr u)
    then have A: "fs wa = (fs w)(tmp := Some (File m0 d))" using fa(2) by simp
    then have At: "fs wa tmp = Some (File m0 d)" by simp
    note fb = file_Chmod_cases [OF b At]
    show ?thesis
    proof (cases rb)
      case (Inl er)
      then have "fs w1 = fs wa" "r \<noteq> None" using w a b Inr fb(1) by (auto simp: write_and_rename_def)
      with A show ?thesis by auto
    next
      case (Inr u')
      then have B: "fs wb = (fs w)(tmp := Some (File m d))" using fb(2) A by simp
      have "fs w1 = fs wb" "r \<noteq> None" if "x \<or> y \<or> \<not> validate (fs wd) p \<or> (\<exists>er. rf = Inl er)"
        using w a b c e f \<open>ra = Inr u\<close> Inr same that os_Rename_cases(1) [OF f]
        by (auto simp: write_and_rename_def split: bool.splits if_splits)
      moreover have "r = None" "p \<noteq> [] \<and> fs w (butlast p) = Some Dir \<and> fs w p \<noteq> Some Dir \<and>
          fs w1 = (fs w)(tmp := None, p := Some (File m d))" if "\<not> (x \<or> y \<or> \<not> validate (fs wd) p \<or> (\<exists>er. rf = Inl er))"
      proof -
        from that obtain v where rf: "rf = Inr v" by (cases rf) auto
        have wf: "w1 = wf" "r = None"
          using w a b c e f \<open>ra = Inr u\<close> Inr that rf by (auto simp: write_and_rename_def)
        then show "r = None" by simp
        from os_Rename_cases(2) [OF f] rf same obtain m1 d1 where "fs wb tmp = Some (File m1 d1)" "p \<noteq> []"
          "fs wb (butlast p) = Some Dir" "fs wb p \<noteq> Some Dir" "fs wf = (fs wb)(tmp := None, p := Some (File m1 d1))" by auto
        then show "p \<noteq> [] \<and> fs w (butlast p) = Some Dir \<and> fs w p \<noteq> Some Dir \<and>
          fs w1 = (fs w)(tmp := None, p := Some (File m d))"
          using B ne wf(1) by (auto split: if_splits)
      qed
      ultimately show ?thesis using B by (cases "x \<or> y \<or> \<not> validate (fs wd) p \<or> (\<exists>er. rf = Inl er)") auto
    qed
  qed
  then show "r = None \<Longrightarrow> p \<noteq> [] \<and> fs w (butlast p) = Some Dir \<and> fs w p \<noteq> Some Dir \<and>
      fs w1 = (fs w)(tmp := None, p := Some (File m d))"
    and "r \<noteq> None \<Longrightarrow> \<exists>m' d'. fs w1 = (fs w)(tmp := Some (File m' d'))" by blast+
qed

text \<open>A write that succeeds changes the target and nothing else; one that fails at most leaves a
  temporary file behind. Parent directories may have been created in both cases.\<close>

lemma writeAtomically_cases:
  assumes w: "writeAtomicallyIfUnchanged validate p d info w = (r, w1)" and t: "tree (fs w)"
  shows "r = None \<Longrightarrow> \<exists>g. dirs_added (fs w) g \<and> fs w1 = g(p := Some (File (case info of None \<Rightarrow> 0x1A4 | Some (m, _) \<Rightarrow> m) d)) \<and> g p \<noteq> Some Dir"
    and "r \<noteq> None \<Longrightarrow> \<exists>g. dirs_added (fs w) g \<and> (fs w1 = g \<or> (\<exists>tmp m' d'. edit_temp tmp \<and> g tmp = None \<and> fs w1 = g(tmp := Some (File m' d'))))"
proof -
  let ?m = "case info of None \<Rightarrow> 0x1A4 | Some (m, _) \<Rightarrow> m"
  let ?ok = "\<lambda>r w1. (r = None \<longrightarrow> (\<exists>g. dirs_added (fs w) g \<and> fs w1 = g(p := Some (File ?m d)) \<and> g p \<noteq> Some Dir)) \<and>
    (r \<noteq> None \<longrightarrow> (\<exists>g. dirs_added (fs w) g \<and> (fs w1 = g \<or> (\<exists>tmp m' d'. edit_temp tmp \<and> g tmp = None \<and> fs w1 = g(tmp := Some (File m' d'))))))"
  obtain ra wa where a: "check_unchanged p info w = (ra, wa)" by (cases "check_unchanged p info w")
  have A: "fs wa = fs w" using a os_Stat_cases(1)
    by (fastforce simp: check_unchanged_def split: option.splits prod.splits sum.splits oserr.splits node.splits)
  obtain rb wb where b: "os_MkdirAll (butlast p) wa = (rb, wb)" by (cases "os_MkdirAll (butlast p) wa")
  have B: "tree (fs wb)" "dirs_added (fs w) (fs wb)" using os_MkdirAll_ok [OF b] t A by auto
  obtain rc wc where c: "os_CreateTemp (butlast p) (edit_prefix p) wb = (rc, wc)" by (cases "os_CreateTemp (butlast p) (edit_prefix p) wb")
  have early: "?ok r w1" if "r \<noteq> None" "fs w1 = fs w \<or> fs w1 = fs wb" using that B(2) by (metis dirs_added_refl)
  have "?ok r w1"
  proof (cases "\<not> validate (fs w) p \<or> ra \<noteq> None \<or> (\<exists>er. rb = Inl er) \<or> \<not> validate (fs wb) p \<or> (\<exists>er. rc = Inl er)")
    case True
    show ?thesis
      by (rule early; insert True w a b c A os_CreateTemp_ok(1) [OF c])
        (auto simp: writeAtomicallyIfUnchanged_def split: if_splits option.splits sum.splits)
  next
    case False
    then obtain u tmp where ok: "validate (fs w) p" "ra = None" "rb = Inr u" "validate (fs wb) p" "rc = Inr tmp"
      by (cases rb; cases rc) auto
    note C = os_CreateTemp_ok(2) [OF c ok(5)]
    have temp: "edit_temp tmp" using C by (auto simp: edit_temp_def edit_prefix_def HasPrefix_iff)
    have ne: "p \<noteq> tmp"
    proof
      assume "p = tmp"
      with C obtain x where "p = butlast p @ [edit_prefix p @ x]" by auto
      then have "p \<noteq> []" "last p = edit_prefix p @ x" by (metis snoc_eq_iff_butlast)+
      then have "last p = ''.kent-edit-'' @ last p @ ''-'' @ x" by (simp add: edit_prefix_def)
      then have "length (last p) = length (''.kent-edit-'' @ last p @ ''-'' @ x)" by (rule arg_cong)
      then show False by simp
    qed
    obtain rd wd where d: "write_and_rename validate p tmp d ?m wc = (rd, wd)" by (cases "write_and_rename validate p tmp d ?m wc")
    have ft: "fs wc tmp = Some (File 0x180 [])" using C by simp
    note D = write_and_rename_cases [OF d ft ne]
    have r: "r = rd" "w1 = snd (os_Remove tmp wd)" using w a b c d ok by (auto simp: writeAtomicallyIfUnchanged_def)
    obtain re we where e: "os_Remove tmp wd = (re, we)" by (cases "os_Remove tmp wd")
    show ?thesis
    proof (cases rd)
      case None
      have F: "fs wd = (fs wb)(p := Some (File ?m d))" "fs wb p \<noteq> Some Dir"
        using D(1) [OF None] C ne by (auto simp: fun_eq_iff split: if_splits)
      then have "fs wd tmp = None" using C ne by simp
      then have "fs we = fs wd" using os_Remove_cases(1,2) [OF e] by (cases re) auto
      then show ?thesis using F r e None B(2) by auto
    next
      case (Some er)
      then obtain m' d' where F: "fs wd = (fs wc)(tmp := Some (File m' d'))" using D(2) by blast
      then have F': "fs wd = (fs wb)(tmp := Some (File m' d'))" using C by simp
      have "fs we = (fs wb) \<or> fs we = (fs wb)(tmp := Some (File m' d'))"
        using os_Remove_cases(1,2) [OF e] F' C by (cases re) auto
      then show ?thesis using r e Some B(2) temp C by auto
    qed
  qed
  then show "r = None \<Longrightarrow> \<exists>g. dirs_added (fs w) g \<and> fs w1 = g(p := Some (File ?m d)) \<and> g p \<noteq> Some Dir"
    and "r \<noteq> None \<Longrightarrow> \<exists>g. dirs_added (fs w) g \<and> (fs w1 = g \<or> (\<exists>tmp m' d'. edit_temp tmp \<and> g tmp = None \<and> fs w1 = g(tmp := Some (File m' d'))))"
    by blast+
qed

lemma writeAtomically_data:
  assumes w: "writeAtomicallyIfUnchanged validate p d info w = (r, w1)" and t: "tree (fs w)"
  shows "r = None \<Longrightarrow> data_at (fs w1) = (data_at (fs w))(p := Some d) \<and>
      fs w1 p = Some (File (case info of None \<Rightarrow> 0x1A4 | Some (m, _) \<Rightarrow> m) d)"
    and "r \<noteq> None \<Longrightarrow> data_at (fs w1) q = data_at (fs w) q \<or> data_at (fs w) q = None \<and> edit_temp q"
proof -
  show "data_at (fs w1) = (data_at (fs w))(p := Some d) \<and> fs w1 p = Some (File (case info of None \<Rightarrow> 0x1A4 | Some (m, _) \<Rightarrow> m) d)"
    if "r = None"
  proof -
    from writeAtomically_cases(1) [OF w t that] obtain g where g: "dirs_added (fs w) g"
      "fs w1 = g(p := Some (File (case info of None \<Rightarrow> 0x1A4 | Some (m, _) \<Rightarrow> m) d))" by blast
    have "data_at g = data_at (fs w)" using dirs_added_data [OF g(1)] by (rule ext)
    with g(2) show ?thesis by simp
  qed
  assume "r \<noteq> None"
  from writeAtomically_cases(2) [OF w t this] obtain g where g: "dirs_added (fs w) g"
    and c: "fs w1 = g \<or> (\<exists>tmp m' d'. edit_temp tmp \<and> g tmp = None \<and> fs w1 = g(tmp := Some (File m' d')))" by blast
  have D: "data_at g x = data_at (fs w) x" for x using dirs_added_data [OF g] .
  from c show "data_at (fs w1) q = data_at (fs w) q \<or> data_at (fs w) q = None \<and> edit_temp q"
  proof
    assume "\<exists>tmp m' d'. edit_temp tmp \<and> g tmp = None \<and> fs w1 = g(tmp := Some (File m' d'))"
    then obtain tmp m' d' where x: "edit_temp tmp" "g tmp = None" "fs w1 = g(tmp := Some (File m' d'))" by blast
    have "data_at (fs w) tmp = None" using D [of tmp] x(2) by (simp add: data_at_def)
    with x D show ?thesis by (cases "q = tmp") auto
  qed (simp add: D)
qed


section \<open>A call and the file tree\<close>

text \<open>Every branch of a call either leaves the tree alone or ends in one atomic write of the
  computed bytes.\<close>

definition created :: "string \<Rightarrow> string \<Rightarrow> string option \<Rightarrow> bool" where
  "created new next existing \<longleftrightarrow>
     (case existing of
        None \<Rightarrow> next = new
      | Some d \<Rightarrow> (\<exists>content bom. decodeText d = Inr (content, bom) \<and> blank content \<and>
          next = (if bom \<and> \<not> HasPrefix new utf8BOM then utf8BOM @ new else new)))"

definition writes :: "(string \<Rightarrow> bool) \<Rightarrow> EditInput \<Rightarrow> string option \<Rightarrow> string \<Rightarrow> bool" where
  "writes word_rune inp existing next \<longleftrightarrow>
     (if OldString inp = [] then created (NewString inp) next existing
      else \<exists>original. existing = Some original \<and> edit_text word_rune inp original = Edited next)"

definition info_at :: "(path \<Rightarrow> node option) \<Rightarrow> path \<Rightarrow> (mode \<times> string) option" where
  "info_at f p = (case f p of Some (File m d) \<Rightarrow> Some (m, d) | _ \<Rightarrow> None)"

text \<open>The write that a call may end in.\<close>

definition ends_in_write ::
  "(string \<Rightarrow> bool) \<Rightarrow> ((path \<Rightarrow> node option) \<Rightarrow> path \<Rightarrow> bool) \<Rightarrow> path \<Rightarrow> bool \<Rightarrow> EditInput \<Rightarrow> world \<Rightarrow>
   callOutcome \<times> world \<Rightarrow> bool" where
  "ends_in_write word_rune validate p symlink inp w result \<longleftrightarrow>
     (\<exists>next w1. fs w1 = fs w \<and> writes word_rune inp (data_at (fs w) p) next \<and>
       result = write_outcome symlink (writeAtomicallyIfUnchanged validate p next (info_at (fs w) p) w1))"

lemma ends_in_writeI:
  "fs w1 = fs w \<Longrightarrow> writes word_rune inp (data_at (fs w) p) next \<Longrightarrow>
   result = write_outcome symlink (writeAtomicallyIfUnchanged validate p next (info_at (fs w) p) w1) \<Longrightarrow>
   ends_in_write word_rune validate p symlink inp w result"
  unfolding ends_in_write_def by blast

definition unchanged :: "world \<Rightarrow> callOutcome \<times> world \<Rightarrow> bool" where
  "unchanged w result \<longleftrightarrow> (\<forall>s. fst result \<noteq> CallOk s) \<and> fs (snd result) = fs w"

lemma create_file_cases:
  assumes s: "fs w1 = fs w" and i: "\<And>n. info = Inr n \<Longrightarrow> fs w p = Some n" "info = Inl ErrNotExist \<Longrightarrow> fs w p = None"
    and old: "OldString inp = []"
  shows "unchanged w (create_file validate p symlink (NewString inp) info w1) \<or>
    ends_in_write word_rune validate p symlink inp w (create_file validate p symlink (NewString inp) info w1)"
    (is "unchanged w ?r \<or> ends_in_write _ _ _ _ _ _ ?r")
proof (cases "maxEditableBytes < int (length (NewString inp)) \<or> rejectBinaryExtension (path_text p) \<noteq> None \<or>
    hasMixedLineEndings (NewString inp) \<or> rejectBinaryBytes (NewString inp) \<noteq> None")
  case True
  then have "unchanged w ?r" using s
    by (cases "rejectBinaryExtension (path_text p)"; cases "rejectBinaryBytes (NewString inp)") (auto simp: create_file_def unchanged_def)
  then show ?thesis ..
next
  case guard: False
  then have r: "?r = (case info of
      Inl ErrNotExist \<Rightarrow> write_outcome symlink (writeAtomicallyIfUnchanged validate p (NewString inp) None w1)
    | Inl ErrOther \<Rightarrow> (CallFailed StatFailed, w1)
    | Inr Dir \<Rightarrow> (CallFailed IsDirectory, w1)
    | Inr Special \<Rightarrow> (CallFailed NotRegular, w1)
    | Inr (File m d) \<Rightarrow> ?r)"
    by (auto simp: create_file_def split: sum.splits oserr.splits node.splits)
  show ?thesis
  proof (cases "\<exists>m d. info = Inr (File m d)")
    case False
    show ?thesis
    proof (cases "info = Inl ErrNotExist")
      case True
      then have n: "data_at (fs w) p = None" "info_at (fs w) p = None" using i(2) by (simp_all add: data_at_def info_at_def)
      have "?r = write_outcome symlink (writeAtomicallyIfUnchanged validate p (NewString inp) None w1)" using r True by simp
      then show ?thesis unfolding ends_in_write_def n using s old by (auto simp: writes_def created_def)
    next
      case nx: False
      then have "unchanged w ?r" using r False s
        by (auto simp: unchanged_def split: sum.splits oserr.splits node.splits)
      then show ?thesis ..
    qed
  next
    case True
    then obtain m d where File: "info = Inr (File m d)" by blast
    obtain rd w2 where rd: "os_ReadFile p w1 = (rd, w2)" by (cases "os_ReadFile p w1")
    note R = os_ReadFile_cases [OF rd]
    have f: "data_at (fs w) p = Some d" "info_at (fs w) p = Some (m, d)" using i(1) File by (simp_all add: data_at_def info_at_def)
    show ?thesis
    proof (cases "maxEditableBytes < int (length d) \<or> (\<exists>e. rd = Inl e) \<or> (\<exists>e. decodeText d = Inl e)")
      case True
      have "rd = Inr d \<or> (\<exists>e. rd = Inl e)" using R(2) s i(1) File by (cases rd) auto
      then have "unchanged w ?r"
      proof
        assume "rd = Inr d"
        with True guard File rd s R(1) show ?thesis by (cases "decodeText d") (auto simp: create_file_def unchanged_def)
      next
        assume "\<exists>e. rd = Inl e"
        with guard File rd s R(1) show ?thesis by (auto simp: create_file_def unchanged_def)
      qed
      then show ?thesis ..
    next
      case g: False
      then obtain content bom where dt: "decodeText d = Inr (content, bom)" by (cases "decodeText d") auto
      from g R(2) s i(1) File have rr: "rd = Inr d" by (cases rd) auto
      let ?next = "if bom \<and> \<not> HasPrefix (NewString inp) utf8BOM then utf8BOM @ NewString inp else NewString inp"
      have e: "?r = (if \<not> blank content then (CallFailed TargetHasText, w2)
          else write_outcome symlink (writeAtomicallyIfUnchanged validate p ?next (Some (m, d)) w2))"
        using guard g File rd rr dt by (simp add: create_file_def)
      show ?thesis
      proof (cases "blank content")
        case True
        have "writes word_rune inp (Some d) ?next" using old dt True by (simp add: writes_def created_def)
        then have "ends_in_write word_rune validate p symlink inp w ?r"
          by (intro ends_in_writeI [of w2 w]) (use e True R(1) s f in simp_all)
        then show ?thesis ..
      next
        case False
        then have "unchanged w ?r" using e R(1) s by (simp add: unchanged_def)
        then show ?thesis ..
      qed
    qed
  qed
qed

lemma edit_file_cases:
  assumes s: "fs w1 = fs w" and i: "\<And>n. info = Inr n \<Longrightarrow> fs w p = Some n" and old: "OldString inp \<noteq> []"
  shows "unchanged w (edit_file word_rune validate p symlink inp info w1) \<or>
    ends_in_write word_rune validate p symlink inp w (edit_file word_rune validate p symlink inp info w1)"
    (is "unchanged w ?r \<or> ends_in_write _ _ _ _ _ _ ?r")
proof (cases "\<exists>m d. info = Inr (File m d)")
  case False
  then have "unchanged w ?r" using s
    by (auto simp: edit_file_def unchanged_def split: sum.splits oserr.splits node.splits)
  then show ?thesis ..
next
  case True
  then obtain m d where File: "info = Inr (File m d)" by blast
  obtain rd w2 where rd: "os_ReadFile p w1 = (rd, w2)" by (cases "os_ReadFile p w1")
  note R = os_ReadFile_cases [OF rd]
  have f: "data_at (fs w) p = Some d" "info_at (fs w) p = Some (m, d)" using i File by (simp_all add: data_at_def info_at_def)
  show ?thesis
  proof (cases "maxEditableBytes < int (length d) \<or> rejectBinaryExtension (path_text p) \<noteq> None \<or> (\<exists>e. rd = Inl e)")
    case True
    then have "unchanged w ?r" using File rd s R(1)
      by (cases "rejectBinaryExtension (path_text p)"; cases rd) (auto simp: edit_file_def unchanged_def)
    then show ?thesis ..
  next
    case g: False
    from g R(2) s i File have rr: "rd = Inr d" by (cases rd) auto
    have e: "?r = (case edit_text word_rune inp d of
          EditFailed e \<Rightarrow> (CallFailed e, w2)
        | EditPanics \<Rightarrow> (CallPanics, w2)
        | Edited next \<Rightarrow> write_outcome symlink (writeAtomicallyIfUnchanged validate p next (Some (m, d)) w2))"
      using g File rd rr by (simp add: edit_file_def)
    show ?thesis
    proof (cases "\<exists>next. edit_text word_rune inp d = Edited next")
      case True
      then have "ends_in_write word_rune validate p symlink inp w ?r"
        unfolding ends_in_write_def f using e R(1) s old by (auto simp: writes_def)
      then show ?thesis ..
    next
      case False
      then have "unchanged w ?r" using e R(1) s by (auto simp: unchanged_def split: editOutcome.splits)
      then show ?thesis ..
    qed
  qed
qed

lemma Edit_Call_cases:
  assumes t: "tree (fs w)"
  shows "unchanged w (Edit_Call word_rune resolve validate inp w) \<or>
    (\<exists>p symlink. resolve (fs w) (Path inp) = Some (p, symlink) \<and>
       ends_in_write word_rune validate p symlink inp w (Edit_Call word_rune resolve validate inp w))"
proof (cases "resolve (fs w) (Path inp)")
  case None
  then show ?thesis by (simp add: Edit_Call_def unchanged_def)
next
  case (Some x)
  then obtain p symlink where res: "resolve (fs w) (Path inp) = Some (p, symlink)" by (cases x) auto
  obtain info w1 where st: "os_Stat p w = (info, w1)" by (cases "os_Stat p w")
  note S = os_Stat_cases [OF st]
  show ?thesis
  proof (cases "TrimSpace (Path inp) = [] \<or> OldString inp = NewString inp \<or> \<not> validate (fs w) p \<or> info = Inr Dir")
    case True
    then have "unchanged w (Edit_Call word_rune resolve validate inp w)"
      using res st S(1) by (auto simp: Edit_Call_def edit_apply_def unchanged_def)
    then show ?thesis ..
  next
    case False
    have "Edit_Call word_rune resolve validate inp w =
        (if OldString inp = [] then create_file validate p symlink (NewString inp) info w1
         else edit_file word_rune validate p symlink inp info w1)"
      using False res st by (auto simp: Edit_Call_def edit_apply_def split: sum.splits node.splits)
    then show ?thesis
      using create_file_cases [of w1 w info p inp] edit_file_cases [of w1 w info p inp] S t res by (cases "OldString inp = []") auto
  qed
qed

section \<open>What a call does\<close>

text \<open>C14: A call of the edit tool that does not succeed - it is refused, an operation of the file system
  fails at any point, or it panics - changes no file: every path has the bytes it had, except that
  a temporary file of the tool may be left behind where there was none.\<close>

theorem edit_failure_keeps_files:
  assumes "Edit_Call word_rune resolve validate inp w = (r, w')" and "tree (fs w)" and "\<nexists>s. r = CallOk s"
  shows "data_at (fs w') q = data_at (fs w) q \<or> data_at (fs w) q = None \<and> edit_temp q"
proof -
  from Edit_Call_cases [OF assms(2), of word_rune resolve validate inp] assms(1)
  consider "unchanged w (r, w')" | p symlink where "ends_in_write word_rune validate p symlink inp w (r, w')" by auto
  then show ?thesis
  proof cases
    case 1
    then show ?thesis by (simp add: unchanged_def)
  next
    case 2
    then obtain out w1 where w1: "fs w1 = fs w"
      and o: "(r, w') = write_outcome symlink (writeAtomicallyIfUnchanged validate p out (info_at (fs w) p) w1)"
      unfolding ends_in_write_def by blast
    obtain e w2 where e: "writeAtomicallyIfUnchanged validate p out (info_at (fs w) p) w1 = (e, w2)"
      by (cases "writeAtomicallyIfUnchanged validate p out (info_at (fs w) p) w1")
    then have "w' = w2" "e \<noteq> None" using o assms(3) by (cases e; auto simp: write_outcome_def)+
    then show ?thesis using writeAtomically_data(2) [OF e] w1 assms(2) by simp
  qed
qed

lemma edit_success:
  assumes "Edit_Call word_rune resolve validate inp w = (CallOk s, w')" and "tree (fs w)"
  shows "\<exists>p next. resolve (fs w) (Path inp) = Some (p, s) \<and> writes word_rune inp (data_at (fs w) p) next \<and>
    data_at (fs w') = (data_at (fs w))(p := Some next) \<and>
    fs w' p = Some (File (case info_at (fs w) p of None \<Rightarrow> 0x1A4 | Some (m, _) \<Rightarrow> m) next)"
proof -
  from Edit_Call_cases [OF assms(2), of word_rune resolve validate inp] assms(1)
  obtain p symlink where p: "resolve (fs w) (Path inp) = Some (p, symlink)"
    and "ends_in_write word_rune validate p symlink inp w (CallOk s, w')" by (auto simp: unchanged_def)
  then obtain out w1 where w1: "fs w1 = fs w" "writes word_rune inp (data_at (fs w) p) out"
    and o: "(CallOk s, w') = write_outcome symlink (writeAtomicallyIfUnchanged validate p out (info_at (fs w) p) w1)"
    unfolding ends_in_write_def by blast
  obtain e w2 where e: "writeAtomicallyIfUnchanged validate p out (info_at (fs w) p) w1 = (e, w2)"
    by (cases "writeAtomicallyIfUnchanged validate p out (info_at (fs w) p) w1")
  then have "w' = w2" "e = None" "s = symlink" using o by (auto simp: write_outcome_def split: option.splits)
  then show ?thesis using writeAtomically_data(1) [OF e] w1 assms(2) p by auto
qed

text \<open>C22: A call without a searched text that succeeds creates the file with exactly the given text
  and permissions 0644, or fills an existing file that holds only white space, keeping its
  permissions and its byte order mark. No other file changes.\<close>

theorem edit_creates:
  assumes "Edit_Call word_rune resolve validate inp w = (CallOk s, w')" and "tree (fs w)" and "OldString inp = []"
  shows "\<exists>p next. resolve (fs w) (Path inp) = Some (p, s) \<and> data_at (fs w') = (data_at (fs w))(p := Some next) \<and>
    (case data_at (fs w) p of
       None \<Rightarrow> next = NewString inp \<and> fs w' p = Some (File 0x1A4 next)
     | Some d \<Rightarrow> \<exists>m content bom. fs w p = Some (File m d) \<and> fs w' p = Some (File m next) \<and>
         decodeText d = Inr (content, bom) \<and> blank content \<and>
         next = (if bom \<and> \<not> HasPrefix (NewString inp) utf8BOM then utf8BOM @ NewString inp else NewString inp))"
proof -
  from edit_success [OF assms(1,2)] obtain p out where p: "resolve (fs w) (Path inp) = Some (p, s)"
    "writes word_rune inp (data_at (fs w) p) out" "data_at (fs w') = (data_at (fs w))(p := Some out)"
    "fs w' p = Some (File (case info_at (fs w) p of None \<Rightarrow> 0x1A4 | Some (m, _) \<Rightarrow> m) out)" by blast
  then show ?thesis using assms(3)
    by (intro exI [of _ p] exI [of _ out])
      (auto simp: writes_def created_def info_at_def data_at_def split: option.splits node.splits)
qed

section \<open>The text of an edit\<close>

definition plain_text :: "string \<Rightarrow> bool" where
  "plain_text s \<longleftrightarrow> rejectBinaryBytes s = None"

lemma decodeText_ok:
  "decodeText d = Inr (content, bom) \<Longrightarrow> d = (if bom then utf8BOM else []) @ content \<and> plain_text content"
  by (auto simp: decodeText_def Let_def plain_text_def HasPrefix_iff split: if_splits option.splits)

lemma edit_text_cases:
  assumes "edit_text word_rune inp original = r" and "\<nexists>e. r = EditFailed e"
  shows "\<exists>content bom sel. decodeText original = Inr (content, bom) \<and>
    selectReplacement word_rune content inp = Inr sel \<and>
    (case applyReplacement content sel of None \<Rightarrow> r = EditPanics
     | Some updated \<Rightarrow> r = Edited ((if bom then utf8BOM else []) @ updated))"
proof -
  from assms obtain content bom where d: "decodeText original = Inr (content, bom)"
    by (cases "decodeText original") (auto simp: edit_text_def)
  with assms obtain sel where s: "selectReplacement word_rune content inp = Inr sel"
    by (cases "selectReplacement word_rune content inp") (auto simp: edit_text_def)
  have "case applyReplacement content sel of None \<Rightarrow> r = EditPanics
     | Some updated \<Rightarrow> r = Edited ((if bom then utf8BOM else []) @ updated)"
    using assms d s by (auto simp: edit_text_def Let_def split: option.splits if_splits)
  with d s show ?thesis by blast
qed

lemma panicked:
  assumes "Edit_Call word_rune resolve validate inp w = (CallPanics, w')" and "tree (fs w)"
  shows "OldString inp \<noteq> [] \<and> (\<exists>p s original. resolve (fs w) (Path inp) = Some (p, s) \<and> data_at (fs w) p = Some original \<and>
    edit_text word_rune inp original = EditPanics)"
proof -
  have wo: "fst (write_outcome s x) \<noteq> CallPanics" "write_outcome s x \<noteq> (CallPanics, y)" for s x y
    by (auto simp: write_outcome_def split: option.splits)
  from assms(1) obtain p s where p: "resolve (fs w) (Path inp) = Some (p, s)"
    and e: "edit_apply word_rune validate p s inp w = (CallPanics, w')"
    by (auto simp: Edit_Call_def split: if_splits option.splits)
  obtain info w1 where st: "os_Stat p w = (info, w1)" by (cases "os_Stat p w")
  have nc: "fst (create_file validate p s (NewString inp) info w1) \<noteq> CallPanics"
    using wo(1) by (auto simp: create_file_def split: option.splits sum.splits oserr.splits node.splits prod.splits)
  have f: "OldString inp \<noteq> []" "edit_file word_rune validate p s inp info w1 = (CallPanics, w')"
    using e st nc by (auto simp: edit_apply_def split: if_splits sum.splits node.splits)
  then obtain m d where i: "info = Inr (File m d)"
    by (auto simp: edit_file_def split: sum.splits oserr.splits node.splits)
  obtain rd w2 where rd: "os_ReadFile p w1 = (rd, w2)" by (cases "os_ReadFile p w1")
  with f i obtain original where r: "rd = Inr original" "edit_text word_rune inp original = EditPanics"
    using wo(2) by (cases rd) (auto simp: edit_file_def split: if_splits option.splits editOutcome.splits)
  have "data_at (fs w) p = Some original"
    using os_ReadFile_cases(2) [OF rd r(1)] os_Stat_cases(1) [OF st] by (auto simp: data_at_def)
  with p f(1) r(2) show ?thesis by blast
qed

text \<open>The call has selected a text to be deleted, not replaced.\<close>

definition deletes :: "(string \<Rightarrow> bool) \<Rightarrow> EditInput \<Rightarrow> string \<Rightarrow> bool" where
  "deletes word_rune inp content =
     (case selectReplacement word_rune content inp of Inl _ \<Rightarrow> False | Inr sel \<Rightarrow> newText sel = [])"


text \<open>C18: A call panics only when every occurrence of a text is to be deleted: the slices of the
  replacement are in range in every other case, whatever the file holds.\<close>

theorem edit_panics_only_deleting_all:
  assumes "Edit_Call word_rune resolve validate inp w = (CallPanics, w')" and "tree (fs w)"
  shows "input_ReplaceAll inp \<and> (\<exists>p s original content bom. resolve (fs w) (Path inp) = Some (p, s) \<and>
    data_at (fs w) p = Some original \<and> decodeText original = Inr (content, bom) \<and> deletes word_rune inp content)"
proof -
  from panicked [OF assms] obtain p s original where p: "resolve (fs w) (Path inp) = Some (p, s)"
    "data_at (fs w) p = Some original" "edit_text word_rune inp original = EditPanics" and old: "OldString inp \<noteq> []" by blast
  from edit_text_cases [OF p(3)] obtain content bom sel where d: "decodeText original = Inr (content, bom)"
    and s: "selectReplacement word_rune content inp = Inr sel" and a: "applyReplacement content sel = None"
    by (auto split: option.splits)
  have "newText sel = []"
  proof (rule ccontr)
    assume "newText sel \<noteq> []"
    from select_replaces [OF s this old] a show False by (auto split: if_splits)
  qed
  moreover have "input_ReplaceAll inp" using select_deletes [OF s calculation] a by auto
  ultimately show ?thesis using p d s by (auto simp: deletes_def)
qed

end
