(* ===== verification/Edit_Examples.thy ===== *)
theory Edit_Examples
  imports Edit_Tool_Props
begin

text \<open>The theorems on the edit tool at concrete inputs, and the runs in which deleting every
  occurrence, or a match that is not exact, goes wrong.\<close>

section \<open>A file tree with one file\<close>

definition no_word :: "string \<Rightarrow> bool" where
  "no_word r = False"

definition name_resolve :: "(path \<Rightarrow> node option) \<Rightarrow> string \<Rightarrow> (path \<times> bool) option" where
  "name_resolve f p = Some ([p], False)"

definition always :: "(path \<Rightarrow> node option) \<Rightarrow> path \<Rightarrow> bool" where
  "always f p = True"

definition edit_world :: "bool list \<Rightarrow> string \<Rightarrow> world" where
  "edit_world flt d =
     \<lparr>fs = [[] \<mapsto> Dir, [''f''] \<mapsto> File 0x1B4 d], faults = flt, umask = 0x12, randoms = [''1'']\<rparr>"

definition edit_run :: "EditInput \<Rightarrow> bool list \<Rightarrow> string \<Rightarrow> callOutcome \<times> world" where
  "edit_run inp flt d = Edit_Call no_word name_resolve always inp (edit_world flt d)"

definition bytes_after :: "EditInput \<Rightarrow> string \<Rightarrow> string option" where
  "bytes_after inp d = data_at (fs (snd (edit_run inp [] d))) [''f'']"

definition delete_all :: EditInput where
  "delete_all = \<lparr>Path = ''f'', OldString = [nl] @ ''a'', NewString = [], input_ReplaceAll = True\<rparr>"

definition rename_one :: EditInput where
  "rename_one = \<lparr>Path = ''f'', OldString = ''  foo(x)'', NewString = ''bar'', input_ReplaceAll = False\<rparr>"

definition create_new :: EditInput where
  "create_new = \<lparr>Path = ''new'', OldString = [], NewString = ''text'', input_ReplaceAll = False\<rparr>"

definition two_lines :: string where
  "two_lines = [nl] @ ''a'' @ [nl] @ ''a''"

lemma edit_world_tree: "tree (fs (edit_world flt d))"
  by (auto simp: tree_def edit_world_def)


section \<open>Runs that go wrong\<close>

text \<open>The range of a deletion grows by the line end behind it, which may be the start of the next
  occurrence; the ranges then overlap, and deleting every occurrence of a text panics on a
  slice that is out of range.\<close>

theorem edit_delete_all_panics: "fst (edit_run delete_all [] two_lines) = CallPanics"
  by code_simp

text \<open>With more text behind the last occurrence the same overlap takes text that was not matched.\<close>

theorem edit_delete_all_takes_other_text:
  "bytes_after delete_all (two_lines @ [nl] @ ''b'') = Some [] \<and>
   ReplaceAll (two_lines @ [nl] @ ''b'') ([nl] @ ''a'') [] = [nl] @ ''b''"
  by (rule conjI) code_simp+

text \<open>A match that is not exact ends with its last line, line end included. When the searched text
  has no final line end, the replacement joins the next line.\<close>

theorem edit_fuzzy_match_joins_lines:
  "bytes_after rename_one (''foo(x)'' @ [nl] @ ''x;'' @ [nl]) = Some (''barx;'' @ [nl]) \<and>
   bytes_after rename_one (''  foo(x)'' @ [nl] @ ''x;'' @ [nl]) = Some (''bar'' @ [nl] @ ''x;'' @ [nl])"
  by (rule conjI) code_simp+


section \<open>The theorems at concrete inputs\<close>

theorem edit_panics_only_deleting_all_sample:
  "input_ReplaceAll delete_all \<and> (\<exists>p s original content bom. name_resolve (fs (edit_world [] two_lines)) (Path delete_all) = Some (p, s) \<and>
    data_at (fs (edit_world [] two_lines)) p = Some original \<and> decodeText original = Inr (content, bom) \<and>
    deletes no_word delete_all content)"
proof (rule edit_panics_only_deleting_all [OF _ edit_world_tree])
  have "fst (edit_run delete_all [] two_lines) = CallPanics" by code_simp
  then show "Edit_Call no_word name_resolve always delete_all (edit_world [] two_lines) = (CallPanics, snd (edit_run delete_all [] two_lines))"
    by (simp add: edit_run_def prod_eq_iff)
qed

theorem edit_failure_keeps_files_sample:
  "fst (edit_run rename_one (replicate 8 False @ [True]) (''  foo(x)'')) = CallFailed CommitFailed \<and>
   (data_at (fs (snd (edit_run rename_one (replicate 8 False @ [True]) (''  foo(x)'')))) [''f''] =
      data_at (fs (edit_world (replicate 8 False @ [True]) (''  foo(x)''))) [''f''] \<or>
    data_at (fs (edit_world (replicate 8 False @ [True]) (''  foo(x)''))) [''f''] = None \<and> edit_temp [''f''])"
proof (rule conjI)
  show e: "fst (edit_run rename_one (replicate 8 False @ [True]) (''  foo(x)'')) = CallFailed CommitFailed" by code_simp
  show "data_at (fs (snd (edit_run rename_one (replicate 8 False @ [True]) (''  foo(x)'')))) [''f''] =
      data_at (fs (edit_world (replicate 8 False @ [True]) (''  foo(x)''))) [''f''] \<or>
    data_at (fs (edit_world (replicate 8 False @ [True]) (''  foo(x)''))) [''f''] = None \<and> edit_temp [''f'']"
    by (rule edit_failure_keeps_files [OF _ edit_world_tree])
      (use e in \<open>auto simp: edit_run_def prod_eq_iff\<close>)
qed

theorem edit_creates_sample:
  "\<exists>p next. name_resolve (fs (edit_world [] [])) (Path create_new) = Some (p, False) \<and>
    data_at (fs (snd (edit_run create_new [] []))) = (data_at (fs (edit_world [] [])))(p := Some next) \<and>
    (case data_at (fs (edit_world [] [])) p of
       None \<Rightarrow> next = NewString create_new \<and> fs (snd (edit_run create_new [] [])) p = Some (File 0x1A4 next)
     | Some d \<Rightarrow> \<exists>m content bom. fs (edit_world [] []) p = Some (File m d) \<and>
         fs (snd (edit_run create_new [] [])) p = Some (File m next) \<and>
         decodeText d = Inr (content, bom) \<and> blank content \<and>
         next = (if bom \<and> \<not> HasPrefix (NewString create_new) utf8BOM then utf8BOM @ NewString create_new else NewString create_new))"
proof (rule edit_creates [OF _ edit_world_tree])
  have "fst (edit_run create_new [] []) = CallOk False" by code_simp
  then show "Edit_Call no_word name_resolve always create_new (edit_world [] []) = (CallOk False, snd (edit_run create_new [] []))"
    by (simp add: edit_run_def prod_eq_iff)
  show "OldString create_new = []" by (simp add: create_new_def)
qed


end
