(* ===== verification/Spec2Isabelle.thy ===== *)
theory Spec2Isabelle
  imports Prelude Wf_Types Wf_Errors Wf_Graph Wf_Fanout Wf_Agents Wf_Agents_Props Wf_Prompts Wf_Wiring
    Wf_Wiring_Props Wf_Current Wf_Session_Reuse Wf_Session_Reuse_Props Wf_Session_Reuse_Total
    Wf_Validation Wf_Validation_Props Wf_Validation_Sound Wf_Validation_Draft Wf_Examples Wf_Validation_Examples
    Adm_Queue Adm_Queue_Props Adm_Controller Adm_System Adm_Invariant Adm_Interruption Adm_Safety Adm_Props Adm_Examples
    Lane_Registry Lane_Props Task_Mutations Task_Mutations_Props Lane_Examples
    Go_Strings Os_Files Patch_Format Patch_Format_Props Patch_Apply Patch_Apply_Props Patch_Commit Patch_Commit_Props
    Patch_Props Patch_Examples Edit_Match Edit_Props Edit_Tool Edit_Tool_Props Edit_Examples
begin

text \<open>
  Verification of the workflow core and the file editing tools of Kent.

  Kent runs coding agents. A workflow (\<open>server/workflow\<close>) is a graph of nodes (start, agent,
  script, join, terminal) connected by transition groups; a group with several edges opens a
  fan-out whose branches meet again in a join. The server stores workflows, moves the current
  nodes of a task along them and starts agent sessions. The decisions of that process are
  pure functions of the package \<open>server/workflow\<close>. Which current nodes run, and when, is decided
  by the controller of \<open>server/workflowexecution\<close>: it queues starts, hands them to workers within
  an agent capacity, and interrupts tasks. Mutations of a task go through the lanes of
  \<open>server/mutationlane\<close>, one at a time per task. A running agent changes files with two tools,
  \<open>server/tools/patch\<close> and \<open>server/tools/edit\<close>. These packages are what this development models.

  \<^bold>\<open>Representation.\<close> A Go string is a \<open>string\<close> of bytes, a UUID a 128-bit word, a struct a
  record whose fields carry a short prefix, a tagged interface or a string enum a datatype (with
  an extra constructor for other values where the code meets them). A Go map is an association
  list without repeated keys (\<open>gomap\<close>, \<open>map_of\<close>, \<open>AList.update\<close>); its order stands for the
  unspecified iteration order, so a theorem about every association list is a theorem about
  every order. A method that mutates its receiver returns the new record. An error return is
  \<open>Inl\<close>, a panic is \<open>None\<close>. Loops over a slice are folds or structural recursions. Worklists are
  functions with a termination proof, or \<open>while_option\<close>, whose value is \<open>None\<close> when the loop
  does not end: no fuel is used anywhere, and termination is part of what is proved. Messages
  of errors are left out; their codes, references and blocking flags are kept.

  \<^bold>\<open>Theories.\<close>
  \<^item> \<open>Prelude\<close>: strings (\<open>strings.TrimSpace\<close>, case folding), maps, folds, walks in a graph and
    the search orders that carry the termination proofs.
  \<^item> \<open>Wf_Types\<close>: \<open>types.go\<close>, \<open>execution_target.go\<close> and \<open>shared/workflowkey/key.go\<close>.
  \<^item> \<open>Wf_Errors\<close>: \<open>validation_types.go\<close>.
  \<^item> \<open>Wf_Graph\<close>: the searches of \<open>derived_wiring.go\<close> and \<open>validation.go\<close>. Each search is proved
    equal to its meaning in terms of walks: reachability, dominance by a group or a node,
    reachability of a terminal.
  \<^item> \<open>Wf_Fanout\<close>: \<open>fanout_join.go\<close>. Which branches are accepted, what their distances are, which
    join is the nearest common one, and soundness of the resolution of a join.
  \<^item> \<open>Wf_Agents\<close>, \<open>Wf_Agents_Props\<close>: choice of the target agent and its thinking level, session
    policy, selector applicability and the parameter contract
    (\<open>target_agent_selection.go\<close>, \<open>target_agent_thinking.go\<close>, \<open>target_agent_execution.go\<close>,
    \<open>session_policy.go\<close>, \<open>selector_applicability.go\<close>, \<open>protected_parameter_policy.go\<close>,
    \<open>transition_parameter_contract.go\<close>, \<open>current_execution_selection.go\<close>, and the role names of
    \<open>shared/config/subagents.go\<close>). The role catalog is an interface of the server and a parameter.
  \<^item> \<open>Wf_Prompts\<close>: \<open>prompt_refs.go\<close>, over the syntax tree of \<open>text/template\<close>; the parser is a
    parameter. What the extraction reports, when it panics, and that resolved branches exist.
  \<^item> \<open>Wf_Wiring\<close>, \<open>Wf_Wiring_Props\<close>: \<open>derived_wiring.go\<close>. The invariant of the derived field lists,
    and that a prior parameter a node depends on has always been provided.
  \<^item> \<open>Wf_Current\<close>: \<open>current_state.go\<close> and \<open>retained_target.go\<close>. Constructors against an invariant,
    identity of keys, wire round trips.
  \<^item> \<open>Wf_Session_Reuse\<close>, \<open>Wf_Session_Reuse_Props\<close>, \<open>Wf_Session_Reuse_Total\<close>:
    \<open>session_reuse_analysis.go\<close>. The path-state graph is built by a worklist that re-opens states
    when their provenance changes; the locale \<open>finite_paths\<close> states what the termination argument
    needs of an analyzer (a finite universe of state skeletons closed under its transitions), and
    it is interpreted for every analyzer. The classification is related to a greatest fixed point.
  \<^item> \<open>Wf_Validation\<close>: \<open>validation.go\<close>, every check as a function on the validation state.
    \<open>Wf_Validation_Props\<close> has the locales of the checks: a \<open>check_step\<close> leaves the indexes alone
    and reports a blocking error exactly when its condition fails, a \<open>total_step\<close> cannot panic
    besides, an \<open>indexing_loop\<close> fills an index; every loop of the validator is an interpretation,
    so that a validation without blocking errors is a conjunction of conditions.
    \<open>Wf_Validation_Sound\<close> draws the conclusions: well-formedness, the shape of the graph, no
    missing prompt parameter, no missing continuation source, and that validation returns.
    \<open>Wf_Validation_Draft\<close>: what is accepted for execution is accepted as a draft.
  \<^item> \<open>Wf_Examples\<close>, \<open>Wf_Validation_Examples\<close>: concrete workflows on which the theorems with hypotheses are applied.
  \<^item> \<open>Adm_Queue\<close>: \<open>current_node_automatic_queue.go\<close>, three doubly linked lists through one store of
    entries. \<open>Adm_Queue_Props\<close> relates the store to a list of entries and each operation to a list
    operation; the locale \<open>start_queue\<close> states what the controller relies on, and the queue is its
    interpretation.
  \<^item> \<open>Adm_Controller\<close>: the state that \<open>CurrentNodeController.mu\<close> guards and each critical section on it,
    from \<open>current_node_admission.go\<close>, \<open>current_node_controller.go\<close>, \<open>current_node_lifecycle.go\<close>,
    \<open>current_node_interruption.go\<close> and \<open>current_node_interrupt_state.go\<close>. Leases, completions and
    fences are pointers: the state has a store for each.
  \<^item> \<open>Adm_System\<close>: the admission loop, the workers, the callbacks and the callers as a transition
    system whose steps are the critical sections (\<open>enabled\<close>, \<open>exec\<close>, \<open>reachable\<close>). The store, the
    runner and the session authority are outside: every outcome of their calls is possible.
  \<^item> \<open>Adm_Invariant\<close>, \<open>Adm_Interruption\<close>, \<open>Adm_Safety\<close>: the invariant of the system and that every
    step keeps it. \<open>Adm_Props\<close>: capacity bounds, single ownership of a current node, no lost
    wake-up, waiting callers, what an interruption drains, and which steps can panic.
    \<open>Adm_Examples\<close>: concrete runs, among them one in which a worker panics.
  \<^item> \<open>Lane_Registry\<close>: \<open>mutationlane/mutation_lane.go\<close>, reader/writer lanes per key, and any number of
    callers as a transition system with one step per critical section. \<open>Lane_Props\<close>: the invariant
    between the registry and the multiset of references and leases; exclusion, no panic, no leak.
  \<^item> \<open>Task_Mutations\<close>: \<open>task_mutation_coordinator.go\<close>, calls of \<open>RunMany\<close> as jobs on top of the callers of the
    lanes. \<open>Task_Mutations_Props\<close>: exclusion of operations, no deadlock (lanes are taken in the order of
    the ids), and that every run ends. \<open>Lane_Examples\<close>: concrete runs.
  \<^item> \<open>Go_Strings\<close>, \<open>Os_Files\<close>: what the tools use of \<open>strings\<close>, \<open>bufio\<close> and \<open>os\<close>. The file system is a tree of
    nodes; every operation may fail, as a list of faults decides, so that a theorem about every list
    is a theorem about a failure at every point.
  \<^item> \<open>Patch_Format\<close>, \<open>Patch_Format_Props\<close>: \<open>shared/transcriptmodel/patchformat/parse.go\<close>; parsed documents
    are well-formed, and printing is inverted by parsing.
  \<^item> \<open>Patch_Apply\<close>, \<open>Patch_Apply_Props\<close>: \<open>tools/patch/tool_apply.go\<close>. Hunk headers with 64-bit numbers, and the
    application of hunks against the relation \<open>edits\<close>, which says what hunks may do to a text.
  \<^item> \<open>Patch_Commit\<close>: \<open>tool_state.go\<close>, \<open>tool_commit.go\<close> and \<open>tool.go\<close>: pending states, staging, commit and
    roll-back. \<open>Patch_Commit_Props\<close>, \<open>Patch_Props\<close>: a failed patch changes no file, a successful one
    leaves exactly the pending files. \<open>Patch_Examples\<close>: concrete patches, and runs where the tool
    departs from its purpose.
  \<^item> \<open>Edit_Match\<close>, \<open>Edit_Props\<close>: \<open>tools/edit/matcher.go\<close>, all matching strategies and the replacement.
    \<open>Edit_Tool\<close>, \<open>Edit_Tool_Props\<close>: \<open>tools/edit/tool.go\<close>; what a successful call writes, that a failed one
    writes nothing, and when a call panics. \<open>Edit_Examples\<close>: concrete edits, among them faulty ones.

  \<^bold>\<open>Parameters.\<close> The role catalog and the template parser (above); for the tools, the resolution and
  authorization of a path (\<open>resolve\<close>), its repeated check before a change (\<open>validate\<close>), and the Unicode
  tables of letters and digits (\<open>word_rune\<close>). Theorems about the patch tool assume that the paths of the
  patch do not resolve to the names of the tool's own temporary files.

  \<^bold>\<open>Not modelled.\<close> The rest of the server is storage (SQLite through generated queries), process
  and network control, and language-model transport; the terminal and desktop interfaces render
  state. Their behaviour is that of external systems. Of \<open>server/workflow\<close>, cloning is the
  identity on values, and JSON encoding is modelled at the level of the wire structs. Of
  \<open>server/workflowexecution\<close>, the planning of completions, resumes and moves is a sequence of calls
  to the store; its controller side (availability checks, queueing) is modelled. Of the tools,
  the locks on the paths of a call, cancellation, modification times, the removal of empty
  directories, the messages, and the display code of \<open>patchformat\<close> are left out.
\<close>

end
